(* ===== verification/Prelude.thy ===== *)
theory Prelude
  imports Complex_Main "HOL-Library.AList" "HOL-Library.Multiset"
begin

text \<open>
  What the components share: JavaScript numbers as the model uses them (\<open>Math.round\<close>,
  \<open>%\<close>), strings (decimal rendering, \<open>parseInt\<close>, the digit runs that \<open>match(/\d+/g)\<close>
  returns, \<open>split\<close>, \<open>startsWith\<close>), objects used as dictionaries (association lists in
  insertion order, as \<open>for (key in obj)\<close> enumerates string keys), the interfaces
  (locales) more than one component relies on, and the lemma collections.

  Numbers: a JavaScript number is modelled by an unbounded \<open>int\<close> where the source
  only computes integers and by a \<open>real\<close> where it divides; rounding errors of
  IEEE doubles and integers beyond \<open>2^53\<close> are outside the model.
\<close>

named_theorems js_defs \<open>defining equations of the small operations on values\<close>
named_theorems js_str \<open>facts about rendered and parsed strings\<close>

section \<open>Numbers\<close>

text \<open>\<open>Math.round\<close> rounds half up, towards plus infinity.\<close>

definition js_round :: "real \<Rightarrow> int" where
  "js_round x = \<lfloor>x + 1 / 2\<rfloor>"

text \<open>The remainder operator on integers takes the sign of the dividend.\<close>

definition js_rem :: "int \<Rightarrow> int \<Rightarrow> int" where
  "js_rem a b = sgn a * (\<bar>a\<bar> mod \<bar>b\<bar>)"

lemma js_round_of_int [simp]: "js_round (of_int n) = n"
  by (simp add: js_round_def floor_eq_iff)

lemma js_round_bounds: "real_of_int (js_round x) \<le> x + 1 / 2" "x - 1 / 2 < real_of_int (js_round x)"
  unfolding js_round_def by linarith+

lemma js_round_near: "\<bar>real_of_int (js_round x) - x\<bar> \<le> 1 / 2"
  using js_round_bounds [of x] by linarith

lemma js_round_mono: "x \<le> y \<Longrightarrow> js_round x \<le> js_round y"
  unfolding js_round_def by (intro floor_mono) simp

lemma js_round_close: "\<bar>x - of_int n\<bar> < 1 / 2 \<Longrightarrow> js_round x = n"
  unfolding js_round_def by linarith

text \<open>The base of all scales: a zoom level is a factor 1.2.\<close>

lemma log_base_powi: "ln ((6 / 5 :: real) powi n) = of_int n * ln (6 / 5)"
proof (cases "0 \<le> n")
  case True
  then show ?thesis by (simp add: power_int_def ln_realpow)
next
  case False
  then have "(6 / 5 :: real) powi n = inverse ((6 / 5) ^ nat (- n))" by (simp only: power_int_def if_False power_inverse)
  then have "ln ((6 / 5 :: real) powi n) = - ln ((6 / 5) ^ nat (- n))" by (simp add: ln_inverse)
  also have "\<dots> = - (of_nat (nat (- n)) * ln (6 / 5))" by (subst ln_realpow) simp_all
  finally show ?thesis using False by simp
qed

section \<open>Strings\<close>

definition char_code :: "char \<Rightarrow> nat" where
  "char_code c = of_char c"

definition is_digit :: "char \<Rightarrow> bool" where
  "is_digit c \<longleftrightarrow> 48 \<le> char_code c \<and> char_code c \<le> 57"

definition digit_char :: "nat \<Rightarrow> char" where
  "digit_char d = char_of (48 + d)"

definition digit_val :: "char \<Rightarrow> nat" where
  "digit_val c = char_code c - 48"

fun show_nat :: "nat \<Rightarrow> string" where
  "show_nat n = (if n < 10 then [digit_char n] else show_nat (n div 10) @ [digit_char (n mod 10)])"

declare show_nat.simps [simp del]

text \<open>\<open>'' + n\<close> for an integer number \<open>n\<close>.\<close>

definition show_int :: "int \<Rightarrow> string" where
  "show_int i = (if i < 0 then CHR ''-'' # show_nat (nat (- i)) else show_nat (nat i))"

definition read_nat :: "string \<Rightarrow> nat" where
  "read_nat s = foldl (\<lambda>a c. 10 * a + digit_val c) 0 s"

text \<open>Unary plus on the string of a decimal integer; \<open>None\<close> is \<open>NaN\<close>. The empty string
  converts to 0. Other numeric literals (fractions, exponents, hexadecimal) do not occur in
  the keys the code converts and are \<open>None\<close> here.\<close>

definition js_number :: "string \<Rightarrow> int option" where
  "js_number s = (case s of
      [] \<Rightarrow> Some 0
    | c # r \<Rightarrow>
        if c = CHR ''-'' then
          (if r \<noteq> [] \<and> list_all is_digit r then Some (- int (read_nat r)) else None)
        else if list_all is_digit s then Some (int (read_nat s)) else None)"

text \<open>\<open>parseInt\<close>: the longest run of digits after an optional sign.\<close>

definition js_parseInt :: "string \<Rightarrow> int option" where
  "js_parseInt s =
     (let t = dropWhile (\<lambda>c. c = CHR '' '') s;
          neg = (t \<noteq> [] \<and> hd t = CHR ''-'');
          u = (if t \<noteq> [] \<and> (hd t = CHR ''-'' \<or> hd t = CHR ''+'') then tl t else t);
          d = takeWhile is_digit u
      in if d = [] then None else Some (if neg then - int (read_nat d) else int (read_nat d)))"

text \<open>\<open>s.match(/\d+/g)\<close>: the maximal runs of digits, in order (no run is \<open>null\<close>).\<close>

function digit_runs :: "string \<Rightarrow> string list" where
  "digit_runs s =
     (let t = dropWhile (\<lambda>c. \<not> is_digit c) s
      in if t = [] then [] else takeWhile is_digit t # digit_runs (dropWhile is_digit t))"
  by pat_completeness auto
termination
proof (relation "measure length", goal_cases)
  case 1
  show ?case by simp
next
  case (2 s x)
  then obtain c r where x: "x = c # r" by (meson neq_Nil_conv)
  with 2 have "is_digit c" using hd_dropWhile [of "\<lambda>c. \<not> is_digit c" s] by (metis list.sel(1))
  with x have "length (dropWhile is_digit x) < length x"
    by (simp add: le_imp_less_Suc length_dropWhile_le)
  also have "\<dots> \<le> length s" using 2 by (simp add: length_dropWhile_le)
  finally show ?case by simp
qed

declare digit_runs.simps [simp del]

text \<open>\<open>s.split(c)\<close> for a one-character separator.\<close>

fun js_split :: "char \<Rightarrow> string \<Rightarrow> string list" where
  "js_split c [] = [[]]"
| "js_split c (x # xs) =
     (if x = c then [] # js_split c xs
      else (case js_split c xs of [] \<Rightarrow> [[x]] | w # ws \<Rightarrow> (x # w) # ws))"

fun js_join :: "string \<Rightarrow> string list \<Rightarrow> string" where
  "js_join sep [] = []"
| "js_join sep [w] = w"
| "js_join sep (w # v # ws) = w @ sep @ js_join sep (v # ws)"

definition startsWith :: "string \<Rightarrow> string \<Rightarrow> bool" where
  "startsWith s p \<longleftrightarrow> take (length p) s = p"

lemma startsWith_append [simp]: "startsWith (p @ s) p"
  by (simp add: startsWith_def)

lemma startsWith_iff: "startsWith s p \<longleftrightarrow> (\<exists>r. s = p @ r)"
  by (metis append_eq_conv_conj startsWith_def append_take_drop_id)

subsection \<open>Rendering and reading back\<close>

lemma digit_char_code: "d < 10 \<Longrightarrow> char_code (digit_char d) = 48 + d"
  by (simp add: char_code_def digit_char_def)

lemma digit_char_props [js_str]:
  "d < 10 \<Longrightarrow> is_digit (digit_char d)" "d < 10 \<Longrightarrow> digit_val (digit_char d) = d"
  by (simp_all add: is_digit_def digit_val_def digit_char_code)

lemma read_nat_snoc: "read_nat (s @ [c]) = 10 * read_nat s + digit_val c"
  by (simp add: read_nat_def)

lemma read_show_nat [simp, js_str]: "read_nat (show_nat n) = n"
proof (induction n rule: show_nat.induct)
  case (1 n)
  show ?case
  proof (cases "n < 10")
    case True
    then show ?thesis by (simp add: show_nat.simps read_nat_def digit_char_props)
  next
    case False
    with 1 show ?thesis
      by (subst show_nat.simps) (simp add: read_nat_snoc digit_char_props)
  qed
qed

lemma show_nat_digits [simp, js_str]: "list_all is_digit (show_nat n)"
proof (induction n rule: show_nat.induct)
  case (1 n)
  then show ?case
    by (cases "n < 10") (simp_all add: show_nat.simps [of n] digit_char_props)
qed

lemma show_nat_nonempty [simp]: "show_nat n \<noteq> []"
  by (subst show_nat.simps) simp

lemma show_nat_inj: "show_nat m = show_nat n \<longleftrightarrow> m = n"
  by (metis read_show_nat)

lemma hd_show_nat_digit: "is_digit (hd (show_nat n))"
  using show_nat_digits [of n] show_nat_nonempty [of n] by (cases "show_nat n") auto

lemma minus_not_digit [simp]: "\<not> is_digit (CHR ''-'')" "\<not> is_digit (CHR '':'')"
  "\<not> is_digit (CHR '' '')" "\<not> is_digit (CHR '','')"  "\<not> is_digit (CHR '';'')"
  "\<not> is_digit (CHR ''='')"
  by (simp_all add: is_digit_def char_code_def)

lemma js_number_show_int [simp, js_str]: "js_number (show_int i) = Some i"
proof (cases "i < 0")
  case True
  then show ?thesis by (simp add: js_number_def show_int_def)
next
  case False
  obtain c r where cr: "show_nat (nat i) = c # r" by (cases "show_nat (nat i)") auto
  then have "is_digit c" using hd_show_nat_digit [of "nat i"] by simp
  then have "c \<noteq> CHR ''-''" by auto
  with False cr show ?thesis
    using show_nat_digits [of "nat i"] read_show_nat [of "nat i"]
    by (simp add: js_number_def show_int_def)
qed

lemma show_int_inj: "show_int i = show_int j \<longleftrightarrow> i = j"
  by (metis js_number_show_int option.inject)

lemma show_int_chars: "c \<in> set (show_int i) \<Longrightarrow> is_digit c \<or> c = CHR ''-''"
  using show_nat_digits by (auto simp: show_int_def list_all_iff split: if_splits)

lemma sep_notin_show_int [simp]:
  "CHR '':'' \<notin> set (show_int i)" "CHR '' '' \<notin> set (show_int i)" "CHR '','' \<notin> set (show_int i)"
  "CHR ''='' \<notin> set (show_int i)" "CHR '';'' \<notin> set (show_int i)"
  using show_int_chars by (force simp: is_digit_def char_code_def)+

lemma show_int_nonempty [simp]: "show_int i \<noteq> []"
  by (simp add: show_int_def)

lemma js_split_nonempty [simp]: "js_split c s \<noteq> []"
  by (cases s) (auto split: list.splits)

lemma js_split_plain: "c \<notin> set s \<Longrightarrow> js_split c s = [s]"
  by (induction s) auto

lemma js_split_append: "c \<notin> set s \<Longrightarrow> js_split c (s @ c # t) = s # js_split c t"
  by (induction s) auto

text \<open>Joining words that do not hold the separator and splitting again gives the words.\<close>

lemma js_split_join:
  "ws \<noteq> [] \<Longrightarrow> (\<And>w. w \<in> set ws \<Longrightarrow> c \<notin> set w) \<Longrightarrow> js_split c (js_join [c] ws) = ws"
  by (induction "[c]" ws rule: js_join.induct) (auto simp: js_split_plain js_split_append)

lemma js_join_split: "js_join [c] (js_split c s) = s"
  by (induction s) (auto split: list.splits simp: neq_Nil_conv elim!: js_join.elims)

section \<open>Objects used as dictionaries\<close>

text \<open>
  \<open>obj[key] = v\<close> keeps the place of an existing key and appends a new one; \<open>delete obj[key]\<close>
  removes it; \<open>for (key in obj)\<close> enumerates in this order (string keys that are not array
  indices). This is \<open>AList.update\<close> and \<open>AList.delete\<close>.
\<close>

type_synonym ('k, 'v) obj = "('k \<times> 'v) list"

abbreviation obj_get :: "('k, 'v) obj \<Rightarrow> 'k \<Rightarrow> 'v option" where
  "obj_get \<equiv> map_of"

abbreviation obj_put :: "'k \<Rightarrow> 'v \<Rightarrow> ('k, 'v) obj \<Rightarrow> ('k, 'v) obj" where
  "obj_put \<equiv> AList.update"

abbreviation obj_del :: "'k \<Rightarrow> ('k, 'v) obj \<Rightarrow> ('k, 'v) obj" where
  "obj_del \<equiv> AList.delete"

abbreviation obj_keys :: "('k, 'v) obj \<Rightarrow> 'k list" where
  "obj_keys \<equiv> map fst"

definition obj_ok :: "('k, 'v) obj \<Rightarrow> bool" where
  "obj_ok m \<longleftrightarrow> distinct (map fst m)"

lemma obj_put_get: "map_of (AList.update k v m) = (map_of m)(k \<mapsto> v)"
  by (rule update_conv')

lemma obj_del_get: "map_of (AList.delete k m) = (map_of m)(k := None)"
  by (rule delete_conv')

lemma obj_ok_put [simp, intro]: "obj_ok m \<Longrightarrow> obj_ok (AList.update k v m)"
  by (simp add: obj_ok_def distinct_update)

lemma obj_ok_del [simp, intro]: "obj_ok m \<Longrightarrow> obj_ok (AList.delete k m)"
  by (simp add: obj_ok_def distinct_delete)

lemma obj_ok_Nil [simp]: "obj_ok []"
  by (simp add: obj_ok_def)

lemma obj_ok_mem: "obj_ok m \<Longrightarrow> (k, v) \<in> set m \<longleftrightarrow> map_of m k = Some v"
  by (auto simp: obj_ok_def)

text \<open>Changing the values in place, as a \<open>for (key in obj)\<close> loop that writes fields does.\<close>

definition obj_map :: "('k \<Rightarrow> 'v \<Rightarrow> 'v) \<Rightarrow> ('k, 'v) obj \<Rightarrow> ('k, 'v) obj" where
  "obj_map f m = map (\<lambda>(k, v). (k, f k v)) m"

lemma obj_map_keys [simp]: "map fst (obj_map f m) = map fst m"
  by (simp add: obj_map_def case_prod_unfold comp_def)

lemma obj_ok_map [simp]: "obj_ok (obj_map f m) = obj_ok m"
  by (simp add: obj_ok_def)

lemma obj_map_get: "map_of (obj_map f m) k = map_option (f k) (map_of m k)"
  by (induction m) (auto simp: obj_map_def)

lemma obj_map_set: "(k, v) \<in> set (obj_map f m) \<longleftrightarrow> (\<exists>w. (k, w) \<in> set m \<and> v = f k w)"
  by (force simp: obj_map_def)

lemma obj_map_dom [simp]: "dom (map_of (obj_map f m)) = dom (map_of m)"
  by (auto simp: obj_map_get domI)

section \<open>Interfaces\<close>

text \<open>
  A codec: what the tile cache needs of its string keys. The client's facts (keys of
  different values differ) are proved once from the round trip.
\<close>

locale codec =
  fixes enc :: "'a \<Rightarrow> 'b" and dec :: "'b \<Rightarrow> 'a option"
  assumes dec_enc: "dec (enc x) = Some x"
begin

lemma enc_eq_iff: "enc x = enc y \<longleftrightarrow> x = y"
  by (metis dec_enc option.inject)

lemma inj_enc: "inj enc"
  by (simp add: inj_def enc_eq_iff)

end

text \<open>
  A machine driven by events: an invariant that each handler keeps holds after every run.
\<close>

locale event_machine =
  fixes step :: "'e \<Rightarrow> 's \<Rightarrow> 's" and inv :: "'s \<Rightarrow> bool"
  assumes step_inv: "inv s \<Longrightarrow> inv (step e s)"
begin

lemma run_inv: "inv s \<Longrightarrow> inv (fold step es s)"
  by (induction es arbitrary: s) (auto simp: step_inv)

end

end
