(* ===== verification/Geometry.thy ===== *)
theory Geometry
  imports Prelude
begin

text \<open>
  \<open>loleaflet/src/geometry/Point.js\<close>, \<open>Bounds.js\<close> and \<open>Transformation.js\<close>. A point is a
  pair of real coordinates. The methods with a leading underscore mutate \<open>this\<close>: they are
  modelled by the new value of \<open>this\<close> (suffix \<open>_in\<close>), and the others clone first, as the
  code does. \<open>L.Bounds\<close> without a \<open>min\<close> and \<open>max\<close> (no point added yet) is \<open>None\<close>.
\<close>

section \<open>L.Point\<close>

record point =
  px :: real
  py :: real

text \<open>\<open>new L.Point(x, y, round)\<close>\<close>

definition new_point :: "real \<Rightarrow> real \<Rightarrow> bool \<Rightarrow> point" where
  "new_point x y rnd =
     \<lparr>px = (if rnd then of_int (js_round x) else x), py = (if rnd then of_int (js_round y) else y)\<rparr>"

abbreviation pt :: "real \<Rightarrow> real \<Rightarrow> point" where
  "pt x y \<equiv> \<lparr>px = x, py = y\<rparr>"

definition point_clone :: "point \<Rightarrow> point" where
  "point_clone p = new_point (px p) (py p) False"

definition point_add_in :: "point \<Rightarrow> point \<Rightarrow> point" where
  "point_add_in this q = this\<lparr>px := px this + px q, py := py this + py q\<rparr>"

definition point_add :: "point \<Rightarrow> point \<Rightarrow> point" where
  "point_add this q = point_add_in (point_clone this) q"

definition point_subtract_in :: "point \<Rightarrow> point \<Rightarrow> point" where
  "point_subtract_in this q = this\<lparr>px := px this - px q, py := py this - py q\<rparr>"

definition point_subtract :: "point \<Rightarrow> point \<Rightarrow> point" where
  "point_subtract this q = point_subtract_in (point_clone this) q"

definition point_divideBy_in :: "point \<Rightarrow> real \<Rightarrow> point" where
  "point_divideBy_in this n = this\<lparr>px := px this / n, py := py this / n\<rparr>"

definition point_divideBy :: "point \<Rightarrow> real \<Rightarrow> point" where
  "point_divideBy this n = point_divideBy_in (point_clone this) n"

definition point_multiplyBy_in :: "point \<Rightarrow> real \<Rightarrow> point" where
  "point_multiplyBy_in this n = this\<lparr>px := px this * n, py := py this * n\<rparr>"

definition point_multiplyBy :: "point \<Rightarrow> real \<Rightarrow> point" where
  "point_multiplyBy this n = point_multiplyBy_in (point_clone this) n"

definition point_round_in :: "point \<Rightarrow> point" where
  "point_round_in this = this\<lparr>px := of_int (js_round (px this)), py := of_int (js_round (py this))\<rparr>"

definition point_round :: "point \<Rightarrow> point" where
  "point_round this = point_round_in (point_clone this)"

definition point_floor_in :: "point \<Rightarrow> point" where
  "point_floor_in this = this\<lparr>px := of_int \<lfloor>px this\<rfloor>, py := of_int \<lfloor>py this\<rfloor>\<rparr>"

definition point_floor :: "point \<Rightarrow> point" where
  "point_floor this = point_floor_in (point_clone this)"

definition point_ceil_in :: "point \<Rightarrow> point" where
  "point_ceil_in this = this\<lparr>px := of_int \<lceil>px this\<rceil>, py := of_int \<lceil>py this\<rceil>\<rparr>"

definition point_ceil :: "point \<Rightarrow> point" where
  "point_ceil this = point_ceil_in (point_clone this)"

definition point_distanceTo :: "point \<Rightarrow> point \<Rightarrow> real" where
  "point_distanceTo this q =
     (let x = px q - px this; y = py q - py this in sqrt (x * x + y * y))"

definition point_equals :: "point \<Rightarrow> point \<Rightarrow> bool" where
  "point_equals this q \<longleftrightarrow> px q = px this \<and> py q = py this"

definition point_contains :: "point \<Rightarrow> point \<Rightarrow> bool" where
  "point_contains this q \<longleftrightarrow> \<bar>px q\<bar> \<le> \<bar>px this\<bar> \<and> \<bar>py q\<bar> \<le> \<bar>py this\<bar>"

lemmas point_op_defs =
  new_point_def point_clone_def point_add_in_def point_add_def point_subtract_in_def
  point_subtract_def point_divideBy_in_def point_divideBy_def point_multiplyBy_in_def
  point_multiplyBy_def point_round_in_def point_round_def point_floor_in_def point_floor_def
  point_ceil_in_def point_ceil_def

lemma point_add_sel [simp]: "px (point_add p q) = px p + px q" "py (point_add p q) = py p + py q"
  by (simp_all add: point_op_defs)

lemma point_subtract_sel [simp]:
  "px (point_subtract p q) = px p - px q" "py (point_subtract p q) = py p - py q"
  by (simp_all add: point_op_defs)

lemma point_divideBy_sel [simp]:
  "px (point_divideBy p n) = px p / n" "py (point_divideBy p n) = py p / n"
  by (simp_all add: point_op_defs)

lemma point_multiplyBy_sel [simp]:
  "px (point_multiplyBy p n) = px p * n" "py (point_multiplyBy p n) = py p * n"
  by (simp_all add: point_op_defs)

lemma point_round_sel [simp]:
  "px (point_round p) = of_int (js_round (px p))" "py (point_round p) = of_int (js_round (py p))"
  by (simp_all add: point_op_defs)

lemma point_floor_sel [simp]:
  "px (point_floor p) = of_int \<lfloor>px p\<rfloor>" "py (point_floor p) = of_int \<lfloor>py p\<rfloor>"
  by (simp_all add: point_op_defs)

lemma point_ceil_sel [simp]:
  "px (point_ceil p) = of_int \<lceil>px p\<rceil>" "py (point_ceil p) = of_int \<lceil>py p\<rceil>"
  by (simp_all add: point_op_defs)

lemma point_clone_id [simp]: "point_clone p = p"
  by (simp add: point_op_defs)

lemma point_eqI: "px p = px q \<Longrightarrow> py p = py q \<Longrightarrow> p = (q :: point)"
  by simp

lemma point_equals_iff: "point_equals p q \<longleftrightarrow> p = q"
  by (auto simp: point_equals_def intro: point_eqI)

section \<open>L.Bounds\<close>

record bounds =
  bmin :: point
  bmax :: point

text \<open>\<open>extend\<close>: the first point sets both corners, later ones widen them.\<close>

definition bounds_extend :: "bounds option \<Rightarrow> point \<Rightarrow> bounds" where
  "bounds_extend this p =
     (case this of
        None \<Rightarrow> \<lparr>bmin = point_clone p, bmax = point_clone p\<rparr>
      | Some b \<Rightarrow>
          \<lparr>bmin = pt (min (px p) (px (bmin b))) (min (py p) (py (bmin b))),
           bmax = pt (max (px p) (px (bmax b))) (max (py p) (py (bmax b)))\<rparr>)"

text \<open>\<open>new L.Bounds(points)\<close>\<close>

fun new_bounds_list :: "bounds option \<Rightarrow> point list \<Rightarrow> bounds option" where
  "new_bounds_list this [] = this"
| "new_bounds_list this (p # ps) = new_bounds_list (Some (bounds_extend this p)) ps"

text \<open>\<open>new L.Bounds(a, b)\<close>\<close>

definition new_bounds :: "point \<Rightarrow> point \<Rightarrow> bounds" where
  "new_bounds a b = bounds_extend (Some (bounds_extend None a)) b"

definition bounds_getCenter :: "bounds \<Rightarrow> bool \<Rightarrow> point" where
  "bounds_getCenter b rnd =
     new_point ((px (bmin b) + px (bmax b)) / 2) ((py (bmin b) + py (bmax b)) / 2) rnd"

definition bounds_getBottomLeft :: "bounds \<Rightarrow> point" where
  "bounds_getBottomLeft b = pt (px (bmin b)) (py (bmax b))"

definition bounds_getTopRight :: "bounds \<Rightarrow> point" where
  "bounds_getTopRight b = pt (px (bmax b)) (py (bmin b))"

definition bounds_getSize :: "bounds \<Rightarrow> point" where
  "bounds_getSize b = point_subtract (bmax b) (bmin b)"

text \<open>\<open>contains\<close> takes a point or bounds; a point is the degenerate bounds.\<close>

definition bounds_contains :: "bounds \<Rightarrow> bounds \<Rightarrow> bool" where
  "bounds_contains this obj \<longleftrightarrow>
     px (bmin obj) \<ge> px (bmin this) \<and> px (bmax obj) \<le> px (bmax this) \<and>
     py (bmin obj) \<ge> py (bmin this) \<and> py (bmax obj) \<le> py (bmax this)"

definition bounds_contains_point :: "bounds \<Rightarrow> point \<Rightarrow> bool" where
  "bounds_contains_point this p = bounds_contains this \<lparr>bmin = p, bmax = p\<rparr>"

definition bounds_intersects :: "bounds \<Rightarrow> bounds \<Rightarrow> bool" where
  "bounds_intersects this b \<longleftrightarrow>
     (let xIntersects = px (bmax b) \<ge> px (bmin this) \<and> px (bmin b) \<le> px (bmax this);
          yIntersects = py (bmax b) \<ge> py (bmin this) \<and> py (bmin b) \<le> py (bmax this)
      in xIntersects \<and> yIntersects)"

definition bounds_isValid :: "bounds option \<Rightarrow> bool" where
  "bounds_isValid this \<longleftrightarrow> this \<noteq> None"

text \<open>The rectangle a bounds object stands for, and the shape every constructor gives.\<close>

definition rect :: "bounds \<Rightarrow> point set" where
  "rect b = {p. px (bmin b) \<le> px p \<and> px p \<le> px (bmax b) \<and> py (bmin b) \<le> py p \<and> py p \<le> py (bmax b)}"

definition bounds_wf :: "bounds \<Rightarrow> bool" where
  "bounds_wf b \<longleftrightarrow> px (bmin b) \<le> px (bmax b) \<and> py (bmin b) \<le> py (bmax b)"

lemma bounds_extend_wf: "(\<And>b. this = Some b \<Longrightarrow> bounds_wf b) \<Longrightarrow> bounds_wf (bounds_extend this p)"
  by (auto simp: bounds_extend_def bounds_wf_def split: option.splits)

lemma new_bounds_wf [simp]: "bounds_wf (new_bounds a b)"
  by (auto simp: new_bounds_def intro!: bounds_extend_wf)

lemma new_bounds_sel [simp]:
  "px (bmin (new_bounds a b)) = min (px b) (px a)" "py (bmin (new_bounds a b)) = min (py b) (py a)"
  "px (bmax (new_bounds a b)) = max (px b) (px a)" "py (bmax (new_bounds a b)) = max (py b) (py a)"
  by (simp_all add: new_bounds_def bounds_extend_def)

lemma rect_extend:
  "p \<in> rect (bounds_extend this p)"
  "this = Some b \<Longrightarrow> rect b \<subseteq> rect (bounds_extend this p)"
  by (auto simp: rect_def bounds_extend_def split: option.splits)

lemma rect_extend_least:
  assumes "p \<in> rect c" and "\<And>b. this = Some b \<Longrightarrow> rect b \<subseteq> rect c \<and> bounds_wf b"
  shows "rect (bounds_extend this p) \<subseteq> rect c"
proof (cases this)
  case None
  with assms(1) show ?thesis by (auto simp: bounds_extend_def rect_def)
next
  case (Some b)
  with assms(2) have sub: "rect b \<subseteq> rect c" and wf: "bounds_wf b" by auto
  then have "bmin b \<in> rect c" "bmax b \<in> rect c" by (auto simp: rect_def bounds_wf_def)
  with assms(1) Some show ?thesis by (auto simp: bounds_extend_def rect_def)
qed

lemma bounds_contains_rect:
  assumes "bounds_wf b"
  shows "bounds_contains a b \<longleftrightarrow> rect b \<subseteq> rect a"
proof
  show "bounds_contains a b \<Longrightarrow> rect b \<subseteq> rect a"
    by (auto simp: bounds_contains_def rect_def)
  assume "rect b \<subseteq> rect a"
  moreover have "bmin b \<in> rect b" "bmax b \<in> rect b" using assms by (auto simp: rect_def bounds_wf_def)
  ultimately show "bounds_contains a b" by (auto simp: bounds_contains_def rect_def)
qed

lemma bounds_contains_point_rect: "bounds_contains_point a p \<longleftrightarrow> p \<in> rect a"
  by (auto simp: bounds_contains_point_def bounds_contains_def rect_def)

lemma bounds_intersects_rect:
  assumes "bounds_wf a" and "bounds_wf b"
  shows "bounds_intersects a b \<longleftrightarrow> rect a \<inter> rect b \<noteq> {}"
proof
  assume "bounds_intersects a b"
  with assms have "pt (max (px (bmin a)) (px (bmin b))) (max (py (bmin a)) (py (bmin b))) \<in> rect a \<inter> rect b"
    by (auto simp: bounds_intersects_def rect_def bounds_wf_def Let_def)
  then show "rect a \<inter> rect b \<noteq> {}" by blast
qed (auto simp: bounds_intersects_def rect_def Let_def)

lemma new_bounds_list_wf:
  "(\<And>b. this = Some b \<Longrightarrow> bounds_wf b) \<Longrightarrow> new_bounds_list this ps = Some c \<Longrightarrow> bounds_wf c"
proof (induction this ps rule: new_bounds_list.induct)
  case (2 this p ps)
  show ?case
    by (rule "2.IH") (use "2.prems" bounds_extend_wf in \<open>auto\<close>)
qed simp

lemma new_bounds_list_mono:
  "new_bounds_list (Some b) ps = Some c \<Longrightarrow> rect b \<subseteq> rect c \<and> set ps \<subseteq> rect c"
proof (induction ps arbitrary: b)
  case (Cons p ps)
  from Cons.prems have *: "rect (bounds_extend (Some b) p) \<subseteq> rect c \<and> set ps \<subseteq> rect c"
    by (intro Cons.IH) simp
  then show ?case using rect_extend(1) [of p "Some b"] rect_extend(2) [of "Some b" b p] by auto
qed simp

lemma new_bounds_list_least:
  "new_bounds_list (Some b) ps = Some c \<Longrightarrow> bounds_wf b \<Longrightarrow> rect b \<subseteq> rect d \<Longrightarrow> set ps \<subseteq> rect d
   \<Longrightarrow> rect c \<subseteq> rect d"
proof (induction ps arbitrary: b)
  case (Cons p ps)
  have "bounds_wf (bounds_extend (Some b) p)" by (rule bounds_extend_wf) (use Cons.prems in simp)
  moreover have "rect (bounds_extend (Some b) p) \<subseteq> rect d"
    using Cons.prems by (intro rect_extend_least) auto
  ultimately show ?case using Cons.prems by (intro Cons.IH [of "bounds_extend (Some b) p"]) auto
qed simp

lemma new_bounds_list_defined: "\<exists>c. new_bounds_list (Some b) ps = Some c"
  by (induction ps arbitrary: b) auto

section \<open>L.Transformation\<close>

record transformation =
  tr_a :: real
  tr_b :: real
  tr_c :: real
  tr_d :: real

text \<open>\<open>scale || 1\<close>: a missing or zero scale is 1.\<close>

definition or_one :: "real option \<Rightarrow> real" where
  "or_one s = (case s of None \<Rightarrow> 1 | Some v \<Rightarrow> if v = 0 then 1 else v)"

definition transform_in :: "transformation \<Rightarrow> point \<Rightarrow> real option \<Rightarrow> point" where
  "transform_in t p scale =
     (let s = or_one scale
      in p\<lparr>px := s * (tr_a t * px p + tr_b t), py := s * (tr_c t * py p + tr_d t)\<rparr>)"

definition transform :: "transformation \<Rightarrow> point \<Rightarrow> real option \<Rightarrow> point" where
  "transform t p scale = transform_in t (point_clone p) scale"

definition untransform :: "transformation \<Rightarrow> point \<Rightarrow> real option \<Rightarrow> point" where
  "untransform t p scale =
     (let s = or_one scale
      in new_point ((px p / s - tr_b t) / tr_a t) ((py p / s - tr_d t) / tr_c t) False)"

lemma or_one_nonzero [simp]: "or_one s \<noteq> 0"
  by (simp add: or_one_def split: option.splits)

lemma untransform_transform:
  "tr_a t \<noteq> 0 \<Longrightarrow> tr_c t \<noteq> 0 \<Longrightarrow> untransform t (transform_in t p s) s = p"
  by (intro point_eqI) (simp_all add: untransform_def transform_in_def Let_def new_point_def)

lemma transform_untransform:
  "tr_a t \<noteq> 0 \<Longrightarrow> tr_c t \<noteq> 0 \<Longrightarrow> transform_in t (untransform t p s) s = p"
  by (intro point_eqI) (simp_all add: untransform_def transform_in_def Let_def new_point_def)

section \<open>Properties\<close>

text \<open>
  \<open>L.Bounds\<close> is the least rectangle around its points: built from a non-empty list it is well
  formed, holds every point, and lies inside every rectangle that holds them all; and on well-formed
  bounds \<open>contains\<close> and \<open>intersects\<close> are inclusion and overlap of the rectangles.
\<close>

theorem bounds_least_rectangle:
  "\<exists>b. new_bounds_list None (p # ps) = Some b \<and> bounds_wf b \<and> set (p # ps) \<subseteq> rect b \<and>
     (\<forall>c. set (p # ps) \<subseteq> rect c \<longrightarrow> rect b \<subseteq> rect c) \<and>
     (\<forall>c. bounds_contains c b \<longleftrightarrow> rect b \<subseteq> rect c) \<and>
     (\<forall>c. bounds_wf c \<longrightarrow> (bounds_intersects b c \<longleftrightarrow> rect b \<inter> rect c \<noteq> {}))"
proof -
  let ?s = "bounds_extend None p"
  obtain b where b: "new_bounds_list (Some ?s) ps = Some b" using new_bounds_list_defined by blast
  have s: "bounds_wf ?s" "p \<in> rect ?s" by (auto intro: bounds_extend_wf rect_extend(1))
  have wf: "bounds_wf b" using new_bounds_list_wf [OF _ b] s(1) by simp
  have "rect ?s \<subseteq> rect b \<and> set ps \<subseteq> rect b" by (rule new_bounds_list_mono [OF b])
  moreover have "rect b \<subseteq> rect c" if "set (p # ps) \<subseteq> rect c" for c
    using new_bounds_list_least [OF b s(1) rect_extend_least [of p c None]] that by simp
  ultimately show ?thesis using b s(2) wf bounds_contains_rect [OF wf] bounds_intersects_rect [OF wf]
    by (intro exI [of _ b]) auto
qed

lemma bounds_least_rectangle_witness:
  "\<exists>b. new_bounds_list None [pt 1 5, pt 3 2] = Some b \<and> bounds_wf b \<and> set [pt 1 5, pt 3 2] \<subseteq> rect b \<and>
     (\<forall>c. set [pt 1 5, pt 3 2] \<subseteq> rect c \<longrightarrow> rect b \<subseteq> rect c) \<and>
     (\<forall>c. bounds_contains c b \<longleftrightarrow> rect b \<subseteq> rect c) \<and>
     (\<forall>c. bounds_wf c \<longrightarrow> (bounds_intersects b c \<longleftrightarrow> rect b \<inter> rect c \<noteq> {}))"
  by (rule bounds_least_rectangle)

end
