(* ===== verification/LineUtil.thy ===== *)
theory LineUtil
  imports Geometry
begin

unbundle bit_operations_syntax

text \<open>
  \<open>loleaflet/src/geometry/LineUtil.js\<close>: distances, Douglas-Peucker simplification and
  Cohen-Sutherland clipping. Outcodes are integers combined with the bitwise operators, as
  in the code. The clipping loop \<open>while (true)\<close> takes fuel; \<open>clip_loop_enough\<close> shows
  that five rounds always suffice.
\<close>

section \<open>Distances\<close>

text \<open>\<open>_sqDist\<close>\<close>

definition sqDist :: "point \<Rightarrow> point \<Rightarrow> real" where
  "sqDist p1 p2 = (let dx = px p2 - px p1; dy = py p2 - py p1 in dx * dx + dy * dy)"

text \<open>\<open>_sqClosestPointOnSegment\<close>: the square distance (flag set) and the point (flag unset).\<close>

definition sqClosest :: "point \<Rightarrow> point \<Rightarrow> point \<Rightarrow> real \<times> point" where
  "sqClosest p p1 p2 =
     (let x = px p1; y = py p1; dx = px p2 - x; dy = py p2 - y;
          dot = dx * dx + dy * dy;
          (x', y') =
            (if dot > 0 then
               (let t = ((px p - x) * dx + (py p - y) * dy) / dot
                in if t > 1 then (px p2, py p2)
                   else if t > 0 then (x + dx * t, y + dy * t)
                   else (x, y))
             else (x, y));
          ex = px p - x'; ey = py p - y'
      in (ex * ex + ey * ey, pt x' y'))"

definition pointToSegmentDistance :: "point \<Rightarrow> point \<Rightarrow> point \<Rightarrow> real" where
  "pointToSegmentDistance p p1 p2 = sqrt (fst (sqClosest p p1 p2))"

definition closestPointOnSegment :: "point \<Rightarrow> point \<Rightarrow> point \<Rightarrow> point" where
  "closestPointOnSegment p p1 p2 = snd (sqClosest p p1 p2)"

text \<open>The point at parameter \<open>t\<close> of the segment, and the segment as a set.\<close>

definition lerp :: "point \<Rightarrow> point \<Rightarrow> real \<Rightarrow> point" where
  "lerp a b t = pt (px a + t * (px b - px a)) (py a + t * (py b - py a))"

definition seg :: "point \<Rightarrow> point \<Rightarrow> point set" where
  "seg a b = {lerp a b t |t. 0 \<le> t \<and> t \<le> 1}"

lemma lerp_sel [simp]:
  "px (lerp a b t) = px a + t * (px b - px a)" "py (lerp a b t) = py a + t * (py b - py a)"
  by (simp_all add: lerp_def)

lemma lerp_0 [simp]: "lerp a b 0 = a" and lerp_1 [simp]: "lerp a b 1 = b"
  by (simp_all add: lerp_def)

lemma lerp_in_seg: "0 \<le> t \<Longrightarrow> t \<le> 1 \<Longrightarrow> lerp a b t \<in> seg a b"
  by (auto simp: seg_def)

lemma seg_ends: "a \<in> seg a b" "b \<in> seg a b"
  using lerp_in_seg [of 0 a b] lerp_in_seg [of 1 a b] by simp_all

lemma sqDist_commute: "sqDist a b = sqDist b a"
  by (simp add: sqDist_def algebra_simps)

lemma sqDist_self [simp]: "sqDist a a = 0"
  by (simp add: sqDist_def)

lemma sqDist_nonneg [simp]: "0 \<le> sqDist a b"
  by (simp add: sqDist_def Let_def)

text \<open>The distance to a point of the segment is a parabola in the parameter.\<close>

lemma sqDist_lerp:
  "sqDist p (lerp a b t) =
     sqDist p a + t * t * sqDist a b - 2 * t * ((px p - px a) * (px b - px a) + (py p - py a) * (py b - py a))"
  by (simp add: sqDist_def Let_def algebra_simps)

lemma parabola_min:
  fixes A B s t :: real
  assumes "0 \<le> A" and "(s - t) * (A * (s + t) - 2 * B) \<ge> 0"
  shows "t * t * A - 2 * t * B \<le> s * s * A - 2 * s * B"
  using assms(2) by (simp add: algebra_simps)

lemma below_double: "(A :: real) < B \<Longrightarrow> C \<le> A * 2 \<Longrightarrow> C - 2 * B \<le> 0"
  by linarith

lemma above_double: "(B :: real) \<le> 0 \<Longrightarrow> 0 \<le> C \<Longrightarrow> 0 \<le> C - 2 * B"
  by linarith

lemma sqClosest_cases:
  obtains t where "snd (sqClosest p a b) = lerp a b t" "0 \<le> t" "t \<le> 1"
    "\<And>s. 0 \<le> s \<Longrightarrow> s \<le> 1 \<Longrightarrow> sqDist p (lerp a b t) \<le> sqDist p (lerp a b s)"
proof -
  let ?A = "sqDist a b"
  let ?B = "(px p - px a) * (px b - px a) + (py p - py a) * (py b - py a)"
  have step: "sqDist p (lerp a b t) \<le> sqDist p (lerp a b s)"
    if "(s - t) * (?A * (s + t) - 2 * ?B) \<ge> 0" for s t
    using parabola_min [OF _ that] by (simp add: sqDist_lerp algebra_simps)
  consider "?A \<le> 0" | "?A > 0" "?B / ?A > 1" | "?A > 0" "0 < ?B / ?A" "?B / ?A \<le> 1"
    | "?A > 0" "?B / ?A \<le> 0" by linarith
  then show thesis
  proof cases
    case 1
    then have A0: "?A = 0" using sqDist_nonneg [of a b] by linarith
    then have "px b = px a" "py b = py a"
      by (auto simp: sqDist_def Let_def add_nonneg_eq_0_iff)
    then show thesis
      by (intro that [of 0]) (use A0 in \<open>simp_all add: sqClosest_def Let_def sqDist_def lerp_def\<close>)
  next
    case 2
    then have B: "?B > ?A" by (simp add: field_simps)
    show thesis
    proof (rule that [of 1])
      show "snd (sqClosest p a b) = lerp a b 1"
        using 2 by (simp add: sqClosest_def Let_def sqDist_def lerp_def)
      fix s :: real assume s: "0 \<le> s" "s \<le> 1"
      have "?A * (s + 1) \<le> ?A * 2" using s 2 by (intro mult_left_mono) auto
      then have "?A * (s + 1) - 2 * ?B \<le> 0" by (rule below_double [OF B])
      then show "sqDist p (lerp a b 1) \<le> sqDist p (lerp a b s)"
        using s by (intro step mult_nonpos_nonpos) auto
    qed simp_all
  next
    case 3
    show thesis
    proof (rule that [of "?B / ?A"])
      show "snd (sqClosest p a b) = lerp a b (?B / ?A)"
        using 3 by (simp add: sqClosest_def Let_def sqDist_def lerp_def mult.commute)
      fix s :: real assume s: "0 \<le> s" "s \<le> 1"
      have "(s - ?B / ?A) * (?A * (s + ?B / ?A) - 2 * ?B) = ?A * (s - ?B / ?A)\<^sup>2"
        using 3 by (simp add: field_simps power2_eq_square)
      also have "\<dots> \<ge> 0" using 3 by simp
      finally show "sqDist p (lerp a b (?B / ?A)) \<le> sqDist p (lerp a b s)" by (rule step)
    qed (use 3 in simp_all)
  next
    case 4
    then have B: "?B \<le> 0" by (simp add: field_simps)
    with 4 have nAB: "\<not> ?A < ?B" by linarith
    show thesis
    proof (rule that [of 0])
      show "snd (sqClosest p a b) = lerp a b 0"
        using 4 nAB by (simp add: sqClosest_def Let_def sqDist_def lerp_def)
      fix s :: real assume s: "0 \<le> s" "s \<le> 1"
      have "0 \<le> ?A * s" using s 4 by simp
      then show "sqDist p (lerp a b 0) \<le> sqDist p (lerp a b s)"
        using s above_double [OF B, of "?A * (s + 0)"] \<open>0 \<le> ?A * s\<close>
        by (intro step mult_nonneg_nonneg) simp_all
    qed simp_all
  qed
qed

lemma fst_sqClosest: "fst (sqClosest p a b) = sqDist p (snd (sqClosest p a b))"
  by (simp add: sqClosest_def Let_def sqDist_def case_prod_unfold algebra_simps)


section \<open>Simplification\<close>

text \<open>\<open>_reducePoints\<close>: the loop over \<open>i\<close> with the last kept index \<open>prev\<close>.\<close>

fun reduce_loop :: "point list \<Rightarrow> real \<Rightarrow> nat list \<Rightarrow> nat \<Rightarrow> point list \<Rightarrow> point list \<times> nat" where
  "reduce_loop pts tol [] prev acc = (acc, prev)"
| "reduce_loop pts tol (i # js) prev acc =
     (if sqDist (pts ! i) (pts ! prev) > tol
      then reduce_loop pts tol js i (acc @ [pts ! i])
      else reduce_loop pts tol js prev acc)"

definition reducePoints :: "point list \<Rightarrow> real \<Rightarrow> point list" where
  "reducePoints pts tol =
     (let len = length pts;
          (acc, prev) = reduce_loop pts tol [1..<len] 0 [pts ! 0]
      in if int prev < int len - 1 then acc @ [pts ! (len - 1)] else acc)"

text \<open>The search of \<open>_simplifyDPStep\<close>: the first index of greatest distance, if positive.\<close>

fun dp_search :: "point list \<Rightarrow> nat \<Rightarrow> nat \<Rightarrow> nat list \<Rightarrow> nat option \<Rightarrow> real \<Rightarrow> nat option \<times> real" where
  "dp_search pts fi la [] index maxSqDist = (index, maxSqDist)"
| "dp_search pts fi la (i # js) index maxSqDist =
     (let d = fst (sqClosest (pts ! i) (pts ! fi) (pts ! la))
      in if d > maxSqDist then dp_search pts fi la js (Some i) d
         else dp_search pts fi la js index maxSqDist)"

lemma dp_search_index:
  "dp_search pts f l js idx m = (Some k, m') \<Longrightarrow> Some k = idx \<or> k \<in> set js"
  by (induction pts f l js idx m rule: dp_search.induct) (auto simp: Let_def split: if_splits)

function dp_step :: "point list \<Rightarrow> bool list \<Rightarrow> real \<Rightarrow> nat \<Rightarrow> nat \<Rightarrow> bool list" where
  "dp_step pts markers tol fi la =
     (case dp_search pts fi la [fi + 1..<la] None 0 of
        (None, _) \<Rightarrow> markers
      | (Some index, maxSqDist) \<Rightarrow>
          if maxSqDist > tol then
            dp_step pts (dp_step pts (markers[index := True]) tol fi index) tol index la
          else markers)"
  by pat_completeness auto
termination
  by (relation "measure (\<lambda>(pts, markers, tol, fi, la). la - fi)")
    (auto dest!: sym [of "(Some _, _)"] dp_search_index)

declare dp_step.simps [simp del]

definition simplifyDP :: "point list \<Rightarrow> real \<Rightarrow> point list" where
  "simplifyDP pts tol =
     (let len = length pts;
          markers = (replicate len False)[0 := True, len - 1 := True];
          markers' = dp_step pts markers tol 0 (len - 1)
      in map (nth pts) (filter (nth markers') [0..<len]))"

text \<open>\<open>simplify\<close>: no tolerance or no points gives a copy.\<close>

definition simplify :: "point list \<Rightarrow> real \<Rightarrow> point list" where
  "simplify pts tolerance =
     (if tolerance = 0 \<or> pts = [] then pts
      else (let sq = tolerance * tolerance in simplifyDP (reducePoints pts sq) sq))"

lemma dp_search_max:
  assumes "dp_search pts f l js idx m = (idx', m')"
  shows "m \<le> m' \<and> (\<forall>i \<in> set js. fst (sqClosest (pts ! i) (pts ! f) (pts ! l)) \<le> m')"
  using assms
  by (induction pts f l js idx m rule: dp_search.induct) (auto simp: Let_def split: if_splits)

lemma dp_search_none: "dp_search pts f l js None m = (None, m') \<Longrightarrow> m' = m"
proof -
  have "dp_search pts f l js idx m = (None, m') \<Longrightarrow> idx = None \<and> m' = m" for idx
    by (induction pts f l js idx m rule: dp_search.induct) (auto simp: Let_def split: if_splits)
  then show "dp_search pts f l js None m = (None, m') \<Longrightarrow> m' = m" by blast
qed

lemma dp_step_length [simp]: "length (dp_step pts ms tol f l) = length ms"
proof (induction pts ms tol f l rule: dp_step.induct)
  case (1 pts ms tol f l)
  then show ?case by (subst dp_step.simps) (auto split: prod.splits option.splits)
qed

lemma mark_keeps: "ms ! i \<Longrightarrow> i < length ms \<Longrightarrow> ms[k := True] ! i"
  by (cases "k = i") simp_all

lemma dp_step_keeps: "ms ! i \<Longrightarrow> i < length ms \<Longrightarrow> dp_step pts ms tol f l ! i"
proof (induction pts ms tol f l rule: dp_step.induct)
  case (1 pts ms tol f l)
  then show ?case
    by (subst dp_step.simps) (auto split: prod.splits option.splits simp: mark_keeps)
qed

text \<open>The step marks only indices strictly between its two ends.\<close>

lemma dp_step_frame: "i \<le> f \<or> l \<le> i \<Longrightarrow> dp_step pts ms tol f l ! i = ms ! i"
proof (induction pts ms tol f l rule: dp_step.induct)
  case (1 pts ms tol f l)
  obtain idx m where srch: "dp_search pts f l [f + 1..<l] None 0 = (idx, m)" by force
  show ?case
  proof (cases "\<exists>k. idx = Some k \<and> m > tol")
    case True
    then obtain k where k: "idx = Some k" "m > tol" by blast
    with srch dp_search_index [of pts f l "[f + 1..<l]" None 0 k m] have kr: "f < k" "k < l" by auto
    have sk: "(Some k, m) = dp_search pts f l [f + 1..<l] None 0" using srch k by simp
    have "dp_step pts ms tol f l ! i = dp_step pts (dp_step pts (ms[k := True]) tol f k) tol k l ! i"
      using srch k by (subst dp_step.simps) simp
    also have "\<dots> = dp_step pts (ms[k := True]) tol f k ! i"
      by (rule "1.IH"(2) [OF sk refl]) (use k kr "1.prems" in auto)
    also have "\<dots> = ms[k := True] ! i"
      by (rule "1.IH"(1) [OF sk refl]) (use k kr "1.prems" in auto)
    finally show ?thesis using kr "1.prems" by auto
  next
    case False
    then show ?thesis using srch by (subst dp_step.simps) (auto split: option.splits)
  qed
qed

text \<open>Neighbours among the kept indices, with the segment between them within the tolerance.\<close>

definition gap :: "bool list \<Rightarrow> nat \<Rightarrow> nat \<Rightarrow> bool" where
  "gap ms f l \<longleftrightarrow> ms ! f \<and> ms ! l \<and> (\<forall>k. f < k \<and> k < l \<longrightarrow> \<not> ms ! k)"

definition covered :: "point list \<Rightarrow> bool list \<Rightarrow> real \<Rightarrow> nat \<Rightarrow> nat \<Rightarrow> nat \<Rightarrow> bool" where
  "covered pts ms tol lo hi i \<longleftrightarrow>
     (\<exists>f l. lo \<le> f \<and> f \<le> i \<and> i \<le> l \<and> l \<le> hi \<and> gap ms f l \<and>
        fst (sqClosest (pts ! i) (pts ! f) (pts ! l)) \<le> tol)"

lemma sqClosest_ends: "fst (sqClosest a a b) = 0" "fst (sqClosest b a b) = 0"
proof -
  have "fst (sqClosest p a b) \<le> sqDist p (lerp a b s)" if "0 \<le> s" "s \<le> 1" for p s
    using that by (auto simp: fst_sqClosest intro: sqClosest_cases [of p a b])
  from this [of 0 a] this [of 1 b] have "fst (sqClosest a a b) \<le> 0" "fst (sqClosest b a b) \<le> 0"
    by simp_all
  then show "fst (sqClosest a a b) = 0" "fst (sqClosest b a b) = 0"
    by (simp_all add: fst_sqClosest antisym)
qed

lemma coveredI:
  "lo \<le> f \<Longrightarrow> f \<le> i \<Longrightarrow> i \<le> l \<Longrightarrow> l \<le> hi \<Longrightarrow> gap ms f l \<Longrightarrow>
   fst (sqClosest (pts ! i) (pts ! f) (pts ! l)) \<le> tol \<Longrightarrow> covered pts ms tol lo hi i"
  unfolding covered_def by blast

lemma covered_mono:
  assumes "covered pts ms tol lo hi i" "lo' \<le> lo" "hi \<le> hi'" "\<And>k. lo \<le> k \<Longrightarrow> k \<le> hi \<Longrightarrow> ms' ! k = ms ! k"
  shows "covered pts ms' tol lo' hi' i"
proof -
  from assms(1) obtain f l where *: "lo \<le> f" "f \<le> i" "i \<le> l" "l \<le> hi" "gap ms f l"
    "fst (sqClosest (pts ! i) (pts ! f) (pts ! l)) \<le> tol" unfolding covered_def by blast
  then have "gap ms' f l" using assms(4) by (auto simp: gap_def)
  with * assms(2,3) show ?thesis by (intro coveredI [of lo' f i l]) auto
qed

lemma dp_step_covered:
  assumes "l < length ms" "gap ms f l" "0 \<le> tol" "f \<le> i" "i \<le> l"
  shows "covered pts (dp_step pts ms tol f l) tol f l i"
  using assms
proof (induction pts ms tol f l rule: dp_step.induct)
  case (1 pts ms tol f l)
  obtain idx m where srch: "dp_search pts f l [f + 1..<l] None 0 = (idx, m)" by force
  from dp_search_max [OF srch] have
    max: "\<And>j. f + 1 \<le> j \<Longrightarrow> j < l \<Longrightarrow> fst (sqClosest (pts ! j) (pts ! f) (pts ! l)) \<le> m" by auto
  show ?case
  proof (cases "\<exists>k. idx = Some k \<and> m > tol")
    case True
    then obtain k where k: "idx = Some k" "m > tol" by blast
    with srch dp_search_index [of pts f l "[f + 1..<l]" None 0 k m] have kr: "f < k" "k < l" by auto
    let ?m1 = "dp_step pts (ms[k := True]) tol f k"
    have gaps: "gap (ms[k := True]) f k" "gap ?m1 k l"
      using "1.prems" kr by (auto simp: gap_def dp_step_frame nth_list_update)
    have eq: "dp_step pts ms tol f l = dp_step pts ?m1 tol k l"
      using srch k by (subst dp_step.simps) simp
    have sk: "(Some k, m) = dp_search pts f l [f + 1..<l] None 0" using srch k by simp
    show ?thesis
    proof (cases "i \<le> k")
      case True
      have "covered pts ?m1 tol f k i"
        by (rule "1.IH"(1) [OF sk refl]) (use k kr gaps "1.prems" True in simp_all)
      then show ?thesis unfolding eq by (rule covered_mono) (use kr in \<open>simp_all add: dp_step_frame\<close>)
    next
      case False
      have "covered pts (dp_step pts ?m1 tol k l) tol k l i"
        by (rule "1.IH"(2) [OF sk refl]) (use k kr gaps "1.prems" False in simp_all)
      then show ?thesis unfolding eq by (rule covered_mono) (use kr in simp_all)
    qed
  next
    case False
    have mt: "m \<le> tol" using False srch dp_search_none [of pts f l "[f + 1..<l]" 0 m] "1.prems"
      by (cases idx) auto
    have eq: "dp_step pts ms tol f l = ms"
      using srch False by (subst dp_step.simps) (auto split: option.splits)
    have "fst (sqClosest (pts ! i) (pts ! f) (pts ! l)) \<le> tol"
    proof (cases "i = f \<or> i = l")
      case True
      then show ?thesis using "1.prems" by (auto simp: sqClosest_ends)
    next
      case False
      then have "f + 1 \<le> i" "i < l" using "1.prems" by auto
      then show ?thesis using max [of i] mt by simp
    qed
    then show ?thesis unfolding eq using "1.prems" by (intro coveredI) simp_all
  qed
qed

section \<open>Cohen-Sutherland clipping\<close>

text \<open>\<open>_getBitCode\<close>\<close>

definition getBitCode :: "point \<Rightarrow> bounds \<Rightarrow> int" where
  "getBitCode p b =
     (let code = 0;
          code = (if px p < px (bmin b) then code OR 1
                  else if px p > px (bmax b) then code OR 2 else code)
      in if py p < py (bmin b) then code OR 4
         else if py p > py (bmax b) then code OR 8 else code)"

text \<open>\<open>_getEdgeIntersection\<close>; with no edge bit the code builds a point of \<open>undefined\<close>
  coordinates, here \<open>None\<close>.\<close>

definition getEdgeIntersection :: "point \<Rightarrow> point \<Rightarrow> int \<Rightarrow> bounds \<Rightarrow> bool \<Rightarrow> point option" where
  "getEdgeIntersection a b code bs rnd =
     (let dx = px b - px a; dy = py b - py a; mn = bmin bs; mx = bmax bs
      in if code AND 8 \<noteq> 0 then Some (new_point (px a + dx * (py mx - py a) / dy) (py mx) rnd)
         else if code AND 4 \<noteq> 0 then Some (new_point (px a + dx * (py mn - py a) / dy) (py mn) rnd)
         else if code AND 2 \<noteq> 0 then Some (new_point (px mx) (py a + dy * (px mx - px a) / dx) rnd)
         else if code AND 1 \<noteq> 0 then Some (new_point (px mn) (py a + dy * (px mn - px a) / dx) rnd)
         else None)"

datatype clip_result = Segment point point | Rejected

text \<open>The loop of \<open>clipSegment\<close>; \<open>None\<close> is out of fuel.\<close>

primrec clip_loop :: "nat \<Rightarrow> point \<Rightarrow> point \<Rightarrow> int \<Rightarrow> int \<Rightarrow> bounds \<Rightarrow> bool \<Rightarrow> clip_result option" where
  "clip_loop 0 a b codeA codeB bs rnd = None"
| "clip_loop (Suc n) a b codeA codeB bs rnd =
     (if codeA OR codeB = 0 then Some (Segment a b)
      else if codeA AND codeB \<noteq> 0 then Some Rejected
      else
        let codeOut = (if codeA \<noteq> 0 then codeA else codeB)
        in case getEdgeIntersection a b codeOut bs rnd of
             None \<Rightarrow> None
           | Some p \<Rightarrow>
               let newCode = getBitCode p bs
               in if codeOut = codeA then clip_loop n p b newCode codeB bs rnd
                  else clip_loop n a p codeA newCode bs rnd)"

text \<open>\<open>clipSegment\<close>, with \<open>_lastCode\<close> as state: the result and the new \<open>_lastCode\<close>.\<close>

definition clipSegment ::
  "int \<Rightarrow> point \<Rightarrow> point \<Rightarrow> bounds \<Rightarrow> bool \<Rightarrow> bool \<Rightarrow> clip_result option \<times> int" where
  "clipSegment lastCode a b bs useLastCode rnd =
     (let codeA = (if useLastCode then lastCode else getBitCode a bs);
          codeB = getBitCode b bs
      in (clip_loop 5 a b codeA codeB bs rnd, codeB))"

text \<open>The four edges, and how far a point lies outside each.\<close>

definition edges :: "int list" where
  "edges = [1, 4, 2, 8]"

definition viol :: "int \<Rightarrow> bounds \<Rightarrow> point \<Rightarrow> real" where
  "viol e b p =
     (if e = 8 then py p - py (bmax b) else if e = 4 then py (bmin b) - py p
      else if e = 2 then px p - px (bmax b) else px (bmin b) - px p)"

text \<open>The edge the intersection is taken with: the first bit in the order 8, 4, 2, 1.\<close>

definition first_edge :: "int \<Rightarrow> int" where
  "first_edge c = (if c AND 8 \<noteq> 0 then 8 else if c AND 4 \<noteq> 0 then 4 else if c AND 2 \<noteq> 0 then 2 else 1)"

lemma edge_cases: "e \<in> set edges \<longleftrightarrow> e = 1 \<or> e = 4 \<or> e = 2 \<or> e = 8"
  by (auto simp: edges_def)

lemma code_bit:
  "bounds_wf b \<Longrightarrow> e \<in> set edges \<Longrightarrow> getBitCode p b AND e \<noteq> 0 \<longleftrightarrow> viol e b p > 0"
  by (auto simp: edge_cases getBitCode_def Let_def viol_def bounds_wf_def)

lemma code_zero: "bounds_wf b \<Longrightarrow> getBitCode p b = 0 \<longleftrightarrow> (\<forall>e \<in> set edges. viol e b p \<le> 0)"
  by (auto simp: edges_def getBitCode_def Let_def viol_def bounds_wf_def)

lemma code_values: "getBitCode p b \<in> {0, 1, 2, 4, 5, 6, 8, 9, 10}"
  by (simp add: getBitCode_def Let_def)

lemma rect_viol: "p \<in> rect b \<longleftrightarrow> (\<forall>e \<in> set edges. viol e b p \<le> 0)"
  by (auto simp: edges_def rect_def viol_def)

lemma codes_or: "getBitCode p b OR getBitCode q b = 0 \<longleftrightarrow> getBitCode p b = 0 \<and> getBitCode q b = 0"
  by (simp add: or_eq_0_iff)

lemma codes_and:
  "bounds_wf b \<Longrightarrow> getBitCode p b AND getBitCode q b \<noteq> 0 \<longleftrightarrow>
   (\<exists>e \<in> set edges. viol e b p > 0 \<and> viol e b q > 0)"
  by (auto simp: edges_def getBitCode_def Let_def viol_def bounds_wf_def)

lemma first_edge_out:
  assumes "bounds_wf b" "getBitCode p b \<noteq> 0"
  shows "first_edge (getBitCode p b) \<in> set edges \<and> viol (first_edge (getBitCode p b)) b p > 0"
proof -
  let ?c = "getBitCode p b"
  have "first_edge ?c \<in> set edges \<and> ?c AND first_edge ?c \<noteq> 0"
    using code_values [of p b] assms(2) by (auto simp: first_edge_def edges_def)
  then show ?thesis using code_bit [OF assms(1)] by blast
qed

lemma viol_lerp: "viol e b (lerp p q t) = viol e b p + t * (viol e b q - viol e b p)"
  by (simp add: viol_def algebra_simps)


lemma viol_lerp_le:
  "0 \<le> t \<Longrightarrow> t \<le> 1 \<Longrightarrow> viol e b p \<le> 0 \<Longrightarrow> viol e b q \<le> 0 \<Longrightarrow> viol e b (lerp p q t) \<le> 0"
proof -
  assume t: "0 \<le> t" "t \<le> 1" and v: "viol e b p \<le> 0" "viol e b q \<le> 0"
  have "viol e b (lerp p q t) = (1 - t) * viol e b p + t * viol e b q"
    by (simp add: viol_lerp algebra_simps)
  also have "\<dots> \<le> 0" using t v by (intro add_nonpos_nonpos mult_nonneg_nonpos) auto
  finally show ?thesis .
qed

text \<open>The parameter of the intersection with edge \<open>e\<close>.\<close>

definition cut :: "int \<Rightarrow> bounds \<Rightarrow> point \<Rightarrow> point \<Rightarrow> real" where
  "cut e b p q = viol e b p / (viol e b p - viol e b q)"

lemma edge_lerp:
  assumes "first_edge c = e" "c AND e \<noteq> 0" "viol e b p \<noteq> viol e b q"
  shows "getEdgeIntersection p q c b False = Some (lerp p q (cut e b p q))"
  using assms(3) assms(1) [symmetric] assms(2)
  by (auto simp: first_edge_def getEdgeIntersection_def Let_def new_point_def lerp_def cut_def viol_def
      field_simps split: if_splits)

lemma cut_props:
  assumes "viol e b p > 0" "viol e b q \<le> 0"
  shows "0 < cut e b p q" "cut e b p q \<le> 1" "viol e b (lerp p q (cut e b p q)) = 0"
    "0 < cut e b p q \<and> t < cut e b p q \<Longrightarrow> viol e b (lerp p q t) > 0"
proof -
  let ?d = "viol e b p - viol e b q"
  have d: "?d > 0" using assms by simp
  then show "0 < cut e b p q" "cut e b p q \<le> 1" using assms by (simp_all add: cut_def)
  show "viol e b (lerp p q (cut e b p q)) = 0"
    using d by (simp add: viol_lerp cut_def field_simps)
  assume "0 < cut e b p q \<and> t < cut e b p q"
  then have "t * ?d < viol e b p" using d by (simp add: cut_def field_simps)
  then show "viol e b (lerp p q t) > 0" by (simp add: viol_lerp algebra_simps)
qed


lemma lerp_rev: "lerp p q t = lerp q p (1 - t)"
  by (simp add: lerp_def algebra_simps)

lemma seg_commute: "seg p q = seg q p"
proof -
  have "seg p q \<subseteq> seg q p" for p q
  proof
    fix r assume "r \<in> seg p q"
    then obtain t where "r = lerp p q t" "0 \<le> t" "t \<le> 1" by (auto simp: seg_def)
    then show "r \<in> seg q p" using lerp_in_seg [of "1 - t" q p] lerp_rev [of p q t] by simp
  qed
  then show ?thesis by blast
qed

lemma lerp_lerp: "lerp (lerp p q t) q s = lerp p q (t + s * (1 - t))"
  by (simp add: lerp_def algebra_simps)

lemma cut_swap:
  assumes "viol e b p \<noteq> viol e b q"
  shows "lerp p q (cut e b p q) = lerp q p (cut e b q p)"
proof -
  have "cut e b p q = 1 - cut e b q p" using assms by (simp add: cut_def field_simps)
  then show ?thesis using lerp_rev [of p q "cut e b p q"] by simp
qed

lemma shift_le: "x \<le> 1 * (1 - t) \<Longrightarrow> t + x \<le> (1 :: real)"
  by simp

text \<open>Moving an endpoint that lies outside an edge to that edge loses no visible point.\<close>

lemma seg_cut:
  assumes "e \<in> set edges" "viol e b p > 0" "viol e b q \<le> 0"
  shows "seg (lerp p q (cut e b p q)) q \<inter> rect b = seg p q \<inter> rect b"
proof -
  let ?t = "cut e b p q"
  note c = cut_props [OF assms(2,3)]
  have "r \<in> seg p q" if "r \<in> seg (lerp p q ?t) q" for r
  proof -
    from that obtain s where s: "r = lerp p q (?t + s * (1 - ?t))" "0 \<le> s" "s \<le> 1"
      by (auto simp: seg_def lerp_lerp)
    have "s * (1 - ?t) \<le> 1 * (1 - ?t)" using s c by (intro mult_right_mono) auto
    then have "?t + s * (1 - ?t) \<le> 1" by (rule shift_le)
    then show ?thesis using s c by (auto intro!: lerp_in_seg add_nonneg_nonneg mult_nonneg_nonneg)
  qed
  moreover have "r \<in> seg (lerp p q ?t) q" if "r \<in> seg p q" "r \<in> rect b" for r
  proof -
    from that obtain u where u: "r = lerp p q u" "0 \<le> u" "u \<le> 1" by (auto simp: seg_def)
    have "viol e b r \<le> 0" using that(2) assms(1) by (simp add: rect_viol)
    then have ut: "u \<ge> ?t" using c(1) c(4) [of u] u(1) by force
    show ?thesis
    proof (cases "?t = 1")
      case True
      then show ?thesis using u ut seg_ends by (metis lerp_1 order_antisym)
    next
      case False
      let ?s = "(u - ?t) / (1 - ?t)"
      have t1: "1 - ?t > 0" using False c(2) by simp
      have "?t + ?s * (1 - ?t) = u" using t1 by simp
      then have "r = lerp (lerp p q ?t) q ?s" by (simp add: u lerp_lerp)
      moreover have "0 \<le> ?s" "?s \<le> 1" using t1 ut u by (simp_all add: field_simps)
      ultimately show ?thesis using lerp_in_seg by simp
    qed
  qed
  ultimately show ?thesis by blast
qed

definition clip_post :: "point \<Rightarrow> point \<Rightarrow> bounds \<Rightarrow> clip_result \<Rightarrow> bool" where
  "clip_post a b bs r =
     (case r of Rejected \<Rightarrow> seg a b \<inter> rect bs = {}
      | Segment c d \<Rightarrow> seg c d = seg a b \<inter> rect bs)"

definition out_edges :: "bounds \<Rightarrow> point \<Rightarrow> point \<Rightarrow> int set" where
  "out_edges bs a b = {e \<in> set edges. viol e bs a > 0 \<or> viol e bs b > 0}"

lemma out_edges_commute: "out_edges bs a b = out_edges bs b a"
  by (auto simp: out_edges_def)

lemma out_edges_finite [simp]: "finite (out_edges bs a b)"
  by (simp add: out_edges_def)

lemma out_edges_card: "card (out_edges bs a b) \<le> 4"
proof -
  have "card (out_edges bs a b) \<le> card (set edges)"
    by (intro card_mono) (auto simp: out_edges_def)
  then show ?thesis by (simp add: edges_def)
qed

lemma out_edges_cut:
  assumes "e \<in> set edges" "viol e bs p > 0" "viol e bs q \<le> 0"
  shows "card (out_edges bs (lerp p q (cut e bs p q)) q) < card (out_edges bs p q)"
proof (rule psubset_card_mono)
  note c = cut_props [OF assms(2,3)]
  have "e \<notin> out_edges bs (lerp p q (cut e bs p q)) q" using c assms by (simp add: out_edges_def)
  moreover have "e \<in> out_edges bs p q" using assms by (simp add: out_edges_def)
  moreover have "out_edges bs (lerp p q (cut e bs p q)) q \<subseteq> out_edges bs p q"
  proof
    fix f assume f: "f \<in> out_edges bs (lerp p q (cut e bs p q)) q"
    show "f \<in> out_edges bs p q"
    proof (rule ccontr)
      assume "f \<notin> out_edges bs p q"
      with f have "viol f bs p \<le> 0" "viol f bs q \<le> 0" by (auto simp: out_edges_def)
      with c viol_lerp_le [of "cut e bs p q" f bs p q] f show False by (auto simp: out_edges_def)
    qed
  qed
  ultimately show "out_edges bs (lerp p q (cut e bs p q)) q \<subset> out_edges bs p q" by blast
qed simp

lemma clip_loop_correct:
  assumes "bounds_wf bs" "card (out_edges bs a b) < n"
  shows "\<exists>r. clip_loop n a b (getBitCode a bs) (getBitCode b bs) bs False = Some r \<and> clip_post a b bs r"
  using assms(2)
proof (induction n arbitrary: a b)
  case (Suc n)
  let ?A = "getBitCode a bs" and ?B = "getBitCode b bs"
  consider (acc) "?A OR ?B = 0" | (rej) "?A AND ?B \<noteq> 0"
    | (cutA) "?A OR ?B \<noteq> 0" "?A AND ?B = 0" "?A \<noteq> 0"
    | (cutB) "?A OR ?B \<noteq> 0" "?A AND ?B = 0" "?A = 0" "?B \<noteq> 0"
    by (metis codes_or)
  then show ?case
  proof cases
    case acc
    then have "\<forall>e \<in> set edges. viol e bs a \<le> 0 \<and> viol e bs b \<le> 0"
      using assms(1) codes_or code_zero by blast
    then have "seg a b \<subseteq> rect bs" by (auto simp: seg_def rect_viol intro!: viol_lerp_le)
    with acc show ?thesis by (auto simp: clip_post_def)
  next
    case rej
    then obtain e where e: "e \<in> set edges" "viol e bs a > 0" "viol e bs b > 0"
      using codes_and assms(1) by blast
    have "viol e bs (lerp a b t) > 0" if "0 \<le> t" "t \<le> 1" for t
    proof -
      have "viol e bs (lerp a b t) = (1 - t) * viol e bs a + t * viol e bs b"
        by (simp add: viol_lerp algebra_simps)
      then show ?thesis using that e by (cases "t = 0") (auto intro: add_nonneg_pos)
    qed
    then have "seg a b \<inter> rect bs = {}" using e by (force simp: seg_def rect_viol)
    moreover have "?A OR ?B \<noteq> 0" using code_zero [OF assms(1), of a] codes_or e by force
    ultimately show ?thesis using rej by (auto simp: clip_post_def)
  next
    case cutA
    define e where "e = first_edge ?A"
    from first_edge_out [OF assms(1) cutA(3)] have e: "e \<in> set edges" "viol e bs a > 0"
      by (auto simp: e_def)
    with cutA(2) have eb: "viol e bs b \<le> 0" using codes_and [OF assms(1), of a b] by force
    have ebit: "?A AND e \<noteq> 0" using code_bit [OF assms(1) e(1)] e(2) by blast
    let ?p = "lerp a b (cut e bs a b)"
    have "getEdgeIntersection a b ?A bs False = Some ?p"
      by (rule edge_lerp) (use e eb ebit in \<open>simp_all add: e_def\<close>)
    moreover obtain r where "clip_loop n ?p b (getBitCode ?p bs) ?B bs False = Some r" "clip_post ?p b bs r"
      using Suc.IH [of ?p b] out_edges_cut [OF e eb] Suc.prems by auto
    ultimately show ?thesis using cutA seg_cut [OF e eb]
      by (auto simp: clip_post_def Let_def split: clip_result.splits)
  next
    case cutB
    define e where "e = first_edge ?B"
    from first_edge_out [OF assms(1) cutB(4)] have e: "e \<in> set edges" "viol e bs b > 0"
      by (auto simp: e_def)
    have ea: "viol e bs a \<le> 0" using cutB(3) code_zero [OF assms(1), of a] e(1) by blast
    have ebit: "?B AND e \<noteq> 0" using code_bit [OF assms(1) e(1)] e(2) by blast
    let ?p = "lerp b a (cut e bs b a)"
    have "getEdgeIntersection a b ?B bs False = Some (lerp a b (cut e bs a b))"
      by (rule edge_lerp) (use e ea ebit in \<open>simp_all add: e_def\<close>)
    then have "getEdgeIntersection a b ?B bs False = Some ?p"
      using cut_swap [of e bs a b] e ea by force
    moreover obtain r where "clip_loop n a ?p ?A (getBitCode ?p bs) bs False = Some r" "clip_post a ?p bs r"
      using Suc.IH [of a ?p] out_edges_cut [OF e ea] Suc.prems
      by (auto simp: out_edges_commute [of bs a ?p] out_edges_commute [of bs a b])
    moreover have "seg a ?p \<inter> rect bs = seg a b \<inter> rect bs"
      using seg_cut [OF e ea] seg_commute by metis
    ultimately show ?thesis using cutB by (cases r) (simp_all add: clip_post_def Let_def)
  qed
qed simp


lemma clipSegment_result:
  assumes "bounds_wf bs"
  shows "\<exists>r. clip_loop 5 a b (getBitCode a bs) (getBitCode b bs) bs False = Some r \<and> clip_post a b bs r"
  by (rule clip_loop_correct [OF assms]) (use out_edges_card [of bs a b] in simp)

section \<open>Properties\<close>

text \<open>
  \<open>closestPointOnSegment\<close> gives a point of the segment to which no other point of the segment
  is closer, and \<open>pointToSegmentDistance\<close> is the distance to it.
\<close>

theorem closestPointOnSegment_minimal:
  "closestPointOnSegment p a b \<in> seg a b \<and>
   (\<forall>q \<in> seg a b. sqDist p (closestPointOnSegment p a b) \<le> sqDist p q) \<and>
   pointToSegmentDistance p a b = sqrt (sqDist p (closestPointOnSegment p a b))"
proof -
  obtain t where t: "snd (sqClosest p a b) = lerp a b t" "0 \<le> t" "t \<le> 1"
    "\<And>s. 0 \<le> s \<Longrightarrow> s \<le> 1 \<Longrightarrow> sqDist p (lerp a b t) \<le> sqDist p (lerp a b s)" using sqClosest_cases by blast
  then show ?thesis
    by (auto simp: closestPointOnSegment_def pointToSegmentDistance_def fst_sqClosest seg_def)
qed

lemma closestPointOnSegment_minimal_witness:
  "closestPointOnSegment (pt 1 1) (pt 0 0) (pt 4 0) \<in> seg (pt 0 0) (pt 4 0) \<and>
   sqDist (pt 1 1) (closestPointOnSegment (pt 1 1) (pt 0 0) (pt 4 0)) \<le> sqDist (pt 1 1) (pt 0 0) \<and>
   pointToSegmentDistance (pt 1 1) (pt 0 0) (pt 4 0) =
     sqrt (sqDist (pt 1 1) (closestPointOnSegment (pt 1 1) (pt 0 0) (pt 4 0)))"
proof -
  have "pt 0 0 \<in> seg (pt 0 0) (pt 4 0)" by (auto simp: seg_def intro!: exI [of _ 0])
  then show ?thesis using closestPointOnSegment_minimal [of "pt 1 1" "pt 0 0" "pt 4 0"] by blast
qed

text \<open>
  C40: \<open>_simplifyDP\<close> keeps a subsequence of the points with both ends, and every point of the input
  lies within the tolerance (a square distance) of the segment between the two neighbours among
  the kept points that enclose it.
\<close>

theorem simplifyDP_within_tolerance:
  assumes "pts \<noteq> []" "0 \<le> tol"
  shows "\<exists>ms. length ms = length pts \<and> ms ! 0 \<and> ms ! (length pts - 1) \<and>
    simplifyDP pts tol = map (nth pts) (filter (nth ms) [0..<length pts]) \<and>
    (\<forall>i < length pts. \<exists>f l. f \<le> i \<and> i \<le> l \<and> l < length pts \<and> gap ms f l \<and>
       sqDist (pts ! i) (closestPointOnSegment (pts ! i) (pts ! f) (pts ! l)) \<le> tol)"
proof -
  let ?n = "length pts"
  let ?m0 = "(replicate ?n False)[0 := True, ?n - 1 := True]"
  define ms where "ms = dp_step pts ?m0 tol 0 (?n - 1)"
  have n: "0 < ?n" using assms(1) by simp
  have g: "gap ?m0 0 (?n - 1)" using n by (auto simp: gap_def nth_list_update)
  have "covered pts ms tol 0 (?n - 1) i" if "i < ?n" for i
    unfolding ms_def by (rule dp_step_covered) (use g n assms(2) that in auto)
  then have cov: "\<exists>f l. f \<le> i \<and> i \<le> l \<and> l < ?n \<and> gap ms f l \<and>
      sqDist (pts ! i) (closestPointOnSegment (pts ! i) (pts ! f) (pts ! l)) \<le> tol" if "i < ?n" for i
    using that by (fastforce simp: covered_def closestPointOnSegment_def fst_sqClosest)
  have "ms ! 0" "ms ! (?n - 1)" using g by (simp_all add: ms_def dp_step_frame gap_def)
  moreover have "simplifyDP pts tol = map (nth pts) (filter (nth ms) [0..<?n])"
    by (simp add: simplifyDP_def ms_def Let_def)
  ultimately show ?thesis using cov by (intro exI [of _ ms]) (simp add: ms_def)
qed

lemma simplifyDP_within_tolerance_witness:
  "let pts = [pt 0 0, pt 1 1, pt 2 0] in
   \<exists>ms. length ms = length pts \<and> ms ! 0 \<and> ms ! (length pts - 1) \<and>
    simplifyDP pts 2 = map (nth pts) (filter (nth ms) [0..<length pts]) \<and>
    (\<forall>i < length pts. \<exists>f l. f \<le> i \<and> i \<le> l \<and> l < length pts \<and> gap ms f l \<and>
       sqDist (pts ! i) (closestPointOnSegment (pts ! i) (pts ! f) (pts ! l)) \<le> 2)"
  unfolding Let_def by (rule simplifyDP_within_tolerance) simp_all

text \<open>
  \<open>clipSegment\<close> without rounding is exact and always returns: within its at most five rounds it
  either finds that the segment and the bounds have no common point or gives the two ends of a
  segment that holds exactly the points of the given one inside the bounds.
\<close>

theorem clipSegment_exact:
  assumes "bounds_wf bs"
  shows "case fst (clipSegment lastCode a b bs False False) of
      None \<Rightarrow> False
    | Some Rejected \<Rightarrow> seg a b \<inter> rect bs = {}
    | Some (Segment c d) \<Rightarrow> seg c d = seg a b \<inter> rect bs"
proof -
  obtain r where "fst (clipSegment lastCode a b bs False False) = Some r" "clip_post a b bs r"
    using clipSegment_result [OF assms, of a b] by (auto simp: clipSegment_def Let_def)
  then show ?thesis by (cases r) (simp_all add: clip_post_def)
qed

lemma clipSegment_exact_witness:
  "case fst (clipSegment 0 (pt (- 5) 1) (pt 5 3) \<lparr>bmin = pt 0 0, bmax = pt 2 2\<rparr> False False) of
      None \<Rightarrow> False
    | Some Rejected \<Rightarrow> seg (pt (- 5) 1) (pt 5 3) \<inter> rect \<lparr>bmin = pt 0 0, bmax = pt 2 2\<rparr> = {}
    | Some (Segment c d) \<Rightarrow> seg c d = seg (pt (- 5) 1) (pt 5 3) \<inter> rect \<lparr>bmin = pt 0 0, bmax = pt 2 2\<rparr>"
  by (rule clipSegment_exact) (simp add: bounds_wf_def)

end
