(* ===== verification/PolyUtil.thy ===== *)
theory PolyUtil
  imports LineUtil
begin

text \<open>
  \<open>loleaflet/src/geometry/PolyUtil.js\<close>: Sutherland-Hodgman polygon clipping. The code stores
  the outcode of a point in its \<open>_code\<close> field; here a point is paired with it.
\<close>

type_synonym coded = "point \<times> int"

text \<open>What one step of the inner loop pushes, for \<open>a = points[i]\<close> and its predecessor \<open>b\<close>.\<close>

definition clip_emit :: "int \<Rightarrow> bounds \<Rightarrow> bool \<Rightarrow> coded \<Rightarrow> coded \<Rightarrow> coded list" where
  "clip_emit edge bs rnd b a =
     (let cut = (case getEdgeIntersection (fst b) (fst a) edge bs rnd of
                   None \<Rightarrow> [] | Some p \<Rightarrow> [(p, getBitCode p bs)])
      in if snd a AND edge = 0 then (if snd b AND edge \<noteq> 0 then cut else []) @ [a]
         else if snd b AND edge = 0 then cut else [])"

text \<open>The loop \<open>for (i = 0, j = len - 1; i < len; j = i++)\<close>: \<open>b\<close> is the point before.\<close>

fun clip_walk :: "int \<Rightarrow> bounds \<Rightarrow> bool \<Rightarrow> coded \<Rightarrow> coded list \<Rightarrow> coded list" where
  "clip_walk edge bs rnd b [] = []"
| "clip_walk edge bs rnd b (a # as) = clip_emit edge bs rnd b a @ clip_walk edge bs rnd a as"

definition clip_edge :: "bounds \<Rightarrow> bool \<Rightarrow> int \<Rightarrow> coded list \<Rightarrow> coded list" where
  "clip_edge bs rnd edge pts = (if pts = [] then [] else clip_walk edge bs rnd (last pts) pts)"

definition clipPolygon :: "point list \<Rightarrow> bounds \<Rightarrow> bool \<Rightarrow> point list" where
  "clipPolygon points bs rnd =
     map fst (fold (clip_edge bs rnd) edges (map (\<lambda>p. (p, getBitCode p bs)) points))"

text \<open>The invariant of the outer loop: codes are right and the edges done so far are kept.\<close>

definition inside :: "bounds \<Rightarrow> int set \<Rightarrow> coded \<Rightarrow> bool" where
  "inside bs E c \<longleftrightarrow> snd c = getBitCode (fst c) bs \<and> (\<forall>e \<in> E. viol e bs (fst c) \<le> 0)"

lemma edge_self: "e \<in> set edges \<Longrightarrow> first_edge e = e \<and> e AND e \<noteq> 0"
  by (auto simp: edge_cases first_edge_def)

lemma clip_emit_inside:
  assumes wf: "bounds_wf bs" and e: "e \<in> set edges" and ab: "inside bs E a" "inside bs E b"
    and c: "c \<in> set (clip_emit e bs False b a)"
  shows "inside bs (insert e E) c"
proof -
  have codes: "snd a AND e \<noteq> 0 \<longleftrightarrow> viol e bs (fst a) > 0" "snd b AND e \<noteq> 0 \<longleftrightarrow> viol e bs (fst b) > 0"
    using code_bit [OF wf e] ab by (simp_all add: inside_def)
  have cut_in: "inside bs (insert e E) (p, getBitCode p bs)"
    if "getEdgeIntersection (fst b) (fst a) e bs False = Some p"
      and opp: "(viol e bs (fst b) > 0) \<noteq> (viol e bs (fst a) > 0)" for p
  proof -
    have ne: "viol e bs (fst b) \<noteq> viol e bs (fst a)" using opp by auto
    then have p: "p = lerp (fst b) (fst a) (cut e bs (fst b) (fst a))"
      using edge_lerp [of e e bs "fst b" "fst a"] edge_self [OF e] that by simp
    have ex: "\<exists>t. 0 \<le> t \<and> t \<le> 1 \<and> p = lerp (fst b) (fst a) t \<and> viol e bs p = 0"
    proof (cases "viol e bs (fst b) > 0")
      case True
      then show ?thesis using cut_props [of e bs "fst b" "fst a"] opp p by force
    next
      case False
      then have v: "viol e bs (fst a) > 0" "viol e bs (fst b) \<le> 0" using opp by auto
      define u where "u = cut e bs (fst a) (fst b)"
      have pu: "p = lerp (fst a) (fst b) u" using p cut_swap [OF ne] by (simp add: u_def)
      have "0 < u" "u \<le> 1" "viol e bs p = 0" using cut_props [OF v] pu by (simp_all add: u_def)
      then show ?thesis using lerp_rev [of "fst a" "fst b" u] pu by (intro exI [of _ "1 - u"]) simp
    qed
    then obtain t where t: "0 \<le> t" "t \<le> 1" "p = lerp (fst b) (fst a) t" "viol e bs p = 0" by blast
    then show ?thesis using ab by (auto simp: inside_def intro!: viol_lerp_le)
  qed
  have "(c = a \<and> \<not> viol e bs (fst a) > 0) \<or>
    (\<exists>p. c = (p, getBitCode p bs) \<and> getEdgeIntersection (fst b) (fst a) e bs False = Some p \<and>
       (viol e bs (fst b) > 0) \<noteq> (viol e bs (fst a) > 0))"
    using c codes
    by (cases "getEdgeIntersection (fst b) (fst a) e bs False")
      (simp_all add: clip_emit_def Let_def split: if_splits)
  then show ?thesis using cut_in ab by (auto simp: inside_def)
qed

lemma clip_walk_inside:
  "bounds_wf bs \<Longrightarrow> e \<in> set edges \<Longrightarrow> inside bs E b \<Longrightarrow> list_all (inside bs E) as \<Longrightarrow>
   list_all (inside bs (insert e E)) (clip_walk e bs False b as)"
proof (induction as arbitrary: b)
  case (Cons a as)
  then have a: "inside bs E a" by simp
  have "list_all (inside bs (insert e E)) (clip_emit e bs False b a)"
    unfolding list_all_iff using clip_emit_inside [OF Cons.prems(1,2) a Cons.prems(3)] by blast
  moreover have "list_all (inside bs (insert e E)) (clip_walk e bs False a as)"
    by (rule Cons.IH) (use Cons.prems in auto)
  ultimately show ?case by simp
qed simp

lemma clip_edge_inside:
  "bounds_wf bs \<Longrightarrow> e \<in> set edges \<Longrightarrow> list_all (inside bs E) pts \<Longrightarrow>
   list_all (inside bs (insert e E)) (clip_edge bs False e pts)"
  using clip_walk_inside [of bs e E "last pts" pts] last_in_set [of pts]
  by (cases "pts = []") (auto simp: clip_edge_def list_all_iff)

lemma clip_fold_inside:
  "bounds_wf bs \<Longrightarrow> set es \<subseteq> set edges \<Longrightarrow> list_all (inside bs E) pts \<Longrightarrow>
   list_all (inside bs (E \<union> set es)) (fold (clip_edge bs False) es pts)"
proof (induction es arbitrary: E pts)
  case (Cons e es)
  then have "list_all (inside bs (insert e E)) (clip_edge bs False e pts)"
    by (intro clip_edge_inside) auto
  with Cons have "list_all (inside bs (insert e E \<union> set es)) (fold (clip_edge bs False) es (clip_edge bs False e pts))"
    by (intro Cons.IH) auto
  then show ?case by (simp add: insert_commute Un_commute)
qed simp

lemma clip_walk_id: "(\<And>c. c \<in> set (b # as) \<Longrightarrow> snd c = 0) \<Longrightarrow> clip_walk e bs rnd b as = as"
  by (induction as arbitrary: b) (auto simp: clip_emit_def Let_def)

lemma clip_fold_id: "(\<And>c. c \<in> set pts \<Longrightarrow> snd c = 0) \<Longrightarrow> fold (clip_edge bs rnd) es pts = pts"
proof (induction es)
  case (Cons e es)
  have "clip_edge bs rnd e pts = pts"
    unfolding clip_edge_def using clip_walk_id [of "last pts" pts e bs rnd] Cons.prems
    by (metis last_in_set set_ConsD)
  then show ?case using Cons by simp
qed simp

section \<open>Properties\<close>

text \<open>
  \<open>clipPolygon\<close> without rounding gives only points inside the bounds, and with or without
  rounding it leaves a polygon that lies inside them as it is.
\<close>

theorem clipPolygon_inside:
  assumes "bounds_wf bs"
  shows "set (clipPolygon ps bs False) \<subseteq> rect bs \<and> (set ps \<subseteq> rect bs \<longrightarrow> clipPolygon ps bs rnd = ps)"
proof
  let ?start = "map (\<lambda>p. (p, getBitCode p bs)) ps"
  have "list_all (inside bs {}) ?start" by (simp add: list_all_iff inside_def)
  from clip_fold_inside [OF assms subset_refl this]
  have "list_all (inside bs (set edges)) (fold (clip_edge bs False) edges ?start)" by simp
  then show "set (clipPolygon ps bs False) \<subseteq> rect bs"
    by (auto simp: clipPolygon_def list_all_iff inside_def rect_viol)
  have "snd c = 0" if "set ps \<subseteq> rect bs" "c \<in> set ?start" for c
    using that by (auto simp: code_zero [OF assms] rect_viol subset_iff)
  then show "set ps \<subseteq> rect bs \<longrightarrow> clipPolygon ps bs rnd = ps"
    using clip_fold_id [of ?start bs rnd edges] by (simp add: clipPolygon_def comp_def)
qed

lemma clipPolygon_inside_witness:
  "set (clipPolygon [pt 0 0, pt 1 0, pt 1 2] \<lparr>bmin = pt 0 0, bmax = pt 2 2\<rparr> False) \<subseteq> rect \<lparr>bmin = pt 0 0, bmax = pt 2 2\<rparr> \<and>
   clipPolygon [pt 0 0, pt 1 0, pt 1 2] \<lparr>bmin = pt 0 0, bmax = pt 2 2\<rparr> True = [pt 0 0, pt 1 0, pt 1 2]"
proof -
  have "set [pt 0 0, pt 1 0, pt 1 2] \<subseteq> rect \<lparr>bmin = pt 0 0, bmax = pt 2 2\<rparr>" by (simp add: rect_def)
  then show ?thesis
    using clipPolygon_inside [of "\<lparr>bmin = pt 0 0, bmax = pt 2 2\<rparr>" "[pt 0 0, pt 1 0, pt 1 2]" True]
    by (simp add: bounds_wf_def)
qed

end
