(* ===== verification/Util.thy ===== *)
theory Util
  imports Prelude "HOL-Library.Sublist"
begin

text \<open>
  \<open>loleaflet/src/core/Util.js\<close>: number wrapping and rounding, words of a string, and the
  \<open>throttle\<close> wrapper as a state machine over calls and timer expiries.
\<close>

section \<open>Numbers\<close>

text \<open>The remainder operator on numbers: the quotient is truncated towards zero.\<close>

definition js_trunc :: "real \<Rightarrow> int" where
  "js_trunc x = (if x < 0 then \<lceil>x\<rceil> else \<lfloor>x\<rfloor>)"

definition js_fmod :: "real \<Rightarrow> real \<Rightarrow> real" where
  "js_fmod x d = x - d * of_int (js_trunc (x / d))"

text \<open>\<open>wrapNum(x, [mn, mx], includeMax)\<close>\<close>

definition wrapNum :: "real \<Rightarrow> real \<times> real \<Rightarrow> bool \<Rightarrow> real" where
  "wrapNum x rg includeMax =
     (let mx = snd rg; mn = fst rg; d = mx - mn
      in if x = mx \<and> includeMax then x else js_fmod (js_fmod (x - mn) d + d) d + mn)"

text \<open>\<open>L.round(x, e)\<close>: to the nearest multiple of \<open>e\<close>, or of 1 when \<open>e\<close> is 0.\<close>

definition roundTo :: "real \<Rightarrow> real \<Rightarrow> real" where
  "roundTo x e =
     (if e = 0 then of_int (js_round x)
      else (let f = 1 / e in of_int (js_round (x * f)) * e))"

text \<open>\<open>formatNum(num, digits)\<close>; no or zero digits means 5.\<close>

definition formatNum :: "real \<Rightarrow> nat option \<Rightarrow> real" where
  "formatNum x digits =
     (let d = (case digits of None \<Rightarrow> 5 | Some k \<Rightarrow> if k = 0 then 5 else k);
          p = 10 ^ d
      in of_int (js_round (x * p)) / p)"

lemma js_fmod_pos:
  assumes "0 < d" "0 \<le> x"
  shows "0 \<le> js_fmod x d" "js_fmod x d < d"
proof -
  have q: "0 \<le> x / d" using assms by simp
  define k where "k = \<lfloor>x / d\<rfloor>"
  have "of_int k \<le> x / d" "x / d < of_int k + 1" unfolding k_def by linarith+
  then have k: "of_int k * d \<le> x" "x < (of_int k + 1) * d"
    using assms(1) by (simp_all add: pos_le_divide_eq pos_divide_less_eq)
  have "js_fmod x d = x - of_int k * d"
    using q by (simp add: js_fmod_def js_trunc_def k_def mult.commute)
  with k show "0 \<le> js_fmod x d" "js_fmod x d < d" by (simp_all add: algebra_simps)
qed

lemma js_fmod_neg:
  assumes "0 < d" "x < 0"
  shows "- d < js_fmod x d" "js_fmod x d \<le> 0"
proof -
  have q: "x / d < 0" using assms by (simp add: divide_neg_pos)
  define k where "k = \<lceil>x / d\<rceil>"
  have "x / d \<le> of_int k" "of_int k - 1 < x / d" unfolding k_def by linarith+
  then have k: "x \<le> of_int k * d" "(of_int k - 1) * d < x"
    using assms(1) by (simp_all add: pos_divide_le_eq pos_less_divide_eq)
  have "js_fmod x d = x - of_int k * d"
    using q by (simp add: js_fmod_def js_trunc_def k_def mult.commute)
  with k show "- d < js_fmod x d" "js_fmod x d \<le> 0" by (simp_all add: algebra_simps)
qed

lemma js_fmod_cong: "\<exists>k :: int. js_fmod x d = x + of_int k * d"
  by (rule exI [of _ "- js_trunc (x / d)"]) (simp add: js_fmod_def)

lemma wrapNum_range:
  assumes "mn < mx"
  shows "mn \<le> wrapNum x (mn, mx) False" "wrapNum x (mn, mx) False < mx"
proof -
  let ?d = "mx - mn" and ?r = "js_fmod (x - mn) (mx - mn)"
  have d: "0 < ?d" using assms by simp
  have "0 \<le> ?r + ?d"
    using js_fmod_pos [OF d, of "x - mn"] js_fmod_neg [OF d, of "x - mn"] d by (cases "x - mn < 0") auto
  from js_fmod_pos [OF d this] show "mn \<le> wrapNum x (mn, mx) False" "wrapNum x (mn, mx) False < mx"
    by (simp_all add: wrapNum_def Let_def)
qed

lemma wrapNum_cong: "\<exists>k :: int. wrapNum x (mn, mx) b = x + of_int k * (mx - mn)"
proof (cases "x = mx \<and> b")
  case True
  then show ?thesis by (intro exI [of _ 0]) (simp add: wrapNum_def)
next
  case False
  define d where "d = mx - mn"
  obtain k where k: "js_fmod (x - mn) d = (x - mn) + of_int k * d" using js_fmod_cong by blast
  obtain j where j: "js_fmod (js_fmod (x - mn) d + d) d = js_fmod (x - mn) d + d + of_int j * d"
    using js_fmod_cong by blast
  have "wrapNum x (mn, mx) b = js_fmod (x - mn) d + d + of_int j * d + mn"
    using False by (auto simp: wrapNum_def Let_def j simp flip: d_def)
  also have "\<dots> = x + of_int (k + 1 + j) * d" by (simp add: k algebra_simps)
  finally show ?thesis unfolding d_def by blast
qed

lemma roundTo_close:
  assumes "0 < e"
  shows "\<bar>roundTo x e - x\<bar> \<le> e / 2"
proof -
  have "\<bar>of_int (js_round (x / e)) - x / e\<bar> \<le> 1 / 2"
    using js_round_bounds [of "x / e"] by linarith
  then have "\<bar>of_int (js_round (x / e)) - x / e\<bar> * e \<le> 1 / 2 * e"
    using assms by (intro mult_right_mono) auto
  moreover have "\<bar>of_int (js_round (x / e)) - x / e\<bar> * e = \<bar>roundTo x e - x\<bar>"
  proof -
    have "\<bar>of_int (js_round (x / e)) - x / e\<bar> * e = \<bar>(of_int (js_round (x / e)) - x / e) * e\<bar>"
      using assms by (simp add: abs_mult)
    also have "(of_int (js_round (x / e)) - x / e) * e = roundTo x e - x"
      using assms by (simp add: roundTo_def Let_def field_simps)
    finally show ?thesis .
  qed
  ultimately show ?thesis by simp
qed

section \<open>Words\<close>

definition is_space :: "char \<Rightarrow> bool" where
  "is_space c \<longleftrightarrow> char_code c = 32 \<or> (9 \<le> char_code c \<and> char_code c \<le> 13) \<or> char_code c = 160"

definition js_trim :: "string \<Rightarrow> string" where
  "js_trim s = rev (dropWhile is_space (rev (dropWhile is_space s)))"

text \<open>Splitting at runs of separators: \<open>s.split(/\s+/)\<close>, \<open>s.split(/[ \n]+/)\<close>.\<close>

function split_runs :: "(char \<Rightarrow> bool) \<Rightarrow> string \<Rightarrow> string list" where
  "split_runs P s =
     (let r = dropWhile (\<lambda>c. \<not> P c) s
      in if r = [] then [s] else takeWhile (\<lambda>c. \<not> P c) s # split_runs P (dropWhile P r))"
  by pat_completeness auto
termination
proof (relation "measure (\<lambda>(P, s). length s)", goal_cases)
  case 1
  show ?case by simp
next
  case (2 P s x)
  then obtain c r where x: "x = c # r" by (meson neq_Nil_conv)
  with 2 have "P c" using hd_dropWhile [of "\<lambda>c. \<not> P c" s] by (metis list.sel(1))
  with x have "length (dropWhile P x) < length x"
    by (simp add: le_imp_less_Suc length_dropWhile_le)
  also have "\<dots> \<le> length s" using 2 by (simp add: length_dropWhile_le)
  finally show ?case by simp
qed

declare split_runs.simps [simp del]

definition splitWords :: "string \<Rightarrow> string list" where
  "splitWords s = split_runs is_space (js_trim s)"

lemma js_trim_ends:
  "js_trim s = [] \<or> (\<not> is_space (hd (js_trim s)) \<and> \<not> is_space (last (js_trim s)))"
proof (cases "js_trim s = []")
  case False
  let ?u = "dropWhile is_space s"
  let ?v = "dropWhile is_space (rev ?u)"
  have v: "?v \<noteq> []" using False by (simp add: js_trim_def)
  then have u: "?u \<noteq> []" by (metis dropWhile.simps(1) rev.simps(1))
  obtain w where w: "rev ?u = w @ ?v" using takeWhile_dropWhile_id by metis
  then have "?u = rev ?v @ rev w" by (metis rev_append rev_rev_ident)
  then have "hd (js_trim s) = hd ?u" unfolding js_trim_def using v by (metis hd_append2 rev_is_Nil_conv)
  moreover have "last (js_trim s) = hd ?v" using v by (simp add: js_trim_def last_rev)
  ultimately show ?thesis using hd_dropWhile [OF u] hd_dropWhile [OF v] by simp
qed simp

lemma split_runs_words:
  "(s = [] \<or> \<not> P (last s)) \<Longrightarrow> w \<in> set (split_runs P s) \<Longrightarrow> \<forall>c \<in> set w. \<not> P c"
proof (induction P s rule: split_runs.induct)
  case (1 P s)
  let ?r = "dropWhile (\<lambda>c. \<not> P c) s"
  show ?case
  proof (cases "?r = []")
    case True
    then show ?thesis using "1.prems" by (simp add: split_runs.simps [of P s] dropWhile_eq_Nil_conv)
  next
    case False
    have "dropWhile P ?r = [] \<or> \<not> P (last (dropWhile P ?r))"
    proof (cases "dropWhile P ?r = []")
      case ne: False
      have "last (dropWhile P ?r) = last s"
        using ne False
        by (metis last_append takeWhile_dropWhile_id)
      then show ?thesis using "1.prems"(1) False by (metis dropWhile.simps(1))
    next
      case True
      then show ?thesis by (rule disjI1)
    qed
    note tail = this
    have eq: "split_runs P s = takeWhile (\<lambda>c. \<not> P c) s # split_runs P (dropWhile P ?r)"
      unfolding split_runs.simps [of P s] Let_def using False by (rule if_not_P)
    from "1.prems"(2) eq consider "w = takeWhile (\<lambda>c. \<not> P c) s"
      | "w \<in> set (split_runs P (dropWhile P ?r))" by (metis set_ConsD)
    then show ?thesis
    proof cases
      case 1
      then show ?thesis by (blast dest: set_takeWhileD)
    next
      case 2
      with "1.IH" [OF refl False tail] show ?thesis by blast
    qed
  qed
qed

section \<open>throttle\<close>

text \<open>
  \<open>throttle(fn, time, context)\<close>: the closure's variables \<open>lock\<close> and \<open>args\<close>, the pending
  timer, and the argument lists \<open>fn\<close> was called with.
\<close>

record 'a throttle =
  lock :: bool
  queued :: "'a option"
  timer :: bool
  ran :: "'a list"

datatype 'a throttle_event = Call 'a | Expire

definition throttle_init :: "'a throttle" where
  "throttle_init = \<lparr>lock = False, queued = None, timer = False, ran = []\<rparr>"

definition wrapperFn :: "'a \<Rightarrow> 'a throttle \<Rightarrow> 'a throttle" where
  "wrapperFn a s =
     (if lock s then s\<lparr>queued := Some a\<rparr>
      else s\<lparr>ran := ran s @ [a], timer := True, lock := True\<rparr>)"

text \<open>\<open>later\<close>, run when the timer expires.\<close>

definition later :: "'a throttle \<Rightarrow> 'a throttle" where
  "later s =
     (let s = s\<lparr>lock := False, timer := False\<rparr>
      in case queued s of None \<Rightarrow> s | Some a \<Rightarrow> (wrapperFn a s)\<lparr>queued := None\<rparr>)"

fun throttle_step :: "'a throttle_event \<Rightarrow> 'a throttle \<Rightarrow> 'a throttle" where
  "throttle_step (Call a) s = wrapperFn a s"
| "throttle_step Expire s = (if timer s then later s else s)"

definition throttle_inv :: "'a throttle \<Rightarrow> bool" where
  "throttle_inv s \<longleftrightarrow> lock s = timer s \<and> (queued s \<noteq> None \<longrightarrow> lock s)"

lemma throttle_step_inv: "throttle_inv s \<Longrightarrow> throttle_inv (throttle_step e s)"
  by (cases e) (auto simp: throttle_inv_def wrapperFn_def later_def Let_def split: option.splits)

interpretation th: event_machine throttle_step throttle_inv
  by unfold_locales (rule throttle_step_inv)

definition expiries :: "'a throttle_event list \<Rightarrow> nat" where
  "expiries es = length (filter (\<lambda>e. e = Expire) es)"

lemma throttle_step_ran:
  "throttle_inv s \<Longrightarrow>
   length (ran (throttle_step e s)) + (if lock s then 1 else 0)
     \<le> length (ran s) + (if lock (throttle_step e s) then 1 else 0) + (if e = Expire then 1 else 0)"
  by (cases e) (auto simp: throttle_inv_def wrapperFn_def later_def Let_def split: option.splits)

lemma throttle_run_ran:
  "throttle_inv s \<Longrightarrow>
   length (ran (fold throttle_step es s)) + (if lock s then 1 else 0)
     \<le> length (ran s) + (if lock (fold throttle_step es s) then 1 else 0) + expiries es"
proof (induction es arbitrary: s)
  case (Cons e es)
  have i: "throttle_inv (throttle_step e s)" using Cons.prems by (rule throttle_step_inv)
  have "expiries (e # es) = (if e = Expire then 1 else 0) + expiries es" by (simp add: expiries_def)
  then show ?case
    using Cons.IH [OF i] throttle_step_ran [OF Cons.prems, of e] by simp
qed (simp add: expiries_def)

section \<open>Properties\<close>

text \<open>
  \<open>wrapNum\<close> lands in the half-open range and moves the number by a whole number of periods; with
  \<open>includeMax\<close> the upper end is left where it is.
\<close>

theorem wrapNum_spec:
  assumes "mn < mx"
  shows "mn \<le> wrapNum x (mn, mx) False \<and> wrapNum x (mn, mx) False < mx \<and>
    (\<exists>k :: int. wrapNum x (mn, mx) b = x + of_int k * (mx - mn)) \<and> wrapNum mx (mn, mx) True = mx"
  using wrapNum_range [OF assms, of x] wrapNum_cong by (simp add: wrapNum_def)

lemma wrapNum_spec_witness:
  "- 180 \<le> wrapNum 190 (- 180, 180) False \<and> wrapNum 190 (- 180, 180) False < 180 \<and>
    (\<exists>k :: int. wrapNum 190 (- 180, 180) True = 190 + of_int k * (180 - (- 180))) \<and>
    wrapNum 180 (- 180, 180) True = 180"
  by (rule wrapNum_spec) simp

text \<open>What has run and what waits, and the arguments of the calls in a run.\<close>

definition throttle_out :: "'a throttle \<Rightarrow> 'a list" where
  "throttle_out s = ran s @ (case queued s of None \<Rightarrow> [] | Some a \<Rightarrow> [a])"

definition calls :: "'a throttle_event list \<Rightarrow> 'a list" where
  "calls es = List.map_filter (\<lambda>e. case e of Call a \<Rightarrow> Some a | Expire \<Rightarrow> None) es"

lemma calls_append [simp]: "calls (xs @ ys) = calls xs @ calls ys"
  by (simp add: calls_def List.map_filter_def)

lemma calls_single [simp]: "calls [Call a] = [a]" "calls [Expire] = []"
  by (simp_all add: calls_def List.map_filter_def)

text \<open>An expiry moves what waits; a call replaces what waits or, without the lock, runs.\<close>

lemma throttle_out_expire: "throttle_out (throttle_step Expire s) = throttle_out s"
  by (simp add: throttle_out_def later_def wrapperFn_def Let_def split: option.split)

lemma throttle_out_call:
  "throttle_inv s \<Longrightarrow> throttle_out (throttle_step (Call a) s) = ran s @ [a] \<and> throttle_inv (throttle_step (Call a) s)"
  using throttle_step_inv [of s "Call a"]
  by (auto simp: throttle_out_def wrapperFn_def throttle_inv_def split: option.splits)

lemma throttle_history:
  "subseq (throttle_out (fold throttle_step es throttle_init)) (calls es) \<and>
   (calls es \<noteq> [] \<longrightarrow> throttle_out (fold throttle_step es throttle_init) \<noteq> [] \<and>
      last (throttle_out (fold throttle_step es throttle_init)) = last (calls es))"
proof (induction es rule: rev_induct)
  case (snoc e es)
  let ?s = "fold throttle_step es throttle_init"
  have i: "throttle_inv ?s" by (rule th.run_inv) (simp add: throttle_inv_def throttle_init_def)
  show ?case
  proof (cases e)
    case (Call a)
    have "subseq (ran ?s) (throttle_out ?s)" unfolding throttle_out_def by (rule prefix_imp_subseq, rule prefixI, rule refl)
    then have "subseq (ran ?s) (calls es)" using snoc.IH subseq_order.order_trans by blast
    then show ?thesis using throttle_out_call [OF i, of a] by (simp add: Call)
  next
    case Expire
    then show ?thesis using snoc.IH throttle_out_expire [of ?s] by simp
  qed
qed (simp add: throttle_out_def throttle_init_def calls_def List.map_filter_def)

text \<open>
  the wrapper \<open>throttle\<close> makes limits the rate and loses no last word: in any run the function
  runs at most once more than the timer has expired, what has run or waits is a subsequence of the
  calls in their order, and its last element is the last call made.
\<close>

theorem throttle_rate_and_last:
  "length (ran (fold throttle_step es throttle_init)) \<le> expiries es + 1 \<and>
   subseq (throttle_out (fold throttle_step es throttle_init)) (calls es) \<and>
   (calls es \<noteq> [] \<longrightarrow> throttle_out (fold throttle_step es throttle_init) \<noteq> [] \<and>
      last (throttle_out (fold throttle_step es throttle_init)) = last (calls es))"
  using throttle_history [of es] throttle_run_ran [of throttle_init es]
  by (simp add: throttle_inv_def throttle_init_def split: if_splits)

lemma throttle_rate_and_last_witness:
  "length (ran (fold throttle_step [Call 1, Call 2, Expire] (throttle_init :: nat throttle))) \<le> 2 \<and>
   subseq (throttle_out (fold throttle_step [Call 1, Call 2, Expire] throttle_init)) [1 :: nat, 2] \<and>
   last (throttle_out (fold throttle_step [Call 1, Call 2, Expire] throttle_init)) = (2 :: nat)"
  using throttle_rate_and_last [of "[Call (1 :: nat), Call 2, Expire]"] by (simp add: calls_def expiries_def)

text \<open>
  \<open>splitWords\<close> gives words only: no word holds a blank, and trimming leaves no blank at either end.
\<close>

theorem splitWords_words:
  "(\<forall>w \<in> set (splitWords s). \<forall>c \<in> set w. \<not> is_space c) \<and>
   (js_trim s = [] \<or> \<not> is_space (hd (js_trim s)) \<and> \<not> is_space (last (js_trim s)))"
  using js_trim_ends [of s] split_runs_words [of "js_trim s" is_space] by (auto simp: splitWords_def)

lemma splitWords_words_witness:
  "splitWords ''  move  moveend '' = [''move'', ''moveend''] \<and> \<not> is_space (CHR ''m'')"
proof -
  have words: "splitWords ''  move  moveend '' = [''move'', ''moveend'']" by code_simp
  with splitWords_words [of "''  move  moveend ''"] show ?thesis by simp
qed

end
