(* ===== verification/Geo.thy ===== *)
theory Geo
  imports Geometry Util
begin

text \<open>
  \<open>loleaflet/src/geo\<close>: \<open>L.LatLng\<close>, \<open>L.LatLngBounds\<close>, the coordinate reference systems and
  the projections the document view uses (\<open>L.CRS.Simple\<close> over \<open>L.Projection.LonLat\<close>).
  Coordinates are reals, so the \<open>NaN\<close> check of the \<open>L.LatLng\<close> constructor never fires.
\<close>

section \<open>L.LatLng\<close>

record latlng =
  lat :: real
  lng :: real

abbreviation ll :: "real \<Rightarrow> real \<Rightarrow> latlng" where
  "ll a b \<equiv> \<lparr>lat = a, lng = b\<rparr>"

text \<open>\<open>equals(obj, maxMargin)\<close>\<close>

definition latlng_equals :: "latlng \<Rightarrow> latlng \<Rightarrow> real option \<Rightarrow> bool" where
  "latlng_equals this obj maxMargin =
     (let margin = max \<bar>lat this - lat obj\<bar> \<bar>lng this - lng obj\<bar>
      in margin \<le> (case maxMargin of None \<Rightarrow> 1 / 10 ^ 9 | Some m \<Rightarrow> m))"

section \<open>L.LatLngBounds\<close>

record llbounds =
  southWest :: latlng
  northEast :: latlng

text \<open>\<open>extend\<close> with bounds (a point counts as its own corners).\<close>

definition llb_extend :: "llbounds option \<Rightarrow> llbounds \<Rightarrow> llbounds" where
  "llb_extend this obj =
     (let sw2 = southWest obj; ne2 = northEast obj
      in case this of
           None \<Rightarrow> \<lparr>southWest = ll (lat sw2) (lng sw2), northEast = ll (lat ne2) (lng ne2)\<rparr>
         | Some b \<Rightarrow>
             (let sw = southWest b; ne = northEast b
              in \<lparr>southWest = sw\<lparr>lat := min (lat sw2) (lat sw), lng := min (lng sw2) (lng sw)\<rparr>,
                  northEast = ne\<lparr>lat := max (lat ne2) (lat ne), lng := max (lng ne2) (lng ne)\<rparr>\<rparr>))"

definition llb_of_point :: "latlng \<Rightarrow> llbounds" where
  "llb_of_point p = \<lparr>southWest = p, northEast = p\<rparr>"

text \<open>\<open>new L.LatLngBounds(southWest, northEast)\<close>\<close>

definition new_llbounds :: "latlng \<Rightarrow> latlng \<Rightarrow> llbounds" where
  "new_llbounds sw ne = llb_extend (Some (llb_extend None (llb_of_point sw))) (llb_of_point ne)"

definition llb_pad :: "llbounds \<Rightarrow> real \<Rightarrow> llbounds" where
  "llb_pad b bufferRatio =
     (let sw = southWest b; ne = northEast b;
          heightBuffer = \<bar>lat sw - lat ne\<bar> * bufferRatio;
          widthBuffer = \<bar>lng sw - lng ne\<bar> * bufferRatio
      in new_llbounds (ll (lat sw - heightBuffer) (lng sw - widthBuffer))
                      (ll (lat ne + heightBuffer) (lng ne + widthBuffer)))"

definition llb_padVertically :: "llbounds \<Rightarrow> real \<Rightarrow> llbounds" where
  "llb_padVertically b bufferRatio =
     (let sw = southWest b; ne = northEast b;
          heightBuffer = \<bar>lat sw - lat ne\<bar> * bufferRatio
      in new_llbounds (ll (lat sw - heightBuffer) (lng sw)) (ll (lat ne + heightBuffer) (lng ne)))"

definition llb_getCenter :: "llbounds \<Rightarrow> latlng" where
  "llb_getCenter b =
     ll ((lat (southWest b) + lat (northEast b)) / 2) ((lng (southWest b) + lng (northEast b)) / 2)"

definition getWest :: "llbounds \<Rightarrow> real" where "getWest b = lng (southWest b)"
definition getSouth :: "llbounds \<Rightarrow> real" where "getSouth b = lat (southWest b)"
definition getEast :: "llbounds \<Rightarrow> real" where "getEast b = lng (northEast b)"
definition getNorth :: "llbounds \<Rightarrow> real" where "getNorth b = lat (northEast b)"

definition getNorthWest :: "llbounds \<Rightarrow> latlng" where
  "getNorthWest b = ll (getNorth b) (getWest b)"

definition getSouthEast :: "llbounds \<Rightarrow> latlng" where
  "getSouthEast b = ll (getSouth b) (getEast b)"

definition llb_contains :: "llbounds \<Rightarrow> llbounds \<Rightarrow> bool" where
  "llb_contains this obj =
     (let sw = southWest this; ne = northEast this; sw2 = southWest obj; ne2 = northEast obj
      in lat sw2 \<ge> lat sw \<and> lat ne2 \<le> lat ne \<and> lng sw2 \<ge> lng sw \<and> lng ne2 \<le> lng ne)"

definition llb_contains_point :: "llbounds \<Rightarrow> latlng \<Rightarrow> bool" where
  "llb_contains_point this p = llb_contains this (llb_of_point p)"

definition llb_intersects :: "llbounds \<Rightarrow> llbounds \<Rightarrow> bool" where
  "llb_intersects this b =
     (let sw = southWest this; ne = northEast this; sw2 = southWest b; ne2 = northEast b;
          latIntersects = lat ne2 \<ge> lat sw \<and> lat sw2 \<le> lat ne;
          lngIntersects = lng ne2 \<ge> lng sw \<and> lng sw2 \<le> lng ne
      in latIntersects \<and> lngIntersects)"

definition llb_equals :: "llbounds \<Rightarrow> llbounds \<Rightarrow> bool" where
  "llb_equals this b \<longleftrightarrow>
     latlng_equals (southWest this) (southWest b) None \<and> latlng_equals (northEast this) (northEast b) None"

definition llb_isValid :: "llbounds option \<Rightarrow> bool" where
  "llb_isValid b \<longleftrightarrow> b \<noteq> None"

definition llb_createDefault :: llbounds where
  "llb_createDefault = new_llbounds (ll 0 0) (ll 0 0)"

lemmas llb_defs = new_llbounds_def llb_extend_def llb_of_point_def Let_def

definition llrect :: "llbounds \<Rightarrow> latlng set" where
  "llrect b = {p. lat (southWest b) \<le> lat p \<and> lat p \<le> lat (northEast b) \<and>
                  lng (southWest b) \<le> lng p \<and> lng p \<le> lng (northEast b)}"

definition llb_wf :: "llbounds \<Rightarrow> bool" where
  "llb_wf b \<longleftrightarrow> lat (southWest b) \<le> lat (northEast b) \<and> lng (southWest b) \<le> lng (northEast b)"

lemma new_llbounds_wf [simp]: "llb_wf (new_llbounds a b)"
  by (auto simp: llb_wf_def llb_defs)

lemma llb_contains_llrect:
  assumes "llb_wf b"
  shows "llb_contains a b \<longleftrightarrow> llrect b \<subseteq> llrect a"
proof
  show "llb_contains a b \<Longrightarrow> llrect b \<subseteq> llrect a"
    by (auto simp: llb_contains_def llrect_def Let_def)
  assume "llrect b \<subseteq> llrect a"
  moreover have "southWest b \<in> llrect b" "northEast b \<in> llrect b"
    using assms by (auto simp: llrect_def llb_wf_def)
  ultimately show "llb_contains a b" by (auto simp: llb_contains_def llrect_def Let_def)
qed

lemma llb_intersects_llrect:
  assumes "llb_wf a" "llb_wf b"
  shows "llb_intersects a b \<longleftrightarrow> llrect a \<inter> llrect b \<noteq> {}"
proof
  assume "llb_intersects a b"
  with assms have
    "ll (max (lat (southWest a)) (lat (southWest b))) (max (lng (southWest a)) (lng (southWest b)))
       \<in> llrect a \<inter> llrect b"
    by (auto simp: llb_intersects_def llrect_def llb_wf_def Let_def)
  then show "llrect a \<inter> llrect b \<noteq> {}" by blast
qed (auto simp: llb_intersects_def llrect_def Let_def)

lemma llb_pad_contains:
  assumes "llb_wf b" "0 \<le> r"
  shows "llb_contains (llb_pad b r) b"
proof -
  have "0 \<le> \<bar>lat (southWest b) - lat (northEast b)\<bar> * r"
    "0 \<le> \<bar>lng (southWest b) - lng (northEast b)\<bar> * r" using assms(2) by simp_all
  then show ?thesis by (auto simp: llb_contains_def llb_pad_def llb_defs min_le_iff_disj le_max_iff_disj)
qed

lemma llb_getCenter_in: "llb_wf b \<Longrightarrow> llb_contains_point b (llb_getCenter b)"
  by (auto simp: llb_contains_point_def llb_contains_def llb_of_point_def llb_getCenter_def llb_wf_def Let_def)

section \<open>Projections and reference systems\<close>

text \<open>\<open>L.Projection.LonLat\<close>\<close>

definition lonlat_project :: "latlng \<Rightarrow> point" where
  "lonlat_project p = new_point (lng p) (lat p) False"

definition lonlat_unproject :: "point \<Rightarrow> latlng" where
  "lonlat_unproject p = ll (py p) (px p)"

definition lonlat_bounds :: bounds where
  "lonlat_bounds = new_bounds (pt (-180) (-90)) (pt 180 90)"

text \<open>\<open>L.CRS\<close>: an object with its projection, transformation, scale and wrapping ranges.\<close>

record crs =
  crs_project :: "latlng \<Rightarrow> point"
  crs_unproject :: "point \<Rightarrow> latlng"
  crs_bounds :: bounds
  crs_transformation :: transformation
  crs_scale :: "int \<Rightarrow> real"
  crs_infinite :: bool
  crs_wrapLng :: "(real \<times> real) option"
  crs_wrapLat :: "(real \<times> real) option"

definition latLngToPoint :: "crs \<Rightarrow> latlng \<Rightarrow> int \<Rightarrow> point" where
  "latLngToPoint c p zoom =
     (let projectedPoint = crs_project c p; scale = crs_scale c zoom
      in transform_in (crs_transformation c) projectedPoint (Some scale))"

definition pointToLatLng :: "crs \<Rightarrow> point \<Rightarrow> int \<Rightarrow> latlng" where
  "pointToLatLng c p zoom =
     (let scale = crs_scale c zoom;
          untransformedPoint = untransform (crs_transformation c) p (Some scale)
      in crs_unproject c untransformedPoint)"

definition getProjectedBounds :: "crs \<Rightarrow> int \<Rightarrow> bounds option" where
  "getProjectedBounds c zoom =
     (if crs_infinite c then None
      else
        let b = crs_bounds c; s = crs_scale c zoom
        in Some (new_bounds (transform (crs_transformation c) (bmin b) (Some s))
                            (transform (crs_transformation c) (bmax b) (Some s))))"

definition wrapLatLng :: "crs \<Rightarrow> latlng \<Rightarrow> latlng" where
  "wrapLatLng c p =
     (let g = (case crs_wrapLng c of None \<Rightarrow> lng p | Some r \<Rightarrow> wrapNum (lng p) r True);
          t = (case crs_wrapLat c of None \<Rightarrow> lat p | Some r \<Rightarrow> wrapNum (lat p) r True)
      in ll t g)"

text \<open>\<open>L.CRS.Simple\<close>\<close>

definition crs_simple :: crs where
  "crs_simple =
     \<lparr>crs_project = lonlat_project, crs_unproject = lonlat_unproject, crs_bounds = lonlat_bounds,
      crs_transformation = \<lparr>tr_a = 1, tr_b = 0, tr_c = -1, tr_d = 0\<rparr>,
      crs_scale = (\<lambda>zoom. (6 / 5) powi zoom), crs_infinite = True,
      crs_wrapLng = None, crs_wrapLat = None\<rparr>"

definition simple_distance :: "latlng \<Rightarrow> latlng \<Rightarrow> real" where
  "simple_distance p q =
     (let dx = lng q - lng p; dy = lat q - lat p in sqrt (dx * dx + dy * dy))"

text \<open>What the map relies on: a reference system whose projection and scale are invertible.\<close>

locale projection =
  fixes c :: crs
  assumes unproject_project: "crs_unproject c (crs_project c p) = p"
    and project_unproject: "crs_project c (crs_unproject c q) = q"
    and axes: "tr_a (crs_transformation c) \<noteq> 0" "tr_c (crs_transformation c) \<noteq> 0"
begin

lemma latLng_point_latLng: "pointToLatLng c (latLngToPoint c p z) z = p"
  by (simp add: pointToLatLng_def latLngToPoint_def Let_def untransform_transform axes unproject_project)

lemma point_latLng_point: "latLngToPoint c (pointToLatLng c q z) z = q"
  by (simp add: pointToLatLng_def latLngToPoint_def Let_def transform_untransform axes project_unproject)

end

interpretation simple: projection crs_simple
  by unfold_locales (simp_all add: crs_simple_def lonlat_project_def lonlat_unproject_def new_point_def)

lemma simple_scale_pos: "crs_scale crs_simple z > 0"
  by (simp add: crs_simple_def)

lemma simple_to_point:
  "latLngToPoint crs_simple p z = pt (crs_scale crs_simple z * lng p) (- (crs_scale crs_simple z * lat p))"
  using simple_scale_pos [of z]
  by (simp add: latLngToPoint_def crs_simple_def lonlat_project_def transform_in_def or_one_def new_point_def Let_def)

lemma simple_of_point:
  "pointToLatLng crs_simple q z = ll (- (py q / crs_scale crs_simple z)) (px q / crs_scale crs_simple z)"
  using simple_scale_pos [of z]
  by (simp add: pointToLatLng_def crs_simple_def lonlat_unproject_def untransform_def or_one_def new_point_def Let_def)

section \<open>Properties\<close>

text \<open>
  in \<open>L.CRS.Simple\<close> pixels and coordinates convert back and forth without loss on every zoom
  level, and a pixel distance is the coordinate distance times the level's scale.
\<close>

theorem crs_simple_roundtrip:
  "pointToLatLng crs_simple (latLngToPoint crs_simple p z) z = p \<and>
   latLngToPoint crs_simple (pointToLatLng crs_simple q z) z = q \<and>
   point_distanceTo (latLngToPoint crs_simple p z) (latLngToPoint crs_simple p' z) =
     crs_scale crs_simple z * simple_distance p p'"
proof -
  let ?s = "crs_scale crs_simple z"
  have s: "0 < ?s" by (rule simple_scale_pos)
  have "(?s * lng p' - ?s * lng p) * (?s * lng p' - ?s * lng p) + (?s * lat p - ?s * lat p') * (?s * lat p - ?s * lat p') =
      ?s * ?s * ((lng p' - lng p) * (lng p' - lng p) + (lat p' - lat p) * (lat p' - lat p))"
    by (simp add: algebra_simps)
  then have "point_distanceTo (latLngToPoint crs_simple p z) (latLngToPoint crs_simple p' z) = ?s * simple_distance p p'"
    using s by (simp add: point_distanceTo_def simple_distance_def simple_to_point Let_def real_sqrt_mult)
  then show ?thesis by (simp add: simple.latLng_point_latLng simple.point_latLng_point)
qed

text \<open>
  \<open>L.LatLngBounds\<close>: \<open>contains\<close> and \<open>intersects\<close> are inclusion and overlap of the areas, \<open>pad\<close> by
  a non-negative ratio never loses an inner point, and the centre lies inside.
\<close>

theorem latlng_bounds_areas:
  assumes "llb_wf a" "llb_wf b" "0 \<le> r"
  shows "(llb_contains a b \<longleftrightarrow> llrect b \<subseteq> llrect a) \<and>
    (llb_intersects a b \<longleftrightarrow> llrect a \<inter> llrect b \<noteq> {}) \<and>
    llrect b \<subseteq> llrect (llb_pad b r) \<and> llb_contains_point b (llb_getCenter b)"
  using llb_contains_llrect [OF assms(2)] llb_intersects_llrect [OF assms(1,2)]
    llb_pad_contains [OF assms(2,3)] llb_getCenter_in [OF assms(2)] by simp

lemma latlng_bounds_areas_witness:
  "let a = new_llbounds (ll 0 0) (ll 4 4); b = new_llbounds (ll 1 1) (ll 2 3) in
    (llb_contains a b \<longleftrightarrow> llrect b \<subseteq> llrect a) \<and> (llb_intersects a b \<longleftrightarrow> llrect a \<inter> llrect b \<noteq> {}) \<and>
    llrect b \<subseteq> llrect (llb_pad b (1 / 2)) \<and> llb_contains_point b (llb_getCenter b)"
  unfolding Let_def by (rule latlng_bounds_areas) simp_all

end
