(* ===== verification/Effects.thy ===== *)
theory Effects
  imports Prelude
begin

text \<open>
  What a handler does to the outside, in order: text sent over the socket, events fired on
  the map or the layer, and calls of functions of other parts (DOM, dialogs, timers, layers
  that are not modelled) with their arguments. A handler appends to the log of its state;
  properties about "what the code sends" are statements about this log.
\<close>

text \<open>Arguments and event data: the JavaScript values the handlers pass on.\<close>

datatype jsval =
    JUndef
  | JNull
  | JBool bool
  | JInt int
  | JReal real
  | JStr string
  | JArr "jsval list"
  | JObj "(string \<times> jsval) list"

datatype effect =
    Sent string
  | Fired string jsval
  | Called string "jsval list"

text \<open>The texts sent, in order.\<close>

fun sent_of :: "effect list \<Rightarrow> string list" where
  "sent_of [] = []"
| "sent_of (Sent m # es) = m # sent_of es"
| "sent_of (Fired t v # es) = sent_of es"
| "sent_of (Called f v # es) = sent_of es"

lemma sent_of_append [simp]: "sent_of (xs @ ys) = sent_of xs @ sent_of ys"
  by (induction xs rule: sent_of.induct) auto

fun fired_of :: "effect list \<Rightarrow> string list" where
  "fired_of [] = []"
| "fired_of (Sent m # es) = fired_of es"
| "fired_of (Fired t v # es) = t # fired_of es"
| "fired_of (Called f v # es) = fired_of es"

lemma fired_of_append [simp]: "fired_of (xs @ ys) = fired_of xs @ fired_of ys"
  by (induction xs rule: fired_of.induct) auto

text \<open>Numbers as \<open>parseInt\<close> returns them.\<close>

datatype jsnum = NaN | Num int

definition parseNum :: "string \<Rightarrow> jsnum" where
  "parseNum s = (case js_parseInt s of None \<Rightarrow> NaN | Some i \<Rightarrow> Num i)"

text \<open>A number is truthy when it is neither \<open>NaN\<close> nor 0; a missing field is falsy.\<close>

fun truthy :: "jsnum option \<Rightarrow> bool" where
  "truthy None = False"
| "truthy (Some NaN) = False"
| "truthy (Some (Num i)) = (i \<noteq> 0)"

lemma takeWhile_digits_append:
  "list_all is_digit d \<Longrightarrow> (r = [] \<or> \<not> is_digit (hd r)) \<Longrightarrow> takeWhile is_digit (d @ r) = d"
  by (induction d) (auto simp: takeWhile_eq_Nil_iff neq_Nil_conv)

lemma digit_facts: "is_digit c \<Longrightarrow> c \<noteq> CHR '' '' \<and> c \<noteq> CHR ''-'' \<and> c \<noteq> CHR ''+''"
  by (auto simp: is_digit_def char_code_def)

text \<open>Parsing what the code rendered gives the number back, whatever non-digit follows.\<close>

lemma parseInt_show_int:
  assumes "r = [] \<or> \<not> is_digit (hd r)"
  shows "js_parseInt (show_int i @ r) = Some i"
proof -
  let ?n = "\<lambda>k. show_nat k"
  obtain c cs where n: "?n (nat \<bar>i\<bar>) = c # cs" by (cases "?n (nat \<bar>i\<bar>)") auto
  have c: "c \<noteq> CHR '' ''" "c \<noteq> CHR ''-''" "c \<noteq> CHR ''+''"
    using hd_show_nat_digit [of "nat \<bar>i\<bar>"] digit_facts n by auto
  have tw: "takeWhile is_digit ((c # cs) @ r) = c # cs"
    using takeWhile_digits_append [OF show_nat_digits [of "nat \<bar>i\<bar>"] assms] n by simp
  have rd: "read_nat (c # cs) = nat \<bar>i\<bar>" using read_show_nat [of "nat \<bar>i\<bar>"] n by simp
  show ?thesis
  proof (cases "i < 0")
    case True
    then have "show_int i = CHR ''-'' # c # cs" using n by (simp add: show_int_def)
    then show ?thesis using tw rd True by (simp add: js_parseInt_def Let_def)
  next
    case False
    then have "show_int i = c # cs" using n by (simp add: show_int_def)
    then show ?thesis using tw rd False c by (simp add: js_parseInt_def Let_def)
  qed
qed

lemma parseNum_show_int [simp]: "parseNum (show_int i) = Num i"
  using parseInt_show_int [of "[]" i] by (simp add: parseNum_def)

end
