(* ===== verification/MapView.thy ===== *)
theory MapView
  imports Geo Effects
begin

text \<open>
  The view of \<open>L.Map\<close> (\<open>loleaflet/src/map/Map.js\<close>, \<open>map/anim/Map.PanAnimation.js\<close> and
  \<open>map/anim/Map.ZoomAnimation.js\<close>): centre, zoom, pixel origin and map pane, the conversions
  between document positions and pixels, the limits on centre and zoom, and the operations that
  move the view. The reference system is \<open>L.CRS.Simple\<close>, the only one the map is created with;
  zoom levels are integers. A function that throws before the view is set returns \<open>None\<close>.
  Events the map fires and animations it starts go to the log.
\<close>

section \<open>State\<close>

record mview =
  mv_loaded :: bool
  mv_size :: point                 \<comment> \<open>the size \<open>getSize\<close> has cached\<close>
  mv_zoom :: int
  mv_pixelOrigin :: point
  mv_pane :: point                 \<comment> \<open>position of the map pane\<close>
  mv_minZoom :: "int option"
  mv_maxZoom :: "int option"
  mv_layersMinZoom :: "int option"
  mv_layersMaxZoom :: "int option"
  mv_maxBounds :: "llbounds option"
  mv_docBounds :: "llbounds option"
  mv_origMaxBounds :: "llbounds option"
  mv_panTarget :: "point option"   \<comment> \<open>where a running pan animation moves the pane\<close>
  mv_zoomAnimated :: bool
  mv_animatingZoom :: bool
  mv_animateTo :: "(latlng \<times> int) option"
  mv_zoomRequest :: "(latlng \<times> int) option"   \<comment> \<open>the animation frame asked for\<close>
  mv_log :: "effect list"

definition vfire :: "string \<Rightarrow> mview \<Rightarrow> mview" where
  "vfire t v = v\<lparr>mv_log := mv_log v @ [Fired t JUndef]\<rparr>"

definition vfire_hard :: "string \<Rightarrow> bool \<Rightarrow> mview \<Rightarrow> mview" where
  "vfire_hard t h v = v\<lparr>mv_log := mv_log v @ [Fired t (JObj [(''hard'', JBool h)])]\<rparr>"

definition vcall :: "string \<Rightarrow> mview \<Rightarrow> mview" where
  "vcall f v = v\<lparr>mv_log := mv_log v @ [Called f []]\<rparr>"

section \<open>Zoom levels\<close>

definition getMinZoom :: "mview \<Rightarrow> int" where
  "getMinZoom v =
     (case mv_minZoom v of Some z \<Rightarrow> z | None \<Rightarrow> (case mv_layersMinZoom v of None \<Rightarrow> 0 | Some z \<Rightarrow> z))"

text \<open>\<open>None\<close> is \<open>Infinity\<close>.\<close>

definition getMaxZoom :: "mview \<Rightarrow> int option" where
  "getMaxZoom v = (case mv_maxZoom v of Some z \<Rightarrow> Some z | None \<Rightarrow> mv_layersMaxZoom v)"

definition limitZoom :: "mview \<Rightarrow> int \<Rightarrow> int" where
  "limitZoom v zoom =
     max (getMinZoom v) (case getMaxZoom v of None \<Rightarrow> zoom | Some m \<Rightarrow> min m zoom)"

definition getZoomScale :: "mview \<Rightarrow> int \<Rightarrow> int option \<Rightarrow> real" where
  "getZoomScale v toZoom fromZoom =
     (let f = (case fromZoom of None \<Rightarrow> mv_zoom v | Some z \<Rightarrow> z)
      in crs_scale crs_simple toZoom / crs_scale crs_simple f)"

definition getScaleZoom :: "mview \<Rightarrow> real \<Rightarrow> int option \<Rightarrow> real" where
  "getScaleZoom v scale fromZoom =
     of_int (case fromZoom of None \<Rightarrow> mv_zoom v | Some z \<Rightarrow> z) + ln scale / ln (6 / 5)"

section \<open>Conversions\<close>

definition zoom_or :: "mview \<Rightarrow> int option \<Rightarrow> int" where
  "zoom_or v zoom = (case zoom of None \<Rightarrow> mv_zoom v | Some z \<Rightarrow> z)"

definition project :: "mview \<Rightarrow> latlng \<Rightarrow> int option \<Rightarrow> point" where
  "project v p zoom =
     (let q = latLngToPoint crs_simple p (zoom_or v zoom)
      in pt (roundTo (px q) (1 / 10 ^ 6)) (roundTo (py q) (1 / 10 ^ 6)))"

definition unproject :: "mview \<Rightarrow> point \<Rightarrow> int option \<Rightarrow> latlng" where
  "unproject v p zoom = pointToLatLng crs_simple p (zoom_or v zoom)"

definition getPixelOrigin :: "mview \<Rightarrow> point option" where
  "getPixelOrigin v = (if mv_loaded v then Some (mv_pixelOrigin v) else None)"

definition layerPointToLatLng :: "mview \<Rightarrow> point \<Rightarrow> latlng option" where
  "layerPointToLatLng v p =
     map_option (\<lambda>o'. unproject v (point_add p o') None) (getPixelOrigin v)"

definition latLngToLayerPoint :: "mview \<Rightarrow> latlng \<Rightarrow> point option" where
  "latLngToLayerPoint v p =
     map_option (\<lambda>o'. point_subtract (point_round (project v p None)) o') (getPixelOrigin v)"

definition containerPointToLayerPoint :: "mview \<Rightarrow> point \<Rightarrow> point" where
  "containerPointToLayerPoint v p = point_subtract p (mv_pane v)"

definition layerPointToContainerPoint :: "mview \<Rightarrow> point \<Rightarrow> point" where
  "layerPointToContainerPoint v p = point_add p (mv_pane v)"

definition containerPointToLatLng :: "mview \<Rightarrow> point \<Rightarrow> latlng option" where
  "containerPointToLatLng v p = layerPointToLatLng v (containerPointToLayerPoint v p)"

definition latLngToContainerPoint :: "mview \<Rightarrow> latlng \<Rightarrow> point option" where
  "latLngToContainerPoint v p = map_option (layerPointToContainerPoint v) (latLngToLayerPoint v p)"

definition getCenterLayerPoint :: "mview \<Rightarrow> point" where
  "getCenterLayerPoint v = containerPointToLayerPoint v (point_divideBy (mv_size v) 2)"

definition map_getCenter :: "mview \<Rightarrow> latlng option" where
  "map_getCenter v = layerPointToLatLng v (getCenterLayerPoint v)"

definition getCenterOffset :: "mview \<Rightarrow> latlng \<Rightarrow> point option" where
  "getCenterOffset v p =
     map_option (\<lambda>q. point_subtract q (getCenterLayerPoint v)) (latLngToLayerPoint v p)"

definition getNewPixelOrigin :: "mview \<Rightarrow> latlng \<Rightarrow> int option \<Rightarrow> point" where
  "getNewPixelOrigin v center zoom =
     (let viewHalf = point_divideBy (mv_size v) 2
      in point_round (point_add (point_subtract (project v center zoom) viewHalf) (mv_pane v)))"

definition latLngToNewLayerPoint :: "mview \<Rightarrow> latlng \<Rightarrow> int \<Rightarrow> latlng \<Rightarrow> point" where
  "latLngToNewLayerPoint v p zoom center =
     (let topLeft = getNewPixelOrigin v center (Some zoom)
      in point_subtract (project v p (Some zoom)) topLeft)"

definition getTopLeftPoint :: "mview \<Rightarrow> (latlng \<times> int) option \<Rightarrow> point option" where
  "getTopLeftPoint v cz =
     map_option (\<lambda>o'. point_subtract o' (mv_pane v))
       (case cz of Some (c, z) \<Rightarrow> Some (getNewPixelOrigin v c (Some z)) | None \<Rightarrow> getPixelOrigin v)"

definition getPixelBounds :: "mview \<Rightarrow> (latlng \<times> int) option \<Rightarrow> bounds option" where
  "getPixelBounds v cz =
     map_option (\<lambda>topLeft. new_bounds topLeft (point_add topLeft (mv_size v))) (getTopLeftPoint v cz)"

definition map_getBounds :: "mview \<Rightarrow> llbounds option" where
  "map_getBounds v =
     map_option (\<lambda>b. new_llbounds (unproject v (bounds_getBottomLeft b) None)
                                 (unproject v (bounds_getTopRight b) None)) (getPixelBounds v None)"

definition layer_bounds :: "mview \<Rightarrow> llbounds \<Rightarrow> bounds option" where
  "layer_bounds v b =
     (case (latLngToLayerPoint v (getNorthWest b), latLngToLayerPoint v (getSouthEast b)) of
        (Some p, Some q) \<Rightarrow> Some (new_bounds p q) | _ \<Rightarrow> None)"

definition getLayerMaxBounds :: "mview \<Rightarrow> bounds option" where
  "getLayerMaxBounds v = Option.bind (mv_maxBounds v) (layer_bounds v)"

definition getLayerDocBounds :: "mview \<Rightarrow> bounds option" where
  "getLayerDocBounds v = Option.bind (mv_docBounds v) (layer_bounds v)"

section \<open>Limits on the centre\<close>

definition rebound :: "real \<Rightarrow> real \<Rightarrow> real" where
  "rebound left right =
     (if left + right > 0 then of_int (js_round (left - right)) / 2
      else of_int (max 0 \<lceil>left\<rceil> - max 0 \<lfloor>right\<rfloor>))"

definition getBoundsOffset :: "mview \<Rightarrow> bounds \<Rightarrow> llbounds \<Rightarrow> int option \<Rightarrow> point" where
  "getBoundsOffset v pxBounds maxBounds zoom =
     (let nwOffset = point_subtract (project v (getNorthWest maxBounds) zoom) (bmin pxBounds);
          seOffset = point_subtract (project v (getSouthEast maxBounds) zoom) (bmax pxBounds);
          dx = rebound (px nwOffset) (- px seOffset);
          dy = rebound (py nwOffset) (- py seOffset)
      in pt dx dy)"

definition limitCenter :: "mview \<Rightarrow> latlng \<Rightarrow> int \<Rightarrow> llbounds option \<Rightarrow> latlng" where
  "limitCenter v center zoom bs =
     (case bs of
        None \<Rightarrow> center
      | Some b \<Rightarrow>
          (let centerPoint = project v center (Some zoom);
               viewHalf = point_divideBy (mv_size v) 2;
               viewBounds = new_bounds (point_subtract centerPoint viewHalf) (point_add centerPoint viewHalf);
               offset = getBoundsOffset v viewBounds b (Some zoom)
           in unproject v (point_add centerPoint offset) (Some zoom)))"

definition limitOffset :: "mview \<Rightarrow> point \<Rightarrow> llbounds option \<Rightarrow> point option" where
  "limitOffset v offset bs =
     (case bs of
        None \<Rightarrow> Some offset
      | Some b \<Rightarrow>
          map_option (\<lambda>viewBounds.
            let newBounds = new_bounds (point_add (bmin viewBounds) offset) (point_add (bmax viewBounds) offset)
            in point_add offset (getBoundsOffset v newBounds b None)) (getPixelBounds v None))"

section \<open>Moving the view\<close>

definition resetView :: "latlng \<Rightarrow> int \<Rightarrow> bool \<Rightarrow> bool \<Rightarrow> mview \<Rightarrow> mview" where
  "resetView center zoom preserveMapOffset afterZoomAnim v =
     (let zoomChanged = mv_zoom v \<noteq> zoom;
          v = (if afterZoomAnim then v
               else let v = vfire ''movestart'' v in if zoomChanged then vfire ''zoomstart'' v else v);
          v = v\<lparr>mv_zoom := zoom\<rparr>;
          v = (if preserveMapOffset then v else v\<lparr>mv_pane := pt 0 0\<rparr>);
          v = v\<lparr>mv_pixelOrigin := getNewPixelOrigin v center None\<rparr>;
          loading = \<not> mv_loaded v;
          v = v\<lparr>mv_loaded := True\<rparr>;
          v = vfire_hard ''viewreset'' (\<not> preserveMapOffset) v;
          v = (if loading then vfire ''load'' v else v);
          v = vfire ''move'' v;
          v = (if zoomChanged \<or> afterZoomAnim then vfire ''zoomlevelschange'' (vfire ''zoomend'' v) else v)
      in vfire_hard ''moveend'' (\<not> preserveMapOffset) v)"

definition rawPanBy :: "point \<Rightarrow> mview \<Rightarrow> mview" where
  "rawPanBy offset v = v\<lparr>mv_pane := point_subtract (mv_pane v) offset\<rparr>"

text \<open>The pan animation (\<open>L.PosAnimation\<close> on the map pane). The position the map reads
  is the element's \<open>_leaflet_pos\<close>: the target when the animation starts, intermediate ones on
  its steps, and the target again when it ends. \<open>stop\<close> puts the element at its current place and
  then runs the end of the animation, which stores the target all the same.\<close>

definition onPanTransitionEnd :: "mview \<Rightarrow> mview" where
  "onPanTransitionEnd v =
     (case mv_panTarget v of
        None \<Rightarrow> v
      | Some p \<Rightarrow> vfire ''moveend'' (vfire ''move'' (v\<lparr>mv_pane := p, mv_panTarget := None\<rparr>)))"

definition pan_stop :: "mview \<Rightarrow> mview" where
  "pan_stop v = onPanTransitionEnd v"

definition pan_run :: "point \<Rightarrow> mview \<Rightarrow> mview" where
  "pan_run newPos v = (pan_stop v)\<lparr>mv_panTarget := Some newPos, mv_pane := newPos\<rparr>"

definition pan_step :: "point \<Rightarrow> mview \<Rightarrow> mview" where
  "pan_step stepPos v =
     (if mv_panTarget v = None then v
      else if point_equals (mv_pane v) stepPos then onPanTransitionEnd v
      else vfire ''move'' (v\<lparr>mv_pane := stepPos\<rparr>))"

text \<open>\<open>panBy\<close>; the two flags are \<open>options.animate === true\<close> and \<open>options.noMoveStart\<close>.\<close>

definition panBy :: "point \<Rightarrow> bool \<Rightarrow> bool \<Rightarrow> mview \<Rightarrow> mview" where
  "panBy offset animate noMoveStart v =
     (let offset = point_round offset
      in if px offset = 0 \<and> py offset = 0 then v
         else if \<not> animate \<and> \<not> point_contains (mv_size v) offset then
           (case map_getCenter v of
              None \<Rightarrow> vcall ''Error'' v
            | Some c \<Rightarrow>
                resetView (unproject v (point_add (project v c None) offset) None) (mv_zoom v) False False v)
         else
           let v = (if noMoveStart then v else vfire ''movestart'' v)
           in if animate then pan_run (point_subtract (mv_pane v) offset) v
              else vfire ''moveend'' (vfire ''move'' (rawPanBy offset v)))"

text \<open>\<open>_tryAnimatedPan\<close>, with \<open>options.animate\<close>; the result says whether it moved the view.\<close>

definition tryAnimatedPan :: "latlng \<Rightarrow> bool option \<Rightarrow> mview \<Rightarrow> mview \<times> bool" where
  "tryAnimatedPan center animate v =
     (case getCenterOffset v center of
        None \<Rightarrow> (vcall ''Error'' v, True)
      | Some o' \<Rightarrow>
          (let offset = point_floor o'
           in if animate \<noteq> Some True \<and> \<not> point_contains (mv_size v) offset then (v, False)
              else (panBy offset (animate = Some True) False v, animate \<noteq> Some False)))"

text \<open>\<open>_tryAnimatedZoom\<close>; \<open>nothing\<close> is the result of \<open>_nothingToAnimate\<close>.\<close>

definition zoomAnimationThreshold :: int where "zoomAnimationThreshold = 4"

definition tryAnimatedZoom :: "latlng \<Rightarrow> int \<Rightarrow> bool option \<Rightarrow> bool \<Rightarrow> mview \<Rightarrow> mview \<times> bool" where
  "tryAnimatedZoom center zoom animate nothing v =
     (if mv_animatingZoom v then (v, True)
      else if \<not> mv_zoomAnimated v \<or> animate = Some False \<or> nothing
              \<or> \<bar>zoom - mv_zoom v\<bar> > zoomAnimationThreshold then (v, False)
      else
        (case getCenterOffset v center of
           None \<Rightarrow> (vcall ''Error'' v, True)
         | Some o' \<Rightarrow>
             (let scale = getZoomScale v zoom None;
                  offset = point_divideBy o' (1 - 1 / scale)
              in if animate \<noteq> Some True \<and> \<not> point_contains (mv_size v) offset then (v, False)
                 else (vcall ''requestAnimFrame'' (v\<lparr>mv_zoomRequest := Some (center, zoom)\<rparr>), True))))"

text \<open>The animation frame: \<open>_animateZoom(center, zoom, true)\<close>.\<close>

definition animateZoomFrame :: "mview \<Rightarrow> mview" where
  "animateZoomFrame v =
     (case mv_zoomRequest v of
        None \<Rightarrow> v
      | Some cz \<Rightarrow>
          (let v = vfire ''zoomstart'' (vfire ''movestart'' (v\<lparr>mv_zoomRequest := None\<rparr>))
           in vfire ''zoomanim'' (v\<lparr>mv_animatingZoom := True, mv_animateTo := Some cz\<rparr>)))"

definition onZoomTransitionEnd :: "mview \<Rightarrow> mview" where
  "onZoomTransitionEnd v =
     (if \<not> mv_animatingZoom v then v
      else
        let v = v\<lparr>mv_animatingZoom := False\<rparr>
        in case mv_animateTo v of None \<Rightarrow> v | Some (c, z) \<Rightarrow> resetView c z True True v)"

text \<open>\<open>stop\<close> of the map ends a running pan animation.\<close>

definition map_stop :: "mview \<Rightarrow> mview" where
  "map_stop v = pan_stop v"

text \<open>\<open>setView\<close>: the options \<open>reset\<close>, \<open>pan.animate\<close> and \<open>zoom.animate\<close> (after the merge of
  \<open>options.animate\<close>).\<close>

record vopts =
  vo_reset :: bool
  vo_pan :: "bool option"
  vo_zoom :: "bool option"

definition no_vopts :: vopts where
  "no_vopts = \<lparr>vo_reset = False, vo_pan = None, vo_zoom = None\<rparr>"

definition setView :: "latlng \<Rightarrow> int option \<Rightarrow> vopts \<Rightarrow> bool \<Rightarrow> mview \<Rightarrow> mview" where
  "setView center zoom options nothing v =
     (let zoom = (case zoom of None \<Rightarrow> mv_zoom v | Some z \<Rightarrow> limitZoom v z);
          center = limitCenter v center zoom (mv_maxBounds v);
          v = map_stop v;
          (v, animated) =
            (if mv_loaded v \<and> \<not> vo_reset options then
               (if mv_zoom v \<noteq> zoom then tryAnimatedZoom center zoom (vo_zoom options) nothing v
                else tryAnimatedPan center (vo_pan options) v)
             else (v, False))
      in if animated then v else resetView center zoom False False v)"

definition panTo :: "latlng \<Rightarrow> bool option \<Rightarrow> bool \<Rightarrow> mview \<Rightarrow> mview" where
  "panTo center pan nothing v = setView center (Some (mv_zoom v)) (no_vopts\<lparr>vo_pan := pan\<rparr>) nothing v"

definition panInsideBounds :: "llbounds \<Rightarrow> bool \<Rightarrow> mview \<Rightarrow> mview" where
  "panInsideBounds bs nothing v =
     (case map_getCenter v of
        None \<Rightarrow> vcall ''Error'' v
      | Some center \<Rightarrow>
          (let newCenter = limitCenter v center (mv_zoom v) (Some bs)
           in if latlng_equals center newCenter None then v else panTo newCenter None nothing v))"

definition setMaxBounds :: "llbounds \<Rightarrow> bool \<Rightarrow> mview \<Rightarrow> mview" where
  "setMaxBounds bs nothing v =
     (let v = v\<lparr>mv_maxBounds := Some bs\<rparr>
      in if mv_loaded v then panInsideBounds bs nothing v else v)"

definition setDocBounds :: "llbounds \<Rightarrow> mview \<Rightarrow> mview" where
  "setDocBounds bs v = v\<lparr>mv_docBounds := Some bs\<rparr>"

text \<open>\<open>invalidateSize\<close>: \<open>newSize\<close> is the container's size; the options \<open>animate\<close>, \<open>pan\<close> and
  \<open>debounceMoveend\<close>.\<close>

definition invalidateSize :: "point \<Rightarrow> bool \<Rightarrow> bool \<Rightarrow> bool \<Rightarrow> mview \<Rightarrow> mview" where
  "invalidateSize newSize animate pan debounce v =
     (if \<not> mv_loaded v then v
      else
        let oldSize = mv_size v;
            v = v\<lparr>mv_size := newSize\<rparr>;
            oldCenter = point_round (point_divideBy oldSize 2);
            newCenter = point_round (point_divideBy newSize 2);
            offset = point_subtract oldCenter newCenter
        in if px offset = 0 \<and> py offset = 0 then v
           else
             let v = (if animate \<and> pan then panBy offset False False v
                      else
                        let v = (if pan then rawPanBy offset v else v);
                            v = vfire ''move'' v
                        in if debounce then vcall ''setTimeout moveend'' v else vfire ''moveend'' v)
             in vfire ''resize'' v)"

definition setZoomAround :: "point \<Rightarrow> int \<Rightarrow> bool \<Rightarrow> mview \<Rightarrow> mview" where
  "setZoomAround containerPoint zoom nothing v =
     (let scale = getZoomScale v zoom None;
          viewHalf = point_divideBy (mv_size v) 2;
          centerOffset = point_multiplyBy (point_subtract containerPoint viewHalf) (1 - 1 / scale)
      in case containerPointToLatLng v (point_add viewHalf centerOffset) of
           None \<Rightarrow> vcall ''Error'' v
         | Some newCenter \<Rightarrow> setView newCenter (Some zoom) no_vopts nothing v)"

text \<open>\<open>setZoom\<close>: \<open>caret\<close> is the centre of the visible cursor, \<open>check\<close> the layer's
  \<open>_checkSpreadSheetBounds\<close> for spreadsheets.\<close>

definition setZoom :: "int \<Rightarrow> latlng option \<Rightarrow> (int \<Rightarrow> mview \<Rightarrow> mview) option \<Rightarrow> bool \<Rightarrow> mview \<Rightarrow> mview" where
  "setZoom zoom caret check nothing v =
     (if \<not> mv_loaded v then v\<lparr>mv_zoom := limitZoom v zoom\<rparr>
      else
        let v = (case check of None \<Rightarrow> v | Some f \<Rightarrow> f zoom v)
        in case (map_getCenter v, map_getBounds v) of
             (Some curCenter, Some b) \<Rightarrow>
               (case caret of
                  Some caretPos \<Rightarrow>
                    if llb_contains_point b caretPos then
                      (let zoomScale = 1 / getZoomScale v zoom (Some (mv_zoom v));
                           newCenter = ll (lat curCenter + (lat caretPos - lat curCenter) * (1 - zoomScale))
                                          (lng curCenter + (lng caretPos - lng curCenter) * (1 - zoomScale))
                       in setView newCenter (Some zoom) no_vopts nothing v)
                    else setView curCenter (Some zoom) no_vopts nothing v
                | None \<Rightarrow> setView curCenter (Some zoom) no_vopts nothing v)
           | _ \<Rightarrow> vcall ''Error'' v)"

section \<open>Fitting bounds\<close>

text \<open>The \<open>do ... while\<close> loop of \<open>getBoundsZoom\<close>: the zoom it ends with and \<open>zoomNotFound\<close>. It
  may not end when there is no highest zoom level.\<close>

definition zoomNotFound :: "mview \<Rightarrow> llbounds \<Rightarrow> bool \<Rightarrow> point \<Rightarrow> int \<Rightarrow> bool" where
  "zoomNotFound v bs inner padding zoom =
     (let boundsSize = point_floor (point_add (point_subtract (project v (getSouthEast bs) (Some zoom))
                         (project v (getNorthWest bs) (Some zoom))) padding)
      in if inner then px boundsSize < px (mv_size v) \<or> py boundsSize < py (mv_size v)
         else point_contains (mv_size v) boundsSize)"

partial_function (option) bounds_zoom_loop ::
  "mview \<Rightarrow> llbounds \<Rightarrow> bool \<Rightarrow> point \<Rightarrow> int \<Rightarrow> (int \<times> bool) option" where
  "bounds_zoom_loop v bs inner padding zoom0 =
     (let zoom = zoom0 + 1; nf = zoomNotFound v bs inner padding zoom
      in if nf \<and> (case getMaxZoom v of None \<Rightarrow> True | Some m \<Rightarrow> zoom \<le> m)
         then bounds_zoom_loop v bs inner padding zoom else Some (zoom, nf))"

text \<open>\<open>getBoundsZoom\<close>: the inner \<open>None\<close> is \<open>null\<close>, the outer one a loop that does not end.\<close>

definition getBoundsZoom :: "mview \<Rightarrow> llbounds \<Rightarrow> bool \<Rightarrow> point \<Rightarrow> int option option" where
  "getBoundsZoom v bs inner padding =
     map_option (\<lambda>(zoom, nf). if nf \<and> inner then None else Some (if inner then zoom else zoom - 1))
       (bounds_zoom_loop v bs inner padding (getMinZoom v - (if inner then 1 else 0)))"

definition fitBounds ::
  "llbounds \<Rightarrow> point \<Rightarrow> point \<Rightarrow> int option \<Rightarrow> vopts \<Rightarrow> bool \<Rightarrow> mview \<Rightarrow> mview option" where
  "fitBounds bs paddingTL paddingBR maxZ options nothing v =
     (case getBoundsZoom v bs False (point_add paddingTL paddingBR) of
        Some (Some z) \<Rightarrow>
          (let zoom = (case maxZ of None \<Rightarrow> z | Some m \<Rightarrow> if m = 0 then z else min m z);
               paddingOffset = point_divideBy (point_subtract paddingBR paddingTL) 2;
               swPoint = project v (southWest bs) (Some zoom);
               nePoint = project v (northEast bs) (Some zoom);
               center = unproject v (point_add (point_divideBy (point_add swPoint nePoint) 2) paddingOffset)
                          (Some zoom)
           in Some (setView center (Some zoom) options nothing v))
      | _ \<Rightarrow> None)"

section \<open>Facts\<close>

lemma limitZoom_range:
  assumes "\<And>m. getMaxZoom v = Some m \<Longrightarrow> getMinZoom v \<le> m"
  shows "getMinZoom v \<le> limitZoom v z \<and> (\<forall>m. getMaxZoom v = Some m \<longrightarrow> limitZoom v z \<le> m)"
  using assms by (cases "getMaxZoom v") (auto simp: limitZoom_def)

lemma limitZoom_id:
  "getMinZoom v \<le> z \<Longrightarrow> (\<And>m. getMaxZoom v = Some m \<Longrightarrow> z \<le> m) \<Longrightarrow> limitZoom v z = z"
  by (cases "getMaxZoom v") (auto simp: limitZoom_def)

lemma getZoomScale_pos: "0 < getZoomScale v a b"
  using simple_scale_pos by (simp add: getZoomScale_def Let_def)

lemma getZoomScale_compose:
  "getZoomScale v a (Some b) * getZoomScale v b (Some c) = getZoomScale v a (Some c)"
  using simple_scale_pos [of b] by (simp add: getZoomScale_def)

lemma getZoomScale_self [simp]: "getZoomScale v a (Some a) = 1"
  using simple_scale_pos [of a] by (simp add: getZoomScale_def)

text \<open>\<open>getScaleZoom\<close> inverts \<open>getZoomScale\<close>.\<close>

lemma getScaleZoom_getZoomScale: "getScaleZoom v (getZoomScale v a (Some b)) (Some b) = of_int a"
proof -
  have "crs_scale crs_simple n = (6 / 5) powi n" for n by (simp add: crs_simple_def)
  then have "getZoomScale v a (Some b) = (6 / 5) powi (a - b)"
    by (simp add: getZoomScale_def power_int_diff)
  moreover have "ln (6 / 5 :: real) \<noteq> 0" by simp
  ultimately show ?thesis by (simp add: getScaleZoom_def log_base_powi)
qed

lemma project_close:
  "\<bar>px (project v p z) - px (latLngToPoint crs_simple p (zoom_or v z))\<bar> \<le> 1 / 2000000"
  "\<bar>py (project v p z) - py (latLngToPoint crs_simple p (zoom_or v z))\<bar> \<le> 1 / 2000000"
  using roundTo_close [of "1 / 10 ^ 6"] by (simp_all add: project_def Let_def)

text \<open>Projecting back an unprojected point moves it by at most half of the rounding step.\<close>

lemma project_unproject:
  "\<bar>px (project v (unproject v q z) z) - px q\<bar> \<le> 1 / 2000000"
  "\<bar>py (project v (unproject v q z) z) - py q\<bar> \<le> 1 / 2000000"
  using project_close [of v "unproject v q z" z]
  by (simp_all add: unproject_def simple.point_latLng_point)

lemma rebound_large:
  assumes "left + right > 0"
  shows "\<bar>rebound left right - (left - right) / 2\<bar> \<le> 1 / 4"
proof -
  have eq: "rebound left right = of_int (js_round (left - right)) / 2" using assms by (simp add: rebound_def)
  have "rebound left right - (left - right) / 2 = (of_int (js_round (left - right)) - (left - right)) / 2"
    by (simp add: eq diff_divide_distrib)
  then have "\<bar>rebound left right - (left - right) / 2\<bar> = \<bar>of_int (js_round (left - right)) - (left - right)\<bar> / 2"
    by (simp only: abs_divide abs_numeral)
  with js_round_near [of "left - right"] show ?thesis by simp
qed

text \<open>\<open>left\<close> is how far the bounds' near edge lies beyond the view's, \<open>right\<close> how far the view's
  far edge lies beyond the bounds'. When the bounds can hold the view, the offset brings its near
  edge inside and its far edge inside up to less than a pixel.\<close>

lemma rebound_small:
  assumes "left + right \<le> 0"
  shows "left \<le> rebound left right" "rebound left right < 1 - right"
    "left \<le> 0 \<Longrightarrow> right \<le> 0 \<Longrightarrow> rebound left right = 0"
    "left > 0 \<Longrightarrow> left \<le> rebound left right \<and> rebound left right < left + 1"
    "right > 0 \<Longrightarrow> - right \<le> rebound left right \<and> rebound left right < 1 - right"
proof -
  show c: "left > 0 \<Longrightarrow> left \<le> rebound left right \<and> rebound left right < left + 1"
  proof -
    assume l: "left > 0"
    then have "right < 0" using assms by linarith
    then have "\<lfloor>right\<rfloor> < 0" by linarith
    with l assms have "rebound left right = of_int \<lceil>left\<rceil>" by (simp add: rebound_def)
    then show ?thesis by linarith
  qed
  show d: "right > 0 \<Longrightarrow> - right \<le> rebound left right \<and> rebound left right < 1 - right"
  proof -
    assume r: "right > 0"
    then have "left < 0" using assms by linarith
    then have "\<lceil>left\<rceil> \<le> 0" by linarith
    moreover have "0 \<le> \<lfloor>right\<rfloor>" using r by linarith
    ultimately have "rebound left right = - of_int \<lfloor>right\<rfloor>" using assms by (simp add: rebound_def)
    then show ?thesis by linarith
  qed
  show e: "left \<le> 0 \<Longrightarrow> right \<le> 0 \<Longrightarrow> rebound left right = 0"
  proof -
    assume "left \<le> 0" "right \<le> 0"
    then have "\<lceil>left\<rceil> \<le> 0" "\<lfloor>right\<rfloor> \<le> 0" by linarith+
    with assms show ?thesis by (simp add: rebound_def)
  qed
  show "rebound left right < 1 - right" using c d e assms by (cases "left > 0"; cases "right > 0") force+
  show "left \<le> rebound left right"
    using c d e assms by (cases "left > 0"; cases "right > 0") force+
qed

text \<open>The view box that \<open>limitCenter\<close> aims at lies inside the bounds, on each axis on which the
  bounds can hold it: the near side exactly, the far side up to a pixel.\<close>

lemma getBoundsOffset_fits:
  fixes v b z box
  defines "nw \<equiv> project v (getNorthWest b) z" and "se \<equiv> project v (getSouthEast b) z"
    and "d \<equiv> getBoundsOffset v box b z"
  shows "px (bmax box) - px (bmin box) \<le> px se - px nw \<Longrightarrow>
      px nw \<le> px (bmin box) + px d \<and> px (bmax box) + px d < px se + 1"
    "py (bmax box) - py (bmin box) \<le> py se - py nw \<Longrightarrow>
      py nw \<le> py (bmin box) + py d \<and> py (bmax box) + py d < py se + 1"
proof -
  have dx: "px d = rebound (px nw - px (bmin box)) (px (bmax box) - px se)"
    and dy: "py d = rebound (py nw - py (bmin box)) (py (bmax box) - py se)"
    by (simp_all add: d_def nw_def se_def getBoundsOffset_def Let_def)
  show "px (bmax box) - px (bmin box) \<le> px se - px nw \<Longrightarrow>
      px nw \<le> px (bmin box) + px d \<and> px (bmax box) + px d < px se + 1"
    using rebound_small(1,2) [of "px nw - px (bmin box)" "px (bmax box) - px se"] by (simp add: dx)
  show "py (bmax box) - py (bmin box) \<le> py se - py nw \<Longrightarrow>
      py nw \<le> py (bmin box) + py d \<and> py (bmax box) + py d < py se + 1"
    using rebound_small(1,2) [of "py nw - py (bmin box)" "py (bmax box) - py se"] by (simp add: dy)
qed

lemma vfire_sel [simp]:
  "mv_loaded (vfire t v) = mv_loaded v" "mv_zoom (vfire t v) = mv_zoom v" "mv_pane (vfire t v) = mv_pane v"
  "mv_size (vfire t v) = mv_size v" "mv_pixelOrigin (vfire t v) = mv_pixelOrigin v"
  "mv_loaded (vfire_hard t h v) = mv_loaded v" "mv_zoom (vfire_hard t h v) = mv_zoom v"
  "mv_pane (vfire_hard t h v) = mv_pane v" "mv_size (vfire_hard t h v) = mv_size v"
  "mv_pixelOrigin (vfire_hard t h v) = mv_pixelOrigin v"
  "mv_loaded (vcall t v) = mv_loaded v" "mv_zoom (vcall t v) = mv_zoom v" "mv_pane (vcall t v) = mv_pane v"
  "mv_size (vcall t v) = mv_size v" "mv_pixelOrigin (vcall t v) = mv_pixelOrigin v"
  by (simp_all add: vfire_def vfire_hard_def vcall_def)

lemma resetView_sel [simp]:
  "mv_loaded (resetView c z p a v)" "mv_zoom (resetView c z p a v) = z"
  "mv_size (resetView c z p a v) = mv_size v"
  "mv_pane (resetView c z p a v) = (if p then mv_pane v else pt 0 0)"
  by (simp_all add: resetView_def Let_def)

lemma resetView_origin:
  "mv_pixelOrigin (resetView c z p a v) =
     point_round (point_add (point_subtract (project v c (Some z)) (point_divideBy (mv_size v) 2))
       (if p then mv_pane v else pt 0 0))"
  by (simp add: resetView_def Let_def getNewPixelOrigin_def project_def zoom_or_def)

text \<open>The centre read back after \<open>_resetView\<close>, in pixels.\<close>

lemma resetView_center:
  "\<exists>c'. map_getCenter (resetView c z p a v) = Some c' \<and>
     latLngToPoint crs_simple c' z =
       point_add (mv_pixelOrigin (resetView c z p a v))
         (point_subtract (point_divideBy (mv_size v) 2) (if p then mv_pane v else pt 0 0))"
  by (auto simp: map_getCenter_def layerPointToLatLng_def getPixelOrigin_def getCenterLayerPoint_def
      containerPointToLayerPoint_def unproject_def zoom_or_def simple.point_latLng_point intro!: point_eqI)

lemma resetView_center_close:
  "\<exists>c'. map_getCenter (resetView c z p a v) = Some c' \<and>
     \<bar>px (latLngToPoint crs_simple c' z) - px (project v c (Some z))\<bar> \<le> 1 / 2 \<and>
     \<bar>py (latLngToPoint crs_simple c' z) - py (project v c (Some z))\<bar> \<le> 1 / 2"
proof -
  obtain c' where c': "map_getCenter (resetView c z p a v) = Some c'"
    "latLngToPoint crs_simple c' z =
       point_add (mv_pixelOrigin (resetView c z p a v))
         (point_subtract (point_divideBy (mv_size v) 2) (if p then mv_pane v else pt 0 0))"
    using resetView_center by blast
  have r: "\<bar>of_int (js_round (x - h + o')) + (h - o') - x\<bar> \<le> 1 / 2" for x h o' :: real
    using js_round_near [of "x - h + o'"] by (simp add: algebra_simps)
  have "\<bar>px (latLngToPoint crs_simple c' z) - px (project v c (Some z))\<bar> \<le> 1 / 2"
    "\<bar>py (latLngToPoint crs_simple c' z) - py (project v c (Some z))\<bar> \<le> 1 / 2"
    using r by (simp_all add: c'(2) resetView_origin)
  with c'(1) show ?thesis by blast
qed

section \<open>Properties\<close>

text \<open>A view of 512 by 512 pixels on zoom level 10, for the concrete instances.\<close>

definition demo_view :: mview where
  "demo_view = \<lparr>mv_loaded = True, mv_size = pt 512 512, mv_zoom = 10, mv_pixelOrigin = pt 0 0, mv_pane = pt 0 0,
     mv_minZoom = Some 1, mv_maxZoom = Some 20, mv_layersMinZoom = None, mv_layersMaxZoom = None,
     mv_maxBounds = None, mv_docBounds = None, mv_origMaxBounds = None, mv_panTarget = None,
     mv_zoomAnimated = False, mv_animatingZoom = False, mv_animateTo = None, mv_zoomRequest = None, mv_log = []\<rparr>"

text \<open>
  C38: \<open>_limitCenter\<close> keeps the view inside the bounds. Read back in pixels, the box of the view's
  size around the limited centre starts at or after the bounds' near edge and ends less than a
  pixel beyond the far edge, on each axis on which the bounds can hold the view.
\<close>

theorem limitCenter_inside:
  assumes "0 \<le> px (mv_size v)" "0 \<le> py (mv_size v)"
  shows "let nw = project v (getNorthWest b) (Some z); se = project v (getSouthEast b) (Some z);
           c = latLngToPoint crs_simple (limitCenter v center z (Some b)) z;
           w = px (mv_size v); h = py (mv_size v)
         in (w \<le> px se - px nw \<longrightarrow> px nw \<le> px c - w / 2 \<and> px c + w / 2 < px se + 1) \<and>
            (h \<le> py se - py nw \<longrightarrow> py nw \<le> py c - h / 2 \<and> py c + h / 2 < py se + 1)"
proof -
  define p where "p = project v center (Some z)"
  define half where "half = point_divideBy (mv_size v) 2"
  define box where "box = new_bounds (point_subtract p half) (point_add p half)"
  have box: "bmin box = point_subtract p half" "bmax box = point_add p half"
    using assms by (simp_all add: box_def half_def new_bounds_def bounds_extend_def point_eqI)
  have half: "px half = px (mv_size v) / 2" "py half = py (mv_size v) / 2" by (simp_all add: half_def)
  have c: "latLngToPoint crs_simple (limitCenter v center z (Some b)) z = point_add p (getBoundsOffset v box b (Some z))"
    by (simp add: limitCenter_def Let_def p_def half_def box_def unproject_def zoom_or_def simple.point_latLng_point)
  show ?thesis
    using getBoundsOffset_fits [of box v b "Some z"] by (simp add: c box half Let_def field_simps)
qed

lemma limitCenter_inside_witness:
  "let v = demo_view; b = new_llbounds (ll 0 0) (ll (- 1000) 1000); z = 10;
       nw = project v (getNorthWest b) (Some z); se = project v (getSouthEast b) (Some z);
       c = latLngToPoint crs_simple (limitCenter v (ll 3 5) z (Some b)) z;
       w = px (mv_size v); h = py (mv_size v)
   in (w \<le> px se - px nw \<longrightarrow> px nw \<le> px c - w / 2 \<and> px c + w / 2 < px se + 1) \<and>
      (h \<le> py se - py nw \<longrightarrow> py nw \<le> py c - h / 2 \<and> py c + h / 2 < py se + 1)"
  unfolding Let_def by (rule limitCenter_inside [unfolded Let_def]) (simp_all add: demo_view_def)

lemma bounds_zoom_loop_ends:
  assumes "getMaxZoom v = Some m" "z0 \<le> m"
  shows "\<exists>z nf. bounds_zoom_loop v b inner pad z0 = Some (z, nf) \<and> z0 < z \<and> z \<le> m + 1 \<and>
    nf = zoomNotFound v b inner pad z \<and> (\<forall>k. z0 < k \<and> k < z \<longrightarrow> zoomNotFound v b inner pad k) \<and>
    (nf \<longrightarrow> z = m + 1)" (is "\<exists>z nf. ?P z0 z nf")
  using assms(2)
proof (induction "nat (m - z0)" arbitrary: z0 rule: less_induct)
  case less
  show ?case
  proof (cases "zoomNotFound v b inner pad (z0 + 1) \<and> z0 + 1 \<le> m")
    case True
    then have step: "bounds_zoom_loop v b inner pad z0 = bounds_zoom_loop v b inner pad (z0 + 1)"
      by (subst bounds_zoom_loop.simps) (simp add: assms(1) Let_def)
    have "nat (m - (z0 + 1)) < nat (m - z0)" using True by linarith
    from less(1) [OF this True [THEN conjunct2]] obtain z nf where IH:
        "bounds_zoom_loop v b inner pad (z0 + 1) = Some (z, nf)" "z0 + 1 < z" "z \<le> m + 1"
        "nf = zoomNotFound v b inner pad z"
        and all: "\<forall>k. z0 + 1 < k \<and> k < z \<longrightarrow> zoomNotFound v b inner pad k" and last: "nf \<longrightarrow> z = m + 1"
      by (elim exE conjE) (rule that)
    have one: "zoomNotFound v b inner pad (z0 + 1)" by (rule True [THEN conjunct1])
    have "\<forall>k. z0 < k \<and> k < z \<longrightarrow> zoomNotFound v b inner pad k"
    proof (intro allI impI, elim conjE)
      fix k assume k: "z0 < k" "k < z"
      show "zoomNotFound v b inner pad k"
      proof (cases "k = z0 + 1")
        case True
        show ?thesis unfolding True by (rule one)
      next
        case False
        with k have "z0 + 1 < k \<and> k < z" by linarith
        with all show ?thesis by blast
      qed
    qed
    moreover have "z0 < z" using IH(2) by linarith
    ultimately show ?thesis unfolding step using IH(1,3,4) last by blast
  next
    case False
    then have "bounds_zoom_loop v b inner pad z0 = Some (z0 + 1, zoomNotFound v b inner pad (z0 + 1))"
      by (subst bounds_zoom_loop.simps) (auto simp: assms(1) Let_def)
    moreover have "zoomNotFound v b inner pad (z0 + 1) \<longrightarrow> z0 + 1 = m + 1" using False less(2) by linarith
    ultimately have "?P z0 (z0 + 1) (zoomNotFound v b inner pad (z0 + 1))" using less(2) by auto
    then show ?thesis by blast
  qed
qed



lemma abs_chain: "\<bar>a - b\<bar> \<le> e \<Longrightarrow> \<bar>b - c\<bar> \<le> f \<Longrightarrow> \<bar>a - c\<bar> \<le> e + (f :: real)"
  by linarith

text \<open>
  \<open>_resetView\<close> shows what it was asked to: afterwards the zoom is the one given, and the centre
  read back with \<open>getCenter\<close> lies within half a pixel of the one given (which was itself rounded
  to a millionth of a pixel by \<open>project\<close>), whatever the pane's offset and the view's size are.
\<close>

theorem resetView_shows_center:
  "mv_zoom (resetView c z p a v) = z \<and>
   (\<exists>c'. map_getCenter (resetView c z p a v) = Some c' \<and>
     \<bar>px (latLngToPoint crs_simple c' z) - px (latLngToPoint crs_simple c z)\<bar> \<le> 1 / 2 + 1 / 2000000 \<and>
     \<bar>py (latLngToPoint crs_simple c' z) - py (latLngToPoint crs_simple c z)\<bar> \<le> 1 / 2 + 1 / 2000000)"
proof -
  obtain c' where c': "map_getCenter (resetView c z p a v) = Some c'"
    "\<bar>px (latLngToPoint crs_simple c' z) - px (project v c (Some z))\<bar> \<le> 1 / 2"
    "\<bar>py (latLngToPoint crs_simple c' z) - py (project v c (Some z))\<bar> \<le> 1 / 2"
    using resetView_center_close by blast
  have "\<bar>px (latLngToPoint crs_simple c' z) - px (latLngToPoint crs_simple c z)\<bar> \<le> 1 / 2 + 1 / 2000000"
    by (rule abs_chain [OF c'(2)]) (use project_close(1) [of v c "Some z"] in \<open>simp add: zoom_or_def\<close>)
  moreover have "\<bar>py (latLngToPoint crs_simple c' z) - py (latLngToPoint crs_simple c z)\<bar> \<le> 1 / 2 + 1 / 2000000"
    by (rule abs_chain [OF c'(3)]) (use project_close(2) [of v c "Some z"] in \<open>simp add: zoom_or_def\<close>)
  ultimately show ?thesis using c'(1) by auto
qed

end
