(* ===== verification/ServerCmd.thy ===== *)
theory ServerCmd
  imports Effects Util
begin

text \<open>
  \<open>parseServerCmd\<close> of \<open>loleaflet/src/core/Socket.js\<close>: the message is split at blanks and
  newlines and each token \<open>key=value\<close> sets a field of the command object; a field no token
  sets stays \<open>undefined\<close> (\<open>None\<close>). Numbers that \<open>parseInt\<close> cannot read are \<open>NaN\<close>.
\<close>

record command =
  cmd_x :: "jsnum option"
  cmd_y :: "jsnum option"
  cmd_tileWidth :: "jsnum option"
  cmd_tileHeight :: "jsnum option"
  cmd_width :: "jsnum option"
  cmd_height :: "jsnum option"
  cmd_part :: "jsnum option"
  cmd_parts :: "jsnum option"
  cmd_selectedPart :: "jsnum option"
  cmd_id :: "string option"
  cmd_type :: "string option"
  cmd_errorCmd :: "string option"
  cmd_errorCode :: "string option"
  cmd_errorKind :: "string option"
  cmd_jail :: "string option"
  cmd_dir :: "string option"
  cmd_downloadid :: "string option"
  cmd_name :: "string option"
  cmd_port :: "string option"
  cmd_font :: "string option"
  cmd_char :: "string option"
  cmd_url :: "string option"
  cmd_viewid :: "string option"
  cmd_nviewid :: "string option"
  cmd_params :: "string list option"
  cmd_renderid :: "string option"
  cmd_rendercount :: "jsnum option"
  cmd_wireId :: "string option"
  cmd_title :: "string option"
  cmd_dialogwidth :: "string option"
  cmd_dialogheight :: "string option"
  cmd_rectangle :: "string option"
  cmd_hiddenparts :: "jsnum list option"
  cmd_selectedParts :: "jsnum list option"
  cmd_partdetail :: "string option"
  cmd_hash :: "string option"
  cmd_zoom :: "jsnum option"

definition empty_command :: command where
  "empty_command = \<lparr>cmd_x = None, cmd_y = None, cmd_tileWidth = None, cmd_tileHeight = None, cmd_width = None, cmd_height = None, cmd_part = None, cmd_parts = None, cmd_selectedPart = None, cmd_id = None, cmd_type = None, cmd_errorCmd = None, cmd_errorCode = None, cmd_errorKind = None, cmd_jail = None, cmd_dir = None, cmd_downloadid = None, cmd_name = None, cmd_port = None, cmd_font = None, cmd_char = None, cmd_url = None, cmd_viewid = None, cmd_nviewid = None, cmd_params = None, cmd_renderid = None, cmd_rendercount = None, cmd_wireId = None, cmd_title = None, cmd_dialogwidth = None, cmd_dialogheight = None, cmd_rectangle = None, cmd_hiddenparts = None, cmd_selectedParts = None, cmd_partdetail = None, cmd_hash = None, cmd_zoom = None\<rparr>"

text \<open>\<open>getParameterValue\<close>: what follows the first equals sign.\<close>

definition getParameterValue :: "string \<Rightarrow> string option" where
  "getParameterValue s =
     (case dropWhile (\<lambda>c. c \<noteq> CHR ''='') s of [] \<Rightarrow> None | _ # v \<Rightarrow> Some v)"

text \<open>\<open>replace(/(\r\n|\n|\r)/gm, '')\<close>\<close>

definition stripNewlines :: "string \<Rightarrow> string" where
  "stripNewlines s = filter (\<lambda>c. char_code c \<noteq> 10 \<and> char_code c \<noteq> 13) s"

text \<open>One round of the loop over the tokens, the tests in the order of the code.\<close>

definition cmd_token :: "command \<Rightarrow> string \<Rightarrow> command" where
  "cmd_token c t =
     (if startsWith t ''tileposx='' then c\<lparr>cmd_x := Some (parseNum (drop 9 t))\<rparr>
      else if startsWith t ''tileposy='' then c\<lparr>cmd_y := Some (parseNum (drop 9 t))\<rparr>
      else if startsWith t ''x='' then c\<lparr>cmd_x := Some (parseNum (drop 2 t))\<rparr>
      else if startsWith t ''y='' then c\<lparr>cmd_y := Some (parseNum (drop 2 t))\<rparr>
      else if startsWith t ''tilewidth='' then c\<lparr>cmd_tileWidth := Some (parseNum (drop 10 t))\<rparr>
      else if startsWith t ''tileheight='' then c\<lparr>cmd_tileHeight := Some (parseNum (drop 11 t))\<rparr>
      else if startsWith t ''width='' then c\<lparr>cmd_width := Some (parseNum (drop 6 t))\<rparr>
      else if startsWith t ''height='' then c\<lparr>cmd_height := Some (parseNum (drop 7 t))\<rparr>
      else if startsWith t ''part='' then c\<lparr>cmd_part := Some (parseNum (drop 5 t))\<rparr>
      else if startsWith t ''parts='' then c\<lparr>cmd_parts := Some (parseNum (drop 6 t))\<rparr>
      else if startsWith t ''current='' then c\<lparr>cmd_selectedPart := Some (parseNum (drop 8 t))\<rparr>
      else if startsWith t ''id='' then c\<lparr>cmd_id := Some (stripNewlines (drop 3 t))\<rparr>
      else if startsWith t ''type='' then c\<lparr>cmd_type := Some (stripNewlines (drop 5 t))\<rparr>
      else if startsWith t ''cmd='' then c\<lparr>cmd_errorCmd := Some (drop 4 t)\<rparr>
      else if startsWith t ''code='' then c\<lparr>cmd_errorCode := Some (drop 5 t)\<rparr>
      else if startsWith t ''kind='' then c\<lparr>cmd_errorKind := Some (drop 5 t)\<rparr>
      else if startsWith t ''jail='' then c\<lparr>cmd_jail := Some (drop 5 t)\<rparr>
      else if startsWith t ''dir='' then c\<lparr>cmd_dir := Some (drop 4 t)\<rparr>
      else if startsWith t ''downloadid='' then c\<lparr>cmd_downloadid := Some (drop 11 t)\<rparr>
      else if startsWith t ''name='' then c\<lparr>cmd_name := Some (drop 5 t)\<rparr>
      else if startsWith t ''port='' then c\<lparr>cmd_port := Some (drop 5 t)\<rparr>
      else if startsWith t ''font='' then c\<lparr>cmd_font := Some (drop 5 t)\<rparr>
      else if startsWith t ''char='' then c\<lparr>cmd_char := Some (drop 5 t)\<rparr>
      else if startsWith t ''url='' then c\<lparr>cmd_url := Some (drop 4 t)\<rparr>
      else if startsWith t ''viewid='' then c\<lparr>cmd_viewid := Some (drop 7 t)\<rparr>
      else if startsWith t ''nviewid='' then c\<lparr>cmd_nviewid := Some (drop 8 t)\<rparr>
      else if startsWith t ''params='' then c\<lparr>cmd_params := Some (js_split (CHR '','') (drop 7 t))\<rparr>
      else if startsWith t ''renderid='' then c\<lparr>cmd_renderid := Some (drop 9 t)\<rparr>
      else if startsWith t ''rendercount='' then c\<lparr>cmd_rendercount := Some (parseNum (drop 12 t))\<rparr>
      else if startsWith t ''wid='' then c\<lparr>cmd_wireId := getParameterValue t\<rparr>
      else if startsWith t ''title='' then c\<lparr>cmd_title := Some (drop 6 t)\<rparr>
      else if startsWith t ''dialogwidth='' then c\<lparr>cmd_dialogwidth := Some (drop 12 t)\<rparr>
      else if startsWith t ''dialogheight='' then c\<lparr>cmd_dialogheight := Some (drop 13 t)\<rparr>
      else if startsWith t ''rectangle='' then c\<lparr>cmd_rectangle := Some (drop 10 t)\<rparr>
      else if startsWith t ''hiddenparts='' then c\<lparr>cmd_hiddenparts := Some (map parseNum (js_split (CHR '','') (drop 12 t)))\<rparr>
      else if startsWith t ''selectedparts='' then c\<lparr>cmd_selectedParts := Some (map parseNum (js_split (CHR '','') (drop 14 t)))\<rparr>
      else if startsWith t ''partdetail='' then c\<lparr>cmd_partdetail := Some (drop 11 t)\<rparr>
      else if startsWith t ''hash='' then c\<lparr>cmd_hash := Some (drop 5 t)\<rparr>
      else c)"

definition is_cmd_sep :: "char \<Rightarrow> bool" where
  "is_cmd_sep c \<longleftrightarrow> char_code c = 32 \<or> char_code c = 10"

definition cmd_tokens :: "string \<Rightarrow> string list" where
  "cmd_tokens msg = split_runs is_cmd_sep msg"

text \<open>
  The zoom level the tile size stands for: \<open>docLayer\<close> is the tile width of the document
  layer when there is one, \<open>defaultZoom\<close> the map's \<open>options.zoom\<close>.
\<close>

definition set_cmd_zoom :: "int \<Rightarrow> int option \<Rightarrow> command \<Rightarrow> command" where
  "set_cmd_zoom defaultZoom docLayer c =
     (case docLayer of
        None \<Rightarrow> c
      | Some tileWidthTwips \<Rightarrow>
          if truthy (cmd_tileWidth c) \<and> truthy (cmd_tileHeight c) then
            (case cmd_tileWidth c of
               Some (Num w) \<Rightarrow>
                 (let scale = of_int w / of_int tileWidthTwips :: real
                  in c\<lparr>cmd_zoom := Some (Num (js_round (of_int defaultZoom - ln scale / ln (6 / 5))))\<rparr>)
             | _ \<Rightarrow> c)
          else c)"

definition parseServerCmd :: "int \<Rightarrow> int option \<Rightarrow> string \<Rightarrow> command" where
  "parseServerCmd defaultZoom docLayer msg =
     set_cmd_zoom defaultZoom docLayer (foldl cmd_token empty_command (cmd_tokens msg))"

section \<open>Tokens\<close>

lemma split_runs_plain: "list_all (\<lambda>c. \<not> P c) s \<Longrightarrow> split_runs P s = [s]"
  by (subst split_runs.simps) (simp add: dropWhile_eq_Nil_conv list_all_iff)

lemma split_runs_sep:
  assumes "list_all (\<lambda>c. \<not> P c) w" "P c" "r \<noteq> []" "\<not> P (hd r)"
  shows "split_runs P (w @ c # r) = w # split_runs P r"
proof -
  have d: "dropWhile (\<lambda>c. \<not> P c) (w @ c # r) = c # r"
    using assms(1,2) by (simp add: dropWhile_append2 list_all_iff)
  have t: "takeWhile (\<lambda>c. \<not> P c) (w @ c # r) = w"
    using assms(1,2) by (simp add: takeWhile_append2 list_all_iff)
  have "dropWhile P (c # r) = r"
    using assms(2-4) by (cases r) simp_all
  with d t show ?thesis by (subst split_runs.simps) simp
qed

definition plain_token :: "string \<Rightarrow> bool" where
  "plain_token w \<longleftrightarrow> w \<noteq> [] \<and> list_all (\<lambda>c. \<not> is_cmd_sep c) w"

lemma sep_space [simp]: "is_cmd_sep (CHR '' '')"
  by (simp add: is_cmd_sep_def char_code_def)

text \<open>A line of tokens joined by blanks splits into these tokens.\<close>

lemma cmd_tokens_join:
  "ws \<noteq> [] \<Longrightarrow> list_all plain_token ws \<Longrightarrow> cmd_tokens (js_join '' '' ws) = ws"
proof (induction "'' ''" ws rule: js_join.induct)
  case (2 w)
  then show ?case by (simp add: cmd_tokens_def split_runs_plain plain_token_def)
next
  case (3 w v ws)
  let ?r = "js_join '' '' (v # ws)"
  have "?r \<noteq> [] \<and> \<not> is_cmd_sep (hd ?r)"
    using "3.prems" by (cases ws; cases v) (simp_all add: plain_token_def)
  then have "split_runs is_cmd_sep (w @ CHR '' '' # ?r) = w # split_runs is_cmd_sep ?r"
    using "3.prems" by (intro split_runs_sep) (simp_all add: plain_token_def)
  then show ?case using 3 by (simp add: cmd_tokens_def)
qed simp

lemma plain_show_int [simp]: "list_all (\<lambda>c. \<not> is_cmd_sep c) (show_int i)"
  using show_int_chars [of _ i] by (force simp: list_all_iff is_cmd_sep_def is_digit_def char_code_def)

text \<open>Which tokens set which field.\<close>

lemma cmd_token_tile:
  "cmd_token c (''tileposx='' @ v) = c\<lparr>cmd_x := Some (parseNum v)\<rparr>"
  "cmd_token c (''tileposy='' @ v) = c\<lparr>cmd_y := Some (parseNum v)\<rparr>"
  "cmd_token c (''tilewidth='' @ v) = c\<lparr>cmd_tileWidth := Some (parseNum v)\<rparr>"
  "cmd_token c (''tileheight='' @ v) = c\<lparr>cmd_tileHeight := Some (parseNum v)\<rparr>"
  "cmd_token c (''width='' @ v) = c\<lparr>cmd_width := Some (parseNum v)\<rparr>"
  "cmd_token c (''height='' @ v) = c\<lparr>cmd_height := Some (parseNum v)\<rparr>"
  "cmd_token c (''part='' @ v) = c\<lparr>cmd_part := Some (parseNum v)\<rparr>"
  "cmd_token c (''nviewid='' @ v) = c\<lparr>cmd_nviewid := Some v\<rparr>"
  "cmd_token c (''wid='' @ v) = c\<lparr>cmd_wireId := Some v\<rparr>"
  by (simp_all add: cmd_token_def startsWith_def getParameterValue_def)

section \<open>Properties\<close>

text \<open>A zoom level survives the rounding of the tile size it gives, if the tile is not tiny.\<close>

lemma zoom_of_rounded:
  fixes x :: real and r k z :: int
  assumes r: "\<bar>of_int r - x\<bar> \<le> 1 / 2" and x: "x = w * (6 / 5) powi (k - z)" and big: "6 \<le> x" and w: "0 < w"
  shows "js_round (of_int k - ln (of_int r / w) / ln (6 / 5)) = z"
proof -
  let ?r = "of_int r :: real"
  have b: "(6 / 5 :: real) powi n > 0" for n by simp
  have rx: "x - 1 / 2 \<le> ?r" "?r \<le> x + 1 / 2" using r by linarith+
  then have rp: "0 < ?r" using big by linarith
  have xx: "6 * x \<le> x * x" using mult_right_mono [OF big, of x] big by simp
  have up: "?r * ?r < 6 / 5 * (x * x)"
  proof -
    have "?r * ?r \<le> (x + 1 / 2) * (x + 1 / 2)" using rx(2) rp by (intro mult_mono) auto
    also have "(x + 1 / 2) * (x + 1 / 2) = x * x + x + 1 / 4" by (simp add: algebra_simps)
    also have "\<dots> < 6 / 5 * (x * x)" using xx big by linarith
    finally show ?thesis .
  qed
  have lo: "x * x < 6 / 5 * (?r * ?r)"
  proof -
    have "(x - 1 / 2) * (x - 1 / 2) = x * x - x + 1 / 4" by (simp add: algebra_simps)
    then have "x * x < 6 / 5 * ((x - 1 / 2) * (x - 1 / 2))" using xx big by linarith
    also have "(x - 1 / 2) * (x - 1 / 2) \<le> ?r * ?r" using rx(1) big by (intro mult_mono) auto
    finally show ?thesis by simp
  qed
  define L where "L = ln (6 / 5 :: real)"
  have L: "0 < L" by (simp add: L_def)
  define d where "d = ln ?r - ln x"
  have sq: "ln (u * u) = 2 * ln u" if "0 < u" for u :: real using that by (simp add: ln_mult)
  have lt: "2 * ln u < L + 2 * ln v" if "0 < u" "0 < v" "u * u < 6 / 5 * (v * v)" for u v :: real
  proof -
    have "ln (u * u) < ln (6 / 5 * (v * v))" using that by (subst ln_less_cancel_iff) simp_all
    also have "\<dots> = ln (6 / 5) + ln (v * v)" using that by (subst ln_mult) simp_all
    finally show ?thesis using that(1,2) by (simp only: sq L_def)
  qed
  have "2 * ln ?r < L + 2 * ln x" using lt [OF rp _ up] big by simp
  moreover have "2 * ln x < L + 2 * ln ?r" using lt [OF _ rp lo] big by simp
  ultimately have d: "\<bar>d\<bar> < L / 2" unfolding d_def by linarith
  note pw = log_base_powi [folded L_def]
  have "ln (?r / w) = d + of_int (k - z) * L"
    using rp w big x b by (simp add: d_def ln_div ln_mult pw)
  then have "of_int k - ln (?r / w) / L = of_int z - d / L" using L by (simp add: field_simps)
  moreover have "\<bar>d / L\<bar> < 1 / 2" using d L by (simp add: abs_divide field_simps)
  ultimately show ?thesis unfolding L_def [symmetric] by (intro js_round_close) simp
qed

lemma cmd_token_other: "cmd_token c ''tile:'' = c"
  by (simp add: cmd_token_def startsWith_def)

lemma parse_tile:
  assumes "w > 0" "6 \<le> real_of_int w * (6 / 5) powi (k - z)" "th \<noteq> 0"
    and "tw = js_round (of_int w * (6 / 5) powi (k - z))"
  shows "parseServerCmd k (Some w)
      (js_join '' '' [''tile:'', ''nviewid='' @ show_int v, ''part='' @ show_int p, ''width='' @ show_int pw,
         ''height='' @ show_int ph, ''tileposx='' @ show_int x, ''tileposy='' @ show_int y,
         ''tilewidth='' @ show_int tw, ''tileheight='' @ show_int th]) =
    empty_command\<lparr>cmd_nviewid := Some (show_int v), cmd_part := Some (Num p), cmd_width := Some (Num pw),
      cmd_height := Some (Num ph), cmd_x := Some (Num x), cmd_y := Some (Num y),
      cmd_tileWidth := Some (Num tw), cmd_tileHeight := Some (Num th), cmd_zoom := Some (Num z)\<rparr>"
proof -
  let ?x = "real_of_int w * (6 / 5) powi (k - z)"
  have r: "\<bar>of_int tw - ?x\<bar> \<le> 1 / 2" unfolding assms(4) by (rule js_round_near)
  then have "tw \<noteq> 0" using assms(2) by auto
  moreover have "js_round (of_int k - ln (of_int tw / of_int w) / ln (6 / 5)) = z"
    using zoom_of_rounded [OF r refl assms(2)] assms(1) by simp
  moreover have "list_all plain_token [''tile:'', ''nviewid='' @ show_int v, ''part='' @ show_int p,
      ''width='' @ show_int pw, ''height='' @ show_int ph, ''tileposx='' @ show_int x, ''tileposy='' @ show_int y,
      ''tilewidth='' @ show_int tw, ''tileheight='' @ show_int th]"
    by (simp add: plain_token_def) (simp add: is_cmd_sep_def char_code_def)
  ultimately show ?thesis using assms(3) cmd_token_tile [unfolded append.simps]
    by (subst parseServerCmd_def, subst cmd_tokens_join)
      (simp_all add: cmd_token_other set_cmd_zoom_def empty_command_def Let_def)
qed

text \<open>
  a \<open>tile:\<close> message is read back field by field, whatever its numbers are: part, size in pixels,
  position and size in twips; and the zoom level is the one whose tile size, rounded to twips,
  the message carries, as long as such a tile is at least six twips wide.
\<close>

theorem parseServerCmd_tile:
  assumes "w > 0" "6 \<le> real_of_int w * (6 / 5) powi (k - z)" "th \<noteq> 0"
    and "tw = js_round (of_int w * (6 / 5) powi (k - z))"
  shows "parseServerCmd k (Some w)
      (js_join '' '' [''tile:'', ''nviewid='' @ show_int v, ''part='' @ show_int p, ''width='' @ show_int pw,
         ''height='' @ show_int ph, ''tileposx='' @ show_int x, ''tileposy='' @ show_int y,
         ''tilewidth='' @ show_int tw, ''tileheight='' @ show_int th]) =
    empty_command\<lparr>cmd_nviewid := Some (show_int v), cmd_part := Some (Num p), cmd_width := Some (Num pw),
      cmd_height := Some (Num ph), cmd_x := Some (Num x), cmd_y := Some (Num y),
      cmd_tileWidth := Some (Num tw), cmd_tileHeight := Some (Num th), cmd_zoom := Some (Num z)\<rparr>"
  using assms by (rule parse_tile)

lemma parseServerCmd_tile_witness:
  "parseServerCmd 10 (Some 3840)
      (js_join '' '' [''tile:'', ''nviewid='' @ show_int 0, ''part='' @ show_int 0, ''width='' @ show_int 256,
         ''height='' @ show_int 256, ''tileposx='' @ show_int 4608, ''tileposy='' @ show_int 0,
         ''tilewidth='' @ show_int 4608, ''tileheight='' @ show_int 4608]) =
    empty_command\<lparr>cmd_nviewid := Some (show_int 0), cmd_part := Some (Num 0), cmd_width := Some (Num 256),
      cmd_height := Some (Num 256), cmd_x := Some (Num 4608), cmd_y := Some (Num 0),
      cmd_tileWidth := Some (Num 4608), cmd_tileHeight := Some (Num 4608), cmd_zoom := Some (Num 9)\<rparr>"
proof (rule parseServerCmd_tile)
  have "(3840 :: real) * (6 / 5) powi (10 - 9) = of_int 4608" by (simp add: power_int_def)
  then show "(4608 :: int) = js_round (of_int 3840 * (6 / 5) powi (10 - 9))" by (simp add: js_round_def)
qed (simp_all add: power_int_def)

end
