(* ===== verification/Session.thy ===== *)
theory Session
  imports ServerCmd
begin

text \<open>
  The connection and activity state shared by \<open>L.Socket\<close> (\<open>loleaflet/src/core/Socket.js\<close>) and
  \<open>L.Map\<close> (\<open>loleaflet/src/map/Map.js\<close>): the WebSocket, the queue of messages that wait for
  it, the flags \<open>_fatal\<close>, \<open>_active\<close>, \<open>_serverRecycling\<close>, \<open>_documentIdle\<close>, the dialog and
  timer of \<open>vex\<close>, and the operations \<open>connect\<close>, \<open>close\<close>, \<open>sendMessage\<close>, \<open>_activate\<close>,
  \<open>_dim\<close>, \<open>_deactivate\<close>. The browser build is modelled, not the mobile apps (their
  \<open>FakeWebSocket\<close>). Event handlers of a socket that \<open>close\<close> detached never run.
\<close>

section \<open>State\<close>

text \<open>\<open>WebSocket.readyState\<close>: 0 to 3.\<close>

datatype rstate = Connecting | Open | Closing | Closed

text \<open>What the one timer slot \<open>vex.timer\<close> will run.\<close>

datatype vtimer =
    NoTimer
  | DimTimer
  | InactiveTimer
  | RecycleInterval
  | ActivateInterval int

record session =
  fatal :: bool
  active :: bool
  serverRecycling :: bool
  documentIdle :: bool
  docLoaded :: bool
  hasDocLayer :: bool
  lastActiveTime :: int
  reconnecting :: bool
  readyState :: "rstate option"    \<comment> \<open>\<open>None\<close>: no socket object yet\<close>
  attached :: bool                \<comment> \<open>the handlers of the current socket are set\<close>
  msgQueue :: "string list"
  reconnectCount :: int
  wasShownLimitDialog :: bool
  tokenTimer :: bool
  dialogID :: int
  globalID :: int
  vtimer :: vtimer
  docPassword :: "string option"
  permissionOpt :: string         \<comment> \<open>\<open>options.permission\<close>\<close>
  perm :: string                  \<comment> \<open>\<open>_permission\<close>\<close>
  dragging :: bool
  editButton :: bool
  log :: "effect list"

text \<open>What does not change during a session: options, browser and host properties.\<close>

record sconf =
  refuseSocket :: bool            \<comment> \<open>\<open>new WebSocket\<close> throws\<close>
  tokenTtl :: "int option"        \<comment> \<open>\<open>access_token_ttl\<close>, when there is a token and it is not 0\<close>
  alwaysActive :: bool
  idleTimeoutSecs :: int
  outOfFocusTimeoutSecs :: int
  disableInactiveMessages :: bool
  dialogClosable :: bool          \<comment> \<open>\<open>overlayClosesOnClick && escapeButtonCloses\<close>\<close>
  isMobile :: bool
  isTouch :: bool
  saveToOdf :: string
  documentOwner :: bool
  doc :: string
  timestamp :: "string option"
  slocale :: "string option"
  renderingOptions :: "string option"
  timezone :: "string option"
  timezoneOffset :: "string option"

definition emit :: "effect \<Rightarrow> session \<Rightarrow> session" where
  "emit e s = s\<lparr>log := log s @ [e]\<rparr>"

abbreviation called :: "string \<Rightarrow> session \<Rightarrow> session" where
  "called f \<equiv> emit (Called f [])"

abbreviation fire :: "string \<Rightarrow> (string \<times> jsval) list \<Rightarrow> session \<Rightarrow> session" where
  "fire t d \<equiv> emit (Fired t (JObj d))"

definition connected :: "session \<Rightarrow> bool" where
  "connected s \<longleftrightarrow> readyState s = Some Open"

definition vex_close :: "int \<Rightarrow> session \<Rightarrow> session" where
  "vex_close i s = emit (Called ''vex.close'' [JInt i]) s"

text \<open>The idiom that closes an open dialog: \<open>if (vex.dialogID > 0) ...\<close>\<close>

definition closeDialog :: "session \<Rightarrow> session" where
  "closeDialog s =
     (if dialogID s > 0 then (let i = dialogID s in vex_close i (s\<lparr>dialogID := -1\<rparr>)) else s)"

text \<open>The dialog that \<open>_dim\<close> and the \<open>close:\<close> message build from the vex templates.\<close>

definition openDialog :: "string \<Rightarrow> session \<Rightarrow> session" where
  "openDialog content s =
     emit (Called ''vex.append'' [JInt (globalID s), JStr content])
       (s\<lparr>dialogID := globalID s, globalID := globalID s + 1\<rparr>)"

definition clearTimer :: "session \<Rightarrow> session" where
  "clearTimer s = s\<lparr>vtimer := NoTimer\<rparr>"

section \<open>Connecting and sending\<close>

text \<open>The map's handler of \<open>docloaded\<close> with status false.\<close>

definition docloaded_false :: "session \<Rightarrow> session" where
  "docloaded_false s =
     (let s = (fire ''docloaded'' [(''status'', JBool False)] s)\<lparr>docLoaded := False\<rparr>;
          s = (if hasDocLayer s then called ''_docLayer.clearAnnotations'' s else s)
      in called ''initializeModificationIndicator'' s)"

text \<open>\<open>L.Socket.close\<close>\<close>

definition sock_close :: "session \<Rightarrow> session" where
  "sock_close s =
     (let s = s\<lparr>attached := False,
                readyState := (if readyState s = Some Closed then Some Closed else Some Closing)\<rparr>;
          s = called ''wopi.resetAppLoaded'' s;
          s = docloaded_false s
      in s\<lparr>tokenTimer := False\<rparr>)"

text \<open>\<open>L.Socket.connect\<close>\<close>

definition connect :: "sconf \<Rightarrow> session \<Rightarrow> session" where
  "connect cf s =
     (let s = (if readyState s \<noteq> None then sock_close s else s)
      in if refuseSocket cf then
           fire ''error'' [(''cmd'', JStr ''socket''), (''kind'', JStr ''failed''), (''id'', JInt 3)] s
         else
           (let s = called ''new WebSocket'' (s\<lparr>readyState := Some Connecting, attached := True\<rparr>)
            in if tokenTtl cf \<noteq> None then s\<lparr>tokenTimer := True\<rparr> else s))"

text \<open>\<open>L.Map.loadDocument\<close>\<close>

definition loadDocument :: "sconf \<Rightarrow> session \<Rightarrow> session" where
  "loadDocument cf s = called ''removeObjectFocusDarkOverlay'' (connect cf s)"

text \<open>\<open>L.Socket._doSend\<close>\<close>

definition doSend :: "string \<Rightarrow> session \<Rightarrow> session" where
  "doSend msg s = emit (Sent msg) s"

text \<open>\<open>L.Socket.sendMessage\<close> on a text message; \<open>socketState\<close> is read before \<open>loadDocument\<close>.
  Without a socket object the read of \<open>readyState\<close> throws.\<close>

definition sendMessage :: "sconf \<Rightarrow> string \<Rightarrow> session \<Rightarrow> session" where
  "sendMessage cf msg s =
     (if fatal s then s
      else if \<not> active s \<and> \<not> startsWith msg ''useractive'' \<and> \<not> startsWith msg ''userinactive'' then s
      else if readyState s = None then called ''TypeError'' s
      else
        let socketState = readyState s;
            s = (if socketState = Some Closing \<or> socketState = Some Closed then loadDocument cf s else s)
        in if socketState = Some Open then emit (Sent msg) s
           else s\<lparr>msgQueue := msgQueue s @ [msg]\<rparr>)"

section \<open>Activity\<close>

definition startInactiveTimer :: "session \<Rightarrow> session" where
  "startInactiveTimer s =
     (if serverRecycling s \<or> documentIdle s \<or> \<not> docLoaded s then s
      else (clearTimer s)\<lparr>vtimer := InactiveTimer\<rparr>)"

definition focus_if_desktop :: "sconf \<Rightarrow> session \<Rightarrow> session" where
  "focus_if_desktop cf s = (if isMobile cf then s else called ''focus'' s)"

text \<open>\<open>L.Map._activate\<close>\<close>

definition activate :: "sconf \<Rightarrow> session \<Rightarrow> session" where
  "activate cf s =
     (if serverRecycling s \<or> documentIdle s then s
      else
        let s = clearTimer s
        in if active s then focus_if_desktop cf (startInactiveTimer s)
           else if \<not> connected s then focus_if_desktop cf (startInactiveTimer (loadDocument cf s))
           else
             let s = (sendMessage cf ''useractive'' s)\<lparr>active := True\<rparr>;
                 s = (if hasDocLayer s
                      then called ''_docLayer._requestNewTiles'' (called ''_docLayer._resetClientVisArea'' s)
                      else s)
             in if dialogID s > 0 then
                  (if \<not> dialogClosable cf then s
                   else
                     let i = dialogID s
                     in vex_close i (focus_if_desktop cf (startInactiveTimer (s\<lparr>dialogID := -1\<rparr>))))
                else focus_if_desktop cf (startInactiveTimer s))"

text \<open>\<open>L.Map._dim\<close>, at time \<open>now\<close> with the document hidden or not. The test
  \<open>this._doclayer\<close> reads a field that is never set (the layer is \<open>_docLayer\<close>), so the text
  selection is not cleared.\<close>

definition dim :: "sconf \<Rightarrow> int \<Rightarrow> bool \<Rightarrow> session \<Rightarrow> session" where
  "dim cf now hidden s =
     (if alwaysActive cf \<or> \<not> connected s then s
      else
        let s = clearTimer s;
            inactiveMs = now - lastActiveTime s;
            multiplier = (if hidden then 1 else 4)
        in if inactiveMs \<le> outOfFocusTimeoutSecs cf * 1000 * multiplier then s\<lparr>vtimer := DimTimer\<rparr>
           else
             let s = s\<lparr>active := False\<rparr>;
                 msg = (if disableInactiveMessages cf then ''''
                        else ''Inactive document - please click to resume editing'');
                 s = openDialog msg s;
                 s = fire ''postMessage'' [(''msgId'', JStr ''User_Idle'')] s
             in sendMessage cf ''userinactive'' s)"

definition notifyActive :: "int \<Rightarrow> session \<Rightarrow> session" where
  "notifyActive now s = s\<lparr>lastActiveTime := now\<rparr>"

definition dimIfInactive :: "sconf \<Rightarrow> int \<Rightarrow> bool \<Rightarrow> session \<Rightarrow> session" where
  "dimIfInactive cf now hidden s =
     (if docLoaded s \<and> now - lastActiveTime s \<ge> idleTimeoutSecs cf * 1000
      then dim cf now hidden s else startInactiveTimer s)"

text \<open>\<open>L.Map._deactivate\<close>\<close>

definition deactivate :: "sconf \<Rightarrow> session \<Rightarrow> session" where
  "deactivate cf s =
     (if serverRecycling s \<or> documentIdle s \<or> \<not> docLoaded s then s
      else
        let s = clearTimer s
        in if \<not> active s \<or> dialogID s > 0 then
             (let s = s\<lparr>active := False\<rparr>;
                  s = (if hasDocLayer s
                       then emit (Called ''_docLayer._onMessage'' [JStr ''textselection:'']) s else s)
              in if connected s then sendMessage cf ''userinactive'' s else s)
           else s\<lparr>vtimer := DimTimer\<rparr>)"

text \<open>The map's handler of \<open>docloaded\<close> with status true.\<close>

definition docloaded_true :: "sconf \<Rightarrow> int \<Rightarrow> bool \<Rightarrow> session \<Rightarrow> session" where
  "docloaded_true cf now hasFocus s =
     (let s = (fire ''docloaded'' [(''status'', JBool True)] s)\<lparr>docLoaded := True, lastActiveTime := now\<rparr>;
          s = (if hasFocus then activate cf s else deactivate cf s)
      in called ''initializeModificationIndicator'' s)"

section \<open>What the operations keep\<close>

text \<open>An open socket has no waiting messages.\<close>

definition queue_inv :: "session \<Rightarrow> bool" where
  "queue_inv s \<longleftrightarrow> (connected s \<longrightarrow> msgQueue s = [])"

lemmas session_defs [js_defs] =
  emit_def connected_def vex_close_def closeDialog_def openDialog_def clearTimer_def
  docloaded_false_def sock_close_def connect_def loadDocument_def doSend_def sendMessage_def
  startInactiveTimer_def focus_if_desktop_def Let_def

lemma emit_sel [simp]:
  "fatal (emit e s) = fatal s" "active (emit e s) = active s" "readyState (emit e s) = readyState s"
  "msgQueue (emit e s) = msgQueue s" "serverRecycling (emit e s) = serverRecycling s"
  "documentIdle (emit e s) = documentIdle s" "docLoaded (emit e s) = docLoaded s"
  "hasDocLayer (emit e s) = hasDocLayer s" "dialogID (emit e s) = dialogID s"
  "globalID (emit e s) = globalID s" "vtimer (emit e s) = vtimer s" "log (emit e s) = log s @ [e]"
  "attached (emit e s) = attached s" "reconnecting (emit e s) = reconnecting s"
  "perm (emit e s) = perm s" "dragging (emit e s) = dragging s" "permissionOpt (emit e s) = permissionOpt s"
  "reconnectCount (emit e s) = reconnectCount s" "lastActiveTime (emit e s) = lastActiveTime s"
  by (simp_all add: emit_def)

lemma sock_close_sel [simp]:
  "msgQueue (sock_close s) = msgQueue s" "fatal (sock_close s) = fatal s" "active (sock_close s) = active s"
  "sent_of (log (sock_close s)) = sent_of (log s)" "\<not> connected (sock_close s)"
  "docLoaded (sock_close s) = False" "serverRecycling (sock_close s) = serverRecycling s"
  "documentIdle (sock_close s) = documentIdle s" "dialogID (sock_close s) = dialogID s"
  "perm (sock_close s) = perm s" "hasDocLayer (sock_close s) = hasDocLayer s"
  by (simp_all add: sock_close_def docloaded_false_def connected_def Let_def)

lemma loadDocument_sel [simp]:
  "msgQueue (loadDocument cf s) = msgQueue s" "fatal (loadDocument cf s) = fatal s"
  "active (loadDocument cf s) = active s" "sent_of (log (loadDocument cf s)) = sent_of (log s)"
  "\<not> connected (loadDocument cf s)"
  "serverRecycling (loadDocument cf s) = serverRecycling s"
  "documentIdle (loadDocument cf s) = documentIdle s" "dialogID (loadDocument cf s) = dialogID s"
  "perm (loadDocument cf s) = perm s" "hasDocLayer (loadDocument cf s) = hasDocLayer s"
  by (simp_all add: loadDocument_def connect_def connected_def Let_def)
    (simp add: sock_close_def docloaded_false_def Let_def)

text \<open>Every message a call of \<open>sendMessage\<close> accepts is sent at once or queued, in order.\<close>

definition accepts :: "session \<Rightarrow> string \<Rightarrow> bool" where
  "accepts s msg \<longleftrightarrow>
     readyState s \<noteq> None \<and> \<not> fatal s \<and> (active s \<or> startsWith msg ''useractive'' \<or> startsWith msg ''userinactive'')"

lemma connected_upd [simp]:
  "connected (s\<lparr>msgQueue := q\<rparr>) = connected s" "connected (s\<lparr>active := b\<rparr>) = connected s"
  "connected (s\<lparr>vtimer := t\<rparr>) = connected s" "connected (s\<lparr>dialogID := i\<rparr>) = connected s"
  "connected (s\<lparr>fatal := b\<rparr>) = connected s" "connected (emit e s) = connected s"
  by (simp_all add: connected_def)

lemma sendMessage_dropped:
  "\<not> accepts s msg \<Longrightarrow> sendMessage cf msg s = s \<or> sendMessage cf msg s = called ''TypeError'' s"
  by (auto simp: accepts_def sendMessage_def)

lemma sendMessage_open: "accepts s msg \<Longrightarrow> connected s \<Longrightarrow> sendMessage cf msg s = emit (Sent msg) s"
  by (auto simp: accepts_def sendMessage_def connected_def Let_def)

lemma sendMessage_waiting:
  assumes "accepts s msg" "\<not> connected s"
  shows "msgQueue (sendMessage cf msg s) = msgQueue s @ [msg] \<and>
     sent_of (log (sendMessage cf msg s)) = sent_of (log s) \<and> \<not> connected (sendMessage cf msg s)"
proof -
  from assms(2) have "readyState s \<noteq> Some Open" by (simp add: connected_def)
  with assms show ?thesis by (auto simp: accepts_def sendMessage_def Let_def)
qed

lemma sendMessage_sel [simp]:
  "fatal (sendMessage cf m s) = fatal s" "active (sendMessage cf m s) = active s"
  "serverRecycling (sendMessage cf m s) = serverRecycling s"
  "documentIdle (sendMessage cf m s) = documentIdle s" "dialogID (sendMessage cf m s) = dialogID s"
  "perm (sendMessage cf m s) = perm s" "hasDocLayer (sendMessage cf m s) = hasDocLayer s"
  by (simp_all add: sendMessage_def Let_def)

lemma queue_inv_emit [simp]: "queue_inv (emit e s) = queue_inv s"
  by (simp add: queue_inv_def connected_def)

lemma queue_inv_loadDocument [simp]: "queue_inv (loadDocument cf s)"
  by (simp add: queue_inv_def)

lemma queue_inv_sendMessage [simp]:
  assumes "queue_inv s"
  shows "queue_inv (sendMessage cf m s)"
proof (cases "accepts s m")
  case True
  then show ?thesis
  proof (cases "connected s")
    case op: True
    with True assms show ?thesis by (simp add: sendMessage_open)
  next
    case False
    with sendMessage_waiting [OF True False] show ?thesis by (simp add: queue_inv_def)
  qed
next
  case False
  from sendMessage_dropped [OF this, of cf] assms show ?thesis
    by (elim disjE) simp_all
qed

end
