(* ===== verification/Permission.thy ===== *)
theory Permission
  imports Session
begin

text \<open>
  \<open>loleaflet/src/control/Permission.js\<close>: edit and read-only mode. An uncaught exception (a
  method call on a document layer that does not exist yet) ends the handler: the boolean
  result says whether the function returned.
\<close>

definition isEditInOdfFormat :: "sconf \<Rightarrow> bool" where
  "isEditInOdfFormat cf \<longleftrightarrow> saveToOdf cf \<in> {''odt'', ''ods'', ''odp''}"

text \<open>\<open>L.Map.sendInitUNOCommands\<close>\<close>

definition sendInitUNOCommands :: "sconf \<Rightarrow> session \<Rightarrow> session \<times> bool" where
  "sendInitUNOCommands cf s =
     (let s = sendMessage cf ''commandvalues command=.uno:LanguageStatus'' s;
          s = sendMessage cf ''commandvalues command=.uno:ViewAnnotations'' s;
          s = emit (Fired ''updaterowcolumnheaders'' JUndef) s
      in if hasDocLayer s then (called ''_docLayer._getToolbarCommandsValues'' s, True)
         else (called ''TypeError'' s, False))"

text \<open>\<open>_enterEditMode\<close>\<close>

definition enterEditMode :: "sconf \<Rightarrow> string \<Rightarrow> session \<Rightarrow> session" where
  "enterEditMode cf p s =
     (let (s, ok) =
        (if perm s = ''readonly'' \<and> (isMobile cf \<or> isEditInOdfFormat cf)
         then sendInitUNOCommands cf s else (s, True))
      in if \<not> ok then s
         else
           let s = sendMessage cf ''requestloksession'' (s\<lparr>perm := p\<rparr>);
               s = (if isTouch cf then s else s\<lparr>dragging := False\<rparr>)
           in fire ''updatepermission'' [(''perm'', JStr p)] s)"

text \<open>\<open>_enterReadOnlyMode\<close>\<close>

definition enterReadOnlyMode :: "string \<Rightarrow> session \<Rightarrow> session" where
  "enterReadOnlyMode p s =
     (let s = s\<lparr>perm := p, dragging := True\<rparr>
      in if \<not> hasDocLayer s then called ''TypeError'' s
         else
           let s = called ''_docLayer._onUpdateCursor'' s;
               s = called ''_docLayer._clearSelections'' s;
               s = called ''_docLayer._onUpdateTextSelection'' s
           in fire ''updatepermission'' [(''perm'', JStr p)] s)"

text \<open>\<open>setPermission\<close>\<close>

definition setPermission :: "sconf \<Rightarrow> string \<Rightarrow> session \<Rightarrow> session" where
  "setPermission cf p s =
     (if p = ''edit'' then
        (let editInOdf = isEditInOdfFormat cf
         in if isMobile cf \<or> editInOdf then
              (if editInOdf \<and> \<not> documentOwner cf then enterReadOnlyMode ''readonly'' s
               else enterReadOnlyMode ''readonly'' (s\<lparr>editButton := True\<rparr>))
            else enterEditMode cf p s)
      else if p = ''view'' \<or> p = ''readonly'' then
        enterReadOnlyMode p (if isMobile cf then s\<lparr>editButton := False\<rparr> else s)
      else s)"

text \<open>The click on the edit button that \<open>setPermission\<close> shows. \<open>newName\<close> is the name the
  document is saved as in the ODF format.\<close>

definition editButtonClick :: "sconf \<Rightarrow> string \<Rightarrow> session \<Rightarrow> session" where
  "editButtonClick cf newName s =
     (if \<not> editButton s then s
      else
        let s = enterEditMode cf ''edit'' (s\<lparr>editButton := False\<rparr>);
            s = emit (Fired ''editorgotfocus'' JUndef) s;
            s = called ''focus'' s
        in if isEditInOdfFormat cf then emit (Called ''saveAs'' [JStr newName]) s else s)"

definition enableSelection :: "sconf \<Rightarrow> session \<Rightarrow> session" where
  "enableSelection cf s =
     (if perm s = ''edit'' then s
      else (sendMessage cf ''requestloksession'' s)\<lparr>dragging := False\<rparr>)"

definition disableSelection :: "session \<Rightarrow> session" where
  "disableSelection s = (if perm s = ''edit'' then s else s\<lparr>dragging := True\<rparr>)"

definition isSelectionEnabled :: "session \<Rightarrow> bool" where
  "isSelectionEnabled s \<longleftrightarrow> \<not> dragging s"

lemmas permission_defs =
  setPermission_def enterEditMode_def enterReadOnlyMode_def sendInitUNOCommands_def
  enableSelection_def disableSelection_def editButtonClick_def

section \<open>Properties\<close>

lemma sendMessage_fired:
  "\<exists>es. log (sendMessage cf m s) = log s @ es \<and> ''updatepermission'' \<notin> set (fired_of es)"
proof -
  have "\<exists>es. log (loadDocument cf s) = log s @ es \<and> ''updatepermission'' \<notin> set (fired_of es)"
    by (auto simp: loadDocument_def connect_def sock_close_def docloaded_false_def emit_def Let_def)
  then show ?thesis by (auto simp: sendMessage_def emit_def Let_def)
qed

definition announces :: "session \<Rightarrow> session \<Rightarrow> bool" where
  "announces s s' \<longleftrightarrow> ''updatepermission'' \<in> set (fired_of (drop (length (log s)) (log s')))"

lemma announces_enterEdit:
  "perm s \<noteq> ''readonly'' \<or> \<not> (isMobile cf \<or> isEditInOdfFormat cf) \<Longrightarrow>
   perm (enterEditMode cf p s) = p \<and> announces s (enterEditMode cf p s)"
proof -
  assume h: "perm s \<noteq> ''readonly'' \<or> \<not> (isMobile cf \<or> isEditInOdfFormat cf)"
  obtain es where "log (sendMessage cf ''requestloksession'' (s\<lparr>perm := p\<rparr>)) = log s @ es"
    using sendMessage_fired [of cf "''requestloksession''" "s\<lparr>perm := p\<rparr>"] by auto
  with h show ?thesis by (auto simp: enterEditMode_def announces_def Let_def)
qed

lemma announces_readOnly:
  "perm (enterReadOnlyMode p s) = p \<and> dragging (enterReadOnlyMode p s) \<and>
   announces s (enterReadOnlyMode p s) = hasDocLayer s"
  by (simp add: enterReadOnlyMode_def announces_def emit_def Let_def)

lemma announces_upd [simp]:
  "announces (s\<lparr>editButton := b\<rparr>) t = announces s t"
  by (simp add: announces_def)

definition edits_directly :: "sconf \<Rightarrow> bool" where
  "edits_directly cf \<longleftrightarrow> \<not> isMobile cf \<and> \<not> isEditInOdfFormat cf"

lemma editButton_sendMessage [simp]: "editButton (sendMessage cf m s) = editButton s"
  by (simp add: sendMessage_def loadDocument_def connect_def sock_close_def docloaded_false_def emit_def Let_def)

lemma editButton_modes:
  "editButton (enterReadOnlyMode p s) = editButton s"
  "edits_directly cf \<Longrightarrow> editButton (enterEditMode cf p s) = editButton s"
  by (simp_all add: enterReadOnlyMode_def enterEditMode_def edits_directly_def emit_def Let_def)

text \<open>
  the mode \<open>setPermission\<close> ends in. Only a desktop document that is not converted on saving
  is editable at once; on a mobile device, or for the owner of such a document, \<open>edit\<close> opens
  read-only with the edit button. The controls hear of the mode, except when a read-only mode
  is set before the document layer exists.
\<close>

theorem setPermission_mode:
  "perm (setPermission cf p s) =
     (if p = ''edit'' then if edits_directly cf then ''edit'' else ''readonly''
      else if p = ''view'' \<or> p = ''readonly'' then p else perm s) \<and>
   announces s (setPermission cf p s) =
     (p = ''edit'' \<and> edits_directly cf \<or> p \<in> {''edit'', ''view'', ''readonly''} \<and> hasDocLayer s) \<and>
   editButton (setPermission cf p s) =
     (if p = ''edit'' then (if edits_directly cf \<or> isEditInOdfFormat cf \<and> \<not> documentOwner cf then editButton s else True)
      else if p = ''view'' \<or> p = ''readonly'' then editButton s \<and> \<not> isMobile cf else editButton s)"
proof -
  have n: "announces s s = False" by (simp add: announces_def)
  have r: "announces s (enterReadOnlyMode q (s\<lparr>editButton := x\<rparr>)) = hasDocLayer s" for q x
    using announces_readOnly [of q "s\<lparr>editButton := x\<rparr>"] by simp
  show ?thesis
  proof (cases "p = ''edit''")
    case True
    show ?thesis
    proof (cases "edits_directly cf")
      case d: True
      then show ?thesis using True announces_enterEdit [of s cf p] editButton_modes(2) [OF d, of p s]
        by (auto simp: setPermission_def edits_directly_def Let_def)
    next
      case False
      then show ?thesis using True announces_readOnly [of "''readonly''" s] r
          announces_readOnly [of "''readonly''" "s\<lparr>editButton := True\<rparr>"]
        by (auto simp: setPermission_def edits_directly_def Let_def editButton_modes)
    qed
  next
    case False
    then show ?thesis using announces_readOnly [of p s] r n announces_readOnly [of p "s\<lparr>editButton := False\<rparr>"]
      by (auto simp: setPermission_def Let_def editButton_modes)
  qed
qed

end
