(* ===== verification/SocketMsg.thy ===== *)
theory SocketMsg
  imports Permission
begin

text \<open>
  The socket's event handlers in \<open>loleaflet/src/core/Socket.js\<close>: \<open>_onSocketOpen\<close>,
  \<open>_onSocketClose\<close>, \<open>_onSocketError\<close> and \<open>_onMessage\<close> on text messages, the callbacks of
  \<open>vex.timer\<close>, and the session as a machine driven by these events. Messages with a JSON
  payload hand the text after its first brace to the part that reads it. Binary frames (tile
  images) only pass through to the document layer.
\<close>

section \<open>Opening and closing\<close>

text \<open>\<open>encodeURIComponent\<close> on a string of bytes (UTF-8).\<close>

definition uri_unreserved :: "char \<Rightarrow> bool" where
  "uri_unreserved c \<longleftrightarrow>
     is_digit c \<or> (65 \<le> char_code c \<and> char_code c \<le> 90) \<or> (97 \<le> char_code c \<and> char_code c \<le> 122) \<or>
     c \<in> {CHR ''-'', CHR ''_'', CHR ''.'', CHR ''!'', CHR ''~'', CHR ''*'', CHR 0x27, CHR ''('', CHR '')''}"

definition hex_digit :: "nat \<Rightarrow> char" where
  "hex_digit n = (if n < 10 then char_of (48 + n) else char_of (55 + n))"

definition encodeURIComponent :: "string \<Rightarrow> string" where
  "encodeURIComponent s =
     concat (map (\<lambda>c. if uri_unreserved c then [c]
       else [CHR ''%'', hex_digit (char_code c div 16), hex_digit (char_code c mod 16)]) s)"

definition opt_part :: "string \<Rightarrow> string option \<Rightarrow> string" where
  "opt_part key v = (case v of None \<Rightarrow> '''' | Some t \<Rightarrow> key @ t)"

text \<open>The \<open>load\<close> message; \<open>part\<close> is the current part when the layer exists.\<close>

definition loadMessage :: "sconf \<Rightarrow> int \<Rightarrow> session \<Rightarrow> string" where
  "loadMessage cf part s =
     ''load url='' @ encodeURIComponent (doc cf)
     @ (if hasDocLayer s then '' part='' @ show_int part else '''')
     @ opt_part '' timestamp='' (timestamp cf)
     @ opt_part '' password=''
         (case docPassword s of Some w \<Rightarrow> if w = [] then None else Some (encodeURIComponent w) | None \<Rightarrow> None)
     @ opt_part '' lang='' (slocale cf)
     @ opt_part '' options='' (renderingOptions cf)
     @ opt_part '' timezone='' (timezone cf)
     @ opt_part '' timezoneOffset='' (timezoneOffset cf)"

text \<open>\<open>_onSocketOpen\<close>\<close>

definition onSocketOpen :: "sconf \<Rightarrow> int \<Rightarrow> session \<Rightarrow> session" where
  "onSocketOpen cf part s =
     (let s = s\<lparr>serverRecycling := False, documentIdle := False\<rparr>;
          s = doSend ''loolclient 0.1'' s;
          msg = loadMessage cf part s;
          s = (if hasDocLayer s then s\<lparr>reconnecting := True\<rparr> else s);
          s = doSend msg s;
          s = fold doSend (msgQueue s) s;
          s = s\<lparr>msgQueue := []\<rparr>
      in activate cf s)"

definition hideBusy :: "session \<Rightarrow> session" where
  "hideBusy s = called ''_progressBar.end'' (emit (Fired ''hidebusy'' JUndef) s)"

definition onSocketError :: "session \<Rightarrow> session" where
  "onSocketError s = hideBusy s"

definition layer_reset :: "session \<Rightarrow> session" where
  "layer_reset s =
     (if hasDocLayer s
      then called ''_docLayer._resetClientVisArea'' (called ''_docLayer.removeAllViews'' s) else s)"

text \<open>\<open>_onSocketClose\<close>\<close>

definition onSocketClose :: "sconf \<Rightarrow> session \<Rightarrow> session" where
  "onSocketClose cf s =
     (let isActive = active s;
          s = (hideBusy s)\<lparr>active := False\<rparr>;
          s = layer_reset s;
          s = (if isActive \<and> reconnecting s
               then fire ''error'' [(''cmd'', JStr ''socket''), (''kind'', JStr ''closed''), (''id'', JInt 4)] s
               else s);
          s = called ''wopi.resetAppLoaded'' s;
          s = docloaded_false s
      in if reconnecting s then s else activate cf (s\<lparr>reconnecting := True\<rparr>))"

section \<open>Messages\<close>

text \<open>The \<open>close:\<close> message: reason, text shown, whether the document is reloaded.\<close>

definition close_text :: "string \<Rightarrow> string" where
  "close_text t =
     (if t = ''ownertermination'' then ''Session terminated by document owner''
      else if t = ''idle'' \<or> t = ''oom'' then ''Idle document - please click to reload and resume editing''
      else if t = ''shuttingdown'' then ''Server is shutting down for maintenance (auto-saving)''
      else if t = ''docdisconnected'' then ''Oops, there is a problem connecting the document''
      else if t = ''recycling'' then ''Server is recycling and will be available shortly''
      else if startsWith t ''documentconflict'' then
        ''Document has changed in storage. Loading the new document. Your version is available as revision.''
      else if startsWith t ''versionrestore:'' \<and> js_trim (drop 15 t) = ''prerestore_ack'' then
        ''Restoring older revision. Any unsaved changes will be available in version history''
      else '''')"

definition close_reason :: "string \<Rightarrow> string option" where
  "close_reason t =
     (if t = ''ownertermination'' then Some ''OwnerTermination''
      else if t = ''oom'' then Some ''OOM''
      else if t = ''idle'' then Some ''DocumentIdle''
      else if t = ''shuttingdown'' then Some ''ShuttingDown''
      else if t = ''docdisconnected'' then Some ''DocumentDisconnected''
      else None)"

definition close_reload :: "string \<Rightarrow> bool" where
  "close_reload t \<longleftrightarrow>
     startsWith t ''documentconflict'' \<or>
     (startsWith t ''versionrestore:'' \<and> js_trim (drop 15 t) = ''prerestore_ack'')"

definition onClose :: "sconf \<Rightarrow> string \<Rightarrow> session \<Rightarrow> session" where
  "onClose cf t s =
     (let t' = (if startsWith t ''versionrestore:'' then js_trim (drop 15 t) else t);
          s = (if t = ''idle'' \<or> t = ''oom'' then s\<lparr>documentIdle := True\<rparr> else s);
          s = (if t = ''recycling''
               then (clearTimer (s\<lparr>active := False, serverRecycling := True\<rparr>))\<lparr>vtimer := RecycleInterval\<rparr>
               else s);
          s = (if startsWith t ''versionrestore:'' \<and> close_reload t
               then fire ''postMessage'' [(''msgId'', JStr ''App_VersionRestore''),
                      (''args'', JObj [(''Status'', JStr ''Pre_Restore_Ack'')])] s
               else s);
          s = (if close_reload t
               then
                 let s = (if hasDocLayer s then called ''_docLayer.removeAllViews'' s else s);
                     s = (sock_close s)\<lparr>active := False\<rparr>
                 in (clearTimer s)\<lparr>vtimer := ActivateInterval 3000\<rparr>
               else s);
          s = closeDialog s;
          s = openDialog (if disableInactiveMessages cf then '''' else close_text t) s;
          s = (case close_reason t of None \<Rightarrow> s
               | Some r \<Rightarrow> fire ''postMessage'' [(''msgId'', JStr ''Session_Closed''),
                             (''args'', JObj [(''Reason'', JStr r)])] s)
      in if t' = ''ownertermination'' then called ''map.remove'' s else s)"

text \<open>The click on the dialog of an idle document.\<close>

definition idleClick :: "sconf \<Rightarrow> session \<Rightarrow> session" where
  "idleClick cf s = activate cf (s\<lparr>documentIdle := False\<rparr>)"

text \<open>Errors of the storage. A kind that \<open>errorMessages.storage\<close> does not have leaves the text
  undefined, and its \<open>replace\<close> throws.\<close>

definition storage_kinds :: "string set" where
  "storage_kinds =
     {''loadfailed'', ''savediskfull'', ''saveunauthorized'', ''savefailed'', ''code401'',
      ''code403'', ''code404'', ''code413'', ''code500'', ''code501''}"

definition onErrorStorage :: "string \<Rightarrow> session \<Rightarrow> session" where
  "onErrorStorage kind s =
     (let s = hideBusy s
      in if kind = ''documentconflict'' then
           (let s = closeDialog s;
                s = emit (Called ''vex.dialog.open'' [JStr ''documentconflict'']) (s\<lparr>globalID := globalID s + 1\<rparr>)
            in s\<lparr>dialogID := globalID s - 1\<rparr>)
         else
           let s = (if kind = ''loadfailed'' then sock_close s else s)
           in if kind \<in> storage_kinds
              then fire ''warn'' [(''msg'', JStr (''errorMessages.storage.'' @ kind))] s
              else called ''TypeError'' s)"

text \<open>The choice in the conflict dialog.\<close>

definition conflictChoice :: "sconf \<Rightarrow> string \<Rightarrow> string option \<Rightarrow> session \<Rightarrow> session" where
  "conflictChoice cf choice newName s =
     (if choice = ''discard'' then sendMessage cf ''closedocument'' s
      else if choice = ''overwrite'' then sendMessage cf ''savetostorage force=1'' s
      else if choice = ''saveas'' then
        (case newName of None \<Rightarrow> s | Some n \<Rightarrow> emit (Called ''saveAs'' [JStr n]) s)
      else s)"

definition onErrorInternal :: "string \<Rightarrow> session \<Rightarrow> session" where
  "onErrorInternal kind s =
     (let s = (hideBusy s)\<lparr>fatal := True\<rparr>;
          s = (if kind = ''diskfull'' then fire ''error'' [(''msg'', JStr ''errorMessages.diskfull'')] s
               else if kind = ''unauthorized'' then fire ''error'' [(''msg'', JStr ''errorMessages.unauthorized'')] s
               else s);
          s = layer_reset s
      in sock_close s)"

text \<open>Errors of loading; the result says whether the message still goes to the layer.\<close>

definition onErrorLoad :: "string \<Rightarrow> session \<Rightarrow> session \<times> bool" where
  "onErrorLoad kind s =
     (let s = sock_close (hideBusy s)
      in if startsWith kind ''passwordrequired'' \<or> startsWith kind ''wrongpassword'' then
           (called ''L.dialog.prompt'' s, False)
         else if startsWith kind ''faileddocloading'' then
           (fire ''error'' [(''msg'', JStr ''errorMessages.faileddocloading'')] (s\<lparr>fatal := True\<rparr>), True)
         else if startsWith kind ''docloadtimeout'' then
           (fire ''error'' [(''msg'', JStr ''errorMessages.docloadtimeout'')] (s\<lparr>fatal := True\<rparr>), True)
         else if startsWith kind ''docunloading'' then
           (let s = clearTimer (s\<lparr>active := False\<rparr>);
                n = reconnectCount s;
                s = s\<lparr>reconnectCount := n + 1\<rparr>
            in if n \<ge> 10 then (s, False) else (s\<lparr>vtimer := ActivateInterval 1000\<rparr>, True))
         else (s, True))"

text \<open>The answer to the password prompt: a password, or cancelled (with the kind asked for).\<close>

definition passwordAnswer :: "sconf \<Rightarrow> string option \<Rightarrow> bool \<Rightarrow> session \<Rightarrow> session" where
  "passwordAnswer cf answer toModify s =
     (case answer of
        Some w \<Rightarrow> loadDocument cf (s\<lparr>docPassword := Some w\<rparr>)
      | None \<Rightarrow>
          if toModify then loadDocument cf (s\<lparr>docPassword := Some ''''\<rparr>)
          else called ''map.remove'' (called ''postMessage UI_Close'' (called ''postMessage close'' s)))"

text \<open>An error before the layer exists; the text shown is what the tail goes on with.\<close>

definition onErrorNoLayer :: "string option \<Rightarrow> string \<Rightarrow> session \<Rightarrow> session \<times> string" where
  "onErrorNoLayer kind t s =
     (let msg = (if kind = Some ''hardlimitreached'' then ''errorMessages.limitreachedprod''
                 else if kind = Some ''serviceunavailable'' then ''errorMessages.serviceunavailable''
                 else drop 6 t)
      in (fire ''error'' [(''msg'', JStr msg)] (s\<lparr>fatal := True, active := False\<rparr>), msg))"

definition onInfoSocket :: "string option \<Rightarrow> string \<Rightarrow> session \<Rightarrow> session \<times> string" where
  "onInfoSocket kind t s =
     (if kind = Some ''limitreached'' \<and> \<not> wasShownLimitDialog s
      then (fire ''infobar'' [(''msg'', JStr ''errorMessages.limitreached'')] (s\<lparr>wasShownLimitDialog := True\<rparr>),
            ''errorMessages.limitreached'')
      else (s, t))"

text \<open>\<open>saveas:\<close> and \<open>renamefile:\<close>: load the document at the new address. The options of the
  map change; the address is not part of this state.\<close>

definition onSaveAs :: "sconf \<Rightarrow> string option \<Rightarrow> session \<Rightarrow> session \<times> bool" where
  "onSaveAs cf url s =
     (let s = hideBusy s
      in case url of
           None \<Rightarrow> (s, True)
         | Some u \<Rightarrow>
             if u = [] then (s, True)
             else sendInitUNOCommands cf (loadDocument cf (emit (Called ''options.doc'' [JStr u]) (sock_close s))))"

definition showBusy :: "session \<Rightarrow> session" where
  "showBusy s = (if hasDocLayer s then emit (Fired ''showbusy'' (JObj [(''label'', JStr ''Connecting...'')])) s
     else called ''_progressBar.delayedStart'' s)"

definition onStatusIndicator :: "string \<Rightarrow> session \<Rightarrow> session" where
  "onStatusIndicator t s =
     (let s = showBusy s
      in if startsWith t ''statusindicator: ready''
         then closeDialog (clearTimer (s\<lparr>reconnectCount := 0\<rparr>)) else s)"

text \<open>\<open>status:\<close>: the first one creates the document layer, one after a reconnect refreshes it.\<close>

definition onStatus :: "sconf \<Rightarrow> int \<Rightarrow> bool \<Rightarrow> command \<Rightarrow> session \<Rightarrow> session" where
  "onStatus cf now hasFocus c s =
     (let s =
        (if \<not> hasDocLayer s then
           (let kind = (if cmd_type c = Some ''text'' then ''WriterTileLayer''
                        else if cmd_type c = Some ''spreadsheet'' then ''CalcTileLayer''
                        else ''ImpressTileLayer'')
            in emit (Fired ''doclayerinit'' JUndef)
                 (emit (Called ''addLayer'' [JStr kind]) (s\<lparr>hasDocLayer := True\<rparr>)))
         else if reconnecting s then
           (let s = s\<lparr>reconnecting := False\<rparr>;
                s = called ''_docLayer._requestNewTiles'' (called ''_docLayer._resetClientVisArea'' s);
                s = fire ''statusindicator'' [(''statusType'', JStr ''reconnected'')] s
            in setPermission cf (permissionOpt s) s)
         else s)
      in docloaded_true cf now hasFocus s)"

text \<open>The last part of \<open>_onMessage\<close>.\<close>

definition onMessageTail :: "sconf \<Rightarrow> int \<Rightarrow> bool \<Rightarrow> command \<Rightarrow> string \<Rightarrow> session \<Rightarrow> session" where
  "onMessageTail cf now hasFocus c t s =
     (let s = (if startsWith t ''status:'' then onStatus cf now hasFocus c s else s)
      in if startsWith t ''statusindicatorstart:'' then
           fire ''statusindicator'' [(''statusType'', JStr ''start'')] s
         else if startsWith t ''statusindicatorsetvalue:'' then
           (case digit_runs t of
              [] \<Rightarrow> called ''TypeError'' s
            | v # _ \<Rightarrow> fire ''statusindicator'' [(''statusType'', JStr ''setvalue''), (''value'', JStr v)] s)
         else if startsWith t ''statusindicatorfinish:'' then
           called ''_fireInitComplete'' (fire ''statusindicator'' [(''statusType'', JStr ''finish'')] s)
         else if hasDocLayer s then emit (Called ''_docLayer._onMessage'' [JStr t]) s
         else s)"

text \<open>\<open>_onMessage\<close> on the text of a message (\<open>binary\<close>: the frame had bytes after it, the image).
  \<open>saved\<close> reads the JSON of a \<open>commandresult:\<close>: a successful \<open>savetostorage\<close>. The \<open>pong\<close> of the
  debug mode is not modelled.\<close>

definition json_part :: "string \<Rightarrow> string" where
  "json_part t = (let r = dropWhile (\<lambda>c. c \<noteq> CHR ''{'') t in if r = [] then t else r)"

definition onMessage ::
  "sconf \<Rightarrow> (string \<Rightarrow> bool) \<Rightarrow> int \<Rightarrow> bool \<Rightarrow> bool \<Rightarrow> command \<Rightarrow> string \<Rightarrow> session \<Rightarrow> session" where
  "onMessage cf saved now hasFocus binary c t s =
     (let kind = cmd_errorKind c; tl = onMessageTail cf now hasFocus c t
      in if startsWith t ''loolserver '' then tl (emit (Called ''loolserver'' [JStr (json_part t)]) s)
         else if startsWith t ''lokitversion '' then tl (emit (Called ''lokitversion'' [JStr (json_part t)]) s)
         else if startsWith t ''watermark:'' then tl (emit (Called ''watermark'' [JStr (json_part t)]) s)
         else if startsWith t ''perm:'' then setPermission cf (drop 5 t) (s\<lparr>permissionOpt := ''readonly''\<rparr>)
         else if startsWith t ''wopi: '' then emit (Fired ''wopiprops'' (JStr (json_part t))) s
         else if startsWith t ''lastmodtime: '' then
           emit (Called ''updateModificationIndicator'' [JStr (drop 13 t)]) s
         else if startsWith t ''commandresult: '' then
           (if saved (json_part t) then closeDialog s else s)
         else if startsWith t ''close: '' then onClose cf (drop 7 t) s
         else if startsWith t ''error:'' \<and> cmd_errorCmd c = Some ''storage'' then
           onErrorStorage (case kind of None \<Rightarrow> ''undefined'' | Some k \<Rightarrow> k) s
         else if startsWith t ''error:'' \<and> cmd_errorCmd c = Some ''internal'' then
           onErrorInternal (case kind of None \<Rightarrow> '''' | Some k \<Rightarrow> k) s
         else if startsWith t ''error:'' \<and> cmd_errorCmd c = Some ''saveas'' then tl (hideBusy s)
         else if startsWith t ''error:'' \<and> cmd_errorCmd c = Some ''load'' then
           (case kind of
              None \<Rightarrow> called ''TypeError'' (sock_close (hideBusy s))
            | Some k \<Rightarrow> (let (s', go) = onErrorLoad k s in if go then tl s' else s'))
         else if startsWith t ''error:'' \<and> \<not> hasDocLayer s then
           (let (s', t') = onErrorNoLayer kind t s in onMessageTail cf now hasFocus c t' s')
         else if startsWith t ''info:'' \<and> cmd_errorCmd c = Some ''socket'' then
           (let (s', t') = onInfoSocket kind t s in onMessageTail cf now hasFocus c t' s')
         else if startsWith t ''saveas:'' \<or> startsWith t ''renamefile:'' then
           (let (s', go) = onSaveAs cf (cmd_url c) s in if go then tl s' else s')
         else if startsWith t ''statusindicator:'' then tl (onStatusIndicator t s)
         else if \<not> binary \<and> (startsWith t ''tile:'' \<or> startsWith t ''renderfont:'' \<or> startsWith t ''windowpaint:'')
           then called ''TypeError'' s
         else tl s)"


section \<open>The session as a machine\<close>

text \<open>The callback of \<open>vex.timer\<close>; intervals stay armed, timeouts do not.\<close>

definition timerFires :: "sconf \<Rightarrow> int \<Rightarrow> bool \<Rightarrow> session \<Rightarrow> session" where
  "timerFires cf now hidden s =
     (case vtimer s of
        NoTimer \<Rightarrow> s
      | DimTimer \<Rightarrow> dim cf now hidden (s\<lparr>vtimer := NoTimer\<rparr>)
      | InactiveTimer \<Rightarrow> dimIfInactive cf now hidden (s\<lparr>vtimer := NoTimer\<rparr>)
      | RecycleInterval \<Rightarrow> if connected s then closeDialog (clearTimer s) else loadDocument cf s
      | ActivateInterval ms \<Rightarrow> activate cf s)"

datatype sevent =
    SockOpen int
  | SockClosed
  | SockError
  | Message bool string int bool   \<comment> \<open>binary, text, time, document has focus\<close>
  | TimerFires int bool
  | GotFocus
  | LostFocus
  | IdleClick
  | EditClick string
  | UserSends string
  | UserActs int
  | ConflictChoice string "string option"
  | PasswordAnswer "string option" bool

text \<open>One event. A socket only opens while it is connecting; the events of a detached or
  missing socket do nothing. \<open>parse\<close> is \<open>parseServerCmd\<close> with the current zoom.\<close>

definition sstep ::
  "sconf \<Rightarrow> (string \<Rightarrow> bool) \<Rightarrow> (string \<Rightarrow> command) \<Rightarrow> sevent \<Rightarrow> session \<Rightarrow> session" where
  "sstep cf saved parse e s =
     (case e of
        SockOpen part \<Rightarrow>
          if readyState s = Some Connecting then onSocketOpen cf part (s\<lparr>readyState := Some Open\<rparr>) else s
      | SockClosed \<Rightarrow>
          if readyState s = None then s
          else if attached s then onSocketClose cf (s\<lparr>readyState := Some Closed\<rparr>)
          else s\<lparr>readyState := Some Closed\<rparr>
      | SockError \<Rightarrow> if attached s then onSocketError s else s
      | Message binary t now hasFocus \<Rightarrow> if attached s then onMessage cf saved now hasFocus binary (parse t) t s else s
      | TimerFires t hidden \<Rightarrow> timerFires cf t hidden s
      | GotFocus \<Rightarrow> activate cf s
      | LostFocus \<Rightarrow> deactivate cf s
      | IdleClick \<Rightarrow> idleClick cf s
      | EditClick n \<Rightarrow> editButtonClick cf n s
      | UserSends m \<Rightarrow> sendMessage cf m s
      | UserActs t \<Rightarrow> notifyActive t s
      | ConflictChoice c n \<Rightarrow> conflictChoice cf c n s
      | PasswordAnswer a m \<Rightarrow> passwordAnswer cf a m s)"

section \<open>What every handler keeps\<close>

text \<open>
  A predicate kept by the primitive operations on a session is kept by every event but the
  opening of the socket. The lemmas are proved once, here; the invariants of the session are
  interpretations.
\<close>

locale session_pred =
  fixes P :: "session \<Rightarrow> bool"
  assumes P_emit: "P s \<Longrightarrow> (\<And>m. e \<noteq> Sent m) \<Longrightarrow> P (emit e s)"
    and P_send [simp]: "P s \<Longrightarrow> P (sendMessage cf m s)"
    and P_load [simp]: "P s \<Longrightarrow> P (loadDocument cf s)"
    and P_close [simp]: "P s \<Longrightarrow> P (sock_close s)"
    and P_closed [simp]: "P s \<Longrightarrow> P (s\<lparr>readyState := Some Closed\<rparr>)"
    and P_fatal [simp]: "P s \<Longrightarrow> P (s\<lparr>fatal := True\<rparr>)"
    and P_active [simp]: "P s \<Longrightarrow> P (s\<lparr>active := b\<rparr>)"
    and P_recycling [simp]: "P s \<Longrightarrow> P (s\<lparr>serverRecycling := b\<rparr>)"
    and P_idle [simp]: "P s \<Longrightarrow> P (s\<lparr>documentIdle := b\<rparr>)"
    and P_loaded [simp]: "P s \<Longrightarrow> P (s\<lparr>docLoaded := b\<rparr>)"
    and P_layer [simp]: "P s \<Longrightarrow> P (s\<lparr>hasDocLayer := b\<rparr>)"
    and P_time [simp]: "P s \<Longrightarrow> P (s\<lparr>lastActiveTime := n\<rparr>)"
    and P_reconnecting [simp]: "P s \<Longrightarrow> P (s\<lparr>reconnecting := b\<rparr>)"
    and P_count [simp]: "P s \<Longrightarrow> P (s\<lparr>reconnectCount := n\<rparr>)"
    and P_limit [simp]: "P s \<Longrightarrow> P (s\<lparr>wasShownLimitDialog := b\<rparr>)"
    and P_dialog [simp]: "P s \<Longrightarrow> P (s\<lparr>dialogID := n\<rparr>)"
    and P_global [simp]: "P s \<Longrightarrow> P (s\<lparr>globalID := n\<rparr>)"
    and P_timer [simp]: "P s \<Longrightarrow> P (s\<lparr>vtimer := t\<rparr>)"
    and P_password [simp]: "P s \<Longrightarrow> P (s\<lparr>docPassword := w\<rparr>)"
    and P_option [simp]: "P s \<Longrightarrow> P (s\<lparr>permissionOpt := p\<rparr>)"
    and P_perm [simp]: "P s \<Longrightarrow> P (s\<lparr>perm := p\<rparr>)"
    and P_dragging [simp]: "P s \<Longrightarrow> P (s\<lparr>dragging := b\<rparr>)"
    and P_button [simp]: "P s \<Longrightarrow> P (s\<lparr>editButton := b\<rparr>)"
begin

lemma P_log [simp]: "P s \<Longrightarrow> P (emit (Fired t v) s)" "P s \<Longrightarrow> P (emit (Called f w) s)"
  by (simp_all add: P_emit)

text \<open>Threading the state through a chain of \<open>let\<close>s, one binding at a time.\<close>

lemma P_LetI: "P s \<Longrightarrow> (\<And>x. P x \<Longrightarrow> P (f x)) \<Longrightarrow> P (Let s f)"
  by (simp add: Let_def)

lemma P_simple [simp]:
  "P s \<Longrightarrow> P (closeDialog s)" "P s \<Longrightarrow> P (openDialog c s)" "P s \<Longrightarrow> P (clearTimer s)"
  "P s \<Longrightarrow> P (hideBusy s)" "P s \<Longrightarrow> P (docloaded_false s)" "P s \<Longrightarrow> P (layer_reset s)"
  "P s \<Longrightarrow> P (vex_close i s)" "P s \<Longrightarrow> P (showBusy s)" "P s \<Longrightarrow> P (notifyActive n s)"
  "P s \<Longrightarrow> P (focus_if_desktop cf s)" "P s \<Longrightarrow> P (startInactiveTimer s)"
  by (simp_all add: closeDialog_def openDialog_def clearTimer_def hideBusy_def docloaded_false_def
      layer_reset_def vex_close_def showBusy_def notifyActive_def focus_if_desktop_def
      startInactiveTimer_def Let_def)

lemma P_activate [simp]: "P s \<Longrightarrow> P (activate cf s)"
  by (simp add: activate_def Let_def)

lemma P_dim [simp]: "P s \<Longrightarrow> P (dim cf now h s)"
  by (simp add: dim_def Let_def)

lemma P_deactivate [simp]: "P s \<Longrightarrow> P (deactivate cf s)"
  by (simp add: deactivate_def Let_def)

lemma P_activity [simp]:
  "P s \<Longrightarrow> P (dimIfInactive cf now h s)" "P s \<Longrightarrow> P (docloaded_true cf now f s)"
  by (simp_all add: dimIfInactive_def docloaded_true_def Let_def)

lemma P_sendInit [simp]: "P s \<Longrightarrow> P (fst (sendInitUNOCommands cf s))"
  by (simp add: sendInitUNOCommands_def Let_def)

lemma P_modes [simp]: "P s \<Longrightarrow> P (enterReadOnlyMode p s)" "P s \<Longrightarrow> P (enterEditMode cf p s)"
proof -
  assume s: "P s"
  then show "P (enterReadOnlyMode p s)" by (simp add: enterReadOnlyMode_def Let_def)
  from s P_sendInit [OF s, of cf] show "P (enterEditMode cf p s)"
    by (cases "sendInitUNOCommands cf s") (simp add: enterEditMode_def Let_def)
qed

lemma P_permission [simp]: "P s \<Longrightarrow> P (setPermission cf p s)" "P s \<Longrightarrow> P (editButtonClick cf p s)"
  by (simp_all add: setPermission_def editButtonClick_def Let_def)

lemma P_onSocketClose [simp]: "P s \<Longrightarrow> P (onSocketClose cf s)"
  by (simp add: onSocketClose_def Let_def)

lemma P_onClose [simp]: "P s \<Longrightarrow> P (onClose cf t s)"
  unfolding onClose_def
  by (subst Let_def) ((rule P_LetI, (simp add: Let_def split: option.splits) [1])+, simp)

lemma P_errors [simp]:
  "P s \<Longrightarrow> P (onErrorStorage k s)" "P s \<Longrightarrow> P (onErrorInternal k s)"
  "P s \<Longrightarrow> P (fst (onErrorLoad k s))" "P s \<Longrightarrow> P (fst (onErrorNoLayer k' t s))"
  "P s \<Longrightarrow> P (fst (onInfoSocket k' t s))"
  by (simp_all add: onErrorStorage_def onErrorInternal_def onErrorLoad_def onErrorNoLayer_def
      onInfoSocket_def Let_def)

lemma P_onSaveAs [simp]: "P s \<Longrightarrow> P (fst (onSaveAs cf u s))"
  by (cases u) (simp_all add: onSaveAs_def Let_def)

lemma P_onStatusIndicator [simp]: "P s \<Longrightarrow> P (onStatusIndicator t s)"
  by (simp add: onStatusIndicator_def Let_def)

lemma P_tail [simp]: "P s \<Longrightarrow> P (onMessageTail cf now f c t s)"
  by (simp add: onMessageTail_def onStatus_def Let_def split: list.splits)

lemma P_onMessage [simp]: "P s \<Longrightarrow> P (onMessage cf sv now f b c t s)"
  by (simp add: onMessage_def case_prod_unfold Let_def split: option.splits)

lemma P_timerFires [simp]: "P s \<Longrightarrow> P (timerFires cf now h s)"
  by (simp add: timerFires_def split: vtimer.splits)

lemma P_answers [simp]:
  "P s \<Longrightarrow> P (passwordAnswer cf a m s)" "P s \<Longrightarrow> P (conflictChoice cf c n s)"
  "P s \<Longrightarrow> P (idleClick cf s)"
  by (simp_all add: passwordAnswer_def conflictChoice_def idleClick_def split: option.splits)

lemma P_step: "P s \<Longrightarrow> (\<And>n. e \<noteq> SockOpen n) \<Longrightarrow> P (sstep cf sv parse e s)"
  by (simp add: sstep_def onSocketError_def split: sevent.splits)

end

text \<open>An open socket has no waiting messages: kept by the handlers and made by the opening.\<close>

interpretation qi: session_pred queue_inv
  by unfold_locales (simp_all add: queue_inv_def connected_def, simp_all add: queue_inv_def [symmetric] connected_def [symmetric])

text \<open>After a fatal error nothing more is sent: the texts sent so far are \<open>L\<close>.\<close>

definition mute :: "string list \<Rightarrow> session \<Rightarrow> bool" where
  "mute L s \<longleftrightarrow> fatal s \<and> sent_of (log s) = L"

lemma mute_emit: "mute L s \<Longrightarrow> (\<And>m. e \<noteq> Sent m) \<Longrightarrow> mute L (emit e s)"
  by (cases e) (auto simp: mute_def)

lemma mute_send: "mute L s \<Longrightarrow> mute L (sendMessage cf m s)"
  by (simp add: mute_def sendMessage_def)

interpretation mu: session_pred "mute L"
  by unfold_locales (simp_all add: mute_emit mute_send, simp_all add: mute_def)

lemma queue_inv_onSocketOpen: "queue_inv (onSocketOpen cf part s)"
proof -
  have "queue_inv (r\<lparr>msgQueue := []\<rparr>)" for r by (simp add: queue_inv_def)
  then show ?thesis unfolding onSocketOpen_def Let_def by (intro qi.P_activate)
qed

lemma sstep_queue_inv: "queue_inv s \<Longrightarrow> queue_inv (sstep cf sv parse e s)"
proof (cases "\<exists>n. e = SockOpen n")
  case True
  assume "queue_inv s"
  with True show ?thesis by (auto simp: sstep_def queue_inv_onSocketOpen)
next
  case False
  assume "queue_inv s"
  with False show ?thesis by (blast intro: qi.P_step)
qed

interpretation sess: event_machine "sstep cf sv parse" queue_inv
  by unfold_locales (rule sstep_queue_inv)

section \<open>Properties\<close>

text \<open>
  C2: in every run of the session from a state without an open socket, whatever the server, the
  user and the timers do, no message waits in the queue while the socket is open.
\<close>

theorem session_queue_flushed:
  assumes "readyState s \<noteq> Some Open"
  shows "readyState (fold (sstep cf sv parse) es s) = Some Open \<longrightarrow>
    msgQueue (fold (sstep cf sv parse) es s) = []"
proof -
  have "queue_inv s" using assms by (simp add: queue_inv_def connected_def)
  from sess.run_inv [OF this] show ?thesis by (simp add: queue_inv_def connected_def)
qed

text \<open>The session a page starts with, for the concrete instances.\<close>

definition start_session :: session where
  "start_session = \<lparr>fatal = False, active = True, serverRecycling = False, documentIdle = False,
     docLoaded = False, hasDocLayer = False, lastActiveTime = 0, reconnecting = False, readyState = None,
     attached = False, msgQueue = [], reconnectCount = 0, wasShownLimitDialog = False, tokenTimer = False,
     dialogID = -1, globalID = 1, vtimer = NoTimer, docPassword = None, permissionOpt = ''edit'',
     perm = ''readonly'', dragging = False, editButton = False, log = []\<rparr>"

definition default_conf :: sconf where
  "default_conf = \<lparr>refuseSocket = False, tokenTtl = None, alwaysActive = False, idleTimeoutSecs = 900,
     outOfFocusTimeoutSecs = 60, disableInactiveMessages = False, dialogClosable = True, isMobile = False,
     isTouch = False, saveToOdf = '''', documentOwner = True, doc = ''file.odt'', timestamp = None,
     slocale = None, renderingOptions = None, timezone = None, timezoneOffset = None\<rparr>"

lemma session_queue_flushed_witness:
  "readyState (fold (sstep default_conf (\<lambda>t. False) (\<lambda>t. empty_command)) [UserSends ''a'', SockOpen 0]
      (start_session\<lparr>readyState := Some Connecting\<rparr>)) = Some Open \<and>
   msgQueue (fold (sstep default_conf (\<lambda>t. False) (\<lambda>t. empty_command)) [UserSends ''a'', SockOpen 0]
      (start_session\<lparr>readyState := Some Connecting\<rparr>)) = []"
proof -
  let ?f = "fold (sstep default_conf (\<lambda>t. False) (\<lambda>t. empty_command)) [UserSends ''a'', SockOpen 0]
      (start_session\<lparr>readyState := Some Connecting\<rparr>)"
  have "readyState ?f = Some Open" by code_simp
  then show ?thesis
    using session_queue_flushed [of "start_session\<lparr>readyState := Some Connecting\<rparr>" default_conf
        "\<lambda>t. False" "\<lambda>t. empty_command" "[UserSends ''a'', SockOpen 0]"] by simp
qed

text \<open>
  C8: after a fatal error nothing more is sent in any run in which the socket does not open again,
  and the error stays fatal.
\<close>

theorem fatal_session_is_mute:
  assumes "fatal s" "\<forall>e \<in> set es. \<forall>n. e \<noteq> SockOpen n"
  shows "fatal (fold (sstep cf sv parse) es s) \<and>
    sent_of (log (fold (sstep cf sv parse) es s)) = sent_of (log s)"
proof -
  have "mute L s \<Longrightarrow> mute L (fold (sstep cf sv parse) es s)" for L
    using assms(2) by (induction es arbitrary: s) (simp_all add: mu.P_step)
  from this [of "sent_of (log s)"] assms(1) show ?thesis by (simp add: mute_def)
qed

lemma fatal_session_is_mute_witness:
  "fatal (fold (sstep default_conf (\<lambda>t. False) (\<lambda>t. empty_command)) [UserSends ''a'', GotFocus, IdleClick]
      (start_session\<lparr>fatal := True\<rparr>)) \<and>
   sent_of (log (fold (sstep default_conf (\<lambda>t. False) (\<lambda>t. empty_command)) [UserSends ''a'', GotFocus, IdleClick]
      (start_session\<lparr>fatal := True\<rparr>))) = sent_of (log (start_session\<lparr>fatal := True\<rparr>))"
  by (rule fatal_session_is_mute) simp_all

text \<open>The messages accepted so far, in order: those sent and those that wait.\<close>

definition outbox :: "session \<Rightarrow> string list" where
  "outbox s = sent_of (log s) @ msgQueue s"

text \<open>
  C7: \<open>sendMessage\<close> refines an outbox that only grows at its end: an accepted message is appended
  to what was sent or waits, and a message that is not accepted (fatal, inactive, no socket)
  changes nothing in it.
\<close>

theorem sendMessage_outbox:
  assumes "queue_inv s"
  shows "outbox (sendMessage cf m s) = (if accepts s m then outbox s @ [m] else outbox s)"
proof (cases "accepts s m")
  case True
  show ?thesis
  proof (cases "connected s")
    case op: True
    then show ?thesis using True assms by (simp add: sendMessage_open outbox_def queue_inv_def)
  next
    case False
    then show ?thesis using sendMessage_waiting [OF True False] True by (simp add: outbox_def)
  qed
next
  case False
  with sendMessage_dropped [OF False, of cf] show ?thesis by (auto simp: outbox_def)
qed

lemma sendMessage_outbox_witness:
  "outbox (sendMessage default_conf ''x'' (start_session\<lparr>readyState := Some Connecting\<rparr>)) =
     (if accepts (start_session\<lparr>readyState := Some Connecting\<rparr>) ''x''
      then outbox (start_session\<lparr>readyState := Some Connecting\<rparr>) @ [''x'']
      else outbox (start_session\<lparr>readyState := Some Connecting\<rparr>))"
  by (rule sendMessage_outbox) (simp add: queue_inv_def connected_def start_session_def)

lemma fold_doSend: "fold doSend ms s = s\<lparr>log := log s @ map Sent ms\<rparr>"
  by (induction ms arbitrary: s) (simp_all add: doSend_def emit_def)

lemma sent_of_map_Sent [simp]: "sent_of (map Sent ms) = ms"
  by (induction ms) simp_all

lemma clearTimer_sel [simp]:
  "fatal (clearTimer s) = fatal s" "active (clearTimer s) = active s" "log (clearTimer s) = log s"
  "readyState (clearTimer s) = readyState s" "msgQueue (clearTimer s) = msgQueue s"
  "hasDocLayer (clearTimer s) = hasDocLayer s" "dialogID (clearTimer s) = dialogID s"
  "connected (clearTimer s) = connected s"
  by (simp_all add: clearTimer_def)

lemma sent_tail [simp]:
  "sent_of (log (focus_if_desktop cf s)) = sent_of (log s)" "sent_of (log (startInactiveTimer s)) = sent_of (log s)"
  "sent_of (log (vex_close i s)) = sent_of (log s)"
  "msgQueue (focus_if_desktop cf s) = msgQueue s" "msgQueue (startInactiveTimer s) = msgQueue s"
  "msgQueue (vex_close i s) = msgQueue s"
  by (simp_all add: focus_if_desktop_def startInactiveTimer_def vex_close_def)

lemma activate_sent:
  assumes "connected s" "\<not> fatal s" "\<not> serverRecycling s" "\<not> documentIdle s"
  shows "sent_of (log (activate cf s)) = sent_of (log s) @ (if active s then [] else [''useractive''])"
    and "msgQueue (activate cf s) = msgQueue s"
proof -
  have a: "accepts (clearTimer s) ''useractive''"
    using assms by (simp add: accepts_def connected_def startsWith_def)
  from assms show "sent_of (log (activate cf s)) = sent_of (log s) @ (if active s then [] else [''useractive''])"
    and "msgQueue (activate cf s) = msgQueue s"
    by (simp_all add: activate_def Let_def sendMessage_open [OF a])
qed

text \<open>
  when the socket opens, the greeting, the load request and then every waiting message go out,
  in the order they were queued, followed by \<open>useractive\<close> if the session was inactive; the queue
  is empty afterwards.
\<close>

theorem socket_open_flushes_in_order:
  assumes "readyState s = Some Open" "\<not> fatal s"
  shows "sent_of (log (onSocketOpen cf part s)) =
      sent_of (log s) @ [''loolclient 0.1'', loadMessage cf part s] @ msgQueue s
        @ (if active s then [] else [''useractive'']) \<and>
    msgQueue (onSocketOpen cf part s) = []"
proof -
  have lm: "loadMessage cf part (doSend ''loolclient 0.1'' (s\<lparr>serverRecycling := False, documentIdle := False\<rparr>))
      = loadMessage cf part s"
    by (simp add: loadMessage_def doSend_def emit_def)
  let ?t = "(fold doSend (msgQueue s) (doSend (loadMessage cf part s)
      ((doSend ''loolclient 0.1'' (s\<lparr>serverRecycling := False, documentIdle := False\<rparr>))
         \<lparr>reconnecting := hasDocLayer s \<or> reconnecting s\<rparr>)))\<lparr>msgQueue := []\<rparr>"
  have eq: "onSocketOpen cf part s = activate cf ?t"
    unfolding onSocketOpen_def Let_def lm by (simp add: doSend_def emit_def)
  have t: "connected ?t" "\<not> fatal ?t" "\<not> serverRecycling ?t" "\<not> documentIdle ?t" "active ?t = active s"
    "sent_of (log ?t) = sent_of (log s) @ [''loolclient 0.1'', loadMessage cf part s] @ msgQueue s"
    using assms by (simp_all add: fold_doSend doSend_def emit_def connected_def)
  show ?thesis
    using activate_sent [OF t(1-4), of cf] t(5,6) by (simp_all add: eq)
qed

lemma socket_open_flushes_in_order_witness:
  "sent_of (log (onSocketOpen default_conf 0 (start_session\<lparr>readyState := Some Open, msgQueue := [''a'', ''b'']\<rparr>))) =
     [''loolclient 0.1'', loadMessage default_conf 0 start_session, ''a'', ''b'']"
  using socket_open_flushes_in_order
    [of "start_session\<lparr>readyState := Some Open, msgQueue := [''a'', ''b'']\<rparr>" default_conf 0]
  by (simp add: start_session_def loadMessage_def)

text \<open>
  while the server recycles or the document is idle, focus changes and activity do not touch
  the session: only the opening of the socket, or the click on the idle dialog, ends that state.
\<close>

theorem held_session_ignores_focus:
  assumes "serverRecycling s \<or> documentIdle s"
  shows "sstep cf sv parse GotFocus s = s \<and> sstep cf sv parse LostFocus s = s"
  using assms by (auto simp: sstep_def activate_def deactivate_def)

lemma held_session_ignores_focus_witness:
  "sstep default_conf (\<lambda>t. False) (\<lambda>t. empty_command) GotFocus (start_session\<lparr>documentIdle := True\<rparr>)
     = start_session\<lparr>documentIdle := True\<rparr>"
  by (rule conjunct1 [OF held_session_ignores_focus]) simp

text \<open>
  a storage error reaches the user as a warning exactly for the kinds that have a text, and
  as the dialog for \<open>documentconflict\<close>; for any other kind, \<open>renamefailed\<close> among them, the handler
  ends in an exception and shows nothing.
\<close>

theorem storage_error_reported:
  "((''warn'' \<in> set (fired_of (drop (length (log s)) (log (onErrorStorage kind s))))) = (kind \<in> storage_kinds)) \<and>
   ''renamefailed'' \<notin> storage_kinds \<and>
   (kind \<notin> storage_kinds \<and> kind \<noteq> ''documentconflict'' \<longrightarrow>
     log (onErrorStorage kind s) = log (hideBusy s) @ [Called ''TypeError'' []])"
proof (intro conjI impI)
  have l: "''loadfailed'' \<in> storage_kinds" "''documentconflict'' \<notin> storage_kinds" by (simp_all add: storage_kinds_def)
  show "''renamefailed'' \<notin> storage_kinds" by (simp add: storage_kinds_def)
  show "log (onErrorStorage kind s) = log (hideBusy s) @ [Called ''TypeError'' []]"
    if "kind \<notin> storage_kinds \<and> kind \<noteq> ''documentconflict''"
    using that l by (auto simp: onErrorStorage_def Let_def)
  show "(''warn'' \<in> set (fired_of (drop (length (log s)) (log (onErrorStorage kind s))))) = (kind \<in> storage_kinds)"
    using l
    by (auto simp: onErrorStorage_def Let_def hideBusy_def closeDialog_def vex_close_def sock_close_def
        docloaded_false_def emit_def)
qed

lemma storage_error_reported_witness:
  "log (onErrorStorage ''renamefailed'' start_session) = log (hideBusy start_session) @ [Called ''TypeError'' []]"
  using storage_error_reported [of start_session "''renamefailed''"] by simp

end
