(* ===== verification/GridLayer.thy ===== *)
theory GridLayer
  imports MapView SocketMsg "HOL-Library.Product_Lexorder"
begin

text \<open>
  \<open>loleaflet/src/layer/tile/GridLayer.js\<close>: the tiles of the document view. The layer keeps the
  tiles it shows or waits for (\<open>_tiles\<close>) and the images of tiles it removed (\<open>_tileCache\<close>), both
  keyed by \<open>x:y:z:part\<close>; it finds the tiles of the visible area, requests the missing ones in
  rectangles over the socket, cancels requests of views left behind, prunes tiles that are not
  needed and fetches a border of tiles ahead. The DOM of a tile is its image address. Sending
  goes through \<open>L.Socket.sendMessage\<close> on the session, the view is the map's.
\<close>

section \<open>State\<close>

record tcoords =
  tx :: int
  ty :: int
  tz :: int
  tpart :: int

record tile =
  t_src :: string                \<comment> \<open>\<open>el.src\<close>\<close>
  t_coords :: tcoords
  t_current :: bool
  t_loaded :: bool               \<comment> \<open>the time stamp is only tested\<close>
  t_active :: bool
  t_retain :: bool
  t_invalid :: int               \<comment> \<open>\<open>_invalidCount\<close>, 0 when undefined\<close>

text \<open>A range of tile indices, both ends included.\<close>

record trange =
  r_x0 :: int
  r_y0 :: int
  r_x1 :: int
  r_y1 :: int

record grid =
  g_tiles :: "(string, tile) obj"
  g_cache :: "(string, string) obj"
  g_empty :: int                 \<comment> \<open>\<open>_emptyTilesCount\<close>\<close>
  g_tileZoom :: "int option"
  g_tileSize :: int
  g_widthPx :: int
  g_heightPx :: int
  g_optWidthTwips :: int         \<comment> \<open>\<open>options.tileWidthTwips\<close>, at zoom \<open>g_optZoom\<close>\<close>
  g_optHeightTwips :: int
  g_optZoom :: int               \<comment> \<open>the map's \<open>options.zoom\<close>\<close>
  g_widthTwips :: int            \<comment> \<open>\<open>_tileWidthTwips\<close>; \<open>onAdd\<close> sets it before it is read\<close>
  g_heightTwips :: int
  g_docWidth :: "int option"     \<comment> \<open>undefined before the first status\<close>
  g_docHeight :: "int option"
  g_documentInfo :: string
  g_selectedPart :: int
  g_preFetchPart :: int
  g_preFetchBorder :: "trange option"
  g_preFetcher :: bool           \<comment> \<open>the interval timer runs\<close>
  g_preFetchIdle :: bool         \<comment> \<open>the idle timer is pending\<close>
  g_clientZoom :: string
  g_clientVisibleArea :: string
  g_fadeAnimated :: bool
  g_docPixelSize :: "point option"
  g_view :: mview
  g_net :: session

abbreviation tc :: "int \<Rightarrow> int \<Rightarrow> int \<Rightarrow> int \<Rightarrow> tcoords" where
  "tc x y z p \<equiv> \<lparr>tx = x, ty = y, tz = z, tpart = p\<rparr>"

definition gsend :: "sconf \<Rightarrow> string \<Rightarrow> grid \<Rightarrow> grid" where
  "gsend cf m g = g\<lparr>g_net := sendMessage cf m (g_net g)\<rparr>"

definition gemit :: "effect \<Rightarrow> grid \<Rightarrow> grid" where
  "gemit e g = g\<lparr>g_net := emit e (g_net g)\<rparr>"

section \<open>Keys\<close>

definition tileCoordsToKey :: "tcoords \<Rightarrow> string" where
  "tileCoordsToKey c = js_join '':'' [show_int (tx c), show_int (ty c), show_int (tz c), show_int (tpart c)]"

text \<open>The coordinates a key stands for. A string the code never makes (fewer than four fields, or
  a field that is no integer) is \<open>None\<close>; further fields are ignored.\<close>

definition keyToTileCoords :: "string \<Rightarrow> tcoords option" where
  "keyToTileCoords key =
     (case js_split (CHR '':'') key of
        a # b # c # d # _ \<Rightarrow>
          (case (js_number a, js_number b, js_number c, js_number d) of
             (Some x, Some y, Some z, Some p) \<Rightarrow> Some (tc x y z p) | _ \<Rightarrow> None)
      | _ \<Rightarrow> None)"

lemma key_roundtrip [simp]: "keyToTileCoords (tileCoordsToKey c) = Some c"
proof -
  have "js_split (CHR '':'') (tileCoordsToKey c) =
      [show_int (tx c), show_int (ty c), show_int (tz c), show_int (tpart c)]"
    unfolding tileCoordsToKey_def by (rule js_split_join) auto
  then show ?thesis by (simp add: keyToTileCoords_def)
qed

interpretation tkey: codec tileCoordsToKey keyToTileCoords
  by unfold_locales (rule key_roundtrip)

section \<open>Conversions\<close>

definition coordsToTwips :: "grid \<Rightarrow> tcoords \<Rightarrow> int \<times> int" where
  "coordsToTwips g c = (tx c * g_widthTwips g, ty c * g_heightTwips g)"

definition ipt :: "int \<times> int \<Rightarrow> point" where
  "ipt p = pt (of_int (fst p)) (of_int (snd p))"

text \<open>\<open>_twipsToCoords\<close> of a position and the tile size sent with it.\<close>

definition twipsToCoords :: "int \<times> int \<Rightarrow> int \<Rightarrow> int \<Rightarrow> int \<times> int" where
  "twipsToCoords p tileWidth tileHeight =
     (js_round (of_int (fst p) / of_int tileWidth), js_round (of_int (snd p) / of_int tileHeight))"

definition twipsToPixels :: "grid \<Rightarrow> point \<Rightarrow> point" where
  "twipsToPixels g p =
     pt (px p / of_int (g_widthTwips g) * of_int (g_tileSize g))
        (py p / of_int (g_heightTwips g) * of_int (g_tileSize g))"

definition pixelsToTwips :: "grid \<Rightarrow> point \<Rightarrow> point" where
  "pixelsToTwips g p =
     pt (px p * of_int (g_widthTwips g) / of_int (g_tileSize g))
        (py p * of_int (g_heightTwips g) / of_int (g_tileSize g))"

definition twipsToLatLng :: "grid \<Rightarrow> point \<Rightarrow> int option \<Rightarrow> latlng" where
  "twipsToLatLng g p zoom =
     (let pixels = pt (px p / of_int (g_widthTwips g) * of_int (g_tileSize g))
                      (py p / of_int (g_heightTwips g) * of_int (g_tileSize g))
      in unproject (g_view g) pixels zoom)"

definition latLngToTwips :: "grid \<Rightarrow> latlng \<Rightarrow> int option \<Rightarrow> int \<times> int" where
  "latLngToTwips g p zoom =
     (let pixels = project (g_view g) p zoom
      in (js_round (px pixels / of_int (g_tileSize g) * of_int (g_widthTwips g)),
          js_round (py pixels / of_int (g_tileSize g) * of_int (g_heightTwips g))))"

text \<open>\<open>_twipsRectangleToPixelBounds\<close>: no digits is \<open>null\<close> (\<open>None\<close>). Fewer than four numbers leave a
  corner \<open>NaN\<close>, which is \<open>None\<close> here as well.\<close>

definition twipsRectangleToPixelBounds :: "grid \<Rightarrow> string \<Rightarrow> bounds option" where
  "twipsRectangleToPixelBounds g s =
     (case map read_nat (digit_runs s) of
        a # b # c # d # _ \<Rightarrow>
          (let topLeftTwips = pt (of_nat a) (of_nat b);
               offset = pt (of_nat c) (of_nat d);
               bottomRightTwips = point_add topLeftTwips offset
           in Some (new_bounds (twipsToPixels g topLeftTwips) (twipsToPixels g bottomRightTwips)))
      | _ \<Rightarrow> None)"

definition twipsRectanglesToPixelBounds :: "grid \<Rightarrow> string \<Rightarrow> bounds list" where
  "twipsRectanglesToPixelBounds g s =
     List.map_filter (twipsRectangleToPixelBounds g) (js_split (CHR '';'') s)"

definition tileCoordsToBounds :: "grid \<Rightarrow> tcoords \<Rightarrow> llbounds" where
  "tileCoordsToBounds g c =
     (let tileSize = of_int (g_tileSize g);
          nwPoint = pt (of_int (tx c) * tileSize) (of_int (ty c) * tileSize);
          sePoint = point_add nwPoint (pt tileSize tileSize);
          nw = wrapLatLng crs_simple (unproject (g_view g) nwPoint (Some (tz c)));
          se = wrapLatLng crs_simple (unproject (g_view g) sePoint (Some (tz c)))
      in new_llbounds nw se)"

definition keyToBounds :: "grid \<Rightarrow> string \<Rightarrow> llbounds option" where
  "keyToBounds g key = map_option (tileCoordsToBounds g) (keyToTileCoords key)"

text \<open>\<open>_pxBoundsToTileRange\<close>: one tile more than needed at the top and left.\<close>

definition new_trange :: "int \<times> int \<Rightarrow> int \<times> int \<Rightarrow> trange" where
  "new_trange a b = \<lparr>r_x0 = min (fst a) (fst b), r_y0 = min (snd a) (snd b),
                    r_x1 = max (fst a) (fst b), r_y1 = max (snd a) (snd b)\<rparr>"

definition pxBoundsToTileRange :: "grid \<Rightarrow> bounds \<Rightarrow> trange" where
  "pxBoundsToTileRange g b =
     (let s = of_int (g_tileSize g)
      in new_trange (\<lfloor>px (bmin b) / s\<rfloor> - 1, \<lfloor>py (bmin b) / s\<rfloor> - 1)
                    (\<lceil>px (bmax b) / s\<rceil>, \<lceil>py (bmax b) / s\<rceil>))"

text \<open>A comparison with an undefined document size is false.\<close>

definition ge_opt :: "int \<Rightarrow> int option \<Rightarrow> bool" where
  "ge_opt x b = (case b of None \<Rightarrow> False | Some y \<Rightarrow> x \<ge> y)"

definition lt_opt :: "int \<Rightarrow> int option \<Rightarrow> bool" where
  "lt_opt x b = (case b of None \<Rightarrow> False | Some y \<Rightarrow> x < y)"

definition le_opt :: "int \<Rightarrow> int option \<Rightarrow> bool" where
  "le_opt x b = (case b of None \<Rightarrow> False | Some y \<Rightarrow> x \<le> y)"

definition isValidTile :: "grid \<Rightarrow> tcoords \<Rightarrow> bool" where
  "isValidTile g c =
     (if tx c < 0 \<or> ty c < 0 then False
      else if ge_opt (tx c * g_widthTwips g) (g_docWidth g) \<or> ge_opt (ty c * g_heightTwips g) (g_docHeight g)
      then False else True)"

section \<open>The client's area and zoom\<close>

definition resetClientVisArea :: "grid \<Rightarrow> grid" where
  "resetClientVisArea g = g\<lparr>g_clientZoom := '''', g_clientVisibleArea := ''''\<rparr>"

text \<open>The corners of the visible area in twips; \<open>None\<close> when the map throws.\<close>

definition visible_corners :: "grid \<Rightarrow> ((int \<times> int) \<times> (int \<times> int)) option" where
  "visible_corners g =
     map_option (\<lambda>b. (latLngToTwips g (getNorthWest b) None, latLngToTwips g (getSouthEast b) None))
       (map_getBounds (g_view g))"

definition visible_area :: "grid \<Rightarrow> bounds option" where
  "visible_area g = map_option (\<lambda>(a, b). new_bounds (ipt a) (ipt b)) (visible_corners g)"

text \<open>The client believes the server knows what it sent when the message was not held back.\<close>

definition delivered :: "session \<Rightarrow> bool" where
  "delivered s \<longleftrightarrow> \<not> fatal s \<and> active s \<and> connected s"

definition sendClientVisibleArea :: "sconf \<Rightarrow> bool \<Rightarrow> grid \<Rightarrow> grid" where
  "sendClientVisibleArea cf forceUpdate g =
     (case visible_corners g of
        None \<Rightarrow> gemit (Called ''Error'' []) g
      | Some (a, b) \<Rightarrow>
          (let size = (max (fst a) (fst b) - min (fst a) (fst b), max (snd a) (snd b) - min (snd a) (snd b));
               area = ''clientvisiblearea x='' @ show_int (fst a) @ '' y='' @ show_int (snd a)
                 @ '' width='' @ show_int (fst size) @ '' height='' @ show_int (snd size)
           in if g_clientVisibleArea g \<noteq> area \<or> forceUpdate then
                (let g = gsend cf area g
                 in if delivered (g_net g) then g\<lparr>g_clientVisibleArea := area\<rparr> else g)
              else g))"

definition sendClientZoom :: "sconf \<Rightarrow> bool \<Rightarrow> grid \<Rightarrow> grid" where
  "sendClientZoom cf forceUpdate g =
     (let z = ''tilepixelwidth='' @ show_int (g_widthPx g) @ '' tilepixelheight='' @ show_int (g_heightPx g)
            @ '' tiletwipwidth='' @ show_int (g_widthTwips g) @ '' tiletwipheight='' @ show_int (g_heightTwips g)
      in if g_clientZoom g \<noteq> z \<or> forceUpdate then
           (let g = gsend cf (''clientzoom '' @ z) g
            in if delivered (g_net g) then g\<lparr>g_clientZoom := z\<rparr> else g)
         else g)"

section \<open>Tiles\<close>

definition noTilesToLoad :: "grid \<Rightarrow> bool" where
  "noTilesToLoad g \<longleftrightarrow> list_all (\<lambda>(k, t). t_loaded t) (g_tiles g)"

text \<open>\<open>_tileCache[key]\<close> as a condition: present and not the empty address.\<close>

definition cached :: "grid \<Rightarrow> string \<Rightarrow> bool" where
  "cached g key \<longleftrightarrow> (case obj_get (g_cache g) key of None \<Rightarrow> False | Some src \<Rightarrow> src \<noteq> [])"

definition new_tile :: "tcoords \<Rightarrow> tile" where
  "new_tile c = \<lparr>t_src = '''', t_coords = c, t_current = True, t_loaded = False, t_active = False,
                t_retain = False, t_invalid = 0\<rparr>"

text \<open>\<open>createTile\<close> and the entry in \<open>_tiles\<close>. \<open>createTile\<close> takes a \<open>done\<close> callback, so no tile is
  ready at once.\<close>

definition add_tile :: "tcoords \<Rightarrow> grid \<Rightarrow> grid" where
  "add_tile c g =
     gemit (Fired ''tileloadstart'' (JStr (tileCoordsToKey c)))
       (g\<lparr>g_empty := g_empty g + 1, g_tiles := obj_put (tileCoordsToKey c) (new_tile c) (g_tiles g)\<rparr>)"

definition set_src :: "string \<Rightarrow> string \<Rightarrow> grid \<Rightarrow> grid" where
  "set_src key src g =
     (case obj_get (g_tiles g) key of
        None \<Rightarrow> g | Some t \<Rightarrow> g\<lparr>g_tiles := obj_put key (t\<lparr>t_src := src\<rparr>) (g_tiles g)\<rparr>)"

definition cache_src :: "string \<Rightarrow> grid \<Rightarrow> string" where
  "cache_src key g = (case obj_get (g_cache g) key of None \<Rightarrow> '''' | Some src \<Rightarrow> src)"

definition removeTile :: "string \<Rightarrow> grid \<Rightarrow> grid" where
  "removeTile key g =
     (case obj_get (g_tiles g) key of
        None \<Rightarrow> g
      | Some t \<Rightarrow>
          (let g = (if t_invalid t > 0 then g else g\<lparr>g_cache := obj_put key (t_src t) (g_cache g)\<rparr>);
               g = (if \<not> t_loaded t \<and> g_empty g > 0 then g\<lparr>g_empty := g_empty g - 1\<rparr> else g)
           in gemit (Fired ''tileunload'' (JStr key)) (g\<lparr>g_tiles := obj_del key (g_tiles g)\<rparr>)))"

definition removeAllTiles :: "grid \<Rightarrow> grid" where
  "removeAllTiles g = fold removeTile (obj_keys (g_tiles g)) g"

definition tile_rect :: "grid \<Rightarrow> tcoords \<Rightarrow> bounds" where
  "tile_rect g c =
     (let p = ipt (coordsToTwips g c)
      in new_bounds p (point_add p (pt (of_int (g_widthTwips g)) (of_int (g_heightTwips g)))))"

text \<open>Which tiles \<open>_cancelTiles\<close> drops.\<close>

definition drops :: "grid \<Rightarrow> bounds \<Rightarrow> tile \<Rightarrow> bool" where
  "drops g visibleArea t \<longleftrightarrow>
     \<not> t_loaded t \<or>
     (if tpart (t_coords t) = g_selectedPart g
      then t_invalid t > 0 \<and> \<not> bounds_intersects visibleArea (tile_rect g (t_coords t))
      else t_invalid t > 0)"

definition cancelTiles :: "sconf \<Rightarrow> grid \<Rightarrow> grid" where
  "cancelTiles cf g =
     (let g = gsend cf ''canceltiles'' g
      in case visible_area g of
           None \<Rightarrow> gemit (Called ''Error'' []) g
         | Some area \<Rightarrow>
             g\<lparr>g_tiles := filter (\<lambda>(k, t). \<not> drops g area t) (g_tiles g), g_empty := 0\<rparr>)"

section \<open>Requesting tiles\<close>

text \<open>The comma-separated positions and the \<open>tilecombine\<close> message for some tiles.\<close>

definition tilecombine :: "grid \<Rightarrow> int \<Rightarrow> tcoords list \<Rightarrow> string" where
  "tilecombine g part cs =
     (let xs = js_join '','' (map (\<lambda>c. show_int (fst (coordsToTwips g c))) cs);
          ys = js_join '','' (map (\<lambda>c. show_int (snd (coordsToTwips g c))) cs)
      in js_join '' '' [''tilecombine'', ''nviewid=0'', ''part='' @ show_int part,
           ''width='' @ show_int (g_widthPx g), ''height='' @ show_int (g_heightPx g),
           ''tileposx='' @ xs, ''tileposy='' @ ys,
           ''tilewidth='' @ show_int (g_widthTwips g), ''tileheight='' @ show_int (g_heightTwips g)])"

text \<open>The scan for the tiles that form a rectangle with a first one: \<open>(bx, b)\<close> is \<open>bound\<close>. It
  gives the tiles taken out of the queue and the queue left.\<close>

fun scan_rect :: "int \<Rightarrow> int \<Rightarrow> bool \<Rightarrow> bool \<Rightarrow> tcoords list \<Rightarrow> tcoords list \<times> tcoords list" where
  "scan_rect bx b rowLocked hasHole [] = ([], [])"
| "scan_rect bx b rowLocked hasHole (c # cs) =
     (let extend = \<not> hasHole \<and> ty c = b + 1;
          rowLocked = (rowLocked \<or> extend);
          b = (if extend then b + 1 else b)
      in if ty c > b then ([], c # cs)
         else if \<not> rowLocked then
           (if ty c = b \<and> tx c = bx + 1
            then (let (taken, rest) = scan_rect (bx + 1) b False hasHole cs in (c # taken, rest))
            else (let (taken, rest) = scan_rect bx b True hasHole cs in (taken, c # rest)))
         else if tx c \<le> bx \<and> ty c \<le> b
           then (let (taken, rest) = scan_rect bx b rowLocked hasHole cs in (c # taken, rest))
         else (let (taken, rest) = scan_rect bx b rowLocked True cs in (taken, c # rest)))"

text \<open>The scan splits the queue: no tile is lost or doubled.\<close>

lemma scan_rect_mset:
  "mset (fst (scan_rect bx b l h cs)) + mset (snd (scan_rect bx b l h cs)) = mset cs"
proof (induction cs arbitrary: bx b l h)
  case (Cons c cs)
  note IH = Cons.IH
  show ?case
    unfolding scan_rect.simps Let_def case_prod_unfold
    using IH by (simp only: if_split fst_conv snd_conv mset.simps union_mset_add_mset_left
        union_mset_add_mset_right) auto
qed simp

lemma scan_rect_length: "length (snd (scan_rect bx b l h cs)) \<le> length cs"
  using arg_cong [OF scan_rect_mset [of bx b l h cs], of size] by simp

text \<open>The tiles a request is wanted for.\<close>

definition wanted :: "grid \<Rightarrow> tcoords \<Rightarrow> bool" where
  "wanted g c \<longleftrightarrow> \<not> cached g (tileCoordsToKey c) \<and> tpart c = g_selectedPart g"

function group_rects :: "grid \<Rightarrow> tcoords list \<Rightarrow> tcoords list list" where
  "group_rects g [] = []"
| "group_rects g (c # cs) =
     (if \<not> wanted g c then group_rects g cs
      else (c # fst (scan_rect (tx c) (ty c) False False cs))
             # group_rects g (snd (scan_rect (tx c) (ty c) False False cs)))"
  by pat_completeness auto
termination
  by (relation "measure (\<lambda>(g, cs). length cs)") (simp_all add: less_Suc_eq_le scan_rect_length)

text \<open>\<open>_addTiles\<close>: first the tiles themselves, then the requests by rectangles of the queue in
  row order.\<close>

definition add_one :: "tcoords \<Rightarrow> grid \<Rightarrow> grid" where
  "add_one c g =
     (let key = tileCoordsToKey c
      in if tpart c = g_selectedPart g \<and> obj_get (g_tiles g) key = None then
           (let g = add_tile c g in if cached g key then set_src key (cache_src key g) g else g)
         else g)"

definition send_rect :: "sconf \<Rightarrow> tcoords list \<Rightarrow> grid \<Rightarrow> grid" where
  "send_rect cf cs g = gsend cf (tilecombine g (tpart (last cs)) cs) g"

definition row_order :: "tcoords list \<Rightarrow> tcoords list" where
  "row_order queue = sort_key (\<lambda>c. (ty c, tx c)) queue"

definition addTiles :: "sconf \<Rightarrow> tcoords list \<Rightarrow> grid \<Rightarrow> grid" where
  "addTiles cf queue g =
     (let g = fold add_one queue g;
          rectangles = group_rects g (row_order queue)
      in fold (send_rect cf) rectangles g)"

section \<open>Pruning\<close>

text \<open>\<open>_retainParent\<close>: marks loaded tiles at lower zoom levels; true when an active one is found.\<close>

definition parent_cell :: "int \<Rightarrow> int" where
  "parent_cell x = \<lfloor>of_int x / (6 / 5) :: real\<rfloor>"

function retainParent :: "int \<Rightarrow> int \<Rightarrow> int \<Rightarrow> int \<Rightarrow> int \<Rightarrow> (string, tile) obj \<Rightarrow> (string, tile) obj \<times> bool" where
  "retainParent x y z part minZoom ts =
     (let x2 = parent_cell x; y2 = parent_cell y; z2 = z - 1;
          key = tileCoordsToKey (tc x2 y2 z2 part)
      in case obj_get ts key of
           None \<Rightarrow> if z2 > minZoom then retainParent x2 y2 z2 part minZoom ts else (ts, False)
         | Some t \<Rightarrow>
             if t_active t then (obj_put key (t\<lparr>t_retain := True\<rparr>) ts, True)
             else
               let ts = (if t_loaded t then obj_put key (t\<lparr>t_retain := True\<rparr>) ts else ts)
               in if z2 > minZoom then retainParent x2 y2 z2 part minZoom ts else (ts, False))"
  by pat_completeness auto
termination by (relation "measure (\<lambda>(x, y, z, p, m, ts). nat (z - m))") auto

declare retainParent.simps [simp del]

text \<open>\<open>_retainChildren\<close>: the two by two tiles one level up (with exact arithmetic \<open>i\<close> takes the
  values \<open>1.2 x\<close> and \<open>1.2 x + 1\<close>), and their children while below \<open>maxZoom\<close>. \<open>d\<close> is
  \<open>maxZoom - z\<close>, the levels to go.\<close>

definition child_cells :: "real \<Rightarrow> real \<Rightarrow> (real \<times> real) list" where
  "child_cells x y = [(i, j). i \<leftarrow> [6 / 5 * x, 6 / 5 * x + 1], j \<leftarrow> [6 / 5 * y, 6 / 5 * y + 1]]"

definition mark_loaded :: "string \<Rightarrow> (string, tile) obj \<Rightarrow> (string, tile) obj" where
  "mark_loaded key ts =
     (case obj_get ts key of
        None \<Rightarrow> ts
      | Some t \<Rightarrow> if t_active t \<or> t_loaded t then obj_put key (t\<lparr>t_retain := True\<rparr>) ts else ts)"

definition is_active :: "string \<Rightarrow> (string, tile) obj \<Rightarrow> bool" where
  "is_active key ts \<longleftrightarrow> (case obj_get ts key of None \<Rightarrow> False | Some t \<Rightarrow> t_active t)"

fun retainChildren :: "nat \<Rightarrow> real \<Rightarrow> real \<Rightarrow> int \<Rightarrow> int \<Rightarrow> (string, tile) obj \<Rightarrow> (string, tile) obj" where
  "retainChildren 0 x y z part ts =
     fold (\<lambda>(i, j) ts. mark_loaded (tileCoordsToKey (tc \<lfloor>i\<rfloor> \<lfloor>j\<rfloor> (z + 1) part)) ts) (child_cells x y) ts"
| "retainChildren (Suc d) x y z part ts =
     fold (\<lambda>(i, j) ts.
       let key = tileCoordsToKey (tc \<lfloor>i\<rfloor> \<lfloor>j\<rfloor> (z + 1) part); ts' = mark_loaded key ts
       in if is_active key ts then ts' else retainChildren d i j (z + 1) part ts') (child_cells x y) ts"

declare retainChildren.simps [simp del]

text \<open>The middle loop of \<open>_pruneTiles\<close> calls them with \<open>minZoom = z - 5\<close> and \<open>maxZoom = z + 2\<close>, so
  one level of children has children looked at.\<close>

definition retain_for :: "string \<Rightarrow> (string, tile) obj \<Rightarrow> (string, tile) obj" where
  "retain_for key ts =
     (case obj_get ts key of
        None \<Rightarrow> ts
      | Some t \<Rightarrow>
          if t_current t \<and> \<not> t_active t then
            (let c = t_coords t; (ts', found) = retainParent (tx c) (ty c) (tz c) (tpart c) (tz c - 5) ts
             in if found then ts'
                else retainChildren 1 (of_int (tx c)) (of_int (ty c)) (tz c) (tpart c) ts')
          else ts)"

definition retained :: "(string, tile) obj \<Rightarrow> (string, tile) obj" where
  "retained ts =
     (let ts = obj_map (\<lambda>k t. t\<lparr>t_retain := t_current t\<rparr>) ts in fold retain_for (obj_keys ts) ts)"

definition pruneTiles :: "grid \<Rightarrow> grid" where
  "pruneTiles g =
     (let g = g\<lparr>g_tiles := retained (g_tiles g)\<rparr>
      in fold (\<lambda>key g. case obj_get (g_tiles g) key of
                 None \<Rightarrow> g | Some t \<Rightarrow> if t_retain t then g else removeTile key g)
           (obj_keys (g_tiles g)) g)"

section \<open>Finding the tiles of the view\<close>

definition range_coords :: "trange \<Rightarrow> int \<Rightarrow> int \<Rightarrow> tcoords list" where
  "range_coords r zoom part =
     [tc i j zoom part. j \<leftarrow> [r_y0 r..r_y1 r], i \<leftarrow> [r_x0 r..r_x1 r]]"

text \<open>Tiles of another zoom level or part are no longer current.\<close>

definition age_tiles :: "int \<Rightarrow> grid \<Rightarrow> grid" where
  "age_tiles zoom g =
     g\<lparr>g_tiles := obj_map (\<lambda>k t.
         if (case keyToTileCoords k of None \<Rightarrow> True | Some c \<Rightarrow> tz c \<noteq> zoom \<or> tpart c \<noteq> g_selectedPart g)
         then t\<lparr>t_current := False\<rparr> else t) (g_tiles g)\<rparr>"

text \<open>One tile of the range in \<open>_update\<close>: state, queue and \<open>newView\<close>.\<close>

definition visit_tile :: "tcoords \<Rightarrow> grid \<times> tcoords list \<times> bool \<Rightarrow> grid \<times> tcoords list \<times> bool" where
  "visit_tile c st =
     (case st of (g, queue, newView) \<Rightarrow>
        if \<not> isValidTile g c then st
        else
          let key = tileCoordsToKey c
          in case obj_get (g_tiles g) key of
               None \<Rightarrow> (g, queue @ [c], newView)
             | Some t \<Rightarrow>
                 if t_loaded t \<and> \<not> t_invalid t > 0 then
                   (g\<lparr>g_tiles := obj_put key (t\<lparr>t_current := True\<rparr>) (g_tiles g)\<rparr>, queue, False)
                 else if t_invalid t > 0 then
                   (g\<lparr>g_tiles := obj_put key (t\<lparr>t_invalid := 1\<rparr>) (g_tiles g)\<rparr>, queue @ [c], newView)
                 else (g, queue @ [c], newView))"

definition announce_loading :: "grid \<Rightarrow> grid" where
  "announce_loading g = (if noTilesToLoad g then gemit (Fired ''loading'' JUndef) g else g)"

text \<open>\<open>_update(center, zoom)\<close>; without arguments the map's centre and zoom.\<close>

definition layer_update :: "sconf \<Rightarrow> (latlng \<times> int) option \<Rightarrow> grid \<Rightarrow> grid" where
  "layer_update cf cz g =
     (if g_documentInfo g = '''' then g
      else
        case (case cz of Some (c, z) \<Rightarrow> Some (c, z)
              | None \<Rightarrow> map_option (\<lambda>c. (c, mv_zoom (g_view g))) (map_getCenter (g_view g))) of
          None \<Rightarrow> gemit (Called ''Error'' []) g
        | Some (center, zoom) \<Rightarrow>
            (case getPixelBounds (g_view g) (Some (center, zoom)) of
               None \<Rightarrow> gemit (Called ''Error'' []) g
             | Some pixelBounds \<Rightarrow>
                 (let tileRange = pxBoundsToTileRange g pixelBounds;
                      (g, queue, newView) =
                        fold visit_tile (range_coords tileRange zoom (g_selectedPart g))
                          (age_tiles zoom g, [], True);
                      g = sendClientZoom cf True (sendClientVisibleArea cf True g)
                  in if queue = [] then g
                     else
                       let g = (if newView then cancelTiles cf g else g)
                       in addTiles cf queue (announce_loading g))))"

text \<open>\<open>_updateOnChangePart\<close>: any tile in the range counts, and one request asks for all.\<close>

definition visit_part :: "tcoords \<Rightarrow> grid \<times> tcoords list \<times> bool \<Rightarrow> grid \<times> tcoords list \<times> bool" where
  "visit_part c st =
     (case st of (g, queue, newView) \<Rightarrow>
        if \<not> isValidTile g c then st
        else
          let key = tileCoordsToKey c
          in case obj_get (g_tiles g) key of
               None \<Rightarrow> (g, queue @ [c], newView)
             | Some t \<Rightarrow> (g\<lparr>g_tiles := obj_put key (t\<lparr>t_current := True\<rparr>) (g_tiles g)\<rparr>, queue, False))"

definition add_part_tile :: "tcoords \<Rightarrow> grid \<times> tcoords list \<Rightarrow> grid \<times> tcoords list" where
  "add_part_tile c st =
     (case st of (g, ask) \<Rightarrow>
        let key = tileCoordsToKey c;
            g = (if tpart c = g_selectedPart g then add_tile c g else g)
        in if \<not> cached g key then (g, ask @ [c]) else (set_src key (cache_src key g) g, ask))"

definition updateOnChangePart :: "sconf \<Rightarrow> grid \<Rightarrow> grid" where
  "updateOnChangePart cf g =
     (if g_documentInfo g = '''' then g
      else
        case map_getCenter (g_view g) of
          None \<Rightarrow> gemit (Called ''Error'' []) g
        | Some center \<Rightarrow>
            (let zoom = mv_zoom (g_view g)
             in case getPixelBounds (g_view g) (Some (center, zoom)) of
                  None \<Rightarrow> gemit (Called ''Error'' []) g
                | Some pixelBounds \<Rightarrow>
                    (let tileRange = pxBoundsToTileRange g pixelBounds;
                         (g, queue, newView) =
                           fold visit_part (range_coords tileRange zoom (g_selectedPart g))
                             (age_tiles zoom g, [], True)
                     in if queue = [] then g
                        else
                          let g = (if newView then cancelTiles cf g else g);
                              (g, ask) = fold add_part_tile queue (announce_loading g, [])
                          in if ask = [] then g
                             else gsend cf (tilecombine g (g_selectedPart g) ask) g)))"

section \<open>Tiles that are ready\<close>

definition tileReady :: "tcoords \<Rightarrow> bool \<Rightarrow> grid \<Rightarrow> grid" where
  "tileReady c err g =
     (let key = tileCoordsToKey c;
          g = (if err then gemit (Fired ''tileerror'' (JStr key)) g else g)
      in case obj_get (g_tiles g) key of
           None \<Rightarrow> g
         | Some t \<Rightarrow>
             (let t = t\<lparr>t_loaded := True\<rparr>;
                  t = (if g_fadeAnimated g then t else t\<lparr>t_active := True\<rparr>);
                  g = g\<lparr>g_tiles := obj_put key t (g_tiles g)\<rparr>
              in if noTilesToLoad g then pruneTiles (gemit (Fired ''load'' JUndef) g) else g))"

section \<open>Fetching ahead\<close>

definition resetPreFetching :: "bool \<Rightarrow> grid \<Rightarrow> grid" where
  "resetPreFetching resetBorder g =
     (let g = g\<lparr>g_preFetcher := False, g_preFetchIdle := False\<rparr>;
          g = (if resetBorder then g\<lparr>g_preFetchBorder := None\<rparr> else g)
      in g\<lparr>g_preFetchPart := g_selectedPart g, g_preFetchIdle := True\<rparr>)"

text \<open>The idle timer's callback. It clears \<open>_prefetchIdle\<close>, not the field \<open>_preFetchIdle\<close>, which
  keeps the number of the expired timer; the flag says whether a timer is pending.\<close>

definition preFetchIdleExpires :: "grid \<Rightarrow> grid" where
  "preFetchIdleExpires g =
     (if g_preFetchIdle g then g\<lparr>g_preFetcher := True, g_preFetchIdle := False\<rparr> else g)"

definition border_cells :: "trange \<Rightarrow> (int \<times> int) list" where
  "border_cells b =
     [(i, r_y1 b). i \<leftarrow> [r_x0 b..r_x1 b]] @ [(i, r_y0 b). i \<leftarrow> [r_x0 b..r_x1 b]] @
     [(r_x1 b, i). i \<leftarrow> [r_y0 b..r_y1 b]] @ [(r_x0 b, i). i \<leftarrow> [r_y0 b..r_y1 b]]"

text \<open>The inner loop: \<open>n\<close> tiles may still be taken; \<open>visited\<close> are the tiles taken.\<close>

fun pick_tiles :: "grid \<Rightarrow> int \<Rightarrow> (int \<times> int) list \<Rightarrow> nat \<Rightarrow> tcoords list \<Rightarrow> tcoords list \<times> nat" where
  "pick_tiles g zoom [] n visited = (visited, n)"
| "pick_tiles g zoom ((i, j) # cs) n visited =
     (if n = 0 then (visited, n)
      else
        let c = tc i j zoom (g_preFetchPart g); key = tileCoordsToKey c
        in if \<not> isValidTile g c \<or> obj_get (g_tiles g) key \<noteq> None \<or> cached g key
              \<or> key \<in> set (map tileCoordsToKey visited)
           then pick_tiles g zoom cs n visited
           else pick_tiles g zoom cs (n - 1) (visited @ [c]))"

definition grow :: "grid \<Rightarrow> trange \<Rightarrow> trange" where
  "grow g b =
     (let b = (if r_x0 b \<ge> 0 then b\<lparr>r_x0 := r_x0 b - 1\<rparr> else b);
          b = (if r_y0 b \<ge> 0 then b\<lparr>r_y0 := r_y0 b - 1\<rparr> else b);
          b = (if le_opt (r_x1 b * g_widthTwips g) (g_docWidth g) then b\<lparr>r_x1 := r_x1 b + 1\<rparr> else b)
      in if le_opt (r_y1 b * g_heightTwips g) (g_docHeight g) then b\<lparr>r_y1 := r_y1 b + 1\<rparr> else b)"

text \<open>The outer loop: \<open>w\<close> is how much wider the border may still get, \<open>queue\<close> the cells of the
  borders so far.\<close>

fun prefetch_loop ::
  "grid \<Rightarrow> int \<Rightarrow> nat \<Rightarrow> trange \<Rightarrow> (int \<times> int) list \<Rightarrow> nat \<Rightarrow> tcoords list \<Rightarrow> tcoords list" where
  "prefetch_loop g zoom 0 b queue n final = final"
| "prefetch_loop g zoom (Suc w) b queue n final =
     (if (r_x0 b \<ge> 0 \<or> r_y0 b \<ge> 0 \<or> lt_opt (r_x1 b * g_widthTwips g) (g_docWidth g)
            \<or> lt_opt (r_y1 b * g_heightTwips g) (g_docHeight g)) \<and> n > 0
      then
        (let queue = queue @ border_cells b; (final, n) = pick_tiles g zoom queue n final
         in if n = 0 then final else prefetch_loop g zoom w (grow g b) queue n final)
      else final)"

definition preFetchTiles :: "sconf \<Rightarrow> grid \<Rightarrow> grid" where
  "preFetchTiles cf g =
     (if g_empty g > 0 then g
      else
        case map_getCenter (g_view g) of
          None \<Rightarrow> gemit (Called ''Error'' []) g
        | Some center \<Rightarrow>
            (let zoom = mv_zoom (g_view g);
                 edit = perm (g_net g) = ''edit'';
                 tilesToFetch = (if edit then 5 else 10);
                 maxBorderWidth = (if edit then 3 else 5);
                 border = (case g_preFetchBorder g of
                             Some b \<Rightarrow> Some b
                           | None \<Rightarrow> map_option (pxBoundsToTileRange g)
                                      (getPixelBounds (g_view g) (Some (center, zoom))))
             in case border of
                  None \<Rightarrow> gemit (Called ''Error'' []) g
                | Some b \<Rightarrow>
                    (let g = g\<lparr>g_preFetchBorder := Some b\<rparr>;
                         finalQueue = prefetch_loop g zoom maxBorderWidth b [] tilesToFetch []
                     in if finalQueue \<noteq> [] then addTiles cf finalQueue g else g\<lparr>g_preFetcher := False\<rparr>)))"

section \<open>Zoom levels and document size\<close>

definition updateTileTwips :: "grid \<Rightarrow> grid" where
  "updateTileTwips g =
     (case g_tileZoom g of
        None \<Rightarrow> g
      | Some z \<Rightarrow>
          (let factor = (6 / 5 :: real) powi (g_optZoom g - z)
           in g\<lparr>g_widthTwips := js_round (of_int (g_optWidthTwips g) * factor),
               g_heightTwips := js_round (of_int (g_optHeightTwips g) * factor)\<rparr>))"

text \<open>\<open>_updateMaxBounds(sizeChanged, extraSize, options, zoom)\<close>; \<open>nothing\<close> is passed on to the
  zoom animation of \<open>setView\<close>. The scale is relative to zoom 10.\<close>

definition updateMaxBounds :: "bool \<Rightarrow> point option \<Rightarrow> int option \<Rightarrow> bool \<Rightarrow> grid \<Rightarrow> grid" where
  "updateMaxBounds sizeChanged extraSize zoom nothing g =
     (case (g_docWidth g, g_docHeight g) of
        (Some w, Some h) \<Rightarrow>
          (let v = g_view g;
               zoom = (case zoom of None \<Rightarrow> mv_zoom v | Some z \<Rightarrow> if z = 0 then mv_zoom v else z);
               size = of_int (g_tileSize g);
               docPixelLimits = point_multiplyBy
                 (pt (of_int w / of_int (g_optWidthTwips g)) (of_int h / of_int (g_optHeightTwips g))) size;
               scale = getZoomScale v zoom (Some 10);
               topLeft = unproject v (point_multiplyBy (pt 0 0) scale) None;
               corner = point_multiplyBy docPixelLimits scale;
               corner = (case extraSize of None \<Rightarrow> corner | Some e \<Rightarrow> point_add corner e);
               bottomRight = unproject v corner None;
               v = (if g_documentInfo g = '''' \<or> sizeChanged then
                      (let v = setMaxBounds (new_llbounds topLeft bottomRight) nothing v
                       in setDocBounds (new_llbounds topLeft
                            (unproject v (point_multiplyBy docPixelLimits scale) None)) v)
                    else v);
               limits = point_multiplyBy
                 (pt (of_int w / of_int (g_widthTwips g)) (of_int h / of_int (g_heightTwips g))) size;
               limits = (case extraSize of None \<Rightarrow> limits
                         | Some e \<Rightarrow> point_add limits (point_multiplyBy e scale))
           in gemit (Fired ''docsize'' (JObj [(''x'', JReal (px limits)), (''y'', JReal (py limits))]))
                (g\<lparr>g_view := v, g_docPixelSize := Some limits\<rparr>))
      | _ \<Rightarrow> g)"

text \<open>\<open>_checkSpreadSheetBounds\<close>: changes the bounds of the map. With an undefined document size the
  comparisons are false.\<close>

definition restoreMaxBounds :: "bool \<Rightarrow> mview \<Rightarrow> mview" where
  "restoreMaxBounds nothing v =
     (case mv_origMaxBounds v of
        None \<Rightarrow> v | Some b \<Rightarrow> (setMaxBounds b nothing v)\<lparr>mv_origMaxBounds := None\<rparr>)"

definition checkSpreadSheetBounds :: "grid \<Rightarrow> bool \<Rightarrow> int \<Rightarrow> mview \<Rightarrow> mview" where
  "checkSpreadSheetBounds g nothing newZoom v =
     (case (g_docWidth g, g_docHeight g) of
        (Some w, Some h) \<Rightarrow>
          (let viewSize = mv_size v;
               scale = getZoomScale v newZoom None;
               width = of_int w / of_int (g_widthTwips g) * of_int (g_tileSize g) * scale;
               height = of_int h / of_int (g_heightTwips g) * of_int (g_tileSize g) * scale
           in if width < px viewSize \<or> height < py viewSize then
                (let width = max width (px viewSize); height = max height (py viewSize);
                     v = (if mv_origMaxBounds v = None then v\<lparr>mv_origMaxBounds := mv_maxBounds v\<rparr> else v);
                     scale = crs_scale crs_simple 1
                 in setMaxBounds (new_llbounds (unproject v (pt 0 0) None)
                      (unproject v (pt (width * scale) (height * scale)) None)) nothing v)
              else restoreMaxBounds nothing v)
      | _ \<Rightarrow> restoreMaxBounds nothing v)"

definition updateScrollOffset :: "grid \<Rightarrow> grid" where
  "updateScrollOffset g =
     (let v = g_view g
      in case map_getCenter v of
           None \<Rightarrow> gemit (Called ''Error'' []) g
         | Some c \<Rightarrow>
             (let centerPixel = project v c None;
                  newScrollPos = point_subtract centerPixel (point_divideBy (mv_size v) 2);
                  x = js_round (if px newScrollPos < 0 then 0 else px newScrollPos);
                  y = js_round (if py newScrollPos < 0 then 0 else py newScrollPos)
              in gemit (Fired ''updatescrolloffset'' (JObj [(''x'', JInt x), (''y'', JInt y)])) g))"

text \<open>\<open>_reset\<close>. The call of \<open>_updateMaxBounds(null, null, zoom)\<close> passes the zoom as \<open>options\<close>, so
  the map's zoom counts. Levels and their transforms are DOM state and not modelled;
  \<open>_abortLoading\<close> does not exist.\<close>

definition reset :: "sconf \<Rightarrow> latlng \<Rightarrow> int \<Rightarrow> bool \<Rightarrow> bool \<Rightarrow> bool \<Rightarrow> bool \<Rightarrow> bool \<Rightarrow> grid \<Rightarrow> grid" where
  "reset cf center zoom hard noPrune noUpdate mobileWebkit nothing g =
     (let changed = g_tileZoom g \<noteq> Some zoom
      in if \<not> noUpdate \<and> (hard \<or> changed) then
           (let g = (resetClientVisArea g)\<lparr>g_tileZoom := Some zoom\<rparr>;
                g = (if changed then updateMaxBounds False None None nothing (updateTileTwips g) else g);
                g = (if mobileWebkit then g else layer_update cf (Some (center, zoom)) g)
            in if noPrune then g else pruneTiles g)
         else g)"

definition viewReset :: "sconf \<Rightarrow> bool \<Rightarrow> bool \<Rightarrow> bool \<Rightarrow> grid \<Rightarrow> grid" where
  "viewReset cf hard mobileWebkit nothing g =
     (case map_getCenter (g_view g) of
        None \<Rightarrow> gemit (Called ''Error'' []) g
      | Some c \<Rightarrow> reset cf c (mv_zoom (g_view g)) hard False False mobileWebkit nothing g)"

definition layer_animateZoom :: "sconf \<Rightarrow> latlng \<Rightarrow> int \<Rightarrow> bool \<Rightarrow> bool \<Rightarrow> bool \<Rightarrow> grid \<Rightarrow> grid" where
  "layer_animateZoom cf center zoom noUpdate mobileWebkit nothing g =
     reset cf center zoom False True noUpdate mobileWebkit nothing g"

definition moveStart :: "grid \<Rightarrow> grid" where
  "moveStart g = resetPreFetching False g"

definition layer_move :: "sconf \<Rightarrow> grid \<Rightarrow> grid" where
  "layer_move cf g =
     gemit (Called ''_onCurrentPageUpdate'' []) (resetPreFetching True (layer_update cf None g))"

definition redraw :: "sconf \<Rightarrow> grid \<Rightarrow> grid" where
  "redraw cf g = layer_update cf None (removeAllTiles g)"

end
