(* ===== verification/Tiles.thy ===== *)
theory Tiles
  imports GridLayer
begin

text \<open>
  Properties of the tile layer: the store invariant and what each operation does to it, the
  grouping of requests, the tiles an update leaves, cancelled and pruned tiles, and the border
  fetched ahead.
\<close>

section \<open>Requests\<close>

lemma group_rects_mset:
  "mset (concat (group_rects g cs)) \<subseteq># mset cs \<and>
   filter_mset (wanted g) (mset (concat (group_rects g cs))) = filter_mset (wanted g) (mset cs)"
proof (induction g cs rule: group_rects.induct)
  case (2 g c cs)
  show ?case
  proof (cases "wanted g c")
    case False
    with 2(1) show ?thesis by (auto intro: subset_mset.order_trans)
  next
    case True
    let ?t = "fst (scan_rect (tx c) (ty c) False False cs)"
    let ?r = "snd (scan_rect (tx c) (ty c) False False cs)"
    have split: "mset cs = mset ?t + mset ?r" by (simp add: scan_rect_mset)
    from 2(2) True have IH: "mset (concat (group_rects g ?r)) \<subseteq># mset ?r"
      "filter_mset (wanted g) (mset (concat (group_rects g ?r))) = filter_mset (wanted g) (mset ?r)" by auto
    from IH(1) have "mset ?t + mset (concat (group_rects g ?r)) \<subseteq># mset cs"
      unfolding split by (rule subset_mset.add_left_mono)
    with IH(2) True show ?thesis by (simp add: split)
  qed
qed simp

lemma group_rects_nonempty: "r \<in> set (group_rects g cs) \<Longrightarrow> r \<noteq> []"
  by (induction g cs rule: group_rects.induct) (auto split: if_splits)

lemma row_order_mset [simp]: "mset (row_order q) = mset q"
  by (simp add: row_order_def)

section \<open>Frames\<close>

text \<open>What the loops over tiles leave alone.\<close>

lemma gemit_sel [simp]:
  "g_tiles (gemit e g) = g_tiles g" "g_cache (gemit e g) = g_cache g" "g_empty (gemit e g) = g_empty g"
  "g_view (gemit e g) = g_view g" "g_selectedPart (gemit e g) = g_selectedPart g"
  "g_widthTwips (gemit e g) = g_widthTwips g" "g_heightTwips (gemit e g) = g_heightTwips g"
  "g_tileSize (gemit e g) = g_tileSize g" "g_docWidth (gemit e g) = g_docWidth g"
  "g_docHeight (gemit e g) = g_docHeight g" "g_net (gemit e g) = emit e (g_net g)"
  "g_documentInfo (gemit e g) = g_documentInfo g" "g_widthPx (gemit e g) = g_widthPx g"
  "g_heightPx (gemit e g) = g_heightPx g" "g_clientZoom (gemit e g) = g_clientZoom g"
  "g_preFetchPart (gemit e g) = g_preFetchPart g"
  by (simp_all add: gemit_def)

lemma gsend_sel [simp]:
  "g_tiles (gsend cf m g) = g_tiles g" "g_cache (gsend cf m g) = g_cache g" "g_empty (gsend cf m g) = g_empty g"
  "g_view (gsend cf m g) = g_view g" "g_selectedPart (gsend cf m g) = g_selectedPart g"
  "g_widthTwips (gsend cf m g) = g_widthTwips g" "g_heightTwips (gsend cf m g) = g_heightTwips g"
  "g_tileSize (gsend cf m g) = g_tileSize g" "g_docWidth (gsend cf m g) = g_docWidth g"
  "g_docHeight (gsend cf m g) = g_docHeight g" "g_net (gsend cf m g) = sendMessage cf m (g_net g)"
  "g_documentInfo (gsend cf m g) = g_documentInfo g" "g_widthPx (gsend cf m g) = g_widthPx g"
  "g_heightPx (gsend cf m g) = g_heightPx g" "g_preFetchPart (gsend cf m g) = g_preFetchPart g"
  by (simp_all add: gsend_def)

definition same_frame :: "grid \<Rightarrow> grid \<Rightarrow> bool" where
  "same_frame g h \<longleftrightarrow>
     g_view h = g_view g \<and> g_selectedPart h = g_selectedPart g \<and> g_widthTwips h = g_widthTwips g \<and>
     g_heightTwips h = g_heightTwips g \<and> g_tileSize h = g_tileSize g \<and> g_docWidth h = g_docWidth g \<and>
     g_docHeight h = g_docHeight g \<and> g_widthPx h = g_widthPx g \<and> g_heightPx h = g_heightPx g \<and>
     g_cache h = g_cache g"

lemma same_frame_refl [simp]: "same_frame g g"
  by (simp add: same_frame_def)

lemma same_frame_trans [trans]: "same_frame g h \<Longrightarrow> same_frame h k \<Longrightarrow> same_frame g k"
  by (simp add: same_frame_def)

lemma same_frame_fold: "(\<And>x s. same_frame s (f x s)) \<Longrightarrow> same_frame g (fold f xs g)"
proof (induction xs arbitrary: g)
  case (Cons x xs)
  then show ?case using same_frame_trans [of g "f x g" "fold f xs (f x g)"] by simp
qed simp

lemma same_frame_defs:
  "same_frame g h \<Longrightarrow> coordsToTwips h = coordsToTwips g" "same_frame g h \<Longrightarrow> isValidTile h = isValidTile g"
  "same_frame g h \<Longrightarrow> cached h = cached g" "same_frame g h \<Longrightarrow> wanted h = wanted g"
  "same_frame g h \<Longrightarrow> pxBoundsToTileRange h = pxBoundsToTileRange g"
  "same_frame g h \<Longrightarrow> tilecombine h = tilecombine g" "same_frame g h \<Longrightarrow> visible_area h = visible_area g"
  "same_frame g h \<Longrightarrow> tile_rect h = tile_rect g" "same_frame g h \<Longrightarrow> drops h = drops g"
  by (simp_all add: fun_eq_iff same_frame_def coordsToTwips_def isValidTile_def cached_def wanted_def
      pxBoundsToTileRange_def tilecombine_def visible_area_def visible_corners_def latLngToTwips_def
      tile_rect_def drops_def)

lemma same_frame_ops [simp]:
  "same_frame g (gsend cf m g)" "same_frame g (gemit e g)" "same_frame g (g\<lparr>g_tiles := ts\<rparr>)"
  "same_frame g (g\<lparr>g_empty := n\<rparr>)" "same_frame g (g\<lparr>g_tiles := ts, g_empty := n\<rparr>)"
  "same_frame g (g\<lparr>g_clientZoom := z\<rparr>)" "same_frame g (g\<lparr>g_clientVisibleArea := z\<rparr>)"
  by (simp_all add: same_frame_def)

lemma same_frame_tiles [simp]:
  "same_frame g (set_src k s g)" "same_frame g (add_tile c g)" "same_frame g (add_one c g)"
  "same_frame g (send_rect cf r g)" "same_frame g (age_tiles z g)"
  by (simp_all add: same_frame_def set_src_def add_tile_def add_one_def send_rect_def age_tiles_def Let_def
      split: option.splits)

lemma same_frame_send [simp]:
  "same_frame g (sendClientVisibleArea cf f g)" "same_frame g (sendClientZoom cf f g)"
  "same_frame g (cancelTiles cf g)" "same_frame g (announce_loading g)"
  by (simp_all add: same_frame_def sendClientVisibleArea_def sendClientZoom_def cancelTiles_def
      announce_loading_def Let_def split: option.splits)

section \<open>The store\<close>

text \<open>Every tile sits under the key of its coordinates, and keys are distinct.\<close>

definition store_ok :: "(string, tile) obj \<Rightarrow> bool" where
  "store_ok ts \<longleftrightarrow> obj_ok ts \<and> (\<forall>(k, t) \<in> set ts. k = tileCoordsToKey (t_coords t))"

lemma store_okD: "store_ok ts \<Longrightarrow> map_of ts k = Some t \<Longrightarrow> k = tileCoordsToKey (t_coords t)"
  by (auto simp: store_ok_def dest: map_of_SomeD)

lemma set_obj_put: "(k, v) \<in> set (obj_put a b m) \<Longrightarrow> obj_ok m \<Longrightarrow> (k = a \<and> v = b) \<or> (k, v) \<in> set m"
  by (auto simp: obj_ok_mem [OF obj_ok_put] obj_ok_mem obj_put_get split: if_splits)

lemma store_ok_put: "store_ok ts \<Longrightarrow> k = tileCoordsToKey (t_coords t) \<Longrightarrow> store_ok (obj_put k t ts)"
  by (auto simp: store_ok_def dest!: set_obj_put)

lemma store_ok_update:
  "store_ok ts \<Longrightarrow> map_of ts k = Some t \<Longrightarrow> t_coords t' = t_coords t \<Longrightarrow> store_ok (obj_put k t' ts)"
  using store_okD [of ts k t] by (auto intro: store_ok_put)

lemma obj_ok_filter: "obj_ok m \<Longrightarrow> obj_ok (filter P m)"
  by (simp add: obj_ok_def distinct_map_filter)

lemma store_ok_iff:
  "store_ok ts \<longleftrightarrow> obj_ok ts \<and> (\<forall>k t. (k, t) \<in> set ts \<longrightarrow> k = tileCoordsToKey (t_coords t))"
  by (auto simp: store_ok_def)

lemma store_ok_filter: "store_ok ts \<Longrightarrow> store_ok (filter P ts)"
  by (simp add: store_ok_iff obj_ok_filter)

lemma store_ok_del: "store_ok ts \<Longrightarrow> store_ok (obj_del k ts)"
  by (simp add: AList.delete_eq store_ok_filter)

lemma store_ok_map: "store_ok ts \<Longrightarrow> (\<And>k t. t_coords (f k t) = t_coords t) \<Longrightarrow> store_ok (obj_map f ts)"
  by (auto simp: store_ok_iff obj_map_set)

lemma map_of_filter: "obj_ok m \<Longrightarrow> map_of m k = Some v \<Longrightarrow> P (k, v) \<Longrightarrow> map_of (filter P m) k = Some v"
  using obj_ok_mem [of m k v] obj_ok_mem [OF obj_ok_filter, of m k v P] by simp

section \<open>The tiles of the view\<close>

text \<open>A tile that can be shown as it is: loaded and not invalidated.\<close>

definition fine :: "(string, tile) obj \<Rightarrow> tcoords \<Rightarrow> bool" where
  "fine ts c \<longleftrightarrow> (case map_of ts (tileCoordsToKey c) of None \<Rightarrow> False | Some t \<Rightarrow> t_loaded t \<and> \<not> t_invalid t > 0)"

definition visit_store :: "tcoords \<Rightarrow> (string, tile) obj \<Rightarrow> (string, tile) obj" where
  "visit_store c ts =
     (let key = tileCoordsToKey c
      in case map_of ts key of
           None \<Rightarrow> ts
         | Some t \<Rightarrow>
             if t_loaded t \<and> \<not> t_invalid t > 0 then obj_put key (t\<lparr>t_current := True\<rparr>) ts
             else if t_invalid t > 0 then obj_put key (t\<lparr>t_invalid := 1\<rparr>) ts else ts)"

lemma visit_tile_eq:
  "visit_tile c (g, q, nv) =
     (if isValidTile g c
      then (g\<lparr>g_tiles := visit_store c (g_tiles g)\<rparr>, if fine (g_tiles g) c then q else q @ [c],
            nv \<and> \<not> fine (g_tiles g) c)
      else (g, q, nv))"
  by (auto simp: visit_tile_def visit_store_def fine_def Let_def split: option.splits)

text \<open>Visiting keeps which tiles are there and which are fine, and makes fine ones current.\<close>

lemma fine_visit [simp]: "fine (visit_store c ts) d = fine ts d"
  by (auto simp: fine_def visit_store_def obj_put_get tkey.enc_eq_iff Let_def split: option.splits)

lemma dom_visit [simp]: "dom (map_of (visit_store c ts)) = dom (map_of ts)"
  by (auto simp: visit_store_def obj_put_get Let_def split: option.splits if_splits)

definition shown :: "(string, tile) obj \<Rightarrow> tcoords \<Rightarrow> bool" where
  "shown ts c \<longleftrightarrow> (case map_of ts (tileCoordsToKey c) of None \<Rightarrow> False
     | Some t \<Rightarrow> t_loaded t \<and> \<not> t_invalid t > 0 \<and> t_current t)"

lemma shown_visit: "fine ts c \<Longrightarrow> shown (visit_store c ts) c"
  by (auto simp: fine_def shown_def visit_store_def obj_put_get Let_def split: option.splits)

lemma shown_visit_mono: "shown ts d \<Longrightarrow> shown (visit_store c ts) d"
  by (auto simp: shown_def visit_store_def obj_put_get tkey.enc_eq_iff Let_def split: option.splits)

lemma store_ok_visit: "store_ok ts \<Longrightarrow> store_ok (visit_store c ts)"
  by (auto simp: visit_store_def Let_def store_ok_update split: option.splits)

lemma visit_fold:
  "fold visit_tile cs (g, q, nv) =
     (g\<lparr>g_tiles := fold visit_store (filter (isValidTile g) cs) (g_tiles g)\<rparr>,
      q @ filter (\<lambda>c. isValidTile g c \<and> \<not> fine (g_tiles g) c) cs,
      nv \<and> \<not> (\<exists>c \<in> set cs. isValidTile g c \<and> fine (g_tiles g) c))"
proof (induction cs arbitrary: g q nv)
  case (Cons c cs)
  have v: "isValidTile (g\<lparr>g_tiles := ts\<rparr>) = isValidTile g" for ts by (rule same_frame_defs) simp
  show ?case by (auto simp: visit_tile_eq Cons.IH v)
qed simp

lemma visit_fold_store:
  "dom (map_of (fold visit_store cs ts)) = dom (map_of ts)" "fine (fold visit_store cs ts) d = fine ts d"
  "store_ok ts \<Longrightarrow> store_ok (fold visit_store cs ts)" "shown ts d \<Longrightarrow> shown (fold visit_store cs ts) d"
  by (induction cs arbitrary: ts) (simp_all add: store_ok_visit shown_visit_mono)

lemma visit_fold_shown: "c \<in> set cs \<Longrightarrow> fine ts c \<Longrightarrow> shown (fold visit_store cs ts) c"
proof (induction cs arbitrary: ts)
  case (Cons a cs)
  then show ?case by (cases "c = a") (auto simp: visit_fold_store(4) shown_visit)
qed simp

section \<open>Adding tiles\<close>

lemma map_of_set_src:
  "map_of (g_tiles (set_src k s g)) = (case map_of (g_tiles g) k of None \<Rightarrow> map_of (g_tiles g)
     | Some t \<Rightarrow> (map_of (g_tiles g))(k \<mapsto> t\<lparr>t_src := s\<rparr>))"
  by (auto simp: set_src_def obj_put_get split: option.splits)

lemma dom_add_one:
  "dom (map_of (g_tiles (add_one c g))) =
     (if tpart c = g_selectedPart g then insert (tileCoordsToKey c) (dom (map_of (g_tiles g)))
      else dom (map_of (g_tiles g)))"
  by (auto simp: add_one_def add_tile_def Let_def map_of_set_src obj_put_get split: option.splits)

lemma shown_add_one: "shown (g_tiles g) d \<Longrightarrow> shown (g_tiles (add_one c g)) d"
  by (auto simp: shown_def add_one_def add_tile_def Let_def map_of_set_src obj_put_get tkey.enc_eq_iff
      split: option.splits)

lemma add_fold:
  "dom (map_of (g_tiles g)) \<subseteq> dom (map_of (g_tiles (fold add_one cs g))) \<and>
   (\<forall>c \<in> set cs. tpart c = g_selectedPart g \<longrightarrow> tileCoordsToKey c \<in> dom (map_of (g_tiles (fold add_one cs g)))) \<and>
   (shown (g_tiles g) d \<longrightarrow> shown (g_tiles (fold add_one cs g)) d)"
proof (induction cs arbitrary: g)
  case (Cons c cs)
  have sel: "g_selectedPart (add_one c g) = g_selectedPart g"
    using same_frame_tiles(3) [of g c] by (simp add: same_frame_def)
  note IH = Cons.IH [of "add_one c g", unfolded sel]
  have "dom (map_of (g_tiles g)) \<subseteq> dom (map_of (g_tiles (add_one c g)))" by (auto simp: dom_add_one)
  moreover have "tpart c = g_selectedPart g \<Longrightarrow> tileCoordsToKey c \<in> dom (map_of (g_tiles (add_one c g)))"
    by (auto simp: dom_add_one)
  ultimately show ?case using IH shown_add_one [of g d c] by (simp only: fold_simps list.set) blast
qed simp

lemma send_fold_tiles [simp]: "g_tiles (fold (send_rect cf) rs g) = g_tiles g"
  by (induction rs arbitrary: g) (simp_all add: send_rect_def)

lemma addTiles_tiles: "g_tiles (addTiles cf q g) = g_tiles (fold add_one q g)"
  by (simp add: addTiles_def Let_def)

lemma tiles_send [simp]:
  "g_tiles (sendClientVisibleArea cf f g) = g_tiles g" "g_tiles (sendClientZoom cf f g) = g_tiles g"
  "g_tiles (announce_loading g) = g_tiles g"
  by (simp_all add: sendClientVisibleArea_def sendClientZoom_def announce_loading_def Let_def split: option.splits)

lemma shown_cancel:
  assumes "store_ok (g_tiles g)" "shown (g_tiles g) d" "tpart d = g_selectedPart g"
  shows "shown (g_tiles (cancelTiles cf g)) d"
proof -
  from assms(2) obtain t where t: "map_of (g_tiles g) (tileCoordsToKey d) = Some t" "t_loaded t"
    "\<not> t_invalid t > 0" "t_current t" by (auto simp: shown_def split: option.splits)
  have ok: "obj_ok (g_tiles g)" using assms(1) by (simp add: store_ok_def)
  have "\<not> drops h area t" for h area using t by (simp add: drops_def)
  then have "map_of (filter (\<lambda>(k, t). \<not> drops h area t) (g_tiles g)) (tileCoordsToKey d) = Some t" for h area
    using map_of_filter [OF ok t(1)] by auto
  then show ?thesis using t by (auto simp: cancelTiles_def Let_def shown_def split: option.splits)
qed

section \<open>What an update leaves and sends\<close>

lemma pixelBounds_at: "\<exists>b. getPixelBounds v (Some (c, z)) = Some b"
  by (simp add: getPixelBounds_def getTopLeftPoint_def)

text \<open>The state and queue after the loop over the range.\<close>

definition scan_state :: "int \<Rightarrow> trange \<Rightarrow> grid \<Rightarrow> grid" where
  "scan_state z r g =
     (let g = age_tiles z g
      in g\<lparr>g_tiles := fold visit_store (filter (isValidTile g) (range_coords r z (g_selectedPart g))) (g_tiles g)\<rparr>)"

definition missing :: "int \<Rightarrow> trange \<Rightarrow> grid \<Rightarrow> tcoords list" where
  "missing z r g =
     filter (\<lambda>c. isValidTile g c \<and> \<not> fine (g_tiles g) c) (range_coords r z (g_selectedPart g))"

definition new_view :: "int \<Rightarrow> trange \<Rightarrow> grid \<Rightarrow> bool" where
  "new_view z r g \<longleftrightarrow>
     \<not> (\<exists>c \<in> set (range_coords r z (g_selectedPart g)). isValidTile g c \<and> fine (g_tiles g) c)"

lemma age_frame: "isValidTile (age_tiles z g) = isValidTile g" "g_selectedPart (age_tiles z g) = g_selectedPart g"
  by (simp_all add: same_frame_defs(2) [OF same_frame_tiles(5)]) (simp add: age_tiles_def)

lemma fine_age [simp]: "fine (g_tiles (age_tiles z g)) c = fine (g_tiles g) c"
  by (auto simp: fine_def age_tiles_def obj_map_get split: option.splits)

lemma dom_age [simp]: "dom (map_of (g_tiles (age_tiles z g))) = dom (map_of (g_tiles g))"
  by (simp add: age_tiles_def)

lemma store_ok_age: "store_ok (g_tiles g) \<Longrightarrow> store_ok (g_tiles (age_tiles z g))"
  by (simp add: age_tiles_def store_ok_map)

lemma update_scan:
  "fold visit_tile (range_coords r z (g_selectedPart g)) (age_tiles z g, [], True) =
     (scan_state z r g, missing z r g, new_view z r g)"
  by (simp add: visit_fold scan_state_def missing_def new_view_def Let_def age_frame)

lemma scan_state_frame: "same_frame g (scan_state z r g)"
proof -
  have "same_frame (age_tiles z g) (scan_state z r g)" by (simp add: scan_state_def Let_def)
  then show ?thesis by (rule same_frame_trans [OF same_frame_tiles(5)])
qed

lemma scan_state_net [simp]: "g_net (scan_state z r g) = g_net g"
  by (simp add: scan_state_def age_tiles_def Let_def)

lemma scan_state_store:
  "store_ok (g_tiles g) \<Longrightarrow> store_ok (g_tiles (scan_state z r g))"
  "c \<in> set (range_coords r z (g_selectedPart g)) \<Longrightarrow> isValidTile g c \<Longrightarrow> fine (g_tiles g) c \<Longrightarrow>
   shown (g_tiles (scan_state z r g)) c"
  by (simp_all add: scan_state_def Let_def age_frame visit_fold_store store_ok_age visit_fold_shown)

lemma layer_update_eq:
  assumes "g_documentInfo g \<noteq> ''''" "getPixelBounds (g_view g) (Some (c, z)) = Some b"
  shows "layer_update cf (Some (c, z)) g =
    (let r = pxBoundsToTileRange g b;
         h = sendClientZoom cf True (sendClientVisibleArea cf True (scan_state z r g))
     in if missing z r g = [] then h
        else addTiles cf (missing z r g) (announce_loading (if new_view z r g then cancelTiles cf h else h)))"
  using assms by (simp add: layer_update_def Let_def update_scan)

text \<open>Every tile of the range that lies in the document is there after an update, shown when it
  was fine before.\<close>

lemma update_covers:
  assumes ok: "store_ok (g_tiles g)" and d: "g_documentInfo g \<noteq> ''''"
    and b: "getPixelBounds (g_view g) (Some (c, z)) = Some b"
    and t: "t \<in> set (range_coords (pxBoundsToTileRange g b) z (g_selectedPart g))" "isValidTile g t"
  shows "tileCoordsToKey t \<in> dom (map_of (g_tiles (layer_update cf (Some (c, z)) g)))"
    and "fine (g_tiles g) t \<Longrightarrow> shown (g_tiles (layer_update cf (Some (c, z)) g)) t"
proof -
  define r where "r = pxBoundsToTileRange g b"
  define s where "s = scan_state z r g"
  define h where "h = sendClientZoom cf True (sendClientVisibleArea cf True s)"
  define k where "k = announce_loading (if new_view z r g then cancelTiles cf h else h)"
  have eq: "layer_update cf (Some (c, z)) g =
      (if missing z r g = [] then h else addTiles cf (missing z r g) k)"
    using layer_update_eq [OF d b, of cf] by (simp add: Let_def h_def s_def k_def r_def)
  have part: "tpart t = g_selectedPart g" using t(1) by (auto simp: range_coords_def)
  have ht: "g_tiles h = g_tiles s" by (simp add: h_def)
  have fs: "same_frame g s" unfolding s_def by (rule scan_state_frame)
  have fh: "same_frame s h" unfolding h_def
    by (rule same_frame_trans [OF same_frame_send(1) same_frame_send(2)])
  have fk: "same_frame h k" unfolding k_def
    using same_frame_trans [OF same_frame_send(3) same_frame_send(4)] same_frame_send(4) by simp
  have sel: "g_selectedPart h = g_selectedPart g" "g_selectedPart k = g_selectedPart g"
    using fs fh fk by (simp_all add: same_frame_def)
  have okh: "store_ok (g_tiles h)" using scan_state_store(1) [OF ok] by (simp add: ht s_def)
  have shown_k: "shown (g_tiles k) t" if "fine (g_tiles g) t"
  proof -
    have "shown (g_tiles h) t" using scan_state_store(2) t that by (simp add: ht s_def r_def)
    then show ?thesis using shown_cancel [OF okh] part sel by (simp add: k_def)
  qed
  have shown_h: "shown (g_tiles h) t" if "fine (g_tiles g) t"
    using scan_state_store(2) t that by (simp add: ht s_def r_def)
  have dom_shown: "shown ts t \<Longrightarrow> tileCoordsToKey t \<in> dom (map_of ts)" for ts
    by (auto simp: shown_def split: option.splits)
  show goal2: "fine (g_tiles g) t \<Longrightarrow> shown (g_tiles (layer_update cf (Some (c, z)) g)) t"
    using shown_h shown_k add_fold [of k "missing z r g" t] by (simp add: eq addTiles_tiles)
  show "tileCoordsToKey t \<in> dom (map_of (g_tiles (layer_update cf (Some (c, z)) g)))"
  proof (cases "fine (g_tiles g) t")
    case True
    from dom_shown [OF goal2 [OF True]] show ?thesis .
  next
    case False
    then have m: "t \<in> set (missing z r g)" using t by (simp add: missing_def r_def)
    then have "missing z r g \<noteq> []" by auto
    moreover have "tileCoordsToKey t \<in> dom (map_of (g_tiles (fold add_one (missing z r g) k)))"
      using add_fold [of k "missing z r g" t] m part sel by simp
    ultimately show ?thesis by (simp add: eq addTiles_tiles)
  qed
qed

lemma range_coords_mem:
  "tc i j z p \<in> set (range_coords r z p) \<longleftrightarrow> r_x0 r \<le> i \<and> i \<le> r_x1 r \<and> r_y0 r \<le> j \<and> j \<le> r_y1 r"
  unfolding range_coords_def by (auto simp: image_iff)

text \<open>The range covers the pixels of the bounds.\<close>

lemma range_covers:
  assumes "g_tileSize g > 0" "p \<in> rect b"
  shows "tc \<lfloor>px p / of_int (g_tileSize g)\<rfloor> \<lfloor>py p / of_int (g_tileSize g)\<rfloor> z part
    \<in> set (range_coords (pxBoundsToTileRange g b) z part)"
proof -
  let ?s = "of_int (g_tileSize g) :: real"
  have s: "0 < ?s" using assms(1) by simp
  have cover: "\<lfloor>l / ?s\<rfloor> - 1 \<le> \<lfloor>x / ?s\<rfloor> \<and> \<lfloor>x / ?s\<rfloor> \<le> \<lceil>h / ?s\<rceil>" if "l \<le> x" "x \<le> h" for l x h
  proof -
    have "l / ?s \<le> x / ?s" "x / ?s \<le> h / ?s" using that s by (simp_all add: divide_right_mono)
    then have "\<lfloor>l / ?s\<rfloor> \<le> \<lfloor>x / ?s\<rfloor>" "\<lfloor>x / ?s\<rfloor> \<le> \<lfloor>h / ?s\<rfloor>" by (auto intro: floor_mono)
    moreover have "\<lfloor>h / ?s\<rfloor> \<le> \<lceil>h / ?s\<rceil>" by linarith
    ultimately show ?thesis by linarith
  qed
  have "px (bmin b) \<le> px p" "px p \<le> px (bmax b)" "py (bmin b) \<le> py p" "py p \<le> py (bmax b)"
    using assms(2) by (auto simp: rect_def)
  from cover [OF this(1,2)] cover [OF this(3,4)] show ?thesis
    by (simp add: range_coords_mem pxBoundsToTileRange_def new_trange_def Let_def)
qed

lemma delivered_emit [simp]: "delivered (emit e s) = delivered s"
  by (simp add: delivered_def)

lemma delivered_send: "delivered s \<Longrightarrow> sendMessage cf m s = emit (Sent m) s"
  by (rule sendMessage_open) (auto simp: delivered_def accepts_def connected_def)

lemma group_rects_cong: "wanted h = wanted g \<Longrightarrow> group_rects h cs = group_rects g cs"
  by (induction g cs rule: group_rects.induct) simp_all

lemma send_fold_log:
  "delivered (g_net g) \<Longrightarrow>
   sent_of (log (g_net (fold (send_rect cf) rs g))) =
     sent_of (log (g_net g)) @ map (\<lambda>r. tilecombine g (tpart (last r)) r) rs"
proof (induction rs arbitrary: g)
  case (Cons r rs)
  have f: "tilecombine (send_rect cf r g) = tilecombine g" by (rule same_frame_defs) simp
  have n: "g_net (send_rect cf r g) = emit (Sent (tilecombine g (tpart (last r)) r)) (g_net g)"
    using Cons.prems by (simp add: send_rect_def delivered_send)
  have "delivered (g_net (send_rect cf r g))" using Cons.prems by (simp add: n)
  from Cons.IH [OF this] show ?case by (simp add: f n)
qed simp

lemma add_one_net: "sent_of (log (g_net (add_one c g))) = sent_of (log (g_net g)) \<and>
    delivered (g_net (add_one c g)) = delivered (g_net g)"
  by (auto simp: add_one_def add_tile_def set_src_def Let_def split: option.splits)

lemma add_fold_net: "sent_of (log (g_net (fold add_one cs g))) = sent_of (log (g_net g)) \<and>
    delivered (g_net (fold add_one cs g)) = delivered (g_net g)"
  by (induction cs arbitrary: g) (simp_all add: add_one_net)

lemma addTiles_sent:
  assumes "delivered (g_net g)"
  shows "sent_of (log (g_net (addTiles cf q g))) =
    sent_of (log (g_net g)) @ map (\<lambda>r. tilecombine g (tpart (last r)) r) (group_rects g (row_order q))"
proof -
  let ?h = "fold add_one q g"
  have f: "same_frame g ?h" by (rule same_frame_fold) simp
  have "delivered (g_net ?h)" using add_fold_net [of q g] assms by simp
  then show ?thesis
    by (simp add: addTiles_def Let_def send_fold_log add_fold_net same_frame_defs [OF f]
        group_rects_cong [OF same_frame_defs(4) [OF f]])
qed

section \<open>Cancelling\<close>

lemma cancelTiles_left:
  assumes "visible_area g = Some area" "(k, t) \<in> set (g_tiles (cancelTiles cf g))"
  shows "(k, t) \<in> set (g_tiles g) \<and> t_loaded t \<and>
    (t_invalid t > 0 \<longrightarrow> tpart (t_coords t) = g_selectedPart g \<and>
       bounds_intersects area (tile_rect g (t_coords t)))"
proof -
  have f: "same_frame g (gsend cf ''canceltiles'' g)" by simp
  from assms show ?thesis
    by (auto simp: cancelTiles_def Let_def same_frame_defs(7) [OF f] drops_def same_frame_defs(8) [OF f]
        split: if_splits)
qed

lemma cancelTiles_empty: "visible_area g = Some area \<Longrightarrow> g_empty (cancelTiles cf g) = 0"
  using same_frame_defs(7) [of g "gsend cf ''canceltiles'' g"] by (simp add: cancelTiles_def Let_def)

section \<open>Pruning\<close>

text \<open>The marking loops only raise the \<open>retain\<close> flag, and only of tiles that can be shown.\<close>

definition raised :: "tile \<Rightarrow> tile \<Rightarrow> bool" where
  "raised t t' \<longleftrightarrow>
     t' = t\<lparr>t_retain := t_retain t'\<rparr> \<and> (t_retain t \<longrightarrow> t_retain t') \<and>
     (t_retain t' \<longrightarrow> t_retain t \<or> t_active t \<or> t_loaded t)"

definition raised_all :: "(string, tile) obj \<Rightarrow> (string, tile) obj \<Rightarrow> bool" where
  "raised_all ts ts' \<longleftrightarrow> (\<forall>k. rel_option raised (map_of ts k) (map_of ts' k)) \<and> map fst ts' = map fst ts"

lemma raised_refl [simp]: "raised t t"
  by (simp add: raised_def)

lemma raised_trans:
  assumes "raised t u" "raised u v"
  shows "raised t v"
proof -
  have u: "u = t\<lparr>t_retain := t_retain u\<rparr>" and v: "v = u\<lparr>t_retain := t_retain v\<rparr>"
    using assms by (simp_all add: raised_def)
  then have "v = t\<lparr>t_retain := t_retain v\<rparr>" "t_active u = t_active t" "t_loaded u = t_loaded t"
    by (metis tile.surjective tile.update_convs(6) tile.select_convs(4,5))+
  then show ?thesis using assms by (auto simp: raised_def)
qed

lemma raised_all_refl [simp]: "raised_all ts ts"
  by (simp add: raised_all_def option.rel_refl)

lemma raised_all_trans:
  assumes "raised_all a b" "raised_all b c"
  shows "raised_all a c"
proof -
  have "rel_option raised (map_of a k) (map_of c k)" for k
  proof -
    have "rel_option raised (map_of a k) (map_of b k)" "rel_option raised (map_of b k) (map_of c k)"
      using assms by (simp_all add: raised_all_def)
    then show ?thesis
      by (cases "map_of a k"; cases "map_of b k"; cases "map_of c k") (auto intro: raised_trans)
  qed
  then show ?thesis using assms by (simp add: raised_all_def)
qed

lemma raised_all_put:
  assumes "map_of ts k = Some t" "t_active t \<or> t_loaded t"
  shows "raised_all ts (obj_put k (t\<lparr>t_retain := True\<rparr>) ts)"
proof -
  have "k \<in> fst ` set ts" using assms(1) by (force dest: map_of_SomeD)
  moreover have "rel_option raised (map_of ts j) (map_of (obj_put k (t\<lparr>t_retain := True\<rparr>) ts) j)" for j
    using assms by (auto simp: obj_put_get raised_def option.rel_refl)
  ultimately show ?thesis by (simp add: raised_all_def update_keys)
qed

lemma raised_mark: "raised_all ts (mark_loaded key ts)"
  by (auto simp: mark_loaded_def raised_all_put split: option.splits)

lemma raised_fold:
  "(\<And>x ts. raised_all ts (f x ts)) \<Longrightarrow> raised_all ts (fold f xs ts)"
proof (induction xs arbitrary: ts)
  case (Cons x xs)
  then show ?case using raised_all_trans [of ts "f x ts" "fold f xs (f x ts)"] by simp
qed simp

lemma raised_parent: "raised_all ts (fst (retainParent x y z p m ts))"
proof (induction x y z p m ts rule: retainParent.induct)
  case (1 x y z p m ts)
  let ?x = "parent_cell x" and ?y = "parent_cell y"
  let ?key = "tileCoordsToKey (tc ?x ?y (z - 1) p)"
  show ?case
  proof (cases "map_of ts ?key")
    case None
    then show ?thesis using "1.IH"(1) [OF refl refl refl refl] by (subst retainParent.simps) (simp add: Let_def)
  next
    case (Some t)
    let ?u = "if t_loaded t then obj_put ?key (t\<lparr>t_retain := True\<rparr>) ts else ts"
    have u: "raised_all ts ?u" using raised_all_put [OF Some] by simp
    show ?thesis
    proof (cases "t_active t")
      case True
      then show ?thesis using Some raised_all_put [OF Some] by (subst retainParent.simps) (simp add: Let_def)
    next
      case False
      have "m < z - 1 \<Longrightarrow> raised_all ts (fst (retainParent ?x ?y (z - 1) p m ?u))"
        using "1.IH"(2) [OF refl refl refl refl Some False refl] raised_all_trans [OF u] by simp
      then show ?thesis using Some False u by (subst retainParent.simps) (simp add: Let_def)
    qed
  qed
qed

lemma raised_children: "raised_all ts (retainChildren d x y z p ts)"
proof (induction d arbitrary: x y z ts)
  case 0
  show ?case by (simp add: retainChildren.simps case_prod_unfold raised_fold raised_mark)
next
  case (Suc d)
  have "raised_all ts (let key = tileCoordsToKey (tc \<lfloor>i\<rfloor> \<lfloor>j\<rfloor> (z + 1) p); ts' = mark_loaded key ts
       in if is_active key ts then ts' else retainChildren d i j (z + 1) p ts')" for i j ts
    using raised_all_trans [OF raised_mark Suc.IH] raised_mark by (simp add: Let_def)
  then show ?case by (simp add: retainChildren.simps case_prod_unfold raised_fold)
qed

lemma raised_for: "raised_all ts (retain_for key ts)"
proof (cases "map_of ts key")
  case (Some t)
  let ?c = "t_coords t"
  have "raised_all ts (retainChildren d x y z p (fst (retainParent (tx ?c) (ty ?c) (tz ?c) (tpart ?c) m ts)))"
    for d x y z p m by (rule raised_all_trans [OF raised_parent raised_children])
  then show ?thesis using Some raised_parent
    by (simp add: retain_for_def Let_def case_prod_unfold)
qed (simp add: retain_for_def)

lemma retained_facts:
  "map fst (retained ts) = map fst ts"
  "map_of ts k = Some t \<Longrightarrow> \<exists>r. map_of (retained ts) k = Some (t\<lparr>t_retain := r\<rparr>) \<and>
     (t_current t \<longrightarrow> r) \<and> (r \<longrightarrow> t_current t \<or> t_active t \<or> t_loaded t)"
  "map_of ts k = None \<Longrightarrow> map_of (retained ts) k = None"
proof -
  let ?u = "obj_map (\<lambda>k t. t\<lparr>t_retain := t_current t\<rparr>) ts"
  have r: "raised_all ?u (retained ts)" by (simp add: retained_def Let_def raised_fold raised_for)
  then show "map fst (retained ts) = map fst ts" by (simp add: raised_all_def)
  have k: "rel_option raised (map_of ?u k) (map_of (retained ts) k)" using r by (simp add: raised_all_def)
  show "map_of ts k = None \<Longrightarrow> map_of (retained ts) k = None" using k by (simp add: obj_map_get)
  show "map_of ts k = Some t \<Longrightarrow> \<exists>r. map_of (retained ts) k = Some (t\<lparr>t_retain := r\<rparr>) \<and>
     (t_current t \<longrightarrow> r) \<and> (r \<longrightarrow> t_current t \<or> t_active t \<or> t_loaded t)"
  proof -
    assume t: "map_of ts k = Some t"
    with k obtain t' where t': "map_of (retained ts) k = Some t'" "raised (t\<lparr>t_retain := t_current t\<rparr>) t'"
      by (cases "map_of (retained ts) k") (auto simp: obj_map_get)
    then have "t' = t\<lparr>t_retain := t_retain t'\<rparr>" unfolding raised_def by simp
    then show ?thesis using t' by (intro exI [of _ "t_retain t'"]) (auto simp: raised_def)
  qed
qed

definition prune_one :: "string \<Rightarrow> grid \<Rightarrow> grid" where
  "prune_one key g = (case map_of (g_tiles g) key of
     None \<Rightarrow> g | Some t \<Rightarrow> if t_retain t then g else removeTile key g)"

lemma removeTile_tiles: "map_of (g_tiles (removeTile key g)) = (map_of (g_tiles g))(key := None)"
  by (auto simp: removeTile_def obj_del_get Let_def split: option.splits)

lemma removeTile_cache:
  "map_of (g_cache (removeTile key g)) k =
     (case map_of (g_tiles g) key of
        Some t \<Rightarrow> if key = k \<and> \<not> t_invalid t > 0 then Some (t_src t) else map_of (g_cache g) k
      | None \<Rightarrow> map_of (g_cache g) k)"
  by (auto simp: removeTile_def obj_put_get Let_def split: option.splits)

lemma prune_fold_tiles:
  "map_of (g_tiles (fold prune_one ks g)) k =
     (case map_of (g_tiles g) k of
        Some t \<Rightarrow> if k \<in> set ks \<and> \<not> t_retain t then None else Some t | None \<Rightarrow> None)"
  by (induction ks arbitrary: g)
    (auto simp: prune_one_def removeTile_tiles split: option.splits if_splits)

lemma prune_fold_cache:
  "map_of (g_cache (fold prune_one ks g)) k =
     (case map_of (g_tiles g) k of
        Some t \<Rightarrow> if k \<in> set ks \<and> \<not> t_retain t \<and> \<not> t_invalid t > 0 then Some (t_src t) else map_of (g_cache g) k
      | None \<Rightarrow> map_of (g_cache g) k)"
proof (induction ks arbitrary: g)
  case (Cons a ks)
  show ?case
    by (simp add: Cons.IH)
      (auto simp: prune_one_def removeTile_tiles removeTile_cache split: option.splits if_splits)
qed (simp split: option.splits)

lemma pruneTiles_eq: "pruneTiles g = fold prune_one (obj_keys (g_tiles g)) (g\<lparr>g_tiles := retained (g_tiles g)\<rparr>)"
  by (simp add: pruneTiles_def retained_facts(1) prune_one_def [abs_def] Let_def)

text \<open>What is left after pruning, and what went to the cache.\<close>

lemma pruneTiles_keeps:
  assumes "map_of (g_tiles g) k = Some t" "t_current t"
  shows "map_of (g_tiles (pruneTiles g)) k = Some (t\<lparr>t_retain := True\<rparr>)"
proof -
  obtain r where "map_of (retained (g_tiles g)) k = Some (t\<lparr>t_retain := r\<rparr>)" "r"
    using retained_facts(2) [OF assms(1)] assms(2) by blast
  then show ?thesis by (simp add: pruneTiles_eq prune_fold_tiles)
qed

lemma pruneTiles_left:
  assumes "map_of (g_tiles (pruneTiles g)) k = Some u"
  shows "\<exists>t. map_of (g_tiles g) k = Some t \<and> u = t\<lparr>t_retain := True\<rparr> \<and> (t_current t \<or> t_active t \<or> t_loaded t)"
proof (cases "map_of (g_tiles g) k")
  case None
  with retained_facts(3) [OF this] assms show ?thesis by (simp add: pruneTiles_eq prune_fold_tiles)
next
  case (Some t)
  from Some have "k \<in> set (obj_keys (g_tiles g))" by (force dest: map_of_SomeD)
  moreover obtain r where "map_of (retained (g_tiles g)) k = Some (t\<lparr>t_retain := r\<rparr>)"
    "r \<longrightarrow> t_current t \<or> t_active t \<or> t_loaded t" using retained_facts(2) [OF Some] by blast
  ultimately show ?thesis using Some assms
    by (cases r) (auto simp: pruneTiles_eq prune_fold_tiles)
qed

lemma pruneTiles_cached:
  assumes "map_of (g_tiles g) k = Some t" "map_of (g_tiles (pruneTiles g)) k = None" "\<not> t_invalid t > 0"
  shows "map_of (g_cache (pruneTiles g)) k = Some (t_src t)"
proof -
  from assms(1) have k: "k \<in> set (obj_keys (g_tiles g))" by (force dest: map_of_SomeD)
  obtain r where r: "map_of (retained (g_tiles g)) k = Some (t\<lparr>t_retain := r\<rparr>)"
    using retained_facts(2) [OF assms(1)] by blast
  with assms(2) have "\<not> r" using k by (auto simp: pruneTiles_eq prune_fold_tiles)
  with r k assms(3) show ?thesis by (simp add: pruneTiles_eq prune_fold_cache)
qed

section \<open>Fetching ahead\<close>

text \<open>What may be fetched ahead: tiles of the document that are neither shown, waited for nor
  cached.\<close>

definition fetchable :: "grid \<Rightarrow> int \<Rightarrow> tcoords \<Rightarrow> bool" where
  "fetchable g zoom c \<longleftrightarrow>
     isValidTile g c \<and> map_of (g_tiles g) (tileCoordsToKey c) = None \<and> \<not> cached g (tileCoordsToKey c) \<and>
     tz c = zoom \<and> tpart c = g_preFetchPart g"

lemma pick_tiles_spec:
  "distinct vs \<Longrightarrow> list_all (fetchable g zoom) vs \<Longrightarrow> pick_tiles g zoom cs n vs = (ws, m) \<Longrightarrow>
   distinct ws \<and> list_all (fetchable g zoom) ws \<and> length ws + m = length vs + n"
proof (induction g zoom cs n vs rule: pick_tiles.induct)
  case (2 g zoom i j cs n vs)
  let ?c = "tc i j zoom (g_preFetchPart g)"
  let ?skip = "\<not> isValidTile g ?c \<or> map_of (g_tiles g) (tileCoordsToKey ?c) \<noteq> None \<or> cached g (tileCoordsToKey ?c)
      \<or> tileCoordsToKey ?c \<in> set (map tileCoordsToKey vs)"
  show ?case
  proof (cases "n = 0")
    case True
    with "2.prems" show ?thesis by simp
  next
    case n: False
    show ?thesis
    proof (cases ?skip)
      case True
      then have "pick_tiles g zoom ((i, j) # cs) n vs = pick_tiles g zoom cs n vs"
        using n by (simp add: Let_def)
      then show ?thesis using "2.IH"(1) [OF n refl refl True] "2.prems" by simp
    next
      case False
      then have new: "?c \<notin> set vs" "fetchable g zoom ?c" by (auto simp: fetchable_def)
      have "pick_tiles g zoom ((i, j) # cs) n vs = pick_tiles g zoom cs (n - 1) (vs @ [?c])"
        using n False by (simp add: Let_def)
      then show ?thesis using "2.IH"(2) [OF n refl refl False] "2.prems" new n by auto
    qed
  qed
qed auto

lemma prefetch_loop_spec:
  "distinct vs \<Longrightarrow> list_all (fetchable g zoom) vs \<Longrightarrow>
   distinct (prefetch_loop g zoom w b q n vs) \<and> list_all (fetchable g zoom) (prefetch_loop g zoom w b q n vs) \<and>
   length (prefetch_loop g zoom w b q n vs) \<le> length vs + n"
proof (induction w arbitrary: b q n vs)
  case (Suc w)
  obtain ws m where p: "pick_tiles g zoom (q @ border_cells b) n vs = (ws, m)" by fastforce
  note s = pick_tiles_spec [OF Suc.prems p]
  from s have "distinct (prefetch_loop g zoom w (grow g b) (q @ border_cells b) m ws) \<and>
      list_all (fetchable g zoom) (prefetch_loop g zoom w (grow g b) (q @ border_cells b) m ws) \<and>
      length (prefetch_loop g zoom w (grow g b) (q @ border_cells b) m ws) \<le> length ws + m"
    by (intro Suc.IH) auto
  then show ?case using s Suc.prems by (simp add: p Let_def)
qed simp

section \<open>Runs of the layer\<close>

text \<open>The events the layer handles (\<open>getEvents\<close>, the timers of fetching ahead, a finished tile,
  a change of part or of the map's view between them).\<close>

datatype gevent =
    ViewReset bool | MoveStart | MoveEnd | ZoomAnim latlng int bool | Ready tcoords bool
  | FetchTick | IdleTick | PartChange | Redraw | ViewChanged mview

definition gstep :: "sconf \<Rightarrow> gevent \<Rightarrow> grid \<Rightarrow> grid" where
  "gstep cf e g =
     (case e of
        ViewReset hard \<Rightarrow> viewReset cf hard False False g
      | MoveStart \<Rightarrow> moveStart g
      | MoveEnd \<Rightarrow> layer_move cf g
      | ZoomAnim c z noUpdate \<Rightarrow> layer_animateZoom cf c z noUpdate False False g
      | Ready c err \<Rightarrow> tileReady c err g
      | FetchTick \<Rightarrow> if g_preFetcher g then preFetchTiles cf g else g
      | IdleTick \<Rightarrow> preFetchIdleExpires g
      | PartChange \<Rightarrow> updateOnChangePart cf g
      | Redraw \<Rightarrow> redraw cf g
      | ViewChanged v \<Rightarrow> g\<lparr>g_view := v\<rparr>)"

text \<open>The invariant of the store with the count of empty tiles.\<close>

definition layer_ok :: "grid \<Rightarrow> bool" where
  "layer_ok g \<longleftrightarrow> store_ok (g_tiles g) \<and> obj_ok (g_cache g) \<and> g_empty g \<ge> 0"

lemma layer_ok_frame:
  "g_tiles h = g_tiles g \<Longrightarrow> g_cache h = g_cache g \<Longrightarrow> g_empty h = g_empty g \<Longrightarrow> layer_ok h = layer_ok g"
  by (simp add: layer_ok_def)

lemma layer_ok_ops [simp]:
  "layer_ok (gemit e g) = layer_ok g" "layer_ok (gsend cf m g) = layer_ok g"
  "layer_ok (g\<lparr>g_clientZoom := z\<rparr>) = layer_ok g" "layer_ok (g\<lparr>g_clientVisibleArea := z\<rparr>) = layer_ok g"
  "layer_ok (g\<lparr>g_clientZoom := z, g_clientVisibleArea := z'\<rparr>) = layer_ok g"
  "layer_ok (g\<lparr>g_tileZoom := tz'\<rparr>) = layer_ok g" "layer_ok (g\<lparr>g_view := v\<rparr>) = layer_ok g"
  "layer_ok (g\<lparr>g_preFetcher := b\<rparr>) = layer_ok g" "layer_ok (g\<lparr>g_preFetchBorder := bo\<rparr>) = layer_ok g"
  by (simp_all add: layer_ok_def)

lemma layer_ok_send [simp]:
  "layer_ok (sendClientVisibleArea cf f g) = layer_ok g" "layer_ok (sendClientZoom cf f g) = layer_ok g"
  "layer_ok (announce_loading g) = layer_ok g"
  by (simp_all add: sendClientVisibleArea_def sendClientZoom_def announce_loading_def Let_def split: option.splits)

lemma layer_ok_fold: "(\<And>x s. layer_ok s \<Longrightarrow> layer_ok (f x s)) \<Longrightarrow> layer_ok g \<Longrightarrow> layer_ok (fold f xs g)"
  by (induction xs arbitrary: g) simp_all

lemma layer_ok_put:
  "layer_ok g \<Longrightarrow> map_of (g_tiles g) k = Some t \<Longrightarrow> t_coords t' = t_coords t \<Longrightarrow>
   layer_ok (g\<lparr>g_tiles := obj_put k t' (g_tiles g)\<rparr>)"
  by (auto simp: layer_ok_def intro: store_ok_update)

lemma layer_ok_set_src: "layer_ok g \<Longrightarrow> layer_ok (set_src k s g)"
  by (auto simp: set_src_def layer_ok_put split: option.splits)

lemma layer_ok_add_tile: "layer_ok g \<Longrightarrow> layer_ok (add_tile c g)"
  by (auto simp: add_tile_def layer_ok_def new_tile_def intro: store_ok_put)

lemma layer_ok_add_one: "layer_ok g \<Longrightarrow> layer_ok (add_one c g)"
  by (simp add: add_one_def Let_def layer_ok_add_tile layer_ok_set_src)

lemma layer_ok_addTiles: "layer_ok g \<Longrightarrow> layer_ok (addTiles cf q g)"
  by (simp add: addTiles_def Let_def layer_ok_fold layer_ok_add_one send_rect_def)

lemma layer_ok_cancel: "layer_ok g \<Longrightarrow> layer_ok (cancelTiles cf g)"
  by (auto simp: cancelTiles_def Let_def layer_ok_def store_ok_filter split: option.splits)

lemma layer_ok_remove: "layer_ok g \<Longrightarrow> layer_ok (removeTile k g)"
  by (auto simp: removeTile_def Let_def layer_ok_def store_ok_del split: option.splits)

lemma layer_ok_removeAll: "layer_ok g \<Longrightarrow> layer_ok (removeAllTiles g)"
  by (simp add: removeAllTiles_def layer_ok_fold layer_ok_remove)

lemma store_ok_raised:
  assumes ok: "store_ok ts" and keys: "map fst us = map fst ts"
    and get: "\<And>k u. map_of us k = Some u \<Longrightarrow> \<exists>t. map_of ts k = Some t \<and> t_coords u = t_coords t"
  shows "store_ok us"
proof -
  have o: "obj_ok us" using ok keys by (simp add: store_ok_def obj_ok_def)
  moreover have "k = tileCoordsToKey (t_coords u)" if "(k, u) \<in> set us" for k u
    using get [of k u] that store_okD [OF ok] by (auto simp: obj_ok_mem [OF o])
  ultimately show ?thesis by (auto simp: store_ok_def)
qed

lemma store_ok_retained:
  assumes "store_ok ts"
  shows "store_ok (retained ts)"
  using assms retained_facts(1)
proof (rule store_ok_raised)
  fix k u assume u: "map_of (retained ts) k = Some u"
  then obtain t where "map_of ts k = Some t" using retained_facts(3) [of ts k] by (cases "map_of ts k") auto
  with u retained_facts(2) [OF this] show "\<exists>t. map_of ts k = Some t \<and> t_coords u = t_coords t" by auto
qed

lemma layer_ok_prune: "layer_ok g \<Longrightarrow> layer_ok (pruneTiles g)"
  unfolding pruneTiles_eq
proof (rule layer_ok_fold)
  show "layer_ok s \<Longrightarrow> layer_ok (prune_one k s)" for k s
    by (simp add: prune_one_def layer_ok_remove split: option.split)
qed (simp add: layer_ok_def store_ok_retained)

lemma layer_ok_scan: "layer_ok g \<Longrightarrow> layer_ok (scan_state z r g)"
  using scan_state_store(1) [of g z r]
  by (auto simp: layer_ok_def scan_state_def age_tiles_def Let_def)

lemma layer_ok_update: "layer_ok g \<Longrightarrow> layer_ok (layer_update cf cz g)"
proof (cases cz)
  case (Some p)
  assume ok: "layer_ok g"
  obtain c z where p: "p = (c, z)" by fastforce
  show ?thesis
  proof (cases "g_documentInfo g = ''''")
    case False
    obtain b where b: "getPixelBounds (g_view g) (Some (c, z)) = Some b" using pixelBounds_at by blast
    show ?thesis
      using ok by (simp add: Some p layer_update_eq [OF False b] Let_def layer_ok_scan layer_ok_addTiles layer_ok_cancel)
  qed (simp add: layer_update_def ok)
next
  case None
  assume ok: "layer_ok g"
  show ?thesis
  proof (cases "map_getCenter (g_view g)")
    case (Some c)
    obtain b where b: "getPixelBounds (g_view g) (Some (c, mv_zoom (g_view g))) = Some b" using pixelBounds_at by blast
    have "layer_update cf None g = layer_update cf (Some (c, mv_zoom (g_view g))) g"
      by (simp add: layer_update_def Some)
    then show ?thesis
      using ok b layer_update_eq [of g c "mv_zoom (g_view g)" b cf]
      by (cases "g_documentInfo g = ''''")
        (simp_all add: None Let_def layer_ok_scan layer_ok_addTiles layer_ok_cancel, simp add: layer_update_def)
  qed (simp add: layer_update_def ok None)
qed

lemma layer_ok_visit_part: "layer_ok g \<Longrightarrow> layer_ok (fst (fold visit_part cs (g, q, nv)))"
proof (induction cs arbitrary: g q nv)
  case (Cons c cs)
  obtain h q' nv' where v: "visit_part c (g, q, nv) = (h, q', nv')" by (metis prod_cases3)
  have "layer_ok h"
    using v Cons.prems by (auto simp: visit_part_def Let_def layer_ok_put split: if_splits option.splits)
  then show ?case using Cons.IH by (simp add: v)
qed simp

lemma layer_ok_add_part: "layer_ok g \<Longrightarrow> layer_ok (fst (fold add_part_tile cs (g, ask)))"
proof (induction cs arbitrary: g ask)
  case (Cons c cs)
  obtain h ask' where v: "add_part_tile c (g, ask) = (h, ask')" by fastforce
  have "layer_ok h"
    using v Cons.prems by (auto simp: add_part_tile_def Let_def layer_ok_set_src layer_ok_add_tile split: if_splits)
  then show ?case using Cons.IH by (simp add: v)
qed simp

lemma layer_ok_age: "layer_ok g \<Longrightarrow> layer_ok (age_tiles z g)"
  by (simp add: layer_ok_def store_ok_age) (simp add: age_tiles_def)

lemma layer_ok_part: "layer_ok g \<Longrightarrow> layer_ok (updateOnChangePart cf g)"
proof -
  assume ok: "layer_ok g"
  have v: "layer_ok h" if "fold visit_part cs (age_tiles z g, [], True) = (h, q, nv)" for cs z h q nv
    using layer_ok_visit_part [OF layer_ok_age [OF ok], of cs z "[]" True] that by simp
  have a: "layer_ok h" if "fold add_part_tile q (k, []) = (h, ask)" "layer_ok k" for q k h ask
    using layer_ok_add_part [OF that(2), of q "[]"] that(1) by simp
  show ?thesis
    using ok by (auto simp: updateOnChangePart_def Let_def layer_ok_cancel split: option.splits prod.splits
        dest!: v a)
qed

lemma layer_ok_ready: "layer_ok g \<Longrightarrow> layer_ok (tileReady c err g)"
  using layer_ok_put [of "gemit (Fired ''tileerror'' (JStr (tileCoordsToKey c))) g"]
  by (auto simp: tileReady_def Let_def layer_ok_prune layer_ok_put split: option.splits)

lemma layer_ok_fetch: "layer_ok g \<Longrightarrow> layer_ok (preFetchTiles cf g)"
  by (auto simp: preFetchTiles_def Let_def layer_ok_addTiles split: option.splits)

lemma layer_ok_bounds: "layer_ok (updateMaxBounds c e z n g) = layer_ok g"
  by (rule layer_ok_frame) (simp_all add: updateMaxBounds_def Let_def split: option.splits)

lemma layer_ok_twips: "layer_ok (updateTileTwips g) = layer_ok g"
  by (rule layer_ok_frame) (simp_all add: updateTileTwips_def Let_def split: option.splits)

lemma layer_ok_reset: "layer_ok g \<Longrightarrow> layer_ok (reset cf c z hard np nu mw nothing g)"
  by (simp add: reset_def Let_def resetClientVisArea_def layer_ok_prune layer_ok_update layer_ok_bounds layer_ok_twips)

lemma layer_ok_resetFetch: "layer_ok (resetPreFetching b g) = layer_ok g"
  by (rule layer_ok_frame) (simp_all add: resetPreFetching_def Let_def)

lemma layer_ok_step: "layer_ok g \<Longrightarrow> layer_ok (gstep cf e g)"
proof (cases e)
  case IdleTick
  then show "layer_ok g \<Longrightarrow> ?thesis" by (simp add: gstep_def preFetchIdleExpires_def layer_ok_def)
qed (auto simp: gstep_def viewReset_def moveStart_def layer_move_def layer_animateZoom_def redraw_def
    layer_ok_reset layer_ok_resetFetch layer_ok_update layer_ok_ready layer_ok_fetch layer_ok_part
    layer_ok_removeAll split: option.splits)

interpretation layer: event_machine "gstep cf" layer_ok
  by unfold_locales (rule layer_ok_step)

section \<open>Properties\<close>

text \<open>A text document of 8 by 8 tiles in the view of 512 by 512 pixels, for the concrete instances;
  its socket is open.\<close>

definition open_session :: session where
  "open_session = start_session\<lparr>readyState := Some Open, attached := True\<rparr>"

definition demo_grid :: grid where
  "demo_grid = \<lparr>g_tiles = [], g_cache = [], g_empty = 0, g_tileZoom = Some 10, g_tileSize = 256, g_widthPx = 256,
     g_heightPx = 256, g_optWidthTwips = 3840, g_optHeightTwips = 3840, g_optZoom = 10, g_widthTwips = 3840,
     g_heightTwips = 3840, g_docWidth = Some 30720, g_docHeight = Some 30720, g_documentInfo = ''status'',
     g_selectedPart = 0, g_preFetchPart = 0, g_preFetchBorder = None, g_preFetcher = True, g_preFetchIdle = False,
     g_clientZoom = '''', g_clientVisibleArea = '''', g_fadeAnimated = False, g_docPixelSize = None,
     g_view = demo_view, g_net = open_session\<rparr>"

text \<open>A tile that is loaded, and one that was invalidated.\<close>

definition loaded_tile :: "tcoords \<Rightarrow> tile" where
  "loaded_tile c = (new_tile c)\<lparr>t_src := ''img'', t_loaded := True\<rparr>"

lemma store_ok_nil [simp]: "store_ok []" "obj_ok []"
  by (simp_all add: store_ok_def obj_ok_def)

text \<open>
  C1: every pixel of the view is covered. After \<open>_update(center, zoom)\<close> the tile under each pixel
  of the view that lies in the document is in the store, and it is shown as current when a loaded,
  valid image of it was there before.
\<close>

theorem update_covers_view:
  assumes "store_ok (g_tiles g)" "g_documentInfo g \<noteq> ''''" "g_tileSize g > 0"
    and "getPixelBounds (g_view g) (Some (center, zoom)) = Some b" "p \<in> rect b"
    and "isValidTile g (tc \<lfloor>px p / of_int (g_tileSize g)\<rfloor> \<lfloor>py p / of_int (g_tileSize g)\<rfloor> zoom (g_selectedPart g))"
  shows "let t = tc \<lfloor>px p / of_int (g_tileSize g)\<rfloor> \<lfloor>py p / of_int (g_tileSize g)\<rfloor> zoom (g_selectedPart g);
           ts = g_tiles (layer_update cf (Some (center, zoom)) g)
         in map_of ts (tileCoordsToKey t) \<noteq> None \<and> (fine (g_tiles g) t \<longrightarrow> shown ts t)"
  using update_covers [OF assms(1,2,4) range_covers [OF assms(3,5)] assms(6), of cf] by (auto simp: Let_def)

lemma update_covers_view_witness:
  "let t = tc \<lfloor>px (pt 10 200) / of_int (g_tileSize demo_grid)\<rfloor> \<lfloor>py (pt 10 200) / of_int (g_tileSize demo_grid)\<rfloor> 10
             (g_selectedPart demo_grid);
       ts = g_tiles (layer_update default_conf (Some (ll 0 0, 10)) demo_grid)
   in map_of ts (tileCoordsToKey t) \<noteq> None \<and> (fine (g_tiles demo_grid) t \<longrightarrow> shown ts t)"
proof (rule update_covers_view)
  show "getPixelBounds (g_view demo_grid) (Some (ll 0 0, 10)) = Some \<lparr>bmin = pt (- 256) (- 256), bmax = pt 256 256\<rparr>"
    by (simp add: demo_grid_def demo_view_def getPixelBounds_def getTopLeftPoint_def getNewPixelOrigin_def
        project_def zoom_or_def simple_to_point point_op_defs point_round_def roundTo_def new_bounds_def
        bounds_extend_def js_round_def)
qed (simp_all add: demo_grid_def isValidTile_def rect_def ge_opt_def)

text \<open>
  C5: the requests of \<open>_addTiles\<close> over an open socket are exactly one \<open>tilecombine\<close> message per
  rectangle, in order; no rectangle is empty; the rectangles ask for nothing outside the queue and
  for no tile more often than it is queued; and every tile of the shown part that is not cached is
  asked for exactly as often as it is queued.
\<close>

theorem addTiles_requests:
  assumes "delivered (g_net g)"
  shows "let rs = group_rects g (row_order q) in
     sent_of (log (g_net (addTiles cf q g))) =
       sent_of (log (g_net g)) @ map (\<lambda>r. tilecombine g (tpart (last r)) r) rs \<and>
     [] \<notin> set rs \<and> mset (concat rs) \<subseteq># mset q \<and>
     filter_mset (wanted g) (mset (concat rs)) = filter_mset (wanted g) (mset q)"
  using addTiles_sent [OF assms, of cf q] group_rects_mset [of g "row_order q"] group_rects_nonempty
  by (fastforce simp: Let_def)

lemma addTiles_requests_witness:
  "let rs = group_rects demo_grid (row_order [tc 1 0 10 0, tc 0 0 10 0]) in
     sent_of (log (g_net (addTiles default_conf [tc 1 0 10 0, tc 0 0 10 0] demo_grid))) =
       sent_of (log (g_net demo_grid)) @ map (\<lambda>r. tilecombine demo_grid (tpart (last r)) r) rs \<and>
     [] \<notin> set rs \<and> mset (concat rs) \<subseteq># mset [tc 1 0 10 0, tc 0 0 10 0] \<and>
     filter_mset (wanted demo_grid) (mset (concat rs)) =
       filter_mset (wanted demo_grid) (mset [tc 1 0 10 0, tc 0 0 10 0])"
  by (rule addTiles_requests)
    (simp add: demo_grid_def delivered_def open_session_def start_session_def connected_def)

text \<open>
  C6: the store invariant holds in every run of the layer's events, whatever the map's view does in
  between: every tile sits under the key of its own coordinates, no key occurs twice in the tiles
  or in the cache, and the count of empty tiles never drops below zero.
\<close>

theorem layer_runs_keep_store:
  assumes "layer_ok g"
  shows "layer_ok (fold (gstep cf) es g)"
  using assms by (rule layer.run_inv)

lemma layer_runs_keep_store_witness:
  "layer_ok (fold (gstep default_conf) [MoveEnd, Ready (tc 0 0 10 0) False, IdleTick, FetchTick, PartChange] demo_grid)"
  by (rule layer_runs_keep_store) (simp add: layer_ok_def demo_grid_def)

text \<open>
  C10: \<open>_cancelTiles\<close> leaves only loaded tiles, and invalidated ones only where they belong to the
  shown part and touch the visible area; it leaves tiles as they were, forgets no loaded valid
  tile, and no tile is waited for afterwards.
\<close>

theorem cancelTiles_keeps:
  assumes "visible_area g = Some area" "store_ok (g_tiles g)"
  shows "g_empty (cancelTiles cf g) = 0 \<and>
    (\<forall>k t. map_of (g_tiles (cancelTiles cf g)) k = Some t \<longrightarrow>
       map_of (g_tiles g) k = Some t \<and> t_loaded t \<and>
       (t_invalid t > 0 \<longrightarrow> tpart (t_coords t) = g_selectedPart g \<and>
          bounds_intersects area (tile_rect g (t_coords t)))) \<and>
    (\<forall>k t. map_of (g_tiles g) k = Some t \<and> t_loaded t \<and> \<not> t_invalid t > 0 \<longrightarrow>
       map_of (g_tiles (cancelTiles cf g)) k = Some t)"
proof -
  have ok: "obj_ok (g_tiles g)" "obj_ok (g_tiles (cancelTiles cf g))"
    using assms(2) layer_ok_cancel [of "g\<lparr>g_cache := [], g_empty := 0\<rparr>" cf]
    by (auto simp: store_ok_def cancelTiles_def Let_def obj_ok_filter split: option.splits)
  have "map_of (g_tiles (cancelTiles cf g)) k = Some t"
    if "map_of (g_tiles g) k = Some t" "t_loaded t" "\<not> t_invalid t > 0" for k t
  proof -
    have "\<not> drops h a t" for h a using that by (simp add: drops_def)
    then show ?thesis using map_of_filter [OF ok(1) that(1)]
      by (auto simp: cancelTiles_def Let_def that split: option.splits)
  qed
  moreover have "map_of (g_tiles g) k = Some t \<and> t_loaded t \<and>
       (t_invalid t > 0 \<longrightarrow> tpart (t_coords t) = g_selectedPart g \<and>
          bounds_intersects area (tile_rect g (t_coords t)))"
    if "map_of (g_tiles (cancelTiles cf g)) k = Some t" for k t
    using cancelTiles_left [OF assms(1) map_of_SomeD [OF that]] by (simp add: obj_ok_mem [OF ok(1)])
  ultimately show ?thesis using cancelTiles_empty [OF assms(1), of cf] by (intro conjI allI impI) blast+
qed

lemma demo_area: "visible_area demo_grid = Some (case visible_corners demo_grid of Some (a, b) \<Rightarrow> new_bounds (ipt a) (ipt b))"
  by (simp add: visible_area_def visible_corners_def demo_grid_def demo_view_def map_getBounds_def
      getPixelBounds_def getTopLeftPoint_def getPixelOrigin_def)

lemma cancelTiles_keeps_witness:
  "let g = demo_grid\<lparr>g_tiles := [(tileCoordsToKey (tc 0 0 10 0), loaded_tile (tc 0 0 10 0))]\<rparr>;
       area = (case visible_corners demo_grid of Some (a, b) \<Rightarrow> new_bounds (ipt a) (ipt b))
   in g_empty (cancelTiles default_conf g) = 0 \<and>
    (\<forall>k t. map_of (g_tiles (cancelTiles default_conf g)) k = Some t \<longrightarrow>
       map_of (g_tiles g) k = Some t \<and> t_loaded t \<and>
       (t_invalid t > 0 \<longrightarrow> tpart (t_coords t) = g_selectedPart g \<and>
          bounds_intersects area (tile_rect g (t_coords t)))) \<and>
    (\<forall>k t. map_of (g_tiles g) k = Some t \<and> t_loaded t \<and> \<not> t_invalid t > 0 \<longrightarrow>
       map_of (g_tiles (cancelTiles default_conf g)) k = Some t)"
  unfolding Let_def
proof (rule cancelTiles_keeps)
  let ?g = "demo_grid\<lparr>g_tiles := [(tileCoordsToKey (tc 0 0 10 0), loaded_tile (tc 0 0 10 0))]\<rparr>"
  show "visible_area ?g = Some (case visible_corners demo_grid of Some (a, b) \<Rightarrow> new_bounds (ipt a) (ipt b))"
    using demo_area same_frame_defs(7) [of demo_grid ?g] by simp
qed (simp add: store_ok_def obj_ok_def loaded_tile_def new_tile_def)

text \<open>
  C9: \<open>_pruneTiles\<close> keeps every current tile, only marking it; what is left besides was active or
  loaded; and every tile it removes that was not invalidated keeps its image in the cache, so that
  it can be shown again without a request.
\<close>

theorem pruneTiles_outcome:
  "case map_of (g_tiles g) k of
     None \<Rightarrow> map_of (g_tiles (pruneTiles g)) k = None
   | Some t \<Rightarrow>
       (case map_of (g_tiles (pruneTiles g)) k of
          Some u \<Rightarrow> u = t\<lparr>t_retain := True\<rparr> \<and> (t_current t \<or> t_active t \<or> t_loaded t)
        | None \<Rightarrow> \<not> t_current t \<and> (t_invalid t > 0 \<or> map_of (g_cache (pruneTiles g)) k = Some (t_src t)))"
proof (cases "map_of (g_tiles g) k")
  case None
  then have "map_of (g_tiles (pruneTiles g)) k = None"
    using pruneTiles_left [of g k] by (cases "map_of (g_tiles (pruneTiles g)) k") auto
  with None show ?thesis by simp
next
  case (Some t)
  show ?thesis
  proof (cases "map_of (g_tiles (pruneTiles g)) k")
    case None
    have "\<not> t_current t" using pruneTiles_keeps [OF Some] None by auto
    with Some None pruneTiles_cached [OF Some None] show ?thesis by auto
  next
    fix u assume u: "map_of (g_tiles (pruneTiles g)) k = Some u"
    from pruneTiles_left [OF this] Some show ?thesis by (simp add: u)
  qed
qed

text \<open>
  C11: what \<open>_preFetchTiles\<close> adds ahead: at most five tiles while editing and ten otherwise, no tile
  twice, all of them tiles of the document on the current zoom level that are neither shown, waited
  for nor cached. With nothing left to fetch the timer stops, and while tiles of the view are still
  awaited nothing is fetched at all.
\<close>

theorem preFetchTiles_adds:
  assumes "mv_loaded (g_view g)"
  shows "if g_empty g > 0 then preFetchTiles cf g = g
    else \<exists>b q. distinct q \<and> list_all (fetchable g (mv_zoom (g_view g))) q \<and>
      length q \<le> (if perm (g_net g) = ''edit'' then 5 else 10) \<and>
      preFetchTiles cf g =
        (if q = [] then g\<lparr>g_preFetchBorder := Some b, g_preFetcher := False\<rparr>
         else addTiles cf q (g\<lparr>g_preFetchBorder := Some b\<rparr>))"
proof (cases "g_empty g > 0")
  case True
  then show ?thesis by (simp add: preFetchTiles_def)
next
  case False
  let ?z = "mv_zoom (g_view g)"
  let ?edit = "perm (g_net g) = ''edit''"
  obtain c where c: "map_getCenter (g_view g) = Some c"
    using assms by (auto simp: map_getCenter_def layerPointToLatLng_def getPixelOrigin_def
        getCenterLayerPoint_def containerPointToLayerPoint_def)
  obtain p where p: "getPixelBounds (g_view g) (Some (c, ?z)) = Some p" using pixelBounds_at by blast
  define b where "b = (case g_preFetchBorder g of Some b \<Rightarrow> b | None \<Rightarrow> pxBoundsToTileRange g p)"
  have bd: "(case g_preFetchBorder g of Some b \<Rightarrow> Some b
      | None \<Rightarrow> map_option (pxBoundsToTileRange g) (getPixelBounds (g_view g) (Some (c, ?z)))) = Some b"
    by (simp add: b_def p split: option.split)
  define h where "h = g\<lparr>g_preFetchBorder := Some b\<rparr>"
  define q where "q = prefetch_loop h ?z (if ?edit then 3 else 5) b [] (if ?edit then 5 else 10) []"
  have f: "fetchable h = fetchable g"
    by (simp add: fun_eq_iff fetchable_def h_def isValidTile_def cached_def)
  have "distinct q \<and> list_all (fetchable h ?z) q \<and> length q \<le> (if ?edit then 5 else 10)"
    using prefetch_loop_spec [of "[]" h ?z "if ?edit then 3 else 5" b "[]" "if ?edit then 5 else 10"]
    by (simp add: q_def)
  moreover have "preFetchTiles cf g = (if q = [] then h\<lparr>g_preFetcher := False\<rparr> else addTiles cf q h)"
    using False by (simp add: preFetchTiles_def Let_def c bd q_def h_def)
  ultimately have "distinct q \<and> list_all (fetchable g ?z) q \<and> length q \<le> (if ?edit then 5 else 10) \<and>
      preFetchTiles cf g =
        (if q = [] then g\<lparr>g_preFetchBorder := Some b, g_preFetcher := False\<rparr>
         else addTiles cf q (g\<lparr>g_preFetchBorder := Some b\<rparr>))"
    unfolding f by (simp add: h_def)
  then show ?thesis unfolding if_not_P [OF False] by blast
qed

lemma preFetchTiles_adds_witness:
  "if g_empty demo_grid > 0 then preFetchTiles default_conf demo_grid = demo_grid
    else \<exists>b q. distinct q \<and> list_all (fetchable demo_grid (mv_zoom (g_view demo_grid))) q \<and>
      length q \<le> (if perm (g_net demo_grid) = ''edit'' then 5 else 10) \<and>
      preFetchTiles default_conf demo_grid =
        (if q = [] then demo_grid\<lparr>g_preFetchBorder := Some b, g_preFetcher := False\<rparr>
         else addTiles default_conf q (demo_grid\<lparr>g_preFetchBorder := Some b\<rparr>))"
  by (rule preFetchTiles_adds) (simp add: demo_grid_def demo_view_def)

text \<open>
  a tile shown from the cache is counted as empty but never asked for, so nothing answers it:
  adding one raises the count, sends no message, and from then on \<open>_preFetchTiles\<close> does nothing.
\<close>

theorem cached_tile_stalls_prefetch:
  assumes "tpart c = g_selectedPart g" "map_of (g_tiles g) (tileCoordsToKey c) = None"
    and "map_of (g_cache g) (tileCoordsToKey c) = Some src" "src \<noteq> []" "g_empty g \<ge> 0"
  shows "g_empty (addTiles cf [c] g) = g_empty g + 1 \<and>
    sent_of (log (g_net (addTiles cf [c] g))) = sent_of (log (g_net g)) \<and>
    preFetchTiles cf (addTiles cf [c] g) = addTiles cf [c] g"
proof -
  have w: "\<not> wanted (add_one c g) c" using assms(3,4) same_frame_defs(4) [OF same_frame_tiles(3) [of g c]]
    by (simp add: wanted_def cached_def)
  have a: "addTiles cf [c] g = add_one c g" by (simp add: addTiles_def Let_def row_order_def w)
  have "g_empty (add_one c g) = g_empty g + 1"
    using assms(1,2) by (auto simp: add_one_def add_tile_def set_src_def Let_def split: option.splits)
  then show ?thesis using add_one_net [of c g] assms(5) by (simp add: a preFetchTiles_def)
qed

lemma cached_tile_stalls_prefetch_witness:
  "let g = demo_grid\<lparr>g_cache := [(tileCoordsToKey (tc 0 0 10 0), ''img'')]\<rparr>; c = tc 0 0 10 0; cf = default_conf
   in g_empty (addTiles cf [c] g) = g_empty g + 1 \<and>
    sent_of (log (g_net (addTiles cf [c] g))) = sent_of (log (g_net g)) \<and>
    preFetchTiles cf (addTiles cf [c] g) = addTiles cf [c] g"
  unfolding Let_def by (rule cached_tile_stalls_prefetch [of _ _ "''img''"]) (simp_all add: demo_grid_def)

end
