(* ===== verification/Json.thy ===== *)
theory Json
  imports Effects
begin

text \<open>
  JSON texts: \<open>JSON.stringify\<close> as \<open>sendUnoCommand\<close> (\<open>loleaflet/src/control/Toolbar.js\<close>) uses it, and
  \<open>JSON.parse\<close> as the message handlers use it. A character of the model has a code below 256; a
  text with an escape above that is outside (it parses to \<open>None\<close>, as a text does that is no JSON
  and for which \<open>JSON.parse\<close> throws).
\<close>

section \<open>JSON texts the client sends\<close>

text \<open>What is written: texts, whole numbers, halves (\<open>UHalf neg n\<close> is \<open>n + 0.5\<close> with its sign), objects.\<close>

datatype ujson = UStr string | UInt int | UHalf bool nat | UBool bool | UNull | UObj "(string \<times> ujson) list"

definition hex4 :: "nat \<Rightarrow> string" where
  "hex4 n = ''00'' @ [if n div 16 < 10 then digit_char (n div 16) else char_of (87 + n div 16),
                     if n mod 16 < 10 then digit_char (n mod 16) else char_of (87 + n mod 16)]"

definition json_char :: "char \<Rightarrow> string" where
  "json_char c =
     (if c = CHR 0x22 then [CHR 0x5C, CHR 0x22]
      else if c = CHR 0x5C then [CHR 0x5C, CHR 0x5C]
      else if char_code c = 8 then [CHR 0x5C, CHR ''b'']
      else if char_code c = 9 then [CHR 0x5C, CHR ''t'']
      else if char_code c = 10 then [CHR 0x5C, CHR ''n'']
      else if char_code c = 12 then [CHR 0x5C, CHR ''f'']
      else if char_code c = 13 then [CHR 0x5C, CHR ''r'']
      else if char_code c < 32 then CHR 0x5C # CHR ''u'' # hex4 (char_code c)
      else [c])"

definition json_string :: "string \<Rightarrow> string" where
  "json_string s = CHR 0x22 # concat (map json_char s) @ [CHR 0x22]"

text \<open>\<open>JSON.stringify\<close>; the number \<open>NaN\<close> becomes \<open>null\<close>.\<close>

fun json_text :: "ujson \<Rightarrow> string" where
  "json_text (UStr s) = json_string s"
| "json_text (UInt i) = show_int i"
| "json_text (UHalf neg n) = (if neg then ''-'' else []) @ show_nat n @ ''.5''"
| "json_text (UBool b) = (if b then ''true'' else ''false'')"
| "json_text UNull = ''null''"
| "json_text (UObj fs) =
     ''{'' @ js_join '','' (map (\<lambda>(k, v). json_string k @ '':'' @ json_text v) fs) @ ''}''"

definition typed :: "string \<Rightarrow> ujson \<Rightarrow> ujson" where
  "typed t v = UObj [(''type'', UStr t), (''value'', v)]"

section \<open>Parsing\<close>

definition json_blank :: "char \<Rightarrow> bool" where
  "json_blank c \<longleftrightarrow> char_code c \<in> {9, 10, 13, 32}"

abbreviation skip_blank :: "string \<Rightarrow> string" where
  "skip_blank \<equiv> dropWhile json_blank"

definition hex_val :: "char \<Rightarrow> nat option" where
  "hex_val c =
     (let n = char_code c
      in if 48 \<le> n \<and> n \<le> 57 then Some (n - 48)
         else if 97 \<le> n \<and> n \<le> 102 then Some (n - 87)
         else if 65 \<le> n \<and> n \<le> 70 then Some (n - 55) else None)"

text \<open>The character of \<open>\\u\<close> and four digits, when it has one here.\<close>

definition unicode_char :: "char \<Rightarrow> char \<Rightarrow> char \<Rightarrow> char \<Rightarrow> char option" where
  "unicode_char a b c d =
     (case (hex_val a, hex_val b, hex_val c, hex_val d) of
        (Some 0, Some 0, Some h, Some l) \<Rightarrow> Some (char_of (16 * h + l))
      | _ \<Rightarrow> None)"

definition escaped :: "char \<Rightarrow> char option" where
  "escaped c =
     (if c = CHR 0x22 \<or> c = CHR 0x5C \<or> c = CHR ''/'' then Some c
      else if c = CHR ''b'' then Some (CHR 0x08) else if c = CHR ''f'' then Some (CHR 0x0C)
      else if c = CHR ''n'' then Some (CHR 0x0A) else if c = CHR ''r'' then Some (CHR 0x0D)
      else if c = CHR ''t'' then Some (CHR 0x09) else None)"

text \<open>The rest of a string after its opening quote, and what follows it.\<close>

fun json_chars :: "string \<Rightarrow> (string \<times> string) option" where
  "json_chars [] = None"
| "json_chars (c # cs) =
     (if c = CHR 0x22 then Some ([], cs)
      else if c = CHR 0x5C then
        (case cs of
           [] \<Rightarrow> None
         | e # r \<Rightarrow>
             if e = CHR ''u'' then
               (case r of
                  h1 # h2 # h3 # h4 # r' \<Rightarrow>
                    (case unicode_char h1 h2 h3 h4 of None \<Rightarrow> None
                     | Some x \<Rightarrow> map_option (\<lambda>(s, t). (x # s, t)) (json_chars r'))
                | _ \<Rightarrow> None)
             else (case escaped e of None \<Rightarrow> None
                   | Some x \<Rightarrow> map_option (\<lambda>(s, t). (x # s, t)) (json_chars r)))
      else if char_code c < 32 then None
      else map_option (\<lambda>(s, t). (c # s, t)) (json_chars cs))"

definition is_exp :: "char \<Rightarrow> bool" where
  "is_exp c \<longleftrightarrow> c = CHR ''e'' \<or> c = CHR ''E''"

text \<open>The fraction and the exponent that may follow the digits of a number: value and rest.\<close>

definition json_fraction :: "string \<Rightarrow> (real \<times> string) option" where
  "json_fraction s =
     (case s of
        c # r \<Rightarrow>
          if c = CHR ''.'' then
            (let d = takeWhile is_digit r
             in if d = [] then None else Some (of_nat (read_nat d) / 10 ^ length d, dropWhile is_digit r))
          else Some (0, s)
      | [] \<Rightarrow> Some (0, []))"

definition json_exponent :: "string \<Rightarrow> (int \<times> string) option" where
  "json_exponent s =
     (case s of
        c # r \<Rightarrow>
          if is_exp c then
            (let neg = (r \<noteq> [] \<and> hd r = CHR ''-'');
                 t = (if r \<noteq> [] \<and> (hd r = CHR ''-'' \<or> hd r = CHR ''+'') then tl r else r);
                 d = takeWhile is_digit t; n = int (read_nat d)
             in if d = [] then None else Some (if neg then - n else n, dropWhile is_digit t))
          else Some (0, s)
      | [] \<Rightarrow> Some (0, []))"

definition real_val :: "real \<Rightarrow> jsval" where
  "real_val x = (if of_int \<lfloor>x\<rfloor> = x then JInt \<lfloor>x\<rfloor> else JReal x)"

definition json_number :: "string \<Rightarrow> (jsval \<times> string) option" where
  "json_number s =
     (let neg = (s \<noteq> [] \<and> hd s = CHR ''-''); t = (if neg then tl s else s);
          d = takeWhile is_digit t; r = dropWhile is_digit t; n = int (read_nat d)
      in if d = [] \<or> (hd d = CHR ''0'' \<and> length d > 1) then None
         else if r = [] \<or> (hd r \<noteq> CHR ''.'' \<and> \<not> is_exp (hd r)) then Some (JInt (if neg then - n else n), r)
         else
           (case json_fraction r of None \<Rightarrow> None
            | Some (f, r) \<Rightarrow>
                (case json_exponent r of None \<Rightarrow> None
                 | Some (e, r) \<Rightarrow>
                     (let x = (of_int n + f) * 10 powi e in Some (real_val (if neg then - x else x), r)))))"

definition js_object :: "(string \<times> jsval) list \<Rightarrow> jsval" where
  "js_object ms = JObj (fold (\<lambda>(k, v). obj_put k v) ms [])"

text \<open>A value, the rest of an array, the rest of an object. The fuel bounds the nesting and the number
  of elements; each level reads a character, so the length of the text is enough.\<close>

fun json_value :: "nat \<Rightarrow> string \<Rightarrow> (jsval \<times> string) option"
  and json_elements :: "nat \<Rightarrow> string \<Rightarrow> (jsval list \<times> string) option"
  and json_members :: "nat \<Rightarrow> string \<Rightarrow> ((string \<times> jsval) list \<times> string) option" where
  "json_value 0 s = None"
| "json_value (Suc n) s =
     (case skip_blank s of
        [] \<Rightarrow> None
      | c # r \<Rightarrow>
          if c = CHR ''{'' then
            (if skip_blank r \<noteq> [] \<and> hd (skip_blank r) = CHR ''}'' then Some (JObj [], tl (skip_blank r))
             else map_option (\<lambda>(ms, t). (js_object ms, t)) (json_members n r))
          else if c = CHR ''['' then
            (if skip_blank r \<noteq> [] \<and> hd (skip_blank r) = CHR '']'' then Some (JArr [], tl (skip_blank r))
             else map_option (\<lambda>(vs, t). (JArr vs, t)) (json_elements n r))
          else if c = CHR 0x22 then map_option (\<lambda>(w, t). (JStr w, t)) (json_chars r)
          else if startsWith (c # r) ''true'' then Some (JBool True, drop 4 (c # r))
          else if startsWith (c # r) ''false'' then Some (JBool False, drop 5 (c # r))
          else if startsWith (c # r) ''null'' then Some (JNull, drop 4 (c # r))
          else json_number (c # r))"
| "json_elements 0 s = None"
| "json_elements (Suc n) s =
     (case json_value n s of None \<Rightarrow> None
      | Some (v, t) \<Rightarrow>
          (case skip_blank t of
             [] \<Rightarrow> None
           | c # r \<Rightarrow>
               if c = CHR '','' then map_option (\<lambda>(vs, t). (v # vs, t)) (json_elements n r)
               else if c = CHR '']'' then Some ([v], r) else None))"
| "json_members 0 s = None"
| "json_members (Suc n) s =
     (case skip_blank s of
        [] \<Rightarrow> None
      | q # r \<Rightarrow>
          if q \<noteq> CHR 0x22 then None
          else
            (case json_chars r of None \<Rightarrow> None
             | Some (k, t) \<Rightarrow>
                 (case skip_blank t of
                    [] \<Rightarrow> None
                  | c # r \<Rightarrow>
                      if c \<noteq> CHR '':'' then None
                      else
                        (case json_value n r of None \<Rightarrow> None
                         | Some (v, t) \<Rightarrow>
                             (case skip_blank t of
                                [] \<Rightarrow> None
                              | c # r \<Rightarrow>
                                  if c = CHR '','' then map_option (\<lambda>(ms, t). ((k, v) # ms, t)) (json_members n r)
                                  else if c = CHR ''}'' then Some ([(k, v)], r) else None)))))"

definition json_parse :: "string \<Rightarrow> jsval option" where
  "json_parse s =
     (case json_value (2 * length s + 1) s of
        Some (v, t) \<Rightarrow> if skip_blank t = [] then Some v else None
      | None \<Rightarrow> None)"

section \<open>Reading parsed values\<close>

definition js_field :: "string \<Rightarrow> jsval \<Rightarrow> jsval" where
  "js_field k v = (case v of JObj fs \<Rightarrow> (case obj_get fs k of Some w \<Rightarrow> w | None \<Rightarrow> JUndef) | _ \<Rightarrow> JUndef)"

text \<open>\<open>parseInt(v)\<close>: the value is turned into a text first.\<close>

definition js_int :: "jsval \<Rightarrow> jsnum" where
  "js_int v =
     (case v of JInt i \<Rightarrow> Num i | JReal x \<Rightarrow> Num (if x < 0 then \<lceil>x\<rceil> else \<lfloor>x\<rfloor>) | JStr s \<Rightarrow> parseNum s | _ \<Rightarrow> NaN)"

definition js_string :: "jsval \<Rightarrow> string option" where
  "js_string v = (case v of JStr s \<Rightarrow> Some s | _ \<Rightarrow> None)"

definition js_truthy :: "jsval \<Rightarrow> bool" where
  "js_truthy v =
     (case v of JUndef \<Rightarrow> False | JNull \<Rightarrow> False | JBool b \<Rightarrow> b | JInt i \<Rightarrow> i \<noteq> 0 | JReal x \<Rightarrow> x \<noteq> 0
      | JStr s \<Rightarrow> s \<noteq> [] | JArr _ \<Rightarrow> True | JObj _ \<Rightarrow> True)"

section \<open>Reading back what was written\<close>

fun ujson_val :: "ujson \<Rightarrow> jsval" where
  "ujson_val (UStr s) = JStr s"
| "ujson_val (UInt i) = JInt i"
| "ujson_val (UHalf neg n) = JReal (if neg then - (real n + 1 / 2) else real n + 1 / 2)"
| "ujson_val (UBool b) = JBool b"
| "ujson_val UNull = JNull"
| "ujson_val (UObj fs) = js_object (map (\<lambda>(k, v). (k, ujson_val v)) fs)"

text \<open>The fuel a written value takes.\<close>

fun json_need :: "ujson \<Rightarrow> nat" where
  "json_need (UObj fs) = 2 + sum_list (map (\<lambda>(k, v). Suc (json_need v)) fs)"
| "json_need u = 1"

lemma char_code_less: "char_code c < 256"
  by (simp add: char_code_def)

lemma char_of_code [simp]: "char_of (char_code c) = c"
  by (simp add: char_code_def)

lemma code_char_of [simp]: "char_code (char_of n) = n mod 256"
  by (simp add: char_code_def)

lemma hex_val_digit:
  "n < 16 \<Longrightarrow> hex_val (if n < 10 then digit_char n else char_of (87 + n)) = Some n"
  by (auto simp: hex_val_def digit_char_code Let_def)

lemma hex4_shape:
  assumes "n < 256"
  obtains h l where "hex4 n = [CHR ''0'', CHR ''0'', h, l]" "hex_val h = Some (n div 16)" "hex_val l = Some (n mod 16)"
proof
  show "hex4 n = [CHR ''0'', CHR ''0'', if n div 16 < 10 then digit_char (n div 16) else char_of (87 + n div 16),
      if n mod 16 < 10 then digit_char (n mod 16) else char_of (87 + n mod 16)]" by (simp add: hex4_def)
qed (use assms hex_val_digit [of "n div 16"] hex_val_digit [of "n mod 16"] in simp_all)

lemma json_chars_unicode:
  assumes "n < 256"
  shows "json_chars (CHR 0x5C # CHR ''u'' # hex4 n @ t) = map_option (\<lambda>(s, r). (char_of n # s, r)) (json_chars t)"
proof -
  obtain h l where h: "hex4 n = [CHR ''0'', CHR ''0'', h, l]" "hex_val h = Some (n div 16)" "hex_val l = Some (n mod 16)"
    using hex4_shape [OF assms] by blast
  have "hex_val (CHR ''0'') = Some 0" by code_simp
  then have "unicode_char (CHR ''0'') (CHR ''0'') h l = Some (char_of n)"
    using h by (simp add: unicode_char_def)
  with h show ?thesis by simp
qed

lemma json_chars_short:
  "escaped e = Some x \<Longrightarrow> e \<noteq> CHR ''u'' \<Longrightarrow>
   json_chars (CHR 0x5C # e # t) = map_option (\<lambda>(s, r). (x # s, r)) (json_chars t)"
  by simp

lemma json_chars_one: "json_chars (json_char c @ t) = map_option (\<lambda>(s, r). (c # s, r)) (json_chars t)"
proof -
  have e: "escaped (CHR ''b'') = Some (char_of (8 :: nat))" "escaped (CHR ''t'') = Some (char_of (9 :: nat))"
    "escaped (CHR ''n'') = Some (char_of (10 :: nat))" "escaped (CHR ''f'') = Some (char_of (12 :: nat))"
    "escaped (CHR ''r'') = Some (char_of (13 :: nat))" "escaped (CHR 0x22) = Some (CHR 0x22)"
    "escaped (CHR 0x5C) = Some (CHR 0x5C)"
    by code_simp+
  consider "c = CHR 0x22" | "c = CHR 0x5C" | "c \<noteq> CHR 0x22" "c \<noteq> CHR 0x5C" "char_code c \<in> {8, 9, 10, 12, 13}"
    | "c \<noteq> CHR 0x22" "c \<noteq> CHR 0x5C" "char_code c \<notin> {8, 9, 10, 12, 13}" "char_code c < 32"
    | "c \<noteq> CHR 0x22" "c \<noteq> CHR 0x5C" "char_code c \<notin> {8, 9, 10, 12, 13}" "\<not> char_code c < 32"
    by blast
  then show ?thesis
  proof cases
    case 3
    have code: "char_of k = c" if "char_code c = k" for k :: nat using that by auto
    from 3 e show ?thesis
      by (auto simp: json_char_def code simp del: json_chars.simps intro!: trans [OF json_chars_short])
  next
    case 4
    then show ?thesis using json_chars_unicode [of "char_code c" t] by (simp add: json_char_def del: json_chars.simps)
  qed (auto simp: json_char_def e)
qed

lemma json_chars_text: "json_chars (concat (map json_char s) @ CHR 0x22 # r) = Some (s, r)"
  by (induction s) (simp_all add: json_chars_one)

lemma show_nat_hd: "0 < n \<Longrightarrow> hd (show_nat n) \<noteq> CHR ''0''"
proof (induction n rule: show_nat.induct)
  case (1 n)
  have z: "digit_char k \<noteq> CHR ''0''" if "0 < k" "k < 10" for k
  proof
    assume "digit_char k = CHR ''0''"
    moreover have "char_code (CHR ''0'') = 48" by (simp add: char_code_def)
    ultimately show False using that digit_char_code [of k] by simp
  qed
  show ?case
  proof (cases "n < 10")
    case True
    then show ?thesis using 1 z by (subst show_nat.simps) simp
  next
    case False
    then show ?thesis using 1 by (subst show_nat.simps) simp
  qed
qed

lemma show_nat_no_zero: "\<not> (hd (show_nat n) = CHR ''0'' \<and> length (show_nat n) > 1)"
proof (cases "n = 0")
  case True
  then show ?thesis by (simp add: show_nat.simps [of 0])
qed (use show_nat_hd [of n] in simp)

lemma json_number_show:
  assumes "r = [] \<or> \<not> is_digit (hd r) \<and> hd r \<noteq> CHR ''.'' \<and> \<not> is_exp (hd r)"
  shows "json_number (show_int i @ r) = Some (JInt i, r)"
proof -
  let ?d = "show_nat (nat \<bar>i\<bar>)"
  have stop: "r = [] \<or> \<not> is_digit (hd r)" using assms by auto
  have d: "takeWhile is_digit (?d @ r) = ?d" using takeWhile_digits_append [OF show_nat_digits stop] .
  then have r: "dropWhile is_digit (?d @ r) = r"
    by (metis append_same_eq append_eq_append_conv takeWhile_dropWhile_id)
  have minus: "hd (?d @ r) \<noteq> CHR ''-''"
    using hd_show_nat_digit [of "nat \<bar>i\<bar>"] by (cases "?d") auto
  have zero: "\<not> (hd ?d = CHR ''0'' \<and> length ?d > 1)" by (rule show_nat_no_zero)
  show ?thesis
  proof (cases "i < 0")
    case True
    then have "show_int i = CHR ''-'' # ?d" by (simp add: show_int_def)
    then show ?thesis using d r zero assms True by (auto simp: json_number_def Let_def)
  next
    case False
    then have "show_int i = ?d" by (simp add: show_int_def)
    then show ?thesis using d r zero assms False minus by (auto simp: json_number_def Let_def)
  qed
qed

text \<open>What may follow a value in a text that was written.\<close>

definition json_stop :: "string \<Rightarrow> bool" where
  "json_stop r \<longleftrightarrow> r = [] \<or> hd r \<in> {CHR '','', CHR ''}'', CHR '' ''}"

lemma blanks: "\<not> json_blank (CHR ''{'')" "\<not> json_blank (CHR ''}'')" "\<not> json_blank (CHR 0x22)"
  "\<not> json_blank (CHR '','')" "\<not> json_blank (CHR '':'')" "\<not> json_blank (CHR ''t'')" "\<not> json_blank (CHR ''f'')"
  "\<not> json_blank (CHR ''n'')"
  by (simp_all add: json_blank_def char_code_def)

lemma stop_number: "json_stop r \<Longrightarrow> r = [] \<or> \<not> is_digit (hd r) \<and> hd r \<noteq> CHR ''.'' \<and> \<not> is_exp (hd r)"
  by (auto simp: json_stop_def is_exp_def is_digit_def char_code_def)

lemma int_first: "show_int i = c # cs \<Longrightarrow> is_digit c \<or> c = CHR ''-''"
  by (rule show_int_chars [of c i]) simp

lemma json_value_int:
  assumes "json_stop r"
  shows "json_value (Suc n) (show_int i @ r) = Some (JInt i, r)"
proof -
  obtain c cs where c: "show_int i = c # cs" by (cases "show_int i") auto
  from int_first [OF c] have "\<not> json_blank c" "c \<notin> {CHR ''{'', CHR ''['', CHR 0x22, CHR ''t'', CHR ''f'', CHR ''n''}"
    by (auto simp: is_digit_def json_blank_def char_code_def)
  with c json_number_show [OF stop_number [OF assms], of i] show ?thesis
    by (simp add: startsWith_def)
qed

lemma half_not_whole [simp]: "real n + 1 / 2 \<noteq> real_of_int k" "- real n - 1 / 2 \<noteq> real_of_int k"
proof -
  have "real_of_int (2 * int n + 1) \<noteq> real_of_int (2 * k)" for k
    unfolding of_int_eq_iff by presburger
  from this [of k] this [of "- k"] show "real n + 1 / 2 \<noteq> real_of_int k" "- real n - 1 / 2 \<noteq> real_of_int k"
    by (simp_all add: field_simps)
qed

lemma json_number_half:
  assumes "r = [] \<or> \<not> is_digit (hd r) \<and> hd r \<noteq> CHR ''.'' \<and> \<not> is_exp (hd r)"
  shows "json_number (json_text (UHalf neg n) @ r) = Some (ujson_val (UHalf neg n), r)"
proof -
  let ?d = "show_nat n" and ?t = "CHR ''.'' # CHR ''5'' # r"
  have dot: "\<not> is_digit (CHR ''.'')" by code_simp
  have five: "is_digit (CHR ''5'')" "read_nat ''5'' = 5" by code_simp+
  have d: "takeWhile is_digit (?d @ ?t) = ?d" by (rule takeWhile_digits_append [OF show_nat_digits]) (simp add: dot)
  then have r: "dropWhile is_digit (?d @ ?t) = ?t"
    by (metis append_same_eq append_eq_append_conv takeWhile_dropWhile_id)
  have minus: "hd (?d @ ?t) \<noteq> CHR ''-''"
    using hd_show_nat_digit [of n] by (cases "?d") auto
  have zero: "\<not> (hd ?d = CHR ''0'' \<and> length ?d > 1)" by (rule show_nat_no_zero)
  have stop: "takeWhile is_digit r = []" "dropWhile is_digit r = r" using assms by (cases r; simp)+
  have f: "json_fraction ?t = Some (5 / 10, r)" using stop five by (simp add: json_fraction_def)
  have e: "json_exponent r = Some (0, r)" using assms by (cases r) (auto simp: json_exponent_def)
  have x: "real n + 5 / 10 = real n + 1 / 2" by simp
  have "json_number (''-'' @ ?d @ ?t) = Some (JReal (- (real n + 1 / 2)), r)"
    using d r zero f e unfolding json_number_def by (simp add: Let_def real_val_def x)
  moreover have "json_number (?d @ ?t) = Some (JReal (real n + 1 / 2), r)"
    using d r zero f e minus unfolding json_number_def by (simp add: Let_def real_val_def x)
  ultimately show ?thesis by simp
qed

lemma json_value_half:
  assumes "json_stop r"
  shows "json_value (Suc n) (json_text (UHalf neg k) @ r) = Some (ujson_val (UHalf neg k), r)"
proof -
  obtain c cs where c: "json_text (UHalf neg k) = c # cs" "is_digit c \<or> c = CHR ''-''"
    using hd_show_nat_digit [of k] by (cases "show_nat k"; cases neg) auto
  have "\<not> json_blank c" "c \<notin> {CHR ''{'', CHR ''['', CHR 0x22, CHR ''t'', CHR ''f'', CHR ''n''}"
    using c(2) by (auto simp: is_digit_def json_blank_def char_code_def)
  with c json_number_half [OF stop_number [OF assms], of neg k] show ?thesis
    by (simp add: startsWith_def)
qed

text \<open>A written value is read back, whatever stop follows it.\<close>

lemma members_text:
  "fs \<noteq> [] \<Longrightarrow> (\<And>k v n r. (k, v) \<in> set fs \<Longrightarrow> json_need v \<le> n \<Longrightarrow> json_stop r \<Longrightarrow>
      json_value n (json_text v @ r) = Some (ujson_val v, r)) \<Longrightarrow>
   sum_list (map (\<lambda>(k, v). Suc (json_need v)) fs) < n \<Longrightarrow>
   json_members n (js_join '','' (map (\<lambda>(k, v). json_string k @ '':'' @ json_text v) fs) @ CHR ''}'' # r) =
     Some (map (\<lambda>(k, v). (k, ujson_val v)) fs, r)"
proof (induction fs arbitrary: n)
  case (Cons f fs)
  obtain k v where f: "f = (k, v)" by force
  obtain m where n: "n = Suc m" using Cons.prems(3) by (cases n) auto
  have v: "json_value m (json_text v @ t) = Some (ujson_val v, t)" if "json_stop t" for t
    using Cons.prems(2) [of k v m t] Cons.prems(3) that n f by auto
  show ?case
  proof (cases "fs = []")
    case True
    have "json_stop (CHR ''}'' # r)" by (simp add: json_stop_def)
    from v [OF this] show ?thesis using f n True
      by (simp add: json_string_def json_chars_text blanks)
  next
    case False
    then obtain g gs where g: "fs = g # gs" by (cases fs) auto
    let ?t = "js_join '','' (map (\<lambda>(k, v). json_string k @ '':'' @ json_text v) fs)"
    have "json_stop (CHR '','' # ?t @ CHR ''}'' # r)" by (simp add: json_stop_def)
    note v = v [OF this]
    have t: "js_join '','' (map (\<lambda>(k, v). json_string k @ '':'' @ json_text v) (f # fs)) =
        json_string k @ '':'' @ json_text v @ CHR '','' # ?t" using f g by (simp add: case_prod_unfold)
    have "json_members m (?t @ CHR ''}'' # r) = Some (map (\<lambda>(k, v). (k, ujson_val v)) fs, r)"
      using Cons.IH [of m] Cons.prems False f n by auto
    with v n f show ?thesis unfolding t
      by (simp add: json_string_def json_chars_text blanks)
  qed
qed simp

lemma json_value_text:
  "json_need u \<le> n \<Longrightarrow> json_stop r \<Longrightarrow> json_value n (json_text u @ r) = Some (ujson_val u, r)"
proof (induction u arbitrary: n r)
  case (UStr s)
  then obtain m where "n = Suc m" by (cases n) auto
  then show ?case by (simp add: json_string_def json_chars_text blanks)
next
  case (UInt i)
  then obtain m where "n = Suc m" by (cases n) auto
  then show ?case using json_value_int [OF UInt.prems(2), of m i] by simp
next
  case (UHalf b k)
  then obtain m where "n = Suc m" by (cases n) auto
  then show ?case using json_value_half [OF UHalf.prems(2), of m b k] by (simp del: json_text.simps ujson_val.simps)
next
  case (UBool b)
  then obtain m where "n = Suc m" by (cases n) auto
  then show ?case by (simp add: blanks startsWith_def)
next
  case UNull
  then obtain m where "n = Suc m" by (cases n) auto
  then show ?case by (simp add: blanks startsWith_def)
next
  case (UObj fs)
  then obtain m where n: "n = Suc m" by (cases n) auto
  show ?case
  proof (cases "fs = []")
    case True
    then show ?thesis using n by (simp add: blanks js_object_def)
  next
    case False
    let ?t = "js_join '','' (map (\<lambda>(k, v). json_string k @ '':'' @ json_text v) fs)"
    obtain k v gs where g: "fs = (k, v) # gs" using False by (cases fs) auto
    then obtain t where t: "?t = CHR 0x22 # t" by (cases gs) (auto simp: json_string_def)
    have "json_members m (?t @ CHR ''}'' # r) = Some (map (\<lambda>(k, v). (k, ujson_val v)) fs, r)"
      using UObj False n by (intro members_text) (auto intro: UObj.IH)
    then show ?thesis using n t by (simp add: blanks)
  qed
qed

lemma json_need_members:
  "(\<And>p. p \<in> set fs \<Longrightarrow> json_need (snd p) \<le> 2 * length (json_text (snd p))) \<Longrightarrow>
   sum_list (map (\<lambda>(k, v). Suc (json_need v)) fs) \<le>
     2 * length (js_join '','' (map (\<lambda>(k, v). json_string k @ '':'' @ json_text v) fs))"
proof (induction fs)
  case (Cons f fs)
  obtain k v where f: "f = (k, v)" by force
  have "json_need v \<le> 2 * length (json_text v)" using Cons.prems [of f] f by simp
  moreover have "sum_list (map (\<lambda>(k, v). Suc (json_need v)) fs) \<le>
     2 * length (js_join '','' (map (\<lambda>(k, v). json_string k @ '':'' @ json_text v) fs))"
    by (rule Cons.IH) (simp add: Cons.prems)
  ultimately show ?case using f by (cases fs) (simp_all add: json_string_def case_prod_unfold)
qed simp

lemma json_need_text: "json_need u \<le> 2 * length (json_text u)"
proof (induction u)
  case (UInt i)
  have "0 < length (show_int i)" by simp
  then show ?case by (simp del: length_greater_0_conv)
next
  case (UObj fs)
  have "json_need (snd p) \<le> 2 * length (json_text (snd p))" if "p \<in> set fs" for p
    using UObj that by (cases p) auto
  then show ?case using json_need_members [of fs] by auto
qed (simp_all add: json_string_def)

lemma json_parse_text: "json_parse (json_text u) = Some (ujson_val u)"
  using json_value_text [of u "2 * length (json_text u) + 1" "[]"] json_need_text [of u]
  by (simp add: json_parse_def json_stop_def)

end
