(* ===== verification/DocLayer.thy ===== *)
theory DocLayer
  imports Tiles Json
begin

text \<open>
  The document layer as the map's part operations see it (\<open>loleaflet/src/control/Parts.js\<close>), and
  the sending of UNO commands (\<open>sendUnoCommand\<close> and \<open>forceCellCommit\<close> of
  \<open>loleaflet/src/control/Toolbar.js\<close>, \<open>map/handler/Map.StateChanges.js\<close>). The layer holds the
  tile grid, the parts (sheets, slides) and pages, and the selected ones. Redrawing cursors,
  selections and search results are calls in the log.
\<close>

section \<open>State\<close>

text \<open>\<open>_stateProperties\<close> of the state handler: what core last reported of a command.\<close>

record uno_prop =
  u_enabled :: bool
  u_checked :: "bool option"
  u_value :: "string option"

record tlayer =
  l_grid :: grid
  l_docType :: string
  l_parts :: int
  l_selectedParts :: "jsnum list"
  l_prevSelectedPart :: int
  l_prevNeedsUpdate :: bool
  l_currentPage :: int
  l_pages :: int
  l_viewId :: jsnum
  l_lastValidPart :: int
  l_partNames :: "string list"         \<comment> \<open>\<open>_partNames\<close> of sheets, \<open>_partHashes\<close> of slides\<close>
  l_hiddenParts :: "jsnum list"
  l_previewInvalidations :: "bounds option list"   \<comment> \<open>\<open>None\<close> has a \<open>NaN\<close> in it\<close>
  l_docPreviews :: "(int, bool) obj"   \<comment> \<open>the previews by id, with their \<open>invalid\<close> flag\<close>
  l_prevCellCursor :: "llbounds option"
  l_onPgUp :: "llbounds option"
  l_onPgDn :: "llbounds option"
  l_cursorMarker :: bool               \<comment> \<open>the cursor marker is on the map\<close>
  l_isCursorVisible :: bool
  l_cellCommit :: bool                 \<comment> \<open>\<open>_hasForceCellCommit\<close>\<close>
  l_searchRequested :: bool
  l_items :: "(string, string) obj"
  l_props :: "(string, uno_prop) obj"

abbreviation selectedPart :: "tlayer \<Rightarrow> int" where
  "selectedPart l \<equiv> g_selectedPart (l_grid l)"

definition on_grid :: "(grid \<Rightarrow> grid) \<Rightarrow> tlayer \<Rightarrow> tlayer" where
  "on_grid f l = l\<lparr>l_grid := f (l_grid l)\<rparr>"

definition lsend :: "sconf \<Rightarrow> string \<Rightarrow> tlayer \<Rightarrow> tlayer" where
  "lsend cf m = on_grid (gsend cf m)"

definition lemit :: "effect \<Rightarrow> tlayer \<Rightarrow> tlayer" where
  "lemit e = on_grid (gemit e)"

definition lcall :: "string \<Rightarrow> tlayer \<Rightarrow> tlayer" where
  "lcall f = lemit (Called f [])"

section \<open>Reported states and UNO commands\<close>

text \<open>\<open>_onStateChanged\<close>. A state with a brace is a JSON text; it is kept as the text.\<close>

definition onStateChanged :: "string \<Rightarrow> string \<Rightarrow> tlayer \<Rightarrow> tlayer" where
  "onStateChanged cmd e l =
     (let r = dropWhile (\<lambda>c. c \<noteq> CHR ''{'') e; state = (if r = [] then e else r);
          props = \<lparr>u_enabled = True, u_checked = None, u_value = None\<rparr>;
          props = (if state = ''disabled'' then props\<lparr>u_enabled := False\<rparr>
                   else if state = ''true'' \<or> state = ''false'' then props\<lparr>u_checked := Some (state = ''true'')\<rparr>
                   else props\<lparr>u_value := Some state\<rparr>)
      in l\<lparr>l_items := obj_put cmd state (l_items l), l_props := obj_put cmd props (l_props l)\<rparr>)"

definition uno_name :: "string \<Rightarrow> string" where
  "uno_name c = (if c \<noteq> [] \<and> take 5 c \<noteq> ''.uno:'' then ''.uno:'' @ c else c)"

definition getItemValue :: "string \<Rightarrow> tlayer \<Rightarrow> string option" where
  "getItemValue c l = obj_get (l_items l) (uno_name c)"

text \<open>\<open>None\<close> is the empty object the code returns for an unknown command.\<close>

definition getItemProperty :: "string \<Rightarrow> tlayer \<Rightarrow> uno_prop option" where
  "getItemProperty c l = obj_get (l_props l) (uno_name c)"

text \<open>\<open>_preventDoubleTrigger\<close>; \<open>None\<close> is the exception for a command core never reported.\<close>

definition preventDoubleTrigger :: "string \<Rightarrow> tlayer \<Rightarrow> bool option" where
  "preventDoubleTrigger c l =
     (if c = ''.uno:Text'' \<or> c = ''.uno:VerticalText''
      then map_option (\<lambda>p. u_checked p = Some True) (obj_get (l_props l) c)
      else Some False)"

text \<open>\<open>encodeURI\<close>\<close>

definition uri_reserved :: "char \<Rightarrow> bool" where
  "uri_reserved c \<longleftrightarrow> c \<in> {CHR '';'', CHR ''/'', CHR ''?'', CHR '':'', CHR ''@'', CHR ''&'', CHR ''='', CHR ''+'',
     CHR ''$'', CHR '','', CHR 0x23}"

definition encodeURI :: "string \<Rightarrow> string" where
  "encodeURI s =
     concat (map (\<lambda>c. if uri_unreserved c \<or> uri_reserved c then [c]
       else [CHR ''%'', hex_digit (char_code c div 16), hex_digit (char_code c mod 16)]) s)"

text \<open>\<open>sendUnoCommand\<close>. \<open>target\<close> is \<open>_UNOTARGET\<close>: the table of replacement commands by document
  type, empty when there is none.\<close>

definition sendUnoCommand ::
  "sconf \<Rightarrow> (string \<Rightarrow> string \<Rightarrow> string) \<Rightarrow> string \<Rightarrow> ujson option \<Rightarrow> tlayer \<Rightarrow> tlayer" where
  "sendUnoCommand cf target command json l =
     (if perm (g_net (l_grid l)) \<noteq> ''edit'' then l
      else
        let command = js_trim command;
            url = target command (l_docType l);
            command = (if url \<noteq> [] then url else command);
            command = (if startsWith command ''.uno:'' then encodeURI command else command)
        in case preventDoubleTrigger command l of
             None \<Rightarrow> lcall ''TypeError'' l
           | Some True \<Rightarrow> l
           | Some False \<Rightarrow>
               lsend cf (''uno '' @ command @ (case json of None \<Rightarrow> '''' | Some j \<Rightarrow> '' '' @ json_text j)) l)"

text \<open>\<open>forceCellCommit\<close>: an open cell edit is committed with Enter (code 13, UNO key 1280).\<close>

definition forceCellCommit :: "sconf \<Rightarrow> tlayer \<Rightarrow> tlayer \<times> bool" where
  "forceCellCommit cf l =
     (if perm (g_net (l_grid l)) = ''edit'' \<and> l_docType l = ''spreadsheet'' \<and> \<not> l_cellCommit l
         \<and> l_isCursorVisible l
      then
        let l = lcall ''focus'' (lsend cf ''setmodified'' l);
            l = on_grid (\<lambda>g. sendClientVisibleArea cf False (sendClientZoom cf False g)) l
        in (lsend cf ''key type=input char=13 key=1280'' l, True)
      else (l, False))"

section \<open>Selecting parts and pages\<close>

datatype part_arg = PrevPart | NextPart | PartNo int | OtherPart

definition jsnum_val :: "jsnum \<Rightarrow> jsval" where
  "jsnum_val n = (case n of Num i \<Rightarrow> JInt i | NaN \<Rightarrow> JStr ''NaN'')"

definition updateparts :: "tlayer \<Rightarrow> effect" where
  "updateparts l = Fired ''updateparts'' (JObj [(''selectedPart'', JInt (selectedPart l)),
     (''selectedParts'', JArr (map jsnum_val (l_selectedParts l))), (''parts'', JInt (l_parts l)),
     (''docType'', JStr (l_docType l))])"

definition set_selected :: "int \<Rightarrow> tlayer \<Rightarrow> tlayer" where
  "set_selected p = on_grid (\<lambda>g. g\<lparr>g_selectedPart := p\<rparr>)"

text \<open>The part the argument stands for; \<open>None\<close>: the function returns at once.\<close>

definition target_part :: "part_arg \<Rightarrow> tlayer \<Rightarrow> int option" where
  "target_part a l =
     (case a of
        PrevPart \<Rightarrow> Some (if selectedPart l > 0 then selectedPart l - 1 else selectedPart l)
      | NextPart \<Rightarrow> Some (if selectedPart l < l_parts l - 1 then selectedPart l + 1 else selectedPart l)
      | PartNo p \<Rightarrow> if p \<ge> 0 \<and> p < l_parts l then Some p else None
      | OtherPart \<Rightarrow> None)"

definition setPart :: "sconf \<Rightarrow> part_arg \<Rightarrow> bool \<Rightarrow> tlayer \<Rightarrow> tlayer" where
  "setPart cf part external l =
     (let l = l\<lparr>l_prevSelectedPart := selectedPart l, l_selectedParts := []\<rparr>
      in case target_part part l of
           None \<Rightarrow> l
         | Some p \<Rightarrow>
             (let l = (set_selected p l)\<lparr>l_selectedParts := [Num p]\<rparr>;
                  l = (if l_cursorMarker l then lsend cf ''resetselection'' l else l);
                  l = (if external then l
                       else
                         let l = (if l_docType l = ''spreadsheet'' then lcall ''scrollTo top'' l else l)
                         in lsend cf (''setclientpart part='' @ show_int (selectedPart l)) l);
                  l = lemit (updateparts l) l;
                  l = lcall ''_clearSelections'' (lcall ''eachView'' l);
                  l = on_grid (updateOnChangePart cf) l;
                  l = on_grid pruneTiles l;
                  l = l\<lparr>l_prevNeedsUpdate := True\<rparr>;
                  l = lcall ''_drawSearchResults'' l
              in if l_searchRequested l then l else lcall ''focus'' l))"

text \<open>\<open>selectPart\<close>: \<open>how\<close> is 0 to deselect, 1 to select, 2 to toggle.\<close>

definition selectPart :: "sconf \<Rightarrow> int \<Rightarrow> int \<Rightarrow> bool \<Rightarrow> tlayer \<Rightarrow> tlayer" where
  "selectPart cf part how external l =
     (let l = (if Num part \<in> set (l_selectedParts l) \<and> how \<noteq> 1
               then l\<lparr>l_selectedParts := remove1 (Num part) (l_selectedParts l)\<rparr>
               else if how \<noteq> 0 then l\<lparr>l_selectedParts := l_selectedParts l @ [Num part]\<rparr> else l);
          l = lemit (updateparts l) l
      in if external then l
         else lsend cf (''selectclientpart part='' @ show_int part @ '' how='' @ show_int how) l)"

definition goToPage :: "sconf \<Rightarrow> part_arg \<Rightarrow> tlayer \<Rightarrow> tlayer" where
  "goToPage cf page l =
     (let l = (case page of
          PrevPart \<Rightarrow> if l_currentPage l > 0 then l\<lparr>l_currentPage := l_currentPage l - 1\<rparr> else l
        | NextPart \<Rightarrow> if l_currentPage l < l_pages l - 1 then l\<lparr>l_currentPage := l_currentPage l + 1\<rparr> else l
        | PartNo p \<Rightarrow> if p \<ge> 0 \<and> p < l_pages l then l\<lparr>l_currentPage := p\<rparr> else l
        | OtherPart \<Rightarrow> l);
          l = lsend cf (''setpage page='' @ show_int (l_currentPage l)) l
      in lemit (Fired ''pagenumberchanged'' (JObj [(''currentPage'', JInt (l_currentPage l)),
           (''pages'', JInt (l_pages l)), (''docType'', JStr (l_docType l))])) l)"

section \<open>Inserting and deleting parts\<close>

text \<open>Without a position the index is \<open>undefined + 1\<close>, the number \<open>NaN\<close>.\<close>

definition part_event :: "string \<Rightarrow> tlayer \<Rightarrow> tlayer" where
  "part_event t l = lemit (Fired t (JObj [(''selectedPart'', JInt (selectedPart l)), (''parts'', JInt (l_parts l))])) l"

definition insertPage :: "sconf \<Rightarrow> int option \<Rightarrow> tlayer \<Rightarrow> tlayer" where
  "insertPage cf nPos l =
     (if l_docType l \<noteq> ''presentation'' \<and> l_docType l \<noteq> ''spreadsheet'' then l
      else
        let l = (if l_docType l = ''presentation'' then lsend cf ''uno .uno:InsertPage'' l
                 else
                   lsend cf (''uno .uno:Insert '' @ json_text (UObj
                     ([(''Name'', typed ''string'' (UStr ''''))]
                      @ (case nPos of None \<Rightarrow> [(''Index'', typed ''long'' UNull)]
                         | Some n \<Rightarrow> [(''Index'', typed ''long'' (UInt (n + 1)))]))))
                     (fst (forceCellCommit cf l)));
            l = part_event ''insertpage'' l;
            l = l\<lparr>l_parts := l_parts l + 1\<rparr>
        in setPart cf (case nPos of Some n \<Rightarrow> PartNo n | None \<Rightarrow> NextPart) False l)"

definition duplicatePage :: "sconf \<Rightarrow> tlayer \<Rightarrow> tlayer" where
  "duplicatePage cf l =
     (if l_docType l \<noteq> ''presentation'' then l
      else
        let l = part_event ''insertpage'' (lsend cf ''uno .uno:DuplicatePage'' l);
            l = l\<lparr>l_parts := l_parts l + 1\<rparr>
        in setPart cf NextPart False l)"

definition hiddenParts :: "tlayer \<Rightarrow> int" where
  "hiddenParts l = int (length (l_hiddenParts l))"

text \<open>\<open>deletePage\<close>: the command goes out before the checks.\<close>

definition deletePage :: "sconf \<Rightarrow> int option \<Rightarrow> tlayer \<Rightarrow> tlayer" where
  "deletePage cf nPos l =
     (if l_docType l \<noteq> ''presentation'' \<and> l_docType l \<noteq> ''spreadsheet'' then l
      else
        let l = (if l_docType l = ''presentation'' then lsend cf ''uno .uno:DeletePage'' l
                 else
                   lsend cf (''uno .uno:Remove '' @ json_text (UObj
                     (case nPos of None \<Rightarrow> [(''Index'', typed ''long'' UNull)]
                      | Some n \<Rightarrow> [(''Index'', typed ''long'' (UInt (n + 1)))])))
                     (fst (forceCellCommit cf l)))
        in if l_parts l = 1 then l
           else if l_docType l = ''spreadsheet'' \<and> l_parts l \<le> hiddenParts l + 1 then l
           else
             let l = part_event ''deletepage'' l;
                 l = l\<lparr>l_parts := l_parts l - 1\<rparr>;
                 l = (if selectedPart l \<ge> l_parts l then set_selected (selectedPart l - 1) l else l)
             in setPart cf (PartNo (case nPos of Some n \<Rightarrow> n | None \<Rightarrow> selectedPart l)) False l)"

text \<open>\<open>renamePage\<close>: for a spreadsheet \<open>setPart\<close> is called with the layer, no part.\<close>

definition renamePage :: "sconf \<Rightarrow> (string \<Rightarrow> string \<Rightarrow> string) \<Rightarrow> string \<Rightarrow> int \<Rightarrow> tlayer \<Rightarrow> tlayer" where
  "renamePage cf target name nPos l =
     (if l_docType l = ''spreadsheet'' then
        setPart cf OtherPart False (sendUnoCommand cf target ''.uno:Name''
          (Some (UObj [(''Name'', typed ''string'' (UStr name)), (''Index'', typed ''long'' (UInt (nPos + 1)))])) l)
      else if l_docType l = ''presentation'' \<or> l_docType l = ''drawing'' then
        sendUnoCommand cf target ''.uno:RenamePage'' (Some (UObj [(''Name'', typed ''string'' (UStr name))])) l
      else l)"

definition hasAnyHiddenPart :: "tlayer \<Rightarrow> bool" where
  "hasAnyHiddenPart l \<longleftrightarrow> l_docType l = ''spreadsheet'' \<and> hiddenParts l \<noteq> 0"

definition isHiddenPart :: "int \<Rightarrow> tlayer \<Rightarrow> bool" where
  "isHiddenPart part l \<longleftrightarrow> l_docType l = ''spreadsheet'' \<and> Num part \<in> set (l_hiddenParts l)"

definition getNumberOfVisibleParts :: "tlayer \<Rightarrow> int" where
  "getNumberOfVisibleParts l = l_parts l - hiddenParts l"

definition showPage :: "sconf \<Rightarrow> (string \<Rightarrow> string \<Rightarrow> string) \<Rightarrow> string \<Rightarrow> tlayer \<Rightarrow> tlayer" where
  "showPage cf target sheetName l =
     (if l_docType l = ''spreadsheet'' then
        (if hasAnyHiddenPart l then
           sendUnoCommand cf target ''.uno:Show''
             (Some (UObj [(''aTableName'', typed ''string'' (UStr sheetName))])) (fst (forceCellCommit cf l))
         else l)
      else if l_docType l = ''presentation'' \<or> l_docType l = ''drawing'' then lsend cf ''showpage'' l
      else l)"

definition hidePage :: "sconf \<Rightarrow> (string \<Rightarrow> string \<Rightarrow> string) \<Rightarrow> tlayer \<Rightarrow> tlayer" where
  "hidePage cf target l =
     (if l_docType l = ''spreadsheet'' then
        (if getNumberOfVisibleParts l > 1 then
           sendUnoCommand cf target ''.uno:Hide'' None (fst (forceCellCommit cf l)) else l)
      else if l_docType l = ''presentation'' \<or> l_docType l = ''drawing'' then lsend cf ''hidepage'' l
      else l)"

section \<open>Names\<close>

text \<open>\<open>isSheetnameValid\<close>; \<open>nPos\<close> is -1 when it is not given.\<close>

definition isSheetnameValid :: "string \<Rightarrow> int \<Rightarrow> tlayer \<Rightarrow> bool" where
  "isSheetnameValid sheetName nPos l =
     (let name = js_trim sheetName
      in name \<noteq> [] \<and> last name \<noteq> CHR 0x27 \<and> hd name \<noteq> CHR 0x27 \<and>
         list_all (\<lambda>c. c \<notin> set name)
           [CHR ''['', CHR '']'', CHR ''*'', CHR ''?'', CHR '':'', CHR ''/'', CHR 0x5C] \<and>
         list_all (\<lambda>(i, n). \<not> (int i \<noteq> nPos \<and> name = n)) (enumerate 0 (l_partNames l)))"

definition after_last :: "char \<Rightarrow> string \<Rightarrow> string" where
  "after_last c s = rev (takeWhile (\<lambda>x. x \<noteq> c) (rev s))"

definition getFileName :: "string \<Rightarrow> string" where
  "getFileName file = after_last (CHR ''/'') file"

text \<open>\<open>getDocName\<close>: the text from the last dot on is cut off first, wherever that dot is.\<close>

definition getDocName :: "string \<Rightarrow> string" where
  "getDocName file =
     (let file = (if CHR ''.'' \<in> set file
                  then rev (tl (dropWhile (\<lambda>x. x \<noteq> CHR ''.'') (rev file))) else file)
      in after_last (CHR ''/'') file)"

definition getHiddenPartNames :: "tlayer \<Rightarrow> string" where
  "getHiddenPartNames l =
     js_join '','' (map snd (filter (\<lambda>(i, n). isHiddenPart (int i) l) (enumerate 0 (l_partNames l))))"

text \<open>How the tab menu reads the names back (\<open>Control.Tabs.js\<close>).\<close>

definition splitHiddenNames :: "string \<Rightarrow> string list" where
  "splitHiddenNames s = js_split (CHR '','') s"

section \<open>What keeps the selected part\<close>

lemma part_fold: "(\<And>x s. g_selectedPart (f x s) = g_selectedPart s) \<Longrightarrow> g_selectedPart (fold f xs g) = g_selectedPart g"
  by (induction xs arbitrary: g) simp_all

lemma part_remove [simp]: "g_selectedPart (removeTile k g) = g_selectedPart g"
  by (simp add: removeTile_def Let_def split: option.split)

lemma part_prune [simp]: "g_selectedPart (pruneTiles g) = g_selectedPart g"
  unfolding pruneTiles_eq by (subst part_fold) (simp_all add: prune_one_def split: option.split)

lemma part_tiles [simp]:
  "g_selectedPart (add_tile c g) = g_selectedPart g" "g_selectedPart (set_src k s g) = g_selectedPart g"
  "g_selectedPart (cancelTiles cf g) = g_selectedPart g" "g_selectedPart (announce_loading g) = g_selectedPart g"
  "g_selectedPart (age_tiles z g) = g_selectedPart g"
  using same_frame_tiles(1,2,5) same_frame_send(3,4) by (simp_all add: same_frame_def)

lemma part_visits: "g_selectedPart (fst (fold visit_part cs (g, q, nv))) = g_selectedPart g"
proof (induction cs arbitrary: g q nv)
  case (Cons c cs)
  obtain h q' nv' where v: "visit_part c (g, q, nv) = (h, q', nv')" by (metis prod_cases3)
  then have "g_selectedPart h = g_selectedPart g"
    by (auto simp: visit_part_def Let_def split: if_splits option.splits)
  then show ?case using Cons by (simp add: v)
qed simp

lemma part_adds: "g_selectedPart (fst (fold add_part_tile cs (g, ask))) = g_selectedPart g"
proof (induction cs arbitrary: g ask)
  case (Cons c cs)
  obtain h ask' where v: "add_part_tile c (g, ask) = (h, ask')" by fastforce
  then have "g_selectedPart h = g_selectedPart g" by (auto simp: add_part_tile_def Let_def split: if_splits)
  then show ?case using Cons by (simp add: v)
qed simp

lemma part_change [simp]: "g_selectedPart (updateOnChangePart cf g) = g_selectedPart g"
proof -
  have v: "g_selectedPart h = g_selectedPart k" if "fold visit_part cs (k, [], True) = (h, q, nv)" for cs k h q nv
    using part_visits [of cs k "[]" True] that by simp
  have a: "g_selectedPart h = g_selectedPart k" if "fold add_part_tile q (k, []) = (h, ask)" for q k h ask
    using part_adds [of q k "[]"] that by simp
  show ?thesis
    by (auto simp: updateOnChangePart_def Let_def split: option.splits prod.splits dest!: v a)
qed

lemma on_grid_sel [simp]:
  "l_grid (on_grid f l) = f (l_grid l)" "l_parts (on_grid f l) = l_parts l" "l_docType (on_grid f l) = l_docType l"
  "l_selectedParts (on_grid f l) = l_selectedParts l" "l_prevSelectedPart (on_grid f l) = l_prevSelectedPart l"
  "l_hiddenParts (on_grid f l) = l_hiddenParts l" "l_partNames (on_grid f l) = l_partNames l"
  by (simp_all add: on_grid_def)

lemma send_sel [simp]:
  "l_parts (lsend cf m l) = l_parts l" "l_docType (lsend cf m l) = l_docType l"
  "l_selectedParts (lsend cf m l) = l_selectedParts l" "selectedPart (lsend cf m l) = selectedPart l"
  "l_prevSelectedPart (lsend cf m l) = l_prevSelectedPart l" "l_hiddenParts (lsend cf m l) = l_hiddenParts l"
  "l_parts (lemit e l) = l_parts l" "l_docType (lemit e l) = l_docType l"
  "l_selectedParts (lemit e l) = l_selectedParts l" "selectedPart (lemit e l) = selectedPart l"
  "l_prevSelectedPart (lemit e l) = l_prevSelectedPart l" "l_hiddenParts (lemit e l) = l_hiddenParts l"
  "l_parts (lcall f l) = l_parts l" "l_docType (lcall f l) = l_docType l"
  "l_selectedParts (lcall f l) = l_selectedParts l" "selectedPart (lcall f l) = selectedPart l"
  "l_prevSelectedPart (lcall f l) = l_prevSelectedPart l" "l_hiddenParts (lcall f l) = l_hiddenParts l"
  by (simp_all add: lsend_def lemit_def lcall_def)

lemma set_selected_sel [simp]:
  "l_parts (set_selected p l) = l_parts l" "l_docType (set_selected p l) = l_docType l"
  "selectedPart (set_selected p l) = p" "l_hiddenParts (set_selected p l) = l_hiddenParts l"
  "l_prevSelectedPart (set_selected p l) = l_prevSelectedPart l"
  by (simp_all add: set_selected_def)

lemma part_event_sel [simp]:
  "l_parts (part_event t l) = l_parts l" "selectedPart (part_event t l) = selectedPart l"
  "l_docType (part_event t l) = l_docType l" "l_hiddenParts (part_event t l) = l_hiddenParts l"
  by (simp_all add: part_event_def)

lemma commit_sel [simp]:
  "l_parts (fst (forceCellCommit cf l)) = l_parts l" "selectedPart (fst (forceCellCommit cf l)) = selectedPart l"
  "l_docType (fst (forceCellCommit cf l)) = l_docType l"
  "l_hiddenParts (fst (forceCellCommit cf l)) = l_hiddenParts l"
  using same_frame_send(1,2) by (simp_all add: forceCellCommit_def Let_def same_frame_def)

lemma uno_shape:
  "l_parts (if c then l else case x of None \<Rightarrow> lcall f l | Some True \<Rightarrow> l | Some False \<Rightarrow> lsend cf m l) = l_parts l \<and>
   selectedPart (if c then l else case x of None \<Rightarrow> lcall f l | Some True \<Rightarrow> l | Some False \<Rightarrow> lsend cf m l) =
     selectedPart l"
  by (simp split: option.split bool.split)

lemma uno_sel [simp]:
  "l_parts (sendUnoCommand cf t c j l) = l_parts l" "selectedPart (sendUnoCommand cf t c j l) = selectedPart l"
  unfolding sendUnoCommand_def Let_def
  by (rule uno_shape [THEN conjunct1], rule uno_shape [THEN conjunct2])

lemma setPart_sel [simp]:
  "l_parts (setPart cf a e l) = l_parts l"
  "selectedPart (setPart cf a e l) = (case target_part a l of None \<Rightarrow> selectedPart l | Some p \<Rightarrow> p)"
  "l_selectedParts (setPart cf a e l) = (case target_part a l of None \<Rightarrow> [] | Some p \<Rightarrow> [Num p])"
  "l_prevSelectedPart (setPart cf a e l) = selectedPart l"
proof -
  let ?l = "l\<lparr>l_prevSelectedPart := selectedPart l, l_selectedParts := []\<rparr>"
  have t: "target_part a ?l = target_part a l" by (simp add: target_part_def split: part_arg.split)
  show "l_parts (setPart cf a e l) = l_parts l"
    "selectedPart (setPart cf a e l) = (case target_part a l of None \<Rightarrow> selectedPart l | Some p \<Rightarrow> p)"
    "l_selectedParts (setPart cf a e l) = (case target_part a l of None \<Rightarrow> [] | Some p \<Rightarrow> [Num p])"
    "l_prevSelectedPart (setPart cf a e l) = selectedPart l"
    by (simp_all add: setPart_def t Let_def split: option.split)
qed

section \<open>Operations on parts\<close>

datatype part_op =
    SetPart part_arg bool | SelectPart int int bool | GoToPage part_arg | InsertPage "int option" | DuplicatePage
  | DeletePage "int option" | RenamePage string int | ShowPage string | HidePage

definition part_step :: "sconf \<Rightarrow> (string \<Rightarrow> string \<Rightarrow> string) \<Rightarrow> part_op \<Rightarrow> tlayer \<Rightarrow> tlayer" where
  "part_step cf target op l =
     (case op of
        SetPart a e \<Rightarrow> setPart cf a e l
      | SelectPart p how e \<Rightarrow> selectPart cf p how e l
      | GoToPage a \<Rightarrow> goToPage cf a l
      | InsertPage n \<Rightarrow> insertPage cf n l
      | DuplicatePage \<Rightarrow> duplicatePage cf l
      | DeletePage n \<Rightarrow> deletePage cf n l
      | RenamePage s n \<Rightarrow> renamePage cf target s n l
      | ShowPage s \<Rightarrow> showPage cf target s l
      | HidePage \<Rightarrow> hidePage cf target l)"

text \<open>The selected part is one of the parts.\<close>

definition parts_ok :: "tlayer \<Rightarrow> bool" where
  "parts_ok l \<longleftrightarrow> 0 \<le> selectedPart l \<and> selectedPart l < l_parts l"

lemma target_ok: "parts_ok l \<Longrightarrow> target_part a l = Some p \<Longrightarrow> 0 \<le> p \<and> p < l_parts l"
  by (auto simp: parts_ok_def target_part_def split: part_arg.splits if_splits)

lemma setPart_ok: "parts_ok l \<Longrightarrow> parts_ok (setPart cf a e l)"
proof (cases "target_part a l")
  case None
  then show "parts_ok l \<Longrightarrow> ?thesis" by (simp add: parts_ok_def)
next
  case (Some p)
  then show "parts_ok l \<Longrightarrow> ?thesis" using target_ok [of l a p] by (simp add: parts_ok_def [of "setPart cf a e l"])
qed

lemma parts_ok_sel [simp]:
  "parts_ok (part_event t l) = parts_ok l" "parts_ok (lsend cf m l) = parts_ok l"
  "parts_ok (lemit e l) = parts_ok l" "parts_ok (lcall f l) = parts_ok l"
  "parts_ok (fst (forceCellCommit cf l)) = parts_ok l" "parts_ok (sendUnoCommand cf t' c j l) = parts_ok l"
  "parts_ok (set_selected p l) \<longleftrightarrow> 0 \<le> p \<and> p < l_parts l"
  "parts_ok (l\<lparr>l_parts := n\<rparr>) \<longleftrightarrow> 0 \<le> selectedPart l \<and> selectedPart l < n"
  "parts_ok (l\<lparr>l_selectedParts := ps\<rparr>) = parts_ok l" "parts_ok (l\<lparr>l_currentPage := n\<rparr>) = parts_ok l"
  by (simp_all add: parts_ok_def)

lemma insertPage_ok: "parts_ok l \<Longrightarrow> parts_ok (insertPage cf n l)"
  unfolding insertPage_def Let_def
  by (cases "l_docType l = ''presentation''") (simp_all add: setPart_ok parts_ok_def [of l] del: setPart_sel)

lemma duplicatePage_ok: "parts_ok l \<Longrightarrow> parts_ok (duplicatePage cf l)"
  unfolding duplicatePage_def Let_def by (simp add: setPart_ok parts_ok_def [of l] del: setPart_sel)

lemma deletePage_ok: "parts_ok l \<Longrightarrow> parts_ok (deletePage cf n l)"
  unfolding deletePage_def Let_def
  by (cases "l_docType l = ''presentation''") (simp_all add: setPart_ok parts_ok_def [of l] del: setPart_sel)

lemma part_step_ok: "parts_ok l \<Longrightarrow> parts_ok (part_step cf target op l)"
proof (cases op)
  case (RenamePage s n)
  assume ok: "parts_ok l"
  then have "parts_ok (sendUnoCommand cf target c j l)" for c j by (simp add: parts_ok_def)
  then show ?thesis using ok by (simp add: RenamePage part_step_def renamePage_def setPart_ok)
qed (auto simp: part_step_def setPart_ok insertPage_ok duplicatePage_ok deletePage_ok,
     auto simp: parts_ok_def selectPart_def goToPage_def showPage_def hidePage_def Let_def split: part_arg.split)

interpretation parts: event_machine "part_step cf target" parts_ok
  by unfold_locales (rule part_step_ok)

section \<open>Properties\<close>

text \<open>A presentation of two slides over the demonstration grid, the second one selected.\<close>

definition demo_layer :: tlayer where
  "demo_layer = \<lparr>l_grid = demo_grid\<lparr>g_selectedPart := 1\<rparr>, l_docType = ''presentation'', l_parts = 2,
     l_selectedParts = [Num 1], l_prevSelectedPart = 0, l_prevNeedsUpdate = False, l_currentPage = 0, l_pages = 0,
     l_viewId = Num 0, l_lastValidPart = -1, l_partNames = [''one'', ''two''], l_hiddenParts = [],
     l_previewInvalidations = [], l_docPreviews = [], l_prevCellCursor = None, l_onPgUp = None, l_onPgDn = None,
     l_cursorMarker = False, l_isCursorVisible = False, l_cellCommit = False, l_searchRequested = False,
     l_items = [], l_props = []\<rparr>"

text \<open>
  C12: the selected part is a part of the document in every run of the operations on parts (selecting,
  inserting, duplicating, deleting, renaming, showing and hiding), whatever their arguments are.
\<close>

theorem part_runs_in_range:
  assumes "parts_ok l"
  shows "0 \<le> selectedPart (fold (part_step cf target) ops l) \<and>
    selectedPart (fold (part_step cf target) ops l) < l_parts (fold (part_step cf target) ops l)"
  using parts.run_inv [OF assms] by (simp add: parts_ok_def)

lemma part_runs_in_range_witness:
  "0 \<le> selectedPart (fold (part_step default_conf (\<lambda>c t. [])) [DeletePage (Some 1), InsertPage (Some 7)] demo_layer) \<and>
   selectedPart (fold (part_step default_conf (\<lambda>c t. [])) [DeletePage (Some 1), InsertPage (Some 7)] demo_layer) <
     l_parts (fold (part_step default_conf (\<lambda>c t. [])) [DeletePage (Some 1), InsertPage (Some 7)] demo_layer)"
  by (rule part_runs_in_range) (simp add: parts_ok_def demo_layer_def)

text \<open>
  the selection after \<open>deletePage\<close> of the last part. The selected part is moved back into the
  document, but \<open>setPart\<close> is then called with the number of the part that is gone, refuses it and
  leaves the list of selected parts empty; and with a single part left the delete command is sent
  all the same before the check that would forbid it.
\<close>

theorem deletePage_last_deselects:
  assumes "l_docType l = ''presentation''" "l_parts l > 1" "parts_ok l"
  shows "l_selectedParts (deletePage cf (Some (l_parts l - 1)) l) = [] \<and>
    selectedPart (deletePage cf (Some (l_parts l - 1)) l) = min (selectedPart l) (l_parts l - 2) \<and>
    deletePage cf n (l\<lparr>l_parts := 1\<rparr>) = lsend cf ''uno .uno:DeletePage'' (l\<lparr>l_parts := 1\<rparr>)"
proof -
  have "target_part (PartNo (l_parts l - 1)) k = None" if "l_parts k = l_parts l - 1" for k
    using that by (simp add: target_part_def)
  moreover have "deletePage cf n (l\<lparr>l_parts := 1\<rparr>) = lsend cf ''uno .uno:DeletePage'' (l\<lparr>l_parts := 1\<rparr>)"
    using assms(1) unfolding deletePage_def Let_def by simp
  ultimately show ?thesis using assms unfolding deletePage_def Let_def by (auto simp: parts_ok_def)
qed

lemma deletePage_last_deselects_witness:
  "l_selectedParts (deletePage default_conf (Some (l_parts demo_layer - 1)) demo_layer) = [] \<and>
    selectedPart (deletePage default_conf (Some (l_parts demo_layer - 1)) demo_layer) =
      min (selectedPart demo_layer) (l_parts demo_layer - 2) \<and>
    deletePage default_conf None (demo_layer\<lparr>l_parts := 1\<rparr>) =
      lsend default_conf ''uno .uno:DeletePage'' (demo_layer\<lparr>l_parts := 1\<rparr>)"
  by (rule deletePage_last_deselects) (simp_all add: demo_layer_def parts_ok_def)

text \<open>The names of the hidden sheets.\<close>

definition hidden_names :: "tlayer \<Rightarrow> string list" where
  "hidden_names l = map snd (filter (\<lambda>(i, n). isHiddenPart (int i) l) (enumerate 0 (l_partNames l)))"

lemma split_join_count:
  "ws \<noteq> [] \<Longrightarrow> length (js_split c (js_join [c] ws)) = length ws + count_list (concat ws) c"
proof (induction "[c]" ws rule: js_join.induct)
  case (2 w)
  show ?case by (induction w) (auto split: list.splits simp: neq_Nil_conv)
next
  case (3 w v ws)
  have "length (js_split c (w @ c # t)) = Suc (count_list w c) + length (js_split c t)" for t
    by (induction w) (auto split: list.splits simp: neq_Nil_conv)
  then show ?case using 3 by simp
qed simp

text \<open>
  the names of hidden sheets travel as one text joined by commas. The menu that splits it again
  gets the names back exactly when none of them holds a comma, and one entry too many for every
  comma otherwise; a name with a comma is a valid sheet name.
\<close>

theorem hidden_names_roundtrip:
  assumes "hidden_names l \<noteq> []"
  shows "(splitHiddenNames (getHiddenPartNames l) = hidden_names l \<longleftrightarrow> (\<forall>n \<in> set (hidden_names l). CHR '','' \<notin> set n)) \<and>
    length (splitHiddenNames (getHiddenPartNames l)) =
      length (hidden_names l) + count_list (concat (hidden_names l)) (CHR '','') \<and>
    isSheetnameValid ''a,b'' (-1) (l\<lparr>l_partNames := []\<rparr>)"
proof -
  let ?c = "CHR '',''"
  have g: "getHiddenPartNames l = js_join [?c] (hidden_names l)" by (simp add: getHiddenPartNames_def hidden_names_def)
  have len: "length (js_split ?c (js_join [?c] (hidden_names l))) =
      length (hidden_names l) + count_list (concat (hidden_names l)) ?c" by (rule split_join_count [OF assms])
  have "js_split ?c (js_join [?c] (hidden_names l)) = hidden_names l \<longleftrightarrow> (\<forall>n \<in> set (hidden_names l). ?c \<notin> set n)"
  proof
    assume "js_split ?c (js_join [?c] (hidden_names l)) = hidden_names l"
    with len have "count_list (concat (hidden_names l)) ?c = 0" by simp
    then show "\<forall>n \<in> set (hidden_names l). ?c \<notin> set n" by (auto simp: count_list_0_iff)
  qed (rule js_split_join [OF assms], simp)
  moreover have "isSheetnameValid ''a,b'' (-1) (l\<lparr>l_partNames := []\<rparr>)"
    by (simp add: isSheetnameValid_def js_trim_def is_space_def char_code_def Let_def)
  ultimately show ?thesis using len by (simp add: g splitHiddenNames_def)
qed

lemma hidden_names_roundtrip_witness:
  "let l = demo_layer\<lparr>l_docType := ''spreadsheet'', l_hiddenParts := [Num 0], l_partNames := [''a,b'', ''c'']\<rparr> in
    (splitHiddenNames (getHiddenPartNames l) = hidden_names l \<longleftrightarrow> (\<forall>n \<in> set (hidden_names l). CHR '','' \<notin> set n)) \<and>
    length (splitHiddenNames (getHiddenPartNames l)) =
      length (hidden_names l) + count_list (concat (hidden_names l)) (CHR '','') \<and>
    isSheetnameValid ''a,b'' (-1) (l\<lparr>l_partNames := []\<rparr>)"
  unfolding Let_def
  by (rule hidden_names_roundtrip) (simp add: hidden_names_def isHiddenPart_def demo_layer_def)

text \<open>
  \<open>getDocName\<close> is the file name without directory and extension for a name with an extension, but
  a dot in a directory of a path whose file has none makes it a piece of that directory's name.
\<close>

theorem getDocName_cuts:
  assumes "CHR ''/'' \<notin> set base" "CHR ''/'' \<notin> set ext" "CHR ''.'' \<notin> set ext"
  shows "getDocName (dir @ ''/'' @ base @ ''.'' @ ext) = base \<and>
    (CHR ''.'' \<notin> set base \<longrightarrow> CHR ''/'' \<notin> set d1 \<longrightarrow> CHR ''.'' \<notin> set d2 \<longrightarrow>
       getDocName (dir @ ''/'' @ d1 @ ''.'' @ d2 @ ''/'' @ base) = d1)"
proof -
  have dw: "dropWhile (\<lambda>x. x \<noteq> c) (rev e @ c # r) = c # r" if "c \<notin> set e" for c e and r :: string
    using that by (subst dropWhile_append2) auto
  have tw: "takeWhile (\<lambda>x. x \<noteq> c) (rev e @ c # r) = rev e" if "c \<notin> set e" for c e and r :: string
    using that by (subst takeWhile_append2) auto
  have "dropWhile (\<lambda>x. x \<noteq> CHR ''.'') (rev ext @ CHR ''.'' # r) = CHR ''.'' # r" for r using dw assms(3) by blast
  then have "getDocName (dir @ ''/'' @ base @ ''.'' @ ext) = base"
    using tw [OF assms(1)] by (simp add: getDocName_def after_last_def)
  moreover have "getDocName (dir @ ''/'' @ d1 @ ''.'' @ d2 @ ''/'' @ base) = d1"
    if "CHR ''.'' \<notin> set base" "CHR ''/'' \<notin> set d1" "CHR ''.'' \<notin> set d2"
  proof -
    have "CHR ''.'' \<notin> set (d2 @ ''/'' @ base)" using that by simp
    from dw [OF this] tw [OF that(2)] show ?thesis by (simp add: getDocName_def after_last_def)
  qed
  ultimately show ?thesis by blast
qed

lemma getDocName_cuts_witness:
  "getDocName (''/tmp'' @ ''/'' @ ''report'' @ ''.'' @ ''odt'') = ''report'' \<and>
    getDocName (''/tmp'' @ ''/'' @ ''my'' @ ''.'' @ ''dir'' @ ''/'' @ ''report'') = ''my''"
proof (rule conjI)
  note cuts = getDocName_cuts [of "''report''" "''odt''" "''/tmp''" "''my''" "''dir''"]
  show "getDocName (''/tmp'' @ ''/'' @ ''report'' @ ''.'' @ ''odt'') = ''report''"
    by (rule conjunct1 [OF cuts]) simp_all
  have "CHR ''.'' \<notin> set ''report''" "CHR ''/'' \<notin> set ''my''" "CHR ''.'' \<notin> set ''dir''" by simp_all
  moreover have "CHR ''/'' \<notin> set ''report''" "CHR ''/'' \<notin> set ''odt''" "CHR ''.'' \<notin> set ''odt''" by simp_all
  ultimately show "getDocName (''/tmp'' @ ''/'' @ ''my'' @ ''.'' @ ''dir'' @ ''/'' @ ''report'') = ''my''"
    using cuts by blast
qed

section \<open>What the server reads of a command\<close>

lemma encodeURI_no_blank: "CHR '' '' \<notin> set (encodeURI s)"
proof -
  have "hex_digit n \<noteq> CHR '' ''" if "n < 16" for n
  proof
    assume "hex_digit n = CHR '' ''"
    then have "char_code (hex_digit n) = 32" by (simp add: char_code_def)
    with that show False by (auto simp: hex_digit_def split: if_splits)
  qed
  from this [of "char_code c div 16" for c] this [of "char_code c mod 16" for c]
  have "hex_digit (char_code c div 16) \<noteq> CHR '' ''" "hex_digit (char_code c mod 16) \<noteq> CHR '' ''" for c
    using char_code_less [of c] by auto
  moreover have "\<not> uri_unreserved (CHR '' '')" "\<not> uri_reserved (CHR '' '')"
    by (simp_all add: uri_unreserved_def uri_reserved_def is_digit_def char_code_def)
  ultimately have "CHR '' '' \<notin> set (if uri_unreserved c \<or> uri_reserved c then [c]
      else [CHR ''%'', hex_digit (char_code c div 16), hex_digit (char_code c mod 16)])" for c
    by (auto simp: eq_commute [of "CHR '' ''"])
  then show ?thesis unfolding encodeURI_def by (induction s) (simp_all del: set_simps(2) split del: if_split)
qed

text \<open>
  a command is sent so that the server can take it apart: it is one message, the first blank after
  \<open>uno\<close> ends the name, and the JSON text after it parses to the arguments given, with every
  quote, control character and nesting of them.
\<close>

theorem uno_command_decodes:
  assumes "perm (g_net (l_grid l)) = ''edit''" "delivered (g_net (l_grid l))"
    and "js_trim c = c" "startsWith c ''.uno:''" "target c (l_docType l) = []"
    and "preventDoubleTrigger (encodeURI c) l = Some False"
  shows "\<exists>n t. sent_of (log (g_net (l_grid (sendUnoCommand cf target c (Some j) l)))) =
       sent_of (log (g_net (l_grid l))) @ [''uno '' @ n @ '' '' @ t] \<and>
     n = encodeURI c \<and> CHR '' '' \<notin> set n \<and> json_parse t = Some (ujson_val j)"
proof (intro exI conjI)
  have "sendUnoCommand cf target c (Some j) l = lsend cf (''uno '' @ encodeURI c @ '' '' @ json_text j) l"
    unfolding sendUnoCommand_def Let_def
    by (simp only: assms not_True_eq_False simp_thms if_False if_True option.case bool.case)
  then show "sent_of (log (g_net (l_grid (sendUnoCommand cf target c (Some j) l)))) =
      sent_of (log (g_net (l_grid l))) @ [''uno '' @ encodeURI c @ '' '' @ json_text j]"
    by (simp only: lsend_def on_grid_def gsend_def delivered_send [OF assms(2)])
      (simp add: emit_def del: append_Cons)
qed (rule refl encodeURI_no_blank json_parse_text)+

lemma uno_command_decodes_witness:
  "\<exists>c t. sent_of (log (g_net (l_grid (sendUnoCommand default_conf (\<lambda>c t. []) ''.uno:InsertNote''
       (Some (UObj [(''Text'', typed ''string'' (UStr [CHR 0x22]))])) (on_grid (\<lambda>g. g\<lparr>g_net := open_session\<lparr>perm := ''edit''\<rparr>\<rparr>) demo_layer))))) =
       [''uno '' @ c @ '' '' @ t] \<and>
     c = encodeURI ''.uno:InsertNote'' \<and> CHR '' '' \<notin> set c \<and>
     json_parse t = Some (ujson_val (UObj [(''Text'', typed ''string'' (UStr [CHR 0x22]))]))"
proof -
  let ?l = "on_grid (\<lambda>g. g\<lparr>g_net := open_session\<lparr>perm := ''edit''\<rparr>\<rparr>) demo_layer"
  have "js_trim ''.uno:InsertNote'' = ''.uno:InsertNote''" by code_simp
  moreover have "startsWith ''.uno:InsertNote'' ''.uno:''" by (simp add: startsWith_def)
  moreover have "preventDoubleTrigger (encodeURI ''.uno:InsertNote'') ?l = Some False" by code_simp
  moreover have "delivered (g_net (l_grid ?l))" "sent_of (log (g_net (l_grid ?l))) = []"
    by (simp_all add: on_grid_def delivered_def open_session_def start_session_def connected_def)
  moreover have "perm (g_net (l_grid ?l)) = ''edit''" by (simp add: on_grid_def)
  ultimately show ?thesis
    using uno_command_decodes [of ?l "''.uno:InsertNote''" "\<lambda>c t. []" default_conf
        "UObj [(''Text'', typed ''string'' (UStr [CHR 0x22]))]"]
    by (metis append_Nil)
qed

end
