(* ===== verification/TileMsg.thy ===== *)
theory TileMsg
  imports DocLayer "HOL-Library.Word"
begin

text \<open>
  The tile messages of the document layer (\<open>loleaflet/src/layer/tile/TileLayer.js\<close> and its three
  subclasses \<open>WriterTileLayer\<close>, \<open>CalcTileLayer\<close>, \<open>ImpressTileLayer\<close>): a tile that arrives as an image
  or as a delta of the last one, invalidated rectangles, the status of the document, the part the
  server sets, and the mouse and key events sent. The debug overlay is left out (\<open>_debug\<close> is off).
\<close>

section \<open>Deltas\<close>

text \<open>Pixels are rows of \<open>w\<close> times four bytes (red, green, blue, alpha) of a clamped array: an
  index out of range is not written and reads as undefined, which is stored as 0; the value 256
  is clamped to 255.\<close>

type_synonym byte = "8 word"

definition byte_at :: "byte list \<Rightarrow> nat \<Rightarrow> byte" where
  "byte_at xs k = (if k < length xs then xs ! k else 0)"

text \<open>The code of a row copy: \<open>n\<close> rows from \<open>srcRow\<close> of the old image to \<open>destRow\<close>.\<close>

definition copy_row :: "nat \<Rightarrow> byte list \<Rightarrow> nat \<Rightarrow> nat \<Rightarrow> byte list \<Rightarrow> byte list" where
  "copy_row w old src dest data =
     fold (\<lambda>j d. d[dest + j := byte_at old (src + j)]) [0..<w * 4] data"

definition copy_rows :: "nat \<Rightarrow> byte list \<Rightarrow> nat \<Rightarrow> nat \<Rightarrow> nat \<Rightarrow> byte list \<Rightarrow> byte list" where
  "copy_rows w old n srcRow destRow data =
     fold (\<lambda>cnt. copy_row w old ((srcRow + cnt) * w * 4) ((destRow + cnt) * w * 4)) [0..<n] data"

text \<open>A run of \<open>span\<close> pixels from the bytes \<open>ds\<close>; first and last a debug mark is set.\<close>

definition mark_end :: "nat \<Rightarrow> byte list \<Rightarrow> byte list" where
  "mark_end offset data = (if offset < 2 then data else data[offset - 2 := 255])"

definition put_run :: "nat \<Rightarrow> nat \<Rightarrow> byte list \<Rightarrow> byte list \<Rightarrow> byte list" where
  "put_run offset n ds data =
     (let data = data[offset + 1 := 255];
          data = fold (\<lambda>j d. d[offset + j := byte_at ds j]) [0..<n] data
      in mark_end (offset + n) data)"

text \<open>The loop over the codes, 99 (\<open>c\<close>) and 100 (\<open>d\<close>). Operands missing at the end are undefined:
  a copy then writes nothing, and a run without a span only sets its marks.\<close>

function delta_ops :: "nat \<Rightarrow> byte list \<Rightarrow> byte list \<Rightarrow> byte list \<Rightarrow> byte list" where
  "delta_ops w old data [] = data"
| "delta_ops w old data (code # ds) =
     (if code = 99 then
        (case ds of
           n # src # dest # rest \<Rightarrow>
             delta_ops w old (copy_rows w old (unat n) (unat src) (unat dest) data) rest
         | _ \<Rightarrow> data)
      else if code = 100 then
        (case ds of
           row # col # len # rest \<Rightarrow>
             (let n = unat len * 4
              in delta_ops w old (put_run (unat row * w * 4 + unat col * 4) n rest data) (drop n rest))
         | [row, col] \<Rightarrow>
             (let offset = unat row * w * 4 + unat col * 4 in mark_end offset (data[offset + 1 := 255]))
         | _ \<Rightarrow> data)
      else data)"
  by pat_completeness auto
termination by (relation "measure (\<lambda>(w, old, data, ds). length ds)") auto

text \<open>The first byte of a delta is skipped.\<close>

definition apply_delta :: "nat \<Rightarrow> byte list \<Rightarrow> byte list \<Rightarrow> byte list" where
  "apply_delta w old delta = delta_ops w old old (drop 1 delta)"

section \<open>A tile arrives\<close>

datatype tile_img = Url string | Delta "byte list"

text \<open>What the browser does with images: the pixels of an image address, drawn on a canvas of the
  given width and height, and the address of pixels.\<close>

record canvas_ops =
  tile_px :: nat                 \<comment> \<open>\<open>window.tileSize\<close>\<close>
  pixels_of :: "nat \<Rightarrow> string \<Rightarrow> byte list"
  url_of :: "byte list \<Rightarrow> string"

text \<open>A number in a text: an undefined field and \<open>NaN\<close> have names.\<close>

definition num_text :: "jsnum option \<Rightarrow> string" where
  "num_text n = (case n of None \<Rightarrow> ''undefined'' | Some NaN \<Rightarrow> ''NaN'' | Some (Num i) \<Rightarrow> show_int i)"

definition str_text :: "string option \<Rightarrow> string" where
  "str_text s = (case s of None \<Rightarrow> ''undefined'' | Some t \<Rightarrow> t)"

text \<open>The coordinates a tile message is for. Without them, or with a tile size of 0, the key is one
  of \<open>NaN\<close> or infinite fields, under which there is no tile: \<open>None\<close>.\<close>

definition command_coords :: "command \<Rightarrow> tcoords option" where
  "command_coords c =
     (case (cmd_x c, cmd_y c, cmd_tileWidth c, cmd_tileHeight c, cmd_zoom c, cmd_part c) of
        (Some (Num x), Some (Num y), Some (Num w), Some (Num h), Some (Num z), Some (Num p)) \<Rightarrow>
          if w = 0 \<or> h = 0 then None
          else (let q = twipsToCoords (x, y) w h in Some (tc (fst q) (snd q) z p))
      | _ \<Rightarrow> None)"

definition parse_for :: "grid \<Rightarrow> string \<Rightarrow> command" where
  "parse_for g = parseServerCmd (g_optZoom g) (Some (g_optWidthTwips g))"

text \<open>What the message does to the tile it finds.\<close>

definition tile_arrives :: "canvas_ops \<Rightarrow> string \<Rightarrow> tile \<Rightarrow> tile_img \<Rightarrow> grid \<Rightarrow> grid" where
  "tile_arrives cv key t img g =
     (case img of
        Delta d \<Rightarrow>
          (let w = tile_px cv;
               new = apply_delta w (pixels_of cv w (t_src t)) d
           in g\<lparr>g_tiles := obj_put key (t\<lparr>t_src := url_of cv new\<rparr>) (g_tiles g)\<rparr>)
      | Url src \<Rightarrow>
          (let t' = (if t_invalid t > 0 then t\<lparr>t_invalid := t_invalid t - 1\<rparr> else t);
               g = (if \<not> t_loaded t' then
                      (let g = g\<lparr>g_empty := g_empty g - 1\<rparr>
                       in if g_empty g = 0
                          then gemit (Fired ''statusindicator'' (JObj [(''statusType'', JStr ''alltilesloaded'')])) g
                          else g)
                    else g)
           in g\<lparr>g_tiles := obj_put key (t'\<lparr>t_src := src\<rparr>) (g_tiles g)\<rparr>))"

definition tile_ack :: "command \<Rightarrow> string" where
  "tile_ack c =
     ''tileprocessed tile='' @ num_text (cmd_part c) @ '':'' @ num_text (cmd_x c) @ '':'' @ num_text (cmd_y c)
       @ '':'' @ num_text (cmd_tileWidth c) @ '':'' @ num_text (cmd_tileHeight c) @ '':'' @ str_text (cmd_nviewid c)"

definition onTileMsg :: "sconf \<Rightarrow> canvas_ops \<Rightarrow> string \<Rightarrow> tile_img \<Rightarrow> grid \<Rightarrow> grid" where
  "onTileMsg cf cv textMsg img g =
     (let command = parse_for g textMsg;
          found = Option.bind (command_coords command)
            (\<lambda>c. map_option (Pair (tileCoordsToKey c)) (obj_get (g_tiles g) (tileCoordsToKey c)));
          g = (case cmd_id command of
                 Some i \<Rightarrow> gemit (Fired ''tilepreview'' (JObj [(''id'', JStr i)])) g
               | None \<Rightarrow> (case found of None \<Rightarrow> g | Some (key, t) \<Rightarrow> tile_arrives cv key t img g))
      in gsend cf (tile_ack command) g)"

section \<open>Invalidated rectangles\<close>

text \<open>The three layers.\<close>

datatype layer_kind = Writer | Calc | Impress

text \<open>The rectangle and part of an \<open>invalidatetiles:\<close> message, from its named fields or else from its
  first four numbers. The outer \<open>None\<close> is the exception for a text without a digit; a rectangle
  with a \<open>NaN\<close> in it is \<open>None\<close> and intersects nothing.\<close>

definition num_or_nan :: "jsnum option \<Rightarrow> jsnum" where
  "num_or_nan n = (case n of None \<Rightarrow> NaN | Some v \<Rightarrow> v)"

definition nth_num :: "string list \<Rightarrow> nat \<Rightarrow> jsnum" where
  "nth_num ds k = (if k < length ds then Num (int (read_nat (ds ! k))) else NaN)"

definition nan_rect :: "jsnum \<Rightarrow> jsnum \<Rightarrow> jsnum \<Rightarrow> jsnum \<Rightarrow> bounds option" where
  "nan_rect x y w h =
     (case (x, y, w, h) of
        (Num x, Num y, Num w, Num h) \<Rightarrow>
          (let topLeftTwips = pt (of_int x) (of_int y); offset = pt (of_int w) (of_int h)
           in Some (new_bounds topLeftTwips (point_add topLeftTwips offset)))
      | _ \<Rightarrow> None)"

definition invalid_area :: "grid \<Rightarrow> string \<Rightarrow> (bounds option \<times> jsnum) option" where
  "invalid_area g textMsg =
     (let c = parse_for g textMsg
      in if cmd_x c = None \<or> cmd_y c = None \<or> cmd_part c = None then
           (let ds = digit_runs textMsg
            in if ds = [] then None
               else Some (nan_rect (nth_num ds 0) (nth_num ds 1) (nth_num ds 2) (nth_num ds 3),
                          Num (g_selectedPart g)))
         else Some (nan_rect (num_or_nan (cmd_x c)) (num_or_nan (cmd_y c)) (num_or_nan (cmd_width c))
                      (num_or_nan (cmd_height c)), num_or_nan (cmd_part c)))"

definition hits :: "bounds option \<Rightarrow> bounds \<Rightarrow> bool" where
  "hits r b = (case r of None \<Rightarrow> False | Some i \<Rightarrow> bounds_intersects i b)"

text \<open>One tile of the loop over \<open>_tiles\<close>.\<close>

definition inval_tile :: "bounds option \<Rightarrow> jsnum \<Rightarrow> bounds \<Rightarrow> string \<Rightarrow> grid \<Rightarrow> grid" where
  "inval_tile invalidBounds part visibleArea key g =
     (case obj_get (g_tiles g) key of
        None \<Rightarrow> g
      | Some t \<Rightarrow>
          (let b = tile_rect g (t_coords t)
           in if Num (tpart (t_coords t)) = part \<and> hits invalidBounds b then
                (let g = g\<lparr>g_tiles := obj_put key (t\<lparr>t_invalid := t_invalid t + 1\<rparr>) (g_tiles g)\<rparr>
                 in if bounds_intersects visibleArea b then g else removeTile key g)
              else g))"

text \<open>The rectangle a cached tile is taken to cover. The scale is relative to the map's zoom.\<close>

definition cache_rect :: "grid \<Rightarrow> tcoords \<Rightarrow> bounds" where
  "cache_rect g c =
     (let scale = getZoomScale (g_view g) (tz c) None;
          w = of_int (g_optWidthTwips g) / scale; h = of_int (g_optHeightTwips g) / scale;
          topLeftTwips = pt (w * of_int (tx c)) (h * of_int (ty c))
      in new_bounds topLeftTwips (point_add topLeftTwips (pt w h)))"

definition inval_cached :: "layer_kind \<Rightarrow> bounds option \<Rightarrow> jsnum \<Rightarrow> grid \<Rightarrow> string \<Rightarrow> bool" where
  "inval_cached kind invalidBounds part g key \<longleftrightarrow>
     (case keyToTileCoords key of
        None \<Rightarrow> False
      | Some c \<Rightarrow> (kind = Writer \<or> Num (tpart c) = part) \<and> hits invalidBounds (cache_rect g c))"

definition inval_cache :: "layer_kind \<Rightarrow> bounds option \<Rightarrow> jsnum \<Rightarrow> grid \<Rightarrow> grid" where
  "inval_cache kind invalidBounds part g =
     g\<lparr>g_cache := filter (\<lambda>(k, src). \<not> inval_cached kind invalidBounds part g k) (g_cache g)\<rparr>"

definition inval_grid :: "layer_kind \<Rightarrow> bounds option \<Rightarrow> jsnum \<Rightarrow> bounds \<Rightarrow> grid \<Rightarrow> grid" where
  "inval_grid kind invalidBounds part visibleArea g =
     inval_cache kind invalidBounds part
       (fold (inval_tile invalidBounds part visibleArea) (obj_keys (g_tiles g)) g)"

text \<open>What only \<open>ImpressTileLayer\<close> does then: \<open>updatepart\<close> events, and the mark on the preview,
  which throws (the result is false) when there is none.\<close>

definition updatepart :: "int \<Rightarrow> tlayer \<Rightarrow> tlayer" where
  "updatepart p l = lemit (Fired ''updatepart'' (JObj [(''part'', JInt p), (''docType'', JStr (l_docType l))])) l"

definition impress_previews :: "jsnum \<Rightarrow> tlayer \<Rightarrow> tlayer \<times> bool" where
  "impress_previews part l =
     (case part of
        NaN \<Rightarrow> (lcall ''TypeError'' l, False)
      | Num p \<Rightarrow>
          (let l = (if p = selectedPart l \<and> p \<noteq> l_lastValidPart l
                    then updatepart p ((updatepart (l_lastValidPart l) l)\<lparr>l_lastValidPart := p\<rparr>) else l)
           in if obj_get (l_docPreviews l) p = None then (lcall ''TypeError'' l, False)
              else (l\<lparr>l_docPreviews := obj_put p True (l_docPreviews l)\<rparr>, True)))"

definition onInvalidateTilesMsg :: "layer_kind \<Rightarrow> string \<Rightarrow> tlayer \<Rightarrow> tlayer" where
  "onInvalidateTilesMsg kind textMsg l =
     (case invalid_area (l_grid l) textMsg of
        None \<Rightarrow> lcall ''TypeError'' l
      | Some (invalidBounds, part) \<Rightarrow>
          (let part = (if kind = Writer then Num 0 else part)
           in case visible_area (l_grid l) of
                None \<Rightarrow> lcall ''Error'' l
              | Some visibleArea \<Rightarrow>
                  (let l = on_grid (inval_grid kind invalidBounds part visibleArea) l;
                       (l, ok) = (if kind = Impress then impress_previews part l else (l, True))
                   in if ok then
                        lcall ''setTimeout _invalidatePreviews''
                          (l\<lparr>l_previewInvalidations := l_previewInvalidations l @ [invalidBounds]\<rparr>)
                      else l)))"

text \<open>The handler of each layer; the text of the three is the same but for the branches on \<open>kind\<close>.\<close>

definition writer_invalidate :: "string \<Rightarrow> tlayer \<Rightarrow> tlayer" where
  "writer_invalidate = onInvalidateTilesMsg Writer"

definition calc_invalidate :: "string \<Rightarrow> tlayer \<Rightarrow> tlayer" where
  "calc_invalidate = onInvalidateTilesMsg Calc"

definition impress_invalidate :: "string \<Rightarrow> tlayer \<Rightarrow> tlayer" where
  "impress_invalidate = onInvalidateTilesMsg Impress"

text \<open>The branch \<open>invalidatetiles:\<close> of \<open>_onMessage\<close>: \<open>EMPTY\<close> stands for the whole part.\<close>

definition invalidatetiles_branch :: "layer_kind \<Rightarrow> string \<Rightarrow> tlayer \<Rightarrow> tlayer" where
  "invalidatetiles_branch kind textMsg l =
     (let payload = drop (length ''invalidatetiles:'' + 1) textMsg; g = l_grid l
      in if \<not> startsWith payload ''EMPTY'' then onInvalidateTilesMsg kind textMsg l
         else
           let p = (if l_docType l = ''text'' then 0
                    else case js_parseInt (drop (length ''EMPTY'' + 1) payload) of
                           None \<Rightarrow> g_selectedPart g | Some n \<Rightarrow> n);
               size = (\<lambda>d. num_text (map_option Num d))
           in onInvalidateTilesMsg kind
                (''invalidatetiles: part='' @ show_int p @ '' x=0 y=0 width='' @ size (g_docWidth g)
                   @ '' height='' @ size (g_docHeight g)) l)"

section \<open>Parts and status\<close>

text \<open>\<open>_onSetPartMsg\<close>: the first number of the text; without one the handler throws.\<close>

definition setpart_event :: "tlayer \<Rightarrow> tlayer" where
  "setpart_event l = lemit (Fired ''setpart'' (JObj [(''selectedPart'', JInt (selectedPart l))])) l"

definition pagenumber_event :: "int \<Rightarrow> tlayer \<Rightarrow> tlayer" where
  "pagenumber_event p l = lemit (Fired ''pagenumberchanged'' (JObj [(''currentPage'', JInt p),
     (''pages'', JInt (l_pages l)), (''docType'', JStr (l_docType l))])) l"

definition set_part_number :: "string \<Rightarrow> int option" where
  "set_part_number textMsg = (case digit_runs textMsg of [] \<Rightarrow> None | d # _ \<Rightarrow> Some (int (read_nat d)))"

definition writer_setpart :: "string \<Rightarrow> tlayer \<Rightarrow> tlayer" where
  "writer_setpart textMsg l =
     (case set_part_number textMsg of
        None \<Rightarrow> lcall ''TypeError'' l
      | Some part \<Rightarrow>
          if part = selectedPart l then l else pagenumber_event part (l\<lparr>l_currentPage := part\<rparr>))"

definition calc_setpart :: "sconf \<Rightarrow> string \<Rightarrow> tlayer \<Rightarrow> tlayer" where
  "calc_setpart cf textMsg l =
     (case set_part_number textMsg of
        None \<Rightarrow> lcall ''TypeError'' l
      | Some part \<Rightarrow>
          if part \<noteq> selectedPart l \<and> Num part \<notin> set (l_hiddenParts l)
          then lemit (Fired ''updaterowcolumnheaders'' JUndef) (setpart_event (setPart cf (PartNo part) True l))
          else l)"

definition impress_setpart :: "sconf \<Rightarrow> string \<Rightarrow> tlayer \<Rightarrow> tlayer" where
  "impress_setpart cf textMsg l =
     (case set_part_number textMsg of
        None \<Rightarrow> lcall ''TypeError'' l
      | Some part \<Rightarrow>
          if part = selectedPart l then l else setpart_event (setPart cf (PartNo part) True l))"

definition onSetPartMsg :: "sconf \<Rightarrow> layer_kind \<Rightarrow> string \<Rightarrow> tlayer \<Rightarrow> tlayer" where
  "onSetPartMsg cf kind =
     (case kind of Writer \<Rightarrow> writer_setpart | Calc \<Rightarrow> calc_setpart cf | Impress \<Rightarrow> impress_setpart cf)"

text \<open>\<open>replace(sub, '')\<close>: the first occurrence goes.\<close>

fun remove_first :: "string \<Rightarrow> string \<Rightarrow> string" where
  "remove_first sub [] = []"
| "remove_first sub (c # cs) = (if startsWith (c # cs) sub then drop (length sub) (c # cs) else c # remove_first sub cs)"

text \<open>\<open>match(/[^\r\n]+/g)\<close>, and the last \<open>n\<close> of them as \<open>slice(length - n)\<close> takes them: a start
  below 0 counts from the end.\<close>

definition is_newline :: "char \<Rightarrow> bool" where
  "is_newline c \<longleftrightarrow> char_code c = 10 \<or> char_code c = 13"

definition text_lines :: "string \<Rightarrow> string list" where
  "text_lines s = filter (\<lambda>w. w \<noteq> []) (split_runs is_newline s)"

definition last_lines :: "int \<Rightarrow> string list \<Rightarrow> string list" where
  "last_lines n ls =
     (let len = int (length ls); start = len - n
      in drop (nat (if start < 0 then max 0 (len + start) else start)) ls)"

text \<open>The numbers of a status message: size, number of parts and the current part. \<open>None\<close>: the
  message has no size (it is ignored), or no parts or current part; such a message the server
  does not send, and it is ignored in the model.\<close>

definition status_numbers :: "command \<Rightarrow> (int \<times> int \<times> int \<times> int) option" where
  "status_numbers c =
     (case (cmd_width c, cmd_height c, cmd_parts c, cmd_selectedPart c) of
        (Some (Num w), Some (Num h), Some (Num n), Some (Num p)) \<Rightarrow>
          if w = 0 \<or> h = 0 then None else Some (w, h, n, p)
      | _ \<Rightarrow> None)"

definition status_viewid :: "command \<Rightarrow> jsnum" where
  "status_viewid c = (case cmd_viewid c of None \<Rightarrow> NaN | Some t \<Rightarrow> parseNum t)"

definition set_size :: "int \<Rightarrow> int \<Rightarrow> string option \<Rightarrow> tlayer \<Rightarrow> tlayer" where
  "set_size w h dt l =
     (on_grid (\<lambda>g. g\<lparr>g_docWidth := Some w, g_docHeight := Some h\<rparr>) l)\<lparr>l_docType := str_text dt\<rparr>"

definition refetch :: "sconf \<Rightarrow> tlayer \<Rightarrow> tlayer" where
  "refetch cf = on_grid (\<lambda>g. layer_update cf None (resetPreFetching True g))"

definition writer_status :: "sconf \<Rightarrow> bool \<Rightarrow> string \<Rightarrow> tlayer \<Rightarrow> tlayer" where
  "writer_status cf nothing textMsg l =
     (let c = parse_for (l_grid l) textMsg
      in case status_numbers c of
           None \<Rightarrow> l
         | Some (w, h, n, p) \<Rightarrow>
             if g_documentInfo (l_grid l) = textMsg then l
             else
               let sizeChanged = (Some w \<noteq> g_docWidth (l_grid l) \<or> Some h \<noteq> g_docHeight (l_grid l));
                   l = (if sizeChanged then
                          on_grid (updateMaxBounds True None None nothing)
                            ((set_size w h (cmd_type c) l)\<lparr>l_viewId := status_viewid c\<rparr>)
                        else l);
                   l = on_grid (\<lambda>g. g\<lparr>g_documentInfo := textMsg, g_selectedPart := 0\<rparr>) l;
                   l = l\<lparr>l_parts := 1, l_currentPage := p, l_pages := n\<rparr>
               in refetch cf (pagenumber_event (l_currentPage l) l))"

text \<open>The bounds of a spreadsheet smaller than the view are widened to the view.\<close>

definition calc_bounds :: "bool \<Rightarrow> grid \<Rightarrow> grid" where
  "calc_bounds nothing g =
     (case (g_docWidth g, g_docHeight g) of
        (Some w, Some h) \<Rightarrow>
          (let v = g_view g; mapSize = mv_size v;
               width = of_int w / of_int (g_widthTwips g) * of_int (g_tileSize g);
               height = of_int h / of_int (g_heightTwips g) * of_int (g_tileSize g)
           in if width < px mapSize \<or> height < py mapSize then
                (let width = max width (px mapSize); height = max height (py mapSize);
                     topLeft = unproject v (pt 0 0) None; bottomRight = unproject v (pt width height) None
                 in gemit (Fired ''docsize'' (JObj [(''x'', JReal width), (''y'', JReal height)]))
                      (g\<lparr>g_view := setMaxBounds (new_llbounds topLeft bottomRight) nothing v,
                         g_docPixelSize := Some (pt width height)\<rparr>))
              else updateMaxBounds True None None nothing g)
      | _ \<Rightarrow> g)"

text \<open>The names of the parts: the last lines, or with \<open>partdetail\<close> a field of the JSON texts there.
  \<open>field\<close> is that field of a line, \<open>None\<close> when \<open>JSON.parse\<close> throws.\<close>

definition status_names :: "(string \<Rightarrow> string option) \<Rightarrow> command \<Rightarrow> int \<Rightarrow> string \<Rightarrow> string list option" where
  "status_names field c n textMsg =
     (let ls = last_lines n (text_lines textMsg)
      in if cmd_partdetail c = None then Some ls
         else if \<exists>s \<in> set ls. field s = None then None else Some (map (the \<circ> field) ls))"

definition updateparts_status :: "tlayer \<Rightarrow> effect" where
  "updateparts_status l = Fired ''updateparts'' (JObj [(''selectedPart'', JInt (selectedPart l)),
     (''parts'', JInt (l_parts l)), (''docType'', JStr (l_docType l)),
     (''partNames'', JArr (map JStr (l_partNames l))), (''hiddenParts'', JArr (map jsnum_val (l_hiddenParts l))),
     (''source'', JStr ''status'')])"

definition calc_status :: "sconf \<Rightarrow> (string \<Rightarrow> string option) \<Rightarrow> bool \<Rightarrow> string \<Rightarrow> tlayer \<Rightarrow> tlayer" where
  "calc_status cf field nothing textMsg l =
     (let c = parse_for (l_grid l) textMsg
      in case status_numbers c of
           None \<Rightarrow> l
         | Some (w, h, n, p) \<Rightarrow>
             if g_documentInfo (l_grid l) = textMsg then l
             else
               let l = set_selected p (set_size w h (cmd_type c) l);
                   l = on_grid (calc_bounds nothing) (l\<lparr>l_parts := n, l_viewId := status_viewid c\<rparr>);
                   l = on_grid (\<lambda>g. g\<lparr>g_documentInfo := textMsg\<rparr>)
                         (l\<lparr>l_hiddenParts := (case cmd_hiddenparts c of None \<Rightarrow> [] | Some ps \<Rightarrow> ps)\<rparr>)
               in case status_names field c n textMsg of
                    None \<Rightarrow> lcall ''SyntaxError'' l
                  | Some names \<Rightarrow>
                      (let l = l\<lparr>l_partNames := names\<rparr>
                       in refetch cf (lemit (updateparts_status l) l)))"

definition updateparts_slides :: "tlayer \<Rightarrow> effect" where
  "updateparts_slides l = Fired ''updateparts'' (JObj [(''selectedPart'', JInt (selectedPart l)),
     (''selectedParts'', JArr (map jsnum_val (l_selectedParts l))), (''parts'', JInt (l_parts l)),
     (''docType'', JStr (l_docType l)), (''partNames'', JArr (map JStr (l_partNames l)))])"

text \<open>\<open>extra\<close> is the margin \<open>_updateMaxBounds\<close> of \<open>ImpressTileLayer\<close> adds when the part has
  annotations.\<close>

definition impress_status ::
  "sconf \<Rightarrow> (string \<Rightarrow> string option) \<Rightarrow> point option \<Rightarrow> bool \<Rightarrow> string \<Rightarrow> tlayer \<Rightarrow> tlayer" where
  "impress_status cf field extra nothing textMsg l =
     (let textMsg = remove_first ''statusupdate: '' (remove_first ''status: '' textMsg);
          c = parse_for (l_grid l) textMsg
      in case status_numbers c of
           None \<Rightarrow> l
         | Some (w, h, n, p) \<Rightarrow>
             if g_documentInfo (l_grid l) = textMsg then l
             else
               let l = set_size w h (cmd_type c) l;
                   l = (if l_docType l = ''drawing'' then lcall ''addClass drawing'' l else l);
                   l = on_grid (updateMaxBounds True extra None nothing) l;
                   l = on_grid (\<lambda>g. g\<lparr>g_documentInfo := textMsg\<rparr>) l;
                   l = set_selected p (l\<lparr>l_parts := n, l_viewId := status_viewid c\<rparr>);
                   l = l\<lparr>l_selectedParts := (case cmd_selectedParts c of None \<Rightarrow> [Num p] | Some ps \<Rightarrow> ps)\<rparr>;
                   l = refetch cf l
               in case status_names field c n textMsg of
                    None \<Rightarrow> lcall ''SyntaxError'' l
                  | Some names \<Rightarrow> (let l = l\<lparr>l_partNames := names\<rparr> in lemit (updateparts_slides l) l))"

definition onStatusMsg ::
  "sconf \<Rightarrow> (string \<Rightarrow> string option) \<Rightarrow> point option \<Rightarrow> bool \<Rightarrow> layer_kind \<Rightarrow> string \<Rightarrow> tlayer \<Rightarrow> tlayer" where
  "onStatusMsg cf field extra nothing kind textMsg l =
     (case kind of Writer \<Rightarrow> writer_status cf nothing textMsg l | Calc \<Rightarrow> calc_status cf field nothing textMsg l
      | Impress \<Rightarrow> impress_status cf field extra nothing textMsg l)"

section \<open>Errors and input\<close>

definition mapOnError :: "sconf \<Rightarrow> string \<Rightarrow> tlayer \<Rightarrow> tlayer" where
  "mapOnError cf msg l =
     (if msg \<noteq> [] \<and> perm (g_net (l_grid l)) = ''edit''
      then on_grid (\<lambda>g. g\<lparr>g_net := setPermission cf ''view'' (g_net g)\<rparr>) l else l)"

definition announce_view :: "sconf \<Rightarrow> tlayer \<Rightarrow> tlayer" where
  "announce_view cf = on_grid (\<lambda>g. sendClientVisibleArea cf False (sendClientZoom cf False g))"

definition postMouseEvent :: "sconf \<Rightarrow> string \<Rightarrow> int \<Rightarrow> int \<Rightarrow> int \<Rightarrow> int \<Rightarrow> int \<Rightarrow> tlayer \<Rightarrow> tlayer" where
  "postMouseEvent cf type x y n buttons modifier l =
     (let l = lsend cf (''mouse type='' @ type @ '' x='' @ show_int x @ '' y='' @ show_int y @ '' count='' @ show_int n
                @ '' buttons='' @ show_int buttons @ '' modifier='' @ show_int modifier) (announce_view cf l)
      in if type = ''buttondown'' then lcall ''_clearSearchResults'' l else l)"

text \<open>\<open>_postKeyboardEvent\<close>: a page key in a spreadsheet is remembered and not repeated.\<close>

definition copy_llb :: "llbounds \<Rightarrow> llbounds" where
  "copy_llb b = new_llbounds (southWest b) (northEast b)"

definition page_key :: "string \<Rightarrow> int \<Rightarrow> tlayer \<Rightarrow> tlayer option" where
  "page_key type keycode l =
     (case l_prevCellCursor l of
        None \<Rightarrow> Some l
      | Some b \<Rightarrow>
          if l_docType l = ''spreadsheet'' \<and> type = ''input'' then
            (if keycode = 1030 then
               (if l_onPgUp l \<noteq> None then None else Some (l\<lparr>l_onPgUp := Some (copy_llb b)\<rparr>))
             else if keycode = 1031 then
               (if l_onPgDn l \<noteq> None then None else Some (l\<lparr>l_onPgDn := Some (copy_llb b)\<rparr>))
             else Some l)
          else Some l)"

definition postKeyboardEvent :: "sconf \<Rightarrow> string \<Rightarrow> int \<Rightarrow> int \<Rightarrow> tlayer \<Rightarrow> tlayer" where
  "postKeyboardEvent cf type charcode keycode l =
     (case page_key type keycode l of
        None \<Rightarrow> l
      | Some l \<Rightarrow>
          lsend cf (''key type='' @ type @ '' char='' @ show_int charcode @ '' key='' @ show_int keycode)
            (announce_view cf l))"

section \<open>Facts\<close>

lemma fold_updates:
  "offset + n \<le> length d \<Longrightarrow>
   length (fold (\<lambda>j d. d[offset + j := f j]) [0..<n] d) = length d \<and>
   (\<forall>k < length d. fold (\<lambda>j d. d[offset + j := f j]) [0..<n] d ! k =
      (if offset \<le> k \<and> k < offset + n then f (k - offset) else d ! k))"
proof (induction n)
  case (Suc n)
  then show ?case by (auto simp: nth_list_update)
qed auto

lemma copy_row_nth:
  assumes "dest + w * 4 \<le> length data" "src + w * 4 \<le> length old"
  shows "length (copy_row w old src dest data) = length data \<and>
    (\<forall>k < length data. copy_row w old src dest data ! k =
       (if dest \<le> k \<and> k < dest + w * 4 then old ! (src + (k - dest)) else data ! k))"
  using fold_updates [OF assms(1), of "\<lambda>j. byte_at old (src + j)"] assms(2)
  by (auto simp: copy_row_def byte_at_def)

lemma copy_rows_nth:
  "(dest + n) * w * 4 \<le> length data \<Longrightarrow> (src + n) * w * 4 \<le> length old \<Longrightarrow>
   length (copy_rows w old n src dest data) = length data \<and>
   (\<forall>k < length data. copy_rows w old n src dest data ! k =
      (if dest * w * 4 \<le> k \<and> k < (dest + n) * w * 4 then old ! (src * w * 4 + (k - dest * w * 4)) else data ! k))"
proof (induction n)
  case (Suc n)
  let ?d = "copy_rows w old n src dest data"
  have IH: "length ?d = length data"
    "\<And>k. k < length data \<Longrightarrow> ?d ! k = (if dest * w * 4 \<le> k \<and> k < (dest + n) * w * 4
       then old ! (src * w * 4 + (k - dest * w * 4)) else data ! k)"
    using Suc by (auto simp: algebra_simps)
  have e: "copy_rows w old (Suc n) src dest data = copy_row w old ((src + n) * w * 4) ((dest + n) * w * 4) ?d"
    by (simp add: copy_rows_def)
  have b: "(dest + n) * w * 4 + w * 4 \<le> length ?d" "(src + n) * w * 4 + w * 4 \<le> length old"
    using Suc.prems IH(1) by (simp_all add: algebra_simps)
  have idx: "(src + n) * w * 4 + (k - (dest + n) * w * 4) = src * w * 4 + (k - dest * w * 4)"
    if "(dest + n) * w * 4 \<le> k" for k using that by (simp add: algebra_simps)
  show ?case using copy_row_nth [OF b] IH idx
    by (auto simp: e algebra_simps)
qed (auto simp: copy_rows_def)

text \<open>
  the row copy of a delta is exact: the rows named are those of the old image, every other byte
  stays, and the size of the image does not change.
\<close>

theorem delta_copies_rows:
  assumes "(unat dest + unat n) * w * 4 \<le> length old" "(unat src + unat n) * w * 4 \<le> length old"
  shows "length (apply_delta w old [h, 99, n, src, dest]) = length old \<and>
    (\<forall>k < length old. apply_delta w old [h, 99, n, src, dest] ! k =
      (if unat dest * w * 4 \<le> k \<and> k < (unat dest + unat n) * w * 4
       then old ! (unat src * w * 4 + (k - unat dest * w * 4)) else old ! k))"
  using copy_rows_nth [OF assms] by (simp add: apply_delta_def)

lemma delta_copies_rows_witness:
  "length (apply_delta 1 [1, 2, 3, 4, 5, 6, 7, 8] [0, 99, 1, 1, 0]) = length [1, 2, 3, 4, 5, 6, 7, 8 :: byte] \<and>
    apply_delta 1 [1, 2, 3, 4, 5, 6, 7, 8] [0, 99, 1, 1, 0] ! 2 = 7 \<and>
    apply_delta 1 [1, 2, 3, 4, 5, 6, 7, 8] [0, 99, 1, 1, 0] ! 5 = 6"
  using delta_copies_rows [of 0 1 1 "[1, 2, 3, 4, 5, 6, 7, 8]" 1 0] by simp

text \<open>
  a run of a delta puts its pixels where the row and the column say and leaves all others, but
  the debug mark at its end overwrites the blue byte of the run's last pixel with 255, whatever was
  sent for it.
\<close>

theorem delta_run_blue_end:
  assumes "unat len > 0" "length ds = unat len * 4"
    and "unat row * w * 4 + unat col * 4 + unat len * 4 \<le> length old"
  shows "let new = apply_delta w old (h # 100 # row # col # len # ds);
           lo = unat row * w * 4 + unat col * 4; hi = lo + unat len * 4 in
    length new = length old \<and>
    (\<forall>k < length old. new ! k =
      (if k = hi - 2 then 255 else if lo \<le> k \<and> k < hi then ds ! (k - lo) else old ! k))"
proof -
  define lo where "lo = unat row * w * 4 + unat col * 4"
  define n where "n = unat len * 4"
  have n: "4 \<le> n" "lo + n \<le> length (old[lo + 1 := 255])" "length ds = n"
    using assms by (simp_all add: n_def lo_def)
  have new: "apply_delta w old (h # 100 # row # col # len # ds) = put_run lo n ds old"
    using assms(2) by (simp add: apply_delta_def Let_def lo_def n_def)
  have "length (put_run lo n ds old) = length old \<and> (\<forall>k < length old. put_run lo n ds old ! k =
      (if k = lo + n - 2 then 255 else if lo \<le> k \<and> k < lo + n then ds ! (k - lo) else old ! k))"
    using fold_updates [OF n(2), of "\<lambda>j. byte_at ds j"] n
    by (auto simp: put_run_def mark_end_def Let_def byte_at_def nth_list_update)
  then show ?thesis by (simp add: new Let_def lo_def n_def)
qed

lemma delta_run_blue_end_witness:
  "let new = apply_delta 1 [0, 0, 0, 0, 0, 0, 0, 0] (0 # 100 # 1 # 0 # 1 # [9, 8, 7, 6]);
       lo = unat (1 :: byte) * 1 * 4 + unat (0 :: byte) * 4; hi = lo + unat (1 :: byte) * 4 in
    length new = length [0, 0, 0, 0, 0, 0, 0, 0 :: byte] \<and>
    (\<forall>k < length [0, 0, 0, 0, 0, 0, 0, 0 :: byte]. new ! k =
      (if k = hi - 2 then 255 else if lo \<le> k \<and> k < hi then [9, 8, 7, 6] ! (k - lo)
       else [0, 0, 0, 0, 0, 0, 0, 0] ! k))"
  by (rule delta_run_blue_end) simp_all

section \<open>Tiles that were asked for\<close>

text \<open>The server's answer for a tile, as it serialises the tile's description.\<close>

definition tile_answer :: "grid \<Rightarrow> tcoords \<Rightarrow> string" where
  "tile_answer g c =
     js_join '' '' [''tile:'', ''nviewid=0'', ''part='' @ show_int (tpart c), ''width='' @ show_int (g_widthPx g),
       ''height='' @ show_int (g_heightPx g), ''tileposx='' @ show_int (fst (coordsToTwips g c)),
       ''tileposy='' @ show_int (snd (coordsToTwips g c)), ''tilewidth='' @ show_int (g_widthTwips g),
       ''tileheight='' @ show_int (g_heightTwips g)]"

lemma twipsToCoords_inverse:
  "w \<noteq> 0 \<Longrightarrow> h \<noteq> 0 \<Longrightarrow> twipsToCoords (x * w, y * h) w h = (x, y)"
  by (simp add: twipsToCoords_def)

lemma parse_answer:
  assumes "g_optWidthTwips g > 0" "6 \<le> real_of_int (g_optWidthTwips g) * (6 / 5) powi (g_optZoom g - tz c)"
    and "g_widthTwips g = js_round (of_int (g_optWidthTwips g) * (6 / 5) powi (g_optZoom g - tz c))"
    and "g_heightTwips g \<noteq> 0"
  shows "command_coords (parse_for g (tile_answer g c)) = Some c" (is ?A)
    and "cmd_id (parse_for g (tile_answer g c)) = None" (is ?B)
    and "tile_ack (parse_for g (tile_answer g c)) =
      ''tileprocessed tile='' @ show_int (tpart c) @ '':'' @ show_int (fst (coordsToTwips g c)) @ '':''
        @ show_int (snd (coordsToTwips g c)) @ '':'' @ show_int (g_widthTwips g) @ '':''
        @ show_int (g_heightTwips g) @ '':0''" (is ?C)
proof -
  have zero: "show_int 0 = ''0''" by code_simp
  then have z: "''nviewid=0'' = ''nviewid='' @ show_int 0" by simp
  note p = parse_tile [OF assms(1,2,4,3), where v = 0, folded z]
  have w: "g_widthTwips g \<noteq> 0"
    using js_round_near [of "real_of_int (g_optWidthTwips g) * (6 / 5) powi (g_optZoom g - tz c)"] assms(2,3) by auto
  have q: "parse_for g (tile_answer g c) = empty_command\<lparr>cmd_nviewid := Some (show_int 0),
      cmd_part := Some (Num (tpart c)), cmd_width := Some (Num (g_widthPx g)), cmd_height := Some (Num (g_heightPx g)),
      cmd_x := Some (Num (fst (coordsToTwips g c))), cmd_y := Some (Num (snd (coordsToTwips g c))),
      cmd_tileWidth := Some (Num (g_widthTwips g)), cmd_tileHeight := Some (Num (g_heightTwips g)),
      cmd_zoom := Some (Num (tz c))\<rparr>"
    unfolding parse_for_def tile_answer_def by (rule p)
  show ?A using w assms(4)
    by (simp add: q command_coords_def empty_command_def coordsToTwips_def
        twipsToCoords_inverse Let_def)
  show ?B ?C
    by (simp_all add: q empty_command_def tile_ack_def num_text_def str_text_def zero)
qed



section \<open>What an invalidation leaves\<close>

text \<open>The outcome for one tile.\<close>

definition inval_outcome :: "bounds option \<Rightarrow> jsnum \<Rightarrow> bounds \<Rightarrow> grid \<Rightarrow> tile \<Rightarrow> tile option" where
  "inval_outcome r part area g t =
     (if Num (tpart (t_coords t)) = part \<and> hits r (tile_rect g (t_coords t))
      then if bounds_intersects area (tile_rect g (t_coords t)) then Some (t\<lparr>t_invalid := t_invalid t + 1\<rparr>) else None
      else Some t)"

definition counted :: "grid \<Rightarrow> bool" where
  "counted g \<longleftrightarrow> (\<forall>k t. map_of (g_tiles g) k = Some t \<longrightarrow> t_invalid t \<ge> 0)"

text \<open>Everything the rectangles depend on.\<close>

definition same_scale :: "grid \<Rightarrow> grid \<Rightarrow> bool" where
  "same_scale g h \<longleftrightarrow> g_view h = g_view g \<and> g_widthTwips h = g_widthTwips g \<and> g_heightTwips h = g_heightTwips g \<and>
     g_optWidthTwips h = g_optWidthTwips g \<and> g_optHeightTwips h = g_optHeightTwips g"

lemma same_scale_rect: "same_scale g h \<Longrightarrow> tile_rect h = tile_rect g \<and> cache_rect h = cache_rect g"
  by (simp add: fun_eq_iff same_scale_def tile_rect_def coordsToTwips_def cache_rect_def)

lemma remove_frame: "same_scale g (removeTile k g)"
  by (simp add: same_scale_def removeTile_def gemit_def Let_def split: option.splits)

lemma inval_tile_spec:
  assumes "counted g"
  shows "map_of (g_tiles (inval_tile r part area k g)) =
      (map_of (g_tiles g))(k := Option.bind (map_of (g_tiles g) k) (inval_outcome r part area g)) \<and>
    g_cache (inval_tile r part area k g) = g_cache g \<and> same_scale g (inval_tile r part area k g) \<and>
    counted (inval_tile r part area k g)"
proof (cases "map_of (g_tiles g) k")
  case None
  then show ?thesis using assms by (simp add: inval_tile_def same_scale_def fun_upd_idem)
next
  case (Some t)
  let ?t = "t\<lparr>t_invalid := t_invalid t + 1\<rparr>"
  let ?g = "g\<lparr>g_tiles := obj_put k ?t (g_tiles g)\<rparr>"
  have pos: "t_invalid t \<ge> 0" using assms Some by (simp add: counted_def)
  have c: "g_cache (removeTile k ?g) = g_cache g" using pos by (simp add: removeTile_def obj_put_get Let_def)
  have s: "same_scale g (removeTile k ?g)" using remove_frame [of ?g k] by (simp add: same_scale_def)
  have n: "counted ?g" "counted (removeTile k ?g)"
    using assms pos by (auto simp: counted_def obj_put_get removeTile_tiles)
  show ?thesis
    using Some assms c s n
    by (auto simp: inval_tile_def Let_def inval_outcome_def obj_put_get removeTile_tiles same_scale_def fun_upd_idem)
qed

lemma inval_fold_spec:
  assumes "counted g" "distinct ks"
  shows "map_of (g_tiles (fold (inval_tile r part area) ks g)) = (\<lambda>k. if k \<in> set ks
      then Option.bind (map_of (g_tiles g) k) (inval_outcome r part area g) else map_of (g_tiles g) k) \<and>
    g_cache (fold (inval_tile r part area) ks g) = g_cache g \<and> same_scale g (fold (inval_tile r part area) ks g)"
  using assms
proof (induction ks arbitrary: g)
  case Nil
  show ?case by (simp add: same_scale_def)
next
  case (Cons a ks)
  let ?h = "inval_tile r part area a g"
  note s = inval_tile_spec [OF Cons.prems(1), of r part area a]
  then have "same_scale g ?h" by simp
  then have o: "inval_outcome r part area ?h = inval_outcome r part area g"
    using same_scale_rect [of g ?h] by (simp add: fun_eq_iff inval_outcome_def)
  have "counted ?h" "distinct ks" using s Cons.prems by auto
  note IH = Cons.IH [OF this, unfolded o]
  have "same_scale g (fold (inval_tile r part area) ks ?h)" using IH s by (simp add: same_scale_def)
  then show ?case using IH s Cons.prems(2) by (auto simp: fun_eq_iff)
qed



text \<open>The rectangle of the document a tile shows: the tile size belongs to the zoom level
  \<open>options.zoom\<close>.\<close>

definition doc_rect :: "grid \<Rightarrow> tcoords \<Rightarrow> bounds" where
  "doc_rect g c =
     (let f = (6 / 5) powi (g_optZoom g - tz c);
          w = of_int (g_optWidthTwips g) * f; h = of_int (g_optHeightTwips g) * f
      in new_bounds (pt (w * of_int (tx c)) (h * of_int (ty c)))
           (pt (w * of_int (tx c) + w) (h * of_int (ty c) + h)))"

lemma cache_scale:
  "w / getZoomScale v z None = (6 / 5) powi (mv_zoom v - k) * (w * (6 / 5) powi (k - z))"
proof -
  have "getZoomScale v z None = (6 / 5) powi (z - mv_zoom v)"
    by (simp add: getZoomScale_def crs_simple_def power_int_diff)
  moreover have "(6 / 5 :: real) powi (mv_zoom v - k) * (6 / 5) powi (k - z) * (6 / 5) powi (z - mv_zoom v) = 1"
    by (simp flip: power_int_add)
  ultimately show ?thesis by (simp add: field_simps)
qed

lemma cache_rect_scaled:
  "cache_rect g c = (let s = (6 / 5) powi (mv_zoom (g_view g) - g_optZoom g); b = doc_rect g c
     in \<lparr>bmin = point_multiplyBy (bmin b) s, bmax = point_multiplyBy (bmax b) s\<rparr>)"
proof -
  let ?s = "(6 / 5 :: real) powi (mv_zoom (g_view g) - g_optZoom g)"
  have s: "0 < ?s" by simp
  have m: "min (?s * a) (?s * b) = ?s * min a b" "max (?s * a) (?s * b) = ?s * max a b" for a b
    using s by (simp_all add: min_mult_distrib_left max_mult_distrib_left)
  show ?thesis
    unfolding cache_rect_def doc_rect_def Let_def cache_scale [of _ _ _ "g_optZoom g"]
    by (simp add: new_bounds_def bounds_extend_def point_op_defs algebra_simps flip: m)
qed

text \<open>
  the cache is checked against the wrong rectangles unless the map is on zoom level
  \<open>options.zoom\<close>. The rectangle the code computes for a cached tile is the one it shows in the
  document, scaled by 1.2 to the difference of the two zoom levels; so on that level it is exact,
  and two levels up a cached image of an invalidated rectangle can survive.
\<close>

theorem stale_cached_tile:
  "(\<forall>g c. cache_rect g c =
      (let s = (6 / 5) powi (mv_zoom (g_view g) - g_optZoom g); b = doc_rect g c
       in \<lparr>bmin = point_multiplyBy (bmin b) s, bmax = point_multiplyBy (bmax b) s\<rparr>)) \<and>
   (let c = tc 3 0 10 0; key = tileCoordsToKey c; r = new_bounds (pt 12000 0) (pt 12100 10);
        g = demo_grid\<lparr>g_cache := [(key, ''img'')], g_view := demo_view\<lparr>mv_zoom := 12\<rparr>\<rparr>
    in bounds_intersects r (doc_rect g c) \<and>
       map_of (g_cache (inval_grid Impress (Some r) (Num 0) area g)) key = Some ''img'')"
proof -
  let ?c = "tc 3 0 10 0" and ?r = "new_bounds (pt 12000 0) (pt 12100 10)"
  let ?g = "demo_grid\<lparr>g_cache := [(tileCoordsToKey ?c, ''img'')], g_view := demo_view\<lparr>mv_zoom := 12\<rparr>\<rparr>"
  have d: "doc_rect ?g ?c = new_bounds (pt 11520 0) (pt 15360 3840)"
    by (simp add: doc_rect_def demo_grid_def Let_def)
  have "g_tiles ?g = []" by (simp add: demo_grid_def)
  moreover have "\<not> bounds_intersects ?r (cache_rect ?g ?c)"
    unfolding cache_rect_scaled d by (simp add: Let_def demo_grid_def bounds_intersects_def power_int_def power2_eq_square)
  ultimately have "map_of (g_cache (inval_grid Impress (Some ?r) (Num 0) area ?g)) (tileCoordsToKey ?c) = Some ''img''"
    by (simp add: inval_grid_def inval_cache_def inval_cached_def hits_def)
  moreover have "bounds_intersects ?r (doc_rect ?g ?c)" unfolding d by (simp add: bounds_intersects_def)
  ultimately show ?thesis using cache_rect_scaled unfolding Let_def by blast
qed

text \<open>
  a page key held down in a spreadsheet is sent once: after a page-up or page-down press was sent
  the next ones change nothing and send nothing until the cell cursor has answered.
\<close>

theorem page_key_once:
  assumes "keycode \<in> {1030, 1031}" "l_docType l = ''spreadsheet''" "l_prevCellCursor l \<noteq> None"
  shows "postKeyboardEvent cf ''input'' ch keycode (postKeyboardEvent cf ''input'' ch keycode l) =
    postKeyboardEvent cf ''input'' ch keycode l"
proof -
  have sel: "l_docType (announce_view cf k) = l_docType k"
    "l_prevCellCursor (lsend cf m (announce_view cf k)) = l_prevCellCursor k"
    "l_onPgUp (lsend cf m (announce_view cf k)) = l_onPgUp k"
    "l_onPgDn (lsend cf m (announce_view cf k)) = l_onPgDn k" for m k
    by (simp_all add: lsend_def announce_view_def on_grid_def)
  show ?thesis
  proof (cases "page_key ''input'' keycode l")
    case (Some k)
    then have "page_key ''input'' keycode (lsend cf m (announce_view cf k)) = None" for m
      using assms by (auto simp: page_key_def sel split: if_splits)
    then show ?thesis by (simp add: postKeyboardEvent_def Some)
  qed (simp add: postKeyboardEvent_def)
qed

lemma page_key_once_witness:
  "let l = demo_layer\<lparr>l_docType := ''spreadsheet'', l_prevCellCursor := Some llb_createDefault\<rparr> in
    postKeyboardEvent default_conf ''input'' 0 1030 (postKeyboardEvent default_conf ''input'' 0 1030 l) =
    postKeyboardEvent default_conf ''input'' 0 1030 l"
  unfolding Let_def by (rule page_key_once) simp_all

end
