(* ===== verification/Merge.thy ===== *)
theory Merge
  imports Prelude "HOL-Library.Product_Lexorder"
begin

text \<open>
  \<open>L.PolyUtil.rectanglesToPolygons\<close> (\<open>loleaflet/src/geometry/PolyUtil.js\<close>): the outline of selected
  lines of text as polygons. Near edges are glued, corners that meet pairwise vanish, the
  remaining ones are joined by horizontal and by vertical edges, and the edges are walked.
  Coordinates are twips, whole and not negative, so that the keys \<open>Point(x, y)\<close> of the source
  stand for pairs of numbers. The walk is a loop without a bound in the source; it is a partial
  function here, and its termination is proved for every list of rectangles.
\<close>

type_synonym vertex = "int \<times> int"

section \<open>Corners\<close>

text \<open>A rectangle as the callers build it: bottom left, bottom right, top left, top right. The y axis
  points down.\<close>

definition corners :: "vertex \<Rightarrow> vertex \<Rightarrow> vertex list" where
  "corners topLeft offset =
     [(fst topLeft, snd topLeft + snd offset), (fst topLeft + fst offset, snd topLeft + snd offset),
      topLeft, (fst topLeft + fst offset, snd topLeft)]"

text \<open>A corner moves onto the line of another one that is less than \<open>eps\<close> away.\<close>

definition snap :: "vertex \<Rightarrow> vertex \<Rightarrow> vertex" where
  "snap p q =
     (let x = (if \<bar>fst p - fst q\<bar> < 20 then fst p else fst q);
          y = (if \<bar>snd p - snd q\<bar> < 20 then snd p else snd q) in (x, y))"

fun glue :: "vertex list list \<Rightarrow> vertex list list" where
  "glue [] = []"
| "glue (r # rs) = r # glue (map (map (\<lambda>q. fold snap r q)) rs)"

text \<open>\<open>points\<close>: a corner met a second time is deleted again.\<close>

definition toggle :: "vertex \<Rightarrow> vertex list \<Rightarrow> vertex list" where
  "toggle p ps = (if p \<in> set ps then removeAll p ps else ps @ [p])"

definition outline_points :: "vertex list list \<Rightarrow> vertex list" where
  "outline_points rs = fold toggle (concat rs) []"

section \<open>Edges\<close>

text \<open>The dictionaries \<open>edgesH\<close> and \<open>edgesV\<close>. A key or value \<open>None\<close> is \<open>undefined\<close>: it is met when the
  number of points is odd.\<close>

type_synonym edges = "(vertex option, vertex option) obj"

fun link_pairs :: "vertex list \<Rightarrow> edges \<Rightarrow> edges" where
  "link_pairs [] m = m"
| "link_pairs [a] m = obj_put None (Some a) (obj_put (Some a) None m)"
| "link_pairs (a # b # vs) m = link_pairs vs (obj_put (Some b) (Some a) (obj_put (Some a) (Some b) m))"

definition follow :: "edges \<Rightarrow> vertex option \<Rightarrow> vertex option" where
  "follow m v = (case obj_get m v of Some w \<Rightarrow> w | None \<Rightarrow> None)"

section \<open>The walk\<close>

text \<open>A step takes the vertical edge of a vertex with mark \<open>False\<close> (0 in the source), the horizontal
  one of a vertex with mark \<open>True\<close>.\<close>

partial_function (option) trace ::
  "edges \<Rightarrow> edges \<Rightarrow> (vertex option \<times> bool) list \<Rightarrow> ((vertex option \<times> bool) list \<times> edges \<times> edges) option" where
  "trace eh ev p =
     (let curr = fst (last p); e = snd (last p);
          nextVertex = follow (if e then eh else ev) curr;
          eh' = (if e then obj_del curr eh else eh); ev' = (if e then ev else obj_del curr ev);
          p' = p @ [(nextVertex, \<not> e)]
      in if last p' = hd p' then Some (butlast p', eh', ev') else trace eh' ev' p')"

definition drop_all :: "vertex option list \<Rightarrow> edges \<Rightarrow> edges" where
  "drop_all vs m = fold obj_del vs m"

text \<open>The loop over the edges that are left. A polygon with an undefined vertex throws (\<open>None\<close>, as a
  walk that never ends).\<close>

partial_function (option) walk :: "edges \<Rightarrow> edges \<Rightarrow> vertex list list \<Rightarrow> vertex list list option" where
  "walk eh ev polys =
     (case eh of
        [] \<Rightarrow> Some polys
      | (k, v) # es \<Rightarrow>
          Option.bind (trace eh ev [(k, False)]) (\<lambda>(p, eh', ev').
            let vs = map fst p
            in if None \<in> set vs then None
               else walk (drop_all vs eh') (drop_all vs ev') (polys @ [map the (vs @ [hd vs])])))"

definition merge_rects :: "vertex list list \<Rightarrow> vertex list list option" where
  "merge_rects rs =
     (let ps = outline_points (glue rs);
          sortX = sort ps; sortY = sort_key prod.swap ps
      in walk (link_pairs sortY []) (link_pairs sortX []) [])"

definition rectanglesToPolygons :: "(vertex \<Rightarrow> 'p) \<Rightarrow> vertex list list \<Rightarrow> 'p list list option" where
  "rectanglesToPolygons conv rs = map_option (map (map conv)) (merge_rects rs)"

section \<open>Every line has an even number of points\<close>

lemma toggle_count:
  "even (length (filter P (toggle p ps)) + length (filter P ps) + (if P p then 1 else 0))" if "distinct ps"
proof (cases "p \<in> set ps")
  case True
  then obtain us vs where "ps = us @ p # vs" by (auto simp: in_set_conv_decomp)
  with that show ?thesis by (simp add: toggle_def)
qed (simp add: toggle_def)

lemma toggle_distinct: "distinct ps \<Longrightarrow> distinct (toggle p ps)"
  by (simp add: toggle_def distinct_removeAll)

lemma fold_toggle_parity:
  "distinct ps \<Longrightarrow> distinct (fold toggle qs ps) \<and>
   even (length (filter P (fold toggle qs ps)) + length (filter P ps) + length (filter P qs))"
proof (induction qs arbitrary: ps)
  case (Cons q qs)
  have "even (length (filter P (toggle q ps)) + length (filter P ps) + (if P q then 1 else 0))"
    by (rule toggle_count [OF Cons.prems])
  with Cons.IH [OF toggle_distinct [OF Cons.prems], of q] show ?case by (auto split: if_splits)
qed simp

text \<open>A box: the four corners of a rectangle, upright, in the order of \<open>corners\<close>.\<close>

definition is_box :: "vertex list \<Rightarrow> bool" where
  "is_box r \<longleftrightarrow> (\<exists>x0 x1 y0 y1. r = [(x0, y1), (x1, y1), (x0, y0), (x1, y0)])"

lemma corners_box: "is_box (corners p s)"
  unfolding corners_def is_box_def by (cases p) auto

lemma fold_snap: "fold snap r q = (fold (\<lambda>p x. if \<bar>fst p - x\<bar> < 20 then fst p else x) r (fst q),
    fold (\<lambda>p y. if \<bar>snd p - y\<bar> < 20 then snd p else y) r (snd q))"
  by (induction r arbitrary: q) (auto simp: snap_def Let_def)

lemma glue_box: "list_all is_box rs \<Longrightarrow> list_all is_box (glue rs)"
proof (induction rs rule: glue.induct)
  case (2 r rs)
  have "is_box (map (\<lambda>q. fold snap r q) b)" if "is_box b" for b
    using that unfolding is_box_def fold_snap by auto
  then have "list_all is_box (map (map (\<lambda>q. fold snap r q)) rs)"
    using 2 by (auto simp: list_all_iff)
  with 2 show ?case by simp
qed simp

lemma box_parity: "is_box r \<Longrightarrow> even (length (filter (\<lambda>p. fst p = c) r)) \<and> even (length (filter (\<lambda>p. snd p = c) r))"
  by (auto simp: is_box_def)

lemma boxes_parity:
  "list_all is_box rs \<Longrightarrow> even (length (filter (\<lambda>p. fst p = c) (concat rs))) \<and> even (length (filter (\<lambda>p. snd p = c) (concat rs)))"
  by (induction rs) (simp_all add: box_parity)

lemma outline_parity:
  assumes "list_all is_box rs"
  shows "distinct (outline_points (glue rs))"
    "even (length (filter (\<lambda>p. fst p = c) (outline_points (glue rs))))"
    "even (length (filter (\<lambda>p. snd p = c) (outline_points (glue rs))))"
proof -
  note box = boxes_parity [OF glue_box [OF assms], of c]
  note par = fold_toggle_parity [of "[]" "concat (glue rs)"]
  show "distinct (outline_points (glue rs))" using par by (simp add: outline_points_def)
  show "even (length (filter (\<lambda>p. fst p = c) (outline_points (glue rs))))"
    using par [of "\<lambda>p. fst p = c"] box by (simp add: outline_points_def)
  show "even (length (filter (\<lambda>p. snd p = c) (outline_points (glue rs))))"
    using par [of "\<lambda>p. snd p = c"] box by (simp add: outline_points_def)
qed

section \<open>The edges form a perfect matching along each line\<close>

definition matching :: "('a \<Rightarrow> int) \<Rightarrow> 'a set \<Rightarrow> ('a option, 'a option) obj \<Rightarrow> bool" where
  "matching g S m \<longleftrightarrow> obj_ok m \<and> dom (map_of m) = Some ` S \<and>
     (\<forall>v \<in> S. \<exists>w \<in> S. w \<noteq> v \<and> g w = g v \<and> map_of m (Some v) = Some (Some w) \<and> map_of m (Some w) = Some (Some v))"

lemma matching_link:
  "distinct vs \<Longrightarrow> sorted (map g vs) \<Longrightarrow> (\<And>c. even (length (filter (\<lambda>v. g v = c) vs))) \<Longrightarrow>
   matching g S m \<Longrightarrow> S \<inter> set vs = {} \<Longrightarrow> matching g (S \<union> set vs) (link_pairs vs m)"
proof (induction vs m arbitrary: S rule: link_pairs.induct)
  case (2 a m)
  from "2.prems"(3) [of "g a"] show ?case by simp
next
  case (3 a b vs m)
  have gab: "g b = g a"
  proof (rule ccontr)
    assume "g b \<noteq> g a"
    with "3.prems"(2) have "g v \<noteq> g a" if "v \<in> set (b # vs)" for v using that by force
    then have "filter (\<lambda>v. g v = g a) (b # vs) = []" by (simp add: filter_empty_conv)
    with "3.prems"(3) [of "g a"] show False by simp
  qed
  let ?m = "obj_put (Some b) (Some a) (obj_put (Some a) (Some b) m)"
  have "matching g (S \<union> {a, b}) ?m"
    using "3.prems"(1,4,5) gab unfolding matching_def
    by (auto simp: obj_put_get fun_upd_def dom_def)
  moreover have "even (length (filter (\<lambda>v. g v = c) vs))" for c
    using "3.prems"(3) [of c] gab by (auto split: if_splits)
  ultimately have "matching g ((S \<union> {a, b}) \<union> set vs) (link_pairs vs ?m)"
    using "3.prems" by (intro "3.IH") auto
  then show ?case by (simp add: Un_assoc insert_commute)
qed simp
section \<open>The walk closes\<close>

text \<open>Two matchings of a finite set, seen as functions. Taking them in turn runs through a cycle and
  never meets a vertex from both sides.\<close>

definition swaps :: "('a \<Rightarrow> 'a) \<Rightarrow> 'a set \<Rightarrow> bool" where
  "swaps h S \<longleftrightarrow> (\<forall>x \<in> S. h x \<in> S \<and> h (h x) = x \<and> h x \<noteq> x)"

definition turn :: "('a \<Rightarrow> 'a) \<Rightarrow> ('a \<Rightarrow> 'a) \<Rightarrow> 'a \<Rightarrow> 'a" where
  "turn h v x = h (v x)"

lemma turn_steps: "(turn h v ^^ Suc n) x = h (v ((turn h v ^^ n) x))" "(turn h v ^^ Suc n) x = (turn h v ^^ n) (h (v x))"
  by (simp add: turn_def, simp only: funpow_Suc_right comp_apply turn_def)

lemma turn_in: "swaps h S \<Longrightarrow> swaps v S \<Longrightarrow> x \<in> S \<Longrightarrow> (turn h v ^^ n) x \<in> S"
proof (induction n)
  case (Suc n)
  then show ?case unfolding turn_steps(1) by (simp add: swaps_def)
qed simp

lemma turn_inj:
  assumes "swaps h S" "swaps v S" "x \<in> S" "y \<in> S" "(turn h v ^^ n) x = (turn h v ^^ n) y"
  shows "x = y"
  using assms(5)
proof (induction n)
  case (Suc n)
  let ?x = "(turn h v ^^ n) x" and ?y = "(turn h v ^^ n) y"
  have "?x \<in> S" "?y \<in> S" using turn_in assms(1-4) by metis+
  then have "v (h (h (v ?x))) = ?x" "v (h (h (v ?y))) = ?y" using assms(1,2) by (simp_all add: swaps_def)
  moreover have "h (v ?x) = h (v ?y)" using Suc.prems unfolding turn_steps(1) .
  ultimately have "?x = ?y" by metis
  then show ?case by (rule Suc.IH)
qed simp

lemma sides_apart:
  assumes "swaps h S" "swaps v S" "y \<in> S"
  shows "v y \<noteq> (turn h v ^^ m) y"
  using assms(3)
proof (induction m arbitrary: y rule: nat_induct2)
  case 0
  then show ?case using assms(2) by (auto simp: swaps_def)
next
  case 1
  then have "v y \<in> S" using assms(2) by (simp add: swaps_def)
  then have "h (v y) \<noteq> v y" using assms(1) by (simp add: swaps_def)
  then show ?case using turn_steps(1) [of 0 h v y] by simp
next
  case (step m)
  let ?z = "h (v y)"
  have z: "?z \<in> S" "h ?z = v y" using step.prems assms(1,2) by (auto simp: swaps_def)
  have f: "(turn h v ^^ (m + 2)) y = h (v ((turn h v ^^ m) ?z))"
    using turn_steps(2) [of "Suc m" h v y] turn_steps(1) [of m h v ?z] by simp
  show ?case
  proof
    assume "v y = (turn h v ^^ (m + 2)) y"
    then have "h (h ?z) = h (h (v ((turn h v ^^ m) ?z)))" using f z by simp
    then have "?z = v ((turn h v ^^ m) ?z)" using z(1) turn_in [OF assms(1,2) z(1), of m] assms(1,2)
      unfolding swaps_def by metis
    then have "v ?z = (turn h v ^^ m) ?z" using turn_in [OF assms(1,2) z(1), of m] assms(2)
      unfolding swaps_def by metis
    then show False using step.IH [OF z(1)] by simp
  qed
qed

lemma turn_period:
  assumes "swaps h S" "swaps v S" "x \<in> S" "finite S"
  obtains k where "0 < k" "(turn h v ^^ k) x = x"
    "\<And>i j. i < k \<Longrightarrow> j < k \<Longrightarrow> (turn h v ^^ i) x = (turn h v ^^ j) x \<Longrightarrow> i = j"
proof -
  let ?f = "\<lambda>n. (turn h v ^^ n) x"
  have wrap: "?f (j - i) = x" if "?f i = ?f j" "i < j" for i j
  proof -
    have "(turn h v ^^ i) (?f (j - i)) = (turn h v ^^ (i + (j - i))) x" by (simp only: funpow_add comp_apply)
    also have "\<dots> = (turn h v ^^ i) x" using that by simp
    finally have "(turn h v ^^ i) (?f (j - i)) = (turn h v ^^ i) x" .
    then show ?thesis by (rule turn_inj [OF assms(1,2) turn_in [OF assms(1-3)] assms(3)])
  qed
  have "\<not> inj ?f"
  proof
    assume "inj ?f"
    then have "infinite (range ?f)" using finite_imageD [of ?f UNIV] by auto
    moreover have "range ?f \<subseteq> S" using turn_in [OF assms(1-3)] by blast
    ultimately show False using assms(4) finite_subset by blast
  qed
  then obtain i j where "?f i = ?f j" "i < j" unfolding inj_def by (metis nat_neq_iff)
  then have ex: "\<exists>k. 0 < k \<and> ?f k = x" using wrap zero_less_diff by blast
  let ?k = "LEAST k. 0 < k \<and> ?f k = x"
  have k: "0 < ?k" "?f ?k = x" using LeastI_ex [OF ex] by auto
  have least: "\<not> (0 < n \<and> ?f n = x)" if "n < ?k" for n using not_less_Least [OF that] .
  have "i = j" if "i < ?k" "j < ?k" "?f i = ?f j" for i j
  proof (cases i j rule: linorder_cases)
    case less
    then show ?thesis using wrap [of i j] least [OF less_imp_diff_less [OF that(2), of i]] that by simp
  next
    case greater
    then show ?thesis using wrap [of j i] least [OF less_imp_diff_less [OF that(1), of j]] that by simp
  qed
  with k that show ?thesis by blast
qed
section \<open>The loop of the source\<close>

lemma drop_all_get: "map_of (drop_all vs m) k = (if k \<in> set vs then None else map_of m k)"
  unfolding drop_all_def by (induction vs arbitrary: m) (auto simp: obj_del_get)

lemma drop_all_ok: "obj_ok m \<Longrightarrow> obj_ok (drop_all vs m)"
  unfolding drop_all_def by (induction vs arbitrary: m) auto

lemma drop_all_snoc: "drop_all (vs @ [a]) m = obj_del a (drop_all vs m)"
  by (simp add: drop_all_def)

definition partner :: "('a option, 'a option) obj \<Rightarrow> 'a \<Rightarrow> 'a" where
  "partner m x = the (the (map_of m (Some x)))"

lemma matching_partner:
  assumes "matching g S m"
  shows "swaps (partner m) S" "x \<in> S \<Longrightarrow> map_of m (Some x) = Some (Some (partner m x))" "x \<in> S \<Longrightarrow> g (partner m x) = g x"
proof -
  have "\<exists>w \<in> S. w \<noteq> x \<and> g w = g x \<and> map_of m (Some x) = Some (Some w) \<and> map_of m (Some w) = Some (Some x)"
    if "x \<in> S" for x using assms that by (simp add: matching_def)
  then show "swaps (partner m) S" "x \<in> S \<Longrightarrow> map_of m (Some x) = Some (Some (partner m x))"
    "x \<in> S \<Longrightarrow> g (partner m x) = g x"
    by (force simp: swaps_def partner_def)+
qed

text \<open>The nodes of \<open>n\<close> full turns.\<close>

definition turns :: "('a \<Rightarrow> 'a) \<Rightarrow> ('a \<Rightarrow> 'a) \<Rightarrow> 'a \<Rightarrow> nat \<Rightarrow> ('a option \<times> bool) list" where
  "turns h v x n =
     concat (map (\<lambda>i. [(Some ((turn h v ^^ i) x), False), (Some (v ((turn h v ^^ i) x)), True)]) [0..<n])"

lemma turns_Suc:
  "turns h v x (Suc n) = turns h v x n @ [(Some ((turn h v ^^ n) x), False), (Some (v ((turn h v ^^ n) x)), True)]"
  by (simp add: turns_def)

lemma turns_hd: "hd (turns h v x n @ [(Some ((turn h v ^^ n) x), False)]) = (Some x, False)"
  by (cases n) (simp_all add: turns_def upt_conv_Cons del: upt_Suc)

lemma trace_turns:
  assumes m: "matching g S eh" "matching g' S ev" and x: "x \<in> S"
    and k: "(turn (partner eh) (partner ev) ^^ k) x = x"
      "\<And>i j. i < k \<Longrightarrow> j < k \<Longrightarrow> (turn (partner eh) (partner ev) ^^ i) x = (turn (partner eh) (partner ev) ^^ j) x \<Longrightarrow> i = j"
  defines "X \<equiv> \<lambda>n. (turn (partner eh) (partner ev) ^^ n) x"
  shows "n < k \<Longrightarrow>
    trace (drop_all (map (\<lambda>i. Some (partner ev (X i))) [0..<n]) eh) (drop_all (map (\<lambda>i. Some (X i)) [0..<n]) ev)
        (turns (partner eh) (partner ev) x n @ [(Some (X n), False)]) =
      Some (turns (partner eh) (partner ev) x k, drop_all (map (\<lambda>i. Some (partner ev (X i))) [0..<k]) eh,
        drop_all (map (\<lambda>i. Some (X i)) [0..<k]) ev)"
proof (induction "k - n" arbitrary: n)
  case (Suc d)
  let ?h = "partner eh" and ?v = "partner ev"
  let ?eh = "\<lambda>n. drop_all (map (\<lambda>i. Some (?v (X i))) [0..<n]) eh"
  let ?ev = "\<lambda>n. drop_all (map (\<lambda>i. Some (X i)) [0..<n]) ev"
  note sw = matching_partner(1) [OF m(1)] matching_partner(1) [OF m(2)]
  have XS: "X i \<in> S" for i unfolding X_def by (rule turn_in [OF sw x])
  have vS: "?v (X i) \<in> S" "?v (?v (X i)) = X i" for i using sw(2) XS by (auto simp: swaps_def)
  have XSuc: "X (Suc i) = ?h (?v (X i))" for i unfolding X_def by (rule turn_steps)
  have new: "X n \<noteq> X i" "?v (X n) \<noteq> ?v (X i)" if "i < n" for i
  proof -
    show "X n \<noteq> X i" using k(2) [of n i] that Suc.prems by (auto simp: X_def)
    then show "?v (X n) \<noteq> ?v (X i)" using vS by metis
  qed
  have nin: "Some (X n) \<notin> set (map (\<lambda>i. Some (X i)) [0..<n])"
    "Some (?v (X n)) \<notin> set (map (\<lambda>i. Some (?v (X i))) [0..<n])"
    using new by (auto simp: image_iff)
  have fv: "follow (?ev n) (Some (X n)) = Some (?v (X n))"
    using nin(1) matching_partner(2) [OF m(2) XS [of n]] by (simp add: follow_def drop_all_get del: set_map)
  have fh: "follow (?eh n) (Some (?v (X n))) = Some (X (Suc n))"
    using nin(2) matching_partner(2) [OF m(1) vS(1) [of n]] by (simp add: follow_def drop_all_get XSuc del: set_map)
  let ?p = "turns ?h ?v x n @ [(Some (X n), False)]"
  have hd: "hd (?p @ q) = (Some x, False)" for q
    using turns_hd [of ?h ?v x n] by (simp add: X_def hd_append split: if_splits)
  have e: "?ev (Suc n) = obj_del (Some (X n)) (?ev n)" "?eh (Suc n) = obj_del (Some (?v (X n))) (?eh n)"
    by (simp_all flip: drop_all_snoc)
  have ts: "turns ?h ?v x (Suc n) = (turns ?h ?v x n @ [(Some (X n), False)]) @ [(Some (?v (X n)), True)]"
    by (simp add: turns_Suc X_def)
  have "trace (?eh n) (?ev n) ?p = trace (?eh n) (?ev (Suc n)) (?p @ [(Some (?v (X n)), True)])"
    by (subst trace.simps) (simp add: Let_def fv hd e del: append_assoc upt_Suc)
  also have "\<dots> = (if X (Suc n) = x then Some (?p @ [(Some (?v (X n)), True)], ?eh (Suc n), ?ev (Suc n))
      else trace (?eh (Suc n)) (?ev (Suc n)) (turns ?h ?v x (Suc n) @ [(Some (X (Suc n)), False)]))"
    by (subst trace.simps) (simp add: Let_def fh hd e ts del: upt_Suc flip: append_assoc)
  also have "\<dots> = Some (turns ?h ?v x k, ?eh k, ?ev k)"
  proof (cases "Suc n = k")
    case True
    then show ?thesis using k(1) by (auto simp: X_def turns_Suc)
  next
    case False
    then have "X (Suc n) \<noteq> x" using k(2) [of "Suc n" 0] Suc.prems by (auto simp: X_def)
    then show ?thesis using Suc.hyps(1) [of "Suc n"] Suc.hyps(2) Suc.prems False by simp
  qed
  finally show ?case .
qed simp

text \<open>A closed line that goes up or down first, then sideways, in turn.\<close>

fun zigzag :: "bool \<Rightarrow> vertex list \<Rightarrow> bool" where
  "zigzag e (p # q # r) \<longleftrightarrow> (if e then snd p = snd q else fst p = fst q) \<and> zigzag (\<not> e) (q # r)"
| "zigzag e r \<longleftrightarrow> True"

lemma zigzag_snoc:
  "zigzag e (xs @ [a]) \<Longrightarrow> (if even (length xs) = e then snd a = snd b else fst a = fst b) \<Longrightarrow> zigzag e (xs @ [a, b])"
  by (induction e xs rule: zigzag.induct) (auto split: if_splits)

definition outline :: "vertex list \<Rightarrow> bool" where
  "outline q \<longleftrightarrow> 3 \<le> length q \<and> hd q = last q \<and> zigzag False q"

lemma turns_zigzag:
  assumes "\<And>x. x \<in> S \<Longrightarrow> snd (h x) = snd x" "\<And>x. x \<in> S \<Longrightarrow> fst (v x) = fst x"
    and "swaps h S" "swaps v S" "x \<in> S"
  shows "zigzag False (map (the \<circ> fst) (turns h v x n) @ [(turn h v ^^ n) x])"
proof (induction n)
  case 0
  then show ?case by (simp add: turns_def)
next
  case (Suc n)
  let ?x = "(turn h v ^^ n) x" and ?xs = "map (the \<circ> fst) (turns h v x n)"
  have xS: "?x \<in> S" "v ?x \<in> S" using turn_in [OF assms(3-5)] assms(4) by (auto simp: swaps_def)
  have "even (length ?xs)" by (induction n) (simp_all add: turns_Suc turns_def)
  then have "zigzag False (?xs @ [?x, v ?x])" using assms(2) [OF xS(1)] by (intro zigzag_snoc [OF Suc.IH]) simp
  then have "zigzag False ((?xs @ [?x]) @ [v ?x, (turn h v ^^ Suc n) x])"
    using \<open>even (length ?xs)\<close> assms(1) [OF xS(2)] unfolding turn_steps(1) by (intro zigzag_snoc) simp_all
  then show ?case by (simp add: turns_Suc comp_def del: funpow.simps)
qed

lemma turns_vertices:
  "set (map fst (turns h v x n)) = Some ` ((\<lambda>i. (turn h v ^^ i) x) ` {..<n} \<union> (\<lambda>i. v ((turn h v ^^ i) x)) ` {..<n})"
proof (induction n)
  case (Suc n)
  then show ?case by (simp add: turns_Suc lessThan_Suc) blast
qed (simp add: turns_def)

lemma turns_distinct:
  assumes "swaps h S" "swaps v S" "x \<in> S"
    and "\<And>i j. i < k \<Longrightarrow> j < k \<Longrightarrow> (turn h v ^^ i) x = (turn h v ^^ j) x \<Longrightarrow> i = j"
  shows "n \<le> k \<Longrightarrow> distinct (map fst (turns h v x n))"
proof (induction n)
  case (Suc n)
  let ?X = "\<lambda>i. (turn h v ^^ i) x"
  note XS = turn_in [OF assms(1-3)]
  have apart: "v (?X i) \<noteq> ?X j" for i j
  proof (cases "i \<le> j")
    case True
    have "v (?X i) \<noteq> (turn h v ^^ (j - i)) (?X i)" by (rule sides_apart [OF assms(1,2) XS])
    moreover have "(turn h v ^^ (j - i)) (?X i) = (turn h v ^^ (j - i + i)) x" by (simp only: funpow_add comp_apply)
    ultimately show ?thesis using True by simp
  next
    case False
    have "v (?X j) \<noteq> (turn h v ^^ (i - j)) (?X j)" by (rule sides_apart [OF assms(1,2) XS])
    moreover have "(turn h v ^^ (i - j)) (?X j) = (turn h v ^^ (i - j + j)) x" by (simp only: funpow_add comp_apply)
    ultimately have "v (?X j) \<noteq> ?X i" using False by simp
    then show ?thesis using XS [of i] XS [of j] assms(2) by (metis swaps_def)
  qed
  have new: "?X n \<noteq> ?X i" "v (?X n) \<noteq> v (?X i)" if "i < n" for i
  proof -
    show "?X n \<noteq> ?X i" using assms(4) [of n i] that Suc.prems by auto
    then show "v (?X n) \<noteq> v (?X i)" using XS [of i] XS [of n] assms(2) by (metis swaps_def)
  qed
  have "Some (?X n) \<notin> set (map fst (turns h v x n))" "Some (v (?X n)) \<notin> set (map fst (turns h v x n))"
    unfolding turns_vertices using new apart apart [THEN not_sym] by auto
  with Suc apart [of n n] show ?case by (simp add: turns_Suc)
qed (simp add: turns_def)

lemma matching_drop:
  assumes "matching g S m" "C \<subseteq> S" "\<And>x. x \<in> C \<Longrightarrow> partner m x \<in> C" "set vs \<union> set us = Some ` C"
  shows "matching g (S - C) (drop_all vs (drop_all us m))"
proof -
  have get: "map_of (drop_all vs (drop_all us m)) k = (if k \<in> Some ` C then None else map_of m k)" for k
    using assms(4) by (auto simp: drop_all_get)
  have "\<exists>w \<in> S - C. w \<noteq> x \<and> g w = g x \<and> map_of (drop_all vs (drop_all us m)) (Some x) = Some (Some w) \<and>
      map_of (drop_all vs (drop_all us m)) (Some w) = Some (Some x)" if x: "x \<in> S - C" for x
  proof -
    let ?w = "partner m x"
    note p = matching_partner [OF assms(1)]
    have w: "?w \<in> S" "?w \<noteq> x" "partner m ?w = x" using p(1) x by (auto simp: swaps_def)
    then have "?w \<notin> C" using assms(3) x by fastforce
    with w x p(2) [of x] p(2) [of ?w] p(3) [of x] show ?thesis by (intro bexI [of _ ?w]) (auto simp: get)
  qed
  moreover have "dom (map_of (drop_all vs (drop_all us m))) = Some ` (S - C)"
  proof -
    have "dom (map_of (drop_all vs (drop_all us m))) = dom (map_of m) - Some ` C"
      by (auto simp: get dom_def split: if_splits)
    then show ?thesis using assms(1) unfolding matching_def by (simp add: image_set_diff [OF inj_Some])
  qed
  ultimately show ?thesis using assms(1) unfolding matching_def by (auto intro: drop_all_ok)
qed

lemma drop_all_Nil: "drop_all [] m = m"
  by (simp add: drop_all_def)

lemma turns_0: "turns h v x 0 = []"
  by (simp add: turns_def)

lemma cycle_closed:
  assumes "swaps h S" "swaps v S" "x \<in> S" "0 < k" "(turn h v ^^ k) x = x"
    and that: "y \<in> (\<lambda>i. (turn h v ^^ i) x) ` {..<k} \<union> (\<lambda>i. v ((turn h v ^^ i) x)) ` {..<k}" (is "y \<in> ?C")
  shows "v y \<in> ?C" "h y \<in> ?C"
proof -
  let ?X = "\<lambda>i. (turn h v ^^ i) x"
  note XS = turn_in [OF assms(1-3)]
  have vX: "v (?X i) \<in> S" "v (v (?X i)) = ?X i" for i using assms(2) XS [of i] by (auto simp: swaps_def)
  have hX: "h (v (?X i)) = ?X (Suc i)" "h (?X (Suc i)) = v (?X i)" for i
    using assms(1) vX(1) [of i] unfolding turn_steps(1) by (auto simp: swaps_def)
  have "?X 0 \<in> ?X ` {..<k}" using assms(4) by (intro imageI) simp
  then have x0: "x \<in> ?C" by simp
  show "v y \<in> ?C" using that vX by auto
  have suc: "?X (Suc i) \<in> ?C" if "i < k" for i
  proof (cases "Suc i = k")
    case True
    then show ?thesis using assms(5) x0 by (simp only:)
  next
    case False
    then have "Suc i \<in> {..<k}" using that by simp
    then show ?thesis by blast
  qed
  have old: "h (?X i) \<in> ?C" if "i < k" for i
  proof (cases i)
    case 0
    obtain l where l: "k = Suc l" using assms(4) by (cases k) auto
    then have "h (?X 0) = v (?X l)" using hX(2) [of l] assms(5) by simp
    then show ?thesis using 0 l by auto
  next
    case (Suc l)
    then show ?thesis using hX(2) [of l] that by auto
  qed
  from that consider i where "i < k" "y = ?X i" | i where "i < k" "y = v (?X i)" by blast
  then show "h y \<in> ?C" using old hX(1) suc by cases (simp_all only:)
qed

lemma turns_first: "0 < k \<Longrightarrow> \<exists>r. map fst (turns h v x k) = Some x # r"
  by (cases k) (simp_all add: turns_def upt_conv_Cons del: upt_Suc)

lemma turns_outline:
  assumes "\<And>x. x \<in> S \<Longrightarrow> snd (h x) = snd x" "\<And>x. x \<in> S \<Longrightarrow> fst (v x) = fst x"
    and "swaps h S" "swaps v S" "x \<in> S" "0 < k" "(turn h v ^^ k) x = x"
  shows "outline (map the (map fst (turns h v x k) @ [hd (map fst (turns h v x k))]))" (is "outline ?q")
proof -
  let ?p = "turns h v x k"
  obtain r where r: "map fst ?p = Some x # r" using turns_first [OF assms(6), of h v x] by (elim exE)
  have len: "length ?p = 2 * k" by (induction k) (simp_all add: turns_Suc turns_def)
  have q: "?q = map the (map fst ?p) @ [x]" using r by (simp del: map_map)
  have "zigzag False (map the (map fst ?p) @ [x])"
    unfolding map_map using turns_zigzag [OF assms(1-5), of k] assms(7) by simp
  moreover have "hd ?q = x" "last ?q = x" unfolding q using r by (simp_all del: map_map)
  moreover have "3 \<le> length ?q" using len assms(6) by simp
  ultimately show ?thesis unfolding outline_def q by simp
qed

lemma walk_total:
  "finite S \<Longrightarrow> matching snd S eh \<Longrightarrow> matching fst S ev \<Longrightarrow>
   \<exists>qs. walk eh ev polys = Some (polys @ qs) \<and> list_all outline qs \<and>
     distinct (concat (map tl qs)) \<and> set (concat (map tl qs)) = S"
proof (induction "card S" arbitrary: S eh ev polys rule: less_induct)
  case less
  note m = less.prems(2,3)
  show ?case
  proof (cases eh)
    case Nil
    then have "S = {}" using m(1) by (auto simp: matching_def)
    then show ?thesis using Nil by (simp add: walk.simps)
  next
    case (Cons kv es)
    obtain w u where kv: "kv = (w, u)" by force
    have "w \<in> dom (map_of eh)" using Cons kv by auto
    then obtain x where x: "w = Some x" "x \<in> S" using m(1) by (auto simp: matching_def)
    let ?h = "partner eh" and ?v = "partner ev"
    note ph = matching_partner [OF m(1)] and pv = matching_partner [OF m(2)]
    obtain k where k: "0 < k" "(turn ?h ?v ^^ k) x = x"
      "\<And>i j. i < k \<Longrightarrow> j < k \<Longrightarrow> (turn ?h ?v ^^ i) x = (turn ?h ?v ^^ j) x \<Longrightarrow> i = j"
      by (rule turn_period [OF ph(1) pv(1) x(2) less.prems(1)]) blast
    let ?X = "\<lambda>i. (turn ?h ?v ^^ i) x"
    let ?p = "turns ?h ?v x k" and ?us = "map (\<lambda>i. Some (?v (?X i))) [0..<k]" and ?vs = "map (\<lambda>i. Some (?X i)) [0..<k]"
    let ?C = "?X ` {..<k} \<union> (\<lambda>i. ?v (?X i)) ` {..<k}"
    note XS = turn_in [OF ph(1) pv(1) x(2)]
    have vX: "?v (?X i) \<in> S" "?v (?v (?X i)) = ?X i" for i using pv(1) XS [of i] by (auto simp: swaps_def)
    have CS: "?C \<subseteq> S" using XS vX(1) by blast
    have "?X 0 \<in> ?X ` {..<k}" using k(1) by (intro imageI) simp
    then have "x \<in> ?C" by simp
    note C = CS this turns_vertices [of ?h ?v x k]
    note closed = cycle_closed [OF ph(1) pv(1) x(2) k(1,2)]
    let ?eh = "drop_all (map fst ?p) (drop_all ?us eh)" and ?ev = "drop_all (map fst ?p) (drop_all ?vs ev)"
    have sub: "set (map fst ?p) \<union> set ?us = Some ` ?C" "set (map fst ?p) \<union> set ?vs = Some ` ?C"
      unfolding C(3) by auto
    have m': "matching snd (S - ?C) ?eh" "matching fst (S - ?C) ?ev"
      using matching_drop [OF m(1) C(1) closed(2) sub(1)] matching_drop [OF m(2) C(1) closed(1) sub(2)] by blast+
    have "card (S - ?C) < card S" using C x(2) less.prems(1) by (intro psubset_card_mono) auto
    define C where "C = ?C"
    define q where "q = map the (map fst ?p @ [hd (map fst ?p)])"
    define eh' where "eh' = ?eh"
    define ev' where "ev' = ?ev"
    have "card (S - C) < card S" "finite (S - C)" "matching snd (S - C) eh'" "matching fst (S - C) ev'"
      using m' \<open>card (S - ?C) < card S\<close> less.prems(1) by (simp_all only: C_def eh'_def ev'_def finite_Diff)
    from less.hyps [OF this, of "polys @ [q]"]
    obtain qs where qs: "walk eh' ev' (polys @ [q]) = Some ((polys @ [q]) @ qs)"
      "list_all outline qs" "distinct (concat (map tl qs))" "set (concat (map tl qs)) = S - C"
      by (elim exE conjE) (rule that)
    have "trace eh ev [(w, False)] = Some (?p, drop_all ?us eh, drop_all ?vs ev)"
      using trace_turns [OF m x(2) k(2,3) k(1)] unfolding x(1)
      by (simp only: upt_rec [of 0 0] less_irrefl if_False list.map drop_all_Nil turns_0 append_Nil funpow_0)
    moreover have "None \<notin> set (map fst ?p)" unfolding C(3) by auto
    ultimately have walk: "walk eh ev polys = Some ((polys @ [q]) @ qs)"
      using Cons kv qs(1) by (subst walk.simps) (simp add: eh'_def ev'_def q_def Let_def del: map_map)
    let ?q = "map the (map fst ?p @ [hd (map fst ?p)])"
    obtain r where r: "map fst ?p = Some x # r" using turns_first [OF k(1), of ?h ?v x] by (elim exE)
    have "outline ?q"
      using turns_outline [OF ph(3) pv(3) ph(1) pv(1) x(2) k(1,2)] by simp
    moreover have "distinct (tl ?q)" "set (tl ?q) = ?C"
    proof -
      have "distinct (map fst ?p)" by (rule turns_distinct [OF ph(1) pv(1) x(2) k(3) le_refl])
      moreover have "inj_on the (set (map fst ?p))" unfolding C(3) by (auto simp: inj_on_def)
      ultimately have d: "distinct (map the (map fst ?p))" by (simp add: distinct_map del: map_map)
      have s: "set (map the (map fst ?p)) = ?C" unfolding set_map [of the] C(3) by (auto simp: image_image)
      have t: "tl ?q = map the r @ [x]" "map the (map fst ?p) = x # map the r" using r(1) by (simp_all del: map_map)
      show "distinct (tl ?q)" using d unfolding t by simp
      show "set (tl ?q) = ?C" using s unfolding t by auto
    qed
    ultimately have "outline q" "distinct (tl q)" "set (tl q) = C" by (simp_all only: q_def C_def)
    moreover have "C \<subseteq> S" using C(1) by (simp only: C_def)
    ultimately show ?thesis using walk qs(2-4) by (intro exI [of _ "q # qs"]) auto
  qed
qed

section \<open>Properties\<close>

lemma polygons_total:
  assumes "list_all is_box rs"
  shows "\<exists>qs. merge_rects rs = Some qs \<and> list_all outline qs \<and> distinct (concat (map tl qs)) \<and>
    set (concat (map tl qs)) = set (outline_points (glue rs))"
proof -
  let ?ps = "outline_points (glue rs)"
  note par = outline_parity [OF assms]
  have even: "even (length (filter P (sort_key f ?ps))) = even (length (filter P ?ps))"
    for P and f :: "vertex \<Rightarrow> vertex"
    by (metis mset_filter mset_sort size_mset)
  have swap: "sorted (map snd vs)" if "sorted (map prod.swap vs)" for vs :: "vertex list"
    using that by (induction vs) (auto simp: less_eq_prod_def less_le)
  have fst: "sorted (map fst vs)" if "sorted vs" for vs :: "vertex list"
    using that by (induction vs) (auto simp: less_eq_prod_def less_le)
  have "matching snd ({} \<union> set (sort_key prod.swap ?ps)) (link_pairs (sort_key prod.swap ?ps) [])"
    using par(1,3) swap [OF sorted_sort_key] by (intro matching_link) (simp_all add: even matching_def)
  moreover have "matching fst ({} \<union> set (sort ?ps)) (link_pairs (sort ?ps) [])"
    using par(1,2) even [of _ "\<lambda>x. x"] fst [OF sorted_sort] by (intro matching_link) (simp_all add: matching_def)
  ultimately show ?thesis
    using walk_total [of "set ?ps" "link_pairs (sort_key prod.swap ?ps) []" "link_pairs (sort ?ps) []" "[]"]
    by (simp add: merge_rects_def Let_def)
qed

text \<open>
  C33: the outline of any selection is found. For every list of rectangles the loops of
  \<open>rectanglesToPolygons\<close> end without an exception; each polygon is a closed line of vertical and
  horizontal sides in turn, and together they go once through every corner that is left after
  gluing and cancelling, and through nothing else.
\<close>

theorem rectangles_become_outlines:
  "\<exists>qs. rectanglesToPolygons conv (map (\<lambda>(p, s). corners p s) rs) = Some (map (map conv) qs) \<and>
    list_all outline qs \<and> distinct (concat (map tl qs)) \<and>
    set (concat (map tl qs)) = set (outline_points (glue (map (\<lambda>(p, s). corners p s) rs)))"
proof -
  have "list_all is_box (map (\<lambda>(p, s). corners p s) rs)" by (induction rs) (auto simp: corners_box)
  from polygons_total [OF this] show ?thesis unfolding rectanglesToPolygons_def by auto
qed

end
