(* ===== verification/Views.thy ===== *)
theory Views
  imports TileMsg Merge
begin

text \<open>
  The other users of a document (\<open>loleaflet/src/layer/tile/TileLayer.js\<close>, \<open>map/Map.js\<close>,
  \<open>core/LOUtil.js\<close>): the table of views the server announces, their cursors, cell cursors,
  selections and graphic selections with the markers drawn for them, the avatars, and following
  another user. A marker is its identity, position and look; the layer group is the list of the
  markers that are drawn. The user's own cursor is here as far as the others depend on it.
\<close>

unbundle bit_operations_syntax

section \<open>Colours (\<open>L.LOUtil\<close>)\<close>

definition darkColors :: "(int \<times> int \<times> int) list" where
  "darkColors = [(198, 146, 0), (6, 70, 162), (87, 157, 28), (105, 43, 157), (197, 0, 11), (0, 128, 128),
     (140, 132, 0), (53, 85, 107), (209, 118, 0)]"

text \<open>\<open>None\<close>: the index is negative and the entry \<open>undefined\<close>.\<close>

definition getViewIdColor :: "int \<Rightarrow> int option" where
  "getViewIdColor viewId =
     (let i = js_rem (viewId + 1) (int (length darkColors))
      in if i < 0 then None
         else case darkColors ! nat i of (r, g, b) \<Rightarrow> Some (b OR push_bit 8 g OR push_bit 16 r))"

definition hex_char :: "nat \<Rightarrow> char" where
  "hex_char d = (if d < 10 then digit_char d else char_of (87 + d))"

fun show_hex :: "nat \<Rightarrow> string" where
  "show_hex n = (if n < 16 then [hex_char n] else show_hex (n div 16) @ [hex_char (n mod 16)])"

declare show_hex.simps [simp del]

definition last_chars :: "nat \<Rightarrow> string \<Rightarrow> string" where
  "last_chars n s = drop (length s - n) s"

definition rgbToHex :: "int \<Rightarrow> string" where
  "rgbToHex color =
     ''#'' @ last_chars 6 (''000000'' @ (if color < 0 then ''-'' @ show_hex (nat (- color)) else show_hex (nat color)))"

section \<open>State\<close>

text \<open>An entry of \<open>_viewInfo\<close>.\<close>

record vinfo =
  vi_id :: int
  vi_userid :: jsval
  vi_username :: string
  vi_extra :: jsval                  \<comment> \<open>\<open>userextrainfo\<close>, an object when it is there\<close>
  vi_color :: int
  vi_readonly :: jsval

text \<open>What is drawn: cursors, frames of cells and of graphics, areas of text.\<close>

datatype vmark = CursorMark nat | CellMark nat | GraphicMark nat | SelMark nat

record cmark =
  m_id :: nat
  m_pos :: latlng
  m_size :: point
  m_opacity :: int
  m_color :: string
  m_name :: string

record vcursor =
  vc_bounds :: "llbounds option"
  vc_part :: jsnum                   \<comment> \<open>\<open>NaN\<close> also when it is not set: both are no part\<close>
  vc_visible :: "bool option"
  vc_marker :: "cmark option"

definition no_vcursor :: vcursor where
  "no_vcursor = \<lparr>vc_bounds = None, vc_part = NaN, vc_visible = None, vc_marker = None\<rparr>"

record boxmark =
  x_id :: nat
  x_bounds :: llbounds
  x_color :: string
  x_name :: string

record vbox =
  vb_bounds :: llbounds
  vb_part :: jsnum
  vb_marker :: "boxmark option"

record vsel =
  vs_part :: jsnum
  vs_polygons :: "latlng list list option"
  vs_selection :: "nat option"

record ulayer =
  u_layer :: tlayer
  u_info :: "(int, vinfo) obj"       \<comment> \<open>\<open>_viewInfo\<close>\<close>
  u_byName :: "(string, vinfo) obj"  \<comment> \<open>\<open>_viewInfoByUserName\<close>\<close>
  u_annots :: "(string \<times> jsval) list" \<comment> \<open>author and avatar of the annotations\<close>
  u_cursors :: "(int, vcursor) obj"
  u_cells :: "(int, vbox) obj"
  u_graphics :: "(int, vbox) obj"
  u_sels :: "(int, vsel) obj"
  u_group :: "vmark list"            \<comment> \<open>\<open>_viewLayerGroup\<close>\<close>
  u_next :: nat                      \<comment> \<open>the next identity of a marker\<close>
  u_visibleCursor :: llbounds
  u_markerPos :: "latlng option"     \<comment> \<open>position of \<open>_cursorMarker\<close>, when there is one\<close>
  u_lastCursorPos :: latlng
  u_isFocused :: bool
  u_isZooming :: bool
  u_mapFocused :: bool               \<comment> \<open>the map's \<open>_isFocused\<close>, which nothing sets\<close>
  u_mapCursorVisible :: bool         \<comment> \<open>the map's \<open>_isCursorVisible\<close>, which nothing sets\<close>
  u_handleDragged :: bool            \<comment> \<open>a selection handle is being dragged\<close>
  u_followThis :: jsnum
  u_editorId :: jsnum
  u_followUser :: bool
  u_followEditor :: bool
  u_lastActionByUser :: bool
  u_hyperlink :: jsval

abbreviation u_grid :: "ulayer \<Rightarrow> grid" where
  "u_grid u \<equiv> l_grid (u_layer u)"

abbreviation u_view :: "ulayer \<Rightarrow> mview" where
  "u_view u \<equiv> g_view (l_grid (u_layer u))"

abbreviation u_docType :: "ulayer \<Rightarrow> string" where
  "u_docType u \<equiv> l_docType (u_layer u)"

abbreviation u_log :: "ulayer \<Rightarrow> effect list" where
  "u_log u \<equiv> log (g_net (l_grid (u_layer u)))"

definition on_layer :: "(tlayer \<Rightarrow> tlayer) \<Rightarrow> ulayer \<Rightarrow> ulayer" where
  "on_layer f u = u\<lparr>u_layer := f (u_layer u)\<rparr>"

definition ufire :: "string \<Rightarrow> (string \<times> jsval) list \<Rightarrow> ulayer \<Rightarrow> ulayer" where
  "ufire t fs = on_layer (lemit (Fired t (JObj fs)))"

definition ucall :: "string \<Rightarrow> ulayer \<Rightarrow> ulayer" where
  "ucall f = on_layer (lcall f)"

text \<open>The keys of an object with whole numbers as keys are enumerated in ascending order.\<close>

definition int_keys :: "(int, 'v) obj \<Rightarrow> int list" where
  "int_keys m = sort (obj_keys m)"

definition group_add :: "vmark \<Rightarrow> ulayer \<Rightarrow> ulayer" where
  "group_add k u = (if k \<in> set (u_group u) then u else u\<lparr>u_group := u_group u @ [k]\<rparr>)"

definition group_remove :: "vmark \<Rightarrow> ulayer \<Rightarrow> ulayer" where
  "group_remove k u = u\<lparr>u_group := removeAll k (u_group u)\<rparr>"

section \<open>The table of views (\<open>L.Map\<close>)\<close>

definition isViewReadOnly :: "int \<Rightarrow> ulayer \<Rightarrow> bool option" where
  "isViewReadOnly viewid u = map_option (\<lambda>vi. vi_readonly vi \<noteq> JStr ''0'') (obj_get (u_info u) viewid)"

definition updateAvatars :: "ulayer \<Rightarrow> ulayer" where
  "updateAvatars u =
     u\<lparr>u_annots := map (\<lambda>(author, avatar).
        (author, case obj_get (u_byName u) author of
                   Some vi \<Rightarrow> js_field ''avatar'' (vi_extra vi) | None \<Rightarrow> avatar)) (u_annots u)\<rparr>"

definition addView :: "vinfo \<Rightarrow> ulayer \<Rightarrow> ulayer" where
  "addView vi u =
     (let u = u\<lparr>u_info := obj_put (vi_id vi) vi (u_info u)\<rparr>;
          u = (if js_field ''avatar'' (vi_extra vi) \<noteq> JUndef
               then u\<lparr>u_byName := obj_put (vi_username vi) vi (u_byName u)\<rparr> else u);
          u = ufire ''postMessage'' [(''msgId'', JStr ''View_Added''), (''args'', JObj [(''ViewId'', JInt (vi_id vi)),
                (''UserId'', vi_userid vi), (''UserName'', JStr (vi_username vi)), (''UserExtraInfo'', vi_extra vi),
                (''Color'', JStr (rgbToHex (vi_color vi))), (''ReadOnly'', vi_readonly vi)])] u;
          u = ufire ''addview'' [(''viewId'', JInt (vi_id vi)), (''username'', JStr (vi_username vi)),
                (''extraInfo'', vi_extra vi), (''readonly'', JBool (vi_readonly vi \<noteq> JStr ''0''))] u
      in updateAvatars u)"

definition removeView :: "int \<Rightarrow> ulayer \<Rightarrow> ulayer" where
  "removeView viewid u =
     (case obj_get (u_info u) viewid of
        None \<Rightarrow> ucall ''TypeError'' u
      | Some vi \<Rightarrow>
          (let u = u\<lparr>u_byName := obj_del (vi_username vi) (u_byName u), u_info := obj_del viewid (u_info u)\<rparr>;
               u = ufire ''postMessage'' [(''msgId'', JStr ''View_Removed''), (''args'', JObj [(''ViewId'', JInt viewid)])] u
           in ufire ''removeview'' [(''viewId'', JInt viewid), (''username'', JStr (vi_username vi))] u))"

section \<open>Drawing cursors, frames and selections\<close>

definition is_zero :: "latlng \<Rightarrow> bool" where
  "is_zero p = latlng_equals p (ll 0 0) None"

definition isEmptyRectangle :: "llbounds option \<Rightarrow> bool" where
  "isEmptyRectangle b = (case b of None \<Rightarrow> True | Some b \<Rightarrow> is_zero (southWest b) \<and> is_zero (northEast b))"

text \<open>Size of a cursor in pixels. The layer exists only on a map that has a view, so the conversions do
  not throw.\<close>

definition cursor_size :: "ulayer \<Rightarrow> llbounds \<Rightarrow> point" where
  "cursor_size u b =
     (let v = u_view u
      in case (latLngToLayerPoint v (southWest b), latLngToLayerPoint v (northEast b)) of
           (Some p, Some q) \<Rightarrow> point_multiplyBy (bounds_getSize (new_bounds p q)) (getZoomScale v (mv_zoom v) None)
         | _ \<Rightarrow> pt 0 0)"

text \<open>A view cursor at the place of the own one is transparent.\<close>

definition marker_opacity :: "ulayer \<Rightarrow> latlng \<Rightarrow> int" where
  "marker_opacity u p =
     (if l_cursorMarker (u_layer u) \<and> (case u_markerPos u of None \<Rightarrow> False | Some q \<Rightarrow> latlng_equals q p None)
      then 0 else 1)"

definition is_on_part :: "jsnum \<Rightarrow> ulayer \<Rightarrow> bool" where
  "is_on_part p u \<longleftrightarrow> p = Num (selectedPart (u_layer u))"

text \<open>Whether a cursor of another view is drawn, for a view that is known.\<close>

definition cursor_drawn :: "ulayer \<Rightarrow> bool \<Rightarrow> vcursor \<Rightarrow> bool" where
  "cursor_drawn u ro c \<longleftrightarrow>
     \<not> ro \<and> vc_visible c = Some True \<and> \<not> u_isZooming u \<and> \<not> isEmptyRectangle (vc_bounds c) \<and>
     (u_docType u = ''text'' \<or> is_on_part (vc_part c) u)"

definition put_cursor :: "int \<Rightarrow> vcursor \<Rightarrow> ulayer \<Rightarrow> ulayer" where
  "put_cursor i c u = u\<lparr>u_cursors := obj_put i c (u_cursors u)\<rparr>"

definition draw_cursor :: "int \<Rightarrow> vinfo \<Rightarrow> vcursor \<Rightarrow> latlng \<Rightarrow> point \<Rightarrow> ulayer \<Rightarrow> ulayer" where
  "draw_cursor i vi c pos sz u =
     (case vc_marker c of
        None \<Rightarrow>
          (let m = \<lparr>m_id = u_next u, m_pos = pos, m_size = sz, m_opacity = marker_opacity u pos,
                    m_color = rgbToHex (vi_color vi), m_name = vi_username vi\<rparr>
           in group_add (CursorMark (u_next u)) (put_cursor i (c\<lparr>vc_marker := Some m\<rparr>) (u\<lparr>u_next := Suc (u_next u)\<rparr>)))
      | Some m \<Rightarrow>
          group_add (CursorMark (m_id m))
            (put_cursor i (c\<lparr>vc_marker := Some (m\<lparr>m_pos := pos, m_size := sz, m_opacity := marker_opacity u pos\<rparr>)\<rparr>) u))"

definition show_header :: "vcursor \<Rightarrow> ulayer \<Rightarrow> ulayer" where
  "show_header c u = (if vc_marker c = None then u else ucall ''showCursorHeader'' u)"

definition onUpdateViewCursor :: "int \<Rightarrow> ulayer \<Rightarrow> ulayer" where
  "onUpdateViewCursor viewId u =
     (case obj_get (u_cursors u) viewId of
        None \<Rightarrow> u
      | Some c \<Rightarrow>
          (case vc_bounds c of
             None \<Rightarrow> u
           | Some b \<Rightarrow>
               (case obj_get (u_info u) viewId of
                  None \<Rightarrow> ucall ''TypeError'' u
                | Some vi \<Rightarrow>
                    (let u = (if cursor_drawn u (vi_readonly vi \<noteq> JStr ''0'') c
                              then draw_cursor viewId vi c (getNorthWest b) (cursor_size u b) u
                              else case vc_marker c of None \<Rightarrow> u | Some m \<Rightarrow> group_remove (CursorMark (m_id m)) u)
                     in case obj_get (u_cursors u) viewId of None \<Rightarrow> u | Some c \<Rightarrow> show_header c u))))"

definition updateAllViewCursors :: "ulayer \<Rightarrow> ulayer" where
  "updateAllViewCursors u = fold onUpdateViewCursor (int_keys (u_cursors u)) u"

text \<open>Frames: the cell cursors and the graphic selections of others. A frame takes the name and the
  colour of its view, which must be known for that.\<close>

definition draw_box :: "(nat \<Rightarrow> vmark) \<Rightarrow> vinfo option \<Rightarrow> vbox \<Rightarrow> ulayer \<Rightarrow> (vbox \<times> ulayer) option" where
  "draw_box mk vi c u =
     (case vb_marker c of
        None \<Rightarrow>
          (case vi of
             None \<Rightarrow> None
           | Some vi \<Rightarrow>
               (let m = \<lparr>x_id = u_next u, x_bounds = vb_bounds c, x_color = rgbToHex (vi_color vi), x_name = vi_username vi\<rparr>
                in Some (c\<lparr>vb_marker := Some m\<rparr>, group_add (mk (u_next u)) (u\<lparr>u_next := Suc (u_next u)\<rparr>))))
      | Some m \<Rightarrow> Some (c\<lparr>vb_marker := Some (m\<lparr>x_bounds := vb_bounds c\<rparr>)\<rparr>, group_add (mk (x_id m)) u))"

definition undraw_box :: "(nat \<Rightarrow> vmark) \<Rightarrow> vbox \<Rightarrow> ulayer \<Rightarrow> ulayer" where
  "undraw_box mk c u = (case vb_marker c of None \<Rightarrow> u | Some m \<Rightarrow> group_remove (mk (x_id m)) u)"

definition onUpdateCellViewCursor :: "int \<Rightarrow> ulayer \<Rightarrow> ulayer" where
  "onUpdateCellViewCursor viewId u =
     (case obj_get (u_cells u) viewId of
        None \<Rightarrow> u
      | Some c \<Rightarrow>
          if \<not> isEmptyRectangle (Some (vb_bounds c)) \<and> is_on_part (vb_part c) u then
            (case draw_box CellMark (obj_get (u_info u) viewId) c u of
               None \<Rightarrow> ucall ''TypeError'' u
             | Some (c, u) \<Rightarrow> u\<lparr>u_cells := obj_put viewId c (u_cells u)\<rparr>)
          else undraw_box CellMark c u)"

definition onUpdateGraphicViewSelection :: "int \<Rightarrow> ulayer \<Rightarrow> ulayer" where
  "onUpdateGraphicViewSelection viewId u =
     (case obj_get (u_graphics u) viewId of
        None \<Rightarrow> ucall ''TypeError'' u
      | Some c \<Rightarrow>
          if \<not> isEmptyRectangle (Some (vb_bounds c)) \<and> (u_docType u = ''text'' \<or> is_on_part (vb_part c) u) then
            (case draw_box GraphicMark (obj_get (u_info u) viewId) c u of
               None \<Rightarrow> ucall ''TypeError'' u
             | Some (c, u) \<Rightarrow> u\<lparr>u_graphics := obj_put viewId c (u_graphics u)\<rparr>)
          else undraw_box GraphicMark c u)"

definition onUpdateTextViewSelection :: "int \<Rightarrow> ulayer \<Rightarrow> ulayer" where
  "onUpdateTextViewSelection viewId u =
     (case obj_get (u_sels u) viewId of
        None \<Rightarrow> ucall ''TypeError'' u
      | Some s \<Rightarrow>
          if vs_polygons s \<noteq> None \<and> (u_docType u = ''text'' \<or> is_on_part (vs_part s) u) then
            (let u = (case vs_selection s of None \<Rightarrow> u | Some k \<Rightarrow> group_remove (SelMark k) u)
             in if obj_get (u_info u) viewId = None then ucall ''TypeError'' u
                else group_add (SelMark (u_next u))
                       (u\<lparr>u_sels := obj_put viewId (s\<lparr>vs_selection := Some (u_next u)\<rparr>) (u_sels u),
                          u_next := Suc (u_next u)\<rparr>))
          else (case vs_selection s of None \<Rightarrow> u | Some k \<Rightarrow> group_remove (SelMark k) u))"

section \<open>Views come and go\<close>

definition layer_addView :: "vinfo \<Rightarrow> ulayer \<Rightarrow> ulayer" where
  "layer_addView vi u =
     (let recolour = (vi_color vi = 0 \<and> u_docType u \<noteq> ''text'')
      in case (if recolour then getViewIdColor (vi_id vi) else Some (vi_color vi)) of
           None \<Rightarrow> ucall ''TypeError'' u
         | Some c \<Rightarrow>
             (let u = addView (vi\<lparr>vi_color := c\<rparr>) u;
                  u = (if obj_get (u_cursors u) (vi_id vi) \<noteq> None then put_cursor (vi_id vi) no_vcursor u else u)
              in onUpdateViewCursor (vi_id vi) u))"

definition layer_removeView :: "int \<Rightarrow> ulayer \<Rightarrow> ulayer" where
  "layer_removeView viewId u =
     (let u = (case obj_get (u_sels u) viewId of
                 None \<Rightarrow> u
               | Some s \<Rightarrow> (case vs_selection s of None \<Rightarrow> u | Some k \<Rightarrow> group_remove (SelMark k) u));
          u = (case obj_get (u_cursors u) viewId of
                 None \<Rightarrow> u
               | Some c \<Rightarrow>
                   (let u = onUpdateViewCursor viewId (put_cursor viewId (c\<lparr>vc_visible := Some False\<rparr>) u)
                    in u\<lparr>u_cursors := obj_del viewId (u_cursors u)\<rparr>))
      in removeView viewId u)"

definition removeAllViews :: "ulayer \<Rightarrow> ulayer" where
  "removeAllViews u = fold layer_removeView (int_keys (u_info u)) u"

text \<open>The entries of a \<open>viewinfo\<close> message, when each has its fields; the server numbers views from 0.\<close>

definition read_vinfo :: "jsval \<Rightarrow> vinfo option" where
  "read_vinfo v =
     (case (js_field ''id'' v, js_field ''username'' v, js_field ''color'' v) of
        (JInt i, JStr name, JInt c) \<Rightarrow>
          if i < 0 then None
          else Some \<lparr>vi_id = i, vi_userid = js_field ''userid'' v, vi_username = name,
                     vi_extra = js_field ''userextrainfo'' v, vi_color = c, vi_readonly = js_field ''readonly'' v\<rparr>
      | _ \<Rightarrow> None)"

definition read_viewinfo :: "jsval \<Rightarrow> vinfo list option" where
  "read_viewinfo v =
     (case v of
        JArr vs \<Rightarrow> if \<exists>v \<in> set vs. read_vinfo v = None then None else Some (map (the \<circ> read_vinfo) vs)
      | _ \<Rightarrow> None)"

definition add_new :: "vinfo \<Rightarrow> ulayer \<Rightarrow> ulayer" where
  "add_new vi u = (if obj_get (u_info u) (vi_id vi) = None then layer_addView vi u else u)"

definition remove_gone :: "int list \<Rightarrow> int \<Rightarrow> ulayer \<Rightarrow> ulayer" where
  "remove_gone viewIds i u = (if i \<in> set viewIds then u else layer_removeView i u)"

definition update_views :: "vinfo list \<Rightarrow> ulayer \<Rightarrow> ulayer" where
  "update_views vis u =
     (let u = fold add_new vis u; viewIds = map vi_id vis
      in fold (remove_gone viewIds) (int_keys (u_info u)) u)"

definition onViewInfoMsg :: "string \<Rightarrow> ulayer \<Rightarrow> ulayer" where
  "onViewInfoMsg textMsg u =
     (case json_parse (drop (length ''viewinfo: '') textMsg) of
        None \<Rightarrow> ucall ''SyntaxError'' u
      | Some v \<Rightarrow>
          (let u = on_layer (lemit (Fired ''viewinfo'' v)) u
           in case read_viewinfo v of None \<Rightarrow> ucall ''TypeError'' u | Some vis \<Rightarrow> update_views vis u))"

section \<open>Scrolling to a place\<close>

text \<open>The request to scroll so that a place is in the middle of the view, never above or left of the
  document.\<close>

definition scroll_target :: "mview \<Rightarrow> latlng \<Rightarrow> int \<times> int" where
  "scroll_target v p =
     (let center = point_subtract (project v p None) (point_divideBy (mv_size v) 2)
      in (js_round (if px center < 0 then 0 else px center), js_round (if py center < 0 then 0 else py center)))"

definition scrollto :: "latlng \<Rightarrow> bool option \<Rightarrow> ulayer \<Rightarrow> ulayer" where
  "scrollto p fromMsg u =
     (let c = scroll_target (u_view u) p
      in ufire ''scrollto'' ([(''x'', JInt (fst c)), (''y'', JInt (snd c))] @
           (case fromMsg of None \<Rightarrow> [] | Some b \<Rightarrow> [(''calledFromInvalidateCursorMsg'', JBool b)])) u)"

section \<open>The own cursor\<close>

definition updateCursorPos :: "ulayer \<Rightarrow> ulayer" where
  "updateCursorPos u = u\<lparr>u_markerPos := Some (getNorthWest (u_visibleCursor u))\<rparr>"

definition marker_on_map :: "bool \<Rightarrow> ulayer \<Rightarrow> ulayer" where
  "marker_on_map b u = (if u_markerPos u = None then u else on_layer (\<lambda>l. l\<lparr>l_cursorMarker := b\<rparr>) u)"

text \<open>\<open>_updateCursorAndOverlay\<close>; showing and hiding is \<open>L.ClipboardContainer\<close>'s.\<close>

definition updateCursorAndOverlay :: "ulayer \<Rightarrow> ulayer" where
  "updateCursorAndOverlay u =
     (if perm (g_net (u_grid u)) = ''edit'' \<and> l_isCursorVisible (u_layer u) \<and> u_isFocused u \<and> \<not> u_isZooming u
         \<and> \<not> isEmptyRectangle (Some (u_visibleCursor u))
      then marker_on_map True (updateCursorPos u)
      else marker_on_map False u)"

definition refresh_opacity :: "ulayer \<Rightarrow> vcursor \<Rightarrow> vcursor" where
  "refresh_opacity u c =
     c\<lparr>vc_marker := map_option (\<lambda>m. m\<lparr>m_opacity := marker_opacity u (m_pos m)\<rparr>) (vc_marker c)\<rparr>"

text \<open>\<open>_onUpdateCursor(scroll, zoom)\<close>. \<open>scroll\<close> is undefined (\<open>None\<close>) or a truth value.\<close>

definition onUpdateCursor :: "bool option \<Rightarrow> bool \<Rightarrow> ulayer \<Rightarrow> ulayer" where
  "onUpdateCursor scroll zoom u =
     (let v = u_view u;
          out = (case map_getBounds v of None \<Rightarrow> False | Some b \<Rightarrow> \<not> llb_contains b (u_visibleCursor u));
          u = (if \<not> zoom \<and> scroll \<noteq> Some False \<and> out \<and> l_isCursorVisible (u_layer u)
                  \<and> \<not> u_handleDragged u \<and> \<not> (u_followEditor u \<or> u_followUser u)
               then scrollto (getNorthWest (u_visibleCursor u)) (Some (scroll \<noteq> None)) u else u);
          u = updateCursorAndOverlay u
      in u\<lparr>u_cursors := obj_map (\<lambda>i. refresh_opacity u) (u_cursors u)\<rparr>)"

definition onZoomStart :: "ulayer \<Rightarrow> ulayer" where
  "onZoomStart u = u\<lparr>u_isZooming := True\<rparr>"

text \<open>\<open>_onZoomEnd\<close> passes \<open>null\<close> for \<open>scroll\<close>; with \<open>zoom\<close> set nothing scrolls.\<close>

definition onZoomEnd :: "ulayer \<Rightarrow> ulayer" where
  "onZoomEnd u = updateAllViewCursors (onUpdateCursor None True (u\<lparr>u_isZooming := False\<rparr>))"

definition hideCursorIfVisible :: "ulayer \<Rightarrow> ulayer" where
  "hideCursorIfVisible u =
     (if u_docType u = ''spreadsheet'' \<and> l_isCursorVisible (u_layer u)
      then updateCursorAndOverlay (on_layer (\<lambda>l. l\<lparr>l_isCursorVisible := False\<rparr>) u) else u)"

definition onCursorVisibleMsg :: "string \<Rightarrow> ulayer \<Rightarrow> ulayer" where
  "onCursorVisibleMsg textMsg u =
     (let shown = (\<exists>s \<in> set (suffixes textMsg). startsWith s ''cursorvisible: true'')
      in onUpdateCursor (Some False) False (on_layer (\<lambda>l. l\<lparr>l_isCursorVisible := shown\<rparr>) u))"

section \<open>Following another user\<close>

text \<open>\<open>goToViewCursor\<close>; the own view scrolls to the own cursor.\<close>

definition goToViewCursor :: "jsnum \<Rightarrow> ulayer \<Rightarrow> ulayer" where
  "goToViewCursor viewId u =
     (case viewId of
        NaN \<Rightarrow> u
      | Num i \<Rightarrow>
          if viewId = l_viewId (u_layer u) then onUpdateCursor None False u
          else
            (case obj_get (u_cursors u) i of
               None \<Rightarrow> u
             | Some c \<Rightarrow>
                 if vc_visible c = Some True \<and> \<not> isEmptyRectangle (vc_bounds c) then
                   (case (vc_bounds c, map_getBounds (u_view u)) of
                      (Some b, Some mb) \<Rightarrow>
                        (let u = (if llb_contains mb b then u else scrollto (getNorthWest b) (Some True) u)
                         in if vc_marker c = None then ucall ''TypeError'' u else show_header c u)
                    | _ \<Rightarrow> ucall ''TypeError'' u)
                 else u))"

text \<open>\<open>goToCellViewCursor\<close> adds both distances to \<open>lat\<close>, as the source does.\<close>

definition cell_scroll :: "llbounds \<Rightarrow> llbounds \<Rightarrow> real \<times> real" where
  "cell_scroll mb b =
     (let spacingX = \<bar>getEast b - getWest b\<bar> / 4; spacingY = \<bar>getSouth b - getNorth b\<bar> / 4;
          scrollX = (if getWest b < getWest mb then getWest b - getWest mb - spacingX
                     else if getEast b > getEast mb then getEast b - getEast mb + spacingX else 0);
          scrollY = (if getNorth b > getNorth mb then getNorth b - getNorth mb + spacingY
                     else if getSouth b < getSouth mb then getSouth b - getSouth mb - spacingY else 0)
      in (scrollX, scrollY))"

definition goToCellViewCursor :: "jsnum \<Rightarrow> ulayer \<Rightarrow> ulayer" where
  "goToCellViewCursor viewId u =
     (case viewId of
        NaN \<Rightarrow> u
      | Num i \<Rightarrow>
          (case (obj_get (u_cells u) i, map_getBounds (u_view u)) of
             (Some c, Some mb) \<Rightarrow>
               (let b = vb_bounds c
                in if isEmptyRectangle (Some b) then u
                   else
                     let s = cell_scroll mb b; m = llb_getCenter mb;
                         u = (if \<not> llb_contains mb b \<and> (fst s \<noteq> 0 \<or> snd s \<noteq> 0)
                              then scrollto (m\<lparr>lat := lat m + fst s + snd s\<rparr>) None u else u)
                     in if obj_get (u_info u) i = None \<or> vb_marker c = None then ucall ''TypeError'' u
                        else ucall ''bindPopup'' u)
           | _ \<Rightarrow> u))"

definition goToViewId :: "jsnum \<Rightarrow> ulayer \<Rightarrow> ulayer" where
  "goToViewId viewId u =
     (if viewId = Num (-1) then u
      else if u_docType u = ''spreadsheet'' then goToCellViewCursor viewId u
      else if u_docType u = ''text'' \<or> u_docType u = ''presentation'' then goToViewCursor viewId u
      else u)"

text \<open>\<open>_setFollowing(followingState, viewId)\<close>. It compares with \<open>_docLayer.viewId\<close>, a field that is never
  set (the layer's is \<open>_viewId\<close>): the comparisons with it always differ.\<close>

definition setFollowing :: "bool option \<Rightarrow> jsnum option \<Rightarrow> ulayer \<Rightarrow> ulayer" where
  "setFollowing followingState viewId u =
     (let userDefined = (viewId \<noteq> None \<and> viewId \<noteq> Some (Num (-1)));
          off = (followingState = Some False);
          followUser = (userDefined \<and> \<not> off); followEditor = (\<not> userDefined \<and> \<not> off);
          u = u\<lparr>u_followUser := followUser, u_followEditor := followEditor\<rparr>;
          u = (if followUser then
                 (let i = the viewId in (goToViewId i u)\<lparr>u_followThis := i\<rparr>)
               else if followEditor then
                 (let e = u_editorId u in if e \<noteq> Num (-1) then (goToViewId e u)\<lparr>u_followThis := e\<rparr> else u)
               else
                 (ufire ''deselectuser'' [(''viewId'', jsnum_val (u_followThis u))] u)\<lparr>u_followThis := Num (-1)\<rparr>)
      in ufire ''postMessage'' [(''msgId'', JStr ''FollowUser_Changed''), (''args'', JObj
           [(''FollowedViewId'', jsnum_val (u_followThis u)), (''IsFollowUser'', JBool followUser),
            (''IsFollowEditor'', JBool followEditor)])] u)"

definition updateEditor :: "string \<Rightarrow> ulayer \<Rightarrow> ulayer" where
  "updateEditor textMsg u =
     (let editorId = parseNum (drop (length ''editor:'' + 1) textMsg);
          u = u\<lparr>u_editorId := editorId\<rparr>;
          u = (if u_followEditor u then u\<lparr>u_followThis := editorId\<rparr> else u)
      in case editorId of
           NaN \<Rightarrow> u
         | Num i \<Rightarrow>
             (case obj_get (u_info u) i of
                None \<Rightarrow> u
              | Some vi \<Rightarrow> ufire ''updateEditorName'' [(''username'', JStr (vi_username vi))] u))"

section \<open>Messages about views\<close>

text \<open>The first four numbers of a text. \<open>None\<close>: there are fewer, and the source throws (on \<open>null\<close>, or
  when a coordinate is \<open>NaN\<close>).\<close>

definition four_numbers :: "string \<Rightarrow> (int \<times> int \<times> int \<times> int) option" where
  "four_numbers s =
     (case map (int \<circ> read_nat) (digit_runs s) of a # b # c # d # _ \<Rightarrow> Some (a, b, c, d) | _ \<Rightarrow> None)"

definition twips_bounds :: "grid \<Rightarrow> int \<times> int \<times> int \<times> int \<Rightarrow> llbounds" where
  "twips_bounds g r =
     (case r of (x, y, w, h) \<Rightarrow>
        let topLeftTwips = ipt (x, y); bottomRightTwips = point_add topLeftTwips (ipt (w, h)); z = mv_zoom (g_view g)
        in new_llbounds (twipsToLatLng g topLeftTwips (Some z)) (twipsToLatLng g bottomRightTwips (Some z)))"

definition rect_field :: "jsval \<Rightarrow> (int \<times> int \<times> int \<times> int) option" where
  "rect_field v = (case js_field ''rectangle'' v of JStr s \<Rightarrow> four_numbers s | _ \<Rightarrow> None)"

text \<open>The number of the view a message is about, if it is one of the others in the table.\<close>

definition is_own :: "jsnum \<Rightarrow> ulayer \<Rightarrow> bool" where
  "is_own n u \<longleftrightarrow> (case n of NaN \<Rightarrow> False | Num i \<Rightarrow> l_viewId (u_layer u) = Num i)"

definition known_other :: "jsval \<Rightarrow> ulayer \<Rightarrow> int option" where
  "known_other v u =
     (case js_int (js_field ''viewId'' v) of
        NaN \<Rightarrow> None
      | Num i \<Rightarrow> if is_own (Num i) u \<or> obj_get (u_info u) i = None then None else Some i)"

definition on_json :: "string \<Rightarrow> (jsval \<Rightarrow> ulayer \<Rightarrow> ulayer) \<Rightarrow> ulayer \<Rightarrow> ulayer" where
  "on_json text f u = (case json_parse text of None \<Rightarrow> ucall ''SyntaxError'' u | Some v \<Rightarrow> f v u)"

definition follow_cursor :: "int \<Rightarrow> ulayer \<Rightarrow> ulayer" where
  "follow_cursor i u =
     (if u_followThis u = Num i \<and> (u_followEditor u \<or> u_followUser u) then
        (if u_docType u = ''text'' \<or> u_docType u = ''presentation'' then goToViewCursor (Num i) u
         else if u_docType u = ''spreadsheet'' then goToCellViewCursor (Num i) u else u)
      else u)"

definition view_cursor_moved :: "jsval \<Rightarrow> ulayer \<Rightarrow> ulayer" where
  "view_cursor_moved v u =
     (case known_other v u of
        None \<Rightarrow> u
      | Some i \<Rightarrow>
          (case rect_field v of
             None \<Rightarrow> ucall ''TypeError'' u
           | Some r \<Rightarrow>
               (let c = (case obj_get (u_cursors u) i of None \<Rightarrow> no_vcursor | Some c \<Rightarrow> c);
                    c = c\<lparr>vc_bounds := Some (twips_bounds (u_grid u) r), vc_part := js_int (js_field ''part'' v),
                          vc_visible := (if vc_visible c = None then Some True else vc_visible c)\<rparr>
                in follow_cursor i (onUpdateViewCursor i (put_cursor i c u)))))"

definition onInvalidateViewCursorMsg :: "string \<Rightarrow> ulayer \<Rightarrow> ulayer" where
  "onInvalidateViewCursorMsg textMsg = on_json (drop (length ''invalidateviewcursor:'' + 1) textMsg) view_cursor_moved"

definition view_cursor_shown :: "jsval \<Rightarrow> ulayer \<Rightarrow> ulayer" where
  "view_cursor_shown v u =
     (case known_other v u of
        None \<Rightarrow> u
      | Some i \<Rightarrow>
          (let u = (case obj_get (u_cursors u) i of
                      None \<Rightarrow> u
                    | Some c \<Rightarrow> put_cursor i (c\<lparr>vc_visible := Some (js_field ''visible'' v = JStr ''true'')\<rparr>) u)
           in onUpdateViewCursor i u))"

definition onViewCursorVisibleMsg :: "string \<Rightarrow> ulayer \<Rightarrow> ulayer" where
  "onViewCursorVisibleMsg textMsg = on_json (drop (length ''viewcursorvisible:'' + 1) textMsg) view_cursor_shown"

text \<open>A cell cursor is not checked against the table of views. A view that is no number gets nothing drawn.\<close>

definition cell_cursor_moved :: "jsval \<Rightarrow> ulayer \<Rightarrow> ulayer" where
  "cell_cursor_moved v u =
     (case js_int (js_field ''viewId'' v) of
        NaN \<Rightarrow> u
      | Num i \<Rightarrow>
          if is_own (Num i) u then u
          else
            let c = (case obj_get (u_cells u) i of
                       None \<Rightarrow> \<lparr>vb_bounds = llb_createDefault, vb_part = NaN, vb_marker = None\<rparr> | Some c \<Rightarrow> c);
                empty = (case js_field ''rectangle'' v of
                           JStr s \<Rightarrow> (\<exists>t \<in> set (suffixes s). startsWith t ''EMPTY'') | _ \<Rightarrow> False);
                b = (if empty then Some llb_createDefault else map_option (twips_bounds (u_grid u)) (rect_field v))
            in case b of
                 None \<Rightarrow> ucall ''TypeError'' (u\<lparr>u_cells := obj_put i c (u_cells u)\<rparr>)
               | Some b \<Rightarrow>
                   onUpdateCellViewCursor i (u\<lparr>u_cells :=
                     obj_put i (c\<lparr>vb_bounds := b, vb_part := js_int (js_field ''part'' v)\<rparr>) (u_cells u)\<rparr>))"

definition onCellViewCursorMsg :: "string \<Rightarrow> ulayer \<Rightarrow> ulayer" where
  "onCellViewCursorMsg textMsg = on_json (drop (length ''cellviewcursor:'' + 1) textMsg) cell_cursor_moved"

definition graphic_selected :: "jsval \<Rightarrow> ulayer \<Rightarrow> ulayer" where
  "graphic_selected v u =
     (case known_other v u of
        None \<Rightarrow> u
      | Some i \<Rightarrow>
          (case js_field ''selection'' v of
             JStr s \<Rightarrow>
               (let c = (case obj_get (u_graphics u) i of
                           None \<Rightarrow> \<lparr>vb_bounds = llb_createDefault, vb_part = NaN, vb_marker = None\<rparr> | Some c \<Rightarrow> c);
                    c = c\<lparr>vb_part := js_int (js_field ''part'' v)\<rparr>;
                    b = (if digit_runs s = [] then Some llb_createDefault
                         else map_option (twips_bounds (u_grid u)) (four_numbers s))
                in case b of
                     None \<Rightarrow> ucall ''Error'' (u\<lparr>u_graphics := obj_put i c (u_graphics u)\<rparr>)
                   | Some b \<Rightarrow>
                       onUpdateGraphicViewSelection i
                         (u\<lparr>u_graphics := obj_put i (c\<lparr>vb_bounds := b\<rparr>) (u_graphics u)\<rparr>))
           | _ \<Rightarrow> ucall ''TypeError'' u))"

definition onGraphicViewSelectionMsg :: "string \<Rightarrow> ulayer \<Rightarrow> ulayer" where
  "onGraphicViewSelectionMsg textMsg = on_json (drop (length ''graphicviewselection:'' + 1) textMsg) graphic_selected"

text \<open>The rectangles of a selection, four numbers each; \<open>None\<close> when some are missing.\<close>

fun read_rects :: "int list \<Rightarrow> (vertex \<times> vertex) list option" where
  "read_rects [] = Some []"
| "read_rects (a # b # c # d # ns) = map_option (\<lambda>rs. ((a, b), (c, d)) # rs) (read_rects ns)"
| "read_rects ns = None"

definition selection_polygons :: "grid \<Rightarrow> string \<Rightarrow> latlng list list option" where
  "selection_polygons g s =
     (case read_rects (map (int \<circ> read_nat) (digit_runs s)) of
        None \<Rightarrow> None
      | Some rs \<Rightarrow>
          rectanglesToPolygons (\<lambda>p. twipsToLatLng g (ipt p) None) (map (\<lambda>(p, s). corners p s) rs))"

definition text_selected :: "jsval \<Rightarrow> ulayer \<Rightarrow> ulayer" where
  "text_selected v u =
     (case known_other v u of
        None \<Rightarrow> u
      | Some i \<Rightarrow>
          (case js_field ''selection'' v of
             JStr s \<Rightarrow>
               (let c = (case obj_get (u_sels u) i of
                           None \<Rightarrow> \<lparr>vs_part = NaN, vs_polygons = None, vs_selection = None\<rparr> | Some c \<Rightarrow> c)
                in if digit_runs s = [] then
                     onUpdateTextViewSelection i (u\<lparr>u_sels := obj_put i (c\<lparr>vs_polygons := None\<rparr>) (u_sels u)\<rparr>)
                   else
                     case selection_polygons (u_grid u) s of
                       None \<Rightarrow> ucall ''TypeError'' (u\<lparr>u_sels := obj_put i c (u_sels u)\<rparr>)
                     | Some ps \<Rightarrow>
                         onUpdateTextViewSelection i (u\<lparr>u_sels :=
                           obj_put i (c\<lparr>vs_part := js_int (js_field ''part'' v), vs_polygons := Some ps\<rparr>) (u_sels u)\<rparr>))
           | _ \<Rightarrow> ucall ''TypeError'' u))"

definition onTextViewSelectionMsg :: "string \<Rightarrow> ulayer \<Rightarrow> ulayer" where
  "onTextViewSelectionMsg textMsg = on_json (drop (length ''textviewselection:'' + 1) textMsg) text_selected"

text \<open>The own cursor has moved, by the user's action or another's.\<close>

definition own_cursor_moved :: "jsval \<Rightarrow> ulayer \<Rightarrow> ulayer" where
  "own_cursor_moved v u =
     (case rect_field v of
        None \<Rightarrow> ucall ''TypeError'' u
      | Some r \<Rightarrow>
          (let own = is_own (js_int (js_field ''viewId'' v)) u;
               u = u\<lparr>u_visibleCursor := twips_bounds (u_grid u) r\<rparr>;
               cursorPos = getNorthWest (u_visibleCursor u);
               u = (if (u_followEditor u \<or> u_followUser u) \<and> u_lastActionByUser u
                    then setFollowing (Some False) None u else u);
               link = js_field ''hyperlink'' v;
               u = u\<lparr>u_lastActionByUser := False,
                     u_hyperlink := (if js_field ''text'' link \<noteq> JUndef then link else JNull)\<rparr>;
               u = (if \<not> u_mapFocused u \<and> u_mapCursorVisible u \<and> own \<and> perm (g_net (u_grid u)) = ''edit''
                    then on_layer (lemit (Fired ''editorgotfocus'' JUndef)) u else u);
               u = (if lat (u_lastCursorPos u) = 0 \<and> lng (u_lastCursorPos u) = 0
                    then u\<lparr>u_lastCursorPos := cursorPos\<rparr> else u);
               moved = (lat (u_lastCursorPos u) \<noteq> lat cursorPos \<or> lng (u_lastCursorPos u) \<noteq> lng cursorPos);
               u = (if moved then u\<lparr>u_lastCursorPos := cursorPos\<rparr> else u)
           in onUpdateCursor (Some (moved \<and> own)) False u))"

definition onInvalidateCursorMsg :: "string \<Rightarrow> ulayer \<Rightarrow> ulayer" where
  "onInvalidateCursorMsg textMsg = on_json (drop (length ''invalidatecursor:'' + 1) textMsg) own_cursor_moved"

section \<open>Runs\<close>

text \<open>What can happen to the table and to what is drawn: each message of the server, the zoom, a
  change of part, following and the loss of the connection.\<close>

inductive ustep :: "ulayer \<Rightarrow> ulayer \<Rightarrow> bool" where
  Info: "ustep u (onViewInfoMsg m u)"
| Cursor: "ustep u (onInvalidateViewCursorMsg m u)"
| Shown: "ustep u (onViewCursorVisibleMsg m u)"
| Cell: "ustep u (onCellViewCursorMsg m u)"
| Graphic: "ustep u (onGraphicViewSelectionMsg m u)"
| Text: "ustep u (onTextViewSelectionMsg m u)"
| Own: "ustep u (onInvalidateCursorMsg m u)"
| Blink: "ustep u (onCursorVisibleMsg m u)"
| ZoomStart: "ustep u (onZoomStart u)"
| ZoomEnd: "ustep u (onZoomEnd u)"
| Part: "ustep u (updateAllViewCursors (on_layer (on_grid (\<lambda>g. g\<lparr>g_selectedPart := p\<rparr>)) u))"
| Follow: "ustep u (setFollowing b i u)"
| Editor: "ustep u (updateEditor m u)"
| Lost: "ustep u (removeAllViews u)"

inductive_cases ustep_cases: "ustep u w"

inductive reaches :: "ulayer \<Rightarrow> ulayer \<Rightarrow> bool" where
  Stay: "reaches u u"
| Step: "reaches u v \<Longrightarrow> ustep v w \<Longrightarrow> reaches u w"

lemma frame_layer [simp]:
  "u_info (on_layer f u) = u_info u" "u_cursors (on_layer f u) = u_cursors u" "u_group (on_layer f u) = u_group u"
  "u_cells (on_layer f u) = u_cells u" "u_sels (on_layer f u) = u_sels u" "u_graphics (on_layer f u) = u_graphics u"
  "u_next (on_layer f u) = u_next u" "u_byName (on_layer f u) = u_byName u"
  by (simp_all add: on_layer_def)

lemma frame_fire [simp]:
  "u_info (ufire t fs u) = u_info u" "u_cursors (ufire t fs u) = u_cursors u" "u_group (ufire t fs u) = u_group u"
  "u_cells (ufire t fs u) = u_cells u" "u_sels (ufire t fs u) = u_sels u" "u_graphics (ufire t fs u) = u_graphics u"
  "u_next (ufire t fs u) = u_next u" "u_byName (ufire t fs u) = u_byName u"
  by (simp_all add: ufire_def)

lemma frame_call [simp]:
  "u_info (ucall f u) = u_info u" "u_cursors (ucall f u) = u_cursors u" "u_group (ucall f u) = u_group u"
  "u_cells (ucall f u) = u_cells u" "u_sels (ucall f u) = u_sels u" "u_graphics (ucall f u) = u_graphics u"
  "u_next (ucall f u) = u_next u" "u_byName (ucall f u) = u_byName u"
  by (simp_all add: ucall_def)

section \<open>No cursor without its view\<close>

definition cursor_marks :: "ulayer \<Rightarrow> nat set" where
  "cursor_marks u = {n. CursorMark n \<in> set (u_group u)}"

definition owned :: "(int, vcursor) obj \<Rightarrow> nat set" where
  "owned cs = {n. \<exists>i c m. map_of cs i = Some c \<and> vc_marker c = Some m \<and> m_id m = n}"

text \<open>Cursors belong to views of the table; a marker belongs to a cursor with a place and shows the name
  and colour of its view, which is not read-only; what is drawn belongs to a cursor.\<close>

definition fits :: "(int, vinfo) obj \<Rightarrow> int \<Rightarrow> vcursor \<Rightarrow> bool" where
  "fits info i c \<longleftrightarrow>
     (\<forall>m. vc_marker c = Some m \<longrightarrow> vc_bounds c \<noteq> None \<and>
        (\<exists>vi. map_of info i = Some vi \<and> m_color m = rgbToHex (vi_color vi) \<and> m_name m = vi_username vi
           \<and> vi_readonly vi = JStr ''0''))"

definition views_ok :: "ulayer \<Rightarrow> bool" where
  "views_ok u \<longleftrightarrow> dom (map_of (u_cursors u)) \<subseteq> dom (map_of (u_info u)) \<and> cursor_marks u \<subseteq> owned (u_cursors u) \<and>
     (\<forall>i c. map_of (u_cursors u) i = Some c \<longrightarrow> fits (u_info u) i c)"

text \<open>Steps that leave table, cursors and drawn cursors alone.\<close>

definition same_cursors :: "ulayer \<Rightarrow> ulayer \<Rightarrow> bool" where
  "same_cursors u w \<longleftrightarrow> u_info w = u_info u \<and> u_cursors w = u_cursors u \<and> cursor_marks w = cursor_marks u"

lemma same_ok: "same_cursors u w \<Longrightarrow> views_ok u \<Longrightarrow> views_ok w"
  by (simp add: same_cursors_def views_ok_def)

lemma same_trans: "same_cursors u v \<Longrightarrow> same_cursors v w \<Longrightarrow> same_cursors u w"
  by (simp add: same_cursors_def)

lemma same_refl [simp]: "same_cursors u u"
  by (simp add: same_cursors_def)

lemma same_layer [simp]: "same_cursors u (on_layer f u)" "same_cursors u (ufire t fs u)" "same_cursors u (ucall t u)"
  by (simp_all add: same_cursors_def cursor_marks_def)

lemma same_group [simp]:
  "same_cursors u (group_add (CellMark n) u)" "same_cursors u (group_add (GraphicMark n) u)"
  "same_cursors u (group_add (SelMark n) u)" "same_cursors u (group_remove (CellMark n) u)"
  "same_cursors u (group_remove (GraphicMark n) u)" "same_cursors u (group_remove (SelMark n) u)"
  by (auto simp: same_cursors_def cursor_marks_def group_add_def group_remove_def)

lemma same_fields:
  "u_info w = u_info u \<Longrightarrow> u_cursors w = u_cursors u \<Longrightarrow> u_group w = u_group u \<Longrightarrow> same_cursors u w"
  by (simp add: same_cursors_def cursor_marks_def)

lemma marks_group [simp]:
  "cursor_marks (group_add (CursorMark n) u) = insert n (cursor_marks u)"
  "cursor_marks (group_remove (CursorMark n) u) = cursor_marks u - {n}"
  by (auto simp: cursor_marks_def group_add_def group_remove_def)

lemma frame_group [simp]:
  "u_cursors (group_add k u) = u_cursors u" "u_cursors (group_remove k u) = u_cursors u"
  "u_info (group_add k u) = u_info u" "u_info (group_remove k u) = u_info u"
  by (simp_all add: group_add_def group_remove_def)

lemma frame_put [simp]:
  "u_info (put_cursor i c u) = u_info u" "cursor_marks (put_cursor i c u) = cursor_marks u"
  "map_of (u_cursors (put_cursor i c u)) = (map_of (u_cursors u))(i \<mapsto> c)"
  by (simp_all add: put_cursor_def cursor_marks_def obj_put_get)

lemma marks_put [simp]: "cursor_marks (put_cursor i c (u\<lparr>u_next := n\<rparr>)) = cursor_marks u"
  by (simp add: put_cursor_def cursor_marks_def)

lemma frame_next [simp]:
  "u_cursors (put_cursor i c (u\<lparr>u_next := n\<rparr>)) = u_cursors (put_cursor i c u)"
  "u_info (put_cursor i c (u\<lparr>u_next := n\<rparr>)) = u_info u"
  by (simp_all add: put_cursor_def)

lemma owned_put: "m_id m = n \<Longrightarrow> vc_marker c = Some m \<Longrightarrow> n \<in> owned (obj_put i c cs)"
  by (auto simp: owned_def obj_put_get)

lemma owned_keep:
  assumes "map_of cs i = Some c" "\<And>m. vc_marker c = Some m \<Longrightarrow> \<exists>m'. vc_marker c' = Some m' \<and> m_id m' = m_id m"
  shows "owned cs \<subseteq> owned (obj_put i c' cs)"
proof
  fix n assume "n \<in> owned cs"
  then obtain j d m where d: "map_of cs j = Some d" "vc_marker d = Some m" "m_id m = n" by (auto simp: owned_def)
  show "n \<in> owned (obj_put i c' cs)"
  proof (cases "j = i")
    case True
    with d assms have "vc_marker c = Some m" by simp
    from assms(2) [OF this] d(3) show ?thesis by (auto simp: owned_def obj_put_get)
  next
    case False
    with d show ?thesis by (auto simp: owned_def obj_put_get intro!: exI [of _ j])
  qed
qed

text \<open>Storing a cursor of a known view that keeps its marker.\<close>

lemma ok_put:
  assumes "views_ok u" "i \<in> dom (map_of (u_info u))" "fits (u_info u) i c"
    and "\<And>d m. map_of (u_cursors u) i = Some d \<Longrightarrow> vc_marker d = Some m \<Longrightarrow> \<exists>m'. vc_marker c = Some m' \<and> m_id m' = m_id m"
  shows "views_ok (put_cursor i c u)"
proof -
  have "owned (u_cursors u) \<subseteq> owned (obj_put i c (u_cursors u))"
  proof (cases "map_of (u_cursors u) i")
    case None
    show ?thesis
    proof
      fix n assume "n \<in> owned (u_cursors u)"
      then obtain j d m where d: "map_of (u_cursors u) j = Some d" "vc_marker d = Some m" "m_id m = n" by (auto simp: owned_def)
      with None have "j \<noteq> i" by auto
      with d show "n \<in> owned (obj_put i c (u_cursors u))" by (auto simp: owned_def obj_put_get intro!: exI [of _ j])
    qed
  next
    case (Some d)
    then show ?thesis using assms(4) by (intro owned_keep) auto
  qed
  then have "cursor_marks u \<subseteq> owned (obj_put i c (u_cursors u))" using assms(1) by (auto simp: views_ok_def)
  with assms(1-3) show ?thesis by (auto simp: views_ok_def put_cursor_def cursor_marks_def obj_put_get)
qed

lemma ok_group_remove: "views_ok u \<Longrightarrow> views_ok (group_remove (CursorMark n) u)"
  by (auto simp: views_ok_def)

lemma draw_cursor_facts:
  assumes "views_ok u" "map_of (u_cursors u) i = Some c" "vc_bounds c = Some b"
    and vi: "map_of (u_info u) i = Some vi" "vi_readonly vi = JStr ''0''"
  shows "views_ok (draw_cursor i vi c pos sz u)" "u_info (draw_cursor i vi c pos sz u) = u_info u"
proof -
  have i: "i \<in> dom (map_of (u_info u))" using vi by auto
  have f: "fits (u_info u) i c" using assms by (auto simp: views_ok_def)
  show "u_info (draw_cursor i vi c pos sz u) = u_info u" by (auto simp: draw_cursor_def Let_def split: option.split)
  show "views_ok (draw_cursor i vi c pos sz u)"
  proof (cases "vc_marker c")
    case None
    let ?m = "\<lparr>m_id = u_next u, m_pos = pos, m_size = sz, m_opacity = marker_opacity u pos,
        m_color = rgbToHex (vi_color vi), m_name = vi_username vi\<rparr>"
    let ?u = "put_cursor i (c\<lparr>vc_marker := Some ?m\<rparr>) (u\<lparr>u_next := Suc (u_next u)\<rparr>)"
    have "views_ok (u\<lparr>u_next := Suc (u_next u)\<rparr>)" using assms(1) by (simp add: views_ok_def cursor_marks_def)
    then have "views_ok ?u" using assms(2,3) i vi None by (intro ok_put) (auto simp: fits_def)
    moreover have "u_next u \<in> owned (u_cursors ?u)"
      unfolding put_cursor_def by simp (rule owned_put [of ?m], simp_all)
    ultimately show ?thesis using None by (simp add: draw_cursor_def views_ok_def)
  next
    case (Some m)
    let ?u = "put_cursor i (c\<lparr>vc_marker := Some (m\<lparr>m_pos := pos, m_size := sz, m_opacity := marker_opacity u pos\<rparr>)\<rparr>) u"
    have "views_ok ?u" using assms i Some f by (intro ok_put) (auto simp: fits_def)
    moreover have "m_id m \<in> owned (u_cursors ?u)"
      unfolding put_cursor_def
      by simp (rule owned_put [of "m\<lparr>m_pos := pos, m_size := sz, m_opacity := marker_opacity u pos\<rparr>"], simp_all)
    ultimately show ?thesis using Some by (simp add: draw_cursor_def views_ok_def)
  qed
qed

lemma show_header_same [simp]: "same_cursors u (show_header c u)"
  by (simp add: show_header_def)

lemma update_cursor_facts:
  assumes "views_ok u"
  shows "views_ok (onUpdateViewCursor i u)" "u_info (onUpdateViewCursor i u) = u_info u"
proof -
  have "views_ok (onUpdateViewCursor i u) \<and> u_info (onUpdateViewCursor i u) = u_info u"
  proof (cases "map_of (u_cursors u) i")
    case (Some c)
    note c = Some
    show ?thesis
    proof (cases "vc_bounds c")
      case (Some b)
      obtain vi where vi: "map_of (u_info u) i = Some vi" using c assms by (auto simp: views_ok_def)
      let ?w = "if cursor_drawn u (vi_readonly vi \<noteq> JStr ''0'') c
          then draw_cursor i vi c (getNorthWest b) (cursor_size u b) u
          else case vc_marker c of None \<Rightarrow> u | Some m \<Rightarrow> group_remove (CursorMark (m_id m)) u"
      have w: "views_ok ?w \<and> u_info ?w = u_info u"
        using assms draw_cursor_facts [OF assms c Some vi]
        by (auto simp: ok_group_remove cursor_drawn_def split: option.split)
      have same: "same_cursors ?w (case obj_get (u_cursors ?w) i of None \<Rightarrow> ?w | Some d \<Rightarrow> show_header d ?w)"
        by (auto split: option.split)
      have "onUpdateViewCursor i u = (case obj_get (u_cursors ?w) i of None \<Rightarrow> ?w | Some d \<Rightarrow> show_header d ?w)"
        using c Some vi by (simp add: onUpdateViewCursor_def Let_def)
      with w same_ok [OF same] same show ?thesis by (simp add: same_cursors_def)
    qed (use assms c in \<open>simp add: onUpdateViewCursor_def\<close>)
  qed (use assms in \<open>simp add: onUpdateViewCursor_def\<close>)
  then show "views_ok (onUpdateViewCursor i u)" "u_info (onUpdateViewCursor i u) = u_info u" by auto
qed

text \<open>Setting a cursor invisible, updating and deleting it leaves nothing of it drawn.\<close>

lemma drop_cursor:
  assumes "views_ok u" "map_of (u_cursors u) i = Some c"
  defines "w \<equiv> onUpdateViewCursor i (put_cursor i (c\<lparr>vc_visible := Some False\<rparr>) u)"
  shows "u_info w = u_info u" "u_cursors w = obj_put i (c\<lparr>vc_visible := Some False\<rparr>) (u_cursors u)"
    and "cursor_marks w \<subseteq> owned (obj_del i (u_cursors u))"
proof -
  let ?c = "c\<lparr>vc_visible := Some False\<rparr>" and ?u = "put_cursor i (c\<lparr>vc_visible := Some False\<rparr>) u"
  obtain vi where vi: "map_of (u_info u) i = Some vi" using assms(1,2) by (auto simp: views_ok_def)
  have f: "fits (u_info u) i c" using assms(1,2) by (auto simp: views_ok_def)
  have away: "n \<in> owned (obj_del i (u_cursors u))"
    if "n \<in> cursor_marks u" "\<And>m. vc_marker c = Some m \<Longrightarrow> n \<noteq> m_id m" for n
  proof -
    have "n \<in> owned (u_cursors u)" using that(1) assms(1) by (auto simp: views_ok_def)
    then obtain j d m where d: "map_of (u_cursors u) j = Some d" "vc_marker d = Some m" "m_id m = n"
      by (auto simp: owned_def)
    have "j \<noteq> i" using d assms(2) that(2) by auto
    with d show ?thesis by (auto simp: owned_def obj_del_get intro!: exI [of _ j])
  qed
  show "u_info w = u_info u" "u_cursors w = obj_put i ?c (u_cursors u)"
    and "cursor_marks w \<subseteq> owned (obj_del i (u_cursors u))"
    using vi f away unfolding w_def
    by (auto simp: onUpdateViewCursor_def cursor_drawn_def show_header_def put_cursor_def obj_put_get fits_def
        group_remove_def cursor_marks_def split: option.splits)
qed


text \<open>Operations that keep the table and the invariant.\<close>

definition keeps :: "ulayer \<Rightarrow> ulayer \<Rightarrow> bool" where
  "keeps u w \<longleftrightarrow> (views_ok u \<longrightarrow> views_ok w \<and> u_info w = u_info u)"

lemma keeps_refl [simp]: "keeps u u"
  by (simp add: keeps_def)

lemma keeps_trans: "keeps u v \<Longrightarrow> keeps v w \<Longrightarrow> keeps u w"
  by (simp add: keeps_def)

lemma keeps_same: "same_cursors u w \<Longrightarrow> keeps u w"
  using same_ok [of u w] by (auto simp: keeps_def same_cursors_def)

lemma keeps_fields:
  "u_info w = u_info u \<Longrightarrow> u_cursors w = u_cursors u \<Longrightarrow> u_group w = u_group u \<Longrightarrow> keeps u w"
  by (simp add: keeps_same same_fields)

lemma keeps_update: "keeps u (onUpdateViewCursor i u)"
  using update_cursor_facts [of u i] by (simp add: keeps_def)

lemma keeps_fold: "(\<And>i u. keeps u (f i u)) \<Longrightarrow> keeps u (fold f is u)"
  by (induction "is" arbitrary: u) (auto intro: keeps_trans)

lemma keeps_updates: "keeps u (updateAllViewCursors u)"
  unfolding updateAllViewCursors_def by (rule keeps_fold) (rule keeps_update)

lemma keeps_refresh: "keeps u (u\<lparr>u_cursors := obj_map (\<lambda>i. refresh_opacity w) (u_cursors u)\<rparr>)"
proof -
  have "owned (u_cursors u) \<subseteq> owned (obj_map (\<lambda>i. refresh_opacity w) (u_cursors u))"
    by (force simp: owned_def obj_map_get refresh_opacity_def)
  then show ?thesis
    by (fastforce simp: keeps_def views_ok_def fits_def cursor_marks_def obj_map_get refresh_opacity_def)
qed

lemma same_scrollto: "same_cursors u (scrollto p b u)"
  by (simp add: scrollto_def Let_def)

lemma same_scroll_then [simp]:
  "same_cursors u (scrollto p b u)" "same_cursors u (ucall t (scrollto p b u))"
  "same_cursors u (show_header c (scrollto p b u))"
proof -
  show s: "same_cursors u (scrollto p b u)" by (rule same_scrollto)
  show "same_cursors u (ucall t (scrollto p b u))" by (rule same_trans [OF s]) simp
  show "same_cursors u (show_header c (scrollto p b u))" by (rule same_trans [OF s]) (simp add: show_header_def)
qed

lemma same_overlay: "same_cursors u (updateCursorAndOverlay u)"
  by (auto simp: updateCursorAndOverlay_def marker_on_map_def updateCursorPos_def intro!: same_fields)

lemma keeps_own: "keeps u (onUpdateCursor b z u)"
proof -
  have "same_cursors u (updateCursorAndOverlay (if a then scrollto p m u else u))" for a p m
    by (rule same_trans [OF _ same_overlay]) (simp add: same_scrollto)
  from keeps_trans [OF keeps_same [OF this] keeps_refresh] show ?thesis
    by (simp add: onUpdateCursor_def Let_def)
qed

lemma keeps_goto_cursor: "keeps u (goToViewCursor i u)"
  by (simp add: goToViewCursor_def Let_def keeps_own keeps_same split: jsnum.split option.split)

lemma keeps_goto_cell: "keeps u (goToCellViewCursor i u)"
  by (simp add: goToCellViewCursor_def Let_def keeps_same split: jsnum.split option.split)

lemma keeps_goto: "keeps u (goToViewId i u)"
  by (simp add: goToViewId_def keeps_goto_cursor keeps_goto_cell)

lemma keeps_more:
  "keeps u w \<Longrightarrow> keeps u (ufire t fs w)" "keeps u w \<Longrightarrow> keeps u (w\<lparr>u_followThis := j\<rparr>)"
  "keeps u w \<Longrightarrow> keeps u (goToViewId j w)"
  "keeps u (u\<lparr>u_followUser := x, u_followEditor := y\<rparr>)"
proof -
  show "keeps u w \<Longrightarrow> keeps u (ufire t fs w)" by (rule keeps_trans, assumption, rule keeps_same) simp
  show "keeps u w \<Longrightarrow> keeps u (w\<lparr>u_followThis := j\<rparr>)" by (rule keeps_trans, assumption, rule keeps_fields) simp_all
  show "keeps u w \<Longrightarrow> keeps u (goToViewId j w)" by (rule keeps_trans, assumption, rule keeps_goto)
  show "keeps u (u\<lparr>u_followUser := x, u_followEditor := y\<rparr>)" by (rule keeps_fields) simp_all
qed

lemma keeps_following: "keeps u (setFollowing b i u)"
  unfolding setFollowing_def Let_def by (auto intro!: keeps_more)

lemma keeps_editor: "keeps u (updateEditor m u)"
  by (auto simp: updateEditor_def Let_def split: jsnum.split option.split intro!: keeps_fields)

lemma keeps_zoom: "keeps u (onZoomStart u)" "keeps u (onZoomEnd u)"
proof -
  show "keeps u (onZoomStart u)" by (simp add: onZoomStart_def keeps_fields)
  show "keeps u (onZoomEnd u)"
    unfolding onZoomEnd_def by (rule keeps_trans [OF _ keeps_updates], rule keeps_trans [OF _ keeps_own]) (simp add: keeps_fields)
qed

lemma keeps_visible: "keeps u (onCursorVisibleMsg m u)"
  unfolding onCursorVisibleMsg_def Let_def by (rule keeps_trans [OF _ keeps_own]) (simp add: keeps_same)

lemma keeps_follow_cursor: "keeps u (follow_cursor i u)"
  by (simp add: follow_cursor_def keeps_goto_cursor keeps_goto_cell)

lemma keeps_json: "(\<And>v. keeps u (f v u)) \<Longrightarrow> keeps u (on_json t f u)"
  by (simp add: on_json_def keeps_same split: option.split)

lemma known_other_mem: "known_other v u = Some i \<Longrightarrow> i \<in> dom (map_of (u_info u))"
  by (auto simp: known_other_def split: jsnum.splits if_splits)

text \<open>A cursor of a known view is stored with its place or its visibility changed.\<close>

lemma keeps_put:
  assumes "i \<in> dom (map_of (u_info u))"
    and "c' = no_vcursor \<and> map_of (u_cursors u) i = None \<or> map_of (u_cursors u) i = Some c'"
    and "vc_marker c = vc_marker c'" "vc_bounds c' \<noteq> None \<Longrightarrow> vc_bounds c \<noteq> None"
  shows "keeps u (put_cursor i c u)"
  unfolding keeps_def
proof (intro impI conjI)
  assume ok: "views_ok u"
  then have "fits (u_info u) i c'" using assms(2) by (auto simp: views_ok_def fits_def no_vcursor_def)
  then have "fits (u_info u) i c" using assms(3,4) by (auto simp: fits_def)
  then show "views_ok (put_cursor i c u)" using ok assms by (intro ok_put) auto
qed simp

lemma keeps_moved: "keeps u (view_cursor_moved v u)"
proof (cases "known_other v u")
  case (Some i)
  note i = known_other_mem [OF Some]
  let ?c' = "case map_of (u_cursors u) i of None \<Rightarrow> no_vcursor | Some c \<Rightarrow> c"
  have "keeps u (put_cursor i (?c'\<lparr>vc_bounds := Some b, vc_part := p, vc_visible := x\<rparr>) u)" for b p x
    by (rule keeps_put [OF i, of ?c']) (simp_all split: option.split)
  from keeps_trans [OF keeps_trans [OF this keeps_update] keeps_follow_cursor] Some show ?thesis
    by (auto simp: view_cursor_moved_def Let_def keeps_same split: option.split)
qed (simp add: view_cursor_moved_def)

lemma keeps_shown: "keeps u (view_cursor_shown v u)"
proof (cases "known_other v u")
  case (Some i)
  note i = known_other_mem [OF Some]
  have "keeps u (put_cursor i (c\<lparr>vc_visible := x\<rparr>) u)" if "map_of (u_cursors u) i = Some c" for c x
    by (rule keeps_put [OF i, of c]) (simp_all add: that)
  from keeps_trans [OF this keeps_update] Some show ?thesis
    by (auto simp: view_cursor_shown_def keeps_update split: option.split)
qed (simp add: view_cursor_shown_def)


lemma marks_other [simp]:
  "cursor_marks (group_add (CellMark n) u) = cursor_marks u" "cursor_marks (group_add (GraphicMark n) u) = cursor_marks u"
  "cursor_marks (group_add (SelMark n) u) = cursor_marks u" "cursor_marks (group_remove (SelMark n) u) = cursor_marks u"
  "cursor_marks (u\<lparr>u_next := k\<rparr>) = cursor_marks u" "cursor_marks (u\<lparr>u_sels := x\<rparr>) = cursor_marks u"
  "cursor_marks (ucall f u) = cursor_marks u"
  by (auto simp: cursor_marks_def group_add_def group_remove_def)

lemma same_box:
  "draw_box CellMark vi c u = Some (d, w) \<Longrightarrow> same_cursors u w"
  "draw_box GraphicMark vi c u = Some (d, w) \<Longrightarrow> same_cursors u w"
  by (auto simp: draw_box_def Let_def same_cursors_def split: option.splits)

lemma same_undraw: "same_cursors u (undraw_box CellMark c u)" "same_cursors u (undraw_box GraphicMark c u)"
  by (simp_all add: undraw_box_def split: option.split)

lemma same_then_fields:
  "same_cursors u w \<Longrightarrow> same_cursors u (w\<lparr>u_cells := x\<rparr>)" "same_cursors u w \<Longrightarrow> same_cursors u (w\<lparr>u_graphics := y\<rparr>)"
  "same_cursors u w \<Longrightarrow> same_cursors u (w\<lparr>u_sels := z, u_next := n\<rparr>)"
  by (simp_all add: same_cursors_def cursor_marks_def)

lemma same_cell: "same_cursors u (onUpdateCellViewCursor i u)"
  by (auto simp: onUpdateCellViewCursor_def same_undraw same_box split: option.split intro!: same_then_fields)

lemma same_graphic: "same_cursors u (onUpdateGraphicViewSelection i u)"
  by (auto simp: onUpdateGraphicViewSelection_def same_undraw same_box split: option.split intro!: same_then_fields)

lemma same_text: "same_cursors u (onUpdateTextViewSelection i u)"
  by (simp add: onUpdateTextViewSelection_def Let_def same_cursors_def split: option.split)

lemma same_message:
  "same_cursors u (cell_cursor_moved v u)" "same_cursors u (graphic_selected v u)" "same_cursors u (text_selected v u)"
proof -
  have s: "same_cursors u (onUpdateCellViewCursor i (u\<lparr>u_cells := x\<rparr>))"
    "same_cursors u (onUpdateGraphicViewSelection i (u\<lparr>u_graphics := y\<rparr>))"
    "same_cursors u (onUpdateTextViewSelection i (u\<lparr>u_sels := z\<rparr>))"
    "same_cursors u (ucall t (u\<lparr>u_cells := x\<rparr>))" "same_cursors u (ucall t (u\<lparr>u_graphics := y\<rparr>))"
    "same_cursors u (ucall t (u\<lparr>u_sels := z\<rparr>))" for i x y z t
    by (rule same_trans [rotated], rule same_cell same_graphic same_text same_layer, rule same_fields, simp_all)+
  show "same_cursors u (cell_cursor_moved v u)"
    by (simp add: cell_cursor_moved_def Let_def s split: jsnum.split option.split)
  show "same_cursors u (graphic_selected v u)"
    by (simp add: graphic_selected_def Let_def s split: jsval.split option.split)
  show "same_cursors u (text_selected v u)"
    by (simp add: text_selected_def Let_def s split: jsval.split option.split)
qed

lemma keeps_own_moved: "keeps u (own_cursor_moved v u)"
proof -
  have f: "keeps u w \<Longrightarrow> keeps u (setFollowing a b w)" "keeps u w \<Longrightarrow> keeps u (onUpdateCursor x y w)"
    "keeps u w \<Longrightarrow> keeps u (on_layer g w)" "keeps u w \<Longrightarrow> keeps u (w\<lparr>u_lastCursorPos := p\<rparr>)"
    "keeps u w \<Longrightarrow> keeps u (w\<lparr>u_lastActionByUser := False, u_hyperlink := h\<rparr>)"
    "keeps u (u\<lparr>u_visibleCursor := r\<rparr>)" for w a b x y g p h r
  proof -
    show "keeps u w \<Longrightarrow> keeps u (setFollowing a b w)" by (erule keeps_trans) (rule keeps_following)
    show "keeps u w \<Longrightarrow> keeps u (onUpdateCursor x y w)" by (erule keeps_trans) (rule keeps_own)
    show "keeps u w \<Longrightarrow> keeps u (on_layer g w)" by (erule keeps_trans) (simp add: keeps_same)
    show "keeps u w \<Longrightarrow> keeps u (w\<lparr>u_lastCursorPos := p\<rparr>)" by (erule keeps_trans) (simp add: keeps_fields)
    show "keeps u w \<Longrightarrow> keeps u (w\<lparr>u_lastActionByUser := False, u_hyperlink := h\<rparr>)"
      by (erule keeps_trans) (simp add: keeps_fields)
    show "keeps u (u\<lparr>u_visibleCursor := r\<rparr>)" by (simp add: keeps_fields)
  qed
  have i: "keeps u a \<Longrightarrow> keeps u b \<Longrightarrow> keeps u (if P then a else b)" for a b P by simp
  show ?thesis
    unfolding own_cursor_moved_def Let_def
    by (cases "rect_field v") (simp add: keeps_same, simp only: option.case, intro f i)
qed

section \<open>The table follows the messages\<close>

lemma color_some: "0 \<le> i \<Longrightarrow> \<exists>c. getViewIdColor i = Some c"
proof -
  assume "0 \<le> i"
  then have "\<not> js_rem (i + 1) (int (length darkColors)) < 0" by (simp add: js_rem_def darkColors_def)
  then show ?thesis by (simp add: getViewIdColor_def Let_def split: prod.split)
qed

lemma read_vinfo_id: "read_vinfo v = Some vi \<Longrightarrow> 0 \<le> vi_id vi"
  by (auto simp: read_vinfo_def split: jsval.splits if_splits)

lemma read_viewinfo_id: "read_viewinfo v = Some vis \<Longrightarrow> vi \<in> set vis \<Longrightarrow> 0 \<le> vi_id vi"
  by (force simp: read_viewinfo_def split: jsval.splits if_splits intro: read_vinfo_id)

lemma addView_frame:
  "u_info (addView vi u) = obj_put (vi_id vi) vi (u_info u)" "u_cursors (addView vi u) = u_cursors u"
  "u_group (addView vi u) = u_group u"
  by (simp_all add: addView_def updateAvatars_def Let_def)

lemma removeView_frame:
  "u_cursors (removeView i u) = u_cursors u" "u_group (removeView i u) = u_group u"
  "map_of (u_info (removeView i u)) = (map_of (u_info u))(i := None)"
  by (auto simp: removeView_def Let_def obj_del_get split: option.split)

lemma layer_addView_facts:
  assumes "views_ok u" "map_of (u_info u) (vi_id vi) = None" "0 \<le> vi_id vi"
  shows "views_ok (layer_addView vi u)"
    and "\<exists>c. map_of (u_info (layer_addView vi u)) = (map_of (u_info u))(vi_id vi \<mapsto> vi\<lparr>vi_color := c\<rparr>)"
proof -
  obtain c where c: "(if vi_color vi = 0 \<and> u_docType u \<noteq> ''text'' then getViewIdColor (vi_id vi) else Some (vi_color vi)) = Some c"
    using color_some [OF assms(3)] by (cases "vi_color vi = 0 \<and> u_docType u \<noteq> ''text''") auto
  have n: "map_of (u_cursors u) (vi_id vi) = None" using assms(1,2) by (auto simp: views_ok_def)
  have e: "layer_addView vi u = onUpdateViewCursor (vi_id vi) (addView (vi\<lparr>vi_color := c\<rparr>) u)"
    using c n by (simp add: layer_addView_def Let_def addView_frame)
  have ok: "views_ok (addView (vi\<lparr>vi_color := c\<rparr>) u)"
    unfolding views_ok_def
  proof (intro conjI allI impI)
    show "dom (map_of (u_cursors (addView (vi\<lparr>vi_color := c\<rparr>) u))) \<subseteq> dom (map_of (u_info (addView (vi\<lparr>vi_color := c\<rparr>) u)))"
      using assms(1) by (auto simp: addView_frame views_ok_def obj_put_get)
    show "cursor_marks (addView (vi\<lparr>vi_color := c\<rparr>) u) \<subseteq> owned (u_cursors (addView (vi\<lparr>vi_color := c\<rparr>) u))"
      using assms(1) by (simp add: addView_frame views_ok_def cursor_marks_def)
    fix i d assume d: "map_of (u_cursors (addView (vi\<lparr>vi_color := c\<rparr>) u)) i = Some d"
    then have "fits (u_info u) i d" "i \<noteq> vi_id vi" using assms(1) n by (auto simp: addView_frame views_ok_def)
    then show "fits (u_info (addView (vi\<lparr>vi_color := c\<rparr>) u)) i d" by (simp add: fits_def addView_frame obj_put_get)
  qed
  show "views_ok (layer_addView vi u)" unfolding e by (rule update_cursor_facts(1) [OF ok])
  show "\<exists>c. map_of (u_info (layer_addView vi u)) = (map_of (u_info u))(vi_id vi \<mapsto> vi\<lparr>vi_color := c\<rparr>)"
    unfolding e update_cursor_facts(2) [OF ok] by (auto simp: addView_frame obj_put_get)
qed


lemma layer_removeView_facts:
  assumes "views_ok u"
  shows "views_ok (layer_removeView i u)" "map_of (u_info (layer_removeView i u)) = (map_of (u_info u))(i := None)"
proof -
  define a where "a = (case map_of (u_sels u) i of None \<Rightarrow> u
      | Some s \<Rightarrow> (case vs_selection s of None \<Rightarrow> u | Some k \<Rightarrow> group_remove (SelMark k) u))"
  have sa: "same_cursors u a" by (simp add: a_def split: option.split)
  have a: "views_ok a" "u_info a = u_info u" using same_ok [OF sa assms] sa by (simp_all add: same_cursors_def)
  define b where "b = (case map_of (u_cursors a) i of None \<Rightarrow> a
      | Some c \<Rightarrow> (let w = onUpdateViewCursor i (put_cursor i (c\<lparr>vc_visible := Some False\<rparr>) a)
                    in w\<lparr>u_cursors := obj_del i (u_cursors w)\<rparr>))"
  have b: "u_info b = u_info a" "map_of (u_cursors b) = (map_of (u_cursors a))(i := None)"
    "cursor_marks b \<subseteq> owned (u_cursors b)"
  proof (atomize (full), cases "map_of (u_cursors a) i")
    case None
    then show "u_info b = u_info a \<and> map_of (u_cursors b) = (map_of (u_cursors a))(i := None) \<and>
        cursor_marks b \<subseteq> owned (u_cursors b)"
      using a(1) by (auto simp: b_def views_ok_def)
  next
    case (Some c)
    have "owned (obj_del i (u_cursors a)) = owned (obj_del i (obj_put i (c\<lparr>vc_visible := Some False\<rparr>) (u_cursors a)))"
      by (simp add: owned_def obj_del_get obj_put_get)
    then show "u_info b = u_info a \<and> map_of (u_cursors b) = (map_of (u_cursors a))(i := None) \<and>
        cursor_marks b \<subseteq> owned (u_cursors b)"
      using drop_cursor [OF a(1) Some] Some
      by (simp add: b_def Let_def obj_del_get obj_put_get cursor_marks_def)
  qed
  have e: "layer_removeView i u = removeView i b"
    by (simp add: layer_removeView_def Let_def a_def [symmetric] b_def)
  show "map_of (u_info (layer_removeView i u)) = (map_of (u_info u))(i := None)"
    by (simp add: e removeView_frame a b)
  show "views_ok (layer_removeView i u)"
    unfolding views_ok_def e
  proof (intro conjI allI impI)
    show "dom (map_of (u_cursors (removeView i b))) \<subseteq> dom (map_of (u_info (removeView i b)))"
      using a(1) by (auto simp: removeView_frame b views_ok_def)
    show "cursor_marks (removeView i b) \<subseteq> owned (u_cursors (removeView i b))"
      using b(3) by (simp add: removeView_frame cursor_marks_def)
    fix j c assume "map_of (u_cursors (removeView i b)) j = Some c"
    then have "j \<noteq> i" "map_of (u_cursors a) j = Some c" by (auto simp: removeView_frame b split: if_splits)
    then show "fits (u_info (removeView i b)) j c"
      using a(1) by (auto simp: fits_def removeView_frame b views_ok_def)
  qed
qed

lemma add_new_fold:
  assumes "views_ok u" "\<forall>vi \<in> set vis. 0 \<le> vi_id vi"
  shows "views_ok (fold add_new vis u) \<and>
    dom (map_of (u_info (fold add_new vis u))) = dom (map_of (u_info u)) \<union> vi_id ` set vis \<and>
    map_of (u_info u) \<subseteq>\<^sub>m map_of (u_info (fold add_new vis u))"
  using assms
proof (induction vis arbitrary: u)
  case (Cons vi vis)
  show ?case
  proof (cases "map_of (u_info u) (vi_id vi)")
    case None
    note f = layer_addView_facts [OF Cons.prems(1) None]
    have v: "0 \<le> vi_id vi" "\<forall>vi \<in> set vis. 0 \<le> vi_id vi" using Cons.prems by auto
    obtain c where c: "map_of (u_info (layer_addView vi u)) = (map_of (u_info u))(vi_id vi \<mapsto> vi\<lparr>vi_color := c\<rparr>)"
      using f(2) [OF v(1)] by blast
    have d: "dom (map_of (u_info (layer_addView vi u))) = insert (vi_id vi) (dom (map_of (u_info u)))" by (simp add: c)
    have k: "map_of (u_info u) \<subseteq>\<^sub>m map_of (u_info (layer_addView vi u))" using None by (auto simp: c map_le_def)
    have s: "fold add_new (vi # vis) u = fold add_new vis (layer_addView vi u)" using None by (simp add: add_new_def)
    from Cons.IH [OF f(1) [OF v(1)] v(2)] show ?thesis unfolding s d by (auto intro: map_le_trans [OF k])
  next
    case (Some x)
    then have s: "fold add_new (vi # vis) u = fold add_new vis u" "vi_id vi \<in> dom (map_of (u_info u))"
      by (auto simp: add_new_def)
    show ?thesis unfolding s(1) using Cons.IH [OF Cons.prems(1)] Cons.prems(2) s(2) by auto
  qed
qed simp

lemma remove_fold:
  assumes "views_ok u"
  shows "views_ok (fold (remove_gone keep) is u) \<and>
    map_of (u_info (fold (remove_gone keep) is u)) =
      (\<lambda>i. if i \<in> set is \<and> i \<notin> set keep then None else map_of (u_info u) i)"
  using assms
proof (induction "is" arbitrary: u)
  case (Cons i "is")
  show ?case
  proof (cases "i \<in> set keep")
    case True
    then have s: "fold (remove_gone keep) (i # is) u = fold (remove_gone keep) is u" by (simp add: remove_gone_def)
    show ?thesis unfolding s using Cons.IH [OF Cons.prems] True by auto
  next
    case False
    then have s: "fold (remove_gone keep) (i # is) u = fold (remove_gone keep) is (layer_removeView i u)"
      by (simp add: remove_gone_def)
    note r = layer_removeView_facts [OF Cons.prems, of i]
    show ?thesis unfolding s using Cons.IH [OF r(1)] False by (auto simp: r(2) fun_eq_iff)
  qed
qed simp

lemma int_keys_dom: "set (int_keys m) = dom (map_of m)"
  by (simp add: int_keys_def dom_map_of_conv_image_fst)

lemma update_views_table:
  assumes "views_ok u" "\<forall>vi \<in> set vis. 0 \<le> vi_id vi"
  shows "views_ok (update_views vis u)" "dom (map_of (u_info (update_views vis u))) = vi_id ` set vis"
    and "\<And>i. i \<in> dom (map_of (u_info u)) \<Longrightarrow> i \<in> vi_id ` set vis \<Longrightarrow>
           map_of (u_info (update_views vis u)) i = map_of (u_info u) i"
proof -
  let ?a = "fold add_new vis u"
  note a = add_new_fold [OF assms]
  then have ok: "views_ok ?a" by blast
  note r = remove_fold [OF ok, of "map vi_id vis" "int_keys (u_info ?a)"]
  have e: "update_views vis u = fold (remove_gone (map vi_id vis)) (int_keys (u_info ?a)) ?a"
    by (simp add: update_views_def Let_def)
  show "views_ok (update_views vis u)" unfolding e using r by blast
  have m: "map_of (u_info (update_views vis u)) = (\<lambda>i. if i \<in> vi_id ` set vis then map_of (u_info ?a) i else None)"
    unfolding e using r by (auto simp: int_keys_dom fun_eq_iff)
  show "dom (map_of (u_info (update_views vis u))) = vi_id ` set vis"
  proof -
    have "dom (\<lambda>i. if i \<in> A then f i else None) = A \<inter> dom f" for A and f :: "int \<Rightarrow> vinfo option"
      by (auto split: if_splits)
    then show ?thesis unfolding m using a by auto
  qed
  show "map_of (u_info (update_views vis u)) i = map_of (u_info u) i"
    if "i \<in> dom (map_of (u_info u))" "i \<in> vi_id ` set vis" for i
    unfolding m using a that by (auto simp: map_le_def)
qed

lemma removeAll_ok: "views_ok u \<Longrightarrow> views_ok (fold layer_removeView is u)"
  by (induction "is" arbitrary: u) (simp_all add: layer_removeView_facts)

lemma viewinfo_ok:
  assumes "views_ok u"
  shows "views_ok (onViewInfoMsg m u)"
proof -
  have fired: "views_ok (on_layer f u)" for f using same_ok [OF same_layer(1) assms] .
  have thrown: "views_ok (ucall t w)" if "views_ok w" for t w using same_ok [OF same_layer(3) that] .
  have "views_ok (update_views vis (on_layer f u))" if "read_viewinfo v = Some vis" for f vis v
    by (rule update_views_table(1) [OF fired]) (auto intro: read_viewinfo_id [OF that])
  then show ?thesis using fired thrown assms
    by (simp add: onViewInfoMsg_def Let_def split: option.split)
qed

lemma step_ok: "ustep u w \<Longrightarrow> views_ok u \<Longrightarrow> views_ok w"
proof (induction rule: ustep.induct)
  case (Part u p)
  have "keeps u (updateAllViewCursors (on_layer f u))" for f
    by (rule keeps_trans [OF keeps_same keeps_updates]) simp
  then show ?case using Part by (simp add: keeps_def)
next
  case (Lost u)
  then show ?case by (simp add: removeAllViews_def removeAll_ok)
next
  case (Info u m)
  then show ?case by (rule viewinfo_ok)
next
  case (Cursor u m)
  then show ?case using keeps_json [of u view_cursor_moved] keeps_moved by (simp add: onInvalidateViewCursorMsg_def keeps_def)
next
  case (Shown u m)
  then show ?case using keeps_json [of u view_cursor_shown] keeps_shown by (simp add: onViewCursorVisibleMsg_def keeps_def)
next
  case (Cell u m)
  then show ?case using keeps_json [of u cell_cursor_moved] keeps_same [OF same_message(1)]
    by (simp add: onCellViewCursorMsg_def keeps_def)
next
  case (Graphic u m)
  then show ?case using keeps_json [of u graphic_selected] keeps_same [OF same_message(2)]
    by (simp add: onGraphicViewSelectionMsg_def keeps_def)
next
  case (Text u m)
  then show ?case using keeps_json [of u text_selected] keeps_same [OF same_message(3)]
    by (simp add: onTextViewSelectionMsg_def keeps_def)
next
  case (Own u m)
  then show ?case using keeps_json [of u own_cursor_moved] keeps_own_moved by (simp add: onInvalidateCursorMsg_def keeps_def)
qed (use keeps_visible keeps_zoom keeps_following keeps_editor in \<open>simp_all add: keeps_def\<close>)

lemma reaches_ok: "reaches u w \<Longrightarrow> views_ok u \<Longrightarrow> views_ok w"
  by (induction rule: reaches.induct) (auto intro: step_ok)


section \<open>Properties\<close>

text \<open>A text document with nobody else in it, and two messages: a view arrives, its cursor moves.\<close>

definition demo_users :: ulayer where
  "demo_users = \<lparr>u_layer = demo_layer\<lparr>l_docType := ''text''\<rparr>, u_info = [], u_byName = [], u_annots = [], u_cursors = [],
     u_cells = [], u_graphics = [], u_sels = [], u_group = [], u_next = 0, u_visibleCursor = llb_createDefault,
     u_markerPos = None, u_lastCursorPos = ll 0 0, u_isFocused = True, u_isZooming = False, u_mapFocused = False,
     u_mapCursorVisible = False, u_handleDragged = False, u_followThis = Num (- 1), u_editorId = Num (- 1),
     u_followUser = False, u_followEditor = False, u_lastActionByUser = False, u_hyperlink = JNull\<rparr>"

definition quoted :: "string \<Rightarrow> string" where
  "quoted s = map (\<lambda>c. if c = CHR ''~'' then CHR 0x22 else c) s"

definition demo_info :: string where
  "demo_info = quoted ''viewinfo: [{~id~:1,~username~:~B~,~color~:255,~readonly~:~0~}]''"

definition demo_moved :: string where
  "demo_moved = quoted ''invalidateviewcursor: {~viewId~:~1~,~rectangle~:~100, 100, 0, 200~,~part~:~0~}''"


text \<open>What leaving does not touch.\<close>

fun is_frame :: "vmark \<Rightarrow> bool" where
  "is_frame (CellMark n) = True"
| "is_frame (GraphicMark n) = True"
| "is_frame (CursorMark n) = False"
| "is_frame (SelMark n) = False"

definition same_frames :: "ulayer \<Rightarrow> ulayer \<Rightarrow> bool" where
  "same_frames u w \<longleftrightarrow>
     u_cells w = u_cells u \<and> u_graphics w = u_graphics u \<and> filter is_frame (u_group w) = filter is_frame (u_group u)"

lemma frames_refl [simp]: "same_frames u u"
  by (simp add: same_frames_def)

lemma frames_trans: "same_frames u v \<Longrightarrow> same_frames v w \<Longrightarrow> same_frames u w"
  by (simp add: same_frames_def)

lemma filter_removeAll: "\<not> P x \<Longrightarrow> filter P (removeAll x xs) = filter P xs"
  by (induction xs) auto

lemma frames_ops [simp]:
  "same_frames u (group_add (CursorMark n) w) = same_frames u w" "same_frames u (group_remove (CursorMark n) w) = same_frames u w"
  "same_frames u (group_remove (SelMark n) w) = same_frames u w" "same_frames u (ucall t w) = same_frames u w"
  "same_frames u (ufire t fs w) = same_frames u w" "same_frames u (put_cursor i c w) = same_frames u w"
  "same_frames u (w\<lparr>u_next := k\<rparr>) = same_frames u w" "same_frames u (w\<lparr>u_cursors := cs\<rparr>) = same_frames u w"
  "same_frames u (w\<lparr>u_byName := x, u_info := y\<rparr>) = same_frames u w"
  by (auto simp: same_frames_def group_add_def group_remove_def put_cursor_def filter_removeAll)

lemma frames_update: "same_frames u (onUpdateViewCursor i u)"
  by (auto simp: onUpdateViewCursor_def draw_cursor_def show_header_def Let_def split: option.split)

lemma frames_left: "same_frames u (layer_removeView i u)"
proof -
  define a where "a = (case map_of (u_sels u) i of None \<Rightarrow> u
      | Some s \<Rightarrow> (case vs_selection s of None \<Rightarrow> u | Some k \<Rightarrow> group_remove (SelMark k) u))"
  have a: "same_frames u a" by (simp add: a_def split: option.split)
  have b: "same_frames a (onUpdateViewCursor i (put_cursor i c a))" for c
    by (rule frames_trans [OF _ frames_update]) simp
  have c: "same_frames u (onUpdateViewCursor i (put_cursor i c a))" for c by (rule frames_trans [OF a b])
  have r: "same_frames u (removeView i w) = same_frames u w" for w
    by (simp add: removeView_def Let_def split: option.split)
  show ?thesis unfolding layer_removeView_def Let_def a_def [symmetric] r by (simp add: a c split: option.split)
qed

lemma fresh_ok: "u_cursors u = [] \<Longrightarrow> u_group u = [] \<Longrightarrow> views_ok u"
  by (simp add: views_ok_def cursor_marks_def)

definition demo_table :: jsval where
  "demo_table = JArr [JObj [(''id'', JInt 1), (''username'', JStr ''B''), (''color'', JInt 255), (''readonly'', JStr ''0'')]]"

lemma demo_info_table: "json_parse (drop (length ''viewinfo: '') demo_info) = Some demo_table"
  by code_simp

lemma demo_drawn: "CursorMark 0 \<in> set (u_group (onInvalidateViewCursorMsg demo_moved (onViewInfoMsg demo_info demo_users)))"
proof -
  have "u_group (onInvalidateViewCursorMsg demo_moved (onViewInfoMsg demo_info demo_users)) = [CursorMark 0]" by code_simp
  then show ?thesis by simp
qed



text \<open>
  after a \<open>viewinfo\<close> message the table holds exactly the views of the message, those that were there
  before as they were, and nobody else has a cursor. This is so in every run, and a message that repeats a
  view or lists them in another order changes nothing in that.
\<close>

theorem viewinfo_sets_table:
  assumes "u_cursors u = []" "u_group u = []" "reaches u w"
    and "json_parse (drop (length ''viewinfo: '') m) = Some v" "read_viewinfo v = Some vis"
  shows "dom (obj_get (u_info (onViewInfoMsg m w))) = vi_id ` set vis \<and>
    dom (obj_get (u_cursors (onViewInfoMsg m w))) \<subseteq> vi_id ` set vis \<and>
    obj_get (u_info w) |` (vi_id ` set vis) \<subseteq>\<^sub>m obj_get (u_info (onViewInfoMsg m w))"
proof -
  have ok: "views_ok w" by (rule reaches_ok [OF assms(3) fresh_ok [OF assms(1,2)]])
  obtain x where x: "onViewInfoMsg m w = update_views vis x" "same_cursors w x"
    using assms(4,5) by (simp add: onViewInfoMsg_def Let_def)
  have ok': "views_ok x" using same_ok [OF x(2) ok] .
  have i: "u_info x = u_info w" using x(2) by (simp add: same_cursors_def)
  note t = update_views_table [OF ok', of vis]
  have p: "\<forall>vi \<in> set vis. 0 \<le> vi_id vi" using read_viewinfo_id [OF assms(5)] by blast
  have "dom (map_of (u_cursors (update_views vis x))) \<subseteq> vi_id ` set vis"
    using t(1,2) [OF p] by (auto simp: views_ok_def)
  moreover have "map_of (u_info w) |` (vi_id ` set vis) \<subseteq>\<^sub>m map_of (u_info (update_views vis x))"
  proof (unfold map_le_def, intro ballI)
    fix a assume "a \<in> dom (map_of (u_info w) |` (vi_id ` set vis))"
    then have "a \<in> dom (map_of (u_info x))" "a \<in> vi_id ` set vis" by (auto simp: restrict_map_def i split: if_splits)
    then show "(map_of (u_info w) |` (vi_id ` set vis)) a = map_of (u_info (update_views vis x)) a"
      using t(3) [OF p] i by (simp add: restrict_map_def)
  qed
  ultimately show ?thesis using t(2) [OF p] by (simp add: x(1))
qed

lemma viewinfo_sets_table_witness:
  "\<exists>vis :: vinfo list. vis \<noteq> [] \<and> dom (obj_get (u_info (onViewInfoMsg demo_info demo_users))) = vi_id ` set vis \<and>
    dom (obj_get (u_cursors (onViewInfoMsg demo_info demo_users))) \<subseteq> vi_id ` set vis \<and>
    obj_get (u_info demo_users) |` (vi_id ` set vis) \<subseteq>\<^sub>m obj_get (u_info (onViewInfoMsg demo_info demo_users))"
proof -
  let ?vi = "\<lparr>vi_id = 1, vi_userid = JUndef, vi_username = ''B'', vi_extra = JUndef, vi_color = 255, vi_readonly = JStr ''0''\<rparr>"
  have r: "read_viewinfo demo_table = Some [?vi]"
    by (simp add: demo_table_def read_viewinfo_def read_vinfo_def js_field_def)
  have s: "u_cursors demo_users = []" "u_group demo_users = []" by (simp_all add: demo_users_def)
  note t = viewinfo_sets_table [OF s Stay demo_info_table r]
  show ?thesis by (rule exI [of _ "[?vi]"], rule conjI [OF _ t], simp)
qed

text \<open>
  leaving takes the text cursor and the text selection away, nothing else: the cell cursor and the
  frame of the graphic selection of a user who left stay drawn, and their entries stay too.
\<close>

theorem left_view_keeps_frames:
  "u_cells (layer_removeView i u) = u_cells u \<and> u_graphics (layer_removeView i u) = u_graphics u \<and>
   filter is_frame (u_group (layer_removeView i u)) = filter is_frame (u_group u)"
  using frames_left [of u i] by (simp add: same_frames_def)

text \<open>
  following a user in a spreadsheet scrolls up and down only. When the cell of the followed user is
  out of the view, whichever way, the request to scroll keeps the column the view is at: \<open>goToCellViewCursor\<close>
  adds the horizontal distance to the latitude.
\<close>

theorem follow_cell_keeps_column:
  assumes "obj_get (u_cells u) i = Some c" "\<not> isEmptyRectangle (Some (vb_bounds c))"
    and "map_getBounds (u_view u) = Some mb" "\<not> llb_contains mb (vb_bounds c)" "cell_scroll mb (vb_bounds c) \<noteq> (0, 0)"
    and "obj_get (u_info u) i = Some vi" "vb_marker c = Some x"
  shows "\<exists>y. u_log (goToCellViewCursor (Num i) u) = u_log u @
    [Fired ''scrollto'' (JObj [(''x'', JInt (fst (scroll_target (u_view u) (llb_getCenter mb)))), (''y'', JInt y)]),
     Called ''bindPopup'' []]"
proof -
  let ?m = "llb_getCenter mb"
  have "fst (cell_scroll mb (vb_bounds c)) \<noteq> 0 \<or> snd (cell_scroll mb (vb_bounds c)) \<noteq> 0"
    using assms(5) by (auto simp: prod_eq_iff)
  moreover have "fst (scroll_target (u_view u) (?m\<lparr>lat := l\<rparr>)) = fst (scroll_target (u_view u) ?m)" for l
    by (simp add: scroll_target_def Let_def project_def latLngToPoint_def crs_simple_def transform_def
        transform_in_def lonlat_project_def new_point_def)
  ultimately show ?thesis using assms
    by (simp add: goToCellViewCursor_def Let_def scrollto_def ufire_def ucall_def on_layer_def lemit_def lcall_def
        on_grid_def emit_def)
qed

lemma follow_cell_keeps_column_witness:
  "\<exists>u y mb. map_getBounds (u_view u) = Some mb \<and> u_log (goToCellViewCursor (Num 1) u) = u_log u @
    [Fired ''scrollto'' (JObj [(''x'', JInt (fst (scroll_target (u_view u) (llb_getCenter mb)))), (''y'', JInt y)]),
     Called ''bindPopup'' []]"
proof -
  let ?b = "new_llbounds (ll (- 20) 1000) (ll (- 10) 1010)"
  let ?vi = "\<lparr>vi_id = 1, vi_userid = JUndef, vi_username = ''B'', vi_extra = JUndef, vi_color = 255, vi_readonly = JStr ''0''\<rparr>"
  let ?u = "demo_users\<lparr>u_info := [(1, ?vi)], u_cells := [(1, \<lparr>vb_bounds = ?b, vb_part = Num 0,
      vb_marker = Some \<lparr>x_id = 0, x_bounds = ?b, x_color = ''#0000ff'', x_name = ''B''\<rparr>\<rparr>)]\<rparr>"
  have "map_option (\<lambda>b. getEast b < 1000) (map_getBounds demo_view) = Some True" by code_simp
  then obtain mb where mb: "map_getBounds demo_view = Some mb" "getEast mb < 1000" by auto
  have v: "u_view ?u = demo_view" by (simp add: demo_users_def demo_layer_def demo_grid_def)
  have "\<exists>y. u_log (goToCellViewCursor (Num 1) ?u) = u_log ?u @
    [Fired ''scrollto'' (JObj [(''x'', JInt (fst (scroll_target (u_view ?u) (llb_getCenter mb)))), (''y'', JInt y)]),
     Called ''bindPopup'' []]"
  proof (rule follow_cell_keeps_column [where c = "\<lparr>vb_bounds = ?b, vb_part = Num 0,
      vb_marker = Some \<lparr>x_id = 0, x_bounds = ?b, x_color = ''#0000ff'', x_name = ''B''\<rparr>\<rparr>" and vi = ?vi])
    show "map_getBounds (u_view ?u) = Some mb" using mb(1) v by simp
    show "cell_scroll mb (vb_bounds \<lparr>vb_bounds = ?b, vb_part = Num 0,
        vb_marker = Some \<lparr>x_id = 0, x_bounds = ?b, x_color = ''#0000ff'', x_name = ''B''\<rparr>\<rparr>) \<noteq> (0, 0)"
      using mb(2) by (simp add: cell_scroll_def llb_defs getEast_def getWest_def)
  qed (use mb(2) in \<open>simp_all add: isEmptyRectangle_def is_zero_def latlng_equals_def llb_defs llb_contains_def getEast_def\<close>)
  with mb(1) v show ?thesis by (intro exI [of _ ?u]) auto
qed

end
