(* ===== verification/HeaderData.thy ===== *)
theory HeaderData
  imports Prelude "HOL-Library.Sublist"
begin

text \<open>
  The positions of the row or column headers of a spreadsheet (\<open>L.Control.Header.DataImpl\<close> in
  \<open>loleaflet/src/control/Control.Header.js\<close>). The server describes runs of headers of one size;
  the data holds one entry for each run, finds the run of a header by binary search, and is
  iterated over with a current position. Positions and sizes are stored in twips and handed out
  in pixels.
\<close>

section \<open>State and lookup\<close>

record hentry =
  e_pos :: int                     \<comment> \<open>end of the first header of the run\<close>
  e_size :: int

record dentry =
  n_index :: int
  n_pos :: int
  n_size :: int

record hdata =
  d_conv :: "(int \<Rightarrow> int) option"  \<comment> \<open>\<open>converter\<close>, twips to pixels\<close>
  d_index :: "int option"          \<comment> \<open>\<open>_currentIndex\<close>, \<open>_currentRange\<close>: \<open>None\<close> is undefined\<close>
  d_range :: "int option"
  d_map :: "(int, hentry) obj"
  d_indexes :: "int list"
  d_end :: int
  d_skip :: bool                   \<comment> \<open>\<open>_skipZeroSize\<close>\<close>

definition new_hdata :: hdata where
  "new_hdata = \<lparr>d_conv = None, d_index = None, d_range = None, d_map = [], d_indexes = [], d_end = -1, d_skip = True\<rparr>"

text \<open>The loop of \<open>_binaryIndexOf\<close> and its two exits. \<open>None\<close> is undefined.\<close>

definition search_miss :: "int \<Rightarrow> int \<Rightarrow> int option \<Rightarrow> int option" where
  "search_miss lo hi cur =
     (case cur of None \<Rightarrow> None | Some c \<Rightarrow> if c > hi then Some (c - 1) else if c < lo then Some c else None)"

function search_loop :: "int list \<Rightarrow> int \<Rightarrow> int \<Rightarrow> int \<Rightarrow> int option \<Rightarrow> int option" where
  "search_loop xs x lo hi cur =
     (if lo \<le> hi then
        (let c = (lo + hi) div 2; e = xs ! nat c
         in if e < x then search_loop xs x (c + 1) hi (Some c)
            else if e > x then search_loop xs x lo (c - 1) (Some c)
            else Some c)
      else search_miss lo hi cur)"
  by pat_completeness auto
termination
  by (relation "measure (\<lambda>(xs, x, lo, hi, cur). nat (hi - lo + 1))") (auto simp: Let_def)

declare search_loop.simps [simp del]

definition binaryIndexOf :: "int list \<Rightarrow> int \<Rightarrow> int option" where
  "binaryIndexOf xs x = search_loop xs x 0 (int (length xs) - 1) None"

definition firstLessOrEqual :: "int \<Rightarrow> hdata \<Rightarrow> int option" where
  "firstLessOrEqual i d = binaryIndexOf (d_indexes d) i"

definition data_twipsToPixels :: "hdata \<Rightarrow> int \<Rightarrow> int" where
  "data_twipsToPixels d t = (case d_conv d of None \<Rightarrow> 0 | Some f \<Rightarrow> f t)"

definition run_at :: "hdata \<Rightarrow> int \<Rightarrow> int option" where
  "run_at d r = (if 0 \<le> r \<and> r < int (length (d_indexes d)) then Some (d_indexes d ! nat r) else None)"

text \<open>\<open>_computeEntry\<close>; \<open>None\<close> is the exception when there is no entry.\<close>

definition computeEntry :: "int option \<Rightarrow> int \<Rightarrow> hdata \<Rightarrow> dentry option" where
  "computeEntry start i d =
     (case start of
        None \<Rightarrow> None
      | Some s \<Rightarrow>
          (case obj_get (d_map d) s of
             None \<Rightarrow> None
           | Some e \<Rightarrow>
               Some \<lparr>n_index = i, n_pos = data_twipsToPixels d (e_pos e + (i - s) * e_size e),
                     n_size = data_twipsToPixels d (e_size e)\<rparr>))"

text \<open>\<open>_get(index, setCurrentIndex)\<close>: the outer \<open>None\<close> is an exception, the inner one \<open>null\<close>.\<close>

definition data_get_at :: "bool \<Rightarrow> int \<Rightarrow> hdata \<Rightarrow> (dentry option \<times> hdata) option" where
  "data_get_at setCurrent i d =
     (if i < 1 \<or> i > d_end d then Some (None, d)
      else
        case firstLessOrEqual i d of
          None \<Rightarrow> Some (None, d)
        | Some r \<Rightarrow>
            (let d' = (if setCurrent then d\<lparr>d_range := Some r, d_index := Some i\<rparr> else d)
             in map_option (\<lambda>e. (Some e, d')) (computeEntry (run_at d r) i d)))"

definition data_get :: "int \<Rightarrow> hdata \<Rightarrow> dentry option option" where
  "data_get i d = map_option fst (data_get_at False i d)"

definition data_getAt :: "int \<Rightarrow> hdata \<Rightarrow> (dentry option \<times> hdata) option" where
  "data_getAt i d = data_get_at True i d"

definition pushBack :: "int \<Rightarrow> hentry \<Rightarrow> hdata \<Rightarrow> hdata" where
  "pushBack i v d =
     (if i \<le> d_end d then d
      else d\<lparr>d_map := obj_put i v (d_map d), d_indexes := d_indexes d @ [i], d_end := i\<rparr>)"

text \<open>The size of the run that starts at an index of \<open>_indexes\<close>; \<open>pushBack\<close> stores both together.\<close>

definition run_size :: "hdata \<Rightarrow> int \<Rightarrow> int" where
  "run_size d s = (case obj_get (d_map d) s of None \<Rightarrow> 0 | Some e \<Rightarrow> e_size e)"

text \<open>\<open>None\<close> is the exception when there is no run.\<close>

definition isZeroSize :: "int \<Rightarrow> hdata \<Rightarrow> bool option" where
  "isZeroSize i d =
     (if \<not> (i > 0 \<and> i < d_end d) then Some True
      else Option.bind (Option.bind (firstLessOrEqual i d) (run_at d))
             (\<lambda>s. map_option (\<lambda>e. e_size e = 0) (obj_get (d_map d) s)))"

definition data_getLength :: "hdata \<Rightarrow> int" where
  "data_getLength d = d_end d"

definition data_isEmpty :: "hdata \<Rightarrow> bool" where
  "data_isEmpty d \<longleftrightarrow> d_indexes d = []"

section \<open>Iteration\<close>

definition at_end :: "hdata \<Rightarrow> hdata" where
  "at_end d = d\<lparr>d_index := None, d_range := None, d_skip := False\<rparr>"

text \<open>The first range from \<open>r\<close> on that has a size.\<close>

definition sized_from :: "hdata \<Rightarrow> int \<Rightarrow> int option" where
  "sized_from d r = List.find (\<lambda>k. run_size d (d_indexes d ! nat k) > 0) [r..int (length (d_indexes d)) - 1]"

definition data_getNext :: "hdata \<Rightarrow> dentry option \<times> hdata" where
  "data_getNext d =
     (case (d_index d, d_range d) of
        (Some i, Some r) \<Rightarrow>
          (let i = i + 1
           in if i > d_end d then (None, at_end d)
              else if run_at d (r + 1) = Some i then
                (if d_skip d then
                   (case sized_from d (r + 1) of
                      None \<Rightarrow> (None, at_end d)
                    | Some k \<Rightarrow>
                        (let i = d_indexes d ! nat k; d = d\<lparr>d_index := Some i, d_range := Some k\<rparr>
                         in (computeEntry (run_at d k) i d, d)))
                 else (let d = d\<lparr>d_index := Some i, d_range := Some (r + 1)\<rparr> in (computeEntry (run_at d (r + 1)) i d, d)))
              else (let d = d\<lparr>d_index := Some i\<rparr> in (computeEntry (run_at d r) i d, d)))
      | _ \<Rightarrow> (None, d))"

definition data_getFirst :: "hdata \<Rightarrow> dentry option \<times> hdata" where
  "data_getFirst d = data_getNext (d\<lparr>d_range := Some 0, d_index := run_at d 0\<rparr>)"


lemma next_some:
  assumes "data_getNext d = (Some e, d')"
  obtains i r i' r' where "d_index d = Some i" "d_range d = Some r" "d_index d' = Some i'" "d_range d' = Some r'"
    "d' = d\<lparr>d_index := Some i', d_range := Some r'\<rparr>"
    "r' = r \<and> i' = i + 1 \<and> i' \<le> d_end d \<or> r < r' \<and> r' < int (length (d_indexes d))"
proof -
  obtain i r where ir: "d_index d = Some i" "d_range d = Some r"
    using assms by (auto simp: data_getNext_def split: option.splits)
  have "\<exists>i' r'. d' = d\<lparr>d_index := Some i', d_range := Some r'\<rparr> \<and>
    (r' = r \<and> i' = i + 1 \<and> i' \<le> d_end d \<or> r < r' \<and> r' < int (length (d_indexes d)))"
  proof (cases "run_at d (r + 1) = Some (i + 1)")
    case True
    show ?thesis
    proof (cases "d_skip d")
      case skip: True
      then obtain k where k: "sized_from d (r + 1) = Some k"
        using assms True ir by (auto simp: data_getNext_def Let_def split: if_splits option.splits)
      then have "r < k" "k < int (length (d_indexes d))"
          by (auto simp: sized_from_def find_Some_iff)
      then show ?thesis using assms True ir skip k
        by (auto simp: data_getNext_def Let_def split: if_splits)
    next
      case False
      have "r + 1 < int (length (d_indexes d))" using True by (auto simp: run_at_def split: if_splits)
      then show ?thesis using assms True ir False
        by (intro exI [of _ "i + 1"] exI [of _ "r + 1"]) (auto simp: data_getNext_def Let_def split: if_splits)
    qed
  next
    case False
    then show ?thesis using assms ir 
      by (intro exI [of _ "i + 1"] exI [of _ r]) (auto simp: data_getNext_def Let_def split: if_splits)
  qed
  then show ?thesis using that ir by auto
qed

abbreviation range_left :: "hdata \<Rightarrow> nat" where
  "range_left d \<equiv> nat (int (length (d_indexes d)) - the (d_range d))"

abbreviation index_left :: "hdata \<Rightarrow> nat" where
  "index_left d \<equiv> nat (d_end d - the (d_index d))"

text \<open>\<open>entry = data.getFirst(); while (entry) { ...; entry = data.getNext(); }\<close>. The body returns whether it
  breaks off.\<close>

function data_loop :: "(dentry \<Rightarrow> 's \<Rightarrow> bool \<times> 's) \<Rightarrow> dentry option \<Rightarrow> hdata \<Rightarrow> 's \<Rightarrow> hdata \<times> 's" where
  "data_loop f None d s = (d, s)"
| "data_loop f (Some e) d s =
     (case f e s of
        (True, s) \<Rightarrow> (d, s)
      | (False, s) \<Rightarrow> (case data_getNext d of (e, d) \<Rightarrow> data_loop f e d s))"
  by pat_completeness auto

termination
proof (relation "measures [\<lambda>(f, e, d, s). case e of None \<Rightarrow> 0 | Some e \<Rightarrow> Suc (range_left d),
    \<lambda>(f, e, d, s). case e of None \<Rightarrow> 0 | Some e \<Rightarrow> index_left d]", goal_cases)
  case (2 f e d s x s' e' d')

  show ?case
  proof (cases e')
    case (Some a)
    then have "data_getNext d = (Some a, d')" using 2 by simp
    then obtain i r i' r' where "d_index d = Some i" "d_range d = Some r" "d_index d' = Some i'" "d_range d' = Some r'"
      "d' = d\<lparr>d_index := Some i', d_range := Some r'\<rparr>"
      "r' = r \<and> i' = i + 1 \<and> i' \<le> d_end d \<or> r < r' \<and> r' < int (length (d_indexes d))" by (rule next_some)
    with Some show ?thesis by (auto simp: nat_less_eq_zless)
  qed simp
qed simp

definition data_each :: "(dentry \<Rightarrow> 's \<Rightarrow> bool \<times> 's) \<Rightarrow> hdata \<Rightarrow> 's \<Rightarrow> hdata \<times> 's" where
  "data_each f d s = (case data_getFirst d of (e, d) \<Rightarrow> data_loop f e d s)"

section \<open>The binary search\<close>

lemma search_spec:
  assumes "sorted_wrt (<) xs" "0 \<le> lo" "hi < int (length xs)" "lo \<le> hi + 1"
    and "\<And>k. 0 \<le> k \<Longrightarrow> k < lo \<Longrightarrow> xs ! nat k < x" "\<And>k. hi < k \<Longrightarrow> k < int (length xs) \<Longrightarrow> x < xs ! nat k"
    and "case cur of None \<Rightarrow> lo \<le> hi | Some c \<Rightarrow> c = lo - 1 \<or> c = hi + 1"
  shows "\<exists>r. search_loop xs x lo hi cur = Some r \<and> -1 \<le> r \<and> r < int (length xs) \<and>
     (\<forall>k. 0 \<le> k \<and> k \<le> r \<longrightarrow> xs ! nat k \<le> x) \<and> (\<forall>k. r < k \<and> k < int (length xs) \<longrightarrow> x < xs ! nat k)"
  using assms
proof (induction xs x lo hi cur rule: search_loop.induct)
  case (1 xs x lo hi cur)
  show ?case
  proof (cases "lo \<le> hi")
    case True
    define c where "c = (lo + hi) div 2"
    have c: "lo \<le> c" "c \<le> hi" using True by (auto simp: c_def)
    have mono: "xs ! nat a < xs ! nat b" if "0 \<le> a" "a < b" "b < int (length xs)" for a b
      using sorted_wrt_nth_less [OF 1(3)] that by simp
    consider "xs ! nat c < x" | "xs ! nat c > x" | "xs ! nat c = x" by linarith
    then show ?thesis
    proof cases
      case 1
      have s: "search_loop xs x lo hi cur = search_loop xs x (c + 1) hi (Some c)"
        using True 1 by (subst search_loop.simps) (simp add: c_def Let_def)
      have "xs ! nat k < x" if "0 \<le> k" "k < c + 1" for k
        using mono [of k c] that 1 c \<open>hi < int (length xs)\<close> by (cases "k = c") auto
      then show ?thesis unfolding s using "1.IH"(1) [OF True c_def refl] 1 c "1.prems" by simp
    next
      case 2
      have s: "search_loop xs x lo hi cur = search_loop xs x lo (c - 1) (Some c)"
        using True 2 by (subst search_loop.simps) (simp add: c_def Let_def)
      have "x < xs ! nat k" if "c - 1 < k" "k < int (length xs)" for k
        using mono [of c k] that 2 c \<open>0 \<le> lo\<close> by (cases "k = c") auto
      then show ?thesis unfolding s using "1.IH"(2) [OF True c_def refl] 2 c "1.prems" by simp
    next
      case 3
      have "search_loop xs x lo hi cur = Some c"
        using True 3 by (subst search_loop.simps) (simp add: c_def Let_def)
      moreover have "xs ! nat k \<le> x" if "0 \<le> k" "k \<le> c" for k
        using mono [of k c] that 3 c \<open>hi < int (length xs)\<close> by (cases "k = c") auto
      moreover have "x < xs ! nat k" if "c < k" "k < int (length xs)" for k
        using mono [of c k] that 3 c \<open>0 \<le> lo\<close> by auto
      ultimately show ?thesis using c "1.prems" by (intro exI [of _ c]) auto
    qed
  next
    case False
    then have "lo = hi + 1" using "1.prems" by simp
    moreover obtain c where "cur = Some c" "c = lo - 1 \<or> c = hi + 1" using "1.prems"(7) False by (cases cur) auto
    ultimately have "search_loop xs x lo hi cur = Some hi"
      using False by (subst search_loop.simps) (auto simp: search_miss_def)
    then show ?thesis using "1.prems" \<open>lo = hi + 1\<close> by (intro exI [of _ hi]) (auto intro: less_imp_le)
  qed
qed


text \<open>What the data satisfies that \<open>pushBack\<close> builds: indexes ascend, each has its entry.\<close>

definition data_ok :: "hdata \<Rightarrow> bool" where
  "data_ok d \<longleftrightarrow> sorted_wrt (<) (d_indexes d) \<and> (\<forall>s \<in> set (d_indexes d). obj_get (d_map d) s \<noteq> None \<and> s \<le> d_end d)"

lemma data_ok_new: "data_ok new_hdata"
  by (simp add: data_ok_def new_hdata_def)

lemma data_ok_push: "data_ok d \<Longrightarrow> data_ok (pushBack i v d)"
  by (force simp: data_ok_def pushBack_def sorted_wrt_append obj_put_get)

text \<open>The run a header is in, by its number.\<close>

definition in_run :: "hdata \<Rightarrow> int \<Rightarrow> int \<Rightarrow> bool" where
  "in_run d r j \<longleftrightarrow> 0 \<le> r \<and> r < int (length (d_indexes d)) \<and> d_indexes d ! nat r \<le> j \<and>
     (r + 1 < int (length (d_indexes d)) \<longrightarrow> j < d_indexes d ! nat (r + 1))"

lemma index_mono:
  "data_ok d \<Longrightarrow> 0 \<le> a \<Longrightarrow> a < b \<Longrightarrow> b < int (length (d_indexes d)) \<Longrightarrow> d_indexes d ! nat a < d_indexes d ! nat b"
  unfolding data_ok_def by (rule sorted_wrt_nth_less) auto

lemma index_mono_le:
  "data_ok d \<Longrightarrow> 0 \<le> a \<Longrightarrow> a \<le> b \<Longrightarrow> b < int (length (d_indexes d)) \<Longrightarrow> d_indexes d ! nat a \<le> d_indexes d ! nat b"
  using index_mono [of d a b] by (cases "a = b") auto

lemma search_found:
  assumes "data_ok d" "d_indexes d \<noteq> []"
  shows "\<exists>q. firstLessOrEqual j d = Some q \<and> -1 \<le> q \<and> q < int (length (d_indexes d)) \<and>
     (\<forall>k. 0 \<le> k \<and> k \<le> q \<longrightarrow> d_indexes d ! nat k \<le> j) \<and>
     (\<forall>k. q < k \<and> k < int (length (d_indexes d)) \<longrightarrow> j < d_indexes d ! nat k)"
proof -
  have "1 \<le> int (length (d_indexes d))" using assms(2) by (cases "d_indexes d") auto
  then show ?thesis
    unfolding firstLessOrEqual_def binaryIndexOf_def
    by (intro search_spec) (use assms(1) in \<open>auto simp: data_ok_def\<close>)
qed

lemma in_run_found:
  assumes "data_ok d" "in_run d r j"
  shows "firstLessOrEqual j d = Some r"
proof -
  let ?xs = "d_indexes d"
  have "?xs \<noteq> []" using assms(2) by (auto simp: in_run_def)
  obtain q where q: "firstLessOrEqual j d = Some q" "-1 \<le> q" "q < int (length ?xs)"
    "\<forall>k. 0 \<le> k \<and> k \<le> q \<longrightarrow> ?xs ! nat k \<le> j" "\<forall>k. q < k \<and> k < int (length ?xs) \<longrightarrow> j < ?xs ! nat k"
    using search_found [OF assms(1) \<open>?xs \<noteq> []\<close>, of j] by blast
  have "\<not> r < q"
  proof
    assume "r < q"
    then have "j < ?xs ! nat (r + 1)" "?xs ! nat (r + 1) \<le> j" using assms(2) q(2,3,4) by (auto simp: in_run_def)
    then show False by simp
  qed
  moreover have "\<not> q < r" using q(5) assms(2) by (force simp: in_run_def)
  ultimately show ?thesis using q(1) by simp
qed

lemma run_exists:
  assumes "data_ok d" "d_indexes d \<noteq> []" "hd (d_indexes d) \<le> j"
  shows "\<exists>r. in_run d r j"
proof -
  let ?xs = "d_indexes d"
  obtain q where q: "-1 \<le> q" "q < int (length ?xs)"
    "\<forall>k. 0 \<le> k \<and> k \<le> q \<longrightarrow> ?xs ! nat k \<le> j" "\<forall>k. q < k \<and> k < int (length ?xs) \<longrightarrow> j < ?xs ! nat k"
    using search_found [OF assms(1,2), of j] by blast
  have "q \<noteq> -1" using q(4) [rule_format, of 0] assms(2,3) by (auto simp: hd_conv_nth)
  then show ?thesis using q by (intro exI [of _ q]) (auto simp: in_run_def)
qed

lemma run_unique: "data_ok d \<Longrightarrow> in_run d r j \<Longrightarrow> in_run d q j \<Longrightarrow> q = r"
  using in_run_found [of d r j] in_run_found [of d q j] by simp

text \<open>The header with a number, as \<open>get\<close> returns it, and whether a pass over the data visits it: the
  first pass leaves the runs of hidden headers out, except the one at the start.\<close>

definition header_at :: "hdata \<Rightarrow> int \<Rightarrow> dentry" where
  "header_at d j = the (the (data_get j d))"

definition visited :: "hdata \<Rightarrow> int \<Rightarrow> bool" where
  "visited d j \<longleftrightarrow> (d_skip d \<longrightarrow> firstLessOrEqual j d = Some 0 \<or>
     (\<exists>r. firstLessOrEqual j d = Some r \<and> run_size d (d_indexes d ! nat r) > 0))"

lemma entry_in_run:
  assumes "data_ok d" "in_run d r j"
  shows "\<exists>e. computeEntry (run_at d r) j d = Some e"
proof -
  have "run_at d r = Some (d_indexes d ! nat r)" "d_indexes d ! nat r \<in> set (d_indexes d)"
    using assms(2) by (auto simp: run_at_def in_run_def)
  then show ?thesis using assms(1) by (auto simp: data_ok_def computeEntry_def split: option.split)
qed

lemma get_in_run:
  assumes "data_ok d" "in_run d r j" "1 \<le> j" "j \<le> d_end d"
  shows "computeEntry (run_at d r) j d = Some (header_at d j)" "data_get j d = Some (Some (header_at d j))"
proof -
  obtain e where e: "computeEntry (run_at d r) j d = Some e" using entry_in_run [OF assms(1,2)] by blast
  have g: "data_get j d = Some (Some e)"
    using in_run_found [OF assms(1,2)] assms(3,4) e by (simp add: data_get_def data_get_at_def)
  then have "header_at d j = e" by (simp add: header_at_def)
  with e g show "computeEntry (run_at d r) j d = Some (header_at d j)" "data_get j d = Some (Some (header_at d j))" by simp_all
qed

lemma compute_cong [simp]: "computeEntry s j (d\<lparr>d_index := a\<rparr>) = computeEntry s j d" "computeEntry s j (d\<lparr>d_index := a, d_range := b\<rparr>) = computeEntry s j d"
  "run_at (d\<lparr>d_index := a\<rparr>) k = run_at d k" "run_at (d\<lparr>d_index := a, d_range := b\<rparr>) k = run_at d k"
  by (simp_all add: computeEntry_def data_twipsToPixels_def run_at_def cong: option.case_cong)

section \<open>A pass over the data\<close>

definition passing :: "hdata \<Rightarrow> int \<Rightarrow> int \<Rightarrow> bool" where
  "passing d r i \<longleftrightarrow> d_index d = Some i \<and> d_range d = Some r \<and> in_run d r i \<and> 0 \<le> i \<and> i \<le> d_end d \<and>
     (d_skip d \<longrightarrow> r = 0 \<or> run_size d (d_indexes d ! nat r) > 0)"

lemma in_run_next:
  assumes "data_ok d" "in_run d r i" "i + 1 \<le> d_end d" "run_at d (r + 1) \<noteq> Some (i + 1)"
  shows "in_run d r (i + 1)"
  using assms by (auto simp: in_run_def run_at_def split: if_splits)

lemma in_run_start: "data_ok d \<Longrightarrow> 0 \<le> k \<Longrightarrow> k < int (length (d_indexes d)) \<Longrightarrow> in_run d k (d_indexes d ! nat k)"
  by (auto simp: in_run_def intro: index_mono)

lemma index_le_end: "data_ok d \<Longrightarrow> 0 \<le> k \<Longrightarrow> k < int (length (d_indexes d)) \<Longrightarrow> d_indexes d ! nat k \<le> d_end d"
  by (auto simp: data_ok_def)

lemma later_run:
  assumes "data_ok d" "in_run d r i" "r + 1 < int (length (d_indexes d))" "d_indexes d ! nat (r + 1) = i + 1" "i < j"
  shows "\<exists>q. in_run d q j \<and> r < q"
proof -
  have r: "0 \<le> r" "r < int (length (d_indexes d))" "d_indexes d ! nat r \<le> i" using assms(2) by (auto simp: in_run_def)
  have ne: "d_indexes d \<noteq> []" using r by auto
  have "hd (d_indexes d) = d_indexes d ! nat 0" using ne by (simp add: hd_conv_nth)
  also have "\<dots> \<le> d_indexes d ! nat r" using index_mono_le [OF assms(1), of 0 r] r by simp
  finally have "hd (d_indexes d) \<le> j" using r(3) assms(5) by simp
  then obtain q where q: "in_run d q j" using run_exists [OF assms(1) ne] by blast
  have "\<not> q \<le> r"
  proof
    assume "q \<le> r"
    then have "d_indexes d ! nat (q + 1) \<le> d_indexes d ! nat (r + 1)"
      using index_mono_le [OF assms(1), of "q + 1" "r + 1"] q assms(3) by (auto simp: in_run_def)
    moreover have "j < d_indexes d ! nat (q + 1)" using q \<open>q \<le> r\<close> assms(3) by (auto simp: in_run_def)
    ultimately show False using assms(4,5) by simp
  qed
  with q show ?thesis by auto
qed

text \<open>One step of a pass: to the next header that it visits, or to the end.\<close>

lemma next_step:
  assumes "data_ok d" "passing d r i"
  shows "data_getNext d = (None, at_end d) \<and> (\<forall>j. i < j \<and> j \<le> d_end d \<longrightarrow> \<not> visited d j) \<or>
    (\<exists>i' r'. data_getNext d = (Some (header_at d i'), d\<lparr>d_index := Some i', d_range := Some r'\<rparr>) \<and> i < i' \<and>
       passing (d\<lparr>d_index := Some i', d_range := Some r'\<rparr>) r' i' \<and> visited d i' \<and>
       (\<forall>j. i < j \<and> j < i' \<longrightarrow> \<not> visited d j))"
proof -
  note p = assms(2) [unfolded passing_def]
  show ?thesis
  proof (cases "i + 1 > d_end d")
    case True
    then show ?thesis using p by (auto simp: data_getNext_def Let_def)
  next
    case less: False
    show ?thesis
    proof (cases "run_at d (r + 1) = Some (i + 1)")
      case False
      have r: "in_run d r (i + 1)" using in_run_next [OF assms(1) _ _ False] p less by auto
      have v: "visited d (i + 1)" using in_run_found [OF assms(1) r] p by (auto simp: visited_def)
      have "data_getNext d = (Some (header_at d (i + 1)), d\<lparr>d_index := Some (i + 1), d_range := Some r\<rparr>)"
        using get_in_run(1) [OF assms(1) r] p less False by (simp add: data_getNext_def Let_def)
      moreover have "passing (d\<lparr>d_index := Some (i + 1), d_range := Some r\<rparr>) r (i + 1)"
        using p r less by (auto simp: passing_def in_run_def run_size_def)
      ultimately show ?thesis using v by (intro disjI2 exI [of _ "i + 1"] exI [of _ r]) auto
    next
      case True
      then have rl: "0 \<le> r + 1" "r + 1 < int (length (d_indexes d))" "d_indexes d ! nat (r + 1) = i + 1"
        by (auto simp: run_at_def split: if_splits)
      have go: "?thesis" if k: "r < k" "k < int (length (d_indexes d))"
        and n: "data_getNext d = (computeEntry (run_at d k) (d_indexes d ! nat k) d, d\<lparr>d_index := Some (d_indexes d ! nat k), d_range := Some k\<rparr>)"
        and sz: "d_skip d \<longrightarrow> run_size d (d_indexes d ! nat k) > 0"
        and between: "\<And>q. r < q \<Longrightarrow> q < k \<Longrightarrow> d_skip d \<and> run_size d (d_indexes d ! nat q) \<le> 0" for k
      proof -
        let ?i = "d_indexes d ! nat k"
        have k0: "0 \<le> k" using k rl by simp
        note rk = in_run_start [OF assms(1) k0 k(2)]
        have le: "i + 1 \<le> ?i" using index_mono_le [OF assms(1) rl(1) _ k(2)] k rl(3) by simp
        have "1 \<le> ?i" "?i \<le> d_end d" using le p index_le_end [OF assms(1) k0 k(2)] by auto
        note h = get_in_run(1) [OF assms(1) rk this]
        have "\<not> visited d j" if j: "i < j" "j < ?i" for j
        proof -
          obtain q where q: "in_run d q j" "r < q" using later_run [OF assms(1) _ rl(2,3) j(1)] p by blast
          have "\<not> k \<le> q"
          proof
            assume "k \<le> q"
            then have "?i \<le> d_indexes d ! nat q" using index_mono_le [OF assms(1) k0] q by (auto simp: in_run_def)
            then show False using q j by (auto simp: in_run_def)
          qed
          then have "d_skip d" "run_size d (d_indexes d ! nat q) \<le> 0" "q \<noteq> 0" using between [of q] p q(2) by (auto simp: in_run_def)
          then show ?thesis using in_run_found [OF assms(1) q(1)] by (simp add: visited_def)
        qed
        moreover have "visited d ?i" using in_run_found [OF assms(1) rk] sz by (auto simp: visited_def)
        moreover have "passing (d\<lparr>d_index := Some ?i, d_range := Some k\<rparr>) k ?i"
          using rk le p \<open>?i \<le> d_end d\<close> sz by (auto simp: passing_def in_run_def run_size_def)
        ultimately show ?thesis using n h le by (intro disjI2 exI [of _ ?i] exI [of _ k]) auto
      qed
      show ?thesis
      proof (cases "d_skip d")
        case skip: False
        show ?thesis by (rule go [of "r + 1"]) (use p less True skip rl in \<open>auto simp: data_getNext_def Let_def\<close>)
      next
        case skip: True
        show ?thesis
        proof (cases "sized_from d (r + 1)")
          case None
          have n: "data_getNext d = (None, at_end d)"
            using p less True skip None by (simp add: data_getNext_def Let_def)
          have z: "run_size d (d_indexes d ! nat q) \<le> 0" if "r < q" "q < int (length (d_indexes d))" for q
            using None that by (auto simp: sized_from_def find_None_iff)
          have "\<not> visited d j" if j: "i < j" "j \<le> d_end d" for j
          proof -
            obtain q where q: "in_run d q j" "r < q" using later_run [OF assms(1) _ rl(2,3) j(1)] p by blast
            then have "run_size d (d_indexes d ! nat q) \<le> 0" "q \<noteq> 0" using z [of q] p by (auto simp: in_run_def)
            then show ?thesis using in_run_found [OF assms(1) q(1)] skip by (simp add: visited_def)
          qed
          with n show ?thesis by blast
        next
          case (Some k)
          then obtain a where a: "a < length [r + 1..int (length (d_indexes d)) - 1]" "k = [r + 1..int (length (d_indexes d)) - 1] ! a"
            "run_size d (d_indexes d ! nat k) > 0"
            "\<forall>b<a. \<not> run_size d (d_indexes d ! nat ([r + 1..int (length (d_indexes d)) - 1] ! b)) > 0"
            by (auto simp: sized_from_def find_Some_iff)
          then have k: "k = r + 1 + int a" "k < int (length (d_indexes d))" by (auto simp: nth_upto)
          have b: "run_size d (d_indexes d ! nat q) \<le> 0" if "r < q" "q < k" for q
          proof -
            have "nat (q - r - 1) < a" using that k(1) by simp
            from a(4) [rule_format, OF this] show ?thesis using that k by (simp add: nth_upto)
          qed
          show ?thesis
            by (rule go [of k]) (use p less True skip Some k a(3) b in \<open>auto simp: data_getNext_def Let_def\<close>)
        qed
      qed
    qed
  qed
qed


lemma position_frame [simp]:
  "header_at (d\<lparr>d_index := a, d_range := b\<rparr>) j = header_at d j" "visited (d\<lparr>d_index := a, d_range := b\<rparr>) j = visited d j"
  "data_ok (d\<lparr>d_index := a, d_range := b\<rparr>) = data_ok d" "data_get j (d\<lparr>d_index := a, d_range := b\<rparr>) = data_get j d"
proof -
  have f: "firstLessOrEqual j (d\<lparr>d_index := a, d_range := b\<rparr>) = firstLessOrEqual j d" for j by (simp add: firstLessOrEqual_def)
  show g: "data_get j (d\<lparr>d_index := a, d_range := b\<rparr>) = data_get j d"
    by (simp add: data_get_def data_get_at_def f option.map_comp comp_def split: option.split)
  show "header_at (d\<lparr>d_index := a, d_range := b\<rparr>) j = header_at d j" by (simp add: header_at_def g)
  show "visited (d\<lparr>d_index := a, d_range := b\<rparr>) j = visited d j" by (simp add: visited_def f run_size_def)
  show "data_ok (d\<lparr>d_index := a, d_range := b\<rparr>) = data_ok d" by (simp add: data_ok_def)
qed

lemma position_frame_fun [simp]:
  "header_at (d\<lparr>d_index := a, d_range := b\<rparr>) = header_at d" "visited (d\<lparr>d_index := a, d_range := b\<rparr>) = visited d"
  by (rule ext, simp)+

fun walk_list :: "('a \<Rightarrow> 's \<Rightarrow> bool \<times> 's) \<Rightarrow> 'a list \<Rightarrow> 's \<Rightarrow> bool \<times> 's" where
  "walk_list f [] s = (False, s)"
| "walk_list f (e # es) s = (case f e s of (True, s) \<Rightarrow> (True, s) | (False, s) \<Rightarrow> walk_list f es s)"

lemma walk_find: "walk_list (\<lambda>e s. if P e then (True, Some (g e)) else (False, s)) es None =
    (case List.find P es of None \<Rightarrow> (False, None) | Some e \<Rightarrow> (True, Some (g e)))"
  by (induction es) auto

lemma upto_visited:
  assumes "i < i'" "i' \<le> n" "P i'" "\<forall>j. i < j \<and> j < i' \<longrightarrow> \<not> P j"
  shows "filter P [i + 1..n] = i' # filter P [i' + 1..n]"
proof -
  have "[i + 1..n] = [i + 1..i' - 1] @ i' # [i' + 1..n]"
    using upto_split3 [of "i + 1" i' n] assms(1,2) by simp
  moreover have "filter P [i + 1..i' - 1] = []" using assms(4) by (auto simp: filter_empty_conv)
  ultimately show ?thesis using assms(3) by simp
qed

lemma loop_visits:
  assumes "data_ok d" "passing d r i"
  shows "snd (case data_getNext d of (e, d') \<Rightarrow> data_loop f e d' s) =
     snd (walk_list f (map (header_at d) (filter (visited d) [i + 1..d_end d])) s)"
  using assms
proof (induction "nat (d_end d - i)" arbitrary: d r i s rule: less_induct)
  case less
  from next_step [OF less.prems] show ?case
  proof (elim disjE exE conjE)
    assume "data_getNext d = (None, at_end d)" "\<forall>j. i < j \<and> j \<le> d_end d \<longrightarrow> \<not> visited d j"
    moreover from this have "filter (visited d) [i + 1..d_end d] = []" by (auto simp: filter_empty_conv)
    ultimately show ?thesis by simp
  next
    fix i' r'
    let ?d = "d\<lparr>d_index := Some i', d_range := Some r'\<rparr>"
    assume n: "data_getNext d = (Some (header_at d i'), ?d)" and i: "i < i'"
      and p: "passing ?d r' i'" and v: "visited d i'" "\<forall>j. i < j \<and> j < i' \<longrightarrow> \<not> visited d j"
    have le: "i' \<le> d_end d" using p by (simp add: passing_def)
    have l: "filter (visited d) [i + 1..d_end d] = i' # filter (visited d) [i' + 1..d_end d]"
      by (rule upto_visited [OF i le v])
    have ih: "snd (case data_getNext ?d of (e, d') \<Rightarrow> data_loop f e d' s) =
        snd (walk_list f (map (header_at d) (filter (visited d) [i' + 1..d_end d])) s)" for s
      using less.hyps [of ?d i' r' s] less.prems(1) p i le by simp
    obtain b t where ft: "f (header_at d i') s = (b, t)" by fastforce
    obtain x w where xw: "data_getNext ?d = (x, w)" by fastforce
    show ?thesis using ih [of t] by (cases b) (simp_all add: n l ft xw)
  qed
qed

lemma passing_start:
  assumes "data_ok d" "d_indexes d \<noteq> []" "0 \<le> hd (d_indexes d)"
  shows "passing (d\<lparr>d_range := Some 0, d_index := run_at d 0\<rparr>) 0 (hd (d_indexes d))"
proof -
  have "in_run d 0 (d_indexes d ! nat 0)" by (rule in_run_start [OF assms(1)]) (use assms(2) in auto)
  moreover have "d_indexes d ! nat 0 \<le> d_end d" by (rule index_le_end [OF assms(1)]) (use assms(2) in auto)
  ultimately show ?thesis using assms by (simp add: passing_def run_at_def hd_conv_nth in_run_def)
qed

lemma each_visits:
  assumes "data_ok d" "d_indexes d \<noteq> []" "0 \<le> hd (d_indexes d)"
  shows "snd (data_each f d s) =
     snd (walk_list f (map (header_at d) (filter (visited d) [hd (d_indexes d) + 1..d_end d])) s)"
proof -
  have e: "d\<lparr>d_range := Some 0, d_index := run_at d 0\<rparr> = d\<lparr>d_index := run_at d 0, d_range := Some 0\<rparr>" by simp
  show ?thesis
    using loop_visits [OF _ passing_start [OF assms], of f s] assms(1)
    unfolding data_each_def data_getFirst_def e by simp
qed

section \<open>What the passes leave alone\<close>

definition same_data :: "hdata \<Rightarrow> hdata \<Rightarrow> bool" where
  "same_data d w \<longleftrightarrow> d_map w = d_map d \<and> d_indexes w = d_indexes d \<and> d_end w = d_end d \<and> d_conv w = d_conv d"

lemma same_data_refl [simp]: "same_data d d"
  by (simp add: same_data_def)

lemma same_data_trans: "same_data d v \<Longrightarrow> same_data v w \<Longrightarrow> same_data d w"
  by (simp add: same_data_def)

lemma same_data_next: "same_data d (snd (data_getNext d))"
  by (auto simp: data_getNext_def same_data_def at_end_def Let_def split: option.split)

lemma same_data_loop: "same_data d (fst (data_loop f e d s))"
proof (induction f e d s rule: data_loop.induct)
  case (2 f e d s)
  show ?case
  proof (cases "f e s")
    case (Pair b t)
    obtain x w where w: "data_getNext d = (x, w)" by fastforce
    have "same_data d w" using same_data_next [of d] w by simp
    then show ?thesis using 2 [OF Pair [symmetric] _ w [symmetric]] Pair w
      by (cases b) (auto intro: same_data_trans)
  qed
qed simp

lemma same_data_each: "same_data d (fst (data_each f d s))"
proof -
  obtain x w where w: "data_getFirst d = (x, w)" by fastforce
  have "same_data d (d\<lparr>d_range := Some 0, d_index := run_at d 0\<rparr>)" by (simp add: same_data_def)
  then have "same_data d w" using same_data_next [of "d\<lparr>d_range := Some 0, d_index := run_at d 0\<rparr>"] w
    by (simp add: data_getFirst_def same_data_trans)
  then show ?thesis using same_data_trans [OF _ same_data_loop] w by (simp add: data_each_def)
qed

lemma same_data_ok: "same_data d w \<Longrightarrow> data_ok w = data_ok d"
  by (simp add: same_data_def data_ok_def)

lemma same_data_get: "same_data d w \<Longrightarrow> data_get j w = data_get j d" "same_data d w \<Longrightarrow> header_at w j = header_at d j"
proof -
  assume s: "same_data d w"
  have c: "computeEntry (run_at w r) i w = computeEntry (run_at d r) i d" for r i
    using s by (simp add: same_data_def computeEntry_def run_at_def data_twipsToPixels_def split: option.split)
  show g: "data_get j w = data_get j d"
    using s c by (simp add: same_data_def data_get_def data_get_at_def firstLessOrEqual_def option.map_comp comp_def split: option.split)
  then show "header_at w j = header_at d j" by (simp add: header_at_def)
qed


section \<open>The data of a message\<close>

text \<open>The loop of \<open>fillRows\<close> and \<open>fillColumns\<close>: the number and the end of the first header of each run. A run
  goes on to the number of the next one; the last run is one header.\<close>

fun fill_runs :: "int \<Rightarrow> int \<Rightarrow> (int \<times> int) list \<Rightarrow> hdata \<Rightarrow> hdata" where
  "fill_runs start prevPos [] d = d"
| "fill_runs start prevPos [(i, p)] d = pushBack (i - start) \<lparr>e_pos = p, e_size = p - prevPos\<rparr> d"
| "fill_runs start prevPos ((i, p) # (j, q) # rs) d =
     (let size = p - prevPos
      in fill_runs start (p + size * (j - i - 1)) ((j, q) # rs)
           (pushBack (i - start) \<lparr>e_pos = p, e_size = size\<rparr> d))"

definition fill_data :: "(int \<Rightarrow> int) \<Rightarrow> (int \<times> int) list \<Rightarrow> hdata" where
  "fill_data conv rows =
     (case rows of
        [] \<Rightarrow> new_hdata\<lparr>d_conv := Some conv\<rparr>
      | (start, offset) # rs \<Rightarrow>
          fill_runs start offset rs (pushBack 0 \<lparr>e_pos = offset, e_size = 0\<rparr> (new_hdata\<lparr>d_conv := Some conv\<rparr>)))"

text \<open>End and size of a header in twips.\<close>

definition twips_at :: "hdata \<Rightarrow> int \<Rightarrow> (int \<times> int) option" where
  "twips_at d j =
     Option.bind (Option.bind (firstLessOrEqual j d) (run_at d))
       (\<lambda>s. map_option (\<lambda>e. (e_pos e + (j - s) * e_size e, e_size e)) (obj_get (d_map d) s))"

lemma twips_in_run:
  "data_ok d \<Longrightarrow> in_run d r j \<Longrightarrow> twips_at d j =
     map_option (\<lambda>e. (e_pos e + (j - d_indexes d ! nat r) * e_size e, e_size e)) (obj_get (d_map d) (d_indexes d ! nat r))"
  using in_run_found [of d r j] by (simp add: twips_at_def run_at_def in_run_def)

lemma get_twips:
  assumes "1 \<le> j" "j \<le> d_end d" "twips_at d j = Some (p, z)"
  shows "data_get j d = Some (Some \<lparr>n_index = j, n_pos = data_twipsToPixels d p, n_size = data_twipsToPixels d z\<rparr>)"
proof -
  obtain r s e where "firstLessOrEqual j d = Some r" "run_at d r = Some s" "obj_get (d_map d) s = Some e"
    "p = e_pos e + (j - s) * e_size e" "z = e_size e"
    using assms(3) by (auto simp: twips_at_def bind_eq_Some_conv)
  then show ?thesis using assms(1,2) by (simp add: data_get_def data_get_at_def computeEntry_def)
qed

lemma push_frame:
  "d_end d < i \<Longrightarrow> d_end (pushBack i v d) = i" "d_end d < i \<Longrightarrow> d_indexes (pushBack i v d) = d_indexes d @ [i]"
  "d_conv (pushBack i v d) = d_conv d"
  by (simp_all add: pushBack_def)

lemma twips_push:
  assumes "data_ok d" "d_indexes d \<noteq> []" "hd (d_indexes d) \<le> j" "d_end d < i"
  shows "twips_at (pushBack i v d) j =
    (if j < i then twips_at d j else Some (e_pos v + (j - i) * e_size v, e_size v))"
proof (cases "j < i")
  case True
  let ?w = "pushBack i v d"
  obtain r where r: "in_run d r j" using run_exists [OF assms(1-3)] by blast
  then have l: "0 \<le> r" "nat r < length (d_indexes d)" by (auto simp: in_run_def)
  have w: "in_run ?w r j"
    using r True assms(4) by (auto simp: in_run_def push_frame nth_append)
  have "d_indexes d ! nat r \<in> set (d_indexes d)" using l(2) by simp
  then have "d_indexes d ! nat r \<noteq> i" using assms(1,4) by (auto simp: data_ok_def)
  then show ?thesis using twips_in_run [OF assms(1) r] twips_in_run [OF data_ok_push [OF assms(1)] w] True assms(4) l
    by (simp add: push_frame nth_append) (simp add: pushBack_def obj_put_get)
next
  case False
  let ?w = "pushBack i v d" and ?r = "int (length (d_indexes d))"
  have w: "in_run ?w ?r j" using False assms(4) by (auto simp: in_run_def push_frame)
  show ?thesis using twips_in_run [OF data_ok_push [OF assms(1)] w] False assms(4)
    by (simp add: push_frame) (simp add: pushBack_def obj_put_get)
qed

text \<open>Headers up to a number lie between the edges that a function gives.\<close>

definition edges_fit :: "hdata \<Rightarrow> (int \<Rightarrow> int) \<Rightarrow> int \<Rightarrow> bool" where
  "edges_fit d e n \<longleftrightarrow> (\<forall>j. 1 \<le> j \<and> j \<le> n \<longrightarrow> twips_at d j = Some (e j, e j - e (j - 1)))"

definition filled :: "hdata \<Rightarrow> bool" where
  "filled d \<longleftrightarrow> data_ok d \<and> d_indexes d \<noteq> [] \<and> hd (d_indexes d) = 0"

lemma filled_push: "filled d \<Longrightarrow> d_end d < i \<Longrightarrow> filled (pushBack i v d)"
  by (simp add: filled_def data_ok_push push_frame)

lemma edges_push:
  assumes "filled d" "d_end d < i" "1 \<le> i" "edges_fit d e (i - 1)" "i \<le> n" "z = p - e (i - 1)"
  shows "edges_fit (pushBack i \<lparr>e_pos = p, e_size = z\<rparr> d) (\<lambda>j. if j < i then e j else p + (j - i) * z) n"
proof -
  have "twips_at (pushBack i \<lparr>e_pos = p, e_size = z\<rparr> d) j =
      (if j < i then twips_at d j else Some (p + (j - i) * z, z))" if "1 \<le> j" for j
    using twips_push [of d j i "\<lparr>e_pos = p, e_size = z\<rparr>"] assms(1,2) that by (simp add: filled_def)
  moreover have "(if j < i then twips_at d j else Some (p + (j - i) * z, z)) =
      Some (if j < i then e j else p + (j - i) * z,
        (if j < i then e j else p + (j - i) * z) - (if j - 1 < i then e (j - 1) else p + (j - 1 - i) * z))"
    if "1 \<le> j" "j \<le> n" for j
  proof (cases "j = i")
    case False
    then show ?thesis using assms(4) that by (auto simp: edges_fit_def algebra_simps)
  qed (use assms(6) in simp)
  ultimately show ?thesis by (simp add: edges_fit_def)
qed

lemma fill_runs_edges:
  assumes "filled d" "rows \<noteq> []" "sorted_wrt (<) (map fst rows)" "d_end d < fst (hd rows) - s" "1 \<le> fst (hd rows) - s"
    and "edges_fit d e (fst (hd rows) - s - 1)" "e (fst (hd rows) - s - 1) = prev"
  shows "\<exists>e'. (\<forall>j < fst (hd rows) - s. e' j = e j) \<and> filled (fill_runs s prev rows d) \<and>
    d_end (fill_runs s prev rows d) = fst (last rows) - s \<and> d_conv (fill_runs s prev rows d) = d_conv d \<and>
    edges_fit (fill_runs s prev rows d) e' (fst (last rows) - s) \<and> (\<forall>x \<in> set rows. e' (fst x - s) = snd x)"
  using assms
proof (induction s prev rows d arbitrary: e rule: fill_runs.induct)
  case (2 s prev i p d)
  let ?i = "i - s"
  have "edges_fit (pushBack ?i \<lparr>e_pos = p, e_size = p - prev\<rparr> d) (\<lambda>j. if j < ?i then e j else p + (j - ?i) * (p - prev)) ?i"
    by (rule edges_push) (use 2 in auto)
  then show ?case
    using 2 by (intro exI [of _ "\<lambda>j. if j < ?i then e j else p + (j - ?i) * (p - prev)"])
      (simp add: filled_push push_frame)
next
  case (3 s prev i p j q rs d)
  let ?i = "i - s" and ?z = "p - prev"
  let ?d = "pushBack ?i \<lparr>e_pos = p, e_size = ?z\<rparr> d" and ?e = "\<lambda>k. if k < ?i then e k else p + (k - ?i) * ?z"
  have ij: "i < j" using 3(4) by simp
  have f: "edges_fit ?d ?e (j - s - 1)" by (rule edges_push) (use 3 ij in auto)
  have r: "fill_runs s prev ((i, p) # (j, q) # rs) d = fill_runs s (p + ?z * (j - i - 1)) ((j, q) # rs) ?d"
    by (simp add: Let_def)
  have "\<exists>e'. (\<forall>k < j - s. e' k = ?e k) \<and> filled (fill_runs s (p + ?z * (j - i - 1)) ((j, q) # rs) ?d) \<and>
    d_end (fill_runs s (p + ?z * (j - i - 1)) ((j, q) # rs) ?d) = fst (last ((j, q) # rs)) - s \<and>
    d_conv (fill_runs s (p + ?z * (j - i - 1)) ((j, q) # rs) ?d) = d_conv ?d \<and>
    edges_fit (fill_runs s (p + ?z * (j - i - 1)) ((j, q) # rs) ?d) e' (fst (last ((j, q) # rs)) - s) \<and>
    (\<forall>x \<in> set ((j, q) # rs). e' (fst x - s) = snd x)"
    using "3.IH" [OF refl, of ?e] 3 ij f by (simp add: filled_push push_frame algebra_simps)
  then obtain e' where e': "\<forall>k < j - s. e' k = ?e k" "filled (fill_runs s (p + ?z * (j - i - 1)) ((j, q) # rs) ?d)"
    "d_end (fill_runs s (p + ?z * (j - i - 1)) ((j, q) # rs) ?d) = fst (last ((j, q) # rs)) - s"
    "d_conv (fill_runs s (p + ?z * (j - i - 1)) ((j, q) # rs) ?d) = d_conv ?d"
    "edges_fit (fill_runs s (p + ?z * (j - i - 1)) ((j, q) # rs) ?d) e' (fst (last ((j, q) # rs)) - s)"
    "\<forall>x \<in> set ((j, q) # rs). e' (fst x - s) = snd x" by blast
  show ?case unfolding r
    using e' ij by (intro exI [of _ e']) (simp add: push_frame)
qed simp

lemma fill_data_edges:
  assumes "2 \<le> length rows" "sorted_wrt (<) (map fst rows)"
  shows "\<exists>e. e 0 = snd (hd rows) \<and> filled (fill_data conv rows) \<and>
    d_end (fill_data conv rows) = fst (last rows) - fst (hd rows) \<and> d_conv (fill_data conv rows) = Some conv \<and>
    edges_fit (fill_data conv rows) e (fst (last rows) - fst (hd rows)) \<and>
    (\<forall>x \<in> set (tl rows). e (fst x - fst (hd rows)) = snd x)"
proof -
  obtain s p i q rs where rows: "rows = (s, p) # (i, q) # rs" using assms(1) by (cases rows rule: list.exhaust [case_product list.exhaust])
      (auto simp: Suc_le_length_iff numeral_2_eq_2)
  let ?d = "pushBack 0 \<lparr>e_pos = p, e_size = 0\<rparr> (new_hdata\<lparr>d_conv := Some conv\<rparr>)"
  have d: "filled ?d" "d_end ?d = 0" "d_conv ?d = Some conv"
    by (simp_all add: filled_def data_ok_def pushBack_def new_hdata_def)
  have t: "twips_at ?d j = Some (p, 0)" if "1 \<le> j" for j
    using twips_in_run [of ?d 0 j] d(1) that
    by (simp add: filled_def in_run_def) (simp add: pushBack_def new_hdata_def)
  have "edges_fit ?d (\<lambda>j. p) (i - s - 1)" using t by (simp add: edges_fit_def)
  then obtain e where e: "\<forall>j < i - s. e j = p" "filled (fill_runs s p ((i, q) # rs) ?d)"
    "d_end (fill_runs s p ((i, q) # rs) ?d) = fst (last ((i, q) # rs)) - s" "d_conv (fill_runs s p ((i, q) # rs) ?d) = d_conv ?d"
    "edges_fit (fill_runs s p ((i, q) # rs) ?d) e (fst (last ((i, q) # rs)) - s)" "\<forall>x \<in> set ((i, q) # rs). e (fst x - s) = snd x"
    using fill_runs_edges [of ?d "(i, q) # rs" s "\<lambda>j. p" p] d assms(2) rows by auto
  then show ?thesis using assms(2) unfolding rows fill_data_def
    by (intro exI [of _ e]) (simp add: d del: fill_runs.simps)
qed

end
