(* ===== verification/Headers.thy ===== *)
theory Headers
  imports Views HeaderData
begin

text \<open>
  The row and column headers of a spreadsheet (\<open>loleaflet/src/control/Control.Header.js\<close>,
  \<open>Control.RowHeader.js\<close>, \<open>Control.ColumnHeader.js\<close>): filling them from the server's message, the
  highlighted selection, the pointer over them, resizing, the outline groups and the commands. The
  two subclasses differ in the axis they read and in the names of their commands, so that one state
  with the flag \<open>_isColumn\<close> stands for both. Drawing on the canvas and styles are entries of the log.
\<close>

section \<open>State\<close>

text \<open>A control of a group of rows or columns, in pixels along the header.\<close>

record hgroup =
  gr_level :: int
  gr_index :: int
  gr_start :: int
  gr_end :: int
  gr_hidden :: bool

text \<open>A group as the server describes it: level from 1, positions in twips.\<close>

record ginfo =
  gi_level :: int
  gi_index :: int
  gi_start :: int
  gi_end :: int
  gi_hidden :: bool

record header =
  h_isColumn :: bool
  h_conv :: "(point \<Rightarrow> point) option"  \<comment> \<open>\<open>converter\<close>, twips to pixels of the document layer\<close>
  h_canvasOrt :: int                    \<comment> \<open>\<open>_canvasWidth\<close> of rows, \<open>_canvasHeight\<close> of columns\<close>
  h_headerOrt :: int                    \<comment> \<open>\<open>_headerWidth\<close>, \<open>_headerHeight\<close>\<close>
  h_borderWidth :: int
  h_rect :: "point \<times> point"              \<comment> \<open>client rectangle of the canvas, two corners\<close>
  h_clicks :: nat
  h_current :: int
  h_selStart :: int
  h_selEnd :: int
  h_over :: "dentry option"             \<comment> \<open>\<open>_mouseOverEntry\<close>\<close>
  h_lastOver :: "int option"            \<comment> \<open>\<open>_lastMouseOverIndex\<close>\<close>
  h_hitResize :: bool
  h_overArea :: bool
  h_clickOn :: bool                     \<comment> \<open>the canvas listens to clicks\<close>
  h_dragging :: bool
  h_drag :: "(point \<times> point) option"    \<comment> \<open>\<open>_start\<close> and \<open>_offset\<close>\<close>
  h_groups :: "(int, hgroup) obj option list option"
  h_data :: "hdata option"
  h_startIndex :: int
  h_startOffset :: int
  h_position :: real
  h_docSelections :: nat                \<comment> \<open>layers of the document layer's \<open>_selections\<close>\<close>
  h_layer :: tlayer

definition par :: "header \<Rightarrow> point \<Rightarrow> real" where
  "par h p = (if h_isColumn h then px p else py p)"

definition ort :: "header \<Rightarrow> point \<Rightarrow> real" where
  "ort h p = (if h_isColumn h then py p else px p)"

definition h_do :: "(tlayer \<Rightarrow> tlayer) \<Rightarrow> header \<Rightarrow> header" where
  "h_do f h = h\<lparr>h_layer := f (h_layer h)\<rparr>"

definition h_call :: "string \<Rightarrow> jsval list \<Rightarrow> header \<Rightarrow> header" where
  "h_call f args = h_do (lemit (Called f args))"

definition h_twipsToPixels :: "header \<Rightarrow> int \<Rightarrow> int" where
  "h_twipsToPixels h twips =
     (case h_conv h of None \<Rightarrow> 0 | Some f \<Rightarrow> js_round (par h (f (ipt (twips, twips)))))"

text \<open>A call on the data, which does not exist before the first message.\<close>

definition h_get :: "int \<Rightarrow> hdata \<Rightarrow> header \<Rightarrow> (dentry option \<Rightarrow> header \<Rightarrow> header) \<Rightarrow> header" where
  "h_get i d h f = (case data_get i d of None \<Rightarrow> h_call ''TypeError'' [] h | Some e \<Rightarrow> f e h)"

section \<open>Highlighting\<close>

definition isHeaderSelected :: "int \<Rightarrow> header \<Rightarrow> bool" where
  "isHeaderSelected i h \<longleftrightarrow> i = h_current h"

definition isHighlighted :: "int \<Rightarrow> header \<Rightarrow> bool" where
  "isHighlighted i h \<longleftrightarrow>
     (if h_selStart h = -1 \<and> h_selEnd h = -1 then i = h_current h else h_selStart h \<le> i \<and> i \<le> h_selEnd h)"

text \<open>\<open>drawHeaderEntry(entry, isOver, isHighlighted, isCurrent)\<close>: a header without size is not drawn.\<close>

definition drawHeaderEntry :: "dentry option \<Rightarrow> bool \<Rightarrow> bool option \<Rightarrow> bool \<Rightarrow> header \<Rightarrow> header" where
  "drawHeaderEntry entry isOver highlighted isCurrent h =
     (case entry of
        None \<Rightarrow> h
      | Some e \<Rightarrow>
          (let hl = (case highlighted of Some b \<Rightarrow> b | None \<Rightarrow> isHighlighted (n_index e) h)
           in if n_size e \<le> 0 then h
              else h_call ''drawHeaderEntry'' [JInt (n_index e + h_startIndex h), JBool isOver, JBool hl, JBool isCurrent] h))"

definition h_select :: "dentry option \<Rightarrow> bool \<Rightarrow> header \<Rightarrow> header" where
  "h_select entry isCurrent = drawHeaderEntry entry False (Some True) isCurrent"

definition h_unselect :: "dentry option \<Rightarrow> header \<Rightarrow> header" where
  "h_unselect entry = drawHeaderEntry entry False (Some False) False"

text \<open>Unselecting from a header on, while a condition on its number holds.\<close>

definition unselect_from :: "int \<Rightarrow> (int \<Rightarrow> bool) \<Rightarrow> hdata \<Rightarrow> header \<Rightarrow> (hdata \<times> header)" where
  "unselect_from i P d h =
     (case data_getAt i d of
        None \<Rightarrow> (d, h_call ''TypeError'' [] h)
      | Some (e, d) \<Rightarrow>
          data_loop (\<lambda>e h. if P (n_index e) then (False, h_unselect (Some e) h) else (True, h)) e d h)"

definition clearSelection :: "header \<Rightarrow> header" where
  "clearSelection h =
     (if h_selStart h = -1 \<and> h_selEnd h = -1 then h
      else
        case h_data h of
          None \<Rightarrow> h_call ''TypeError'' [] h
        | Some d \<Rightarrow>
            (let start = (if h_selStart h < 1 then 1 else h_selStart h); end = h_selEnd h + 1;
                 r = unselect_from start (\<lambda>i. i < end) d h;
                 h = (snd r)\<lparr>h_data := Some (fst r), h_selStart := -1, h_selEnd := -1\<rparr>
             in h_get (h_current h) (fst r) h (\<lambda>e. h_select e True)))"

text \<open>The loop of \<open>updateSelection\<close>. Its state: the header, whether the selection has begun, its first and
  last number.\<close>

definition select_body :: "int \<Rightarrow> int \<Rightarrow> dentry \<Rightarrow> header \<times> bool \<times> int \<times> int \<Rightarrow> bool \<times> header \<times> bool \<times> int \<times> int" where
  "select_body start end e s =
     (case s of (h, selected, itStart, itEnd) \<Rightarrow>
        let x0 = n_pos e - n_size e; x1 = n_pos e; here = (x0 \<le> start \<and> start < x1);
            selected = (selected \<or> here); itStart = (if here then n_index e else itStart);
            h = (if selected then h_select (Some e) False h else h)
        in if x0 \<le> end \<and> end \<le> x1 then (True, h, selected, itStart, n_index e)
           else (False, h, selected, itStart, itEnd))"

definition updateSelection :: "int \<Rightarrow> int \<Rightarrow> header \<Rightarrow> header" where
  "updateSelection start end h =
     (case h_data h of
        None \<Rightarrow> h
      | Some d \<Rightarrow>
          if data_isEmpty d then h
          else
            (let f = data_getFirst d;
                 early = (case fst f of None \<Rightarrow> False | Some e \<Rightarrow> start < n_pos e - n_size e \<and> end > n_pos e - n_size e);
                 (d, h, selected, itStart, itEnd) =
                   data_loop (select_body start end) (fst f) (snd f) (h, early, if early then 1 else -1, -1);
                 itEnd = (if itStart \<noteq> -1 \<and> itEnd = -1 then data_getLength d - 1 else itEnd);
                 h = (if h_current h \<noteq> -1 \<and> itStart \<noteq> -1 \<and> itEnd \<noteq> -1 \<and> (h_current h < itStart \<or> h_current h > itEnd)
                      then h_get (h_current h) d h h_unselect else h);
                 (d, h) = (if h_selStart h \<noteq> -1 \<and> itStart \<noteq> -1 \<and> itStart > h_selStart h
                           then unselect_from (h_selStart h) (\<lambda>i. i < itStart) d h else (d, h));
                 (d, h) = (if h_selEnd h \<noteq> -1 \<and> itEnd \<noteq> -1 \<and> itEnd < h_selEnd h
                           then unselect_from (itEnd + 1) (\<lambda>i. i \<le> h_selEnd h) d h else (d, h))
             in h\<lparr>h_data := Some d, h_selStart := itStart, h_selEnd := itEnd\<rparr>))"

definition updateCurrent :: "int \<Rightarrow> bool \<Rightarrow> header \<Rightarrow> header" where
  "updateCurrent cursorPos slim h =
     (case h_data h of
        None \<Rightarrow> h
      | Some d \<Rightarrow>
          if data_isEmpty d then h
          else if cursorPos < 0 then (h_get (h_current h) d h h_unselect)\<lparr>h_current := -1\<rparr>
          else
            (case (if cursorPos > 0 then data_get (cursorPos - 1) d else Some None, data_get cursorPos d) of
               (Some prev, Some entry) \<Rightarrow>
                 (let zero = (slim \<and> (case prev of None \<Rightarrow> False | Some e \<Rightarrow> n_size e = 0));
                      shown = (if zero then None else entry);
                      h = (if h_selStart h = -1 \<and> h_selEnd h = -1
                           then h_select shown True (h_get (h_current h) d h h_unselect) else h)
                  in h\<lparr>h_current := (case shown of None \<Rightarrow> -1 | Some e \<Rightarrow> n_index e)\<rparr>)
             | _ \<Rightarrow> h_call ''TypeError'' [] h))"

section \<open>The pointer over the headers\<close>

text \<open>\<open>_entryAtPoint\<close>: the header and whether its resize area is hit.\<close>

definition resize_hit :: "real \<Rightarrow> dentry \<Rightarrow> header \<Rightarrow> bool" where
  "resize_hit position e h \<longleftrightarrow>
     position > of_int (if isHeaderSelected (n_index e) h then n_pos e - 15 else max (n_pos e - n_size e) (n_pos e - 3))"

definition under_point :: "real \<Rightarrow> dentry \<Rightarrow> bool" where
  "under_point position e \<longleftrightarrow> position > of_int (n_pos e - n_size e) \<and> position \<le> of_int (n_pos e)"

definition entryAtPoint :: "point \<Rightarrow> header \<Rightarrow> (dentry \<times> bool) option \<times> header" where
  "entryAtPoint p h =
     (case h_data h of
        None \<Rightarrow> (None, h_call ''TypeError'' [] h)
      | Some d \<Rightarrow>
          (let position = par h p - h_position h;
               r = data_each (\<lambda>e s. if under_point position e then (True, Some (e, resize_hit position e h)) else (False, s)) d None
           in (snd r, h\<lparr>h_data := Some (fst r)\<rparr>)))"


text \<open>A mouse event: place in the window and the modifier keys.\<close>

record hevent =
  ev_client :: point
  ev_shift :: bool
  ev_ctrl :: bool

definition canvas_pos :: "header \<Rightarrow> hevent \<Rightarrow> point" where
  "canvas_pos h e = point_subtract (ev_client e) (fst (h_rect h))"

definition getOutlineWidth :: "header \<Rightarrow> int" where
  "getOutlineWidth h = h_canvasOrt h - h_borderWidth h - h_headerOrt h"

definition hitOutline :: "hevent \<Rightarrow> header \<Rightarrow> bool" where
  "hitOutline e h \<longleftrightarrow> ort h (canvas_pos h e) \<le> of_int (getOutlineWidth h)"

definition is_current :: "dentry option \<Rightarrow> header \<Rightarrow> bool" where
  "is_current e h \<longleftrightarrow> (case e of None \<Rightarrow> False | Some e \<Rightarrow> n_index e = h_current h)"

definition onHeaderMouseOut :: "header \<Rightarrow> header" where
  "onHeaderMouseOut h =
     (if \<not> h_overArea h then h
      else
        let h = h\<lparr>h_overArea := False\<rparr>;
            h = (case h_over h of
                   None \<Rightarrow> h
                 | Some e \<Rightarrow>
                     (drawHeaderEntry (Some e) False None (is_current (Some e) h) h)
                       \<lparr>h_lastOver := Some (n_index e + h_startIndex h), h_over := None\<rparr>)
        in h\<lparr>h_hitResize := False, h_clickOn := True\<rparr>)"

definition onMouseOut :: "hevent \<Rightarrow> header \<Rightarrow> header" where
  "onMouseOut e h = (if hitOutline e h then h else onHeaderMouseOut h)"

definition pointer_over :: "dentry \<times> bool \<Rightarrow> header \<Rightarrow> header" where
  "pointer_over r h =
     (if n_index (fst r) \<noteq> 0 \<and> (case h_over h of None \<Rightarrow> True | Some o' \<Rightarrow> n_index (fst r) \<noteq> n_index o') then
        (let h = drawHeaderEntry (h_over h) False None (is_current (h_over h) h) h
         in (drawHeaderEntry (Some (fst r)) True None (is_current (Some (fst r)) h) h)\<lparr>h_over := Some (fst r)\<rparr>)
      else h)"

definition onMouseMove :: "hevent \<Rightarrow> header \<Rightarrow> header" where
  "onMouseMove e h =
     (if hitOutline e h then onHeaderMouseOut h
      else
        let r = entryAtPoint (canvas_pos h e) (h\<lparr>h_overArea := True\<rparr>); h = snd r;
            over = (case fst r of Some (entry, hit) \<Rightarrow> hit | None \<Rightarrow> False)
        in if h_data h = None then h
           else
             let h = (case fst r of None \<Rightarrow> h | Some x \<Rightarrow> pointer_over x h)
             in if over \<noteq> h_hitResize h then h\<lparr>h_clickOn := \<not> over, h_hitResize := over\<rparr> else h)"

section \<open>Outline groups\<close>

definition group_head :: int where "group_head = 12"

definition level_spacing :: int where "level_spacing = 1"

definition js_trunc :: "real \<Rightarrow> int" where
  "js_trunc x = (if x < 0 then \<lceil>x\<rceil> else \<lfloor>x\<rfloor>)"

text \<open>\<open>_getGroupLevel(pos)\<close> for a given number of levels.\<close>

definition getGroupLevel :: "nat \<Rightarrow> real \<Rightarrow> int" where
  "getGroupLevel levels pos =
     (let size = level_spacing + group_head; level = js_trunc ((pos + 1) / of_int size);
          relPos = pos - of_int size * of_int (js_trunc (pos / of_int size))
      in if level \<le> int levels \<and> relPos > of_int level_spacing then level else -1)"

definition computeOutlineWidth :: "nat \<Rightarrow> int" where
  "computeOutlineWidth levels = level_spacing + (group_head + level_spacing) * (int levels + 1)"

definition updateOutlineState :: "sconf \<Rightarrow> bool \<Rightarrow> int \<Rightarrow> int \<Rightarrow> bool \<Rightarrow> header \<Rightarrow> header" where
  "updateOutlineState cf column level i hidden =
     h_do (lsend cf (''outlinestate type='' @ (if column then ''column'' else ''row'') @ '' level='' @ show_int level @
       '' index='' @ show_int i @ '' state='' @ (if hidden then ''visible'' else ''hidden'')))"

text \<open>The groups of a level, the last first; the first whose handler takes the event ends it. \<open>None\<close>: the level
  has no groups and \<open>Object.keys\<close> throws.\<close>

definition outline_event :: "hevent \<Rightarrow> (hgroup \<Rightarrow> bool) \<Rightarrow> (hgroup \<Rightarrow> header \<Rightarrow> header) \<Rightarrow> header \<Rightarrow> bool \<times> header" where
  "outline_event e takes act h =
     (if \<not> hitOutline e h then (False, h)
      else
        case h_groups h of
          None \<Rightarrow> (True, h_call ''TypeError'' [] h)
        | Some gs \<Rightarrow>
            (let level = getGroupLevel (length gs) (ort h (canvas_pos h e))
             in if level < 0 \<or> level \<ge> int (length gs) then (True, h)
                else
                  case gs ! nat level of
                    None \<Rightarrow> (True, h_call ''TypeError'' [] h)
                  | Some g \<Rightarrow>
                      (case List.find takes (map (\<lambda>i. the (obj_get g i)) (rev (int_keys g))) of
                         None \<Rightarrow> (True, h)
                       | Some x \<Rightarrow> (True, act x h))))"

definition toggle_group :: "sconf \<Rightarrow> hgroup \<Rightarrow> header \<Rightarrow> header" where
  "toggle_group cf g h = updateOutlineState cf (h_isColumn h) (gr_level g) (gr_index g) (gr_hidden g) h"

definition head_hit :: "real \<Rightarrow> hgroup \<Rightarrow> bool" where
  "head_hit pos g \<longleftrightarrow> of_int (gr_start g) < pos \<and> pos < of_int (gr_start g + group_head)"

definition tail_hit :: "real \<Rightarrow> hgroup \<Rightarrow> bool" where
  "tail_hit pos g \<longleftrightarrow> of_int (gr_start g + group_head) < pos \<and> pos < of_int (gr_end g)"

definition onGroupControlClick :: "sconf \<Rightarrow> hevent \<Rightarrow> header \<Rightarrow> bool \<times> header" where
  "onGroupControlClick cf e h =
     outline_event e (head_hit (par h (canvas_pos h e) - h_position h)) (toggle_group cf) h"

definition onDoubleClick :: "sconf \<Rightarrow> hevent \<Rightarrow> header \<Rightarrow> header" where
  "onDoubleClick cf e h =
     snd (outline_event e (tail_hit (par h (canvas_pos h e) - h_position h)) (toggle_group cf) h)"

text \<open>The state of \<open>_collectGroupsData\<close>: the groups, the last group of each level, the first child, the level
  of the group before.\<close>

record gcollect =
  gc_groups :: "(int, hgroup) obj option list"
  gc_last :: "(int, int) obj"
  gc_child :: "(int, int) obj"
  gc_level :: int

text \<open>Writing behind the end of an array makes it longer.\<close>

definition js_set :: "nat \<Rightarrow> 'a option \<Rightarrow> 'a option list \<Rightarrow> 'a option list" where
  "js_set n x xs = (xs @ replicate (Suc n - length xs) None)[n := x]"

definition js_nth :: "'a option list \<Rightarrow> int \<Rightarrow> 'a option" where
  "js_nth xs n = (if 0 \<le> n \<and> n < int (length xs) then xs ! nat n else None)"

definition group_of :: "gcollect \<Rightarrow> int \<Rightarrow> int option \<Rightarrow> hgroup option" where
  "group_of c level i = Option.bind (js_nth (gc_groups c) level) (\<lambda>g. Option.bind i (obj_get g))"

text \<open>Where a control begins that is not collapsed: at its first child when that is collapsed around it,
  else behind a collapsed group of its level.\<close>

definition control_start :: "int \<Rightarrow> int \<Rightarrow> gcollect \<Rightarrow> int" where
  "control_start level startPos c =
     (let inside = (\<lambda>g. gr_hidden g \<and> startPos > gr_start g \<and> startPos < gr_end g);
          child = (if level < gc_level c then group_of c (gc_level c) (obj_get (gc_child c) (gc_level c)) else None)
      in case child of
           Some g \<Rightarrow> if inside g then gr_start g else
             (case group_of c level (obj_get (gc_last c) level) of
                Some p \<Rightarrow> if inside p then gr_end p else startPos | None \<Rightarrow> startPos)
         | None \<Rightarrow>
             (case group_of c level (obj_get (gc_last c) level) of
                Some p \<Rightarrow> if inside p then gr_end p else startPos | None \<Rightarrow> startPos))"

definition collect_group :: "(int \<Rightarrow> int) \<Rightarrow> ginfo \<Rightarrow> gcollect \<Rightarrow> gcollect" where
  "collect_group conv g c =
     (let level = gi_level g - 1;
          c = (if js_nth (gc_groups c) level = None then c\<lparr>gc_groups := js_set (nat level) (Some []) (gc_groups c)\<rparr> else c);
          startPos = conv (gi_start g); endPos = conv (gi_end g);
          (startPos, endPos) =
            (if gi_hidden g \<or> startPos = endPos then (startPos - 6, startPos - 6 + group_head)
             else (control_start level startPos c, endPos));
          entry = \<lparr>gr_level = level, gr_index = gi_index g, gr_start = startPos, gr_end = endPos, gr_hidden = gi_hidden g\<rparr>;
          c = c\<lparr>gc_groups := js_set (nat level) (map_option (obj_put (gi_index g) entry) (js_nth (gc_groups c) level)) (gc_groups c),
                gc_last := obj_put level (gi_index g) (gc_last c)\<rparr>
      in if level > gc_level c then c\<lparr>gc_child := obj_put level (gi_index g) (gc_child c), gc_level := level\<rparr>
         else if level = gc_level c then c\<lparr>gc_child := obj_del (level + 1) (gc_child c)\<rparr>
         else c)"

text \<open>Levels are numbers from 1 in the message.\<close>

definition collectGroupsData :: "ginfo list \<Rightarrow> header \<Rightarrow> header" where
  "collectGroupsData gs h =
     (case h_groups h of
        None \<Rightarrow> h_call ''TypeError'' [] h
      | Some g0 \<Rightarrow>
          h\<lparr>h_groups := Some (gc_groups (fold (collect_group (h_twipsToPixels h)) gs
              \<lparr>gc_groups = g0, gc_last = [], gc_child = [], gc_level = -1\<rparr>))\<rparr>)"


section \<open>Filling the headers\<close>

text \<open>\<open>resize\<close> makes room for the outline; the corner is drawn again.\<close>

definition h_resize :: "int \<Rightarrow> header \<Rightarrow> header" where
  "h_resize w h =
     (if w < h_headerOrt h then h
      else h_do (lemit (Fired ''updatecornerheader'' JUndef)) (h\<lparr>h_canvasOrt := w\<rparr>))"

text \<open>\<open>fillRows\<close> and \<open>fillColumns\<close>: the number and the end of each run, the number of outline levels in the first
  element, the groups when the message has them.\<close>

definition fill_start :: "(int \<times> int) list \<Rightarrow> nat \<Rightarrow> (point \<Rightarrow> point) \<Rightarrow> header \<Rightarrow> header" where
  "fill_start rows levels conv h =
     (let h = h\<lparr>h_startIndex := fst (hd rows), h_current := -1, h_selStart := -1, h_selEnd := -1, h_over := None,
                h_lastOver := None, h_conv := Some conv,
                h_groups := (if levels = 0 then None else Some (replicate levels None))\<rparr>
      in h\<lparr>h_startOffset := h_twipsToPixels h (snd (hd rows)), h_data := Some (fill_data (h_twipsToPixels h) rows)\<rparr>)"

definition fill_groups :: "ginfo list option \<Rightarrow> header \<Rightarrow> header" where
  "fill_groups groups h =
     (case groups of None \<Rightarrow> h | Some gs \<Rightarrow> if h_groups h = None then h else collectGroupsData gs h)"

definition fill_size :: "header \<Rightarrow> header" where
  "fill_size h =
     (case h_groups h of
        Some gs \<Rightarrow> h_resize (computeOutlineWidth (length gs) + h_borderWidth h + h_headerOrt h) h
      | None \<Rightarrow> if h_canvasOrt h \<noteq> h_headerOrt h then h_resize (h_headerOrt h) h else h)"

definition fill_draw :: "header \<Rightarrow> header" where
  "fill_draw h =
     (case h_data h of
        None \<Rightarrow> h_call ''TypeError'' [] h
      | Some d \<Rightarrow>
          (let r = data_each (\<lambda>e h. (False, drawHeaderEntry (Some e) False None False h)) d h
           in h_call ''drawOutline'' [] ((snd r)\<lparr>h_data := Some (fst r)\<rparr>)))"

definition fill_headers :: "(int \<times> int) list \<Rightarrow> nat \<Rightarrow> ginfo list option \<Rightarrow> (point \<Rightarrow> point) \<Rightarrow> header \<Rightarrow> header" where
  "fill_headers rows levels groups conv h =
     (if length rows < 2 then h
      else fill_draw (fill_size (fill_groups groups (fill_start rows levels conv h))))"

text \<open>Reading the message: \<open>text\<close> and \<open>size\<close> of a run, the fields of a group.\<close>

definition num_field :: "string \<Rightarrow> jsval \<Rightarrow> int option" where
  "num_field k v = (case js_int (js_field k v) of NaN \<Rightarrow> None | Num i \<Rightarrow> Some i)"

definition read_run :: "jsval \<Rightarrow> (int \<times> int) option" where
  "read_run v = Option.bind (num_field ''text'' v) (\<lambda>i. map_option (\<lambda>p. (i, p)) (num_field ''size'' v))"

definition read_group :: "jsval \<Rightarrow> ginfo option" where
  "read_group v =
     (case (num_field ''level'' v, num_field ''index'' v, num_field ''startPos'' v, num_field ''endPos'' v) of
        (Some l, Some i, Some a, Some b) \<Rightarrow>
          if l < 1 then None
          else Some \<lparr>gi_level = l, gi_index = i, gi_start = a, gi_end = b,
                     gi_hidden = (num_field ''hidden'' v \<noteq> None \<and> num_field ''hidden'' v \<noteq> Some 0)\<rparr>
      | _ \<Rightarrow> None)"

definition read_all :: "(jsval \<Rightarrow> 'a option) \<Rightarrow> jsval \<Rightarrow> 'a list option" where
  "read_all f v =
     (case v of
        JArr vs \<Rightarrow> if \<exists>w \<in> set vs. f w = None then None else Some (map (the \<circ> f) vs)
      | _ \<Rightarrow> None)"

text \<open>\<open>viewRowColumnHeaders(e)\<close>, on a message whose numbers are numbers. Without runs it does nothing.\<close>

definition viewRowColumnHeaders :: "jsval \<Rightarrow> (point \<Rightarrow> point) \<Rightarrow> header \<Rightarrow> header" where
  "viewRowColumnHeaders data conv h =
     (let name = (if h_isColumn h then ''columns'' else ''rows'');
          gname = (if h_isColumn h then ''columnGroups'' else ''rowGroups'');
          levels = (case js_field name data of
                      JArr (v # _) \<Rightarrow> (case js_int (js_field ''groupLevels'' v) of NaN \<Rightarrow> 0 | Num i \<Rightarrow> nat i) | _ \<Rightarrow> 0)
      in case read_all read_run (js_field name data) of
           None \<Rightarrow> h
         | Some rows \<Rightarrow>
             if js_field gname data = JUndef then fill_headers rows levels None conv h
             else (case read_all read_group (js_field gname data) of
                     None \<Rightarrow> h | Some gs \<Rightarrow> fill_headers rows levels (Some gs) conv h))"

section \<open>Events of the map\<close>

definition setScrollPosition :: "point \<Rightarrow> header \<Rightarrow> header" where
  "setScrollPosition p h = h\<lparr>h_position := min 0 (- par h p)\<rparr>"

definition offsetScrollPosition :: "point \<Rightarrow> header \<Rightarrow> header" where
  "offsetScrollPosition p h = h\<lparr>h_position := min 0 (h_position h - par h p)\<rparr>"

text \<open>Start and end of the selection in twips; \<open>-1\<close> stays what it is.\<close>

definition onUpdateSelection :: "int \<Rightarrow> int \<Rightarrow> header \<Rightarrow> header" where
  "onUpdateSelection start end h =
     updateSelection (if start \<noteq> -1 then h_twipsToPixels h start else start)
       (if end \<noteq> -1 then h_twipsToPixels h end else end) h"

definition onUpdateCurrent :: "int \<Rightarrow> int \<Rightarrow> header \<Rightarrow> header" where
  "onUpdateCurrent cur w h = updateCurrent (cur - h_startIndex h) (h_twipsToPixels h w \<le> 1) h"

section \<open>Commands\<close>

text \<open>\<open>target\<close> is the table of replacement commands \<open>sendUnoCommand\<close> takes.\<close>

type_synonym unotarget = "string \<Rightarrow> string \<Rightarrow> string"

definition h_uno :: "sconf \<Rightarrow> unotarget \<Rightarrow> string \<Rightarrow> ujson option \<Rightarrow> header \<Rightarrow> header" where
  "h_uno cf target c json = h_do (sendUnoCommand cf target c json)"

definition select_args :: "header \<Rightarrow> int \<Rightarrow> int \<Rightarrow> ujson" where
  "select_args h n modifier =
     UObj [(if h_isColumn h then ''Col'' else ''Row'', typed (if h_isColumn h then ''unsigned short'' else ''long'') (UInt (n - 1))),
           (''Modifier'', typed ''unsigned short'' (UInt modifier))]"

definition selectHeader :: "sconf \<Rightarrow> unotarget \<Rightarrow> int \<Rightarrow> int \<Rightarrow> header \<Rightarrow> header" where
  "selectHeader cf target n modifier h =
     h_uno cf target (if h_isColumn h then ''.uno:SelectColumn '' else ''.uno:SelectRow '') (Some (select_args h n modifier)) h"

text \<open>Columns ask for new headers after a command; the position is left out of the log.\<close>

definition updateHeader :: "header \<Rightarrow> header" where
  "updateHeader h = (if h_isColumn h then h_do (lemit (Fired ''updaterowcolumnheaders'' JUndef)) h else h)"

definition select_unless :: "sconf \<Rightarrow> unotarget \<Rightarrow> int \<Rightarrow> header \<Rightarrow> header" where
  "select_unless cf target n h = (if h_docSelections h = 0 then selectHeader cf target n 0 h else h)"

definition menu_command :: "sconf \<Rightarrow> unotarget \<Rightarrow> string \<Rightarrow> string \<Rightarrow> int \<Rightarrow> header \<Rightarrow> header" where
  "menu_command cf target col row n h =
     updateHeader (h_uno cf target (if h_isColumn h then col else row) None (select_unless cf target n h))"

definition insertHeader :: "sconf \<Rightarrow> unotarget \<Rightarrow> int \<Rightarrow> header \<Rightarrow> header" where
  "insertHeader cf target = menu_command cf target ''.uno:InsertColumns'' ''.uno:InsertRows''"

definition deleteHeader :: "sconf \<Rightarrow> unotarget \<Rightarrow> int \<Rightarrow> header \<Rightarrow> header" where
  "deleteHeader cf target = menu_command cf target ''.uno:DeleteColumns'' ''.uno:DeleteRows''"

definition hideHeader :: "sconf \<Rightarrow> unotarget \<Rightarrow> int \<Rightarrow> header \<Rightarrow> header" where
  "hideHeader cf target = menu_command cf target ''.uno:HideColumn'' ''.uno:HideRow''"

definition showHeader :: "sconf \<Rightarrow> unotarget \<Rightarrow> int \<Rightarrow> header \<Rightarrow> header" where
  "showHeader cf target = menu_command cf target ''.uno:ShowColumn'' ''.uno:ShowRow''"

definition optimalSize :: "sconf \<Rightarrow> unotarget \<Rightarrow> int \<Rightarrow> header \<Rightarrow> header" where
  "optimalSize cf target n h =
     h_uno cf target (if h_isColumn h then ''.uno:SetOptimalColumnWidth?aExtraWidth=200''
                      else ''.uno:SetOptimalRowHeight?aExtraHeight=0'') None (select_unless cf target n h)"

definition h_onClick :: "sconf \<Rightarrow> unotarget \<Rightarrow> hevent \<Rightarrow> header \<Rightarrow> header" where
  "h_onClick cf target e h =
     (let r = onGroupControlClick cf e h; h = snd r
      in if fst r then h
         else case h_over h of
                None \<Rightarrow> h
              | Some o' \<Rightarrow> selectHeader cf target (n_index o' + h_startIndex h)
                    ((if ev_shift e then 4096 else 0) + (if ev_ctrl e then 8192 else 0)) h)"

text \<open>A click on the corner, at a place of the corner canvas; for columns also the width of the rows' outline.\<close>

definition corner_level :: "sconf \<Rightarrow> real \<Rightarrow> header \<Rightarrow> header" where
  "corner_level cf pos h =
     (case h_groups h of
        None \<Rightarrow> h_call ''TypeError'' [] h
      | Some gs \<Rightarrow> updateOutlineState cf (h_isColumn h) (getGroupLevel (length gs) pos) (-1) False h)"

definition onCornerHeaderClick :: "sconf \<Rightarrow> unotarget \<Rightarrow> real \<Rightarrow> point \<Rightarrow> header \<Rightarrow> header" where
  "onCornerHeaderClick cf target rowOutlineWidth p h =
     (if ort h p > of_int (getOutlineWidth h) then
        (if h_isColumn h then h_do (lemit (Fired ''cornerheaderclicked'' JUndef)) h
         else h_uno cf target ''.uno:SelectAll'' None h)
      else if h_isColumn h \<and> px p \<le> rowOutlineWidth then h_uno cf target ''.uno:SelectAll'' None h
      else corner_level cf (ort h p) h)"

section \<open>Resizing by dragging\<close>

definition entry_rect :: "dentry option \<Rightarrow> header \<Rightarrow> (point \<times> point) option" where
  "entry_rect e h =
     map_option (\<lambda>e.
        let a = of_int (n_pos e - n_size e) + h_position h; b = of_int (n_pos e) + h_position h; (p, q) = h_rect h
        in if h_isColumn h then (pt (px p + a) (py p), pt (px p + b) (py q))
           else (pt (px p) (py p + a), pt (px q) (py p + b))) e"

definition onMouseDown :: "hevent \<Rightarrow> header \<Rightarrow> header" where
  "onMouseDown e h =
     (if hitOutline e h \<or> h_dragging h \<or> \<not> h_hitResize h then h
      else case entry_rect (h_over h) h of
             None \<Rightarrow> h
           | Some (p, q) \<Rightarrow> h_call ''drawLine'' [] (h\<lparr>h_drag := Some (p, point_subtract q (ev_client e))\<rparr>))"

definition onMouseMoveForDragging :: "hevent \<Rightarrow> header \<Rightarrow> header" where
  "onMouseMoveForDragging e h = h_call ''drawLine'' [] (h\<lparr>h_dragging := True\<rparr>)"

definition twipsToHMM :: "real \<Rightarrow> real" where
  "twipsToHMM twips = (twips * 127 + 36) / 72"

text \<open>The end of a drag; the size is sent in hundredths of a millimetre, a fraction, so that the command is an
  entry of the log. The size that is compared with the distance is in pixels, the distance in twips.\<close>

definition onDragEnd :: "point \<Rightarrow> point \<Rightarrow> hevent \<Rightarrow> header \<Rightarrow> header" where
  "onDragEnd start offset e h =
     (let end' = (if h_isColumn h then pt (px (ev_client e) + px offset) (py (ev_client e))
                  else pt (px (ev_client e)) (py (ev_client e) + py offset));
          distance = par h (pixelsToTwips (l_grid (h_layer h)) (point_subtract end' start));
          h = (case (h_over h, h_data h) of
                 (Some c, Some d) \<Rightarrow>
                   (case isZeroSize (n_index c + 1) d of
                      None \<Rightarrow> h_call ''TypeError'' [] h
                    | Some z \<Rightarrow>
                        (let n = n_index c + h_startIndex h + (if z then 1 else 0); width = (if z then 0 else n_size c)
                         in if of_int width \<noteq> distance then
                              updateHeader (h_call ''sendUnoCommand''
                                [JStr (if h_isColumn h then ''.uno:ColumnWidth'' else ''.uno:RowHeight''),
                                 JReal (twipsToHMM (max distance 0)), JInt n] h)
                            else h))
               | _ \<Rightarrow> h)
      in h_call ''removeLine'' [] h)"

definition onDragClick :: "sconf \<Rightarrow> unotarget \<Rightarrow> nat \<Rightarrow> header \<Rightarrow> header" where
  "onDragClick cf target clicks h =
     (let h = h_call ''removeLine'' [] h
      in case h_over h of
           Some o' \<Rightarrow>
             if clicks = 2 then
               (if h_isColumn h then
                  h_uno cf target ''.uno:SetOptimalColumnWidthDirect'' None
                    (selectHeader cf target (n_index o' + h_startIndex h) 0 h)
                else
                  h_uno cf target ''.uno:SetOptimalRowHeight''
                    (Some (UObj [(''aExtraHeight'', typed ''unsigned short'' (UInt 0))]))
                    (h_uno cf target ''.uno:SelectRow'' (Some (select_args h (n_index o' + h_startIndex h) 0)) h))
             else h
         | None \<Rightarrow> h)"

definition onMouseUp :: "sconf \<Rightarrow> unotarget \<Rightarrow> hevent \<Rightarrow> header \<Rightarrow> header" where
  "onMouseUp cf target e h =
     (let h = (if h_dragging h
               then (case h_drag h of None \<Rightarrow> h | Some (start, offset) \<Rightarrow> (onDragEnd start offset e h)\<lparr>h_clicks := 0\<rparr>)
               else onDragClick cf target (Suc (h_clicks h)) (h\<lparr>h_clicks := Suc (h_clicks h)\<rparr>))
      in h\<lparr>h_drag := None, h_dragging := False\<rparr>)"

definition resetClickCount :: "header \<Rightarrow> header" where
  "resetClickCount h = h\<lparr>h_clicks := 0\<rparr>"

text \<open>The same by touch.\<close>

definition onPanStart :: "hevent \<Rightarrow> header \<Rightarrow> header" where
  "onPanStart e h =
     (if hitOutline e h then h
      else
        let r = entryAtPoint (canvas_pos h e) h; h = snd r
        in case fst r of
             None \<Rightarrow> h
           | Some (entry, hit) \<Rightarrow>
               (let h = h\<lparr>h_over := Some entry\<rparr>
                in case Option.bind (h_data h) (data_get (n_index entry)) of
                     Some c \<Rightarrow>
                       (case entry_rect c h of
                          None \<Rightarrow> h
                        | Some (p, q) \<Rightarrow> h_call ''drawLine'' [] (h\<lparr>h_drag := Some (p, point_subtract q (ev_client e))\<rparr>))
                   | None \<Rightarrow> h_call ''TypeError'' [] h))"

definition onPanEnd :: "hevent \<Rightarrow> header \<Rightarrow> header" where
  "onPanEnd e h =
     (let h = (case h_drag h of None \<Rightarrow> h | Some (start, offset) \<Rightarrow> onDragEnd start offset e h)
      in h\<lparr>h_over := None, h_drag := None, h_dragging := False\<rparr>)"

section \<open>Names of columns\<close>

definition colAlphaToNumber :: "string \<Rightarrow> int" where
  "colAlphaToNumber alpha =
     fold (\<lambda>i res. res + (int (char_code (alpha ! (length alpha - i - 1))) - 65 + 1) * 26 ^ i) [0..<length alpha] 0"

function colIndexToAlpha_loop :: "int \<Rightarrow> string \<Rightarrow> string" where
  "colIndexToAlpha_loop dividend name =
     (if dividend > 0 then
        (let m = (dividend - 1) mod 26 in colIndexToAlpha_loop ((dividend - m) div 26) (char_of (nat (65 + m)) # name))
      else name)"
  by pat_completeness auto
termination
  by (relation "measure (\<lambda>(n, s). nat n)") (auto simp: Let_def)

declare colIndexToAlpha_loop.simps [simp del]

definition colIndexToAlpha :: "int \<Rightarrow> string" where
  "colIndexToAlpha n = colIndexToAlpha_loop n []"


section \<open>Facts\<close>

lemma letter_code: "0 \<le> m \<Longrightarrow> m < 26 \<Longrightarrow> int (char_code (char_of (nat (65 + m)))) - 65 + 1 = m + 1"
  by (simp add: char_code_def)

definition alpha_value :: "string \<Rightarrow> int" where
  "alpha_value s = (\<Sum>i<length s. (int (char_code (s ! (length s - i - 1))) - 65 + 1) * 26 ^ i)"

lemma colAlpha_sum: "colAlphaToNumber s = alpha_value s"
proof -
  have "fold (\<lambda>i res. res + f i) [0..<n] a = a + (\<Sum>i<n. f i)" for f :: "nat \<Rightarrow> int" and n a
    by (induction n) (auto simp: algebra_simps)
  from this [of _ "length s" 0] show ?thesis unfolding colAlphaToNumber_def alpha_value_def by simp
qed

lemma alpha_value_Cons: "alpha_value (c # s) = (int (char_code c) - 65 + 1) * 26 ^ length s + alpha_value s"
proof -
  have "(\<Sum>i<length s. (int (char_code ((c # s) ! (length (c # s) - i - 1))) - 65 + 1) * 26 ^ i) = alpha_value s"
    unfolding alpha_value_def by (rule sum.cong) (auto simp: nth_Cons' Suc_diff_le)
  then show ?thesis by (simp add: alpha_value_def)
qed

lemma alpha_loop:
  "0 \<le> n \<Longrightarrow> alpha_value (colIndexToAlpha_loop n s) = n * 26 ^ length s + alpha_value s"
proof (induction n s rule: colIndexToAlpha_loop.induct)
  case (1 n s)
  show ?case
  proof (cases "n > 0")
    case True
    define m where "m = (n - 1) mod 26"
    have m: "0 \<le> m" "m < 26" by (simp_all add: m_def)
    have "(n - 1) mod 26 = n - 1 - 26 * ((n - 1) div 26)" by (simp add: minus_mult_div_eq_mod)
    then have n: "n - m = 26 * ((n - 1) div 26) + 1" by (simp add: m_def)
    have d: "(n - m) div 26 = (n - 1) div 26" unfolding n by simp
    have "alpha_value (colIndexToAlpha_loop n s) =
        alpha_value (colIndexToAlpha_loop ((n - m) div 26) (char_of (nat (65 + m)) # s))"
      using True by (subst colIndexToAlpha_loop.simps) (simp add: m_def Let_def)
    also have "\<dots> = (n - m) div 26 * 26 ^ Suc (length s) + ((m + 1) * 26 ^ length s + alpha_value s)"
      using 1(1) [OF True m_def] True d letter_code [OF m] by (simp add: alpha_value_Cons)
    also have "\<dots> = (26 * ((n - 1) div 26) + m + 1) * 26 ^ length s + alpha_value s" by (simp add: d algebra_simps)
    also have "26 * ((n - 1) div 26) + m + 1 = n" using n by simp
    finally show ?thesis by simp
  next
    case False
    then show ?thesis using 1(2) by (subst colIndexToAlpha_loop.simps) simp
  qed
qed

lemma h_call_frame [simp]: "h_data (h_call f a h) = h_data h" "h_conv (h_call f a h) = h_conv h" "h_isColumn (h_call f a h) = h_isColumn h"
  "h_data (h_do g h) = h_data h" "h_conv (h_do g h) = h_conv h" "h_isColumn (h_do g h) = h_isColumn h"
  by (simp_all add: h_call_def h_do_def)

lemma pixels_cong: "h_conv w = h_conv h \<Longrightarrow> h_isColumn w = h_isColumn h \<Longrightarrow> h_twipsToPixels w t = h_twipsToPixels h t"
  by (simp add: h_twipsToPixels_def par_def split: option.split)

text \<open>Filling draws, so that of the data only the position changes, and the conversion stays.\<close>

definition keeps_look :: "header \<Rightarrow> header \<Rightarrow> bool" where
  "keeps_look h w \<longleftrightarrow> h_conv w = h_conv h \<and> h_isColumn w = h_isColumn h"

lemma look_refl [simp]: "keeps_look h h"
  by (simp add: keeps_look_def)

lemma look_trans: "keeps_look h v \<Longrightarrow> keeps_look v w \<Longrightarrow> keeps_look h w"
  by (simp add: keeps_look_def)

lemma draw_look: "keeps_look h (drawHeaderEntry e a b c h)"
  by (simp add: drawHeaderEntry_def keeps_look_def Let_def split: option.split)

lemma loop_inv:
  assumes "\<And>e s. I s \<Longrightarrow> I (snd (f e s))" "I s"
  shows "I (snd (data_loop f e d s))"
  using assms
proof (induction f e d s rule: data_loop.induct)
  case (2 f e d s)
  show ?case
  proof (cases "f e s")
    case (Pair b t)
    have t: "I t" using "2.prems"(1) [of s e] "2.prems"(2) Pair by simp
    obtain x w where "data_getNext d = (x, w)" by fastforce
    then show ?thesis using "2.IH" [OF Pair [symmetric] _ _ "2.prems"(1) t] Pair t by (cases b) simp_all
  qed
qed simp

lemma each_inv: "(\<And>e s. I s \<Longrightarrow> I (snd (f e s))) \<Longrightarrow> I s \<Longrightarrow> I (snd (data_each f d s))"
  by (simp add: data_each_def loop_inv split: prod.split)

lemma fill_headers_data:
  fixes levels groups conv h
  assumes "2 \<le> length rows"
  defines "w \<equiv> fill_headers rows levels groups conv h"
  shows "h_conv w = Some conv" "h_isColumn w = h_isColumn h"
    and "\<exists>d. h_data w = Some d \<and> same_data (fill_data (h_twipsToPixels w) rows) d"
proof -
  define a where "a = fill_start rows levels conv h"
  define c where "c = fill_size (fill_groups groups a)"
  have w: "w = fill_draw c" using assms(1) by (simp add: w_def fill_headers_def a_def c_def)
  have a: "h_conv a = Some conv" "h_isColumn a = h_isColumn h"
    "h_data a = Some (fill_data (h_twipsToPixels (h\<lparr>h_conv := Some conv\<rparr>)) rows)"
  proof -
    show "h_conv a = Some conv" "h_isColumn a = h_isColumn h" by (simp_all add: a_def fill_start_def Let_def)
    have "h_twipsToPixels (h\<lparr>h_startIndex := fst (hd rows), h_current := -1, h_selStart := -1, h_selEnd := -1, h_over := None,
        h_lastOver := None, h_conv := Some conv, h_groups := g\<rparr>) = h_twipsToPixels (h\<lparr>h_conv := Some conv\<rparr>)" for g
      by (rule ext, rule pixels_cong) simp_all
    then show "h_data a = Some (fill_data (h_twipsToPixels (h\<lparr>h_conv := Some conv\<rparr>)) rows)"
      by (simp add: a_def fill_start_def Let_def)
  qed
  have c: "keeps_look a c" "h_data c = h_data a"
    by (simp_all add: c_def fill_size_def fill_groups_def collectGroupsData_def h_resize_def keeps_look_def split: option.split)
  define r where "r = data_each (\<lambda>e h. (False, drawHeaderEntry (Some e) False None False h)) (fill_data (h_twipsToPixels (h\<lparr>h_conv := Some conv\<rparr>)) rows) c"
  have "keeps_look c (snd r)"
    unfolding r_def by (rule each_inv) (auto intro: look_trans draw_look)
  then have k: "keeps_look a (snd r)" by (rule look_trans [OF c(1)])
  have wr: "w = h_call ''drawOutline'' [] ((snd r)\<lparr>h_data := Some (fst r)\<rparr>)"
    by (simp add: w fill_draw_def r_def c(2) a(3) Let_def)
  show conv: "h_conv w = Some conv" "h_isColumn w = h_isColumn h"
    using k a by (simp_all add: wr keeps_look_def)
  have "h_twipsToPixels w t = h_twipsToPixels (h\<lparr>h_conv := Some conv\<rparr>) t" for t
    by (rule pixels_cong) (simp_all add: conv)
  then have "h_twipsToPixels w = h_twipsToPixels (h\<lparr>h_conv := Some conv\<rparr>)" by (rule ext)
  then have "same_data (fill_data (h_twipsToPixels w) rows) (fst r)" by (simp add: r_def same_data_each)
  then show "\<exists>d. h_data w = Some d \<and> same_data (fill_data (h_twipsToPixels w) rows) d" by (simp add: wr)
qed

lemma fill_headers_edges:
  assumes "2 \<le> length rows" "sorted_wrt (<) (map fst rows)"
  shows "\<exists>d edge. h_data (fill_headers rows levels groups conv h) = Some d \<and> filled d \<and>
    d_end d = fst (last rows) - fst (hd rows) \<and> edge 0 = snd (hd rows) \<and>
    (\<forall>x \<in> set (tl rows). edge (fst x - fst (hd rows)) = snd x) \<and>
    (\<forall>j. 1 \<le> j \<and> j \<le> d_end d \<longrightarrow> data_get j d = Some (Some \<lparr>n_index = j,
       n_pos = h_twipsToPixels (fill_headers rows levels groups conv h) (edge j),
       n_size = h_twipsToPixels (fill_headers rows levels groups conv h) (edge j - edge (j - 1))\<rparr>))"
proof -
  let ?w = "fill_headers rows levels groups conv h"
  let ?d = "fill_data (h_twipsToPixels ?w) rows"
  obtain d where d: "h_data ?w = Some d" "same_data ?d d" using fill_headers_data(3) [OF assms(1)] by blast
  obtain e where e: "e 0 = snd (hd rows)" "filled ?d" "d_end ?d = fst (last rows) - fst (hd rows)"
    "d_conv ?d = Some (h_twipsToPixels ?w)" "edges_fit ?d e (fst (last rows) - fst (hd rows))"
    "\<forall>x \<in> set (tl rows). e (fst x - fst (hd rows)) = snd x"
    using fill_data_edges [OF assms] by blast
  have "data_get j d = Some (Some \<lparr>n_index = j, n_pos = h_twipsToPixels ?w (e j), n_size = h_twipsToPixels ?w (e j - e (j - 1))\<rparr>)"
    if "1 \<le> j" "j \<le> d_end d" for j
  proof -
    have "j \<le> d_end ?d" using that d(2) by (simp add: same_data_def)
    then show ?thesis
      using get_twips [of j ?d "e j" "e j - e (j - 1)"] e(3,4,5) that(1) same_data_get(1) [OF d(2), of j]
      by (simp add: edges_fit_def data_twipsToPixels_def)
  qed
  moreover have "filled d" "d_end d = d_end ?d"
    using d(2) e(2) same_data_ok [OF d(2)] by (simp_all add: filled_def same_data_def)
  ultimately show ?thesis using d(1) e by (intro exI [of _ d] exI [of _ e]) simp
qed


lemma each_filled:
  assumes "filled d"
  shows "snd (data_each f d s) = snd (walk_list f (map (header_at d) (filter (visited d) [1..d_end d])) s)"
  using each_visits [of d f s] assms by (simp add: filled_def)

section \<open>Properties\<close>

text \<open>A spreadsheet with headers 1 to 6 in three runs, the second hidden, 15 twips to a pixel.\<close>

definition demo_rows :: "(int \<times> int) list" where
  "demo_rows = [(0, 0), (1, 256), (3, 512), (5, 812), (6, 1112)]"

definition demo_header :: "bool \<Rightarrow> header" where
  "demo_header column = \<lparr>h_isColumn = column, h_conv = None, h_canvasOrt = 20, h_headerOrt = 20, h_borderWidth = 1,
     h_rect = (pt 0 0, pt 20 500), h_clicks = 0, h_current = -1, h_selStart = -1, h_selEnd = -1, h_over = None,
     h_lastOver = None, h_hitResize = False, h_overArea = False, h_clickOn = True, h_dragging = False, h_drag = None,
     h_groups = None, h_data = None, h_startIndex = 0, h_startOffset = 0, h_position = 0, h_docSelections = 0,
     h_layer = demo_layer\<lparr>l_docType := ''spreadsheet''\<rparr>\<rparr>"

lemma h_twips_doc:
  assumes "h_conv h = Some (twipsToPixels g)"
  shows "h_twipsToPixels h t =
    js_round (of_int t * (of_int (g_tileSize g) / of_int (if h_isColumn h then g_widthTwips g else g_heightTwips g)))"
  using assms by (simp add: h_twipsToPixels_def twipsToPixels_def par_def ipt_def)

lemma round_split: "\<bar>js_round a - js_round (a - b) - js_round b\<bar> \<le> 1"
proof -
  have "\<bar>of_int (js_round a) - of_int (js_round (a - b)) - (of_int (js_round b) :: real)\<bar> < 2"
    using js_round_near [of a] js_round_near [of "a - b"] js_round_near [of b] by linarith
  then have "of_int \<bar>js_round a - js_round (a - b) - js_round b\<bar> < (2 :: real)" by simp
  then show ?thesis by linarith
qed

text \<open>
  C34: the headers lie edge to edge. After a message with ascending numbers there is one header for each number
  from the first to the last, also inside a run of equal ones, and one sequence of edges through all the
  positions the server sent, such that each header reaches from edge to edge; in pixels, where position and
  size are rounded separately, the start of a header is off its neighbour's end by at most one.
\<close>

theorem headers_lie_edge_to_edge:
  fixes levels groups g h
  assumes "2 \<le> length rows" "sorted_wrt (<) (map fst rows)"
  defines "w \<equiv> fill_headers rows levels groups (twipsToPixels g) h"
  shows "\<exists>d edge. h_data w = Some d \<and> d_end d = fst (last rows) - fst (hd rows) \<and> edge 0 = snd (hd rows) \<and>
    (\<forall>x \<in> set (tl rows). edge (fst x - fst (hd rows)) = snd x) \<and>
    (\<forall>j. 1 \<le> j \<and> j \<le> d_end d \<longrightarrow> (\<exists>e. data_get j d = Some (Some e) \<and> n_index e = j \<and>
       n_pos e = h_twipsToPixels w (edge j) \<and> n_size e = h_twipsToPixels w (edge j - edge (j - 1)) \<and>
       \<bar>n_pos e - n_size e - h_twipsToPixels w (edge (j - 1))\<bar> \<le> 1))"
proof -
  obtain d edge where d: "h_data w = Some d" "d_end d = fst (last rows) - fst (hd rows)" "edge 0 = snd (hd rows)"
    "\<forall>x \<in> set (tl rows). edge (fst x - fst (hd rows)) = snd x"
    "\<forall>j. 1 \<le> j \<and> j \<le> d_end d \<longrightarrow> data_get j d = Some (Some \<lparr>n_index = j, n_pos = h_twipsToPixels w (edge j),
       n_size = h_twipsToPixels w (edge j - edge (j - 1))\<rparr>)"
    using fill_headers_edges [OF assms(1,2), of levels groups "twipsToPixels g" h] unfolding w_def by blast
  have c: "h_conv w = Some (twipsToPixels g)" unfolding w_def by (rule fill_headers_data(1) [OF assms(1)])
  have "\<bar>h_twipsToPixels w a - h_twipsToPixels w (a - b) - h_twipsToPixels w b\<bar> \<le> 1" for a b
    unfolding h_twips_doc [OF c] of_int_diff left_diff_distrib by (rule round_split)
  with d show ?thesis by (intro exI [of _ d] exI [of _ edge]) auto
qed

lemma headers_lie_edge_to_edge_witness:
  "\<exists>d edge. h_data (fill_headers demo_rows 0 None (twipsToPixels demo_grid) (demo_header False)) = Some d \<and>
    d_end d = fst (last demo_rows) - fst (hd demo_rows) \<and> edge 0 = snd (hd demo_rows) \<and>
    (\<forall>x \<in> set (tl demo_rows). edge (fst x - fst (hd demo_rows)) = snd x) \<and>
    (\<forall>j. 1 \<le> j \<and> j \<le> d_end d \<longrightarrow> (\<exists>e. data_get j d = Some (Some e) \<and> n_index e = j \<and>
       n_pos e = h_twipsToPixels (fill_headers demo_rows 0 None (twipsToPixels demo_grid) (demo_header False)) (edge j) \<and>
       n_size e = h_twipsToPixels (fill_headers demo_rows 0 None (twipsToPixels demo_grid) (demo_header False)) (edge j - edge (j - 1)) \<and>
       \<bar>n_pos e - n_size e - h_twipsToPixels (fill_headers demo_rows 0 None (twipsToPixels demo_grid) (demo_header False)) (edge (j - 1))\<bar> \<le> 1))"
  by (rule headers_lie_edge_to_edge) (simp_all add: demo_rows_def)

text \<open>
  C35: a pass over the headers (\<open>getFirst\<close>, \<open>getNext\<close> until \<open>null\<close>) with a body that may break off is the body on the
  list of the headers, as \<open>get\<close> finds them by binary search, from the first to the last in order; the first
  pass after a message leaves out the runs without size.
\<close>

theorem pass_visits_headers:
  assumes "filled d"
  shows "snd (data_each f d s) = snd (walk_list f (map (header_at d) (filter (visited d) [1..d_end d])) s)"
  by (rule each_filled [OF assms])

lemma demo_filled: "filled (fill_data id demo_rows)"
  using fill_data_edges [of demo_rows id] by (auto simp: demo_rows_def)

lemma pass_visits_headers_witness:
  "snd (data_each (\<lambda>e s. (n_index e = 4, s + n_size e)) (fill_data id demo_rows) 0) =
   snd (walk_list (\<lambda>e s. (n_index e = 4, s + n_size e))
     (map (header_at (fill_data id demo_rows)) (filter (visited (fill_data id demo_rows)) [1..d_end (fill_data id demo_rows)])) 0)"
  by (rule pass_visits_headers [OF demo_filled])

text \<open>
  \<open>_entryAtPoint\<close> gives the first visible header that holds the point, with the resize area judged by whether
  it is the current one, and nothing when no header does.
\<close>

theorem point_finds_header:
  assumes "h_data h = Some d" "filled d"
  shows "fst (entryAtPoint p h) =
    map_option (\<lambda>e. (e, resize_hit (par h p - h_position h) e h))
      (List.find (under_point (par h p - h_position h)) (map (header_at d) (filter (visited d) [1..d_end d])))"
  using each_visits [of d "\<lambda>e s. if under_point (par h p - h_position h) e
      then (True, Some (e, resize_hit (par h p - h_position h) e h)) else (False, s)" None] assms
  by (simp add: entryAtPoint_def Let_def filled_def walk_find split: option.split)

lemma point_finds_header_witness:
  "let h = (demo_header False)\<lparr>h_data := Some (fill_data id demo_rows)\<rparr>; d = fill_data id demo_rows; p = pt 5 300 in
   fst (entryAtPoint p h) =
    map_option (\<lambda>e. (e, resize_hit (par h p - h_position h) e h))
      (List.find (under_point (par h p - h_position h)) (map (header_at d) (filter (visited d) [1..d_end d])))"
  unfolding Let_def by (rule point_finds_header [OF _ demo_filled]) simp

text \<open>
  C37: the names of columns. Every number from 1 has a name, and reading the name gives the number back.
\<close>

theorem column_names_roundtrip:
  assumes "0 \<le> n"
  shows "colAlphaToNumber (colIndexToAlpha n) = n"
  using alpha_loop [OF assms, of "[]"] by (simp add: colAlpha_sum colIndexToAlpha_def) (simp add: alpha_value_def)

lemma column_names_roundtrip_witness: "colAlphaToNumber (colIndexToAlpha 703) = 703"
  by (rule column_names_roundtrip) simp


text \<open>
  the level of a control. The controls of level \<open>l\<close> are drawn from pixel \<open>13 l + 1\<close> to \<open>13 l + 13\<close>; a click in
  the first eleven pixels gives that level, a click in the last one gives the next level, whose group is then
  collapsed instead.
\<close>

theorem control_pixel_levels:
  assumes "l < levels"
  shows "(\<forall>pos. of_nat (13 * l + 1) < pos \<and> pos < (of_nat (13 * l + 12) :: real) \<longrightarrow> getGroupLevel levels pos = int l) \<and>
    (\<forall>pos. of_nat (13 * l + 12) \<le> pos \<and> pos < (of_nat (13 * l + 13) :: real) \<longrightarrow> getGroupLevel levels pos = int l + 1)"
proof -
  have t: "js_trunc (x / 13) = n" if "of_int (13 * n) \<le> x" "x < of_int (13 * n + 13)" "0 \<le> n" for x :: real and n
  proof -
    have "\<lfloor>x / 13\<rfloor> = n" using that by (simp add: floor_eq_iff)
    moreover have "0 \<le> x" using that by (simp add: order_trans [of 0 "of_int (13 * n)" x])
    ultimately show ?thesis by (simp add: js_trunc_def)
  qed
  have a: "getGroupLevel levels pos = int l" if "of_nat (13 * l + 1) < pos" "pos < (of_nat (13 * l + 12) :: real)" for pos
    using t [of "int l" "pos + 1"] t [of "int l" pos] that assms
    by (simp add: getGroupLevel_def Let_def level_spacing_def group_head_def)
  have b: "getGroupLevel levels pos = int l + 1" if "of_nat (13 * l + 12) \<le> pos" "pos < (of_nat (13 * l + 13) :: real)" for pos
    using t [of "int l + 1" "pos + 1"] t [of "int l" pos] that assms
    by (simp add: getGroupLevel_def Let_def level_spacing_def group_head_def)
  from a b show ?thesis by blast
qed

lemma control_pixel_levels_witness:
  "(\<forall>pos. of_nat (13 * 0 + 1) < pos \<and> pos < (of_nat (13 * 0 + 12) :: real) \<longrightarrow> getGroupLevel 2 pos = int 0) \<and>
   (\<forall>pos. of_nat (13 * 0 + 12) \<le> pos \<and> pos < (of_nat (13 * 0 + 13) :: real) \<longrightarrow> getGroupLevel 2 pos = int 0 + 1)"
  by (rule control_pixel_levels) simp

lemma zero_size_end: "isZeroSize (d_end d) d = Some True"
  by (simp add: isZeroSize_def)

text \<open>
  dragging the border of the last row but one resizes the row after it, whatever the size of that one:
  \<open>isZeroSize\<close> holds the last fetched row for a hidden one.
\<close>

theorem last_border_resizes_next:
  assumes "\<not> h_isColumn h" "h_over h = Some c" "h_data h = Some d" "n_index c + 1 = d_end d"
    and "par h (pixelsToTwips (l_grid (h_layer h)) (point_subtract (pt (px (ev_client e)) (py (ev_client e) + py offset)) start)) \<noteq> 0"
  shows "\<exists>x. log (g_net (l_grid (h_layer (onDragEnd start offset e h)))) = log (g_net (l_grid (h_layer h))) @
    [Called ''sendUnoCommand'' [JStr ''.uno:RowHeight'', JReal x, JInt (d_end d + h_startIndex h)], Called ''removeLine'' []]"
proof -
  have i: "n_index c + h_startIndex h + 1 = d_end d + h_startIndex h" using assms(4) by simp
  show ?thesis using assms(1-3,5) zero_size_end [of d]
    by (simp add: onDragEnd_def assms(4) i Let_def updateHeader_def h_call_def h_do_def lemit_def on_grid_def gemit_def emit_def)
qed


lemma last_border_resizes_next_witness:
  "let h = (demo_header False)\<lparr>h_over := Some \<lparr>n_index = 5, n_pos = 812, n_size = 300\<rparr>, h_data := Some (fill_data id demo_rows)\<rparr>;
       e = \<lparr>ev_client = pt 5 70, ev_shift = False, ev_ctrl = False\<rparr>
   in \<exists>x. log (g_net (l_grid (h_layer (onDragEnd (pt 0 34) (pt 15 4) e h)))) = log (g_net (l_grid (h_layer h))) @
    [Called ''sendUnoCommand'' [JStr ''.uno:RowHeight'', JReal x, JInt (d_end (fill_data id demo_rows) + h_startIndex h)],
     Called ''removeLine'' []]"
  unfolding Let_def
proof (rule last_border_resizes_next)
  show "n_index \<lparr>n_index = 5, n_pos = 812, n_size = 300\<rparr> + 1 = d_end (fill_data id demo_rows)"
    using fill_data_edges [of demo_rows id] by (auto simp: demo_rows_def)
qed (simp_all add: demo_header_def par_def pixelsToTwips_def demo_layer_def demo_grid_def)

text \<open>The selection's loop does not set its end where no header holds it.\<close>

lemma select_walk_end:
  assumes "\<forall>x \<in> set es. \<not> (n_pos x - n_size x \<le> end \<and> end \<le> n_pos x)"
  shows "snd (snd (snd (snd (walk_list (select_body start end) es (h, b, a, z))))) = z"
  using assms
proof (induction es arbitrary: h b a)
  case (Cons x es)
  have "fst (select_body start end x (h, b, a, z)) = False" using Cons.prems by (simp add: select_body_def Let_def)
  then obtain h' b' a' where "select_body start end x (h, b, a, z) = (False, h', b', a', z)"
    by (cases "select_body start end x (h, b, a, z)") (auto simp: select_body_def Let_def split: if_splits)
  then show ?case using Cons by simp
qed simp

text \<open>
  a selection that reaches beyond the last header leaves that header out: its end becomes the number before
  the last, so that the last header is drawn selected and then taken for not highlighted. The comment
  there says it is set to the greatest possible value.
\<close>

theorem selection_past_end:
  assumes "h_data h = Some d" "filled d"
    and "\<forall>j. 1 \<le> j \<and> j \<le> d_end d \<longrightarrow> \<not> (n_pos (header_at d j) - n_size (header_at d j) \<le> end \<and> end \<le> n_pos (header_at d j))"
    and "h_selStart (updateSelection start end h) \<noteq> -1"
  shows "h_selEnd (updateSelection start end h) = d_end d - 1 \<and> \<not> isHighlighted (d_end d) (updateSelection start end h)"
proof -
  have ne: "d_indexes d \<noteq> []" "\<not> data_isEmpty d" using assms(2) by (simp_all add: filled_def data_isEmpty_def)
  define f where "f = data_getFirst d"
  define early where "early = (case fst f of None \<Rightarrow> False | Some e \<Rightarrow> start < n_pos e - n_size e \<and> end > n_pos e - n_size e)"
  define r where "r = data_loop (select_body start end) (fst f) (snd f) (h, early, if early then 1 else -1 :: int, -1 :: int)"
  have r: "r = data_each (select_body start end) d (h, early, if early then 1 else -1, -1)"
    by (simp add: r_def data_each_def f_def split: prod.split)
  have "snd (snd (snd (snd r))) = -1"
    unfolding r each_filled [OF assms(2)] by (rule select_walk_end) (use assms(3) in auto)
  then obtain d' h' b a where ra: "r = (d', h', b, a, -1)" by (cases r) auto
  have "same_data d (fst r)" unfolding r by (rule same_data_each)
  then have "same_data d d'" by (simp add: ra)
  then have "d_end d' = d_end d" by (simp add: same_data_def)
  then have "h_selStart (updateSelection start end h) = a" 
    "a \<noteq> -1 \<Longrightarrow> h_selEnd (updateSelection start end h) = d_end d - 1"
    using assms(1) ne(2) ra
    unfolding updateSelection_def by (simp_all add: Let_def f_def [symmetric] early_def [symmetric] r_def [symmetric] data_getLength_def split: prod.split)
  then show ?thesis using assms(4) by (simp add: isHighlighted_def)
qed


lemma selection_past_end_witness:
  "let h = (demo_header False)\<lparr>h_data := Some (fill_data id demo_rows)\<rparr>
   in h_selEnd (updateSelection 100 2000 h) = d_end (fill_data id demo_rows) - 1 \<and>
      \<not> isHighlighted (d_end (fill_data id demo_rows)) (updateSelection 100 2000 h)"
  unfolding Let_def
proof (rule selection_past_end [OF _ demo_filled])
  have "h_selStart (updateSelection 100 2000 ((demo_header False)\<lparr>h_data := Some (fill_data id demo_rows)\<rparr>)) = 1" by code_simp
  then show "h_selStart (updateSelection 100 2000 ((demo_header False)\<lparr>h_data := Some (fill_data id demo_rows)\<rparr>)) \<noteq> -1" by simp
  have e: "d_end (fill_data id demo_rows) = 6" by code_simp
  have "list_all (\<lambda>j. \<not> (n_pos (header_at (fill_data id demo_rows) j) - n_size (header_at (fill_data id demo_rows) j) \<le> 2000
      \<and> 2000 \<le> n_pos (header_at (fill_data id demo_rows) j))) [1..6]" by code_simp
  then show "\<forall>j. 1 \<le> j \<and> j \<le> d_end (fill_data id demo_rows) \<longrightarrow> \<not> (n_pos (header_at (fill_data id demo_rows) j) -
      n_size (header_at (fill_data id demo_rows) j) \<le> 2000 \<and> 2000 \<le> n_pos (header_at (fill_data id demo_rows) j))"
    unfolding e by (auto simp: list_all_iff)
qed simp

end
