(* ===== verification/Events.thy ===== *)
theory Events
  imports Util
begin

text \<open>
  The event mixin (\<open>core/Events.js\<close>). An object keeps its listeners in \<open>_events\<close>: under a type, the
  array of those without a context of their own; under the type with \<open>_idx\<close>, an object that holds the
  others by a key made of two stamps; under the type with \<open>_len\<close>, the number of these. The three keys of
  a type are three fields here, so that a type that itself ends in \<open>_idx\<close> or \<open>_len\<close> is outside (the
  source has none).

  Listeners and index objects are shared: a \<open>fire\<close> that is under way still holds those a listener
  removes meanwhile. They live in a store, and the store, not the key, says what is called. A \<open>fire\<close>
  can be interrupted by the \<open>on\<close>, \<open>off\<close> and \<open>fire\<close> of the listeners it calls, so it is a machine with
  a stack of frames, one step for each listener, in which the body of a listener is any list of calls
  that may depend on all that happened. \<open>for (id in obj)\<close> visits the keys present at its start that
  are still there when their turn comes, as the engines do.
\<close>

section \<open>Objects, stamps, listeners\<close>

text \<open>Functions are the program's own or the handlers that \<open>once\<close> makes. Objects are contexts too.\<close>

datatype fref = User nat | Handler nat

type_synonym oref = nat

datatype thing = Fn fref | Ob oref

text \<open>A listener; \<open>None\<close> as its function is \<open>L.Util.falseFn\<close>.\<close>

record listener =
  c_fn :: "fref option"
  c_ctx :: "oref option"

record events =
  e_list :: "string \<Rightarrow> nat list option"
  e_idx :: "string \<Rightarrow> nat option"
  e_len :: "string \<Rightarrow> int option"

text \<open>What a call of \<open>once\<close> closes over: the object, the types, the function and the context.\<close>

type_synonym closure = "oref \<times> string \<times> fref \<times> oref option"

record world =
  w_events :: "oref \<Rightarrow> events option"
  w_parents :: "oref \<Rightarrow> (nat \<times> oref) list option"
  w_cells :: "listener list"
  w_index :: "(string, nat) obj list"
  w_once :: "closure list"
  w_ids :: "thing \<Rightarrow> nat option"
  w_lastId :: nat
  w_calls :: "(nat \<times> oref \<times> string \<times> fref \<times> oref) list"

definition no_events :: events where
  "no_events = \<lparr>e_list = (\<lambda>_. None), e_idx = (\<lambda>_. None), e_len = (\<lambda>_. None)\<rparr>"

definition new_world :: world where
  "new_world = \<lparr>w_events = (\<lambda>_. None), w_parents = (\<lambda>_. None), w_cells = [], w_index = [], w_once = [],
     w_ids = (\<lambda>_. None), w_lastId = 0, w_calls = []\<rparr>"

definition stamp :: "thing \<Rightarrow> world \<Rightarrow> nat \<times> world" where
  "stamp a w = (case w_ids w a of
      Some i \<Rightarrow> (i, w)
    | None \<Rightarrow> (let i = w_lastId w + 1 in (i, w\<lparr>w_ids := (w_ids w)(a \<mapsto> i), w_lastId := i\<rparr>)))"

definition events_of :: "world \<Rightarrow> oref \<Rightarrow> events" where
  "events_of w o' = (case w_events w o' of None \<Rightarrow> no_events | Some e \<Rightarrow> e)"

definition set_events :: "oref \<Rightarrow> events \<Rightarrow> world \<Rightarrow> world" where
  "set_events o' e w = w\<lparr>w_events := (w_events w)(o' \<mapsto> e)\<rparr>"

definition index_key :: "nat \<Rightarrow> nat \<Rightarrow> string" where
  "index_key f x = show_nat f @ ''_'' @ show_nat x"

text \<open>A context counts when it is given and is not the object itself.\<close>

definition own_context :: "oref \<Rightarrow> oref option \<Rightarrow> oref option" where
  "own_context o' ctx = (case ctx of None \<Rightarrow> None | Some x \<Rightarrow> if x = o' then None else Some x)"

section \<open>Adding and removing\<close>

definition on_plain :: "oref \<Rightarrow> string \<Rightarrow> fref \<Rightarrow> world \<Rightarrow> world" where
  "on_plain o' t f w =
     (let e = events_of w o';
          l = (case e_list e t of None \<Rightarrow> [] | Some l \<Rightarrow> l);
          c = length (w_cells w);
          w = w\<lparr>w_cells := w_cells w @ [\<lparr>c_fn = Some f, c_ctx = None\<rparr>]\<rparr>
      in set_events o' (e\<lparr>e_list := (e_list e)(t \<mapsto> l @ [c])\<rparr>) w)"

definition type_index :: "oref \<Rightarrow> string \<Rightarrow> world \<Rightarrow> nat \<times> world" where
  "type_index o' t w =
     (let e = events_of w o' in
      case e_idx e t of
        Some i \<Rightarrow> (i, w)
      | None \<Rightarrow>
          (let i = length (w_index w); w = w\<lparr>w_index := w_index w @ [[]]\<rparr>
           in (i, set_events o' (e\<lparr>e_idx := (e_idx e)(t \<mapsto> i)\<rparr>) w)))"

definition on_context :: "oref \<Rightarrow> string \<Rightarrow> fref \<Rightarrow> oref \<Rightarrow> world \<Rightarrow> world" where
  "on_context o' t f x w =
     (let (xid, w) = stamp (Ob x) w;
          (i, w) = type_index o' t w;
          (fid, w) = stamp (Fn f) w;
          k = index_key fid xid
      in case obj_get (w_index w ! i) k of
           Some _ \<Rightarrow> w
         | None \<Rightarrow>
             (let e = events_of w o';
                  c = length (w_cells w);
                  w = w\<lparr>w_cells := w_cells w @ [\<lparr>c_fn = Some f, c_ctx = Some x\<rparr>],
                        w_index := (w_index w)[i := obj_put k c (w_index w ! i)]\<rparr>;
                  n = (case e_len e t of None \<Rightarrow> 0 | Some n \<Rightarrow> n)
              in set_events o' (e\<lparr>e_len := (e_len e)(t \<mapsto> n + 1)\<rparr>) w))"

definition on1 :: "oref \<Rightarrow> string \<Rightarrow> fref \<Rightarrow> oref option \<Rightarrow> world \<Rightarrow> world" where
  "on1 o' t f ctx w =
     (let w = set_events o' (events_of w o') w in
      case own_context o' ctx of
        Some x \<Rightarrow> on_context o' t f x w
      | None \<Rightarrow> on_plain o' t f w)"

definition silence :: "nat \<Rightarrow> world \<Rightarrow> world" where
  "silence c w = w\<lparr>w_cells := (w_cells w)[c := (w_cells w ! c)\<lparr>c_fn := None\<rparr>]\<rparr>"

definition off_type :: "oref \<Rightarrow> string \<Rightarrow> world \<Rightarrow> world" where
  "off_type o' t w = (case w_events w o' of
      None \<Rightarrow> w
    | Some e \<Rightarrow> set_events o' \<lparr>e_list = (e_list e)(t := None), e_idx = (e_idx e)(t := None), e_len = (e_len e)(t := None)\<rparr> w)"

definition off_context :: "oref \<Rightarrow> string \<Rightarrow> fref \<Rightarrow> oref \<Rightarrow> world \<Rightarrow> world" where
  "off_context o' t f x w =
     (let (xid, w) = stamp (Ob x) w;
          (fid, w) = stamp (Fn f) w;
          k = index_key fid xid;
          e = events_of w o'
      in case e_idx e t of
           None \<Rightarrow> w
         | Some i \<Rightarrow>
             (case obj_get (w_index w ! i) k of
                None \<Rightarrow> w
              | Some c \<Rightarrow>
                  silence c (set_events o' (e\<lparr>e_len := (e_len e)(t := map_option (\<lambda>n. n - 1) (e_len e t))\<rparr>)
                    (w\<lparr>w_index := (w_index w)[i := obj_del k (w_index w ! i)]\<rparr>))))"

text \<open>The first listener of the array with this function is cut out.\<close>

fun cut_first :: "fref \<Rightarrow> listener list \<Rightarrow> nat list \<Rightarrow> (nat \<times> nat list) option" where
  "cut_first f cells [] = None"
| "cut_first f cells (c # cs) =
     (if c_fn (cells ! c) = Some f then Some (c, cs)
      else (case cut_first f cells cs of None \<Rightarrow> None | Some (d, ds) \<Rightarrow> Some (d, c # ds)))"

definition off_plain :: "oref \<Rightarrow> string \<Rightarrow> fref \<Rightarrow> world \<Rightarrow> world" where
  "off_plain o' t f w =
     (let e = events_of w o' in
      case e_list e t of
        None \<Rightarrow> w
      | Some l \<Rightarrow>
          (case cut_first f (w_cells w) l of
             None \<Rightarrow> w
           | Some (c, l) \<Rightarrow> silence c (set_events o' (e\<lparr>e_list := (e_list e)(t \<mapsto> l)\<rparr>) w)))"

definition off1 :: "oref \<Rightarrow> string \<Rightarrow> fref option \<Rightarrow> oref option \<Rightarrow> world \<Rightarrow> world" where
  "off1 o' t f ctx w = (case w_events w o' of
      None \<Rightarrow> w
    | Some _ \<Rightarrow>
        (case f of
           None \<Rightarrow> off_type o' t w
         | Some f \<Rightarrow>
             (case own_context o' ctx of
                Some x \<Rightarrow> off_context o' t f x w
              | None \<Rightarrow> off_plain o' t f w)))"

text \<open>The types given as words with one function, or as an object from types to functions.\<close>

datatype types = Words string fref | Table "(string \<times> fref) list"

definition each_type :: "(string \<Rightarrow> fref \<Rightarrow> world \<Rightarrow> world) \<Rightarrow> types \<Rightarrow> world \<Rightarrow> world" where
  "each_type g ts w = (case ts of
      Words s f \<Rightarrow> fold (\<lambda>t. g t f) (splitWords s) w
    | Table es \<Rightarrow> fold (\<lambda>(t, f). g t f) es w)"

definition ev_on :: "oref \<Rightarrow> types \<Rightarrow> oref option \<Rightarrow> world \<Rightarrow> world" where
  "ev_on o' ts ctx = each_type (\<lambda>t f. on1 o' t f ctx) ts"

definition off_all :: "oref \<Rightarrow> world \<Rightarrow> world" where
  "off_all o' w = w\<lparr>w_events := (w_events w)(o' := None)\<rparr>"

definition ev_off :: "oref \<Rightarrow> types \<Rightarrow> oref option \<Rightarrow> world \<Rightarrow> world" where
  "ev_off o' ts ctx w = (case ts of
      Words [] f \<Rightarrow> off_all o' w
    | _ \<Rightarrow> each_type (\<lambda>t f. off1 o' t (Some f) ctx) ts w)"

text \<open>\<open>off\<close> with types and no function.\<close>

definition ev_off_types :: "oref \<Rightarrow> string \<Rightarrow> world \<Rightarrow> world" where
  "ev_off_types o' s w =
     (if s = [] then off_all o' w else fold (\<lambda>t. off1 o' t None None) (splitWords s) w)"

text \<open>\<open>once\<close> adds the function and a handler that removes both.\<close>

definition once_words :: "oref \<Rightarrow> string \<Rightarrow> fref \<Rightarrow> oref option \<Rightarrow> world \<Rightarrow> world" where
  "once_words o' s f ctx w =
     (let h = Handler (length (w_once w));
          w = w\<lparr>w_once := w_once w @ [(o', s, f, ctx)]\<rparr>
      in ev_on o' (Words s h) ctx (ev_on o' (Words s f) ctx w))"

definition ev_once :: "oref \<Rightarrow> types \<Rightarrow> oref option \<Rightarrow> world \<Rightarrow> world" where
  "ev_once o' ts ctx w = (case ts of
      Words s f \<Rightarrow> once_words o' s f ctx w
    | Table es \<Rightarrow> fold (\<lambda>(t, f). once_words o' t f ctx) es w)"

text \<open>Parents, in the order of their stamps: keys that are numbers come in ascending order.\<close>

fun put_sorted :: "nat \<Rightarrow> 'v \<Rightarrow> (nat \<times> 'v) list \<Rightarrow> (nat \<times> 'v) list" where
  "put_sorted k v [] = [(k, v)]"
| "put_sorted k v ((j, u) # m) =
     (if k < j then (k, v) # (j, u) # m else if k = j then (k, v) # m else (j, u) # put_sorted k v m)"

definition parents_of :: "world \<Rightarrow> oref \<Rightarrow> (nat \<times> oref) list" where
  "parents_of w o' = (case w_parents w o' of None \<Rightarrow> [] | Some ps \<Rightarrow> ps)"

definition addEventParent :: "oref \<Rightarrow> oref \<Rightarrow> world \<Rightarrow> world" where
  "addEventParent o' par w =
     (let (i, w) = stamp (Ob par) w
      in w\<lparr>w_parents := (w_parents w)(o' \<mapsto> put_sorted i par (parents_of w o'))\<rparr>)"

definition removeEventParent :: "oref \<Rightarrow> oref \<Rightarrow> world \<Rightarrow> world" where
  "removeEventParent o' par w = (case w_parents w o' of
      None \<Rightarrow> w
    | Some ps \<Rightarrow> (let (i, w) = stamp (Ob par) w in w\<lparr>w_parents := (w_parents w)(o' \<mapsto> obj_del i ps)\<rparr>))"

section \<open>Asking for listeners\<close>

text \<open>An array counts even when it is empty, the number of the index when it is not 0.\<close>

definition own_listeners :: "world \<Rightarrow> oref \<Rightarrow> string \<Rightarrow> bool" where
  "own_listeners w o' t = (case w_events w o' of
      None \<Rightarrow> False
    | Some e \<Rightarrow> e_list e t \<noteq> None \<or> (case e_len e t of None \<Rightarrow> False | Some n \<Rightarrow> n \<noteq> 0))"

text \<open>The recursion through the parents, with the objects still to ask as a list. It does not end when
  objects without listeners are each other's parents: then the code overflows the stack.\<close>

partial_function (option) asks :: "world \<Rightarrow> string \<Rightarrow> oref list \<Rightarrow> bool option" where
  "asks w t todo = (case todo of
      [] \<Rightarrow> Some False
    | o' # os \<Rightarrow> if own_listeners w o' t then Some True else asks w t (map snd (parents_of w o') @ os))"

definition listens :: "world \<Rightarrow> oref \<Rightarrow> string \<Rightarrow> bool \<Rightarrow> bool option" where
  "listens w o' t propagate =
     (if propagate then asks w t [o'] else Some (own_listeners w o' t))"

section \<open>Firing\<close>

record event =
  v_type :: string
  v_target :: oref
  v_layer :: "oref option"

text \<open>What the body of a listener can do to the objects.\<close>

datatype act =
    On oref types "oref option"
  | Off oref types "oref option"
  | OffTypes oref string
  | OffAll oref
  | Once oref types "oref option"
  | AddParent oref oref
  | RemoveParent oref oref
  | Fire oref string "oref option" bool

text \<open>What is under way: a body; a \<open>fire\<close> with the listeners of its copy of the array still to call, then
  with the keys of the index still to visit, then with the parents still to visit.\<close>

datatype frame =
    Body "act list"
  | Plain oref event "nat list" "nat option" bool
  | Keys oref event nat "string list" bool
  | Parents oref event "nat list"

type_synonym code = "nat \<Rightarrow> event \<Rightarrow> world \<Rightarrow> act list"

type_synonym config = "world \<times> frame list"

fun body_of :: "code \<Rightarrow> world \<Rightarrow> fref \<Rightarrow> event \<Rightarrow> act list" where
  "body_of prog w (User n) e = prog n e w"
| "body_of prog w (Handler n) e = (case w_once w ! n of
     (o', s, f, ctx) \<Rightarrow> [Off o' (Words s f) ctx, Off o' (Words s (Handler n)) ctx])"

text \<open>The call of a listener by the \<open>fire\<close> of an object, with the object it has as \<open>this\<close>. The record
  of the calls is not part of the code.\<close>

definition call :: "code \<Rightarrow> oref \<Rightarrow> event \<Rightarrow> nat \<Rightarrow> oref \<Rightarrow> world \<Rightarrow> world \<times> frame list" where
  "call prog o' e c this w = (case c_fn (w_cells w ! c) of
      None \<Rightarrow> (w, [])
    | Some f \<Rightarrow>
        (let w = w\<lparr>w_calls := w_calls w @ [(c, o', v_type e, f, this)]\<rparr> in (w, [Body (body_of prog w f e)])))"

definition fire :: "oref \<Rightarrow> string \<Rightarrow> oref option \<Rightarrow> bool \<Rightarrow> world \<Rightarrow> frame list option" where
  "fire o' t layer propagate w = (case listens w o' t propagate of
      None \<Rightarrow> None
    | Some False \<Rightarrow> Some []
    | Some True \<Rightarrow>
        (let e = \<lparr>v_type = t, v_target = o', v_layer = layer\<rparr> in
         case w_events w o' of
           None \<Rightarrow> Some (if propagate then [Parents o' e (map fst (parents_of w o'))] else [])
         | Some ev \<Rightarrow>
             Some [Plain o' e (case e_list ev t of None \<Rightarrow> [] | Some l \<Rightarrow> l) (e_idx ev t) propagate]))"

definition perform :: "act \<Rightarrow> world \<Rightarrow> (world \<times> frame list) option" where
  "perform a w = (case a of
      On o' ts ctx \<Rightarrow> Some (ev_on o' ts ctx w, [])
    | Off o' ts ctx \<Rightarrow> Some (ev_off o' ts ctx w, [])
    | OffTypes o' s \<Rightarrow> Some (ev_off_types o' s w, [])
    | OffAll o' \<Rightarrow> Some (off_all o' w, [])
    | Once o' ts ctx \<Rightarrow> Some (ev_once o' ts ctx w, [])
    | AddParent o' par \<Rightarrow> Some (addEventParent o' par w, [])
    | RemoveParent o' par \<Rightarrow> Some (removeEventParent o' par w, [])
    | Fire o' t layer propagate \<Rightarrow> map_option (\<lambda>fs. (w, fs)) (fire o' t layer propagate w))"

text \<open>One step; \<open>None\<close> when the stack is empty or a call of \<open>listens\<close> does not return.\<close>

fun estep :: "code \<Rightarrow> config \<Rightarrow> config option" where
  "estep prog (w, []) = None"
| "estep prog (w, Body [] # fs) = Some (w, fs)"
| "estep prog (w, Body (a # as) # fs) =
     (case perform a w of None \<Rightarrow> None | Some (w, gs) \<Rightarrow> Some (w, gs @ Body as # fs))"
| "estep prog (w, Plain o' e (c # cs) ti p # fs) =
     (let (w, gs) = call prog o' e c o' w in Some (w, gs @ Plain o' e cs ti p # fs))"
| "estep prog (w, Plain o' e [] ti p # fs) =
     Some (w, (case ti of
        Some i \<Rightarrow> [Keys o' e i (obj_keys (w_index w ! i)) p]
      | None \<Rightarrow> if p then [Parents o' e (map fst (parents_of w o'))] else []) @ fs)"
| "estep prog (w, Keys o' e i (k # ks) p # fs) =
     (case obj_get (w_index w ! i) k of
        None \<Rightarrow> Some (w, Keys o' e i ks p # fs)
      | Some c \<Rightarrow>
          (let (w, gs) = call prog o' e c (case c_ctx (w_cells w ! c) of None \<Rightarrow> o' | Some x \<Rightarrow> x) w
           in Some (w, gs @ Keys o' e i ks p # fs)))"
| "estep prog (w, Keys o' e i [] p # fs) =
     Some (w, (if p then [Parents o' e (map fst (parents_of w o'))] else []) @ fs)"
| "estep prog (w, Parents o' e [] # fs) = Some (w, fs)"
| "estep prog (w, Parents o' e (j # js) # fs) =
     (case obj_get (parents_of w o') j of
        None \<Rightarrow> Some (w, Parents o' e js # fs)
      | Some par \<Rightarrow>
          (case fire par (v_type e) (Some (case v_layer e of None \<Rightarrow> v_target e | Some l \<Rightarrow> l)) True w of
             None \<Rightarrow> None
           | Some gs \<Rightarrow> Some (w, gs @ Parents o' e js # fs)))"

text \<open>Every configuration that a start leads to.\<close>

inductive ev_run :: "code \<Rightarrow> config \<Rightarrow> config \<Rightarrow> bool" for prog where
  here: "ev_run prog c c"
| further: "ev_run prog c d \<Longrightarrow> estep prog d = Some f \<Longrightarrow> ev_run prog c f"


section \<open>The store is well formed\<close>

definition list_at :: "world \<Rightarrow> oref \<Rightarrow> string \<Rightarrow> nat list" where
  "list_at w o' t = (case e_list (events_of w o') t of None \<Rightarrow> [] | Some l \<Rightarrow> l)"

definition idx_at :: "world \<Rightarrow> oref \<Rightarrow> string \<Rightarrow> nat option" where
  "idx_at w o' t = e_idx (events_of w o') t"

definition len_at :: "world \<Rightarrow> oref \<Rightarrow> string \<Rightarrow> int option" where
  "len_at w o' t = e_len (events_of w o') t"

definition keys_at :: "world \<Rightarrow> oref \<Rightarrow> string \<Rightarrow> (string \<times> nat) list" where
  "keys_at w o' t = (case idx_at w o' t of None \<Rightarrow> [] | Some i \<Rightarrow> w_index w ! i)"

definition cells_at :: "world \<Rightarrow> oref \<Rightarrow> string \<Rightarrow> nat set" where
  "cells_at w o' t = set (list_at w o' t) \<union> snd ` set (keys_at w o' t)"

text \<open>Stamps are positive and belong to one thing.\<close>

definition ids_ok :: "world \<Rightarrow> bool" where
  "ids_ok w \<longleftrightarrow> (\<forall>a i. w_ids w a = Some i \<longrightarrow> 0 < i \<and> i \<le> w_lastId w) \<and>
     (\<forall>a b i. w_ids w a = Some i \<and> w_ids w b = Some i \<longrightarrow> a = b)"

text \<open>A listener in an array has no context and is live.\<close>

definition plain_ok :: "world \<Rightarrow> oref \<Rightarrow> string \<Rightarrow> bool" where
  "plain_ok w o' t \<longleftrightarrow> distinct (list_at w o' t) \<and>
     (\<forall>c \<in> set (list_at w o' t). c < length (w_cells w) \<and> (\<exists>f. w_cells w ! c = \<lparr>c_fn = Some f, c_ctx = None\<rparr>))"

text \<open>A listener in an index has another context, is live, and is under the key of its two stamps.\<close>

definition entry_ok :: "world \<Rightarrow> oref \<Rightarrow> string \<times> nat \<Rightarrow> bool" where
  "entry_ok w o' kc \<longleftrightarrow> snd kc < length (w_cells w) \<and>
     (\<exists>f x a b. w_cells w ! snd kc = \<lparr>c_fn = Some f, c_ctx = Some x\<rparr> \<and> x \<noteq> o' \<and>
        w_ids w (Fn f) = Some a \<and> w_ids w (Ob x) = Some b \<and> fst kc = index_key a b)"

definition keys_ok :: "world \<Rightarrow> oref \<Rightarrow> string \<Rightarrow> bool" where
  "keys_ok w o' t \<longleftrightarrow> obj_ok (keys_at w o' t) \<and> (\<forall>kc \<in> set (keys_at w o' t). entry_ok w o' kc) \<and>
     (case idx_at w o' t of
        None \<Rightarrow> len_at w o' t = None
      | Some i \<Rightarrow> i < length (w_index w) \<and> len_at w o' t = Some (int (length (keys_at w o' t))))"

text \<open>No listener and no index is in two places.\<close>

definition apart :: "world \<Rightarrow> bool" where
  "apart w \<longleftrightarrow>
     (\<forall>o1 t1 o2 t2 i. idx_at w o1 t1 = Some i \<and> idx_at w o2 t2 = Some i \<longrightarrow> o1 = o2 \<and> t1 = t2) \<and>
     (\<forall>o1 t1 o2 t2 c. c \<in> cells_at w o1 t1 \<and> c \<in> cells_at w o2 t2 \<longrightarrow> o1 = o2 \<and> t1 = t2)"

definition events_ok :: "world \<Rightarrow> bool" where
  "events_ok w \<longleftrightarrow> ids_ok w \<and> apart w \<and> (\<forall>o' t. plain_ok w o' t \<and> keys_ok w o' t)"

lemmas at_defs = list_at_def idx_at_def len_at_def keys_at_def cells_at_def

subsection \<open>What each operation changes\<close>

lemma events_of_set [simp]:
  "events_of (set_events o' e w) p = (if p = o' then e else events_of w p)"
  by (simp add: events_of_def set_events_def)

lemma set_events_frame [simp]:
  "w_cells (set_events o' e w) = w_cells w" "w_index (set_events o' e w) = w_index w"
  "w_ids (set_events o' e w) = w_ids w" "w_lastId (set_events o' e w) = w_lastId w"
  by (simp_all add: set_events_def)

lemma stamp_frame [simp]:
  "w_cells (snd (stamp a w)) = w_cells w" "w_index (snd (stamp a w)) = w_index w"
  "w_events (snd (stamp a w)) = w_events w" "events_of (snd (stamp a w)) = events_of w"
  by (auto simp: stamp_def Let_def events_of_def fun_eq_iff split: option.split)

lemma stamp_at [simp]:
  "list_at (snd (stamp a w)) = list_at w" "idx_at (snd (stamp a w)) = idx_at w"
  "len_at (snd (stamp a w)) = len_at w" "keys_at (snd (stamp a w)) = keys_at w"
  "cells_at (snd (stamp a w)) = cells_at w"
  by (simp_all add: at_defs fun_eq_iff cong: option.case_cong)

lemma stamp_ids:
  "w_ids (snd (stamp a w)) a = Some (fst (stamp a w))"
  "w_ids w b = Some i \<Longrightarrow> w_ids (snd (stamp a w)) b = Some i"
  by (auto simp: stamp_def Let_def split: option.splits)

lemma stamp_ids_ok: "ids_ok w \<Longrightarrow> ids_ok (snd (stamp a w))"
  by (fastforce simp: ids_ok_def stamp_def Let_def split: option.splits if_splits)

text \<open>Creating \<open>_events\<close> changes nothing that is read.\<close>

lemma ensure_at [simp]:
  "events_of (set_events o' (events_of w o') w) = events_of w"
  by (auto simp: fun_eq_iff)

lemma ok_cong:
  "events_of v = events_of w \<Longrightarrow> w_cells v = w_cells w \<Longrightarrow> w_index v = w_index w \<Longrightarrow> w_ids v = w_ids w \<Longrightarrow>
   w_lastId v = w_lastId w \<Longrightarrow> events_ok v = events_ok w"
proof -
  assume eqs: "events_of v = events_of w" "w_cells v = w_cells w" "w_index v = w_index w" "w_ids v = w_ids w"
    "w_lastId v = w_lastId w"
  then have lst: "list_at v = list_at w" "idx_at v = idx_at w" "len_at v = len_at w" by (simp_all add: at_defs fun_eq_iff)
  then have "keys_at v = keys_at w" using eqs by (simp add: keys_at_def fun_eq_iff cong: option.case_cong)
  with lst have "cells_at v = cells_at w" by (simp add: cells_at_def fun_eq_iff)
  with lst eqs \<open>keys_at v = keys_at w\<close> show ?thesis
    by (simp add: events_ok_def ids_ok_def apart_def plain_ok_def keys_ok_def entry_ok_def cong: option.case_cong)
qed


lemma events_okI:
  "ids_ok w \<Longrightarrow> apart w \<Longrightarrow> (\<And>p s. plain_ok w p s) \<Longrightarrow> (\<And>p s. keys_ok w p s) \<Longrightarrow> events_ok w"
  by (simp add: events_ok_def)

lemma events_okD:
  assumes "events_ok w"
  shows "ids_ok w" "apart w" "plain_ok w p s" "keys_ok w p s"
  using assms by (simp_all add: events_ok_def)

lemma entry_ok_stamp: "entry_ok w p kc \<Longrightarrow> entry_ok (snd (stamp a w)) p kc"
  unfolding entry_ok_def by (metis stamp_frame(1) stamp_ids(2))

lemma stamp_ok: "events_ok w \<Longrightarrow> events_ok (snd (stamp a w))"
proof -
  assume ok: "events_ok w"
  show ?thesis
  proof (rule events_okI)
    show "ids_ok (snd (stamp a w))" using events_okD(1) [OF ok] by (rule stamp_ids_ok)
    show "apart (snd (stamp a w))" using events_okD(2) [OF ok] by (simp add: apart_def)
    show "plain_ok (snd (stamp a w)) p s" for p s using events_okD(3) [OF ok, of p s] by (simp add: plain_ok_def)
    show "keys_ok (snd (stamp a w)) p s" for p s using events_okD(4) [OF ok, of p s]
      by (simp add: keys_ok_def entry_ok_stamp cong: option.case_cong)
  qed
qed

lemma cells_at_range: "events_ok w \<Longrightarrow> c \<in> cells_at w p s \<Longrightarrow> c < length (w_cells w)"
  by (auto simp: events_ok_def plain_ok_def keys_ok_def entry_ok_def cells_at_def)

lemma index_range: "events_ok w \<Longrightarrow> idx_at w p s = Some i \<Longrightarrow> i < length (w_index w)"
  using events_okD(4) [of w p s] by (simp add: keys_ok_def)

lemma apartD:
  assumes "events_ok w"
  shows "idx_at w o1 t1 = Some i \<Longrightarrow> idx_at w o2 t2 = Some i \<Longrightarrow> o1 = o2 \<and> t1 = t2"
    and "c \<in> cells_at w o1 t1 \<Longrightarrow> c \<in> cells_at w o2 t2 \<Longrightarrow> o1 = o2 \<and> t1 = t2"
  using events_okD(2) [OF assms] unfolding apart_def by blast+

lemma plain_live:
  "events_ok w \<Longrightarrow> c \<in> set (list_at w p s) \<Longrightarrow> \<exists>f. w_cells w ! c = \<lparr>c_fn = Some f, c_ctx = None\<rparr>"
  using events_okD(3) [of w p s] by (simp add: plain_ok_def)

lemma entry_live: "events_ok w \<Longrightarrow> kc \<in> set (keys_at w p s) \<Longrightarrow> entry_ok w p kc"
  using events_okD(4) [of w p s] by (simp add: keys_ok_def)

lemma plain_not_entry:
  "events_ok w \<Longrightarrow> c \<in> set (list_at w p s) \<Longrightarrow> kc \<in> set (keys_at w q u) \<Longrightarrow> snd kc \<noteq> c"
  using plain_live [of w c p s] entry_live [of w kc q u] by (auto simp: entry_ok_def)

lemma entry_cell_inj:
  assumes "events_ok w" "kc \<in> set (keys_at w p s)" "kd \<in> set (keys_at w p s)" "snd kc = snd kd"
  shows "kc = kd"
  using entry_live [OF assms(1,2)] entry_live [OF assms(1,3)] assms(4) by (auto simp: entry_ok_def intro: prod_eqI)

lemma on_plain_at:
  "list_at (on_plain o' t f w) p s =
     (if p = o' \<and> s = t then list_at w p s @ [length (w_cells w)] else list_at w p s)"
  "idx_at (on_plain o' t f w) = idx_at w" "len_at (on_plain o' t f w) = len_at w"
  "w_index (on_plain o' t f w) = w_index w" "w_ids (on_plain o' t f w) = w_ids w"
  "w_lastId (on_plain o' t f w) = w_lastId w"
  "w_cells (on_plain o' t f w) = w_cells w @ [\<lparr>c_fn = Some f, c_ctx = None\<rparr>]"
  by (auto simp: on_plain_def Let_def list_at_def idx_at_def len_at_def fun_eq_iff events_of_def set_events_def
    split: option.splits)

lemma keys_at_cong: "idx_at v = idx_at w \<Longrightarrow> w_index v = w_index w \<Longrightarrow> keys_at v = keys_at w"
  by (simp add: keys_at_def fun_eq_iff cong: option.case_cong)

lemma on_plain_ok: "events_ok w \<Longrightarrow> events_ok (on_plain o' t f w)"
proof -
  assume ok: "events_ok w"
  let ?v = "on_plain o' t f w"
  have keys: "keys_at ?v = keys_at w" by (rule keys_at_cong) (simp_all add: on_plain_at)
  have entries: "entry_ok w p kc \<Longrightarrow> entry_ok ?v p kc" for p kc by (auto simp: entry_ok_def on_plain_at nth_append)
  have cells: "cells_at ?v p s = cells_at w p s \<union> (if p = o' \<and> s = t then {length (w_cells w)} else {})" for p s
    by (auto simp: cells_at_def on_plain_at keys)
  have fresh: "length (w_cells w) \<notin> cells_at w p s" for p s using cells_at_range [OF ok] by blast
  show ?thesis
  proof (rule events_okI)
    show "ids_ok ?v" using events_okD(1) [OF ok] by (simp add: ids_ok_def on_plain_at)
    show "apart ?v" using apartD [OF ok] fresh unfolding apart_def cells on_plain_at(2)
      by (smt (verit) Un_iff empty_iff insert_iff)
    show "plain_ok ?v p s" for p s using events_okD(3) [OF ok, of p s] fresh [of p s]
      by (auto simp: plain_ok_def on_plain_at nth_append cells_at_def)
    show "keys_ok ?v p s" for p s using events_okD(4) [OF ok, of p s] entries
      by (simp add: keys_ok_def keys on_plain_at cong: option.case_cong)
  qed
qed


text \<open>A listener with a context that is not there yet goes to the end of its index.\<close>

definition entry_added :: "oref \<Rightarrow> string \<Rightarrow> string \<Rightarrow> fref \<Rightarrow> oref \<Rightarrow> world \<Rightarrow> world \<Rightarrow> bool" where
  "entry_added o' t k f x w v \<longleftrightarrow>
     w_cells v = w_cells w @ [\<lparr>c_fn = Some f, c_ctx = Some x\<rparr>] \<and> w_ids v = w_ids w \<and> w_lastId v = w_lastId w \<and>
     list_at v = list_at w \<and>
     (\<forall>p s. keys_at v p s = (if p = o' \<and> s = t then keys_at w p s @ [(k, length (w_cells w))] else keys_at w p s)) \<and>
     (\<forall>p s. len_at v p s = (if p = o' \<and> s = t then Some (int (length (keys_at v o' t))) else len_at w p s)) \<and>
     length (w_index w) \<le> length (w_index v) \<and>
     (\<exists>i < length (w_index v). (idx_at w o' t = Some i \<or> idx_at w o' t = None \<and> i = length (w_index w)) \<and>
        (\<forall>p s. idx_at v p s = (if p = o' \<and> s = t then Some i else idx_at w p s)))"

lemma entry_added_ok:
  assumes ok: "events_ok w" and add: "entry_added o' t (index_key a b) f x w v"
    and ids: "w_ids w (Fn f) = Some a" "w_ids w (Ob x) = Some b" "x \<noteq> o'"
    and new: "map_of (keys_at w o' t) (index_key a b) = None"
  shows "events_ok v"
proof -
  let ?k = "index_key a b" and ?c = "length (w_cells w)"
  have v: "w_cells v = w_cells w @ [\<lparr>c_fn = Some f, c_ctx = Some x\<rparr>]" "w_ids v = w_ids w" "w_lastId v = w_lastId w"
    "list_at v = list_at w" "length (w_index w) \<le> length (w_index v)"
    "\<And>p s. keys_at v p s = (if p = o' \<and> s = t then keys_at w p s @ [(?k, ?c)] else keys_at w p s)"
    "\<And>p s. len_at v p s = (if p = o' \<and> s = t then Some (int (length (keys_at v o' t))) else len_at w p s)"
    using add unfolding entry_added_def by metis+
  obtain i where i: "i < length (w_index v)" "idx_at w o' t = Some i \<or> idx_at w o' t = None \<and> i = length (w_index w)"
    "\<And>p s. idx_at v p s = (if p = o' \<and> s = t then Some i else idx_at w p s)"
    using add unfolding entry_added_def by metis
  have entries: "entry_ok w p kc \<Longrightarrow> entry_ok v p kc" for p kc using v(1,2) by (auto simp: entry_ok_def nth_append)
  have here: "entry_ok v o' (?k, ?c)" using v(1,2) ids by (auto simp: entry_ok_def)
  have cells: "cells_at v p s = cells_at w p s \<union> (if p = o' \<and> s = t then {?c} else {})" for p s
    using v(4,6) by (auto simp: cells_at_def)
  have fresh: "?c \<notin> cells_at w p s" for p s using cells_at_range [OF ok] by blast
  have other: "idx_at w p s \<noteq> Some i" if "\<not> (p = o' \<and> s = t)" for p s
    using i(2) that apartD(1) [OF ok, of p s i o' t] index_range [OF ok, of p s i] by auto
  show ?thesis
  proof (rule events_okI)
    show "ids_ok v" using events_okD(1) [OF ok] v by (simp add: ids_ok_def)
    have "o1 = o2 \<and> t1 = t2" if "idx_at v o1 t1 = Some j" "idx_at v o2 t2 = Some j" for o1 t1 o2 t2 j
      using that apartD(1) [OF ok] other unfolding i(3) by (metis option.inject)
    moreover have "o1 = o2 \<and> t1 = t2" if "c \<in> cells_at v o1 t1" "c \<in> cells_at v o2 t2" for o1 t1 o2 t2 c
      using that apartD(2) [OF ok] fresh unfolding cells by (smt (verit) Un_iff empty_iff insert_iff)
    ultimately show "apart v" unfolding apart_def by blast
    show "plain_ok v p s" for p s using events_okD(3) [OF ok, of p s] v(1,4)
      by (auto simp: plain_ok_def nth_append)
    show "keys_ok v p s" for p s
    proof (cases "p = o' \<and> s = t")
      case True
      have "distinct (map fst (keys_at v o' t))" using events_okD(4) [OF ok, of o' t] new v(6)
        by (auto simp: keys_ok_def obj_ok_def map_of_eq_None_iff)
      then show ?thesis using True events_okD(4) [OF ok, of o' t] v(6,7) i entries here
        by (auto simp: keys_ok_def obj_ok_def)
    next
      case False
      then have eq: "keys_at v p s = keys_at w p s" "len_at v p s = len_at w p s" "idx_at v p s = idx_at w p s"
        using v(6,7) i(3) by auto
      show ?thesis using events_okD(4) [OF ok, of p s] entries v(5)
        by (auto simp: keys_ok_def eq split: option.splits)
    qed
  qed
qed

lemma put_new: "map_of m k = None \<Longrightarrow> AList.update k v m = m @ [(k, v)]"
  by (induction m) (auto split: if_splits)

text \<open>The two stamps a call with a context takes.\<close>

definition stamped :: "fref \<Rightarrow> oref \<Rightarrow> world \<Rightarrow> world" where
  "stamped f x w = snd (stamp (Fn f) (snd (stamp (Ob x) w)))"

definition pair_key :: "fref \<Rightarrow> oref \<Rightarrow> world \<Rightarrow> string" where
  "pair_key f x w = index_key (the (w_ids (stamped f x w) (Fn f))) (the (w_ids (stamped f x w) (Ob x)))"

lemma stamped_ok: "events_ok w \<Longrightarrow> events_ok (stamped f x w)"
  by (simp add: stamped_def stamp_ok)

lemma stamped_frame [simp]:
  "w_cells (stamped f x w) = w_cells w" "w_index (stamped f x w) = w_index w" "events_of (stamped f x w) = events_of w"
  "w_events (stamped f x w) = w_events w"
  "list_at (stamped f x w) = list_at w" "idx_at (stamped f x w) = idx_at w" "len_at (stamped f x w) = len_at w"
  "keys_at (stamped f x w) = keys_at w" "cells_at (stamped f x w) = cells_at w"
  by (simp_all add: stamped_def)

lemma stamped_ids:
  "\<exists>a b. w_ids (stamped f x w) (Fn f) = Some a \<and> w_ids (stamped f x w) (Ob x) = Some b \<and> pair_key f x w = index_key a b"
  using stamp_ids unfolding stamped_def pair_key_def by (metis option.sel)

lemma stamp_type_index:
  "stamp a (snd (type_index o' t w)) = (fst (stamp a w), snd (type_index o' t (snd (stamp a w))))"
  "fst (type_index o' t (snd (stamp a w))) = fst (type_index o' t w)"
  "w_index (snd (type_index o' t (snd (stamp a w)))) = w_index (snd (type_index o' t w))"
  "w_cells (snd (type_index o' t (snd (stamp a w)))) = w_cells (snd (type_index o' t w))"
  "events_of (snd (type_index o' t (snd (stamp a w)))) = events_of (snd (type_index o' t w))"
  by (auto simp: type_index_def stamp_def Let_def set_events_def events_of_def fun_eq_iff split: option.splits)

lemma on_context_eq:
  "on_context o' t f x w =
     (let (i, v) = type_index o' t (stamped f x w); k = pair_key f x w in
      case obj_get (w_index v ! i) k of
        Some _ \<Rightarrow> v
      | None \<Rightarrow>
          (let e = events_of v o'; c = length (w_cells v);
               v = v\<lparr>w_cells := w_cells v @ [\<lparr>c_fn = Some f, c_ctx = Some x\<rparr>],
                     w_index := (w_index v)[i := obj_put k c (w_index v ! i)]\<rparr>;
               n = (case e_len e t of None \<Rightarrow> 0 | Some n \<Rightarrow> n)
           in set_events o' (e\<lparr>e_len := (e_len e)(t \<mapsto> n + 1)\<rparr>) v))"
proof -
  have k: "pair_key f x w = index_key (fst (stamp (Fn f) (snd (stamp (Ob x) w)))) (fst (stamp (Ob x) w))"
    using stamp_ids(1) [of "Ob x" w] stamp_ids(1) [of "Fn f" "snd (stamp (Ob x) w)"]
      stamp_ids(2) [of "snd (stamp (Ob x) w)" "Ob x" _ "Fn f"]
    by (simp add: pair_key_def stamped_def)
  show ?thesis
    by (simp add: on_context_def k stamped_def case_prod_unfold Let_def stamp_type_index cong: option.case_cong)
qed


lemma type_index_at:
  "type_index o' t w = (i, v) \<Longrightarrow>
     w_cells v = w_cells w \<and> w_ids v = w_ids w \<and> w_lastId v = w_lastId w \<and> list_at v = list_at w \<and>
     len_at v = len_at w \<and>
     (idx_at w o' t = Some i \<and> v = w \<or>
      idx_at w o' t = None \<and> i = length (w_index w) \<and> w_index v = w_index w @ [[]] \<and>
      (\<forall>p s. idx_at v p s = (if p = o' \<and> s = t then Some i else idx_at w p s)))"
  by (auto simp: type_index_def Let_def list_at_def idx_at_def len_at_def fun_eq_iff events_of_def set_events_def
    split: option.splits if_splits)

lemma on_context_present:
  assumes "events_ok w" "map_of (keys_at w o' t) (pair_key f x w) \<noteq> None"
  shows "on_context o' t f x w = stamped f x w"
proof -
  obtain i where i: "idx_at w o' t = Some i" using assms(2) by (cases "idx_at w o' t") (auto simp: keys_at_def)
  then have "type_index o' t (stamped f x w) = (i, stamped f x w)"
    by (auto simp: type_index_def idx_at_def Let_def)
  then show ?thesis using assms(2) i by (auto simp: on_context_eq keys_at_def)
qed

lemma on_context_absent:
  assumes ok: "events_ok w" and new: "map_of (keys_at w o' t) (pair_key f x w) = None"
  shows "entry_added o' t (pair_key f x w) f x (stamped f x w) (on_context o' t f x w)"
proof -
  let ?w = "stamped f x w" and ?k = "pair_key f x w" and ?v = "on_context o' t f x w"
  obtain i u where u: "type_index o' t ?w = (i, u)" by fastforce
  note at = type_index_at [OF u]
  have keys: "(if i < length (w_index w) then w_index w ! i else []) = keys_at w o' t"
    using at index_range [OF ok] by (auto simp: keys_at_def)
  have ui: "w_index u ! i = keys_at w o' t" "i < length (w_index u)" "length (w_index w) \<le> length (w_index u)"
    using at index_range [OF ok] by (auto simp: keys_at_def)
  have v: "?v = set_events o' ((events_of u o')\<lparr>e_len := (e_len (events_of u o'))(t \<mapsto> (case e_len (events_of u o') t of None \<Rightarrow> 0 | Some n \<Rightarrow> n) + 1)\<rparr>)
      (u\<lparr>w_cells := w_cells u @ [\<lparr>c_fn = Some f, c_ctx = Some x\<rparr>],
         w_index := (w_index u)[i := keys_at w o' t @ [(?k, length (w_cells u))]]\<rparr>)"
    using new by (simp add: on_context_eq u ui put_new Let_def)
  have evs: "events_of (u\<lparr>w_cells := a, w_index := b\<rparr>) = events_of u" for a b by (simp add: events_of_def fun_eq_iff)
  have lists: "list_at ?v = list_at w" "idx_at ?v = idx_at u" using at
    by (auto simp: v list_at_def idx_at_def evs fun_eq_iff)
  have idx: "idx_at u p s = (if p = o' \<and> s = t then Some i else idx_at w p s)" for p s using at by auto
  have old: "idx_at w p s \<noteq> Some i" if "\<not> (p = o' \<and> s = t)" for p s
    using at that apartD(1) [OF ok, of p s i o' t] index_range [OF ok, of p s i] by auto
  have others: "w_index u ! j = w_index w ! j" if "j < length (w_index w)" for j using at that by (auto simp: nth_append)
  have vi: "w_index ?v = (w_index u)[i := keys_at w o' t @ [(?k, length (w_cells w))]]" using at by (simp add: v)
  have nkeys: "keys_at ?v p s = (if p = o' \<and> s = t then keys_at w p s @ [(?k, length (w_cells w))] else keys_at w p s)" for p s
    using old [of p s] ui index_range [OF ok, of p s] others
    by (auto simp: keys_at_def [of ?v] keys_at_def [of w p s] lists idx vi nth_list_update split: option.split)
  have len: "len_at w o' t = (if keys_at w o' t = [] \<and> idx_at w o' t = None then None else Some (int (length (keys_at w o' t))))"
    using events_okD(4) [OF ok, of o' t] by (auto simp: keys_ok_def keys_at_def split: option.splits)
  have nlen: "len_at ?v p s = (if p = o' \<and> s = t then Some (int (length (keys_at ?v o' t))) else len_at w p s)" for p s
  proof -
    have u_len: "e_len (events_of u q) = len_at w q" for q using at by (auto simp: len_at_def fun_eq_iff)
    have "len_at ?v p s = (if p = o' \<and> s = t
        then Some ((case len_at w o' t of None \<Rightarrow> 0 | Some n \<Rightarrow> n) + 1) else len_at w p s)"
      by (simp add: v len_at_def [of "set_events _ _ _"] evs u_len)
    then show ?thesis using len nkeys [of o' t] keys by (auto split: if_splits simp: keys_at_def)
  qed
  show ?thesis
    unfolding entry_added_def using at ui lists idx nkeys nlen
    by (intro conjI) (auto simp: v intro!: exI [of _ i])
qed

lemma on_context_ok: "events_ok w \<Longrightarrow> x \<noteq> o' \<Longrightarrow> events_ok (on_context o' t f x w)"
proof (cases "map_of (keys_at w o' t) (pair_key f x w)")
  case None
  assume ok: "events_ok w" and x: "x \<noteq> o'"
  obtain a b where ab: "w_ids (stamped f x w) (Fn f) = Some a" "w_ids (stamped f x w) (Ob x) = Some b"
    "pair_key f x w = index_key a b" using stamped_ids by blast
  show ?thesis
    using entry_added_ok [OF stamped_ok [OF ok] _ ab(1,2) x] on_context_absent [OF ok None] None ab(3) by simp
qed (simp add: on_context_present stamped_ok)


text \<open>What every removal does: places lose listeners, the listeners that stay are as they were.\<close>

definition drops :: "world \<Rightarrow> world \<Rightarrow> bool" where
  "drops w v \<longleftrightarrow> w_ids v = w_ids w \<and> w_lastId v = w_lastId w \<and> length (w_cells v) = length (w_cells w) \<and>
     length (w_index v) = length (w_index w) \<and>
     (\<forall>p s. set (list_at v p s) \<subseteq> set (list_at w p s) \<and> distinct (list_at v p s)) \<and>
     (\<forall>p s. \<forall>c \<in> cells_at v p s. w_cells v ! c = w_cells w ! c) \<and>
     (\<forall>p s i. idx_at v p s = Some i \<longrightarrow> idx_at w p s = Some i) \<and>
     (\<forall>p s. set (keys_at v p s) \<subseteq> set (keys_at w p s) \<and> obj_ok (keys_at v p s)) \<and>
     (\<forall>p s. len_at v p s = (case idx_at v p s of None \<Rightarrow> None | Some _ \<Rightarrow> Some (int (length (keys_at v p s)))))"

lemma dropsD:
  assumes "drops w v"
  shows "w_ids v = w_ids w" "w_lastId v = w_lastId w" "length (w_cells v) = length (w_cells w)"
    "length (w_index v) = length (w_index w)"
    "c \<in> set (list_at v p s) \<Longrightarrow> c \<in> set (list_at w p s)" "distinct (list_at v p s)"
    "c \<in> cells_at v p s \<Longrightarrow> w_cells v ! c = w_cells w ! c"
    "idx_at v p s = Some i \<Longrightarrow> idx_at w p s = Some i"
    "kc \<in> set (keys_at v p s) \<Longrightarrow> kc \<in> set (keys_at w p s)" "obj_ok (keys_at v p s)"
    "len_at v p s = (case idx_at v p s of None \<Rightarrow> None | Some _ \<Rightarrow> Some (int (length (keys_at v p s))))"
  using assms unfolding drops_def by blast+

lemma drops_cells: "drops w v \<Longrightarrow> c \<in> cells_at v p s \<Longrightarrow> c \<in> cells_at w p s"
  using dropsD(5,9) unfolding cells_at_def by blast

lemma drops_ok:
  assumes ok: "events_ok w" and d: "drops w v"
  shows "events_ok v"
proof (rule events_okI)
  show "ids_ok v" using events_okD(1) [OF ok] by (simp add: ids_ok_def dropsD [OF d])
  show "apart v" using apartD [OF ok] dropsD(8) [OF d] drops_cells [OF d] unfolding apart_def by blast
  show "plain_ok v p s" for p s
  proof -
    have "c < length (w_cells v) \<and> (\<exists>f. w_cells v ! c = \<lparr>c_fn = Some f, c_ctx = None\<rparr>)"
      if c: "c \<in> set (list_at v p s)" for c
      using events_okD(3) [OF ok, of p s] dropsD(5) [OF d c] dropsD(3) [OF d] dropsD(7) [OF d, of c p s] c
      by (simp add: plain_ok_def cells_at_def)
    then show ?thesis using dropsD(6) [OF d] by (simp add: plain_ok_def)
  qed
  show "keys_ok v p s" for p s
  proof -
    have "entry_ok v p kc" if kc: "kc \<in> set (keys_at v p s)" for kc
    proof -
      have "entry_ok w p kc" using dropsD(9) [OF d kc] by (rule entry_live [OF ok])
      moreover have "w_cells v ! snd kc = w_cells w ! snd kc" using kc by (intro dropsD(7) [OF d, of _ p s]) (simp add: cells_at_def)
      ultimately show ?thesis by (simp add: dropsD(1,3) [OF d] entry_ok_def)
    qed
    moreover have "idx_at v p s = Some i \<Longrightarrow> i < length (w_index w)" for i
      using index_range [OF ok] dropsD(8) [OF d] by blast
    ultimately show ?thesis using dropsD(10,11) [OF d, of p s] dropsD(4) [OF d]
      by (auto simp: keys_ok_def split: option.splits)
  qed
qed

lemma len_known:
  "events_ok w \<Longrightarrow> len_at w p s = (case idx_at w p s of None \<Rightarrow> None | Some _ \<Rightarrow> Some (int (length (keys_at w p s))))"
  using events_okD(4) [of w p s] by (auto simp: keys_ok_def split: option.splits)

lemma dropsI_same:
  assumes ok: "events_ok w" and same: "w_ids v = w_ids w" "w_lastId v = w_lastId w" "w_cells v = w_cells w"
      "w_index v = w_index w"
    and places: "\<And>p s. list_at v p s = list_at w p s \<and> idx_at v p s = idx_at w p s \<and> len_at v p s = len_at w p s \<or>
      list_at v p s = [] \<and> idx_at v p s = None \<and> len_at v p s = None"
  shows "drops w v"
proof -
  have keys: "keys_at v p s = (if idx_at v p s = None then [] else keys_at w p s)" for p s
    using places [of p s] same by (auto simp: keys_at_def)
  have lists: "set (list_at v p s) \<subseteq> set (list_at w p s) \<and> distinct (list_at v p s)" for p s
    using places [of p s] events_okD(3) [OF ok, of p s] by (auto simp: plain_ok_def)
  have idx: "idx_at v p s = Some i \<Longrightarrow> idx_at w p s = Some i" for p s i using places [of p s] by auto
  have obj: "obj_ok (keys_at w p s)" for p s using events_okD(4) [OF ok, of p s] by (simp add: keys_ok_def)
  have len: "len_at v p s = (case idx_at v p s of None \<Rightarrow> None | Some _ \<Rightarrow> Some (int (length (keys_at v p s))))" for p s
    using places [of p s] len_known [OF ok, of p s] by (auto simp: keys split: option.splits)
  show ?thesis
    unfolding drops_def using lists idx obj len by (simp add: same keys)
qed

lemma off_type_drops: "events_ok w \<Longrightarrow> drops w (off_type o' t w)"
  by (rule dropsI_same)
    (auto simp: off_type_def set_events_def list_at_def idx_at_def len_at_def events_of_def split: option.splits)

lemma off_all_drops: "events_ok w \<Longrightarrow> drops w (off_all o' w)"
  by (rule dropsI_same)
    (auto simp: off_all_def list_at_def idx_at_def len_at_def events_of_def no_events_def split: option.splits)


lemma silence_at [simp]:
  "w_events (silence c w) = w_events w" "w_index (silence c w) = w_index w" "w_ids (silence c w) = w_ids w"
  "w_lastId (silence c w) = w_lastId w" "events_of (silence c w) = events_of w" "list_at (silence c w) = list_at w"
  "idx_at (silence c w) = idx_at w" "len_at (silence c w) = len_at w" "keys_at (silence c w) = keys_at w"
  "cells_at (silence c w) = cells_at w" "length (w_cells (silence c w)) = length (w_cells w)"
  by (simp_all add: silence_def events_of_def at_defs fun_eq_iff cong: option.case_cong)

lemma silence_other: "d \<noteq> c \<Longrightarrow> w_cells (silence c w) ! d = w_cells w ! d"
  by (simp add: silence_def)

lemma cut_first_SomeD:
  "cut_first f cells l = Some (c, m) \<Longrightarrow>
     (\<exists>a b. l = a @ c # b \<and> m = a @ b \<and> c_fn (cells ! c) = Some f \<and> (\<forall>d \<in> set a. c_fn (cells ! d) \<noteq> Some f))"
proof (induction l arbitrary: m)
  case (Cons d l)
  show ?case
  proof (cases "c_fn (cells ! d) = Some f")
    case True
    then show ?thesis using Cons.prems by (intro exI [of _ "[]"] exI [of _ l]) auto
  next
    case False
    with Cons.prems obtain m' where m: "cut_first f cells l = Some (c, m')" "m = d # m'"
      by (auto split: option.splits)
    from Cons.IH [OF m(1)] obtain a b where "l = a @ c # b" "m' = a @ b" "c_fn (cells ! c) = Some f"
      "\<forall>d \<in> set a. c_fn (cells ! d) \<noteq> Some f" by blast
    then show ?thesis using False m(2) by (intro exI [of _ "d # a"] exI [of _ b]) simp
  qed
qed simp

lemma cut_first_NoneD: "cut_first f cells l = None \<Longrightarrow> c \<in> set l \<Longrightarrow> c_fn (cells ! c) \<noteq> Some f"
  by (induction l) (auto split: if_splits option.splits)

lemma off_plain_absent: "cut_first f (w_cells w) (list_at w o' t) = None \<Longrightarrow> off_plain o' t f w = w"
  by (simp add: off_plain_def Let_def list_at_def split: option.splits)

lemma off_plain_at:
  assumes cut: "cut_first f (w_cells w) (list_at w o' t) = Some (c, m)"
  defines "v \<equiv> off_plain o' t f w"
  shows "list_at v p s = (if p = o' \<and> s = t then m else list_at w p s)"
    and "idx_at v = idx_at w" "len_at v = len_at w" "keys_at v = keys_at w" "w_index v = w_index w"
    and "w_cells v = w_cells (silence c w)" "w_ids v = w_ids w" "w_lastId v = w_lastId w"
proof -
  obtain l where l: "e_list (events_of w o') t = Some l" "list_at w o' t = l"
    using cut by (cases "e_list (events_of w o') t") (auto simp: list_at_def)
  define u where "u = set_events o' (events_of w o'\<lparr>e_list := (e_list (events_of w o'))(t \<mapsto> m)\<rparr>) w"
  have v: "v = silence c u" using cut l by (simp add: off_plain_def Let_def u_def v_def)
  have same: "w_cells u = w_cells w" "w_index u = w_index w" "w_ids u = w_ids w" "w_lastId u = w_lastId w"
    by (simp_all add: u_def)
  have rest: "idx_at u = idx_at w" "len_at u = len_at w" by (auto simp: idx_at_def len_at_def fun_eq_iff u_def)
  show "list_at v p s = (if p = o' \<and> s = t then m else list_at w p s)" by (auto simp: list_at_def u_def v)
  show "idx_at v = idx_at w" "len_at v = len_at w" "w_index v = w_index w"
    "w_ids v = w_ids w" "w_lastId v = w_lastId w" "keys_at v = keys_at w"
    by (simp_all add: v same rest keys_at_cong [OF rest(1) same(2)])
  show "w_cells v = w_cells (silence c w)" by (simp add: v silence_def same)
qed

text \<open>The listener a removal takes away is in one place only.\<close>

lemma off_plain_drops:
  assumes ok: "events_ok w"
  shows "drops w (off_plain o' t f w)"
proof (cases "cut_first f (w_cells w) (list_at w o' t)")
  case None
  then show ?thesis by (simp add: off_plain_absent dropsI_same [OF ok])
next
  case (Some cm)
  obtain c m where cm: "cm = (c, m)" by fastforce
  note at = off_plain_at [OF Some [unfolded cm]]
  let ?v = "off_plain o' t f w"
  from cut_first_SomeD [OF Some [unfolded cm]] obtain a b where ab: "list_at w o' t = a @ c # b" "m = a @ b" by blast
  have dist: "distinct (list_at w o' t)" using events_okD(3) [OF ok, of o' t] by (simp add: plain_ok_def)
  have c: "c \<in> cells_at w o' t" using ab by (simp add: cells_at_def)
  have gone: "c \<notin> cells_at ?v p s" for p s
  proof
    assume cv: "c \<in> cells_at ?v p s"
    moreover have "set m \<subseteq> set (list_at w o' t)" using ab by auto
    ultimately have "c \<in> cells_at w p s" by (auto simp: cells_at_def at(1,4) split: if_splits)
    then have "p = o'" "s = t" using apartD(2) [OF ok c, of p s] by auto
    moreover have "c \<notin> set m" using dist ab by auto
    moreover have "c \<notin> snd ` set (keys_at w o' t)" using plain_not_entry [OF ok, of c o' t _ o' t] ab by auto
    ultimately show False using cv by (simp add: cells_at_def at(1,4))
  qed
  then have "w_cells ?v ! d = w_cells w ! d" if "d \<in> cells_at ?v p s" for d p s
    using that silence_other [of d c w] by (auto simp: at(6))
  moreover have "set (list_at ?v p s) \<subseteq> set (list_at w p s) \<and> distinct (list_at ?v p s)" for p s
    using events_okD(3) [OF ok, of p s] dist ab by (auto simp: at(1) plain_ok_def)
  moreover have "obj_ok (keys_at w p s)" for p s using events_okD(4) [OF ok, of p s] by (simp add: keys_ok_def)
  ultimately show ?thesis unfolding drops_def using len_known [OF ok] by (simp add: at(2-8) cong: option.case_cong)
qed

lemma off_context_eq:
  "off_context o' t f x w =
     (let v = stamped f x w; k = pair_key f x w; e = events_of w o' in
      case e_idx e t of
        None \<Rightarrow> v
      | Some i \<Rightarrow>
          (case obj_get (w_index w ! i) k of
             None \<Rightarrow> v
           | Some c \<Rightarrow>
               silence c (set_events o' (e\<lparr>e_len := (e_len e)(t := map_option (\<lambda>n. n - 1) (e_len e t))\<rparr>)
                 (v\<lparr>w_index := (w_index w)[i := obj_del k (w_index w ! i)]\<rparr>))))"
proof -
  have k: "pair_key f x w = index_key (fst (stamp (Fn f) (snd (stamp (Ob x) w)))) (fst (stamp (Ob x) w))"
    using stamp_ids(1) [of "Ob x" w] stamp_ids(1) [of "Fn f" "snd (stamp (Ob x) w)"]
      stamp_ids(2) [of "snd (stamp (Ob x) w)" "Ob x" _ "Fn f"]
    by (simp add: pair_key_def stamped_def)
  show ?thesis by (simp add: off_context_def k stamped_def case_prod_unfold Let_def cong: option.case_cong)
qed

lemma off_context_absent:
  "map_of (keys_at w o' t) (pair_key f x w) = None \<Longrightarrow> off_context o' t f x w = stamped f x w"
  by (auto simp: off_context_eq keys_at_def idx_at_def Let_def split: option.splits)

lemma delete_length:
  "distinct (map fst m) \<Longrightarrow> map_of m k = Some c \<Longrightarrow> length m = Suc (length (AList.delete k m))"
proof (induction m)
  case (Cons a m)
  then show ?case using AList.delete_idem [of k m] by (auto simp: map_of_eq_None_iff split: if_splits)
qed simp

lemma off_context_at:
  assumes ok: "events_ok w" and c: "map_of (keys_at w o' t) (pair_key f x w) = Some c"
  defines "v \<equiv> off_context o' t f x w"
  shows "keys_at v p s = (if p = o' \<and> s = t then obj_del (pair_key f x w) (keys_at w p s) else keys_at w p s)"
    and "list_at v = list_at w" "idx_at v = idx_at w" "length (w_index v) = length (w_index w)"
    and "w_cells v = w_cells (silence c w)" "w_ids v = w_ids (stamped f x w)" "w_lastId v = w_lastId (stamped f x w)"
    and "len_at v p s = (if p = o' \<and> s = t then map_option (\<lambda>n. n - 1) (len_at w p s) else len_at w p s)"
proof -
  obtain i where i: "idx_at w o' t = Some i" "keys_at w o' t = w_index w ! i"
    using c by (auto simp: keys_at_def split: option.splits)
  let ?e = "events_of w o'" and ?k = "pair_key f x w"
  let ?u = "(stamped f x w)\<lparr>w_index := (w_index w)[i := obj_del ?k (keys_at w o' t)]\<rparr>"
  have eq: "v = silence c (set_events o' (?e\<lparr>e_len := (e_len ?e)(t := map_option (\<lambda>n. n - 1) (e_len ?e t))\<rparr>) ?u)"
    using c i by (simp add: v_def off_context_eq idx_at_def Let_def)
  have evs: "events_of ?u = events_of w" by (simp add: events_of_def fun_eq_iff)
  show lists: "list_at v = list_at w" "idx_at v = idx_at w" by (auto simp: eq list_at_def idx_at_def evs fun_eq_iff)
  show "length (w_index v) = length (w_index w)" "w_ids v = w_ids (stamped f x w)" "w_lastId v = w_lastId (stamped f x w)"
    "w_cells v = w_cells (silence c w)" by (simp_all add: eq) (simp add: silence_def)
  show "len_at v p s = (if p = o' \<and> s = t then map_option (\<lambda>n. n - 1) (len_at w p s) else len_at w p s)"
    by (auto simp: eq len_at_def evs)
  have "idx_at w p s \<noteq> Some i" if "\<not> (p = o' \<and> s = t)" using that i apartD(1) [OF ok, of p s i o' t] by auto
  moreover have "w_index v = (w_index w)[i := obj_del ?k (keys_at w o' t)]" by (simp add: eq)
  ultimately show "keys_at v p s = (if p = o' \<and> s = t then obj_del ?k (keys_at w p s) else keys_at w p s)"
    using i index_range [OF ok i(1)] lists(2) unfolding keys_at_def [of v] by (auto simp: keys_at_def nth_list_update split: option.splits)
qed

lemma off_context_drops:
  assumes ok: "events_ok w"
  shows "drops (stamped f x w) (off_context o' t f x w)"
proof (cases "map_of (keys_at w o' t) (pair_key f x w)")
  case None
  then show ?thesis by (simp add: off_context_absent dropsI_same stamped_ok [OF ok])
next
  case (Some c)
  note at = off_context_at [OF ok Some]
  let ?v = "off_context o' t f x w" and ?k = "pair_key f x w"
  have kc: "(?k, c) \<in> set (keys_at w o' t)" using Some by (rule map_of_SomeD)
  have keys: "set (keys_at ?v p s) \<subseteq> set (keys_at w p s) \<and> obj_ok (keys_at ?v p s)" for p s
  proof -
    have "obj_ok (keys_at w p s)" using events_okD(4) [OF ok, of p s] by (simp add: keys_ok_def)
    moreover have "set (obj_del k m) \<subseteq> set m" for k and m :: "(string \<times> nat) list" by (auto simp: AList.delete_eq)
    ultimately show ?thesis by (auto simp: at(1))
  qed
  have gone: "c \<notin> cells_at ?v p s" for p s
  proof
    assume c: "c \<in> cells_at ?v p s"
    moreover have "c \<in> cells_at w o' t" using kc by (force simp: cells_at_def)
    moreover have "cells_at ?v p s \<subseteq> cells_at w p s" using keys by (auto simp: cells_at_def at(2))
    ultimately have ps: "p = o'" "s = t" using apartD(2) [OF ok, of c p s o' t] by auto
    have "c \<notin> set (list_at w o' t)" using plain_not_entry [OF ok _ kc, of c o' t] by auto
    with c ps obtain kd where kd: "kd \<in> set (keys_at ?v o' t)" "snd kd = c" by (auto simp: cells_at_def at(2))
    then have "kd = (?k, c)" using entry_cell_inj [OF ok, of kd o' t "(?k, c)"] kc keys by auto
    with kd(1) show False by (simp add: at(1) AList.delete_eq)
  qed
  have "w_cells ?v ! d = w_cells w ! d" if "d \<in> cells_at ?v p s" for d p s
    using that gone [of p s] silence_other [of d c w] by (auto simp: at(5))
  moreover have "len_at ?v p s = (case idx_at ?v p s of None \<Rightarrow> None | Some _ \<Rightarrow> Some (int (length (keys_at ?v p s))))" for p s
  proof -
    have "idx_at w o' t \<noteq> None" using Some by (cases "idx_at w o' t") (auto simp: keys_at_def)
    moreover have "length (keys_at w o' t) = Suc (length (obj_del ?k (keys_at w o' t)))"
      using events_okD(4) [OF ok, of o' t] Some by (intro delete_length) (auto simp: keys_ok_def obj_ok_def)
    ultimately show ?thesis using len_known [OF ok, of p s]
      by (cases "idx_at w p s"; cases "p = o' \<and> s = t") (auto simp: at(1,3,8))
  qed
  ultimately show ?thesis unfolding drops_def using keys events_okD(3) [OF ok] by (simp add: at(2-7) plain_ok_def)
qed


section \<open>What every run keeps\<close>

text \<open>A property of worlds that the parts of the operations keep holds throughout every run, whatever the
  listeners do.\<close>

locale world_pred =
  fixes P :: "world \<Rightarrow> bool"
  assumes keeps_on: "P w \<Longrightarrow> P (on1 o' t f ctx w)"
    and keeps_off: "P w \<Longrightarrow> P (off1 o' t g ctx w)"
    and keeps_off_all: "P w \<Longrightarrow> P (off_all o' w)"
    and keeps_addParent: "P w \<Longrightarrow> P (addEventParent o' par w)"
    and keeps_removeParent: "P w \<Longrightarrow> P (removeEventParent o' par w)"
    and keeps_closure: "P w \<Longrightarrow> P (w\<lparr>w_once := w_once w @ [k]\<rparr>)"
    and keeps_call: "P w \<Longrightarrow> c_fn (w_cells w ! c) = Some f \<Longrightarrow> P (w\<lparr>w_calls := w_calls w @ [(c, o', t, f, this)]\<rparr>)"
begin

lemma all_keep_fold: "(\<And>a w. P w \<Longrightarrow> P (g a w)) \<Longrightarrow> P w \<Longrightarrow> P (fold g as w)"
  by (induction as arbitrary: w) auto

lemma keeps_each: "(\<And>t f w. P w \<Longrightarrow> P (g t f w)) \<Longrightarrow> P w \<Longrightarrow> P (each_type g ts w)"
  by (auto simp: each_type_def intro!: all_keep_fold split: types.split)

lemma keeps_ev_on: "P w \<Longrightarrow> P (ev_on o' ts ctx w)"
  by (simp add: ev_on_def keeps_each keeps_on)

lemma keeps_ev_off: "P w \<Longrightarrow> P (ev_off o' ts ctx w)"
  by (auto simp: ev_off_def keeps_each keeps_off keeps_off_all split: types.split list.split)

lemma keeps_ev_off_types: "P w \<Longrightarrow> P (ev_off_types o' s w)"
  by (simp add: ev_off_types_def all_keep_fold keeps_off keeps_off_all)

lemma keeps_once_words: "P w \<Longrightarrow> P (once_words o' s f ctx w)"
  unfolding once_words_def Let_def by (intro keeps_ev_on keeps_closure)

lemma keeps_once: "P w \<Longrightarrow> P (ev_once o' ts ctx w)"
  by (auto simp: ev_once_def intro!: all_keep_fold keeps_once_words split: types.split)

lemma keeps_perform: "P w \<Longrightarrow> perform a w = Some (v, gs) \<Longrightarrow> P v"
  by (auto simp: perform_def keeps_ev_on keeps_ev_off keeps_ev_off_types keeps_off_all keeps_once keeps_addParent
    keeps_removeParent split: act.splits)

lemma keeps_calls: "P w \<Longrightarrow> call prog o' e c this w = (v, gs) \<Longrightarrow> P v"
  by (auto simp: call_def Let_def keeps_call split: option.splits)

lemma keeps_step: "P w \<Longrightarrow> estep prog (w, fs) = Some (v, gs) \<Longrightarrow> P v"
  by (induction prog "(w, fs)" rule: estep.induct)
    (auto simp: Let_def split: option.splits prod.splits dest: keeps_perform keeps_calls)

lemma keeps_run: "ev_run prog c d \<Longrightarrow> P (fst c) \<Longrightarrow> P (fst d)"
proof (induction rule: ev_run.induct)
  case (further c d f)
  then show ?case using keeps_step [of "fst d" prog "snd d" "fst f" "snd f"] by simp
qed

end

lemma on1_ok: "events_ok w \<Longrightarrow> events_ok (on1 o' t f ctx w)"
proof -
  assume ok: "events_ok w"
  let ?u = "set_events o' (events_of w o') w"
  have "events_ok ?u" using ok ok_cong [of ?u w] by simp
  then show ?thesis
    by (auto simp: on1_def Let_def own_context_def intro!: on_plain_ok on_context_ok split: option.split)
qed

lemma off1_ok: "events_ok w \<Longrightarrow> events_ok (off1 o' t g ctx w)"
  by (auto simp: off1_def split: option.split
    intro: drops_ok [OF _ off_type_drops] drops_ok [OF _ off_plain_drops] drops_ok [OF stamped_ok off_context_drops])

lemma ok_other [simp]:
  "events_ok (w\<lparr>w_parents := ps\<rparr>) = events_ok w" "events_ok (w\<lparr>w_once := cs\<rparr>) = events_ok w"
  "events_ok (w\<lparr>w_calls := ls\<rparr>) = events_ok w"
  by (rule ok_cong; simp add: events_of_def fun_eq_iff)+

interpretation store: world_pred events_ok
  by unfold_locales
    (auto simp: addEventParent_def removeEventParent_def Let_def case_prod_unfold
      intro!: on1_ok off1_ok stamp_ok drops_ok [OF _ off_all_drops] split: option.split)


section \<open>A removed listener\<close>

definition calls_to :: "nat \<Rightarrow> world \<Rightarrow> (nat \<times> oref \<times> string \<times> fref \<times> oref) list" where
  "calls_to c w = filter (\<lambda>k. fst k = c) (w_calls w)"

definition silent :: "nat \<Rightarrow> (nat \<times> oref \<times> string \<times> fref \<times> oref) list \<Rightarrow> world \<Rightarrow> bool" where
  "silent c ks w \<longleftrightarrow> c < length (w_cells w) \<and> c_fn (w_cells w ! c) = None \<and> calls_to c w = ks"

lemma silent_cong:
  "w_cells v = w_cells w \<Longrightarrow> w_calls v = w_calls w \<Longrightarrow> silent c ks v = silent c ks w"
  by (simp add: silent_def calls_to_def)

lemma calls_frame [simp]:
  "w_calls (set_events o' e w) = w_calls w" "w_calls (silence c w) = w_calls w" "w_calls (snd (stamp a w)) = w_calls w"
  "w_calls (snd (type_index o' t w)) = w_calls w" "w_cells (snd (type_index o' t w)) = w_cells w"
  "w_calls (stamped f x w) = w_calls w"
  by (auto simp: set_events_def silence_def stamp_def type_index_def stamped_def Let_def split: option.split)

lemma silent_silence: "silent c ks w \<Longrightarrow> silent c ks (silence d w)"
  by (cases "c = d") (auto simp: silent_def silence_def calls_to_def)

lemma silent_append: "silent c ks w \<Longrightarrow> silent c ks (w\<lparr>w_cells := w_cells w @ [k]\<rparr>)"
  by (auto simp: silent_def calls_to_def nth_append)

lemma silent_on1: "silent c ks w \<Longrightarrow> silent c ks (on1 o' t f ctx w)"
proof -
  assume w: "silent c ks w"
  let ?u = "set_events o' (events_of w o') w"
  have u: "silent c ks ?u" using w by (simp add: silent_def calls_to_def)
  have "silent c ks (on_plain o' t f ?u)" using silent_append [OF u]
    by (simp add: on_plain_def Let_def silent_def calls_to_def)
  moreover have "silent c ks (on_context o' t f x ?u)" for x
    using silent_append [OF u] u
    by (auto simp: on_context_eq Let_def case_prod_unfold silent_def calls_to_def split: option.split)
  ultimately show ?thesis by (auto simp: on1_def Let_def split: option.split)
qed

lemma silent_off1: "silent c ks w \<Longrightarrow> silent c ks (off1 o' t g ctx w)"
proof -
  assume w: "silent c ks w"
  have same: "silent c ks v" if "w_cells v = w_cells w" "w_calls v = w_calls w" for v
    using w that by (simp add: silent_def calls_to_def)
  have "silent c ks (off_type o' t w)" by (rule same) (auto simp: off_type_def split: option.split)
  moreover have "silent c ks (off_plain o' t f w)" for f
    using w by (auto simp: off_plain_def Let_def split: option.split intro!: silent_silence same)
  moreover have "silent c ks (off_context o' t f x w)" for f x
    by (auto simp: off_context_eq Let_def split: option.split intro!: silent_silence same)
  ultimately show ?thesis using w by (auto simp: off1_def split: option.split)
qed

interpretation still: world_pred "silent c ks"
  by unfold_locales
    (erule silent_on1 silent_off1 | auto simp: off_all_def addEventParent_def removeEventParent_def Let_def case_prod_unfold
      silent_def calls_to_def split: option.split)+

text \<open>What \<open>off\<close> with a function takes out of a place is silent afterwards.\<close>

lemma off1_silences:
  assumes ok: "events_ok w" and c: "c \<in> cells_at w p s" and gone: "c \<notin> cells_at (off1 o' t (Some f) ctx w) p s"
  shows "silent c (calls_to c w) (off1 o' t (Some f) ctx w)"
proof -
  have range: "c < length (w_cells w)" using cells_at_range [OF ok c] .
  have quiet: "silent c (calls_to c w) v" if "w_cells v = w_cells (silence c w)" "w_calls v = w_calls w" for v
    using that range by (simp add: silent_def calls_to_def silence_def)
  have some: "w_events w o' \<noteq> None" using c gone by (cases "w_events w o'") (auto simp: off1_def)
  show ?thesis
  proof (cases "own_context o' ctx")
    case None
    then have v: "off1 o' t (Some f) ctx w = off_plain o' t f w" using some by (auto simp: off1_def)
    show ?thesis
    proof (cases "cut_first f (w_cells w) (list_at w o' t)")
      case None
      then show ?thesis using v c gone by (simp add: off_plain_absent)
    next
      case (Some dm)
      obtain d m where dm: "dm = (d, m)" by fastforce
      note at = off_plain_at [OF Some [unfolded dm]]
      from cut_first_SomeD [OF Some [unfolded dm]] have "set (list_at w o' t) \<subseteq> insert d (set m)" by auto
      then have "c = d" using c gone by (auto simp: v cells_at_def at(1,4) split: if_splits)
      moreover have "w_calls (off_plain o' t f w) = w_calls w"
        by (simp add: off_plain_def Let_def split: option.split)
      ultimately show ?thesis unfolding v by (intro quiet) (simp_all add: at(6))
    qed
  next
    case (Some x)
    then have v: "off1 o' t (Some f) ctx w = off_context o' t f x w" using some by (auto simp: off1_def)
    show ?thesis
    proof (cases "map_of (keys_at w o' t) (pair_key f x w)")
      case None
      then show ?thesis using v c gone by (simp add: off_context_absent)
    next
      case (Some d)
      note at = off_context_at [OF ok Some]
      have keys: "distinct (map fst (keys_at w o' t))" using events_okD(4) [OF ok, of o' t] by (simp add: keys_ok_def obj_ok_def)
      have ps: "p = o'" "s = t" and in_keys: "c \<in> snd ` set (keys_at w o' t)"
        using c gone by (auto simp: v cells_at_def at(1,2) split: if_splits)
      then obtain a where a: "(a, c) \<in> set (keys_at w o' t)" by auto
      moreover have "a = pair_key f x w" using gone a ps by (force simp: v cells_at_def at(1) AList.delete_eq)
      ultimately have "c = d" using Some keys by simp
      moreover have "w_calls (off_context o' t f x w) = w_calls w"
        by (simp add: off_context_eq Let_def split: option.split)
      ultimately show ?thesis unfolding v by (intro quiet) (simp_all add: at(5))
    qed
  qed
qed


section \<open>Registrations\<close>

text \<open>The listeners of a type as the documentation of the mixin sees them: the functions without a context,
  and the pairs of a function and a context.\<close>

type_synonym registrations = "fref list \<times> (fref \<times> oref) list"

definition plain_fns :: "world \<Rightarrow> oref \<Rightarrow> string \<Rightarrow> fref list" where
  "plain_fns w o' t = map (\<lambda>c. the (c_fn (w_cells w ! c))) (list_at w o' t)"

definition context_fns :: "world \<Rightarrow> oref \<Rightarrow> string \<Rightarrow> (fref \<times> oref) list" where
  "context_fns w o' t =
     map (\<lambda>kc. (the (c_fn (w_cells w ! snd kc)), the (c_ctx (w_cells w ! snd kc)))) (keys_at w o' t)"

definition regs :: "world \<Rightarrow> oref \<Rightarrow> string \<Rightarrow> registrations" where
  "regs w o' t = (plain_fns w o' t, context_fns w o' t)"

fun spec_on :: "fref \<Rightarrow> oref option \<Rightarrow> registrations \<Rightarrow> registrations" where
  "spec_on f None (ps, cs) = (ps @ [f], cs)"
| "spec_on f (Some x) (ps, cs) = (ps, if (f, x) \<in> set cs then cs else cs @ [(f, x)])"

fun spec_off :: "fref \<Rightarrow> oref option \<Rightarrow> registrations \<Rightarrow> registrations" where
  "spec_off f None (ps, cs) = (remove1 f ps, cs)"
| "spec_off f (Some x) (ps, cs) = (ps, remove1 (f, x) cs)"

lemma index_key_inj: "index_key a b = index_key c d \<longleftrightarrow> a = c \<and> b = d"
proof
  have split: "takeWhile is_digit (index_key m n) = show_nat m" for m n
    using show_nat_digits [of m] by (simp add: index_key_def list_all_iff takeWhile_append is_digit_def char_code_def)
  assume eq: "index_key a b = index_key c d"
  then have "show_nat a = show_nat c" using split by metis
  with eq show "a = c \<and> b = d" by (simp add: index_key_def show_nat_inj)
qed simp

lemma pair_key_entry:
  assumes ok: "events_ok w" and kc: "(k, c) \<in> set (keys_at w p s)"
  shows "k = pair_key f x w \<longleftrightarrow> w_cells w ! c = \<lparr>c_fn = Some f, c_ctx = Some x\<rparr>"
proof -
  have ok': "events_ok (stamped f x w)" using ok by (rule stamped_ok)
  have "entry_ok (stamped f x w) p (k, c)" using kc by (intro entry_live [OF ok', of _ p s]) simp
  then obtain g y a b where g: "w_cells w ! c = \<lparr>c_fn = Some g, c_ctx = Some y\<rparr>" "k = index_key a b"
    "w_ids (stamped f x w) (Fn g) = Some a" "w_ids (stamped f x w) (Ob y) = Some b"
    by (auto simp: entry_ok_def)
  obtain a' b' where p: "w_ids (stamped f x w) (Fn f) = Some a'" "w_ids (stamped f x w) (Ob x) = Some b'"
    "pair_key f x w = index_key a' b'" using stamped_ids by blast
  have inj: "w_ids (stamped f x w) q = Some i \<Longrightarrow> w_ids (stamped f x w) r = Some i \<Longrightarrow> q = r" for q r i
    using events_okD(1) [OF ok'] unfolding ids_ok_def by blast
  have "k = pair_key f x w \<longleftrightarrow> a = a' \<and> b = b'" using g p by (simp add: index_key_inj)
  also have "\<dots> \<longleftrightarrow> g = f \<and> y = x" using g p inj [of "Fn g" a "Fn f"] inj [of "Ob y" b "Ob x"] by auto
  finally show ?thesis using g by simp
qed

lemma context_member:
  assumes ok: "events_ok w"
  shows "(f, x) \<in> set (context_fns w p s) \<longleftrightarrow> map_of (keys_at w p s) (pair_key f x w) \<noteq> None"
proof -
  have live: "entry_ok w p kc" if "kc \<in> set (keys_at w p s)" for kc using entry_live [OF ok that] .
  have "(f, x) \<in> set (context_fns w p s) \<longleftrightarrow>
      (\<exists>kc \<in> set (keys_at w p s). w_cells w ! snd kc = \<lparr>c_fn = Some f, c_ctx = Some x\<rparr>)"
    using live by (force simp: context_fns_def entry_ok_def)
  also have "\<dots> \<longleftrightarrow> (\<exists>kc \<in> set (keys_at w p s). fst kc = pair_key f x w)"
    using pair_key_entry [OF ok, of _ _ p s f x] by (metis prod.collapse)
  also have "\<dots> \<longleftrightarrow> map_of (keys_at w p s) (pair_key f x w) \<noteq> None" by (force simp: map_of_eq_None_iff)
  finally show ?thesis .
qed

lemma same_cells_regs:
  assumes "list_at v p s = list_at w p s" "keys_at v p s = keys_at w p s"
    and "\<And>c. c \<in> cells_at w p s \<Longrightarrow> w_cells v ! c = w_cells w ! c"
  shows "regs v p s = regs w p s"
  using assms by (auto simp: regs_def plain_fns_def context_fns_def cells_at_def)

lemma on_plain_regs:
  assumes ok: "events_ok w"
  shows "regs (on_plain o' t f w) p s = (if p = o' \<and> s = t then spec_on f None (regs w p s) else regs w p s)"
proof -
  let ?v = "on_plain o' t f w"
  have keys: "keys_at ?v = keys_at w" by (rule keys_at_cong) (simp_all add: on_plain_at)
  have cells: "w_cells ?v ! c = w_cells w ! c" if "c \<in> cells_at w p s" for c
    using cells_at_range [OF ok that] by (simp add: on_plain_at nth_append)
  show ?thesis
    using cells by (auto simp: regs_def plain_fns_def context_fns_def keys on_plain_at(1,7) cells_at_def)
qed

lemma on_context_regs:
  assumes ok: "events_ok w"
  shows "regs (on_context o' t f x w) p s = (if p = o' \<and> s = t then spec_on f (Some x) (regs w p s) else regs w p s)"
proof (cases "map_of (keys_at w o' t) (pair_key f x w)")
  case None
  let ?v = "on_context o' t f x w"
  have add: "entry_added o' t (pair_key f x w) f x (stamped f x w) ?v" by (rule on_context_absent [OF ok None])
  have v: "w_cells ?v = w_cells w @ [\<lparr>c_fn = Some f, c_ctx = Some x\<rparr>]" "list_at ?v = list_at w"
    "keys_at ?v p s = (if p = o' \<and> s = t then keys_at w p s @ [(pair_key f x w, length (w_cells w))] else keys_at w p s)" for p s
    using add unfolding entry_added_def by simp_all
  have cells: "w_cells ?v ! c = w_cells w ! c" if "c \<in> cells_at w p s" for c
    using cells_at_range [OF ok that] v by (simp add: nth_append)
  have "(f, x) \<notin> set (context_fns w o' t)" using None by (simp add: context_member [OF ok])
  then show ?thesis using cells
    by (auto simp: regs_def plain_fns_def context_fns_def v cells_at_def)
next
  case (Some c)
  have "regs (stamped f x w) p s = regs w p s" by (rule same_cells_regs) simp_all
  moreover have "(f, x) \<in> set (context_fns w o' t)" using Some by (simp add: context_member [OF ok])
  ultimately show ?thesis using Some by (simp add: on_context_present [OF ok] regs_def)
qed


lemma remove1_split: "x \<notin> set a \<Longrightarrow> remove1 x (a @ x # b) = a @ b"
  by (simp add: remove1_append)

lemma off_plain_regs:
  assumes ok: "events_ok w"
  shows "regs (off_plain o' t f w) p s = (if p = o' \<and> s = t then spec_off f None (regs w p s) else regs w p s)"
proof (cases "cut_first f (w_cells w) (list_at w o' t)")
  case None
  have "f \<notin> set (plain_fns w o' t)"
    using cut_first_NoneD [OF None] plain_live [OF ok, of _ o' t] by (fastforce simp: plain_fns_def)
  then show ?thesis by (auto simp: off_plain_absent [OF None] regs_def remove1_idem)
next
  case (Some dm)
  obtain c m where cm: "dm = (c, m)" by fastforce
  let ?v = "off_plain o' t f w"
  note at = off_plain_at [OF Some [unfolded cm]]
  note d = off_plain_drops [OF ok, of o' t f]
  have cells: "w_cells ?v ! e = w_cells w ! e" if "e \<in> cells_at ?v p s" for e p s using dropsD(7) [OF d that] .
  show ?thesis
  proof (cases "p = o' \<and> s = t")
    case False
    then have "regs ?v p s = regs w p s" using cells [of _ p s]
      by (intro same_cells_regs) (auto simp: at(1,4) cells_at_def)
    with False show ?thesis by auto
  next
    case True
    from cut_first_SomeD [OF Some [unfolded cm]] obtain a b where ab: "list_at w o' t = a @ c # b" "m = a @ b"
      "c_fn (w_cells w ! c) = Some f" "\<forall>d \<in> set a. c_fn (w_cells w ! d) \<noteq> Some f" by blast
    have same: "w_cells ?v ! e = w_cells w ! e" if "e \<in> set a \<union> set b \<or> e \<in> snd ` set (keys_at w o' t)" for e
      using that by (intro cells [of e o' t]) (auto simp: cells_at_def at(1,4) ab(2))
    have "f \<notin> (\<lambda>c. the (c_fn (w_cells w ! c))) ` set a"
      using ab(4) plain_live [OF ok, of _ o' t] ab(1) by fastforce
    then have "plain_fns ?v o' t = remove1 f (plain_fns w o' t)"
      using same by (simp add: plain_fns_def at(1) ab(1-3) remove1_append)
    moreover have "context_fns ?v o' t = context_fns w o' t" using same by (auto simp: context_fns_def at(4))
    ultimately show ?thesis using True by (simp add: regs_def)
  qed
qed

lemma delete_split:
  assumes "distinct (map fst m)" "map_of m k = Some c"
  obtains a b where "m = a @ (k, c) # b" "AList.delete k m = a @ b"
proof -
  obtain a b where ab: "m = a @ (k, c) # b" using map_of_SomeD [OF assms(2)] by (auto dest: split_list)
  then have "k \<notin> fst ` set a" "k \<notin> fst ` set b" using assms(1) by auto
  moreover have "AList.delete k (u @ v) = AList.delete k u @ AList.delete k v" for u v :: "('a \<times> 'b) list"
    by (simp add: AList.delete_eq)
  ultimately have "AList.delete k m = a @ b" unfolding ab by simp
  with ab show ?thesis using that by blast
qed

lemma off_context_regs:
  assumes ok: "events_ok w"
  shows "regs (off_context o' t f x w) p s = (if p = o' \<and> s = t then spec_off f (Some x) (regs w p s) else regs w p s)"
proof (cases "map_of (keys_at w o' t) (pair_key f x w)")
  case None
  have "regs (stamped f x w) p s = regs w p s" by (rule same_cells_regs) simp_all
  moreover have "(f, x) \<notin> set (context_fns w o' t)" using None by (simp add: context_member [OF ok])
  ultimately show ?thesis by (auto simp: off_context_absent [OF None] regs_def remove1_idem)
next
  case (Some c)
  let ?v = "off_context o' t f x w" and ?k = "pair_key f x w"
  let ?g = "\<lambda>w kc. (the (c_fn (w_cells w ! snd kc)), the (c_ctx (w_cells w ! snd kc)))"
  note at = off_context_at [OF ok Some]
  have cells: "w_cells ?v ! e = w_cells w ! e" if "e \<in> cells_at ?v p s" for e p s
    using dropsD(7) [OF off_context_drops [OF ok] that] by simp
  show ?thesis
  proof (cases "p = o' \<and> s = t")
    case False
    then have at_ps: "list_at ?v p s = list_at w p s" "keys_at ?v p s = keys_at w p s" by (auto simp: at(1,2))
    then have "cells_at ?v p s = cells_at w p s" by (simp add: cells_at_def)
    then have "regs ?v p s = regs w p s" using cells [of _ p s] by (intro same_cells_regs at_ps) simp
    with False show ?thesis by auto
  next
    case True
    have "distinct (map fst (keys_at w o' t))" using events_okD(4) [OF ok, of o' t] by (simp add: keys_ok_def obj_ok_def)
    then obtain a b where ab: "keys_at w o' t = a @ (?k, c) # b" "AList.delete ?k (keys_at w o' t) = a @ b"
      using Some by (rule delete_split)
    have live: "entry_ok w o' kc" if "kc \<in> set (keys_at w o' t)" for kc using entry_live [OF ok that] .
    have c: "w_cells w ! c = \<lparr>c_fn = Some f, c_ctx = Some x\<rparr>"
      using pair_key_entry [OF ok, of ?k c o' t f x] ab(1) by simp
    have "?g w kc \<noteq> (f, x)" if "kc \<in> set a" for kc
    proof
      assume "?g w kc = (f, x)"
      then have "w_cells w ! snd kc = w_cells w ! c" using live [of kc] that c ab(1) by (auto simp: entry_ok_def)
      then have "fst kc = ?k" using pair_key_entry [OF ok, of "fst kc" "snd kc" o' t f x] that c ab(1) by simp
      then show False using that \<open>distinct (map fst (keys_at w o' t))\<close> ab(1) by force
    qed
    then have "(f, x) \<notin> ?g w ` set a" unfolding image_iff by (metis (no_types))
    moreover have "?g ?v kc = ?g w kc" if "kc \<in> set a \<union> set b" for kc
    proof -
      have "snd kc \<in> cells_at ?v o' t" using that by (auto simp: cells_at_def at(1) ab(2))
      from cells [OF this] show ?thesis by simp
    qed
    moreover have "keys_at ?v o' t = a @ b" by (simp add: at(1) ab(2))
    ultimately have "context_fns ?v o' t = remove1 (f, x) (context_fns w o' t)"
      using c by (simp add: context_fns_def ab(1) remove1_append)
    moreover have "plain_fns ?v o' t = plain_fns w o' t"
      using cells [of _ o' t] by (auto simp: plain_fns_def at(2) cells_at_def)
    ultimately show ?thesis using True by (simp add: regs_def)
  qed
qed

lemma off_type_regs:
  "w_events w o' \<noteq> None \<Longrightarrow>
   regs (off_type o' t w) p s = (if p = o' \<and> s = t then ([], []) else regs w p s)"
proof -
  assume "w_events w o' \<noteq> None"
  then obtain e where e: "w_events w o' = Some e" by blast
  let ?v = "off_type o' t w"
  have "events_of w o' = e" using e by (simp add: events_of_def)
  then have "w_cells ?v = w_cells w" "w_index ?v = w_index w"
    "list_at ?v p s = (if p = o' \<and> s = t then [] else list_at w p s)"
    "idx_at ?v p s = (if p = o' \<and> s = t then None else idx_at w p s)"
    using e by (auto simp: off_type_def list_at_def idx_at_def)
  then show ?thesis by (simp add: regs_def plain_fns_def context_fns_def keys_at_def cong: option.case_cong)
qed

lemma no_events_regs: "w_events w o' = None \<Longrightarrow> regs w o' t = ([], [])"
  by (simp add: regs_def plain_fns_def context_fns_def list_at_def keys_at_def idx_at_def events_of_def no_events_def)


lemma ensure_regs: "regs (set_events o' (events_of w o') w) = regs w"
proof -
  let ?u = "set_events o' (events_of w o') w"
  have "list_at ?u = list_at w" "idx_at ?u = idx_at w" by (simp_all add: list_at_def idx_at_def fun_eq_iff)
  moreover from this(2) have "keys_at ?u = keys_at w" by (rule keys_at_cong) simp
  ultimately show ?thesis by (simp add: regs_def plain_fns_def context_fns_def fun_eq_iff)
qed

lemma on1_regs:
  assumes ok: "events_ok w"
  shows "regs (on1 o' t f ctx w) p s =
    (if p = o' \<and> s = t then spec_on f (own_context o' ctx) (regs w p s) else regs w p s)"
proof -
  let ?u = "set_events o' (events_of w o') w"
  have "events_ok ?u" using ok ok_cong [of ?u w] by simp
  then show ?thesis
    using on_plain_regs [of ?u o' t f p s] on_context_regs [of ?u o' t f _ p s]
    by (cases "own_context o' ctx"; cases "p = o' \<and> s = t") (auto simp: on1_def Let_def ensure_regs)
qed

lemma off1_regs:
  assumes ok: "events_ok w"
  shows "regs (off1 o' t (Some f) ctx w) p s =
    (if p = o' \<and> s = t then spec_off f (own_context o' ctx) (regs w p s) else regs w p s)"
  using off_plain_regs [OF ok, of o' t f p s] off_context_regs [OF ok, of o' t f _ p s] no_events_regs [of w o' t]
  by (auto simp: off1_def split: option.split)

text \<open>
  C24: adding and removing a listener does to the registrations what the mixin promises, although the store
  keeps them under three keys, by stamps and through shared records: without a context of its own a
  function is added at the end of the list, as often as it is added, and its first entry is removed;
  with a context the pair is kept once, in the order it was first added. Other types and other
  objects are not touched; without a function, \<open>off\<close> forgets the type.
\<close>

theorem registrations_refined:
  assumes "events_ok w"
  shows "regs (on1 o' t f ctx w) p s =
      (if p = o' \<and> s = t then spec_on f (own_context o' ctx) (regs w p s) else regs w p s) \<and>
    regs (off1 o' t (Some f) ctx w) p s =
      (if p = o' \<and> s = t then spec_off f (own_context o' ctx) (regs w p s) else regs w p s) \<and>
    regs (off1 o' t None ctx w) p s = (if p = o' \<and> s = t then ([], []) else regs w p s) \<and>
    events_ok (on1 o' t f ctx w) \<and> events_ok (off1 o' t g ctx w)"
proof (intro conjI)
  show "regs (off1 o' t None ctx w) p s = (if p = o' \<and> s = t then ([], []) else regs w p s)"
    using off_type_regs [of w o' t p s] no_events_regs [of w o' t] by (auto simp: off1_def split: option.split)
qed (rule on1_regs off1_regs on1_ok off1_ok, rule assms)+

lemma new_world_ok: "events_ok new_world"
  by (rule events_okI)
    (simp_all add: ids_ok_def apart_def plain_ok_def keys_ok_def at_defs new_world_def events_of_def no_events_def)

lemma registrations_refined_witness:
  "regs (on1 0 ''move'' (User 7) (Some 5) (on1 0 ''move'' (User 7) (Some 5) new_world)) 0 ''move'' = ([], [(User 7, 5)]) \<and>
   regs (off1 0 ''move'' (Some (User 7)) None (on1 0 ''move'' (User 7) (Some 5) new_world)) 0 ''move'' = ([], [(User 7, 5)])"
proof -
  let ?v = "on1 0 ''move'' (User 7) (Some 5) new_world"
  have none: "regs new_world 0 ''move'' = ([], [])" by (rule no_events_regs) (simp add: new_world_def)
  have "regs ?v 0 ''move'' = ([], [(User 7, 5)])" "events_ok ?v"
    using registrations_refined [OF new_world_ok, of 0 "''move''" "User 7" "Some 5" 0 "''move''"]
    by (simp_all add: none own_context_def)
  then show ?thesis
    using registrations_refined [of ?v 0 "''move''" "User 7" "Some 5" 0 "''move''"]
      registrations_refined [of ?v 0 "''move''" "User 7" None 0 "''move''"]
    by (simp add: own_context_def)
qed

text \<open>
  C25: once \<open>off\<close> with a function has taken a listener out, nothing calls it again: not the \<open>fire\<close> that is
  under way and still has it in its copy of the list or among the keys it visits, and nothing that any
  listener does later.
\<close>

theorem removed_listener_stays_silent:
  assumes "events_ok w" "c \<in> cells_at w p s" "\<forall>f. ts \<noteq> Words [] f" "c \<notin> cells_at (ev_off o' ts ctx w) p s"
    and "ev_run prog (ev_off o' ts ctx w, fs) (v, gs)"
  shows "calls_to c v = calls_to c w"
proof -
  let ?Q = "\<lambda>u. events_ok u \<and> calls_to c u = calls_to c w \<and> (c \<in> cells_at u p s \<or> silent c (calls_to c w) u)"
  have calls: "w_calls (off1 o' t g ctx u) = w_calls u" for t g u
    by (auto simp: off1_def off_type_def off_plain_def off_context_eq Let_def split: option.split)
  have step: "?Q u \<Longrightarrow> ?Q (off1 o' t (Some f) ctx u)" for t f u
    using off1_ok silent_off1 off1_silences [of u c p s o' t f ctx] calls [of t "Some f" u] by (auto simp: calls_to_def)
  have fold: "?Q (fold (\<lambda>tf. off1 o' (fst tf) (Some (snd tf)) ctx) es u)" if "?Q u" for es u
    using that by (induction es arbitrary: u) (simp_all add: step)
  have words: "fold (\<lambda>t. off1 o' t (Some f) ctx) xs u =
      fold (\<lambda>tf. off1 o' (fst tf) (Some (snd tf)) ctx) (map (\<lambda>t. (t, f)) xs) u" for f xs u
    by (simp add: fold_map comp_def)
  have "?Q w" using assms(1,2) by simp
  then have "?Q (ev_off o' ts ctx w)" using fold [of w] assms(3)
    by (auto simp: ev_off_def each_type_def words case_prod_unfold split: types.split list.split)
  then have "silent c (calls_to c w) (ev_off o' ts ctx w)" using assms(4) by blast
  then have "silent c (calls_to c w) v" using still.keeps_run [OF assms(5)] by simp
  then show ?thesis by (simp add: silent_def)
qed


text \<open>Running by evaluation.\<close>

fun ev_steps :: "nat \<Rightarrow> code \<Rightarrow> config \<Rightarrow> config" where
  "ev_steps 0 prog c = c"
| "ev_steps (Suc n) prog c = (case estep prog c of None \<Rightarrow> c | Some d \<Rightarrow> ev_steps n prog d)"

lemma run_step: "estep prog c = Some d \<Longrightarrow> ev_run prog c d"
  by (rule ev_run.further [OF ev_run.here])

lemma two_steps: "estep prog c = Some d \<Longrightarrow> estep prog d = Some f \<Longrightarrow> ev_run prog c f"
  by (rule ev_run.further [OF run_step])

lemma run_trans: "ev_run prog d f \<Longrightarrow> ev_run prog c d \<Longrightarrow> ev_run prog c f"
  by (induction rule: ev_run.induct) (auto intro: ev_run.further)

lemma steps_run: "ev_run prog c (ev_steps n prog c)"
proof (induction n arbitrary: c)
  case (Suc n)
  then show ?case by (auto simp: ev_run.here split: option.split intro: run_trans [OF Suc run_step])
qed (simp add: ev_run.here)

text \<open>Two listeners of object 0; the program 1 does nothing, the first listener of the program 2 removes the
  second.\<close>

definition demo_world :: world where
  "demo_world = on1 0 ''move'' (User 2) None (on1 0 ''move'' (User 1) None new_world)"

definition idle_code :: code where
  "idle_code n e w = []"

definition demo_event :: event where
  "demo_event = \<lparr>v_type = ''move'', v_target = 0, v_layer = None\<rparr>"

lemma demo_world_ok: "events_ok demo_world"
  by (simp add: demo_world_def on1_ok new_world_ok)

lemma removed_listener_stays_silent_witness:
  "1 \<in> cells_at demo_world 0 ''move'' \<and>
   calls_to 1 (fst (ev_steps 4 idle_code
     (ev_off 0 (Words ''move'' (User 2)) None demo_world, [Plain 0 demo_event [1] None False]))) = []"
proof -
  let ?w = "ev_off 0 (Words ''move'' (User 2)) None demo_world"
  let ?c = "ev_steps 4 idle_code (?w, [Plain 0 demo_event [1] None False])"
  have "list_at demo_world 0 ''move'' = [0, 1] \<and> keys_at demo_world 0 ''move'' = [] \<and> calls_to 1 demo_world = []" by code_simp
  then have cells: "1 \<in> cells_at demo_world 0 ''move''" "calls_to 1 demo_world = []" by (simp_all add: cells_at_def)
  have "list_at ?w 0 ''move'' = [0] \<and> keys_at ?w 0 ''move'' = []" by code_simp
  then have gone: "1 \<notin> cells_at ?w 0 ''move''" by (simp add: cells_at_def)
  have run: "ev_run idle_code (?w, [Plain 0 demo_event [1] None False]) (fst ?c, snd ?c)"
    using steps_run [of idle_code _ 4] by simp
  then have "calls_to 1 (fst ?c) = calls_to 1 demo_world"
    by (intro removed_listener_stays_silent [OF demo_world_ok cells(1) _ gone run]) simp
  then show ?thesis using cells by simp
qed

lemma ev_off_types_word:
  "s \<noteq> [] \<Longrightarrow> splitWords s = [t] \<Longrightarrow> ev_off_types o' s w = off1 o' t None None w"
  by (simp add: ev_off_types_def)

text \<open>
  \<open>off\<close> of a whole type leaves its listeners callable: a \<open>fire\<close> under way still calls those it has not
  reached yet, though the object does not have them any more.
\<close>

theorem forgotten_type_still_called:
  assumes "events_ok w" "c \<in> set (list_at w o' t)" "s \<noteq> []" "splitWords s = [t]"
  shows "\<exists>f v gs. estep prog (ev_off_types o' s w, Plain o' e (c # cs) ti p # fs) = Some (v, gs) \<and>
    calls_to c v = calls_to c w @ [(c, o', v_type e, f, o')] \<and> regs v o' t = ([], [])"
proof -
  obtain f where f: "w_cells w ! c = \<lparr>c_fn = Some f, c_ctx = None\<rparr>" using plain_live [OF assms(1,2)] by blast
  let ?u = "ev_off_types o' s w"
  have u: "?u = off1 o' t None None w" using assms(3,4) by (rule ev_off_types_word)
  have some: "w_events w o' \<noteq> None"
    using assms(2) by (auto simp: list_at_def events_of_def no_events_def split: option.splits)
  then have same: "w_cells ?u = w_cells w" "w_calls ?u = w_calls w" "regs ?u o' t = ([], [])"
    using off_type_regs [OF some, of t o' t] by (auto simp: u off1_def off_type_def)
  let ?v = "?u\<lparr>w_calls := w_calls ?u @ [(c, o', v_type e, f, o')]\<rparr>"
  have "regs ?v o' t = regs ?u o' t"
    by (simp add: regs_def plain_fns_def context_fns_def list_at_def keys_at_def idx_at_def events_of_def cong: option.case_cong)
  then show ?thesis using f same by (auto simp: call_def Let_def calls_to_def)
qed

lemma forgotten_type_still_called_witness:
  "\<exists>f v gs. estep idle_code (ev_off_types 0 ''move'' demo_world, [Plain 0 demo_event [1] None False]) = Some (v, gs) \<and>
    calls_to 1 v = calls_to 1 demo_world @ [(1, 0, ''move'', f, 0)] \<and> regs v 0 ''move'' = ([], [])"
proof -
  have "list_at demo_world 0 ''move'' = [0, 1] \<and> splitWords ''move'' = [''move'']" by code_simp
  then show ?thesis
    using forgotten_type_still_called [OF demo_world_ok, of 1 0 "''move''" "''move''" idle_code demo_event "[]" None False "[]"]
    by (simp add: demo_event_def)
qed

text \<open>
  \<open>listens\<close> says yes for a type whose last listener without a context was removed: the empty array
  stays and counts.
\<close>

theorem removed_last_still_listens:
  assumes "events_ok w" "regs w o' t = ([f], [])" "own_context o' ctx = None"
  shows "regs (off1 o' t (Some f) ctx w) o' t = ([], []) \<and> listens (off1 o' t (Some f) ctx w) o' t p = Some True"
proof -
  have regs: "regs (off1 o' t (Some f) ctx w) o' t = ([], [])"
    using off1_regs [OF assms(1), of o' t f ctx o' t] assms(2,3) by simp
  have l: "map (\<lambda>c. the (c_fn (w_cells w ! c))) (list_at w o' t) = [f]" using assms(2) by (simp add: regs_def plain_fns_def)
  then obtain c where c: "list_at w o' t = [c]" "the (c_fn (w_cells w ! c)) = f" by auto
  obtain e where e: "w_events w o' = Some e" "e_list e t = Some [c]"
    using c(1) by (auto simp: list_at_def events_of_def no_events_def split: option.splits)
  have "c_fn (w_cells w ! c) = Some f" using plain_live [OF assms(1), of c o' t] c by auto
  then have "cut_first f (w_cells w) [c] = Some (c, [])" by simp
  then have "off1 o' t (Some f) ctx w = silence c (set_events o' (e\<lparr>e_list := (e_list e)(t \<mapsto> [])\<rparr>) w)"
    using e assms(3) by (simp add: off1_def off_plain_def events_of_def)
  then have "own_listeners (off1 o' t (Some f) ctx w) o' t" by (simp add: own_listeners_def set_events_def)
  then show ?thesis using regs by (simp add: listens_def asks.simps)
qed

lemma removed_last_still_listens_witness:
  "listens (off1 0 ''move'' (Some (User 1)) None (on1 0 ''move'' (User 1) None new_world)) 0 ''move'' False = Some True"
proof -
  have none: "regs new_world 0 ''move'' = ([], [])" by (rule no_events_regs) (simp add: new_world_def)
  have "regs (on1 0 ''move'' (User 1) None new_world) 0 ''move'' = ([User 1], [])"
    using on1_regs [OF new_world_ok, of 0 "''move''" "User 1" None 0 "''move''"] by (simp add: none own_context_def)
  then show ?thesis
    using removed_last_still_listens [OF on1_ok [OF new_world_ok], of 0 "''move''" "User 1" None 0 "''move''" "User 1" None False]
    by (simp add: own_context_def)
qed


section \<open>What a fire reaches\<close>

text \<open>The objects an event passes when it goes up, in the order they are visited; \<open>n\<close> bounds the height.\<close>

primrec ancestors :: "nat \<Rightarrow> world \<Rightarrow> oref \<Rightarrow> oref list" where
  "ancestors 0 w o' = [o']"
| "ancestors (Suc n) w o' = o' # concat (map (\<lambda>ip. ancestors n w (snd ip)) (parents_of w o'))"

text \<open>The parents form no cycle: \<open>r\<close> goes down on the way up. Their keys are in order.\<close>

definition ancestry :: "(oref \<Rightarrow> nat) \<Rightarrow> world \<Rightarrow> bool" where
  "ancestry r w \<longleftrightarrow> (\<forall>o' ip. ip \<in> set (parents_of w o') \<longrightarrow> r (snd ip) < r o')"

definition parents_ok :: "world \<Rightarrow> bool" where
  "parents_ok w \<longleftrightarrow> (\<forall>o'. sorted_wrt (<) (map fst (parents_of w o')))"

definition deliveries :: "world \<Rightarrow> string \<Rightarrow> oref \<Rightarrow> (oref \<times> string \<times> fref \<times> oref) list" where
  "deliveries w t o' = map (\<lambda>f. (o', t, f, o')) (plain_fns w o' t) @ map (\<lambda>fx. (o', t, fst fx, snd fx)) (context_fns w o' t)"

definition heard :: "world \<Rightarrow> (oref \<times> string \<times> fref \<times> oref) list" where
  "heard w = map snd (w_calls w)"

text \<open>All functions that listen have a body that does nothing to the objects.\<close>

definition idle_world :: "code \<Rightarrow> world \<Rightarrow> bool" where
  "idle_world prog w \<longleftrightarrow> (\<forall>c < length (w_cells w). case c_fn (w_cells w ! c) of
      Some (User n) \<Rightarrow> (\<forall>e v. prog n e v = [])
    | Some (Handler n) \<Rightarrow> False
    | None \<Rightarrow> True)"

lemma ancestors_eq:
  "ancestry r w \<Longrightarrow> r o' \<le> m \<Longrightarrow> r o' \<le> n \<Longrightarrow> ancestors m w o' = ancestors n w o'"
proof (induction "r o'" arbitrary: o' m n rule: less_induct)
  case less
  have up: "r (snd ip) < r o'" if "ip \<in> set (parents_of w o')" for ip
    using that less.prems(1) unfolding ancestry_def by blast
  show ?case
  proof (cases "parents_of w o' = []")
    case True
    then have "ancestors k w o' = [o']" for k by (cases k) simp_all
    then show ?thesis by simp
  next
    case False
    then have "r o' \<noteq> 0" using up [of "hd (parents_of w o')"] by auto
    then obtain i j where ij: "m = Suc i" "n = Suc j" using less.prems(2,3) by (metis Suc_le_D not0_implies_Suc)
    have "ancestors i w (snd ip) = ancestors j w (snd ip)" if "ip \<in> set (parents_of w o')" for ip
      using less.hyps [OF up [OF that]] less.prems up [OF that] ij by simp
    then show ?thesis using ij by (simp cong: map_cong)
  qed
qed

lemma ancestors_rank:
  assumes "ancestry r w"
  shows "ancestors (r o') w o' = o' # concat (map (\<lambda>ip. ancestors (r (snd ip)) w (snd ip)) (parents_of w o'))"
proof -
  have "ancestors (r o') w o' = ancestors (Suc (r o')) w o'" using assms by (rule ancestors_eq) simp_all
  moreover have "ancestors (r o') w (snd ip) = ancestors (r (snd ip)) w (snd ip)" if "ip \<in> set (parents_of w o')" for ip
  proof -
    have "r (snd ip) < r o'" using assms that unfolding ancestry_def by blast
    then show ?thesis by (intro ancestors_eq [OF assms]) simp_all
  qed
  ultimately show ?thesis by (simp cong: map_cong)
qed

text \<open>The record of calls is read by nothing.\<close>

lemma calls_unread [simp]:
  "events_of (w\<lparr>w_calls := ks\<rparr>) = events_of w" "parents_of (w\<lparr>w_calls := ks\<rparr>) = parents_of w"
  "own_listeners (w\<lparr>w_calls := ks\<rparr>) = own_listeners w"
  by (simp_all add: events_of_def parents_of_def own_listeners_def fun_eq_iff)

lemma asks_up:
  assumes "ancestry r w"
  shows "asks (w\<lparr>w_calls := ks\<rparr>) t os = Some (\<exists>o' \<in> set os. \<exists>a \<in> set (ancestors (r o') w o'). own_listeners w a t)"
proof -
  define size_of where "size_of os = sum_list (map (\<lambda>o'. length (ancestors (r o') w o')) os)" for os
  have grows: "size_of (map snd (parents_of w o') @ os) < size_of (o' # os)" for o' os
    using ancestors_rank [OF assms, of o'] by (simp add: size_of_def length_concat comp_def)
  show ?thesis
  proof (induction "size_of os" arbitrary: os rule: less_induct)
    case less
    show ?case
    proof (cases os)
      case (Cons o' os')
      have "asks (w\<lparr>w_calls := ks\<rparr>) t (map snd (parents_of w o') @ os') =
          Some (\<exists>q \<in> set (map snd (parents_of w o') @ os'). \<exists>a \<in> set (ancestors (r q) w q). own_listeners w a t)"
        using less grows Cons by blast
      then show ?thesis
        using ancestors_rank [OF assms, of o'] by (subst asks.simps) (auto simp: Cons)
    qed (simp add: asks.simps)
  qed
qed

lemma silent_object: "events_ok w \<Longrightarrow> \<not> own_listeners w o' t \<Longrightarrow> deliveries w t o' = []"
  using len_known [of w o' t]
  by (auto simp: own_listeners_def deliveries_def plain_fns_def context_fns_def list_at_def keys_at_def idx_at_def len_at_def
    events_of_def no_events_def split: option.splits)


definition live_cell :: "world \<Rightarrow> nat \<Rightarrow> bool" where
  "live_cell w c \<longleftrightarrow> c < length (w_cells w) \<and> c_fn (w_cells w ! c) \<noteq> None"

lemma cells_live: "events_ok w \<Longrightarrow> c \<in> cells_at w p s \<Longrightarrow> live_cell w c"
  using cells_at_range [of w c p s] plain_live [of w c p s] entry_live [of w _ p s]
  by (fastforce simp: cells_at_def live_cell_def entry_ok_def)

text \<open>The call of an idle listener is two steps: into its body and out of it.\<close>

lemma idle_call:
  assumes "idle_world prog w" "live_cell w c"
  shows "call prog o' e c this (w\<lparr>w_calls := ks\<rparr>) =
    (w\<lparr>w_calls := ks @ [(c, o', v_type e, the (c_fn (w_cells w ! c)), this)]\<rparr>, [Body []])"
proof -
  obtain f where f: "c_fn (w_cells w ! c) = Some f" using assms(2) by (auto simp: live_cell_def)
  then obtain n where n: "f = User n" "prog n = (\<lambda>_ _. [])"
    using assms unfolding idle_world_def live_cell_def
    by (cases f) (fastforce simp: fun_eq_iff)+
  show ?thesis using f n by (simp add: call_def Let_def)
qed

lemma run_plain:
  assumes "idle_world prog w" "\<forall>c \<in> set cs. live_cell w c"
  shows "ev_run prog (w\<lparr>w_calls := ks\<rparr>, Plain o' e cs ti p # fs)
    (w\<lparr>w_calls := ks @ map (\<lambda>c. (c, o', v_type e, the (c_fn (w_cells w ! c)), o')) cs\<rparr>, Plain o' e [] ti p # fs)"
  using assms(2)
proof (induction cs arbitrary: ks)
  case (Cons c cs)
  let ?w = "w\<lparr>w_calls := ks @ [(c, o', v_type e, the (c_fn (w_cells w ! c)), o')]\<rparr>"
  have "estep prog (w\<lparr>w_calls := ks\<rparr>, Plain o' e (c # cs) ti p # fs) = Some (?w, Body [] # Plain o' e cs ti p # fs)"
    using idle_call [OF assms(1)] Cons.prems by simp
  then have step: "ev_run prog (w\<lparr>w_calls := ks\<rparr>, Plain o' e (c # cs) ti p # fs) (?w, Plain o' e cs ti p # fs)"
    by (rule two_steps) simp
  show ?case using run_trans [OF Cons.IH [of "ks @ [(c, o', v_type e, the (c_fn (w_cells w ! c)), o')]"] step] Cons.prems
    by simp
qed (simp add: ev_run.here)

lemma run_keys:
  assumes "idle_world prog w" "i < length (w_index w)" "distinct (map fst (w_index w ! i))"
    "set es \<subseteq> set (w_index w ! i)" "\<forall>kc \<in> set es. live_cell w (snd kc) \<and> c_ctx (w_cells w ! snd kc) \<noteq> None"
  shows "ev_run prog (w\<lparr>w_calls := ks\<rparr>, Keys o' e i (map fst es) p # fs)
    (w\<lparr>w_calls := ks @ map (\<lambda>kc. (snd kc, o', v_type e, the (c_fn (w_cells w ! snd kc)), the (c_ctx (w_cells w ! snd kc)))) es\<rparr>,
     Keys o' e i [] p # fs)"
  using assms(4,5)
proof (induction es arbitrary: ks)
  case (Cons kc es)
  let ?c = "snd kc"
  let ?w = "w\<lparr>w_calls := ks @ [(?c, o', v_type e, the (c_fn (w_cells w ! ?c)), the (c_ctx (w_cells w ! ?c)))]\<rparr>"
  have "map_of (w_index w ! i) (fst kc) = Some ?c" using assms(3) Cons.prems(1) by simp
  then have "estep prog (w\<lparr>w_calls := ks\<rparr>, Keys o' e i (map fst (kc # es)) p # fs) = Some (?w, Body [] # Keys o' e i (map fst es) p # fs)"
    using idle_call [OF assms(1)] Cons.prems by (auto split: option.split)
  then have step: "ev_run prog (w\<lparr>w_calls := ks\<rparr>, Keys o' e i (map fst (kc # es)) p # fs) (?w, Keys o' e i (map fst es) p # fs)"
    by (rule two_steps) simp
  show ?case
    using run_trans [OF Cons.IH [of "ks @ [(?c, o', v_type e, the (c_fn (w_cells w ! ?c)), the (c_ctx (w_cells w ! ?c)))]"] step]
      Cons.prems by simp
qed (simp add: ev_run.here)

definition up_frames :: "world \<Rightarrow> oref \<Rightarrow> event \<Rightarrow> bool \<Rightarrow> frame list" where
  "up_frames w o' e p = (if p then [Parents o' e (map fst (parents_of w o'))] else [])"

text \<open>The object's own listeners.\<close>

lemma run_own:
  assumes ok: "events_ok w" and idle: "idle_world prog w" and ev: "w_events w o' = Some ev"
  shows "\<exists>ls. map snd ls = map snd ks @ deliveries w (v_type e) o' \<and>
    ev_run prog (w\<lparr>w_calls := ks\<rparr>,
        Plain o' e (case e_list ev (v_type e) of None \<Rightarrow> [] | Some l \<Rightarrow> l) (e_idx ev (v_type e)) p # fs)
      (w\<lparr>w_calls := ls\<rparr>, up_frames w o' e p @ fs)"
proof -
  let ?t = "v_type e" and ?ti = "e_idx ev (v_type e)"
  have list: "(case e_list ev ?t of None \<Rightarrow> [] | Some l \<Rightarrow> l) = list_at w o' ?t" "?ti = idx_at w o' ?t"
    using ev by (simp_all add: list_at_def idx_at_def events_of_def)
  let ?ks = "ks @ map (\<lambda>c. (c, o', ?t, the (c_fn (w_cells w ! c)), o')) (list_at w o' ?t)"
  have plain: "ev_run prog (w\<lparr>w_calls := ks\<rparr>, Plain o' e (list_at w o' ?t) ?ti p # fs) (w\<lparr>w_calls := ?ks\<rparr>, Plain o' e [] ?ti p # fs)"
    using cells_live [OF ok, of _ o' ?t] by (intro run_plain [OF idle]) (simp add: cells_at_def)
  show ?thesis
  proof (cases "idx_at w o' ?t")
    case None
    have "estep prog (w\<lparr>w_calls := ?ks\<rparr>, Plain o' e [] ?ti p # fs) = Some (w\<lparr>w_calls := ?ks\<rparr>, up_frames w o' e p @ fs)"
      using None list by (simp add: up_frames_def)
    then show ?thesis using plain None
      by (intro exI [of _ ?ks]) (auto simp: list deliveries_def plain_fns_def context_fns_def keys_at_def intro: ev_run.further)
  next
    case (Some i)
    let ?ls = "?ks @ map (\<lambda>kc. (snd kc, o', ?t, the (c_fn (w_cells w ! snd kc)), the (c_ctx (w_cells w ! snd kc)))) (w_index w ! i)"
    have keys: "keys_at w o' ?t = w_index w ! i" using Some by (simp add: keys_at_def)
    have "live_cell w (snd kc) \<and> c_ctx (w_cells w ! snd kc) \<noteq> None" if "kc \<in> set (w_index w ! i)" for kc
      using that entry_live [OF ok, of kc o' ?t] by (auto simp: keys entry_ok_def live_cell_def)
    then have "ev_run prog (w\<lparr>w_calls := ?ks\<rparr>, Keys o' e i (map fst (w_index w ! i)) p # fs) (w\<lparr>w_calls := ?ls\<rparr>, Keys o' e i [] p # fs)"
      using index_range [OF ok Some] events_okD(4) [OF ok, of o' ?t]
      by (intro run_keys [OF idle]) (auto simp: keys_ok_def obj_ok_def keys)
    moreover have "estep prog (w\<lparr>w_calls := ?ks\<rparr>, Plain o' e [] ?ti p # fs) =
        Some (w\<lparr>w_calls := ?ks\<rparr>, Keys o' e i (map fst (w_index w ! i)) p # fs)" using Some list by simp
    moreover have "estep prog (w\<lparr>w_calls := ?ls\<rparr>, Keys o' e i [] p # fs) = Some (w\<lparr>w_calls := ?ls\<rparr>, up_frames w o' e p @ fs)"
      by (simp add: up_frames_def)
    ultimately have "ev_run prog (w\<lparr>w_calls := ks\<rparr>, Plain o' e (list_at w o' ?t) ?ti p # fs) (w\<lparr>w_calls := ?ls\<rparr>, up_frames w o' e p @ fs)"
      using plain by (meson ev_run.further run_trans)
    then show ?thesis
      by (intro exI [of _ ?ls]) (simp add: list deliveries_def plain_fns_def context_fns_def keys comp_def)
  qed
qed


definition heard_from :: "(oref \<Rightarrow> nat) \<Rightarrow> world \<Rightarrow> string \<Rightarrow> oref \<Rightarrow> (oref \<times> string \<times> fref \<times> oref) list" where
  "heard_from r w t o' = concat (map (deliveries w t) (ancestors (r o') w o'))"

lemma concat_map_concat: "concat (map f (concat xss)) = concat (map (\<lambda>xs. concat (map f xs)) xss)"
  by (induction xss) simp_all

lemma heard_from_rank:
  "ancestry r w \<Longrightarrow> heard_from r w t o' = deliveries w t o' @ concat (map (\<lambda>ip. heard_from r w t (snd ip)) (parents_of w o'))"
  unfolding heard_from_def by (subst ancestors_rank) (simp_all add: concat_map_concat comp_def)

lemma run_parents:
  assumes up: "\<And>ip l ks. ip \<in> set ips \<Longrightarrow> \<exists>gs. fire (snd ip) (v_type e) l True (w\<lparr>w_calls := ks\<rparr>) = Some gs \<and>
      (\<forall>fs. \<exists>ls. map snd ls = map snd ks @ heard_from r w (v_type e) (snd ip) \<and>
        ev_run prog (w\<lparr>w_calls := ks\<rparr>, gs @ fs) (w\<lparr>w_calls := ls\<rparr>, fs))"
    and ips: "set ips \<subseteq> set (parents_of w o')" and keys: "distinct (map fst (parents_of w o'))"
  shows "\<exists>ls. map snd ls = map snd ks @ concat (map (\<lambda>ip. heard_from r w (v_type e) (snd ip)) ips) \<and>
    ev_run prog (w\<lparr>w_calls := ks\<rparr>, Parents o' e (map fst ips) # fs) (w\<lparr>w_calls := ls\<rparr>, fs)"
  using up ips
proof (induction ips arbitrary: ks)
  case Nil
  have "estep prog (w\<lparr>w_calls := ks\<rparr>, Parents o' e [] # fs) = Some (w\<lparr>w_calls := ks\<rparr>, fs)" by simp
  then show ?case using run_step by fastforce
next
  case (Cons ip ips)
  let ?fs = "Parents o' e (map fst ips) # fs"
  let ?l = "Some (case v_layer e of None \<Rightarrow> v_target e | Some l \<Rightarrow> l)"
  obtain gs where gs: "fire (snd ip) (v_type e) ?l True (w\<lparr>w_calls := ks\<rparr>) = Some gs"
    "\<forall>fs. \<exists>ls. map snd ls = map snd ks @ heard_from r w (v_type e) (snd ip) \<and>
        ev_run prog (w\<lparr>w_calls := ks\<rparr>, gs @ fs) (w\<lparr>w_calls := ls\<rparr>, fs)"
    using Cons.prems(1) [of ip ?l ks] by auto
  have "map_of (parents_of w o') (fst ip) = Some (snd ip)" using keys Cons.prems(2) by simp
  then have step: "estep prog (w\<lparr>w_calls := ks\<rparr>, Parents o' e (map fst (ip # ips)) # fs) = Some (w\<lparr>w_calls := ks\<rparr>, gs @ ?fs)"
    using gs(1) by simp
  obtain ls where ls: "map snd ls = map snd ks @ heard_from r w (v_type e) (snd ip)"
    "ev_run prog (w\<lparr>w_calls := ks\<rparr>, gs @ ?fs) (w\<lparr>w_calls := ls\<rparr>, ?fs)" using gs(2) by blast
  have ex: "\<exists>ms. map snd ms = map snd ls @ concat (map (\<lambda>ip. heard_from r w (v_type e) (snd ip)) ips) \<and>
      ev_run prog (w\<lparr>w_calls := ls\<rparr>, ?fs) (w\<lparr>w_calls := ms\<rparr>, fs)"
    by (rule Cons.IH) (use Cons.prems in auto)
  then obtain ms where ms: "map snd ms = map snd ls @ concat (map (\<lambda>ip. heard_from r w (v_type e) (snd ip)) ips)"
    "ev_run prog (w\<lparr>w_calls := ls\<rparr>, ?fs) (w\<lparr>w_calls := ms\<rparr>, fs)" by blast
  have "ev_run prog (w\<lparr>w_calls := ks\<rparr>, Parents o' e (map fst (ip # ips)) # fs) (w\<lparr>w_calls := ms\<rparr>, fs)"
    using run_trans [OF ms(2) run_trans [OF ls(2) run_step [OF step]]] .
  then show ?case using ms(1) ls(1) by (intro exI [of _ ms]) simp
qed

lemma fire_up:
  assumes ok: "events_ok w" and idle: "idle_world prog w" and anc: "ancestry r w" and par: "parents_ok w"
  shows "\<exists>gs. fire o' t l True (w\<lparr>w_calls := ks\<rparr>) = Some gs \<and>
      (\<forall>fs. \<exists>ls. map snd ls = map snd ks @ heard_from r w t o' \<and>
        ev_run prog (w\<lparr>w_calls := ks\<rparr>, gs @ fs) (w\<lparr>w_calls := ls\<rparr>, fs))"
proof (induction "r o'" arbitrary: o' l ks rule: less_induct)
  case less
  let ?e = "\<lparr>v_type = t, v_target = o', v_layer = l\<rparr>"
  have listens: "listens (w\<lparr>w_calls := ks\<rparr>) o' t True = Some (\<exists>a \<in> set (ancestors (r o') w o'). own_listeners w a t)"
    using asks_up [OF anc, of ks t "[o']"] by (simp add: listens_def)
  have keys: "distinct (map fst (parents_of w o'))" using par by (auto simp: parents_ok_def strict_sorted_iff)
  have up: "\<exists>ls. map snd ls = map snd ks @ concat (map (\<lambda>ip. heard_from r w t (snd ip)) (parents_of w o')) \<and>
      ev_run prog (w\<lparr>w_calls := ks\<rparr>, up_frames w o' ?e True @ fs) (w\<lparr>w_calls := ls\<rparr>, fs)" for ks fs
  proof -
    have "r (snd ip) < r o'" if "ip \<in> set (parents_of w o')" for ip using that anc unfolding ancestry_def by blast
    then have "\<exists>ls. map snd ls = map snd ks @ concat (map (\<lambda>ip. heard_from r w (v_type ?e) (snd ip)) (parents_of w o')) \<and>
        ev_run prog (w\<lparr>w_calls := ks\<rparr>, Parents o' ?e (map fst (parents_of w o')) # fs) (w\<lparr>w_calls := ls\<rparr>, fs)"
      by (intro run_parents keys subset_refl) (use less in simp)
    then show ?thesis by (simp add: up_frames_def)
  qed
  show ?case
  proof (cases "\<exists>a \<in> set (ancestors (r o') w o'). own_listeners w a t")
    case False
    then have "heard_from r w t o' = []" using silent_object [OF ok] by (simp add: heard_from_def)
    then show ?thesis using False listens by (auto simp: fire_def intro: ev_run.here)
  next
    case True
    show ?thesis
    proof (cases "w_events w o'")
      case None
      then have "deliveries w t o' = []" by (intro silent_object [OF ok]) (simp add: own_listeners_def)
      then have hear: "heard_from r w t o' = concat (map (\<lambda>ip. heard_from r w t (snd ip)) (parents_of w o'))"
        using heard_from_rank [OF anc, of t o'] by simp
      have "fire o' t l True (w\<lparr>w_calls := ks\<rparr>) = Some (up_frames w o' ?e True)"
        using None True listens by (simp add: fire_def up_frames_def)
      then show ?thesis unfolding hear using up [of ks] by blast
    next
      case (Some ev)
      let ?own = "Plain o' ?e (case e_list ev t of None \<Rightarrow> [] | Some l \<Rightarrow> l) (e_idx ev t) True"
      have "fire o' t l True (w\<lparr>w_calls := ks\<rparr>) = Some [?own]" using Some True listens by (simp add: fire_def Let_def)
      moreover have "\<exists>ls. map snd ls = map snd ks @ heard_from r w t o' \<and>
          ev_run prog (w\<lparr>w_calls := ks\<rparr>, ?own # fs) (w\<lparr>w_calls := ls\<rparr>, fs)" for fs
      proof -
        obtain ms where ms: "map snd ms = map snd ks @ deliveries w t o'"
          "ev_run prog (w\<lparr>w_calls := ks\<rparr>, ?own # fs) (w\<lparr>w_calls := ms\<rparr>, up_frames w o' ?e True @ fs)"
          using run_own [OF ok idle Some, of ks ?e True fs] by auto
        obtain ls where ls: "map snd ls = map snd ms @ concat (map (\<lambda>ip. heard_from r w t (snd ip)) (parents_of w o'))"
          "ev_run prog (w\<lparr>w_calls := ms\<rparr>, up_frames w o' ?e True @ fs) (w\<lparr>w_calls := ls\<rparr>, fs)"
          using up [of ms fs] by blast
        show ?thesis using ms(1) ls(1) run_trans [OF ls(2) ms(2)]
          unfolding heard_from_rank [OF anc, of t o'] by (intro exI [of _ ls]) simp
      qed
      ultimately show ?thesis by simp
    qed
  qed
qed


subsection \<open>Parents stay in order\<close>

lemma put_sorted_keys: "set (map fst (put_sorted k v m)) = insert k (set (map fst m))"
  by (induction k v m rule: put_sorted.induct) auto

lemma put_sorted_sorted: "sorted_wrt (<) (map fst m) \<Longrightarrow> sorted_wrt (<) (map fst (put_sorted k v m))"
proof (induction k v m rule: put_sorted.induct)
  case (2 k v j u m)
  then show ?case using put_sorted_keys [of k v m] by (auto simp del: set_map)
qed simp

lemma parents_ok_cong: "w_parents v = w_parents w \<Longrightarrow> parents_ok v = parents_ok w"
  by (simp add: parents_ok_def parents_of_def)

lemma parents_frame [simp]:
  "w_parents (set_events o' e w) = w_parents w" "w_parents (silence c w) = w_parents w"
  "w_parents (snd (stamp a w)) = w_parents w" "w_parents (snd (type_index o' t w)) = w_parents w"
  "w_parents (stamped f x w) = w_parents w"
  by (auto simp: set_events_def silence_def stamp_def type_index_def stamped_def Let_def split: option.split)

lemma on1_parents: "w_parents (on1 o' t f ctx w) = w_parents w"
  by (auto simp: on1_def on_plain_def on_context_eq Let_def case_prod_unfold split: option.split)

lemma off1_parents: "w_parents (off1 o' t g ctx w) = w_parents w"
  by (auto simp: off1_def off_plain_def off_type_def off_context_eq Let_def split: option.split)

lemma add_parents_ok: "parents_ok w \<Longrightarrow> parents_ok (addEventParent o' par w)"
  by (auto simp: parents_ok_def addEventParent_def parents_of_def case_prod_unfold Let_def intro!: put_sorted_sorted)

lemma remove_parents_ok: "parents_ok w \<Longrightarrow> parents_ok (removeEventParent o' par w)"
proof -
  assume w: "parents_ok w"
  have "sorted_wrt (<) (map fst (AList.delete i m))" if "sorted_wrt (<) (map fst m)" for i and m :: "(nat \<times> oref) list"
    using that by (simp add: AList.delete_keys removeAll_filter_not_eq sorted_wrt_filter)
  moreover have "sorted_wrt (<) (map fst ps)" if "w_parents w o' = Some ps" for ps
    using w that by (auto simp: parents_ok_def parents_of_def split: option.splits)
  ultimately show ?thesis using w
    by (auto simp: parents_ok_def removeEventParent_def parents_of_def case_prod_unfold Let_def split: option.splits)
qed

interpretation upward: world_pred parents_ok
  by unfold_locales
    (auto intro: add_parents_ok remove_parents_ok parents_ok_cong [THEN iffD2] simp: on1_parents off1_parents off_all_def)

text \<open>
  C26: whatever the listeners do, on which objects and in whatever order, interrupting each other's events
  and their own, the store stays well formed: the counted number of each index is the number of its
  entries, no listener is in two places, every listener that can be found is live and under the key of
  its two stamps, and parents are in the order of their stamps. Hence the registrations of every type
  are the ones the operations promise throughout.
\<close>

theorem event_runs_keep_store:
  assumes "ev_run prog (new_world, fs) (w, gs)"
  shows "events_ok w \<and> parents_ok w \<and>
    len_at w o' t = (case idx_at w o' t of None \<Rightarrow> None | Some _ \<Rightarrow> Some (int (length (context_fns w o' t))))"
proof -
  have "events_ok w" using store.keeps_run [OF assms] new_world_ok by simp
  moreover have "parents_ok w" using upward.keeps_run [OF assms] by (simp add: parents_ok_def parents_of_def new_world_def)
  ultimately show ?thesis using len_known [of w o' t] by (simp add: context_fns_def cong: option.case_cong)
qed

lemma event_runs_keep_store_witness:
  "len_at (fst (ev_steps 9 idle_code (new_world,
     [Body [On 0 (Words ''move'' (User 1)) (Some 5), Fire 0 ''move'' None False, Off 0 (Words ''move'' (User 1)) (Some 5)]]))) 0 ''move'' = Some 0"
proof -
  let ?c = "ev_steps 9 idle_code (new_world,
     [Body [On 0 (Words ''move'' (User 1)) (Some 5), Fire 0 ''move'' None False, Off 0 (Words ''move'' (User 1)) (Some 5)]])"
  have run: "ev_run idle_code (new_world,
     [Body [On 0 (Words ''move'' (User 1)) (Some 5), Fire 0 ''move'' None False, Off 0 (Words ''move'' (User 1)) (Some 5)]]) (fst ?c, snd ?c)"
    using steps_run [of idle_code _ 9] by simp
  have "idx_at (fst ?c) 0 ''move'' = Some 0 \<and> context_fns (fst ?c) 0 ''move'' = []" by code_simp
  then show ?thesis using event_runs_keep_store [OF run, of 0 "''move''"] by simp
qed



text \<open>Object 0 with the parent 1, that has a listener with the context 4.\<close>

definition demo_family :: world where
  "demo_family = addEventParent 0 1 (on1 1 ''move'' (User 3) (Some 4) (on1 0 ''move'' (User 2) None new_world))"


text \<open>A listener of \<open>once\<close> that fires its own event the first time.\<close>

definition again_code :: code where
  "again_code n e w = (if length (w_calls w) < 2 then [Fire 0 ''move'' None False] else [])"

text \<open>The handler of \<open>once\<close> comes after the function, so that a function that fires its own event is called
  again before the handler removes it.\<close>

lemma once_called_twice:
  "filter (\<lambda>k. fst (snd (snd k)) = User 1) (heard (fst (ev_steps 40 again_code
     (new_world, [Body [Once 0 (Words ''move'' (User 1)) None, Fire 0 ''move'' None False]])))) =
   [(0, ''move'', User 1, 0), (0, ''move'', User 1, 0)]"
  by code_simp

text \<open>\<open>off\<close> removes the function of a \<open>once\<close> but not its handler: when the function is then added for
  good, the first event takes it away before it is called.\<close>

lemma once_handler_outlives_off:
  "map (\<lambda>k. fst (snd (snd k))) (heard (fst (ev_steps 60 idle_code
     (new_world, [Body [Once 0 (Words ''move'' (User 1)) None, Off 0 (Words ''move'' (User 1)) None,
        On 0 (Words ''move'' (User 1)) None, Fire 0 ''move'' None False, Fire 0 ''move'' None False]])))) =
   [Handler 0]"
  by code_simp

end
