(* ===== verification/Commands.thy ===== *)
theory Commands
  imports Views
begin

text \<open>
  The commands a user can give (\<open>control/Toolbar.js\<close>) and the menus that offer them
  (\<open>control/Control.Menubar.js\<close>). The map keeps a table of the commands that menus have announced
  (\<open>_allowCommands\<close>), a table of those that context menus may show (\<open>_whiteCommandList\<close>), and the
  keyboard shortcuts by the normalised text of their keys (\<open>_hotkeyCommands\<close>). A command that is
  found in either table is sent to the server, run as a macro, or handed to a dialog. The other
  requests of the tool bar (saving, exporting, printing, closing, styles) go to the server as texts.

  The property table of the host (\<open>map.wopi\<close>) is part of the state, since menus and requests
  look at it; \<open>Wopi.thy\<close> says how it is set. Translated texts, the table of replacement commands
  (\<open>_UNOTARGET\<close>), and the elements of the page are parameters or entries of the log.
\<close>

section \<open>State\<close>

record command_entry =
  ce_hotkey :: "string option"
  ce_callback :: "string option"   \<comment> \<open>the name of the function\<close>
  ce_hide :: "bool option"

record wopi =
  w_origin :: string               \<comment> \<open>\<open>PostMessageOrigin\<close>\<close>
  w_baseName :: jsval
  w_hidePrint :: bool
  w_hideSave :: bool
  w_hideExport :: bool
  w_hideChanges :: bool
  w_disablePrint :: bool
  w_disableExport :: bool
  w_disableCopy :: bool
  w_disableInactive :: bool
  w_downloadAs :: bool
  w_cannotWrite :: bool            \<comment> \<open>\<open>UserCanNotWriteRelative\<close>\<close>
  w_insertRemote :: bool
  w_supportsRename :: bool
  w_canRename :: bool
  w_share :: bool
  w_extra :: jsval
  w_owner :: bool
  w_hideUsers :: "string list option"
  w_loadedTime :: "int option"
  w_conditions :: "(string \<times> bool) list"   \<comment> \<open>\<open>_appLoadedConditions\<close>\<close>
  w_appLoaded :: bool
  w_notifySave :: bool

text \<open>What a menu item shows and does: the picture before it, and the data of its link.\<close>

datatype icon = NoIcon | ClassIcon string | ImageIcon string

record mdata =
  d_type :: "string option"
  d_id :: "string option"
  d_uno :: "string option"
  d_tag :: "string option"
  d_state :: "string option"
  d_post :: bool

datatype litem =
  LItem (li_id: "string option") (li_readonly: bool) (li_text: string) (li_disabled: bool) (li_icon: icon)
    (li_hotkey: "string option") (li_data: mdata) (li_sep: bool) (li_hidden: bool) (li_items: "litem list")

record app =
  a_users :: ulayer
  a_allowed :: "(string, command_entry) obj"
  a_white :: "(string, bool) obj"
  a_hotkeys :: "(string, string) obj"
  a_iconAlias :: "(string, string) obj"
  a_resourceIcon :: "(string, string) obj"
  a_docContext :: string           \<comment> \<open>\<open>_docLayer._docContext\<close>\<close>
  a_everModified :: bool
  a_stopClose :: bool
  a_waitSave :: bool
  a_saveTimers :: nat              \<comment> \<open>timers of \<open>closeDocument\<close> that will save\<close>
  a_closeTimers :: nat             \<comment> \<open>and those that will close\<close>
  a_framed :: bool                 \<comment> \<open>\<open>window.self !== window.top\<close>\<close>
  a_mobileApp :: bool
  a_iosApp :: bool
  a_values :: "(string, jsval) obj" \<comment> \<open>\<open>_toolbarCommandValues\<close>\<close>
  a_watermark :: bool              \<comment> \<open>the server wants a watermark on what is printed\<close>
  a_exports :: "(string option \<times> string) list"   \<comment> \<open>\<open>_docLayer._exportFormats\<close>: label, format\<close>
  a_wopi :: wopi
  a_menubar :: "litem list"
  a_menuReady :: bool
  a_alwaysActive :: bool           \<comment> \<open>\<open>options.alwaysActive\<close> as the host set it\<close>

definition on_app :: "(tlayer \<Rightarrow> tlayer) \<Rightarrow> app \<Rightarrow> app" where
  "on_app f a = a\<lparr>a_users := on_layer f (a_users a)\<rparr>"

abbreviation app_layer :: "app \<Rightarrow> tlayer" where
  "app_layer a \<equiv> u_layer (a_users a)"

abbreviation app_net :: "app \<Rightarrow> session" where
  "app_net a \<equiv> g_net (l_grid (app_layer a))"

definition on_net :: "(session \<Rightarrow> session) \<Rightarrow> app \<Rightarrow> app" where
  "on_net f = on_app (on_grid (\<lambda>g. g\<lparr>g_net := f (g_net g)\<rparr>))"

definition asend :: "sconf \<Rightarrow> string \<Rightarrow> app \<Rightarrow> app" where
  "asend cf m = on_app (lsend cf m)"

definition acall :: "string \<Rightarrow> jsval list \<Rightarrow> app \<Rightarrow> app" where
  "acall f args = on_app (lemit (Called f args))"

definition afire :: "string \<Rightarrow> (string \<times> jsval) list \<Rightarrow> app \<Rightarrow> app" where
  "afire t fs = on_app (lemit (Fired t (JObj fs)))"

abbreviation app_throws :: "app \<Rightarrow> app" where
  "app_throws \<equiv> acall ''TypeError'' []"

abbreviation app_edits :: "app \<Rightarrow> bool" where
  "app_edits a \<equiv> perm (app_net a) = ''edit''"

section \<open>Requests of the tool bar\<close>

text \<open>\<open>showBusy\<close> with a document layer, as all callers here have.\<close>

definition busy :: "string \<Rightarrow> app \<Rightarrow> app" where
  "busy label = afire ''showbusy'' [(''label'', JStr label)]"

definition applyFont :: "sconf \<Rightarrow> string \<Rightarrow> app \<Rightarrow> app" where
  "applyFont cf fontName a =
     (if app_edits a
      then asend cf (quoted ''uno .uno:CharFontName {~CharFontName.FamilyName~: {~type~: ~string~, ~value~: ~''
             @ fontName @ quoted ''~}}'') a
      else a)"

definition applyFontSize :: "sconf \<Rightarrow> string \<Rightarrow> app \<Rightarrow> app" where
  "applyFontSize cf fontSize a =
     (if app_edits a
      then asend cf (quoted ''uno .uno:FontHeight {~FontHeight.Height~: {~type~: ~float~, ~value~: ~''
             @ fontSize @ quoted ''~}}'') a
      else a)"

definition getToolbarCommandValues :: "string \<Rightarrow> app \<Rightarrow> jsval option" where
  "getToolbarCommandValues command a = obj_get (a_values a) command"

text \<open>The formats a document can be exported to, without their labels.\<close>

definition export_formats :: "(string, string list) obj" where
  "export_formats =
     [(''text'', [''pdf'', ''txt'', ''html'', ''odt'', ''doc'', ''docx'', ''rtf'', ''epub'']),
      (''spreadsheet'', [''pdf'', ''html'', ''ods'', ''xls'', ''xlsx'', ''csv'']),
      (''presentation'', [''pdf'', ''html'', ''odp'', ''ppt'', ''pptx''])]"

definition getExportFormats :: "app \<Rightarrow> string list" where
  "getExportFormats a =
     (let t = l_docType (app_layer a); t = (if t = ''drawing'' then ''presentation'' else t)
      in case obj_get export_formats t of None \<Rightarrow> [] | Some fs \<Rightarrow> fs)"

definition or_empty :: "string option \<Rightarrow> string" where
  "or_empty s = (case s of None \<Rightarrow> [] | Some t \<Rightarrow> t)"

definition downloadAs :: "sconf \<Rightarrow> string \<Rightarrow> string option \<Rightarrow> string option \<Rightarrow> string \<Rightarrow> app \<Rightarrow> app" where
  "downloadAs cf name format options k a =
     (if fatal (app_net a) then a
      else
        let k = (if k = [] then ''export'' else k) in
        if (k = ''print'' \<and> w_disablePrint (a_wopi a)) \<or> (k = ''export'' \<and> w_disableExport (a_wopi a))
        then on_net hideBusy a
        else if or_empty format = ''pdf'' \<and> \<not> a_watermark a
        then acall ''dialog.run'' [JStr ''PdfWatermarkText'', JObj [(''args'', JObj
               [(''name'', JStr name), (''id'', JStr k), (''options'', JStr (or_empty options))])]] a
        else asend cf (''downloadas name='' @ encodeURIComponent name @ '' id='' @ k @ '' format='' @ or_empty format
               @ '' options='' @ or_empty options) (busy ''Downloading...'' a))"

definition app_print :: "sconf \<Rightarrow> app \<Rightarrow> app" where
  "app_print cf a =
     (if a_iosApp a then acall ''lool.postMessage'' [JStr ''PRINT''] a
      else downloadAs cf ''print.pdf'' (Some ''pdf'') None ''print'' (busy ''Downloading...'' a))"

definition saveAs :: "sconf \<Rightarrow> string option \<Rightarrow> string option \<Rightarrow> string option \<Rightarrow> app \<Rightarrow> app" where
  "saveAs cf url format options a = (case url of
      None \<Rightarrow> a
    | Some u \<Rightarrow>
        asend cf (''saveas url=wopi:'' @ encodeURIComponent u @ '' format='' @ or_empty format
          @ '' options='' @ or_empty options) (busy ''Saving...'' a))"

definition renameFile :: "sconf \<Rightarrow> string option \<Rightarrow> app \<Rightarrow> app" where
  "renameFile cf filename a =
     (if or_empty filename = [] then a
      else asend cf (''renamefile filename='' @ encodeURIComponent (or_empty filename)) (busy ''Renaming...'' a))"

definition incorrect_param :: "string \<Rightarrow> app \<Rightarrow> app" where
  "incorrect_param cmd = afire ''error'' [(''cmd'', JStr cmd), (''kind'', JStr ''incorrectparam'')]"

definition applyStyle :: "sconf \<Rightarrow> string option \<Rightarrow> string option \<Rightarrow> app \<Rightarrow> app" where
  "applyStyle cf style family a =
     (if or_empty style = [] \<or> or_empty family = [] then incorrect_param ''setStyle'' a
      else if app_edits a
      then asend cf (quoted ''uno .uno:StyleApply {~Style~:{~type~:~string~, ~value~: ~'' @ or_empty style
             @ quoted ''~},~FamilyName~:{~type~:~string~, ~value~:~'' @ or_empty family @ quoted ''~}}'') a
      else a)"

definition applyLayout :: "sconf \<Rightarrow> string option \<Rightarrow> app \<Rightarrow> app" where
  "applyLayout cf layout a =
     (if or_empty layout = [] then incorrect_param ''setLayout'' a
      else if app_edits a
      then asend cf (quoted ''uno .uno:AssignLayout {~WhatPage~:{~type~:~unsigned short~, ~value~: ~''
             @ show_int (selectedPart (app_layer a))
             @ quoted ''~},~WhatLayout~:{~type~:~unsigned short~, ~value~: ~'' @ or_empty layout @ quoted ''~}}'') a
      else a)"

text \<open>\<open>save\<close>; the text of \<open>extendedData\<close> is sent as it is given.\<close>

definition zero_one :: "bool \<Rightarrow> string" where
  "zero_one b = (if b then ''1'' else ''0'')"

definition app_save :: "sconf \<Rightarrow> bool \<Rightarrow> bool \<Rightarrow> string option \<Rightarrow> app \<Rightarrow> app" where
  "app_save cf dontTerminateEdit dontSaveIfUnmodified extendedData a =
     asend cf (''save dontTerminateEdit='' @ zero_one dontTerminateEdit @ '' dontSaveIfUnmodified='' @ zero_one dontSaveIfUnmodified
       @ (case extendedData of None \<Rightarrow> [] | Some d \<Rightarrow> '' extendedData='' @ d)) (busy ''Saving...'' a)"

text \<open>Closing: a modified document is saved half a second later, and is closed after a minute whatever
  became of that.\<close>

definition sendUICloseMessage :: "app \<Rightarrow> app" where
  "sendUICloseMessage a =
     (if a_stopClose a then a\<lparr>a_stopClose := False\<rparr>
      else
        let a = (if a_framed a then a else acall ''window.close'' [] a);
            ever = (''EverModified'', JBool (a_everModified a));
            a = (if a_mobileApp a then acall ''lool.postMessage'' [JStr ''BYE''] a
                 else afire ''postMessage'' [(''msgId'', JStr ''UI_Close''), (''args'', JObj [ever])]
                        (afire ''postMessage'' [(''msgId'', JStr ''close''), (''args'', JObj [ever, (''Deprecated'', JBool True)])] a))
        in acall ''map.remove'' [] a)"

definition closeDocument :: "sconf \<Rightarrow> app \<Rightarrow> app" where
  "closeDocument cf a =
     (if app_edits a then
        let a = a\<lparr>a_stopClose := False\<rparr>;
            (l, modified) = forceCellCommit cf (app_layer a);
            a = on_app (\<lambda>_. l) a
        in if modified \<or> a_everModified a
           then a\<lparr>a_waitSave := True, a_saveTimers := Suc (a_saveTimers a), a_closeTimers := Suc (a_closeTimers a)\<rparr>
           else sendUICloseMessage a
      else sendUICloseMessage a)"

definition closing_saves :: "sconf \<Rightarrow> app \<Rightarrow> app" where
  "closing_saves cf a =
     (case a_saveTimers a of 0 \<Rightarrow> a | Suc n \<Rightarrow> app_save cf True True None (a\<lparr>a_saveTimers := n\<rparr>))"

definition closing_ends :: "app \<Rightarrow> app" where
  "closing_ends a = (case a_closeTimers a of 0 \<Rightarrow> a | Suc n \<Rightarrow> sendUICloseMessage (a\<lparr>a_closeTimers := n\<rparr>))"

text \<open>\<open>getDocumentStatus\<close>: what its timer does a tenth of a second later.\<close>

definition getDocumentStatus :: "sconf \<Rightarrow> app \<Rightarrow> app" where
  "getDocumentStatus cf = asend cf ''status''"

definition insertFile :: "jsval \<Rightarrow> app \<Rightarrow> app" where
  "insertFile file = afire ''insertfile'' [(''file'', file)]"

definition insertURL :: "jsval \<Rightarrow> app \<Rightarrow> app" where
  "insertURL url = afire ''inserturl'' [(''url'', url)]"

definition app_uno :: "sconf \<Rightarrow> (string \<Rightarrow> string \<Rightarrow> string) \<Rightarrow> string \<Rightarrow> ujson option \<Rightarrow> app \<Rightarrow> app" where
  "app_uno cf target command json = on_app (sendUnoCommand cf target command json)"

definition cellEnterString :: "sconf \<Rightarrow> (string \<Rightarrow> string \<Rightarrow> string) \<Rightarrow> string \<Rightarrow> bool \<Rightarrow> app \<Rightarrow> app" where
  "cellEnterString cf target text forceCommit =
     app_uno cf target ''.uno:EnterString '' (Some (UObj
       [(''StringName'', UObj [(''type'', UStr ''string''), (''value'', UStr text)]),
        (''DontCommit'', UObj [(''type'', UStr ''boolean''), (''value'', UBool (\<not> forceCommit))])]))"

definition renderFont :: "sconf \<Rightarrow> string \<Rightarrow> app \<Rightarrow> app" where
  "renderFont cf fontName = asend cf (''renderfont font='' @ encodeURIComponent fontName)"

definition toggleCommandState :: "sconf \<Rightarrow> (string \<Rightarrow> string \<Rightarrow> string) \<Rightarrow> string \<Rightarrow> app \<Rightarrow> app" where
  "toggleCommandState cf target unoState a =
     (if app_edits a
      then app_uno cf target
             (if startsWith unoState ''.uno:'' \<or> startsWith unoState ''macro://'' then unoState else ''.uno:'' @ unoState) None a
      else a)"

section \<open>Commands and shortcuts\<close>

text \<open>\<open>toLowerCase\<close> on letters of the alphabet; other letters stay as they are.\<close>

definition lower_char :: "char \<Rightarrow> char" where
  "lower_char c = (if 65 \<le> char_code c \<and> char_code c \<le> 90 then char_of (char_code c + 32) else c)"

definition lower :: "string \<Rightarrow> string" where
  "lower = map lower_char"

definition isUnoCommand :: "string \<Rightarrow> bool" where
  "isUnoCommand c \<longleftrightarrow> startsWith c ''.uno:''"

definition getUnoCommandIcon :: "string \<Rightarrow> app \<Rightarrow> string" where
  "getUnoCommandIcon unoCommand a = (case obj_get (a_resourceIcon a) unoCommand of
      Some r \<Rightarrow> ''images/res/'' @ r @ ''.svg''
    | None \<Rightarrow>
        (let command = lower (if startsWith unoCommand ''.uno:'' then drop 5 unoCommand else unoCommand);
             icon = (case obj_get (a_iconAlias a) command of Some i \<Rightarrow> i | None \<Rightarrow> command)
         in ''images/cmd/'' @ icon @ ''.svg''))"

text \<open>The text of a shortcut, in the order Ctrl, Alt, Shift, key.\<close>

definition key_text :: "bool \<Rightarrow> bool \<Rightarrow> bool \<Rightarrow> string \<Rightarrow> string" where
  "key_text ctrl alt shift key =
     lower (js_join ''+'' ((if ctrl then [''Ctrl''] else []) @ (if alt then [''Alt''] else [])
       @ (if shift then [''Shift''] else []) @ [key]))"

definition canonical_hotkey :: "string \<Rightarrow> string" where
  "canonical_hotkey hotkey =
     (let keys = js_split (CHR ''+'') (lower hotkey); key = List.last keys
      in key_text (''ctrl'' \<in> set keys) (''alt'' \<in> set keys) (''shift'' \<in> set keys)
           (if startsWith key ''arrow'' then drop 5 key else key))"

definition merge_keys :: "bool \<Rightarrow> bool \<Rightarrow> bool \<Rightarrow> string \<Rightarrow> string" where
  "merge_keys ctrl alt shift key = key_text ctrl alt shift (if startsWith key ''Arrow'' then drop 5 key else key)"

definition no_entry :: command_entry where
  "no_entry = \<lparr>ce_hotkey = None, ce_callback = None, ce_hide = None\<rparr>"

text \<open>\<open>addAllowedCommand({name, hotkey, callback, hide})\<close>\<close>

definition addAllowedCommand ::
  "sconf \<Rightarrow> string option \<Rightarrow> string option \<Rightarrow> string option \<Rightarrow> bool option \<Rightarrow> app \<Rightarrow> app" where
  "addAllowedCommand cf name hotkey callback hide a = (case name of
      None \<Rightarrow> a
    | Some n \<Rightarrow>
        (let name = js_trim n;
             old = obj_get (a_allowed a) name;
             e = (case old of None \<Rightarrow> no_entry | Some e \<Rightarrow> e);
             shortcut = (case hotkey of None \<Rightarrow> None | Some h \<Rightarrow> if h = [] then None else Some h);
             e = (if shortcut = None then e else e\<lparr>ce_hotkey := shortcut\<rparr>);
             a = (case shortcut of None \<Rightarrow> a | Some h \<Rightarrow> a\<lparr>a_hotkeys := obj_put (canonical_hotkey h) name (a_hotkeys a)\<rparr>);
             e = (if callback = None then e else e\<lparr>ce_callback := callback\<rparr>);
             e = (if hide = None then e else e\<lparr>ce_hide := hide\<rparr>);
             a = a\<lparr>a_allowed := obj_put name e (a_allowed a)\<rparr>
         in if old = None \<and> startsWith name ''.uno:'' then asend cf (''getunostates '' @ encodeURI name) a else a))"

definition isAllowedCommand :: "string \<Rightarrow> app \<Rightarrow> bool" where
  "isAllowedCommand c a = (case obj_get (a_allowed a) c of
      Some e \<Rightarrow> ce_hide e \<noteq> Some True
    | None \<Rightarrow> obj_get (a_white a) c = Some True)"

text \<open>\<open>dialog:Name?key=value&...\<close>\<close>

definition dialog_args :: "string \<Rightarrow> (string \<times> jsval) list" where
  "dialog_args query =
     fold (\<lambda>p. case js_split (CHR ''='') p of
            k # v # _ \<Rightarrow> obj_put k (JStr v)
          | [k] \<Rightarrow> obj_put k JUndef
          | [] \<Rightarrow> id)
       (filter (\<lambda>p. p \<noteq> []) (js_split (CHR ''&'') query)) []"

definition run_dialog :: "string \<Rightarrow> app \<Rightarrow> app" where
  "run_dialog command =
     (let text = drop 7 command;
          name = takeWhile (\<lambda>c. c \<noteq> CHR ''?'') text;
          query = drop 1 (dropWhile (\<lambda>c. c \<noteq> CHR ''?'') text)
      in acall ''dialog.run'' [JStr name, JObj [(''args'', JObj (dialog_args query))]])"

definition perform_command :: "sconf \<Rightarrow> (string \<Rightarrow> string \<Rightarrow> string) \<Rightarrow> string \<Rightarrow> app \<Rightarrow> app" where
  "perform_command cf target command a =
     (if startsWith command ''.uno:'' then app_uno cf target command None a
      else if startsWith command ''macro:///'' then acall ''sendMacroCommand'' [JStr command] a
      else if startsWith command ''dialog:'' then run_dialog command a
      else acall ''dialog.run'' [JStr ''Action'', JObj [(''id'', JStr command)]] a)"

text \<open>\<open>executeAllowedCommand\<close>. A command of the second table is found there whether it is marked as usable
  or not: only \<open>hide\<close> is looked at, which the marks do not have.\<close>

definition command_data :: "string \<Rightarrow> app \<Rightarrow> command_entry option" where
  "command_data c a = (case obj_get (a_allowed a) c of
      Some e \<Rightarrow> Some e
    | None \<Rightarrow> map_option (\<lambda>_. no_entry) (obj_get (a_white a) c))"

definition executeAllowedCommand :: "sconf \<Rightarrow> (string \<Rightarrow> string \<Rightarrow> string) \<Rightarrow> string \<Rightarrow> app \<Rightarrow> app \<times> bool" where
  "executeAllowedCommand cf target command a = (case command_data command a of
      None \<Rightarrow> (a, False)
    | Some e \<Rightarrow>
        if ce_hide e = Some True then (a, False)
        else
          let a = perform_command cf target command a
          in (case ce_callback e of None \<Rightarrow> a | Some f \<Rightarrow> acall f [] a, True))"

text \<open>A key event, as far as shortcuts and the keyboard handler look at it.\<close>

record key_event =
  ke_type :: string
  ke_key :: "string option"        \<comment> \<open>\<open>key\<close>, which old browsers do not have\<close>
  ke_keyCode :: int
  ke_charCode :: int
  ke_location :: int
  ke_ctrl :: bool
  ke_alt :: bool
  ke_shift :: bool
  ke_meta :: bool

definition executeHotkey :: "sconf \<Rightarrow> (string \<Rightarrow> string \<Rightarrow> string) \<Rightarrow> key_event \<Rightarrow> app \<Rightarrow> app \<times> bool" where
  "executeHotkey cf target e a =
     (if ke_type e \<noteq> ''keydown'' \<or> (l_docType (app_layer a) = ''spreadsheet'' \<and> a_docContext a = ''EditCell'')
      then (a, False)
      else (case ke_key e of
          None \<Rightarrow> (app_throws a, True)
        | Some key \<Rightarrow>
            (let keys = merge_keys (ke_ctrl e \<or> ke_meta e) (ke_alt e) (ke_shift e) key in
             if keys \<in> {''ctrl+c'', ''ctrl+v'', ''ctrl+x''} then (a, False)
             else (case obj_get (a_hotkeys a) keys of
                 None \<Rightarrow> (a, False)
               | Some c \<Rightarrow>
                   (let (a, ok) = executeAllowedCommand cf target c a
                    in (if ok then acall ''preventDefault'' [] a else a, ok))))))"

section \<open>Menus\<close>

datatype mitem =
  MItem (mi_name: "string option") (mi_uno: "string option") (mi_id: "string option") (mi_type: "string option")
    (mi_hotkey: "string option") (mi_hide: "bool option") (mi_tag: "string option") (mi_icon: "string option")
    (mi_disabled: bool) (mi_menu: "mitem list option")

text \<open>What the page is configured to offer, and the translations: \<open>_\<close> of texts and \<open>_UNO\<close> of commands by
  type of document.\<close>

record mconf =
  mc_history :: bool               \<comment> \<open>\<open>revHistoryEnabled\<close>\<close>
  mc_close :: bool                 \<comment> \<open>\<open>closebutton\<close>\<close>
  mc_word :: "string \<Rightarrow> string"
  mc_uno :: "string \<Rightarrow> string \<Rightarrow> string"

text \<open>Items that are left out.\<close>

definition left_out :: "mconf \<Rightarrow> wopi \<Rightarrow> mitem \<Rightarrow> bool" where
  "left_out mc w m \<longleftrightarrow> (case mi_id m of
      None \<Rightarrow> False
    | Some k \<Rightarrow>
        (k = ''rev-history'' \<and> \<not> mc_history mc) \<or> (k = ''closedocument'' \<and> \<not> mc_close mc) \<or>
        (k = ''print'' \<and> w_hidePrint w) \<or> (k = ''save'' \<and> w_hideSave w) \<or> (k = ''saveas'' \<and> w_cannotWrite w) \<or>
        (k = ''shareas'' \<and> \<not> w_share w) \<or> (k = ''insertgraphicremote'' \<and> \<not> w_insertRemote w) \<or>
        (startsWith k ''fullscreen-presentation'' \<and> w_hideExport w) \<or> (k = ''changesmenu'' \<and> w_hideChanges w))"

definition registerExportFormat :: "string option \<Rightarrow> string \<Rightarrow> app \<Rightarrow> app" where
  "registerExportFormat label format a =
     (if (label, format) \<in> set (a_exports a) then a else a\<lparr>a_exports := a_exports a @ [(label, format)]\<rparr>)"

definition downloads_prefix :: string where
  "downloads_prefix = ''dialog:DownloadAs?ext=''"

definition is_export :: "mitem \<Rightarrow> bool" where
  "is_export m \<longleftrightarrow> (case mi_id m of None \<Rightarrow> False | Some k \<Rightarrow> startsWith k downloads_prefix)"

definition note_export :: "mitem \<Rightarrow> app \<Rightarrow> app" where
  "note_export m a =
     (if is_export m then registerExportFormat (mi_name m) (drop (length downloads_prefix) (or_empty (mi_id m))) a else a)"

definition is_uno :: "string option \<Rightarrow> bool" where
  "is_uno c \<longleftrightarrow> (case c of None \<Rightarrow> False | Some t \<Rightarrow> isUnoCommand t)"

definition item_text :: "mconf \<Rightarrow> string \<Rightarrow> mitem \<Rightarrow> string" where
  "item_text mc docType m = (case mi_name m of
      Some n \<Rightarrow> if isUnoCommand n then mc_uno mc n docType else mc_word mc n
    | None \<Rightarrow>
        (case mi_uno m of
           Some u \<Rightarrow> mc_uno mc u docType
         | None \<Rightarrow> if is_uno (mi_id m) then mc_uno mc (or_empty (mi_id m)) docType else []))"

text \<open>The command whose picture is shown: an \<open>icon\<close> that is a command, or else the name, the command or the
  identifier, of items below the bar itself. An empty text stands for none.\<close>

definition own_icon :: "nat \<Rightarrow> mitem \<Rightarrow> string" where
  "own_icon level m = (case mi_name m of
      Some n \<Rightarrow> if isUnoCommand n \<and> level > 1 then n else []
    | None \<Rightarrow>
        (case mi_uno m of
           Some u \<Rightarrow> u
         | None \<Rightarrow> if is_uno (mi_id m) then or_empty (mi_id m) else []))"

definition item_icon :: "nat \<Rightarrow> mitem \<Rightarrow> app \<Rightarrow> icon" where
  "item_icon level m a =
     (let command = (if is_uno (mi_icon m) then or_empty (mi_icon m) else own_icon level m)
      in if command \<noteq> [] then (if level > 1 then ImageIcon (getUnoCommandIcon command a) else NoIcon)
         else (case mi_icon m of None \<Rightarrow> NoIcon | Some i \<Rightarrow> ClassIcon i))"

text \<open>An item without a type is a menu when it has one, and an action when it has no command.\<close>

definition item_type :: "mitem \<Rightarrow> string" where
  "item_type m = (case mi_type m of
      Some t \<Rightarrow> t
    | None \<Rightarrow> if mi_menu m \<noteq> None then ''menu'' else if mi_uno m = None then ''action'' else [])"

definition no_data :: mdata where
  "no_data = \<lparr>d_type = None, d_id = None, d_uno = None, d_tag = None, d_state = None, d_post = False\<rparr>"

text \<open>The link's data, and what building it announces: its own command, and the command its name stands for,
  whose state the server is to report.\<close>

definition item_data :: "mitem \<Rightarrow> mdata" where
  "item_data m =
     (if item_type m = ''action'' then
        no_data\<lparr>d_state := if is_uno (mi_name m) then mi_name m else None,
                d_type := Some (if is_uno (mi_id m) then ''unocommand'' else ''action''), d_id := mi_id m\<rparr>
      else if item_type m \<in> {''menu'', ''--'', ''separator''} \<or> mi_uno m = None then no_data
      else no_data\<lparr>d_type := Some ''unocommand'', d_uno := mi_uno m, d_tag := mi_tag m\<rparr>)"

definition announce_item :: "sconf \<Rightarrow> mitem \<Rightarrow> app \<Rightarrow> app" where
  "announce_item cf m a =
     (if item_type m = ''action'' then
        let a = (if is_uno (mi_name m) then addAllowedCommand cf (mi_name m) None None None a else a)
        in addAllowedCommand cf (mi_id m) (mi_hotkey m) None (mi_hide m) a
      else if item_type m \<in> {''menu'', ''--'', ''separator''} \<or> mi_uno m = None then a
      else addAllowedCommand cf (mi_uno m) (mi_hotkey m) None (mi_hide m) a)"

definition item_id :: "mitem \<Rightarrow> string option" where
  "item_id m = (case mi_id m of None \<Rightarrow> None | Some k \<Rightarrow> if k = [] then None else Some (''menu-'' @ k))"

definition build_item :: "mconf \<Rightarrow> nat \<Rightarrow> mitem \<Rightarrow> litem list \<Rightarrow> app \<Rightarrow> litem" where
  "build_item mc level m subs a =
     LItem (item_id m) (mi_id m = Some ''closedocument'' \<and> perm (app_net a) = ''readonly'')
       (item_text mc (l_docType (app_layer a)) m) (mi_disabled m) (item_icon level m a) (mi_hotkey m) (item_data m)
       (item_type m \<in> {''--'', ''separator''}) (mi_hide m = Some True) subs"

text \<open>A line between items is left out when it would come first or after another line. \<open>last\<close> says whether the
  item last kept, hidden ones apart, was a line.\<close>

definition drops_line :: "mitem \<Rightarrow> litem list \<Rightarrow> bool \<Rightarrow> bool" where
  "drops_line m items last_line \<longleftrightarrow> mi_type m = Some ''--'' \<and> (items = [] \<or> last_line)"

definition trim_line :: "litem list \<Rightarrow> litem list" where
  "trim_line items = (if items \<noteq> [] \<and> li_sep (List.last items) then butlast items else items)"

text \<open>\<open>_createMenu\<close>: the items built so far, whether the last one was a line, and the state. A submenu of which
  nothing is left is left out itself.\<close>

function create_items ::
  "sconf \<Rightarrow> mconf \<Rightarrow> nat \<Rightarrow> mitem list \<Rightarrow> litem list \<times> bool \<times> app \<Rightarrow> litem list \<times> bool \<times> app" where
  "create_items cf mc level [] st = st"
| "create_items cf mc level (m # ms) (items, last_line, a) =
     create_items cf mc level ms
       (if left_out mc (a_wopi a) m then (items, last_line, a)
        else if is_export m \<and> w_hideExport (a_wopi a) then (items, last_line, note_export m a)
        else if drops_line m items last_line then (items, last_line, note_export m a)
        else
          let a = note_export m a;
              last_line = (if mi_hide m = Some True then last_line else mi_type m = Some ''--'')
          in if item_type m = ''menu'' then
               let (subs, _, a) = create_items cf mc (Suc level) (case mi_menu m of None \<Rightarrow> [] | Some s \<Rightarrow> s) ([], False, a);
                   subs = trim_line subs
               in if subs = [] then (items, last_line, a)
                  else (items @ [build_item mc level m subs a], last_line, a)
             else
               let a = announce_item cf m a
               in (items @ [build_item mc level m [] a], last_line, a))"
  by pat_completeness auto

fun menu_size :: "mitem \<Rightarrow> nat" where
  "menu_size (MItem n u k t h hi tg i d s) = (case s of None \<Rightarrow> 1 | Some ms \<Rightarrow> Suc (sum_list (map menu_size ms) + length ms))"

definition menus_size :: "mitem list \<Rightarrow> nat" where
  "menus_size ms = sum_list (map menu_size ms) + length ms"

lemma submenu_smaller: "menus_size (case mi_menu m of None \<Rightarrow> [] | Some s \<Rightarrow> s) < menus_size (m # ms)"
  by (cases m) (auto simp: menus_size_def split: option.splits)

termination create_items
  by (relation "measure (\<lambda>(cf, mc, level, ms, st). menus_size ms)")
     (use submenu_smaller in \<open>auto simp: menus_size_def\<close>)

definition createMenu :: "sconf \<Rightarrow> mconf \<Rightarrow> nat \<Rightarrow> mitem list \<Rightarrow> app \<Rightarrow> litem list \<times> app" where
  "createMenu cf mc level ms a =
     (let (items, _, a) = create_items cf mc (Suc level) ms ([], False, a) in (trim_line items, a))"

section \<open>The menu bar\<close>

text \<open>The menus are built at the first change of the permission; \<open>menus\<close> are those of the document's type.
  They show in edit mode and not on mobile devices.\<close>

definition menubar_refresh :: "sconf \<Rightarrow> mconf \<Rightarrow> (string, mitem list) obj \<Rightarrow> string \<Rightarrow> app \<Rightarrow> app" where
  "menubar_refresh cf mc menus new_perm a =
     (let a = (if a_menuReady a then a
               else
                 let docType = l_docType (app_layer a);
                     docType = (if docType = ''drawing'' then ''presentation'' else docType);
                     (items, a) = createMenu cf mc 0 (case obj_get menus docType of None \<Rightarrow> [] | Some ms \<Rightarrow> ms) a;
                     header = LItem (Some ''document-header'') False [] False NoIcon None
                                (no_data\<lparr>d_type := Some ''action'', d_id := Some ''document-logo''\<rparr>) False False []
                 in a\<lparr>a_menubar := header # items, a_menuReady := True\<rparr>)
      in acall (if new_perm \<noteq> ''edit'' \<or> isMobile cf then ''main-nav.hide'' else ''main-nav.show'') [] a)"

text \<open>A menu entry the host asks for goes in front of the bar.\<close>

fun all_items :: "litem list \<Rightarrow> litem list" where
  "all_items [] = []"
| "all_items (LItem k ro t dis ic hk d sep hi subs # ms) =
     LItem k ro t dis ic hk d sep hi subs # all_items subs @ all_items ms"

definition addMenu :: "string \<Rightarrow> string \<Rightarrow> app \<Rightarrow> app" where
  "addMenu k label a =
     (if Some (''menu-'' @ k) \<in> set (map li_id (all_items (a_menubar a))) then a
      else a\<lparr>a_menubar := LItem (Some (''menu-'' @ k)) (perm (app_net a) = ''readonly'') label False NoIcon None
               (no_data\<lparr>d_id := Some k, d_type := Some ''action'', d_post := True\<rparr>) False False [] # a_menubar a\<rparr>)"

text \<open>\<open>_getItem\<close> looks at the bar and at the menus that hang from it, no deeper.\<close>

definition top_items :: "app \<Rightarrow> litem list" where
  "top_items a = concat (map li_items (a_menubar a)) @ a_menubar a"

definition hasItem :: "string \<Rightarrow> app \<Rightarrow> bool" where
  "hasItem k a \<longleftrightarrow> (\<exists>i \<in> set (top_items a). li_id i = Some (''menu-'' @ k))"

fun set_hidden :: "string \<Rightarrow> bool \<Rightarrow> litem \<Rightarrow> litem" where
  "set_hidden k b (LItem i ro t dis ic hk d sep hi subs) =
     LItem i ro t dis ic hk d sep (if i = Some (''menu-'' @ k) then b else hi) subs"

fun set_items :: "(litem list \<Rightarrow> litem list) \<Rightarrow> litem \<Rightarrow> litem" where
  "set_items f (LItem i ro t dis ic hk d sep hi subs) = LItem i ro t dis ic hk d sep hi (f subs)"

definition mark_hidden :: "string \<Rightarrow> bool \<Rightarrow> app \<Rightarrow> app" where
  "mark_hidden k b a = a\<lparr>a_menubar := map (set_items (map (set_hidden k b)) \<circ> set_hidden k b) (a_menubar a)\<rparr>"

definition hideItem :: "string \<Rightarrow> app \<Rightarrow> app" where
  "hideItem k = mark_hidden k True"

definition showItem :: "string \<Rightarrow> app \<Rightarrow> app" where
  "showItem k = mark_hidden k False"

text \<open>Entries made from the server's lists: \<open>_createUnoMenuItem\<close>, with a command and its tag, or an identifier
  and its callback.\<close>

definition createUnoMenuItem :: "sconf \<Rightarrow> string \<Rightarrow> string \<Rightarrow> string option \<Rightarrow> app \<Rightarrow> litem \<times> app" where
  "createUnoMenuItem cf caption command tag a =
     (if isUnoCommand command
      then (LItem None False caption False NoIcon None
              (no_data\<lparr>d_type := Some ''unocommand'', d_uno := Some command, d_tag := tag\<rparr>) False False [],
            addAllowedCommand cf (Some command) None None None a)
      else (LItem (Some command) False caption False NoIcon None
              (no_data\<lparr>d_type := Some ''action'', d_id := Some command\<rparr>) False False [],
            addAllowedCommand cf (Some command) None tag None a))"

text \<open>Items are appended to the menu that holds the item of an identifier.\<close>

fun append_beside :: "string \<Rightarrow> litem list \<Rightarrow> litem \<Rightarrow> litem" where
  "append_beside k new (LItem i ro t dis ic hk d sep hi subs) =
     LItem i ro t dis ic hk d sep hi
       (let subs' = map (append_beside k new) subs in if Some k \<in> set (map li_id subs) then subs' @ new else subs')"

definition menu_append :: "string \<Rightarrow> litem list \<Rightarrow> app \<Rightarrow> app" where
  "menu_append k new a =
     (let bar = map (append_beside k new) (a_menubar a)
      in a\<lparr>a_menubar := if Some k \<in> set (map li_id (a_menubar a)) then bar @ new else bar\<rparr>)"

fun str_less :: "string \<Rightarrow> string \<Rightarrow> bool" where
  "str_less s [] = False"
| "str_less [] (c # cs) = True"
| "str_less (x # xs) (c # cs) = (if x = c then str_less xs cs else char_code x < char_code c)"

fun insert_text :: "string \<times> string \<Rightarrow> (string \<times> string) list \<Rightarrow> (string \<times> string) list" where
  "insert_text e [] = [e]"
| "insert_text e (f # fs) = (if str_less (fst f) (fst e) \<or> fst f = fst e then f # insert_text e fs else e # f # fs)"

text \<open>The languages, sorted by their translated names.\<close>

definition sort_texts :: "(string \<times> string) list \<Rightarrow> (string \<times> string) list" where
  "sort_texts es = fold insert_text es []"

definition language_command :: string where
  "language_command = ''.uno:LanguageStatus?Language:string=''"

definition language_items :: "sconf \<Rightarrow> string \<Rightarrow> string \<Rightarrow> (string \<times> string) list \<Rightarrow> app \<Rightarrow> app" where
  "language_items cf k scope languages a =
     (let add = (\<lambda>caption command a. let (i, a) = createUnoMenuItem cf caption command None a in menu_append k [i] a)
      in fold (\<lambda>(translated, neutral). add translated (language_command @ encodeURIComponent (scope @ ''_'' @ neutral))) languages a)"

text \<open>Language by language, each is put in the three menus; then come the commands that reset it. The line
  between them, a menu of one line, is built and comes out empty.\<close>

definition onInitMenu :: "sconf \<Rightarrow> mconf \<Rightarrow> string \<Rightarrow> string list option \<Rightarrow> app \<Rightarrow> app" where
  "onInitMenu cf mc commandName languages a = (case languages of
      None \<Rightarrow> a
    | Some ls \<Rightarrow>
        if commandName \<noteq> ''.uno:LanguageStatus'' then a
        else
          let es = sort_texts (map (\<lambda>l. (mc_word mc l, l)) ls);
              scopes = [(''menu-noneselection'', ''Current''), (''menu-noneparagraph'', ''Paragraph''), (''menu-nonelanguage'', ''Default'')];
              a = fold (\<lambda>e a. fold (\<lambda>(k, scope). language_items cf k scope [e]) scopes a) es a;
              reset = mc_word mc ''Reset to Default Language''
          in fold (\<lambda>(k, scope) a. let (i, a) = createUnoMenuItem cf reset (language_command @ scope @ ''_RESET_LANGUAGES'') None a
                                  in menu_append k [i] a) scopes a)"

definition onStyleMenu :: "sconf \<Rightarrow> mconf \<Rightarrow> string \<Rightarrow> string list \<Rightarrow> app \<Rightarrow> app" where
  "onStyleMenu cf mc commandName pageStyles a =
     (if commandName \<noteq> ''.uno:StyleApply'' then a
      else fold (\<lambda>style a.
        let (h, a) = createUnoMenuItem cf (mc_word mc style) ''.uno:InsertPageHeader'' (Some style) a;
            a = menu_append ''menu-insertheader'' [h] a;
            (f, a) = createUnoMenuItem cf (mc_word mc style) ''.uno:InsertPageFooter'' (Some style) a
        in menu_append ''menu-insertfooter'' [f] a) pageStyles a)"

text \<open>How an item shows when its menu opens (\<open>_beforeShow\<close>): greyed out, and with a mark; \<open>None\<close> leaves it as it
  was. In edit mode the state core reported last decides; otherwise commands are greyed out, and the actions
  that do not change the document are not. In edit mode an action without an identifier is never greyed.\<close>

definition allowedViewModeActions :: "string list" where
  "allowedViewModeActions =
     [''downloadas-pdf'', ''downloadas-odt'', ''downloadas-doc'', ''downloadas-docx'', ''downloadas-rtf'',
      ''downloadas-odp'', ''downloadas-ppt'', ''downloadas-pptx'', ''print'',
      ''downloadas-ods'', ''downloadas-xls'', ''downloadas-xlsx'', ''closedocument'',
      ''downloadas-csv'', ''downloadas-html'', ''downloadas-txt'',
      ''fullscreen'', ''zoomin'', ''zoomout'', ''zoomreset'', ''about'', ''keyboard-shortcuts'']"

fun contains_text :: "string \<Rightarrow> string \<Rightarrow> bool" where
  "contains_text w [] = (w = [])"
| "contains_text w (c # cs) = (startsWith (c # cs) w \<or> contains_text w cs)"

fun decodeURIComponent :: "string \<Rightarrow> string option" where
  "decodeURIComponent [] = Some []"
| "decodeURIComponent (c # cs) =
     (if c \<noteq> CHR ''%'' then map_option (Cons c) (decodeURIComponent cs)
      else (case cs of
          x # y # rest \<Rightarrow>
            (case (hex_val x, hex_val y) of
               (Some m, Some n) \<Rightarrow> map_option (Cons (char_of (16 * m + n))) (decodeURIComponent rest)
             | _ \<Rightarrow> None)
        | _ \<Rightarrow> None))"

text \<open>\<open>_checkedMenu\<close>: the state is an object with a field for each page style; \<open>None\<close>: there is no state to look
  the field up in, and the code throws.\<close>

definition checkedMenu :: "string \<Rightarrow> string option \<Rightarrow> app \<Rightarrow> bool option" where
  "checkedMenu uno tag a =
     map_option (\<lambda>t. case json_parse t of None \<Rightarrow> False | Some v \<Rightarrow> js_truthy (js_field (str_text tag) v))
       (getItemValue uno (app_layer a))"

definition language_checked :: "string \<Rightarrow> mdata \<Rightarrow> app \<Rightarrow> bool option" where
  "language_checked uno d a =
     (let lang = str_text (getItemValue uno (app_layer a))
      in map_option (\<lambda>data. contains_text lang data \<or> (contains_text ''LANGUAGE_NONE'' data \<and> lang = ''[None]''))
           (decodeURIComponent (str_text (d_uno d))))"

definition item_command :: "mdata \<Rightarrow> string option" where
  "item_command d = (case d_state d of Some s \<Rightarrow> Some s | None \<Rightarrow> (case d_uno d of Some u \<Rightarrow> Some u | None \<Rightarrow> d_id d))"

definition item_greyed :: "mdata \<Rightarrow> app \<Rightarrow> bool option" where
  "item_greyed d a =
     (if app_edits a then
        (case item_command d of
           Some c \<Rightarrow> Some (getItemValue c (app_layer a) = Some ''disabled'')
         | None \<Rightarrow> if d_type d = Some ''action'' then Some False else None)
      else if d_type d = Some ''unocommand'' then Some True
      else if d_type d = Some ''action'' then
        Some (case d_id d of None \<Rightarrow> True | Some k \<Rightarrow> k \<notin> set allowedViewModeActions)
      else None)"

definition item_checked :: "mdata \<Rightarrow> app \<Rightarrow> bool option option" where
  "item_checked d a =
     (case item_command d of
        None \<Rightarrow> Some None
      | Some c \<Rightarrow>
          if \<not> app_edits a then Some None
          else if startsWith c ''.uno:LanguageStatus'' then map_option Some (language_checked ''.uno:LanguageStatus'' d a)
          else if startsWith c ''.uno:InsertPageHeader'' then map_option Some (checkedMenu ''.uno:InsertPageHeader'' (d_tag d) a)
          else if startsWith c ''.uno:InsertPageFooter'' then map_option Some (checkedMenu ''.uno:InsertPageFooter'' (d_tag d) a)
          else Some (Some (getItemValue c (app_layer a) = Some ''true'')))"

text \<open>Choosing an item. Taking a header or footer away asks first; \<open>checked\<close> says whether the item has a mark.\<close>

definition page_part :: "string option \<Rightarrow> bool" where
  "page_part c \<longleftrightarrow> c = Some ''.uno:InsertPageHeader'' \<or> c = Some ''.uno:InsertPageFooter''"

definition page_part_command :: "mdata \<Rightarrow> string \<Rightarrow> bool \<Rightarrow> string" where
  "page_part_command d c checked =
     c @ ''?PageStyle:string='' @ str_text (d_tag d) @ ''&On:bool='' @ (if checked then ''false'' else ''true'')"

definition menu_sendCommand ::
  "sconf \<Rightarrow> (string \<Rightarrow> string \<Rightarrow> string) \<Rightarrow> mdata \<Rightarrow> bool \<Rightarrow> app \<Rightarrow> app" where
  "menu_sendCommand cf target d checked a =
     (let c = (if or_empty (d_uno d) \<noteq> [] then d_uno d else d_id d) in
      if page_part c then
        (if checked then acall ''dialog.confirm'' [JStr (page_part_command d (or_empty c) checked)] a
         else app_uno cf target (page_part_command d (or_empty c) checked) None a)
      else if c = Some ''.uno:Text'' then
        (case obj_get (l_props (app_layer a)) ''.uno:Text'' of
           None \<Rightarrow> app_throws a
         | Some p \<Rightarrow> if u_checked p = Some True then a else fst (executeAllowedCommand cf target ''.uno:Text'' a))
      else (case c of None \<Rightarrow> a | Some t \<Rightarrow> fst (executeAllowedCommand cf target t a)))"

definition menu_executeAction :: "sconf \<Rightarrow> (string \<Rightarrow> string \<Rightarrow> string) \<Rightarrow> mdata \<Rightarrow> app \<Rightarrow> app" where
  "menu_executeAction cf target d a =
     (let a = (case d_id d of None \<Rightarrow> a | Some k \<Rightarrow> fst (executeAllowedCommand cf target k a))
      in if d_post d
         then afire ''postMessage'' [(''msgId'', JStr ''Clicked_Button''), (''args'', JObj [(''Id'',
                case d_id d of None \<Rightarrow> JUndef | Some k \<Rightarrow> JStr k)])] a
         else a)"

definition onItemSelected :: "sconf \<Rightarrow> (string \<Rightarrow> string \<Rightarrow> string) \<Rightarrow> mdata \<Rightarrow> bool \<Rightarrow> app \<Rightarrow> app" where
  "onItemSelected cf target d checked a =
     (let a = (if d_type d = Some ''unocommand'' then menu_sendCommand cf target d checked a
               else if d_type d = Some ''action'' then menu_executeAction cf target d a else a)
      in if \<not> isMobile cf \<and> d_id d \<noteq> Some ''insertcomment'' then acall ''focus'' [] a else a)"

text \<open>The answer to the question above.\<close>

definition confirm_page_part ::
  "sconf \<Rightarrow> (string \<Rightarrow> string \<Rightarrow> string) \<Rightarrow> string \<Rightarrow> bool \<Rightarrow> app \<Rightarrow> app" where
  "confirm_page_part cf target command yes a = (if yes then app_uno cf target command None a else a)"

definition menu_help :: "mdata \<Rightarrow> app \<Rightarrow> app" where
  "menu_help d a =
     (if d_type d = Some ''unocommand'' then acall ''setHelpTarget'' [JStr (str_text (d_uno d))] a
      else if d_type d = Some ''action'' then acall ''setHelpTarget'' [JStr (''modules/online/menu/'' @ str_text (d_id d))] a
      else a)"

section \<open>Facts about menus\<close>

lemma app_frame [simp]:
  "a_wopi (asend cf m a) = a_wopi a" "a_wopi (acall f args a) = a_wopi a" "a_wopi (afire t fs a) = a_wopi a"
  by (simp_all add: asend_def acall_def afire_def on_app_def)

lemma addAllowedCommand_wopi [simp]: "a_wopi (addAllowedCommand cf n h c b a) = a_wopi a"
  by (simp add: addAllowedCommand_def Let_def split: option.split)

lemma announce_wopi [simp]: "a_wopi (announce_item cf m a) = a_wopi a"
  by (simp add: announce_item_def Let_def)

lemma note_export_wopi [simp]: "a_wopi (note_export m a) = a_wopi a"
  by (simp add: note_export_def registerExportFormat_def)


text \<open>One item of a menu, with the menus below it built by \<open>create_items\<close>.\<close>

abbreviation submenu :: "mitem \<Rightarrow> mitem list" where
  "submenu m \<equiv> case mi_menu m of None \<Rightarrow> [] | Some s \<Rightarrow> s"

definition item_step :: "sconf \<Rightarrow> mconf \<Rightarrow> nat \<Rightarrow> mitem \<Rightarrow> litem list \<times> bool \<times> app \<Rightarrow> litem list \<times> bool \<times> app" where
  "item_step cf mc level m st = (case st of (items, last_line, a) \<Rightarrow>
     (if left_out mc (a_wopi a) m then (items, last_line, a)
      else if is_export m \<and> w_hideExport (a_wopi a) then (items, last_line, note_export m a)
      else if drops_line m items last_line then (items, last_line, note_export m a)
      else
        let a = note_export m a;
            last_line = (if mi_hide m = Some True then last_line else mi_type m = Some ''--'')
        in if item_type m = ''menu'' then
             let r = create_items cf mc (Suc level) (submenu m) ([], False, a); subs = trim_line (fst r); a = snd (snd r)
             in if subs = [] then (items, last_line, a) else (items @ [build_item mc level m subs a], last_line, a)
           else (items @ [build_item mc level m [] (announce_item cf m a)], last_line, announce_item cf m a)))"

lemma create_items_Cons: "create_items cf mc level (m # ms) st = create_items cf mc level ms (item_step cf mc level m st)"
  by (cases st) (auto simp: item_step_def Let_def split: prod.split)

lemmas menu_induct = measure_induct_rule [of menus_size, case_names less]

lemma menus_smaller: "menus_size (submenu m) < menus_size (m # ms)" "menus_size ms < menus_size (m # ms)"
  using submenu_smaller [of m ms] by (simp_all add: menus_size_def)

lemma create_items_keeps:
  assumes steps: "\<And>m a. P a \<Longrightarrow> P (note_export m a)" "\<And>m a. P a \<Longrightarrow> P (announce_item cf m a)"
  shows "P (snd (snd st)) \<Longrightarrow> P (snd (snd (create_items cf mc level ms st)))"
proof (induction ms arbitrary: level st rule: menu_induct)
  case (less ms)
  show ?case
  proof (cases ms)
    case (Cons m rest)
    obtain items prev a where st: "st = (items, prev, a)" by (cases st)
    have "P b \<Longrightarrow> P (snd (snd (create_items cf mc (Suc level) (submenu m) ([], False, b))))" for b
      using less.IH [of "submenu m"] menus_smaller Cons by simp
    then have "P (snd (snd (item_step cf mc level m st)))"
      using less.prems steps by (simp add: item_step_def st Let_def)
    then show ?thesis using less.IH [of rest] menus_smaller Cons by (simp add: create_items_Cons)
  qed (use less in simp)
qed

lemma create_items_wopi: "a_wopi (snd (snd (create_items cf mc level ms st))) = a_wopi (snd (snd st))"
  by (rule create_items_keeps [where P = "\<lambda>a. a_wopi a = a_wopi (snd (snd st))"]) simp_all

text \<open>Menus without hidden items, whose submenus keep an item.\<close>

fun stays :: "mconf \<Rightarrow> wopi \<Rightarrow> mitem \<Rightarrow> bool" where
  "stays mc w (MItem n u k t h hi tg i d s) \<longleftrightarrow>
     (let m = MItem n u k t h hi tg i d s in
      \<not> left_out mc w m \<and> \<not> (is_export m \<and> w_hideExport w) \<and> t \<noteq> Some ''--'' \<and>
      (item_type m = ''menu'' \<longrightarrow> (case s of None \<Rightarrow> False | Some ms \<Rightarrow> list_ex (stays mc w) ms)))"

fun tidy :: "mconf \<Rightarrow> wopi \<Rightarrow> mitem \<Rightarrow> bool" where
  "tidy mc w (MItem n u k t h hi tg i d s) \<longleftrightarrow>
     (let m = MItem n u k t h hi tg i d s in
      hi \<noteq> Some True \<and> t \<noteq> Some ''separator'' \<and>
      (item_type m = ''menu'' \<longrightarrow> (case s of None \<Rightarrow> False | Some ms \<Rightarrow> list_ex (stays mc w) ms \<and> list_all (tidy mc w) ms)))"

definition neat_row :: "litem list \<Rightarrow> bool" where
  "neat_row items \<longleftrightarrow> (items = [] \<or> (\<not> li_sep (hd items) \<and> \<not> li_sep (List.last items))) \<and>
     successively (\<lambda>i j. \<not> (li_sep i \<and> li_sep j)) items"

fun neat_item :: "litem \<Rightarrow> bool" where
  "neat_item (LItem k ro t dis ic hk d sep hi subs) \<longleftrightarrow> neat_row subs \<and> list_all neat_item subs"

definition growing :: "litem list \<Rightarrow> bool \<Rightarrow> bool" where
  "growing items last_line \<longleftrightarrow> (if items = [] then \<not> last_line else \<not> li_sep (hd items) \<and> last_line = li_sep (List.last items)) \<and>
     successively (\<lambda>i j. \<not> (li_sep i \<and> li_sep j)) items \<and> list_all neat_item items"

lemma item_type_line: "item_type m = ''--'' \<longleftrightarrow> mi_type m = Some ''--''" "item_type m = ''separator'' \<longleftrightarrow> mi_type m = Some ''separator''"
  by (simp_all add: item_type_def split: option.split)

lemma growing_snoc:
  "growing items prev \<Longrightarrow> \<not> (li_sep i \<and> (items = [] \<or> prev)) \<Longrightarrow> neat_item i \<Longrightarrow> b = li_sep i \<Longrightarrow> growing (items @ [i]) b"
  by (auto simp: growing_def successively_append_iff hd_append split: if_splits)

lemma trim_line_neat: "growing items prev \<Longrightarrow> neat_row (trim_line items) \<and> list_all neat_item (trim_line items)"
proof (cases items rule: rev_cases)
  case (snoc xs x)
  assume "growing items prev"
  then show ?thesis
    by (cases "li_sep x") (auto simp: snoc growing_def trim_line_def neat_row_def successively_append_iff hd_append split: if_splits)
qed (simp add: trim_line_def neat_row_def)

lemma build_item_sel [simp]:
  "li_sep (build_item mc level m subs a) = (item_type m \<in> {''--'', ''separator''})"
  "neat_item (build_item mc level m subs a) = (neat_row subs \<and> list_all neat_item subs)"
  by (simp_all add: build_item_def)

definition solid :: "litem list \<Rightarrow> bool" where
  "solid items \<longleftrightarrow> (\<exists>i \<in> set items. \<not> li_sep i)"

lemma solid_snoc: "solid (items @ [i]) \<longleftrightarrow> solid items \<or> \<not> li_sep i"
  by (auto simp: solid_def)

lemma solid_trim: "solid items \<Longrightarrow> trim_line items \<noteq> []"
  by (cases items rule: rev_cases) (auto simp: solid_def trim_line_def)


definition neatly :: "mconf \<Rightarrow> mitem list \<Rightarrow> litem list \<times> bool \<times> app \<Rightarrow> litem list \<times> bool \<times> app \<Rightarrow> bool" where
  "neatly mc ms st r \<longleftrightarrow>
     growing (fst st) (fst (snd st)) \<longrightarrow> list_all (tidy mc (a_wopi (snd (snd st)))) ms \<longrightarrow>
     growing (fst r) (fst (snd r)) \<and> (solid (fst st) \<or> list_ex (stays mc (a_wopi (snd (snd st)))) ms \<longrightarrow> solid (fst r))"

lemma tidy_facts:
  assumes "tidy mc w m"
  shows "mi_hide m \<noteq> Some True" "item_type m \<noteq> ''separator''"
    "item_type m = ''menu'' \<Longrightarrow> list_ex (stays mc w) (submenu m) \<and> list_all (tidy mc w) (submenu m)"
  using assms by (cases m; auto simp: Let_def item_type_line split: option.splits)+

lemma stays_facts:
  assumes "stays mc w m"
  shows "\<not> left_out mc w m" "\<not> (is_export m \<and> w_hideExport w)" "mi_type m \<noteq> Some ''--''"
    "item_type m = ''menu'' \<Longrightarrow> list_ex (stays mc w) (submenu m)"
  using assms by (cases m; auto simp: Let_def split: option.splits)+

lemma item_step_neat:
  assumes sub: "\<And>a. neatly mc (submenu m) ([], False, a) (create_items cf mc (Suc level) (submenu m) ([], False, a))"
  shows "neatly mc [m] st (item_step cf mc level m st)"
proof -
  obtain items prev a where st: "st = (items, prev, a)" by (cases st)
  let ?w = "a_wopi a" and ?r = "create_items cf mc (Suc level) (submenu m) ([], False, note_export m a)"
  have g0: "growing [] False" by (simp add: growing_def)
  have subs: "growing (fst ?r) (fst (snd ?r)) \<and> solid (fst ?r)" if "tidy mc ?w m" "item_type m = ''menu''"
    using sub [of "note_export m a"] tidy_facts(3) [OF that] g0 by (simp add: neatly_def)
  have neat: "neat_row (trim_line (fst ?r)) \<and> list_all neat_item (trim_line (fst ?r)) \<and> trim_line (fst ?r) \<noteq> []"
    if "tidy mc ?w m" "item_type m = ''menu''"
    using subs [OF that] trim_line_neat solid_trim by blast
  have row0: "neat_row []" by (simp add: neat_row_def)
  show ?thesis
    unfolding neatly_def st
  proof (intro impI, goal_cases)
    case 1
    then have g: "growing items prev" and t: "tidy mc ?w m" by simp_all
    note f = tidy_facts [OF t]
    show ?case
    proof (cases "left_out mc ?w m \<or> (is_export m \<and> w_hideExport ?w) \<or> drops_line m items prev")
      case True
      then show ?thesis using g stays_facts [of mc ?w m] by (auto simp: item_step_def drops_line_def)
    next
      case False
      then have nd: "\<not> (item_type m = ''--'' \<and> (items = [] \<or> prev))"
        by (auto simp: drops_line_def item_type_line)
      show ?thesis
      proof (cases "item_type m = ''menu''")
        case True
        then have "mi_type m \<noteq> Some ''--''" using item_type_line [of m] by auto
        then show ?thesis using False True neat [OF t True] f nd g
          by (auto simp: item_step_def Let_def solid_snoc intro!: growing_snoc)
      next
        case nm: False
        then show ?thesis using False f nd g row0
          by (auto simp: item_step_def Let_def solid_snoc item_type_line dest: stays_facts intro!: growing_snoc)
      qed
    qed
  qed
qed

lemma create_items_neat: "neatly mc ms st (create_items cf mc level ms st)"
proof (induction ms arbitrary: level st rule: menu_induct)
  case (less ms)
  show ?case
  proof (cases ms)
    case Nil
    then show ?thesis by (simp add: neatly_def)
  next
    case (Cons m rest)
    let ?s = "item_step cf mc level m st"
    have w: "a_wopi (snd (snd ?s)) = a_wopi (snd (snd st))"
      using create_items_wopi [of cf mc level "[m]" st] by (simp add: create_items_Cons)
    have "neatly mc [m] st ?s"
      by (rule item_step_neat) (use less menus_smaller Cons in blast)
    moreover have "neatly mc rest ?s (create_items cf mc level rest ?s)"
      using less menus_smaller Cons by blast
    ultimately show ?thesis using w by (auto simp: neatly_def Cons create_items_Cons)
  qed
qed

text \<open>
  In menus without hidden items whose submenus keep an item, lines only stand between items, whatever the
  host hides: no menu at any depth begins or ends with a line, and no two lines follow each other.
\<close>

theorem lines_between_items:
  assumes "list_all (tidy mc (a_wopi a)) ms"
  shows "neat_row (fst (createMenu cf mc level ms a)) \<and> list_all neat_item (fst (createMenu cf mc level ms a))"
proof -
  let ?r = "create_items cf mc (Suc level) ms ([], False, a)"
  have "growing (fst ?r) (fst (snd ?r))"
    using create_items_neat [of mc ms "([], False, a)" cf "Suc level"] assms by (simp add: neatly_def growing_def)
  then show ?thesis using trim_line_neat by (auto simp: createMenu_def split: prod.split)
qed

definition demo_wopi :: wopi where
  "demo_wopi = \<lparr>w_origin = ''*'', w_baseName = JStr ''a.odt'', w_hidePrint = False, w_hideSave = False, w_hideExport = False,
     w_hideChanges = False, w_disablePrint = False, w_disableExport = False, w_disableCopy = False, w_disableInactive = False,
     w_downloadAs = False, w_cannotWrite = True, w_insertRemote = False, w_supportsRename = False, w_canRename = False,
     w_share = False, w_extra = JObj [], w_owner = False, w_hideUsers = None, w_loadedTime = None,
     w_conditions = [(''docloaded'', False), (''updatepermission'', False), (''viewinfo'', False)],
     w_appLoaded = False, w_notifySave = False\<rparr>"

definition demo_app :: app where
  "demo_app = \<lparr>a_users = demo_users, a_allowed = [], a_white = [(''.uno:Crop'', False)], a_hotkeys = [], a_iconAlias = [],
     a_resourceIcon = [], a_docContext = [], a_everModified = False, a_stopClose = False, a_waitSave = False, a_saveTimers = 0,
     a_closeTimers = 0, a_framed = True, a_mobileApp = False, a_iosApp = False, a_values = [], a_watermark = False,
     a_exports = [], a_wopi = demo_wopi, a_menubar = [], a_menuReady = False, a_alwaysActive = False\<rparr>"

definition plain_item :: "string \<Rightarrow> mitem" where
  "plain_item k = MItem (Some k) None (Some k) (Some ''action'') None None None None False None"

definition line :: mitem where
  "line = MItem None None None (Some ''--'') None None None None False None"

definition menu_of :: "string \<Rightarrow> mitem list \<Rightarrow> mitem" where
  "menu_of k ms = MItem (Some k) None (Some k) (Some ''menu'') None None None None False (Some ms)"

definition demo_mconf :: mconf where
  "demo_mconf = \<lparr>mc_history = False, mc_close = False, mc_word = \<lambda>t. t, mc_uno = \<lambda>c t. c\<rparr>"

lemmas demo_menu_defs = plain_item_def line_def menu_of_def demo_app_def demo_wopi_def demo_mconf_def

lemma lines_between_items_witness:
  "let ms = [line, menu_of ''file'' [plain_item ''save'', line, plain_item ''print'', line, plain_item ''saveas''], line, line,
             plain_item ''about'', line] in
   neat_row (fst (createMenu default_conf demo_mconf 0 ms demo_app)) \<and>
   list_all neat_item (fst (createMenu default_conf demo_mconf 0 ms demo_app))"
  unfolding Let_def
  by (rule lines_between_items)
     (simp add: demo_menu_defs left_out_def is_export_def startsWith_def downloads_prefix_def item_type_def)

text \<open>The hypothesis is needed: after a submenu that comes out empty, the line before it is forgotten, and the
  next line is kept as well. Only one of them is taken away at the end.\<close>

lemma empty_submenu_doubles_line:
  "map li_sep (fst (createMenu default_conf demo_mconf 0
     [plain_item ''about'', line, menu_of ''file'' [plain_item ''saveas''], line, plain_item ''x''] demo_app)) =
   [False, True, True, False]"
  by code_simp

text \<open>A menu that is one line is built empty, so that the line meant to go between the languages and the
  commands that reset them never appears.\<close>

lemma lone_line_is_dropped: "fst (createMenu cf mc level [line] a) = []"
  by (simp add: createMenu_def create_items_Cons item_step_def line_def left_out_def is_export_def drops_line_def
      note_export_def trim_line_def)

lemma app_fields [simp]:
  "a_hotkeys (asend cf m a) = a_hotkeys a" "a_allowed (asend cf m a) = a_allowed a" "a_white (asend cf m a) = a_white a"
  "l_docType (app_layer (asend cf m a)) = l_docType (app_layer a)"
  by (simp_all add: asend_def on_app_def on_layer_def lsend_def on_grid_def)

section \<open>Facts about shortcuts\<close>

lemma lower_char_lower [simp]: "lower_char (lower_char c) = lower_char c"
  by (auto simp: lower_char_def char_code_def)

lemma lower_lower [simp]: "lower (lower s) = lower s"
  by (simp add: lower_def)

lemma lower_append [simp]: "lower (s @ t) = lower s @ lower t"
  by (simp add: lower_def)


lemma lower_char_code: "char_code (lower_char c) = (if 65 \<le> char_code c \<and> char_code c \<le> 90 then char_code c + 32 else char_code c)"
  by (simp add: lower_char_def char_code_def of_char_of)

lemma lower_char_plus: "lower_char c = CHR ''+'' \<longleftrightarrow> c = CHR ''+''"
proof
  assume "lower_char c = CHR ''+''"
  then have "char_code (lower_char c) = 43" by (simp add: char_code_def)
  then have "char_code c = 43" by (simp add: lower_char_code split: if_splits)
  then have "of_char c = (of_char (CHR ''+'') :: nat)" by (simp add: char_code_def)
  then show "c = CHR ''+''" by (simp only: of_char_eq_iff)
qed (simp add: lower_char_def char_code_def)

lemma plus_lower_char: "CHR ''+'' = lower_char c \<longleftrightarrow> c = CHR ''+''"
  using lower_char_plus by metis

lemma lower_plus: "lower ''+'' = ''+''"
  by (simp add: lower_def lower_char_def char_code_def)

lemma lower_join: "lower (js_join ''+'' ws) = js_join ''+'' (map lower ws)"
proof (induction ws rule: induct_list012)
  case (3 x y zs)
  have "js_join ''+'' (x # y # zs) = x @ ''+'' @ js_join ''+'' (y # zs)"
    "js_join ''+'' (map lower (x # y # zs)) = lower x @ ''+'' @ js_join ''+'' (map lower (y # zs))"
    by simp_all
  then show ?case using 3 lower_plus by (simp only: lower_append)
qed (simp_all add: lower_def)

lemma plus_notin_lower: "CHR ''+'' \<notin> set w \<Longrightarrow> CHR ''+'' \<notin> set (lower w)"
proof -
  assume "CHR ''+'' \<notin> set w"
  moreover have "x = CHR ''+''" if "lower_char x = CHR ''+''" for x using that lower_char_plus by blast
  ultimately show ?thesis by (force simp: lower_def)
qed

definition modifier_words :: "string set" where
  "modifier_words = {''ctrl'', ''alt'', ''shift''}"

lemma key_text_lower: "key_text c al sh (lower k) = key_text c al sh k"
  by (simp add: key_text_def lower_join del: js_join.simps)

lemma lower_drop: "lower (drop n s) = drop n (lower s)"
  by (simp add: lower_def drop_map)

text \<open>A shortcut is found again whatever the order and the case of its modifiers are.\<close>

lemma canonical_hotkey_merges:
  assumes mods: "lower ` set mods \<subseteq> modifier_words"
    and key: "CHR ''+'' \<notin> set k" "lower k \<notin> modifier_words" "startsWith (lower k) ''arrow'' = startsWith k ''Arrow''"
  shows "canonical_hotkey (js_join ''+'' (mods @ [k])) =
    merge_keys (''ctrl'' \<in> lower ` set mods) (''alt'' \<in> lower ` set mods) (''shift'' \<in> lower ` set mods) k"
proof -
  have "CHR ''+'' \<notin> set w" if "w \<in> set (map lower (mods @ [k]))" for w
    using that mods key(1) plus_notin_lower by (auto simp: modifier_words_def)
  then have keys: "js_split (CHR ''+'') (lower (js_join ''+'' (mods @ [k]))) = map lower (mods @ [k])"
    unfolding lower_join by (intro js_split_join) auto
  have w: "w \<in> set (map lower (mods @ [k])) \<longleftrightarrow> w \<in> lower ` set mods" if "w \<in> modifier_words" for w
    using key(2) that by auto
  have k: "(if startsWith (lower k) ''arrow'' then drop 5 (lower k) else lower k) =
      lower (if startsWith k ''Arrow'' then drop 5 k else k)"
    using key(3) by (simp add: lower_drop)
  have l: "List.last (map lower (mods @ [k])) = lower k" by simp
  show ?thesis
    unfolding canonical_hotkey_def merge_keys_def Let_def keys l k key_text_lower
    using w by (simp only: modifier_words_def insert_iff simp_thms)
qed

lemma merge_keys_case:
  assumes "lower k = lower q" "startsWith (lower k) ''arrow'' = startsWith k ''Arrow''"
    "startsWith (lower q) ''arrow'' = startsWith q ''Arrow''"
  shows "merge_keys c al sh k = merge_keys c al sh q"
proof -
  have "lower (if startsWith k ''Arrow'' then drop 5 k else k) = lower (if startsWith q ''Arrow'' then drop 5 q else q)"
    using assms by (simp add: lower_drop)
  then show ?thesis by (metis merge_keys_def key_text_lower)
qed

text \<open>A typing error in the menu of text documents, \<open>Ctel+Shift+?\<close>, makes a question mark alone the shortcut:
  Shift is held to type it.\<close>

lemma question_mark_is_shortcut: "canonical_hotkey ''Ctel+Shift+?'' = merge_keys False False True ''?''"
  by code_simp

text \<open>The key + cannot be in a shortcut: it is taken for a separator.\<close>

lemma plus_is_no_shortcut: "canonical_hotkey ''Ctrl++'' \<noteq> merge_keys True False False ''+''"
  by code_simp



section \<open>What a menu can do\<close>

lemma acall_net [simp]: "app_net (acall f args a) = emit (Called f args) (app_net a)"
  by (simp add: acall_def on_app_def on_layer_def lemit_def on_grid_def gemit_def)

lemma afire_net [simp]: "app_net (afire t fs a) = emit (Fired t (JObj fs)) (app_net a)"
  by (simp add: afire_def on_app_def on_layer_def lemit_def on_grid_def gemit_def)

lemma emit_quiet [simp]:
  "outbox (emit (Called f args) s) = outbox s" "outbox (emit (Fired t v) s) = outbox s" "perm (emit x s) = perm s"
  by (simp_all add: outbox_def emit_def)

lemma app_uno_mute [simp]: "\<not> app_edits a \<Longrightarrow> app_uno cf target c j a = a"
  by (simp add: app_uno_def on_app_def on_layer_def sendUnoCommand_def)

lemma perform_mute:
  "\<not> app_edits a \<Longrightarrow> outbox (app_net (perform_command cf target c a)) = outbox (app_net a)"
  by (simp add: perform_command_def run_dialog_def Let_def)

lemma execute_mute:
  "\<not> app_edits a \<Longrightarrow> outbox (app_net (fst (executeAllowedCommand cf target c a))) = outbox (app_net a)"
  by (simp add: executeAllowedCommand_def perform_mute Let_def split: option.split)

text \<open>
  Outside edit mode no item of a menu sends anything to the server, whatever it stands for: what was sent
  and what waits stays as it was. (Macros and dialogs are handed to their own code.)
\<close>

theorem menus_are_mute:
  assumes "perm (app_net a) \<noteq> ''edit''"
  shows "outbox (app_net (onItemSelected cf target d checked a)) = outbox (app_net a)"
  using assms execute_mute [of a]
  by (auto simp: onItemSelected_def menu_sendCommand_def menu_executeAction_def Let_def split: option.split)

lemma menus_are_mute_witness:
  "let a = on_net (\<lambda>s. s\<lparr>perm := ''view''\<rparr>) demo_app; d = no_data\<lparr>d_type := Some ''unocommand'', d_uno := Some ''.uno:Crop''\<rparr>
   in outbox (app_net (onItemSelected default_conf (\<lambda>c t. []) d False a)) = outbox (app_net a)"
  unfolding Let_def
  by (rule menus_are_mute) (simp add: on_net_def on_app_def on_layer_def on_grid_def)

text \<open>A command that the second table marks as unusable is not offered, but it is executed all the same.\<close>

lemma unusable_command_runs:
  assumes "obj_get (a_allowed a) c = None" "obj_get (a_white a) c = Some False" "startsWith c ''.uno:''"
  shows "\<not> isAllowedCommand c a \<and> executeAllowedCommand cf target c a = (app_uno cf target c None a, True)"
  using assms
  by (simp add: isAllowedCommand_def executeAllowedCommand_def command_data_def perform_command_def no_entry_def)

text \<open>A hidden command is neither offered nor executed.\<close>

lemma hidden_command_rests:
  assumes "obj_get (a_allowed a) c = Some e" "ce_hide e = Some True"
  shows "\<not> isAllowedCommand c a \<and> executeAllowedCommand cf target c a = (a, False)"
  using assms by (simp add: isAllowedCommand_def executeAllowedCommand_def command_data_def)

text \<open>Announcing a command keeps the tables and the exports well formed: every shortcut names a command of the
  table, and no export format is listed twice.\<close>

definition tables_ok :: "app \<Rightarrow> bool" where
  "tables_ok a \<longleftrightarrow> obj_ok (a_allowed a) \<and> obj_ok (a_hotkeys a) \<and> distinct (a_exports a) \<and>
     (\<forall>(h, c) \<in> set (a_hotkeys a). obj_get (a_allowed a) c \<noteq> None)"

lemma app_exports [simp]: "a_exports (asend cf m a) = a_exports a"
  by (simp add: asend_def on_app_def)

lemma tables_ok_add [intro]: "tables_ok a \<Longrightarrow> tables_ok (addAllowedCommand cf n h c b a)"
proof (cases n)
  case (Some x)
  assume t: "tables_ok a"
  have m: "(k, v) \<in> set (AList.update i w m) \<Longrightarrow> (k, v) \<in> set m \<or> v = w" for k v i w and m :: "(string, string) obj"
    by (induction m) (auto split: if_splits)
  show ?thesis
    using t m by (fastforce simp: Some tables_ok_def addAllowedCommand_def Let_def obj_put_get split: option.splits if_splits)
qed (simp add: addAllowedCommand_def)

lemma tables_ok_announce [intro]: "tables_ok a \<Longrightarrow> tables_ok (announce_item cf m a)"
  by (auto simp: announce_item_def Let_def)

lemma tables_ok_note [intro]: "tables_ok a \<Longrightarrow> tables_ok (note_export m a)"
  by (auto simp: note_export_def registerExportFormat_def tables_ok_def)


text \<open>
  Building the menus keeps the tables: every shortcut names a command of the table, no command or shortcut
  is entered twice, and no export format is listed twice.
\<close>

theorem menus_keep_tables:
  assumes "tables_ok a"
  shows "tables_ok (snd (createMenu cf mc level ms a))"
  using create_items_keeps [of tables_ok cf "([], False, a)" mc "Suc level" ms, OF tables_ok_note tables_ok_announce] assms
  by (auto simp: createMenu_def split: prod.split)

lemma menus_keep_tables_witness:
  "tables_ok (snd (createMenu default_conf demo_mconf 0 [menu_of ''file'' [plain_item ''save'']] demo_app))"
  by (rule menus_keep_tables) (simp add: tables_ok_def demo_app_def)

end
