(* ===== verification/Wopi.thy ===== *)
theory Wopi
  imports Commands "HOL-Library.Sublist"
begin

text \<open>
  The host page (\<open>map/handler/Map.WOPI.js\<close>). When the editor runs in a frame, the page around it sends
  messages (\<open>_postMessageListener\<close>) and is told of what happens (\<open>_postMessage\<close>); the server
  forwards the properties the host gave to the document (\<open>_setWopiProps\<close>). The host is told once that
  the document is loaded, when the document, the permission and the table of views have all arrived.

  A message is what \<open>JSON.parse\<close> made of its text. The buttons of the tool bar are the identifiers it
  holds; what is posted to the parent is a list of message identifiers and values, without the time of sending.
\<close>

section \<open>State\<close>

record host =
  hs_app :: app
  hs_buttons :: "(string, bool) obj"     \<comment> \<open>the items of \<open>editbar\<close>, and whether they are shown\<close>
  hs_mobileItems :: "string list"        \<comment> \<open>\<open>toolbarUpMobileItems\<close>\<close>
  hs_posted :: "(string \<times> jsval) list"
  hs_ready :: bool                       \<comment> \<open>\<open>WOPIPostmessageReady\<close>\<close>

abbreviation hs_wopi :: "host \<Rightarrow> wopi" where
  "hs_wopi h \<equiv> a_wopi (hs_app h)"

definition change_wopi :: "(wopi \<Rightarrow> wopi) \<Rightarrow> host \<Rightarrow> host" where
  "change_wopi f h = h\<lparr>hs_app := (hs_app h)\<lparr>a_wopi := f (hs_wopi h)\<rparr>\<rparr>"

text \<open>\<open>_postMessage\<close>. Its first test looks at the method \<open>enabled\<close> instead of calling it, and never stops. The answer
  to a request to save goes out only when the request asked for it.\<close>

definition postMessage :: "string \<Rightarrow> jsval \<Rightarrow> host \<Rightarrow> host" where
  "postMessage msgId args h =
     (let values = (if js_truthy args then args else JObj [])
      in if w_origin (hs_wopi h) = [] \<or> \<not> a_framed (hs_app h) then h
         else if msgId = ''Action_Save_Resp'' then
           (if \<not> w_notifySave (hs_wopi h) then h
            else (change_wopi (\<lambda>w. w\<lparr>w_notifySave := False\<rparr>) h)\<lparr>hs_posted := hs_posted h @ [(msgId, values)]\<rparr>)
         else h\<lparr>hs_posted := hs_posted h @ [(msgId, values)]\<rparr>)"

text \<open>An operation of the map, followed by what its \<open>postMessage\<close> events do here.\<close>

fun post_events :: "effect list \<Rightarrow> (string \<times> jsval) list" where
  "post_events [] = []"
| "post_events (Fired t v # es) =
     (if t = ''postMessage''
      then (case js_string (js_field ''msgId'' v) of None \<Rightarrow> post_events es | Some m \<Rightarrow> (m, js_field ''args'' v) # post_events es)
      else post_events es)"
| "post_events (e # es) = post_events es"

definition on_host :: "(app \<Rightarrow> app) \<Rightarrow> host \<Rightarrow> host" where
  "on_host f h =
     (let a = f (hs_app h)
      in fold (\<lambda>(m, v). postMessage m v) (post_events (drop (length (log (app_net (hs_app h)))) (log (app_net a))))
           (h\<lparr>hs_app := a\<rparr>))"

definition fire_post :: "string \<Rightarrow> jsval \<Rightarrow> host \<Rightarrow> host" where
  "fire_post msgId args = on_host (afire ''postMessage'' [(''msgId'', JStr msgId), (''args'', args)])"

section \<open>Properties and loading\<close>

definition set_flags :: "jsval \<Rightarrow> wopi \<Rightarrow> wopi" where
  "set_flags info w =
     (let b = (\<lambda>k. js_truthy (js_field k info)) in
      w\<lparr>w_origin := (if b ''PostMessageOrigin'' then or_empty (js_string (js_field ''PostMessageOrigin'' info)) else w_origin w),
        w_baseName := js_field ''BaseFileName'' info,
        w_hidePrint := b ''HidePrintOption'', w_hideSave := b ''HideSaveOption'', w_hideExport := b ''HideExportOption'',
        w_hideChanges := b ''HideChangeTrackingControls'', w_disablePrint := b ''DisablePrint'',
        w_disableExport := b ''DisableExport'', w_disableCopy := b ''DisableCopy'',
        w_disableInactive := b ''DisableInactiveMessages'', w_downloadAs := b ''DownloadAsPostMessage'',
        w_cannotWrite := b ''UserCanNotWriteRelative'', w_insertRemote := b ''EnableInsertRemoteImage'',
        w_supportsRename := b ''SupportsRename'', w_canRename := b ''UserCanRename'', w_share := b ''EnableShare'',
        w_extra := (if js_field ''UserExtraInfo'' info \<noteq> JUndef then js_field ''UserExtraInfo'' info else JObj []),
        w_owner := (js_field ''DocumentOwner'' info = JBool True)\<rparr>)"

definition has_field :: "string \<Rightarrow> jsval \<Rightarrow> bool" where
  "has_field k v \<longleftrightarrow> (case v of JObj fs \<Rightarrow> obj_get fs k \<noteq> None | _ \<Rightarrow> False)"

definition setWopiProps :: "sconf \<Rightarrow> jsval \<Rightarrow> host \<Rightarrow> host" where
  "setWopiProps cf info h =
     (let h = change_wopi (set_flags info) h;
          users = js_field ''HideUserList'' info
      in if js_truthy users \<and> js_string users = None then on_host app_throws h
         else
           let h = (case js_string users of
                      None \<Rightarrow> h
                    | Some t \<Rightarrow> if t = [] then h else change_wopi (\<lambda>w. w\<lparr>w_hideUsers := Some (js_split (CHR '','') t)\<rparr>) h);
               h = fire_post ''App_LoadingStatus'' (JObj [(''Status'', JStr ''Frame_Ready''),
                     (''Features'', JObj [(''VersionStates'', JBool True)])]) h
           in if has_field ''TemplateSaveAs'' info
              then on_host (saveAs cf (js_string (js_field ''TemplateSaveAs'' info)) None None)
                     (on_host (busy ''Creating new file from template...'') h)
              else h)"

definition resetAppLoaded :: "host \<Rightarrow> host" where
  "resetAppLoaded = change_wopi (\<lambda>w. w\<lparr>w_appLoaded := False, w_conditions := map (\<lambda>(k, b). (k, False)) (w_conditions w)\<rparr>)"

text \<open>\<open>_postLoaded\<close>: one of the three events; \<open>status\<close> is that of \<open>docloaded\<close>.\<close>

definition set_condition :: "string \<Rightarrow> bool \<Rightarrow> wopi \<Rightarrow> wopi" where
  "set_condition k b w = w\<lparr>w_conditions := obj_put k b (w_conditions w)\<rparr>"

definition loaded_status :: "int option \<Rightarrow> jsval" where
  "loaded_status t = JObj [(''Status'', JStr ''Document_Loaded''),
     (''DocumentLoadedTime'', case t of None \<Rightarrow> JBool False | Some i \<Rightarrow> JInt i)]"

definition postLoaded :: "int \<Rightarrow> string \<Rightarrow> bool \<Rightarrow> host \<Rightarrow> host" where
  "postLoaded now type status h =
     (if w_appLoaded (hs_wopi h) then h
      else if type = ''docloaded'' \<and> \<not> status then change_wopi (set_condition type False) h
      else
        let h = (if type = ''docloaded'' then change_wopi (\<lambda>w. w\<lparr>w_loadedTime := Some now\<rparr>) h else h);
            h = change_wopi (set_condition type True) h
        in if list_all snd (w_conditions (hs_wopi h))
           then fire_post ''App_LoadingStatus'' (loaded_status (w_loadedTime (hs_wopi h)))
                  (change_wopi (\<lambda>w. w\<lparr>w_appLoaded := True\<rparr>) h)
           else h)"

section \<open>Messages of the host\<close>

text \<open>A value in a text. Fractions do not occur in these fields and are not rendered.\<close>

definition js_text :: "jsval \<Rightarrow> string" where
  "js_text v = (case v of JUndef \<Rightarrow> ''undefined'' | JNull \<Rightarrow> ''null'' | JBool b \<Rightarrow> if b then ''true'' else ''false''
     | JInt i \<Rightarrow> show_int i | JReal x \<Rightarrow> [] | JStr s \<Rightarrow> s | JArr vs \<Rightarrow> [] | JObj fs \<Rightarrow> ''[object Object]'')"

definition is_null :: "jsval \<Rightarrow> bool" where
  "is_null v \<longleftrightarrow> v = JUndef \<or> v = JNull"

text \<open>A new button goes before the save button, in the bar and in the list of those kept on mobile devices, where
  a missing save button counts from the end (\<open>splice(-1, 0, id)\<close>).\<close>

definition insert_before_save :: "string \<Rightarrow> string list \<Rightarrow> string list" where
  "insert_before_save k ks =
     (if ''save'' \<in> set ks
      then takeWhile (\<lambda>x. x \<noteq> ''save'') ks @ k # dropWhile (\<lambda>x. x \<noteq> ''save'') ks
      else butlast ks @ k # (if ks = [] then [] else [List.last ks]))"

definition insert_button :: "jsval \<Rightarrow> host \<Rightarrow> host" where
  "insert_button v h =
     (let k = js_text (js_field ''id'' v) in
      if \<not> js_truthy v \<or> \<not> js_truthy (js_field ''id'' v) \<or> obj_get (hs_buttons h) k \<noteq> None \<or> \<not> js_truthy (js_field ''imgurl'' v)
      then h
      else if app_edits (hs_app h) then
        (let h = h\<lparr>hs_buttons := takeWhile (\<lambda>b. fst b \<noteq> ''save'') (hs_buttons h) @ (k, True)
                     # dropWhile (\<lambda>b. fst b \<noteq> ''save'') (hs_buttons h)\<rparr>
         in if js_truthy (js_field ''mobile'' v) then h\<lparr>hs_mobileItems := insert_before_save k (hs_mobileItems h)\<rparr> else h)
      else if perm (app_net (hs_app h)) = ''readonly'' then on_host (addMenu k (js_text (js_field ''hint'' v))) h
      else h)"

definition show_button :: "bool \<Rightarrow> jsval \<Rightarrow> host \<Rightarrow> host" where
  "show_button vis v h =
     (let k = js_text (js_field ''id'' v) in
      if \<not> js_truthy v \<or> \<not> js_truthy (js_field ''id'' v) \<or> \<not> app_edits (hs_app h) \<or> obj_get (hs_buttons h) k = None then h
      else h\<lparr>hs_buttons := obj_put k vis (hs_buttons h)\<rparr>)"

definition show_menu_item :: "bool \<Rightarrow> jsval \<Rightarrow> host \<Rightarrow> host" where
  "show_menu_item vis v h =
     (let k = js_text (js_field ''id'' v) in
      if \<not> js_truthy v \<or> \<not> js_truthy (js_field ''id'' v) \<or> \<not> app_edits (hs_app h) \<or> \<not> hasItem k (hs_app h) then h
      else on_host (if vis then showItem k else hideItem k) h)"

definition view_answer :: "jsnum \<Rightarrow> int \<times> vinfo \<Rightarrow> jsval" where
  "view_answer own = (\<lambda>(i, v). JObj
     [(''ViewId'', JStr (show_int i)), (''UserName'', JStr (vi_username v)), (''UserId'', vi_userid v),
      (''UserExtraInfo'', vi_extra v), (''Color'', JInt (vi_color v)), (''ReadOnly'', vi_readonly v),
      (''IsCurrentView'', JBool (own = Num i))])"

definition get_views :: "host \<Rightarrow> jsval" where
  "get_views h =
     (let u = a_users (hs_app h)
      in JArr (map (\<lambda>i. view_answer (l_viewId (u_layer u)) (i, the (obj_get (u_info u) i))) (int_keys (u_info u))))"

definition get_exports :: "host \<Rightarrow> jsval" where
  "get_exports h = JArr (map (\<lambda>(label, format). JObj
     [(''Label'', case label of None \<Rightarrow> JUndef | Some t \<Rightarrow> JStr t), (''Format'', JStr format)]) (a_exports (hs_app h)))"

text \<open>Saving. The extra data goes through \<open>encodeURIComponent\<close> even when there is none, and \<open>undefined\<close> is sent.\<close>

definition action_save :: "sconf \<Rightarrow> jsval \<Rightarrow> host \<Rightarrow> host" where
  "action_save cf v h =
     (let f = (\<lambda>k. if js_truthy v then js_field k v else v);
          h = change_wopi (\<lambda>w. w\<lparr>w_notifySave := js_truthy (f ''Notify'')\<rparr>) h
      in on_host (app_save cf (js_truthy (f ''DontTerminateEdit'')) (js_truthy (f ''DontSaveIfUnmodified''))
           (Some (encodeURIComponent (js_text (f ''ExtendedData''))))) h)"

text \<open>The name without its extension: up to the last dot, and nothing when there is none.\<close>

definition stem :: "string \<Rightarrow> string" where
  "stem s = (let r = dropWhile (\<lambda>c. c \<noteq> CHR ''.'') (rev s) in rev (drop 1 r))"

definition action_export :: "sconf \<Rightarrow> jsval \<Rightarrow> host \<Rightarrow> host" where
  "action_export cf v h =
     (if \<not> js_truthy v then h
      else (case js_string (w_baseName (hs_wopi h)) of
          None \<Rightarrow> on_host app_throws h
        | Some base \<Rightarrow>
            (let format = js_field ''Format'' v; name = stem base; name = (if name = [] then ''document'' else name)
             in on_host (downloadAs cf (name @ ''.'' @ js_text format) (if is_null format then None else Some (js_text format)) None []) h)))"

definition action_saveAs :: "sconf \<Rightarrow> jsval \<Rightarrow> host \<Rightarrow> host" where
  "action_saveAs cf v h =
     (if \<not> js_truthy v \<or> is_null (js_field ''Filename'' v) then h
      else on_host (saveAs cf (Some (js_text (js_field ''Filename'' v))) None None) (on_host (busy ''Creating copy...'') h))"

definition on_app_users :: "(ulayer \<Rightarrow> ulayer) \<Rightarrow> app \<Rightarrow> app" where
  "on_app_users f a = a\<lparr>a_users := f (a_users a)\<rparr>"

definition action_follow :: "jsval \<Rightarrow> host \<Rightarrow> host" where
  "action_follow v h =
     (if js_truthy v
      then on_host (on_app_users (setFollowing (Some (js_field ''Follow'' v \<noteq> JBool False))
             (if is_null (js_field ''ViewId'' v) then None else Some (js_int (js_field ''ViewId'' v))))) h
      else on_host (on_app_users (setFollowing (Some True) None)) h)"

text \<open>What the message asks for, once the application is loaded. Running a script is handed to the server code with
  its values as they are.\<close>

definition host_request :: "sconf \<Rightarrow> jsval \<Rightarrow> host \<Rightarrow> host" where
  "host_request cf msg h =
     (let v = js_field ''Values'' msg; req = (\<lambda>k. js_field ''MessageId'' msg = JStr k) in
      if req ''Insert_Button'' then insert_button v h
      else if req ''Show_Button'' then show_button True v h
      else if req ''Hide_Button'' then show_button False v h
      else if req ''Show_Menu_Item'' then show_menu_item True v h
      else if req ''Hide_Menu_Item'' then show_menu_item False v h
      else if req ''Set_Settings'' then
        (if js_truthy v then on_host (\<lambda>a. a\<lparr>a_alwaysActive := js_truthy (js_field ''AlwaysActive'' v)\<rparr>) h else h)
      else if req ''Get_Views'' then postMessage ''Get_Views_Resp'' (get_views h) h
      else if req ''Action_Save'' then action_save cf v h
      else if req ''Action_Print'' then on_host (app_print cf) h
      else if req ''Action_Export'' then action_export cf v h
      else if req ''Action_InsertGraphic'' then (if js_truthy v then on_host (insertURL (js_field ''url'' v)) h else h)
      else if req ''Action_ShowBusy'' then
        (if js_truthy v \<and> js_truthy (js_field ''Label'' v)
         then on_host (afire ''showbusy'' [(''label'', js_field ''Label'' v)]) h else h)
      else if req ''Action_HideBusy'' then on_host (afire ''hidebusy'' []) h
      else if req ''Get_Export_Formats'' then postMessage ''Get_Export_Formats_Resp'' (get_exports h) h
      else if req ''Action_SaveAs'' then action_saveAs cf v h
      else if req ''Action_FollowUser'' then action_follow v h
      else if req ''Host_VersionRestore'' then
        (if is_null v then on_host app_throws h
         else if js_field ''Status'' v = JStr ''Pre_Restore'' then on_host (asend cf ''versionrestore prerestore'') h else h)
      else if req ''CallPythonScript'' \<and> has_field ''ScriptFile'' msg \<and> has_field ''Function'' msg then
        on_host (acall ''sendUnoCommand'' [JStr (''vnd.sun.star.script:'' @ js_text (js_field ''ScriptFile'' msg) @ ''$''
          @ js_text (js_field ''Function'' msg) @ ''?language=Python&location=share''), v]) h
      else if req ''Action_RemoveView'' then
        (if js_truthy v \<and> \<not> is_null (js_field ''ViewId'' v)
         then on_host (asend cf (''removesession '' @ js_text (js_field ''ViewId'' v))) h else h)
      else h)"

definition postMessageListener :: "sconf \<Rightarrow> jsval \<Rightarrow> host \<Rightarrow> host" where
  "postMessageListener cf msg h =
     (if \<not> hs_ready h then h
      else if is_null msg then on_host app_throws h
      else if js_field ''MessageId'' msg = JStr ''Host_PostmessageReady'' then h
      else if js_field ''MessageId'' msg = JStr ''Close_Session'' then on_host (asend cf ''closedocument'') h
      else if \<not> w_appLoaded (hs_wopi h) then h
      else host_request cf msg h)"

section \<open>Runs\<close>

datatype host_event =
    HostMessage jsval
  | HostProps jsval
  | LoadEvent int string bool
  | ResetLoaded
  | MapPosts string jsval

fun host_step :: "sconf \<Rightarrow> host_event \<Rightarrow> host \<Rightarrow> host" where
  "host_step cf (HostMessage m) = postMessageListener cf m"
| "host_step cf (HostProps p) = setWopiProps cf p"
| "host_step cf (LoadEvent now t b) = postLoaded now t b"
| "host_step cf ResetLoaded = resetAppLoaded"
| "host_step cf (MapPosts m v) = fire_post m v"

section \<open>Facts\<close>

lemma post_events_append [simp]: "post_events (es @ fs) = post_events es @ post_events fs"
proof (induction es)
  case (Cons e es)
  then show ?case by (cases e) (auto split: option.split)
qed simp

lemma fire_post_eq: "fire_post m v h =
    postMessage m v (h\<lparr>hs_app := afire ''postMessage'' [(''msgId'', JStr m), (''args'', v)] (hs_app h)\<rparr>)"
  by (simp add: fire_post_def on_host_def Let_def emit_def js_field_def js_string_def)

lemma app_posting [simp]: "a_framed (afire t fs a) = a_framed a" "a_framed (acall f args a) = a_framed a"
  by (simp_all add: afire_def acall_def on_app_def)

text \<open>What is posted, and what the flag for answers to saving becomes.\<close>

definition reaches :: "host \<Rightarrow> bool" where
  "reaches h \<longleftrightarrow> w_origin (hs_wopi h) \<noteq> [] \<and> a_framed (hs_app h)"

definition post_value :: "jsval \<Rightarrow> jsval" where
  "post_value v = (if js_truthy v then v else JObj [])"

lemma fire_post_posted:
  "reaches h \<Longrightarrow> hs_posted (fire_post m v h) =
     (if m = ''Action_Save_Resp'' \<and> \<not> w_notifySave (hs_wopi h) then hs_posted h else hs_posted h @ [(m, post_value v)])"
  "reaches h \<Longrightarrow> hs_wopi (fire_post m v h) =
     (if m = ''Action_Save_Resp'' then (hs_wopi h)\<lparr>w_notifySave := False\<rparr> else hs_wopi h)"
  "reaches h \<Longrightarrow> reaches (fire_post m v h)"
  by (auto simp: fire_post_eq postMessage_def reaches_def change_wopi_def post_value_def)

abbreviation is_response :: "string \<times> jsval \<Rightarrow> bool" where
  "is_response p \<equiv> fst p = ''Action_Save_Resp''"


definition demo_host :: host where
  "demo_host = \<lparr>hs_app = demo_app, hs_buttons = [(''save'', True)], hs_mobileItems = [''save''], hs_posted = [], hs_ready = True\<rparr>"

lemma demo_reaches [simp]: "reaches demo_host"
  by (simp add: reaches_def demo_host_def demo_app_def demo_wopi_def)


section \<open>The document is loaded\<close>

definition load_conditions :: "string list" where
  "load_conditions = [''docloaded'', ''updatepermission'', ''viewinfo'']"

fun arrive :: "int \<times> string \<times> bool \<Rightarrow> string set \<Rightarrow> string set" where
  "arrive (now, t, b) S = (if t = ''docloaded'' \<and> \<not> b then S - {t} else insert t S)"

definition arrived :: "(int \<times> string \<times> bool) list \<Rightarrow> string set" where
  "arrived es = fold arrive es {}"

definition all_arrived :: "(int \<times> string \<times> bool) list \<Rightarrow> bool" where
  "all_arrived es \<longleftrightarrow> (\<exists>p. prefix p es \<and> set load_conditions \<subseteq> arrived p)"

lemma all_arrived_snoc: "all_arrived (es @ [e]) \<longleftrightarrow> all_arrived es \<or> set load_conditions \<subseteq> arrived (es @ [e])"
  by (auto simp: all_arrived_def)

definition load_run :: "(int \<times> string \<times> bool) list \<Rightarrow> host \<Rightarrow> host" where
  "load_run es h = fold (\<lambda>(now, t, b). postLoaded now t b) es h"

definition tracks :: "(string \<times> bool) list \<Rightarrow> string set \<Rightarrow> bool" where
  "tracks cs S \<longleftrightarrow> obj_ok cs \<and> set load_conditions \<subseteq> set (map fst cs) \<and> (\<forall>(k, b) \<in> set cs. b \<longleftrightarrow> k \<in> S) \<and>
     set (map fst cs) - set load_conditions \<subseteq> S"

lemma put_keys: "set (map fst (obj_put k v m)) = insert k (set (map fst m))"
  by (induction m) auto

lemma tracks_put:
  assumes t: "tracks cs S" and k: "\<not> b \<Longrightarrow> k \<in> set load_conditions"
  shows "tracks (obj_put k b cs) (if b then insert k S else S - {k})"
proof -
  have ok: "obj_ok cs" and ok': "obj_ok (obj_put k b cs)" using t by (simp_all add: tracks_def)
  have "v \<longleftrightarrow> i \<in> (if b then insert k S else S - {k})" if "(i, v) \<in> set (obj_put k b cs)" for i v
  proof (cases "i = k")
    case True
    then show ?thesis using that obj_ok_mem [OF ok'] by (simp add: obj_put_get)
  next
    case False
    then have "(i, v) \<in> set cs" using that obj_ok_mem [OF ok'] obj_ok_mem [OF ok] by (simp add: obj_put_get)
    then have "v \<longleftrightarrow> i \<in> S" using t unfolding tracks_def by blast
    then show ?thesis using False by simp
  qed
  moreover have "set (map fst (obj_put k b cs)) - set load_conditions \<subseteq> (if b then insert k S else S - {k})"
    using t k unfolding put_keys by (auto simp: tracks_def)
  moreover have "set load_conditions \<subseteq> set (map fst (obj_put k b cs))"
    using t unfolding put_keys by (auto simp: tracks_def)
  ultimately show ?thesis using ok' unfolding tracks_def by blast
qed

lemma tracks_all: "tracks cs S \<Longrightarrow> list_all snd cs \<longleftrightarrow> set load_conditions \<subseteq> S"
proof -
  assume t: "tracks cs S"
  then have "\<forall>x \<in> set cs. snd x \<longleftrightarrow> fst x \<in> S" unfolding tracks_def by auto
  then have "list_all snd cs \<longleftrightarrow> set (map fst cs) \<subseteq> S" by (simp add: list_all_iff image_subset_iff)
  then show ?thesis using t unfolding tracks_def by blast
qed

lemma change_wopi_sel [simp]:
  "hs_wopi (change_wopi f h) = f (hs_wopi h)" "hs_posted (change_wopi f h) = hs_posted h"
  "a_framed (hs_app (change_wopi f h)) = a_framed (hs_app h)"
  by (simp_all add: change_wopi_def)

definition waiting :: "(int \<times> string \<times> bool) list \<Rightarrow> host \<Rightarrow> bool" where
  "waiting es h \<longleftrightarrow> reaches h \<and> \<not> w_appLoaded (hs_wopi h) \<and> tracks (w_conditions (hs_wopi h)) (arrived es) \<and>
     (''docloaded'' \<in> arrived es \<longrightarrow> (\<exists>t. w_loadedTime (hs_wopi h) = Some t \<and> (t, ''docloaded'', True) \<in> set es))"

lemma arrived_snoc: "arrived (es @ [e]) = arrive e (arrived es)"
  by (simp add: arrived_def)

lemma postLoaded_step:
  fixes now :: int and t :: string and b :: bool
  assumes "waiting es h"
  defines "h' \<equiv> postLoaded now t b h" and "es' \<equiv> es @ [(now, t, b)]"
  shows "if set load_conditions \<subseteq> arrived es'
    then w_appLoaded (hs_wopi h') \<and>
      (\<exists>u. (u, ''docloaded'', True) \<in> set es' \<and> hs_posted h' = hs_posted h @ [(''App_LoadingStatus'', loaded_status (Some u))])
    else waiting es' h' \<and> hs_posted h' = hs_posted h"
proof (cases "t = ''docloaded'' \<and> \<not> b")
  case True
  then have "tracks (obj_put t False (w_conditions (hs_wopi h))) (arrived es')"
    using assms(1) tracks_put [of "w_conditions (hs_wopi h)" "arrived es" False t]
    by (simp add: waiting_def es'_def arrived_snoc load_conditions_def)
  then show ?thesis using True assms(1)
    by (auto simp: h'_def es'_def postLoaded_def waiting_def set_condition_def reaches_def arrived_snoc load_conditions_def)
next
  case False
  define g where "g = change_wopi (set_condition t True)
    (if t = ''docloaded'' then change_wopi (\<lambda>w. w\<lparr>w_loadedTime := Some now\<rparr>) h else h)"
  have a: "arrived es' = insert t (arrived es)" using False by (auto simp: es'_def arrived_snoc)
  have g: "waiting es' g" "hs_posted g = hs_posted h"
    using assms(1) False tracks_put [of "w_conditions (hs_wopi h)" "arrived es" True t]
    by (auto simp: waiting_def g_def set_condition_def reaches_def a, auto simp: es'_def)
  have h': "h' = (if list_all snd (w_conditions (hs_wopi g))
      then fire_post ''App_LoadingStatus'' (loaded_status (w_loadedTime (hs_wopi g))) (change_wopi (\<lambda>w. w\<lparr>w_appLoaded := True\<rparr>) g)
      else g)"
    using assms(1) False by (auto simp: h'_def postLoaded_def g_def waiting_def Let_def)
  have all: "list_all snd (w_conditions (hs_wopi g)) \<longleftrightarrow> set load_conditions \<subseteq> arrived es'"
    using g(1) tracks_all by (auto simp: waiting_def)
  show ?thesis
  proof (cases "set load_conditions \<subseteq> arrived es'")
    case True
    then obtain u where u: "w_loadedTime (hs_wopi g) = Some u" "(u, ''docloaded'', True) \<in> set es'"
      using g(1) by (auto simp: waiting_def load_conditions_def)
    have "reaches (change_wopi (\<lambda>w. w\<lparr>w_appLoaded := True\<rparr>) g)" using g(1) by (simp add: waiting_def reaches_def)
    then show ?thesis using True u g(2)
      by (auto simp: h' all fire_post_posted post_value_def loaded_status_def js_truthy_def)
  next
    case False
    then show ?thesis using g by (simp add: h' all)
  qed
qed

text \<open>
  C19: The host is told once that the document is loaded: when the document, the permission and the views have
  arrived for the first time, in whatever order and however often, with the document not gone again in
  between. The time it is told is that of an arrival of the document.
\<close>

theorem loaded_told_once:
  assumes "reaches h" "\<not> w_appLoaded (hs_wopi h)" "w_conditions (hs_wopi h) = map (\<lambda>k. (k, False)) load_conditions"
  shows "w_appLoaded (hs_wopi (load_run es h)) = all_arrived es \<and>
    (if all_arrived es
     then \<exists>t. (t, ''docloaded'', True) \<in> set es \<and>
       hs_posted (load_run es h) = hs_posted h @ [(''App_LoadingStatus'', loaded_status (Some t))]
     else hs_posted (load_run es h) = hs_posted h)"
proof -
  have "if all_arrived es
     then w_appLoaded (hs_wopi (load_run es h)) \<and> (\<exists>t. (t, ''docloaded'', True) \<in> set es \<and>
       hs_posted (load_run es h) = hs_posted h @ [(''App_LoadingStatus'', loaded_status (Some t))])
     else waiting es (load_run es h) \<and> hs_posted (load_run es h) = hs_posted h"
  proof (induction es rule: rev_induct)
    case Nil
    then show ?case using assms
      by (auto simp: load_run_def all_arrived_def arrived_def waiting_def tracks_def obj_ok_def load_conditions_def)
  next
    case (snoc e es)
    obtain now t b where e: "e = (now, t, b)" by (cases e)
    have r: "load_run (es @ [(now, t, b)]) h = postLoaded now t b (load_run es h)" by (simp add: load_run_def)
    show ?case
    proof (cases "all_arrived es")
      case True
      then show ?thesis using snoc by (auto simp: e r all_arrived_snoc postLoaded_def)
    next
      case False
      then have w: "waiting es (load_run es h)" "hs_posted (load_run es h) = hs_posted h" using snoc by auto
      show ?thesis using postLoaded_step [OF w(1), of now t b] w(2) False
        by (auto simp: r e all_arrived_snoc split: if_splits)
    qed
  qed
  then show ?thesis by (auto simp: waiting_def split: if_splits)
qed


lemma loaded_told_once_witness:
  "let es = [(5, ''viewinfo'', True), (6, ''docloaded'', True), (7, ''docloaded'', False), (8, ''updatepermission'', True),
             (9, ''docloaded'', True), (10, ''viewinfo'', True)]
   in w_appLoaded (hs_wopi (load_run es demo_host)) = all_arrived es"
  unfolding Let_def
  by (rule loaded_told_once [THEN conjunct1]) (simp_all add: demo_host_def demo_app_def demo_wopi_def load_conditions_def reaches_def)

section \<open>What the host may ask\<close>

text \<open>Before the application is loaded, a message of the host does nothing, unless it ends the session.\<close>

lemma early_message_ignored:
  assumes "\<not> w_appLoaded (hs_wopi h)" "\<not> is_null msg" "js_field ''MessageId'' msg \<noteq> JStr ''Close_Session''"
  shows "postMessageListener cf msg h = h"
  using assms by (simp add: postMessageListener_def)

text \<open>A save the host asks for carries extra data even when it gave none.\<close>

lemma save_without_data:
  "action_save cf JUndef h = on_host (app_save cf False False (Some ''undefined'')) (change_wopi (\<lambda>w. w\<lparr>w_notifySave := False\<rparr>) h)"
proof -
  have "encodeURIComponent ''undefined'' = ''undefined''" by code_simp
  then show ?thesis by (simp add: action_save_def js_truthy_def js_text_def)
qed

text \<open>What the host hides is in no menu.\<close>

definition hidden_ids :: "wopi \<Rightarrow> string set" where
  "hidden_ids w = (if w_hidePrint w then {''print''} else {}) \<union> (if w_hideSave w then {''save''} else {}) \<union>
     (if w_cannotWrite w then {''saveas''} else {}) \<union> (if w_share w then {} else {''shareas''}) \<union>
     (if w_insertRemote w then {} else {''insertgraphicremote''}) \<union> (if w_hideChanges w then {''changesmenu''} else {}) \<union>
     (if w_hideExport w then {''fullscreen-presentation''} else {})"

lemma hidden_left_out: "mi_id m = Some k \<Longrightarrow> k \<in> hidden_ids w \<Longrightarrow> left_out mc w m"
proof -
  have m: "x \<in> (if b then {y} else {}) \<longleftrightarrow> b \<and> x = y" "x \<in> (if b then {} else {y}) \<longleftrightarrow> \<not> b \<and> x = y" for x y :: string and b
    by simp_all
  assume k: "mi_id m = Some k" "k \<in> hidden_ids w"
  have s: "startsWith ''fullscreen-presentation'' ''fullscreen-presentation''" by (simp add: startsWith_def)
  show ?thesis using k(2) unfolding hidden_ids_def Un_iff m by (elim disjE conjE) (simp_all add: left_out_def k(1) s)
qed

definition free_of :: "string set \<Rightarrow> litem list \<Rightarrow> bool" where
  "free_of ks items \<longleftrightarrow> (\<forall>i \<in> set (all_items items). \<forall>k \<in> ks. li_id i \<noteq> Some (''menu-'' @ k))"

lemma all_items_append [simp]: "all_items (xs @ ys) = all_items xs @ all_items ys"
  by (induction xs rule: all_items.induct) auto

lemma free_of_simps [simp]:
  "free_of ks []" "free_of ks (xs @ ys) \<longleftrightarrow> free_of ks xs \<and> free_of ks ys"
  by (auto simp: free_of_def)

lemma free_of_trim: "free_of ks xs \<Longrightarrow> free_of ks (trim_line xs)"
  by (cases xs rule: rev_cases) (auto simp: trim_line_def)

lemma free_of_item: "free_of ks [build_item mc level m subs a] \<longleftrightarrow> free_of ks subs \<and> (\<forall>k \<in> ks. item_id m \<noteq> Some (''menu-'' @ k))"
  by (auto simp: free_of_def build_item_def)

lemma create_items_free:
  "free_of (hidden_ids (a_wopi (snd (snd st)))) (fst st) \<Longrightarrow>
   free_of (hidden_ids (a_wopi (snd (snd st)))) (fst (create_items cf mc level ms st))"
proof (induction ms arbitrary: level st rule: menu_induct)
  case (less ms)
  show ?case
  proof (cases ms)
    case (Cons m rest)
    obtain items prev a where st: "st = (items, prev, a)" by (cases st)
    let ?ks = "hidden_ids (a_wopi a)" and ?s = "item_step cf mc level m st"
    have sub: "free_of (hidden_ids (a_wopi b)) (fst (create_items cf mc (Suc level) (submenu m) ([], False, b)))" for b
      using less.IH [of "submenu m" "([], False, b)"] menus_smaller Cons by simp
    have own: "\<forall>k \<in> ?ks. item_id m \<noteq> Some (''menu-'' @ k)" if "\<not> left_out mc (a_wopi a) m"
      using that hidden_left_out by (auto simp: item_id_def split: option.splits if_splits)
    have "free_of ?ks (fst ?s)"
      using less.prems own free_of_trim [OF sub [of "note_export m a"]]
      by (simp add: item_step_def st Let_def free_of_item)
    moreover have "a_wopi (snd (snd ?s)) = a_wopi a"
      using create_items_wopi [of cf mc level "[m]" st] by (simp add: create_items_Cons st)
    ultimately show ?thesis using less.IH [of rest ?s] menus_smaller Cons st by (simp add: create_items_Cons)
  qed (use less in simp)
qed

text \<open>
  What the properties of the host hide is in no menu built after they arrive, at any depth: printing,
  saving, saving under another name, sharing, remote pictures, the menu of changes and the full-screen
  presentation, each by its own property.
\<close>

theorem hidden_items_in_no_menu:
  "free_of (hidden_ids (set_flags info w)) (fst (createMenu cf mc level ms (a\<lparr>a_wopi := set_flags info w\<rparr>)))"
  using create_items_free [of "([], False, a\<lparr>a_wopi := set_flags info w\<rparr>)" cf mc "Suc level" ms] free_of_trim
  by (auto simp: createMenu_def split: prod.split)

end
