(* ===== verification/Menus.thy ===== *)
theory Menus
  imports Wopi
begin

text \<open>
  The tables of \<open>control/Toolbar.js\<close> and the menus of \<open>control/Control.Menubar.js\<close>, as they are written there.
  The menus take the translation of texts, which the file calls while it is loaded; a name that is translated
  there is \<open>w\<close> of the text. What is proved of any menus in the theories of commands and of the host page is
  brought to these.
\<close>

section \<open>Tables\<close>

text \<open>Commands of context menus that the menu bar does not have, and whether they can be used.\<close>

definition whiteCommandList :: "(string \<times> bool) list" where
  "whiteCommandList =
   [(''.uno:Crop'', False), (''.uno:ExternalEdit'', False), (''.uno:ChangePicture'', False),
     (''.uno:SaveGraphic'', False), (''.uno:ToggleObjectBezierMode'', False), (''.uno:ToggleObjectRotateMode'', False),
     (''.uno:AddTextBox'', False), (''.uno:RemoveTextBox'', False), (''.uno:ObjectAlignLeft'', True),
     (''.uno:AlignCenter'', True), (''.uno:ObjectAlignRight'', True), (''.uno:AlignUp'', True),
     (''.uno:AlignMiddle'', True), (''.uno:AlignDown'', True), (''.uno:OutlineBullet'', True),
     (''.uno:RemoveBullets'', True), (''.uno:FrameDialog'', True), (''.uno:ObjectMenue?VerbID:short=-1'', False),
     (''.uno:EditHyperlink'', True), (''.uno:OpenHyperlinkOnCursor'', True), (''.uno:CopyHyperlinkLocation'', True),
     (''.uno:RemoveHyperlink'', True), (''.uno:CurrentFootnoteDialog'', True), (''.uno:SetAnchorToPage'', True),
     (''.uno:SetAnchorToPara'', True), (''.uno:SetAnchorAtChar'', True), (''.uno:SetAnchorToChar'', True),
     (''.uno:WrapOff'', True), (''.uno:WrapOn'', True), (''.uno:WrapLeft'', True), (''.uno:WrapRight'', True),
     (''.uno:WrapThrough'', True), (''.uno:WrapThroughTransparencyToggle'', True), (''.uno:WrapContour'', True),
     (''.uno:WrapAnchorOnly'', True), (''.uno:WrapIdeal'', True), (''.uno:TextWrap'', True),
     (''.uno:BringToFront'', True), (''.uno:ObjectForwardOne'', True), (''.uno:Forward'', True),
     (''.uno:ObjectBackOne'', True), (''.uno:Backward'', True), (''.uno:SendToBack'', True),
     (''.uno:BeforeObject'', True), (''.uno:BehindObject'', True), (''.uno:SetObjectToBackground'', True),
     (''.uno:SetObjectToForeground'', True), (''.uno:RotateRight'', True), (''.uno:RotateLeft'', True),
     (''.uno:Rotate180'', True), (''.uno:FlipVertical'', True), (''.uno:FlipHorizontal'', True),
     (''.uno:DefaultCharStyle'', True), (''.uno:EmphasisCharStyle'', True), (''.uno:StrongEmphasisCharStyle'', True),
     (''.uno:QuoteCharStyle'', True), (''.uno:SourceCharStyle'', True), (''.uno:TextBodyParaStyle'', True),
     (''.uno:Heading1ParaStyle'', True), (''.uno:Heading2ParaStyle'', True), (''.uno:Heading3ParaStyle'', True),
     (''.uno:PreformattedParaStyle'', True), (''.uno:BulletListStyle'', True), (''.uno:NumberListStyle'', True),
     (''.uno:AlphaListStyle'', True), (''.uno:AlphaLowListStyle'', True), (''.uno:RomanListStyle'', True),
     (''.uno:RomanLowListStyle'', True), (''.uno:PasteUnformatted'', True), (''.uno:SetOptimalRowHeight'', True),
     (''.uno:DistributeRows'', True), (''.uno:DistributeColumns'', True), (''.uno:HeadingRowsRepeat'', True),
     (''.uno:RowSplit'', True), (''.uno:MergeCells'', True), (''.uno:OriginalSize'', True),
     (''.uno:FitCellSize'', True), (''.uno:SetAnchorToCell'', True), (''.uno:SetAnchorToCellResize'', True),
     (''.uno:SetDefault'', True), (''.uno:EditCurrentRegion'', True), (''.uno:EditShapeHyperlink'', True),
     (''.uno:DeleteShapeHyperlink'', True)]"

text \<open>Pictures that are named otherwise than their commands, the commands in lower case.\<close>

definition iconAlias :: "(string \<times> string) list" where
  "iconAlias =
   [(''addprintarea'', ''inserttable''), (''addtextbox'', ''insertfixedtext''),
     (''anchormenu'', ''toggleanchortype''), (''arrangeframemenu'', ''bringtofront''),
     (''arrangemenu'', ''bringtofront''), (''autoformatmenu'', ''autocorrectdlg''),
     (''basicshapes.ellipse'', ''ellipse''), (''basicshapes'', ''basicshapes.diamond''),
     (''basicshapes.rectangle'', ''rect''), (''ellipsetoolbox'', ''ellipse''),
     (''linetoolbox'', ''freeline_unfilled''), (''rectangletoolbox'', ''rect''),
     (''basicshapes.round-rectangle'', ''rect_rounded''),
     (''basicshapes.parallelogram'', ''flowchartshapes.flowchart-data''), (''basicshapes.quadrat'', ''square''),
     (''basicshapes.circle'', ''circle''), (''basicshapes.circle-pie'', ''pie''),
     (''basicshapes.frame'', ''rect_unfilled''), (''symbolshapes.smiley'', ''symbolshapes''),
     (''arrowshapes.left-right-arrow'', ''arrowshapes''),
     (''calloutshapes.round-rectangular-callout'', ''calloutshapes''),
     (''flowchartshapes.flowchart-process'', ''square''),
     (''flowchartshapes.flowchart-alternate-process'', ''basicshapes.round-quadrat''),
     (''flowchartshapes.flowchart-manual-operation'', ''basicshapes.trapezoid''),
     (''flowchartshapes.flowchart-connector'', ''circle''),
     (''flowchartshapes.flowchart-extract'', ''basicshapes.isosceles-triangle''),
     (''flowchartshapes.flowchart-merge'', ''fontworkshapetype.fontwork-triangle-down''),
     (''flowchartshapes.flowchart-magnetic-disk'', ''basicshapes.can''), (''bulletliststyle'', ''defaultbullet''),
     (''changesmenu'', ''trackchanges''), (''charactermenu'', ''fontdialog''),
     (''centerpara'', ''alignhorizontalcenter''), (''cellverttop'', ''aligntop''),
     (''cellvertcenter'', ''alignverticalcenter''), (''cellvertbottom'', ''alignbottom''),
     (''commonalignleft'', ''alignleft''), (''commonalignhorizontalcenter'', ''alignhorizontalcenter''),
     (''commonalignright'', ''alignright''), (''commonalignjustified'', ''alignblock''),
     (''commonaligntop'', ''aligntop''), (''commonalignverticalcenter'', ''alignverticalcenter''),
     (''commonalignbottom'', ''alignbottom''), (''convertmenu'', ''bezierconvert''),
     (''convertinto3dlathefast'', ''convertinto3dlathe''), (''datapilotmenu'', ''datadatapilotrun''),
     (''defaultcellstyles'', ''defaultcharstyle''), (''deleteallnotes'', ''deleteallannotation''),
     (''deletenote'', ''deleteannotation''), (''deleteprintarea'', ''delete''), (''deleteslide'', ''deletepage''),
     (''duplicateslide'', ''duplicatepage''), (''drawtext'', ''text''), (''editprintarea'', ''editdoc''),
     (''editshapehyperlink'', ''edithyperlink''), (''deleteshapehyperlink'', ''removehyperlink''),
     (''openhyperlinkoncursor'', ''inserthyperlink''), (''fieldnames'', ''addfield''), (''flipmenu'', ''mirror''),
     (''fliphorizontal'', ''mirror''), (''flipvertical'', ''mirrorvert''),
     (''footnotecellstyles'', ''insertfootnote''), (''formatarea'', ''backgroundcolor''),
     (''formatbulletsmenu'', ''defaultbullet''), (''formatimagemenu'', ''graphicdialog''),
     (''formatobjectmenu'', ''text''), (''formatspacingmenu'', ''spacepara15''),
     (''formatstylesmenu'', ''colorscaleformatdialog''), (''functiondialog'', ''dbviewfunctions''),
     (''conditionalformatmenu'', ''colorscaleformatdialog''), (''formattextmenu'', ''fontdialog''),
     (''gridmenu'', ''gridvisible''), (''groupmenu'', ''group''), (''heading1cellstyles'', ''heading1parastyle''),
     (''heading2cellstyles'', ''heading2parastyle''), (''hyperlinkdialog'', ''inserthyperlink''),
     (''indexesmenu'', ''insertindexesentry''), (''insert'', ''insertspreadsheet''),
     (''insertannotation'', ''shownote''), (''insertauthorfield'', ''dbviewaliases''),
     (''insertcurrentdate'', ''datefield''), (''insertcurrenttime'', ''timefield''),
     (''insertfootnotemenu'', ''insertfootnote''), (''insertrowbreak'', ''insertpagebreak''),
     (''insertcell'', ''insertcellsright''), (''insertcolumnsmenu'', ''insertcolumns''),
     (''insertdatefield'', ''datefield''), (''insertdatefieldfix'', ''datefield''),
     (''insertdatefieldvar'', ''datefield''), (''insertfield'', ''addfield''),
     (''insertheaderfootermenu'', ''editheaderandfooter''), (''insertobjectchart'', ''drawchart''),
     (''insertslide'', ''insertpage''), (''insertslidefield'', ''insertpagenumberfield''),
     (''insertslidesfield'', ''insertpagecountfield''), (''insertslidetitlefield'', ''inserttitlefield''),
     (''insertrowsmenu'', ''insertrows''), (''insertframemenu'', ''insertframe''),
     (''inserttimefield'', ''timefield''), (''inserttimefieldfix'', ''timefield''),
     (''inserttimefieldvar'', ''timefield''), (''justifypara'', ''alignblock''),
     (''languagemenu'', ''managelanguage''), (''leftpara'', ''alignleft''), (''mirrorhorz'', ''mirror''),
     (''mirrormenu'', ''rotateleft''), (''movepagedown'', ''downsearch''), (''movepageup'', ''upsearch''),
     (''moveslidefirst'', ''movepagefirst''), (''moveslidelast'', ''movepagelast''), (''moveslideup'', ''upsearch''),
     (''moveslidedown'', ''downsearch''), (''firstslide'', ''firstpage''), (''lastslide'', ''lastrecord''),
     (''previousslide'', ''prevrecord''), (''nextslide'', ''nextrecord''), (''namegroup'', ''definename''),
     (''notecellstyles'', ''showannotations''), (''numberformatcurrency'', ''currencyfield''),
     (''numberformattime'', ''timefield''), (''numberingmenu'', ''outlinebullet''),
     (''numberliststyle'', ''defaultnumbering''), (''objectalign'', ''objectalignleft''),
     (''objectmirrorhorizontal'', ''mirror''), (''objectmirrorvertical'', ''mirrorvert''),
     (''objecttitledescription'', ''insertcaptiondialog''), (''outlineup'', ''moveup''),
     (''outlinedown'', ''movedown''), (''outlineright'', ''decrementlevel''), (''outlineleft'', ''decrementindent''),
     (''pageformatdialog'', ''pagedialog''), (''paragraphmenu'', ''paragraphdialog''),
     (''pastespecialmenu'', ''pastespecial''), (''previoustrackedchange'', ''prevrecord''),
     (''nexttrackedchange'', ''nextrecord''), (''repaginate'', ''insertpagenumberfield''),
     (''recalcpivottable'', ''calculate''), (''rightpara'', ''alignright''), (''rotateflipmenu'', ''rotateleft''),
     (''savegraphic'', ''save''), (''setdefault'', ''resetattributes''), (''setobjecttoforeground'', ''bringtofront''),
     (''setobjecttobackground'', ''sendtoback''), (''shapeslinemenu'', ''line''), (''shapesmenu'', ''insertdraw''),
     (''showgraphics'', ''graphic''), (''showruler'', ''ruler''), (''showtrackedchanges'', ''addwatch''),
     (''slidesetup'', ''pagesetup''), (''spelldialog'', ''spelling''), (''spellingandgrammardialog'', ''spelling''),
     (''tableautofitmenu'', ''setoptimalrowheight''), (''tableinsertmenu'', ''insertrowsafter''),
     (''tabledeletemenu'', ''deletetable''), (''tableselectmenu'', ''selecttable''), (''textalign'', ''alignblock''),
     (''textattributes'', ''fontdialog''), (''updateall'', ''reload''), (''updateallindexes'', ''insertmultiindex''),
     (''updatealllinks'', ''inserthyperlink''), (''updatecharts'', ''drawchart''),
     (''updatecurindex'', ''insertindexesentry''), (''updatefields'', ''addfield''), (''updatemenu'', ''reload''),
     (''wrapmenu'', ''wrapon''), (''zoomminus'', ''zoomout''), (''zoomplus'', ''zoomin'')]"

text \<open>Pictures of the layouts of slides.\<close>

definition resourceIcon :: "(string \<times> string) list" where
  "resourceIcon =
   [(''.uno:AssignLayout?WhatLayout:long=20'', ''layout_empty''),
     (''.uno:AssignLayout?WhatLayout:long=19'', ''layout_head01''),
     (''.uno:AssignLayout?WhatLayout:long=0'', ''layout_head03''),
     (''.uno:AssignLayout?WhatLayout:long=1'', ''layout_head02''),
     (''.uno:AssignLayout?WhatLayout:long=32'', ''layout_textonly''),
     (''.uno:AssignLayout?WhatLayout:long=3'', ''layout_head02a''),
     (''.uno:AssignLayout?WhatLayout:long=12'', ''layout_head03c''),
     (''.uno:AssignLayout?WhatLayout:long=15'', ''layout_head03b''),
     (''.uno:AssignLayout?WhatLayout:long=14'', ''layout_head02b''),
     (''.uno:AssignLayout?WhatLayout:long=16'', ''layout_head03a''),
     (''.uno:AssignLayout?WhatLayout:long=18'', ''layout_head04''),
     (''.uno:AssignLayout?WhatLayout:long=34'', ''layout_head06''),
     (''.uno:AssignLayout?WhatLayout:long=28'', ''layout_vertical01''),
     (''.uno:AssignLayout?WhatLayout:long=27'', ''layout_vertical02''),
     (''.uno:AssignLayout?WhatLayout:long=29'', ''layout_head02''),
     (''.uno:AssignLayout?WhatLayout:long=30'', ''layout_head02a'')]"

section \<open>Menus\<close>

text \<open>The kinds of entries. Others are written out.\<close>

definition bar_line :: mitem where
  "bar_line = MItem None None None (Some ''--'') None None None None False None"

definition uno_item :: "string \<Rightarrow> mitem" where
  "uno_item u = MItem None (Some u) None None None None None None False None"

definition uno_key :: "string \<Rightarrow> string \<Rightarrow> mitem" where
  "uno_key u h = MItem None (Some u) None None (Some h) None None None False None"

definition action :: "string \<Rightarrow> string \<Rightarrow> mitem" where
  "action n k = MItem (Some n) None (Some k) (Some ''action'') None None None None False None"

definition action_key :: "string \<Rightarrow> string \<Rightarrow> string \<Rightarrow> mitem" where
  "action_key n k h = MItem (Some n) None (Some k) (Some ''action'') (Some h) None None None False None"

definition menu :: "string \<Rightarrow> mitem list \<Rightarrow> mitem" where
  "menu n ms = MItem (Some n) None None (Some ''menu'') None None None None False (Some ms)"

definition uno_menu :: "string \<Rightarrow> mitem list \<Rightarrow> mitem" where
  "uno_menu u ms = MItem None (Some u) None (Some ''menu'') None None None None False (Some ms)"

definition id_menu :: "string \<Rightarrow> string \<Rightarrow> mitem list \<Rightarrow> mitem" where
  "id_menu n k ms = MItem (Some n) None (Some k) (Some ''menu'') None None None None False (Some ms)"

lemmas entry_defs = bar_line_def uno_item_def uno_key_def action_def action_key_def menu_def uno_menu_def id_menu_def

subsection \<open>Text documents\<close>

definition text_file_menu :: "(string \<Rightarrow> string) \<Rightarrow> mitem" where
  "text_file_menu w = id_menu ''.uno:PickList'' ''file''
       [action_key ''.uno:Save'' ''save'' ''Ctrl+S'',
        action ''.uno:SaveAs'' ''saveas'',
        MItem (Some (w ''Share...'')) None (Some ''shareas'') (Some ''action'') None None None (Some ''.uno:ShareDocument'')
    False None,
        action_key ''.uno:Print'' ''print'' ''Ctrl+P'',
        action (w ''See revision history'') ''rev-history'',
        id_menu (w ''Download as'') ''downloadas''
          [action (w ''PDF Document (.pdf)'') ''downloadas-pdf'',
           action (w ''TEXT Document (.txt)'') ''downloadas-txt'',
           action (w ''HTML Document (.html)'') ''downloadas-html'',
           action (w ''ODF text document (.odt)'') ''downloadas-odt'',
           action (w ''Word 2003 Document (.doc)'') ''downloadas-doc'',
           action (w ''Word Document (.docx)'') ''downloadas-docx'',
           action (w ''Rich Text (.rtf)'') ''downloadas-rtf''],
        bar_line,
        action ''.uno:CloseDoc'' ''closedocument'']"

definition text_edit_menu :: "(string \<Rightarrow> string) \<Rightarrow> mitem" where
  "text_edit_menu w = id_menu ''.uno:EditMenu'' ''Edit''
       [uno_key ''.uno:Undo'' ''Ctrl+Z'',
        uno_key ''.uno:Redo'' ''Ctrl+Y'',
        action (w ''Repair'') ''repair'',
        bar_line,
        uno_key ''.uno:Cut'' ''Ctrl+X'',
        uno_key ''.uno:Copy'' ''Ctrl+C'',
        uno_key ''.uno:Paste'' ''Ctrl+V'',
        uno_key ''.uno:SelectAll'' ''Ctrl+A'',
        bar_line,
        uno_key ''.uno:SearchDialog'' ''Ctrl+H'',
        bar_line,
        id_menu ''.uno:ChangesMenu'' ''changesmenu''
          [uno_item ''.uno:TrackChanges'',
           uno_item ''.uno:ShowTrackedChanges'',
           bar_line,
           uno_item ''.uno:AcceptTrackedChanges'',
           uno_item ''.uno:AcceptAllTrackedChanges'',
           uno_item ''.uno:RejectAllTrackedChanges'',
           uno_item ''.uno:PreviousTrackedChange'',
           uno_item ''.uno:NextTrackedChange'']]"

definition text_view_menu :: mitem where
  "text_view_menu = id_menu ''.uno:ViewMenu'' ''view''
       [action ''.uno:FullScreen'' ''fullscreen'',
        bar_line,
        MItem (Some ''Zoom In'') None (Some ''zoomin'') (Some ''action'') None None None (Some ''.uno:ZoomPlus'') False None,
        MItem (Some ''Zoom Out'') None (Some ''zoomout'') (Some ''action'') None None None (Some ''.uno:ZoomMinus'') False None,
        action ''.uno:Zoom100Percent'' ''zoomreset'',
        bar_line,
        uno_key ''.uno:ControlCodes'' ''Ctrl+F10'']"

definition text_insert_menu :: "(string \<Rightarrow> string) \<Rightarrow> mitem" where
  "text_insert_menu w = id_menu ''.uno:InsertMenu'' ''insert''
       [uno_key ''.uno:InsertPagebreak'' ''Ctrl+Enter'',
        uno_key ''.uno:InsertColumnBreak'' ''Ctrl+Shift+Enter'',
        bar_line,
        action (w ''Local Image...'') ''insertgraphic'',
        action ''.uno:InsertGraphic'' ''insertgraphicremote'',
        action_key ''.uno:InsertAnnotation'' ''insertcomment'' ''Ctrl+Alt+C'',
        uno_item ''.uno:DrawText'',
        uno_item ''.uno:InsertObjectChart'',
        bar_line,
        uno_key ''.uno:HyperlinkDialog'' ''Ctrl+K'',
        uno_item ''.uno:InsertBookmark'',
        bar_line,
        uno_item ''.uno:InsertSymbol'',
        MItem (Some (w ''Horizontal Line'')) (Some ''.uno:HorizontalLine'') None None None None None None False None,
        menu ''.uno:FormattingMarkMenu''
          [uno_item ''.uno:InsertNonBreakingSpace'',
           uno_item ''.uno:InsertHardHyphen'',
           uno_item ''.uno:InsertSoftHyphen'',
           uno_item ''.uno:InsertZWSP'',
           uno_item ''.uno:InsertZWNBSP'',
           uno_item ''.uno:InsertLRM'',
           uno_item ''.uno:InsertRLM''],
        bar_line,
        uno_key ''.uno:InsertFootnote'' ''Ctrl+Alt+F'',
        uno_key ''.uno:InsertEndnote'' ''Ctrl+Alt+D'',
        menu ''.uno:IndexesMenu''
          [uno_item ''.uno:InsertIndexesEntry'',
           uno_item ''.uno:InsertAuthoritiesEntry'',
           uno_item ''.uno:InsertMultiIndex''],
        bar_line,
        menu ''.uno:InsertField''
          [uno_item ''.uno:InsertPageNumberField'',
           uno_item ''.uno:InsertPageCountField'',
           uno_item ''.uno:InsertDateField'',
           uno_item ''.uno:InsertTimeField'',
           uno_item ''.uno:InsertTitleField'',
           uno_item ''.uno:InsertAuthorField'',
           uno_item ''.uno:InsertTopicField''],
        menu ''.uno:InsertHeaderFooterMenu''
          [menu ''.uno:InsertPageHeader''
             [MItem (Some (w ''All'')) (Some ''.uno:InsertPageHeader?'') (Some ''insertheader'') None None None (Some
    ''_ALL_'') None True None],
           menu ''.uno:InsertPageFooter''
             [MItem (Some (w ''All'')) (Some ''.uno:InsertPageFooter?'') (Some ''insertfooter'') None None None (Some
    ''_ALL_'') None True None]]]"

definition text_format_menu :: mitem where
  "text_format_menu = menu ''.uno:FormatMenu''
       [menu ''.uno:FormatTextMenu''
          [uno_key ''.uno:Bold'' ''Ctrl+B'',
           uno_key ''.uno:Italic'' ''Ctrl+I'',
           uno_key ''.uno:Underline'' ''Ctrl+U'',
           uno_key ''.uno:UnderlineDouble'' ''Ctrl+D'',
           uno_key ''.uno:Strikeout'' ''Ctrl+Alt+5'',
           uno_item ''.uno:Overline'',
           bar_line,
           uno_key ''.uno:SuperScript'' ''Ctrl+Shift+P'',
           uno_key ''.uno:SubScript'' ''Ctrl+Shift+B'',
           uno_item ''.uno:SmallCaps'',
           bar_line,
           uno_item ''.uno:Shadowed'',
           uno_item ''.uno:OutlineFont'',
           bar_line,
           uno_item ''.uno:Grow'',
           uno_item ''.uno:Shrink'',
           bar_line,
           uno_item ''.uno:ChangeCaseToUpper'',
           uno_item ''.uno:ChangeCaseToLower'',
           uno_item ''.uno:ChangeCaseRotateCase'',
           bar_line,
           uno_item ''.uno:ChangeCaseToSentenceCase'',
           uno_item ''.uno:ChangeCaseToTitleCase'',
           uno_item ''.uno:ChangeCaseToToggleCase''],
        menu ''.uno:FormatSpacingMenu''
          [uno_item ''.uno:SpacePara1'',
           uno_item ''.uno:SpacePara15'',
           uno_item ''.uno:SpacePara2'',
           bar_line,
           uno_item ''.uno:ParaspaceIncrease'',
           uno_item ''.uno:ParaspaceDecrease'',
           bar_line,
           uno_item ''.uno:IncrementIndent'',
           uno_item ''.uno:DecrementIndent''],
        menu ''.uno:TextAlign''
          [uno_key ''.uno:CommonAlignLeft'' ''Ctrl+L'',
           uno_key ''.uno:CommonAlignHorizontalCenter'' ''Ctrl+E'',
           uno_key ''.uno:CommonAlignRight'' ''Ctrl+R'',
           uno_key ''.uno:CommonAlignJustified'' ''Ctrl+J'',
           bar_line,
           uno_item ''.uno:CommonAlignTop'',
           uno_item ''.uno:CommonAlignVerticalCenter'',
           uno_item ''.uno:CommonAlignBottom''],
        menu ''.uno:FormatBulletsMenu''
          [uno_item ''.uno:DefaultBullet'',
           uno_item ''.uno:DefaultNumbering'',
           bar_line,
           uno_item ''.uno:DecrementLevel'',
           uno_item ''.uno:IncrementLevel'',
           uno_item ''.uno:DecrementSubLevels'',
           uno_item ''.uno:IncrementSubLevels'',
           bar_line,
           uno_item ''.uno:MoveDown'',
           uno_item ''.uno:MoveUp'',
           uno_item ''.uno:MoveDownSubItems'',
           uno_item ''.uno:MoveUpSubItems'',
           bar_line,
           uno_item ''.uno:InsertNeutralParagraph'',
           uno_item ''.uno:NumberingStart'',
           bar_line,
           uno_item ''.uno:JumpDownThisLevel'',
           uno_item ''.uno:JumpUpThisLevel'',
           uno_item ''.uno:ContinueNumbering''],
        bar_line,
        uno_item ''.uno:FontDialog'',
        uno_item ''.uno:ParagraphDialog'',
        uno_item ''.uno:OutlineBullet'',
        uno_item ''.uno:PageDialog'',
        bar_line,
        uno_item ''.uno:TransformDialog'',
        uno_item ''.uno:FormatLine'',
        uno_item ''.uno:FormatArea'',
        uno_menu ''.uno:GroupMenu''
          [uno_key ''.uno:FormatGroup'' ''Ctrl+Shift+G'',
           uno_item ''.uno:FormatUngroup'',
           uno_item ''.uno:EnterGroup'',
           uno_item ''.uno:LeaveGroup''],
        bar_line,
        uno_item ''.uno:FormatColumns'',
        bar_line,
        uno_item ''.uno:FormatPaintbrush'',
        uno_key ''.uno:ResetAttributes'' ''Ctrl+M'']"

definition text_table_menu :: mitem where
  "text_table_menu = menu ''.uno:TableMenu''
       [menu ''.uno:TableInsertMenu''
          [uno_item ''.uno:InsertRowsBefore'',
           uno_item ''.uno:InsertRowsAfter'',
           bar_line,
           uno_item ''.uno:InsertColumnsBefore'',
           uno_item ''.uno:InsertColumnsAfter''],
        menu ''.uno:TableDeleteMenu''
          [uno_item ''.uno:DeleteRows'',
           uno_item ''.uno:DeleteColumns'',
           uno_item ''.uno:DeleteTable''],
        menu ''.uno:TableSelectMenu''
          [uno_item ''.uno:SelectTable'',
           uno_item ''.uno:EntireRow'',
           uno_item ''.uno:EntireColumn'',
           uno_item ''.uno:EntireCell''],
        uno_item ''.uno:MergeCells'',
        bar_line,
        uno_item ''.uno:TableDialog'']"

definition text_tools_menu :: "(string \<Rightarrow> string) \<Rightarrow> mitem" where
  "text_tools_menu w = id_menu ''.uno:ToolsMenu'' ''tools''
       [uno_item ''.uno:SpellingAndGrammarDialog'',
        uno_item ''.uno:SpellOnline'',
        menu ''.uno:LanguageMenu''
          [menu ''.uno:SetLanguageSelectionMenu''
             [MItem (Some (w ''None (Do not check spelling)'')) (Some
    ''.uno:LanguageStatus?Language:string=Current_LANGUAGE_NONE'') (Some ''noneselection'') None None None None None False
    None],
           menu ''.uno:SetLanguageParagraphMenu''
             [MItem (Some (w ''None (Do not check spelling)'')) (Some
    ''.uno:LanguageStatus?Language:string=Paragraph_LANGUAGE_NONE'') (Some ''noneparagraph'') None None None None None False
    None],
           menu ''.uno:SetLanguageAllTextMenu''
             [MItem (Some (w ''None (Do not check spelling)'')) (Some
    ''.uno:LanguageStatus?Language:string=Default_LANGUAGE_NONE'') (Some ''nonelanguage'') None None None None None False
    None]],
        uno_item ''.uno:WordCountDialog'',
        bar_line,
        menu ''.uno:AutoFormatMenu''
          [uno_item ''.uno:OnlineAutoFormat''],
        bar_line,
        menu (w ''Binding line'')
          [MItem (Some (w ''Insert on the left side of page'')) None (Some ''macro:///OxOOL.BindingLine.insertLeft()'') None
    None None None None False None,
           MItem (Some (w ''Insert on the right side of page'')) None (Some ''macro:///OxOOL.BindingLine.insertRight()'')
    None None None None None False None,
           MItem (Some (w ''Insert on the top side of page'')) None (Some ''macro:///OxOOL.BindingLine.insertTop()'') None
    None None None None False None,
           MItem (Some (w ''Insert on the bottom side of page'')) None (Some ''macro:///OxOOL.BindingLine.insertBottom()'')
    None None None None None False None,
           bar_line,
           MItem (Some (w ''Customize'')) None (Some ''dialog:BindingLineDialog'') None None None None None False None]]"

definition text_help_menu :: "(string \<Rightarrow> string) \<Rightarrow> mitem" where
  "text_help_menu w = id_menu ''.uno:HelpMenu'' ''help''
       [MItem (Some (w ''Keyboard shortcuts'')) None (Some ''keyboard-shortcuts'') (Some ''action'') (Some ''Ctel+Shift+?'')
    None None (Some ''.uno:HelpIndex'') False None,
        MItem (Some (w ''About'')) None (Some ''about'') (Some ''action'') None None None (Some ''.uno:About'') False None]"

definition text_menus :: "(string \<Rightarrow> string) \<Rightarrow> mitem list" where
  "text_menus w = [text_file_menu w, text_edit_menu w, text_view_menu, text_insert_menu w, text_format_menu, text_table_menu,
    text_tools_menu w, text_help_menu w]"

subsection \<open>Presentations and drawings\<close>

definition presentation_file_menu :: "(string \<Rightarrow> string) \<Rightarrow> mitem" where
  "presentation_file_menu w = id_menu ''.uno:PickList'' ''file''
       [action_key ''.uno:Save'' ''save'' ''Ctrl+S'',
        action ''.uno:SaveAs'' ''saveas'',
        MItem (Some (w ''Share...'')) None (Some ''shareas'') (Some ''action'') None None None (Some ''.uno:ShareDocument'')
    False None,
        action_key ''.uno:Print'' ''print'' ''Ctrl+P'',
        action (w ''See revision history'') ''rev-history'',
        id_menu (w ''Download as'') ''downloadas''
          [action (w ''PDF Document (.pdf)'') ''downloadas-pdf'',
           action (w ''HTML Document (.html)'') ''downloadas-html'',
           action (w ''ODF presentation (.odp)'') ''downloadas-odp'',
           action (w ''PowerPoint 2003 Presentation (.ppt)'') ''downloadas-ppt'',
           action (w ''PowerPoint Presentation (.pptx)'') ''downloadas-pptx''],
        bar_line,
        action ''.uno:CloseDoc'' ''closedocument'']"

definition presentation_edit_menu :: "(string \<Rightarrow> string) \<Rightarrow> mitem" where
  "presentation_edit_menu w = menu ''.uno:EditMenu''
       [uno_key ''.uno:Undo'' ''Ctrl+Z'',
        uno_key ''.uno:Redo'' ''Ctrl+Y'',
        action (w ''Repair'') ''repair'',
        bar_line,
        uno_key ''.uno:Cut'' ''Ctrl+X'',
        uno_key ''.uno:Copy'' ''Ctrl+C'',
        uno_key ''.uno:Paste'' ''Ctrl+V'',
        uno_key ''.uno:SelectAll'' ''Ctrl+A'',
        bar_line,
        uno_key ''.uno:SearchDialog'' ''Ctrl+H'']"

definition presentation_view_menu :: mitem where
  "presentation_view_menu = id_menu ''.uno:ViewMenu'' ''view''
       [action ''.uno:FullScreen'' ''fullscreen'',
        bar_line,
        action ''.uno:ZoomPlus'' ''zoomin'',
        action ''.uno:ZoomMinus'' ''zoomout'',
        action ''.uno:Zoom100Percent'' ''zoomreset'']"

definition presentation_insert_menu :: "(string \<Rightarrow> string) \<Rightarrow> mitem" where
  "presentation_insert_menu w = menu ''.uno:InsertMenu''
       [action (w ''Local Image...'') ''insertgraphic'',
        action ''.uno:InsertGraphic'' ''insertgraphicremote'',
        action_key ''.uno:InsertAnnotation'' ''insertcomment'' ''Ctrl+Alt+C'',
        uno_item ''.uno:Text'',
        uno_item ''.uno:InsertObjectChart'',
        bar_line,
        uno_key ''.uno:HyperlinkDialog'' ''Ctrl+K'',
        bar_line,
        uno_item ''.uno:InsertSymbol'']"

definition presentation_format_menu :: mitem where
  "presentation_format_menu = menu ''.uno:FormatMenu''
       [uno_item ''.uno:FontDialog'',
        uno_item ''.uno:ParagraphDialog'',
        uno_item ''.uno:PageSetup'',
        bar_line,
        uno_item ''.uno:TransformDialog'',
        uno_item ''.uno:FormatLine'',
        uno_item ''.uno:FormatArea'',
        bar_line,
        uno_item ''.uno:OutlineBullet'',
        bar_line,
        uno_menu ''.uno:GroupMenu''
          [uno_key ''.uno:FormatGroup'' ''Ctrl+Shift+G'',
           uno_item ''.uno:FormatUngroup'',
           uno_item ''.uno:EnterGroup'',
           uno_item ''.uno:LeaveGroup'']]"

definition presentation_table_menu :: mitem where
  "presentation_table_menu = uno_menu ''.uno:TableMenu''
       [uno_menu ''.uno:TableInsertMenu''
          [uno_item ''.uno:InsertRowsBefore'',
           uno_item ''.uno:InsertRowsAfter'',
           bar_line,
           uno_item ''.uno:InsertColumnsBefore'',
           uno_item ''.uno:InsertColumnsAfter''],
        uno_menu ''.uno:TableDeleteMenu''
          [uno_item ''.uno:DeleteRows'',
           uno_item ''.uno:DeleteColumns''],
        uno_item ''.uno:MergeCells'']"

definition presentation_slide_menu :: mitem where
  "presentation_slide_menu = menu ''.uno:SlideMenu''
       [action ''.uno:InsertSlide'' ''insertpage'',
        action ''.uno:DuplicateSlide'' ''duplicatepage'',
        action ''.uno:DeleteSlide'' ''deletepage'',
        MItem None None (Some ''fullscreen-presentation-separator'') (Some ''--'') None None None None False None,
        action_key ''.uno:Presentation'' ''fullscreen-presentation'' ''F5'',
        action_key ''.uno:PresentationCurrentSlide'' ''presentation-currentslide'' ''Shift+F5'']"

definition presentation_tools_menu :: "(string \<Rightarrow> string) \<Rightarrow> mitem" where
  "presentation_tools_menu w = id_menu ''.uno:ToolsMenu'' ''tools''
       [uno_item ''.uno:SpellOnline'',
        menu ''.uno:LanguageMenu''
          [MItem (Some (w ''None (Do not check spelling)'')) (Some
    ''.uno:LanguageStatus?Language:string=Default_LANGUAGE_NONE'') (Some ''nonelanguage'') None None None None None False
    None]]"

definition presentation_help_menu :: "(string \<Rightarrow> string) \<Rightarrow> mitem" where
  "presentation_help_menu w = id_menu ''.uno:HelpMenu'' ''help''
       [MItem (Some (w ''Keyboard shortcuts'')) None (Some ''keyboard-shortcuts'') (Some ''action'') (Some ''Ctrl+Shift+?'')
    None None (Some ''.uno:HelpIndex'') False None,
        MItem (Some (w ''About'')) None (Some ''about'') (Some ''action'') None None None (Some ''.uno:About'') False None]"

definition presentation_menus :: "(string \<Rightarrow> string) \<Rightarrow> mitem list" where
  "presentation_menus w = [presentation_file_menu w, presentation_edit_menu w, presentation_view_menu,
    presentation_insert_menu w, presentation_format_menu, presentation_table_menu, presentation_slide_menu,
    presentation_tools_menu w, presentation_help_menu w]"

subsection \<open>Spreadsheets\<close>

definition spreadsheet_file_menu :: "(string \<Rightarrow> string) \<Rightarrow> mitem" where
  "spreadsheet_file_menu w = id_menu ''.uno:PickList'' ''file''
       [action_key ''.uno:Save'' ''save'' ''Ctrl+S'',
        action ''.uno:SaveAs'' ''saveas'',
        action (w ''Share...'') ''shareas'',
        action_key ''.uno:Print'' ''print'' ''Ctrl+P'',
        action (w ''See revision history'') ''rev-history'',
        id_menu (w ''Download as'') ''downloadas''
          [action (w ''HTML Document (.html)'') ''downloadas-html'',
           action (w ''PDF Document (.pdf)'') ''downloadas-pdf'',
           action (w ''ODF spreadsheet (.ods)'') ''downloadas-ods'',
           action (w ''Excel 2003 Spreadsheet (.xls)'') ''downloadas-xls'',
           action (w ''Excel Spreadsheet (.xlsx)'') ''downloadas-xlsx'',
           action (w ''CSV (.csv)'') ''downloadas-csv''],
        bar_line,
        action ''.uno:CloseDoc'' ''closedocument'']"

definition spreadsheet_edit_menu :: "(string \<Rightarrow> string) \<Rightarrow> mitem" where
  "spreadsheet_edit_menu w = menu ''.uno:EditMenu''
       [uno_key ''.uno:Undo'' ''Ctrl+Z'',
        uno_key ''.uno:Redo'' ''Ctrl+Y'',
        action (w ''Repair'') ''repair'',
        bar_line,
        uno_key ''.uno:Cut'' ''Ctrl+X'',
        uno_key ''.uno:Copy'' ''Ctrl+C'',
        uno_key ''.uno:Paste'' ''Ctrl+V'',
        uno_item ''.uno:SelectAll'',
        bar_line,
        uno_key ''.uno:SearchDialog'' ''Ctrl+H'']"

definition spreadsheet_view_menu :: mitem where
  "spreadsheet_view_menu = id_menu ''.uno:ViewMenu'' ''view''
       [action ''.uno:FullScreen'' ''fullscreen'',
        bar_line,
        action ''.uno:ZoomPlus'' ''zoomin'',
        action ''.uno:ZoomMinus'' ''zoomout'',
        action ''.uno:Zoom100Percent'' ''zoomreset'']"

definition spreadsheet_insert_menu :: "(string \<Rightarrow> string) \<Rightarrow> mitem" where
  "spreadsheet_insert_menu w = menu ''.uno:InsertMenu''
       [action (w ''Local Image...'') ''insertgraphic'',
        action ''.uno:InsertGraphic'' ''insertgraphicremote'',
        uno_item ''.uno:InsertObjectChart'',
        action_key ''.uno:InsertAnnotation'' ''insertcomment'' ''Ctrl+Alt+C'',
        uno_item ''.uno:DrawText'',
        bar_line,
        uno_key ''.uno:HyperlinkDialog'' ''Ctrl+K'',
        uno_item ''.uno:InsertSymbol'',
        uno_item ''.uno:EditHeaderAndFooter'']"

definition spreadsheet_format_menu :: mitem where
  "spreadsheet_format_menu = menu ''.uno:FormatMenu''
       [uno_item ''.uno:FormatPaintbrush'',
        uno_key ''.uno:ResetAttributes'' ''Ctrl+M'',
        uno_item ''.uno:FormatCellDialog'',
        uno_item ''.uno:PageFormatDialog'',
        bar_line,
        uno_item ''.uno:TransformDialog'',
        uno_item ''.uno:FormatLine'',
        uno_item ''.uno:FormatArea'',
        uno_menu ''.uno:GroupMenu''
          [uno_key ''.uno:FormatGroup'' ''Ctrl+Shift+G'',
           uno_item ''.uno:FormatUngroup'',
           uno_item ''.uno:EnterGroup'',
           uno_item ''.uno:LeaveGroup'']]"

definition spreadsheet_sheet_menu :: mitem where
  "spreadsheet_sheet_menu = menu ''.uno:SheetMenu''
       [menu ''.uno:InsertRowsMenu''
          [uno_item ''.uno:InsertRowsBefore'',
           uno_item ''.uno:InsertRowsAfter''],
        menu ''.uno:InsertColumnsMenu''
          [uno_item ''.uno:InsertColumnsBefore'',
           uno_item ''.uno:InsertColumnsAfter''],
        menu ''.uno:InsertBreakMenu''
          [uno_item ''.uno:InsertRowBreak'',
           uno_item ''.uno:InsertColumnBreak''],
        bar_line,
        uno_item ''.uno:DeleteRows'',
        uno_item ''.uno:DeleteColumns'',
        menu ''.uno:DelBreakMenu''
          [uno_item ''.uno:DeleteRowbreak'',
           uno_item ''.uno:DeleteColumnbreak'']]"

definition spreadsheet_data_menu :: mitem where
  "spreadsheet_data_menu = menu ''.uno:DataMenu''
       [uno_item ''.uno:DataSort'',
        uno_item ''.uno:SortAscending'',
        uno_item ''.uno:SortDescending'',
        uno_item ''.uno:Validation'',
        bar_line,
        uno_item ''.uno:DataFilterAutoFilter'',
        menu ''.uno:FilterMenu''
          [uno_item ''.uno:DataFilterStandardFilter'',
           uno_item ''.uno:DataFilterSpecialFilter'',
           bar_line,
           uno_item ''.uno:DataFilterRemoveFilter'',
           uno_item ''.uno:DataFilterHideAutoFilter''],
        bar_line,
        menu ''.uno:GroupOutlineMenu''
          [MItem (Some ''.uno:Group'') None (Some ''dialog:RowOrColGroup'') None None None None None False None,
           uno_item ''.uno:Ungroup'',
           bar_line,
           uno_item ''.uno:AutoOutline'',
           uno_item ''.uno:ClearOutline'',
           bar_line,
           uno_item ''.uno:HideDetail'',
           uno_item ''.uno:ShowDetail''],
        bar_line,
        uno_item ''.uno:DataDataPilotRun'']"

definition spreadsheet_tools_menu :: "(string \<Rightarrow> string) \<Rightarrow> mitem" where
  "spreadsheet_tools_menu w = id_menu ''.uno:ToolsMenu'' ''tools''
       [uno_item ''.uno:SpellOnline'',
        menu ''.uno:LanguageMenu''
          [MItem (Some (w ''None (Do not check spelling)'')) (Some
    ''.uno:LanguageStatus?Language:string=Default_LANGUAGE_NONE'') (Some ''nonelanguage'') None None None None None False
    None]]"

definition spreadsheet_help_menu :: "(string \<Rightarrow> string) \<Rightarrow> mitem" where
  "spreadsheet_help_menu w = id_menu ''.uno:HelpMenu'' ''help''
       [MItem (Some (w ''Keyboard shortcuts'')) None (Some ''keyboard-shortcuts'') (Some ''action'') (Some ''Ctrl+Shift+?'')
    None None (Some ''.uno:HelpIndex'') False None,
        MItem (Some (w ''About'')) None (Some ''about'') (Some ''action'') None None None (Some ''.uno:About'') False None]"

definition spreadsheet_menus :: "(string \<Rightarrow> string) \<Rightarrow> mitem list" where
  "spreadsheet_menus w = [spreadsheet_file_menu w, spreadsheet_edit_menu w, spreadsheet_view_menu, spreadsheet_insert_menu w,
    spreadsheet_format_menu, spreadsheet_sheet_menu, spreadsheet_data_menu, spreadsheet_tools_menu w, spreadsheet_help_menu w]"

definition document_menus :: "(string \<Rightarrow> string) \<Rightarrow> (string, mitem list) obj" where
  "document_menus w = [(''text'', text_menus w), (''presentation'', presentation_menus w), (''spreadsheet'', spreadsheet_menus w)]"

lemmas text_menu_defs = entry_defs
  text_file_menu_def text_edit_menu_def text_view_menu_def text_insert_menu_def text_format_menu_def
  text_table_menu_def text_tools_menu_def text_help_menu_def text_menus_def

lemmas presentation_menu_defs = entry_defs
  presentation_file_menu_def presentation_edit_menu_def presentation_view_menu_def presentation_insert_menu_def
  presentation_format_menu_def presentation_table_menu_def presentation_slide_menu_def presentation_tools_menu_def
  presentation_help_menu_def presentation_menus_def

lemmas spreadsheet_menu_defs = entry_defs
  spreadsheet_file_menu_def spreadsheet_edit_menu_def spreadsheet_view_menu_def spreadsheet_insert_menu_def
  spreadsheet_format_menu_def spreadsheet_sheet_menu_def spreadsheet_data_menu_def spreadsheet_tools_menu_def
  spreadsheet_help_menu_def spreadsheet_menus_def


section \<open>Facts about these menus\<close>

text \<open>An entry that is kept whatever the page and the host want, and menus of such entries; unlike \<open>stays\<close> and
  \<open>tidy\<close> these can be computed.\<close>

definition hidable :: "string list" where
  "hidable = [''rev-history'', ''closedocument'', ''print'', ''save'', ''saveas'', ''shareas'', ''insertgraphicremote'', ''changesmenu'']"

definition kept_id :: "string option \<Rightarrow> bool" where
  "kept_id k \<longleftrightarrow> (case k of None \<Rightarrow> True
     | Some k \<Rightarrow> k \<notin> set hidable \<and> \<not> startsWith k ''fullscreen-presentation'' \<and> \<not> startsWith k downloads_prefix)"

fun always_stays :: "mitem \<Rightarrow> bool" where
  "always_stays (MItem n u k t h hi tg i d s) \<longleftrightarrow>
     kept_id k \<and> t \<noteq> Some ''--'' \<and>
     (item_type (MItem n u k t h hi tg i d s) = ''menu'' \<longrightarrow> (case s of None \<Rightarrow> False | Some ms \<Rightarrow> list_ex always_stays ms))"

fun always_tidy :: "mitem \<Rightarrow> bool" where
  "always_tidy (MItem n u k t h hi tg i d s) \<longleftrightarrow>
     hi \<noteq> Some True \<and> t \<noteq> Some ''separator'' \<and>
     (item_type (MItem n u k t h hi tg i d s) = ''menu'' \<longrightarrow>
        (case s of None \<Rightarrow> False | Some ms \<Rightarrow> list_ex always_stays ms \<and> list_all always_tidy ms))"

lemma kept_id_kept: "kept_id (mi_id m) \<Longrightarrow> \<not> left_out mc w m \<and> \<not> is_export m"
  by (cases "mi_id m") (auto simp: kept_id_def hidable_def left_out_def is_export_def)

lemma always_stays_stays: "always_stays m \<Longrightarrow> stays mc w m"
proof (induction m rule: always_stays.induct)
  case (1 n u k t h hi tg i d s)
  let ?m = "MItem n u k t h hi tg i d s"
  have "\<not> left_out mc w ?m \<and> \<not> is_export ?m" using 1(2) by (intro kept_id_kept) simp
  then show ?case using 1 by (auto simp: Let_def list_ex_iff split: option.splits)
qed

lemma always_tidy_tidy: "always_tidy m \<Longrightarrow> tidy mc w m"
proof (induction m rule: always_tidy.induct)
  case (1 n u k t h hi tg i d s)
  then show ?case using always_stays_stays by (fastforce simp: Let_def list_ex_iff list_all_iff split: option.splits)
qed

lemma document_menus_tidy: "list_all (\<lambda>(t, ms). list_all always_tidy ms) (document_menus w)"
  by code_simp

text \<open>
  C17: Whatever the host hides and the page offers, the menu bars of text documents, presentations and
  spreadsheets have lines only between items: no menu at any depth begins or ends with a line, and no two
  lines follow each other.
\<close>

theorem bars_have_neat_lines:
  "list_all (\<lambda>(t, ms). neat_row (fst (createMenu cf mc level ms a)) \<and> list_all neat_item (fst (createMenu cf mc level ms a)))
     (document_menus w)"
  using document_menus_tidy [of w] always_tidy_tidy [of _ mc "a_wopi a"] lines_between_items [of mc a]
  by (fastforce simp: list_all_iff)


section \<open>Shortcuts\<close>

text \<open>A condition on every entry of a menu, at any depth.\<close>

fun every_entry :: "(mitem \<Rightarrow> bool) \<Rightarrow> mitem \<Rightarrow> bool" where
  "every_entry Q (MItem n u k t h hi tg i d s) \<longleftrightarrow>
     Q (MItem n u k t h hi tg i d s) \<and> (case s of None \<Rightarrow> True | Some ms \<Rightarrow> list_all (every_entry Q) ms)"

lemma every_entry_facts: "every_entry Q m \<Longrightarrow> Q m \<and> list_all (every_entry Q) (submenu m)"
  by (cases m) (auto split: option.splits)

lemma create_items_uses:
  assumes steps: "\<And>m a. Q m \<Longrightarrow> P a \<Longrightarrow> P (note_export m a)" "\<And>m a. Q m \<Longrightarrow> P a \<Longrightarrow> P (announce_item cf m a)"
  shows "list_all (every_entry Q) ms \<Longrightarrow> P (snd (snd st)) \<Longrightarrow> P (snd (snd (create_items cf mc level ms st)))"
proof (induction ms arbitrary: level st rule: menu_induct)
  case (less ms)
  show ?case
  proof (cases ms)
    case (Cons m rest)
    obtain items prev a where st: "st = (items, prev, a)" by (cases st)
    have q: "Q m" "list_all (every_entry Q) (submenu m)" using less.prems Cons every_entry_facts by auto
    have "P b \<Longrightarrow> P (snd (snd (create_items cf mc (Suc level) (submenu m) ([], False, b))))" for b
      using less.IH [of "submenu m"] menus_smaller Cons q(2) by simp
    then have "P (snd (snd (item_step cf mc level m st)))"
      using less.prems steps q(1) by (simp add: item_step_def st Let_def)
    then show ?thesis using less.IH [of rest] menus_smaller Cons less.prems by (simp add: create_items_Cons)
  qed (use less in simp)
qed

text \<open>The shortcut an entry announces, with its command, and the shortcuts of a menu.\<close>

definition entry_shortcut :: "mitem \<Rightarrow> (string \<times> string) option" where
  "entry_shortcut m =
     (let command = (if item_type m = ''action'' then mi_id m
                     else if item_type m \<in> {''menu'', ''--'', ''separator''} then None else mi_uno m)
      in case (command, mi_hotkey m) of
           (Some c, Some h) \<Rightarrow> if h = [] then None else Some (canonical_hotkey h, js_trim c)
         | _ \<Rightarrow> None)"

fun menu_shortcuts :: "mitem \<Rightarrow> (string \<times> string) list" where
  "menu_shortcuts (MItem n u k t h hi tg i d s) =
     (case entry_shortcut (MItem n u k t h hi tg i d s) of None \<Rightarrow> [] | Some p \<Rightarrow> [p]) @
     (case s of None \<Rightarrow> [] | Some ms \<Rightarrow> concat (map menu_shortcuts ms))"

definition announced :: "(string \<times> string) list \<Rightarrow> mitem \<Rightarrow> bool" where
  "announced K m \<longleftrightarrow> (case entry_shortcut m of None \<Rightarrow> True | Some p \<Rightarrow> p \<in> set K)"

lemma menu_shortcuts_announced: "set (menu_shortcuts m) \<subseteq> set K \<Longrightarrow> every_entry (announced K) m"
proof (induction m rule: menu_shortcuts.induct)
  case (1 n u k t h hi tg i d s)
  have "every_entry (announced K) x" if "s = Some ms" "x \<in> set ms" for ms x
    using 1(1) [OF that] 1(2) that by (simp add: UN_subset_iff)
  moreover have "announced K (MItem n u k t h hi tg i d s)" using 1(2) by (auto simp: announced_def split: option.splits)
  ultimately show ?case by (cases s) (simp_all add: list_all_iff)
qed

lemma addAllowedCommand_hotkeys:
  "a_hotkeys (addAllowedCommand cf n h c b a) = (case (n, h) of
     (Some x, Some k) \<Rightarrow> if k = [] then a_hotkeys a else obj_put (canonical_hotkey k) (js_trim x) (a_hotkeys a)
   | _ \<Rightarrow> a_hotkeys a)"
  by (simp add: addAllowedCommand_def Let_def split: option.split)

lemma announce_hotkeys:
  "a_hotkeys (announce_item cf m a) = (case entry_shortcut m of None \<Rightarrow> a_hotkeys a | Some (h, c) \<Rightarrow> obj_put h c (a_hotkeys a))"
proof -
  consider "item_type m = ''action''" | "item_type m \<in> {''menu'', ''--'', ''separator''}"
    | "item_type m \<noteq> ''action''" "item_type m \<notin> {''menu'', ''--'', ''separator''}" by blast
  then show ?thesis
  proof cases
    case 1
    then show ?thesis
      by (cases "is_uno (mi_name m)"; cases "mi_id m"; cases "mi_hotkey m")
         (simp_all add: announce_item_def entry_shortcut_def addAllowedCommand_hotkeys Let_def split: option.split)
  next
    case 2
    then show ?thesis by (auto simp: announce_item_def entry_shortcut_def)
  next
    case 3
    then show ?thesis
      by (cases "mi_uno m"; cases "mi_hotkey m") (simp_all add: announce_item_def entry_shortcut_def addAllowedCommand_hotkeys Let_def)
  qed
qed

lemma note_hotkeys [simp]: "a_hotkeys (note_export m a) = a_hotkeys a"
  by (simp add: note_export_def registerExportFormat_def)

lemma create_items_hotkey:
  assumes "distinct (map fst K)" "(h, c) \<in> set K" "list_all (every_entry (announced K)) ms" "obj_get (a_hotkeys (snd (snd st))) h = Some c"
  shows "obj_get (a_hotkeys (snd (snd (create_items cf mc level ms st)))) h = Some c"
proof (rule create_items_uses [where Q = "announced K" and P = "\<lambda>a. obj_get (a_hotkeys a) h = Some c", OF _ _ assms(3,4)])
  fix m and a :: app
  assume "announced K m" "obj_get (a_hotkeys a) h = Some c"
  then show "obj_get (a_hotkeys (announce_item cf m a)) h = Some c"
    using assms(1,2) eq_key_imp_eq_value [of K] by (auto simp: announce_hotkeys announced_def obj_put_get split: option.splits)
qed simp

text \<open>What a built item shows as its shortcut runs it.\<close>

definition item_target :: "mdata \<Rightarrow> string option" where
  "item_target d = (case d_uno d of Some u \<Rightarrow> Some u | None \<Rightarrow> d_id d)"

definition shown_shortcut :: "litem \<Rightarrow> (string \<times> string) option" where
  "shown_shortcut i = (case (li_hotkey i, item_target (li_data i)) of
      (Some h, Some c) \<Rightarrow> if h = [] then None else Some (canonical_hotkey h, js_trim c)
    | _ \<Rightarrow> None)"

definition shortcut_works :: "(string \<times> string) list \<Rightarrow> app \<Rightarrow> litem \<Rightarrow> bool" where
  "shortcut_works K a i \<longleftrightarrow> (case shown_shortcut i of None \<Rightarrow> True | Some (h, c) \<Rightarrow> (h, c) \<in> set K \<and> obj_get (a_hotkeys a) h = Some c)"

lemma shown_shortcut_built: "shown_shortcut (build_item mc level m subs a) = entry_shortcut m"
proof -
  consider "item_type m = ''action''" | "item_type m \<in> {''menu'', ''--'', ''separator''}"
    | "item_type m \<noteq> ''action''" "item_type m \<notin> {''menu'', ''--'', ''separator''}" by blast
  then show ?thesis
  proof cases
    case 1
    then show ?thesis
      by (simp add: shown_shortcut_def build_item_def item_target_def item_data_def entry_shortcut_def no_data_def split: option.split)
  next
    case 2
    then show ?thesis
      by (auto simp: shown_shortcut_def build_item_def item_target_def item_data_def entry_shortcut_def no_data_def split: option.split)
  next
    case 3
    then show ?thesis
      by (cases "mi_uno m") (simp_all add: shown_shortcut_def build_item_def item_target_def item_data_def entry_shortcut_def no_data_def
          split: option.split)
  qed
qed


lemma shortcut_works_items:
  "list_all (shortcut_works K a) (all_items [build_item mc level m subs b]) \<longleftrightarrow>
   shortcut_works K a (build_item mc level m subs b) \<and> list_all (shortcut_works K a) (all_items subs)"
  by (simp add: build_item_def)

lemma all_items_trim: "list_all P (all_items xs) \<Longrightarrow> list_all P (all_items (trim_line xs))"
  by (cases xs rule: rev_cases) (auto simp: trim_line_def)

lemma create_items_shortcuts:
  assumes K: "distinct (map fst K)"
  shows "list_all (every_entry (announced K)) ms \<Longrightarrow> list_all (shortcut_works K (snd (snd st))) (all_items (fst st)) \<Longrightarrow>
    list_all (shortcut_works K (snd (snd (create_items cf mc level ms st)))) (all_items (fst (create_items cf mc level ms st)))"
proof (induction ms arbitrary: level st rule: menu_induct)
  case (less ms)
  show ?case
  proof (cases ms)
    case (Cons m rest)
    obtain items prev a where st: "st = (items, prev, a)" by (cases st)
    have q: "announced K m" "list_all (every_entry (announced K)) (submenu m)" "list_all (every_entry (announced K)) [m]"
      "list_all (every_entry (announced K)) rest"
      using less.prems Cons every_entry_facts by auto
    have stay: "shortcut_works K (snd (snd (create_items cf mc l ns (x, y, b)))) i"
      if "list_all (every_entry (announced K)) ns" "shortcut_works K b i" for l ns x y b i
      using create_items_hotkey [OF K _ that(1), of _ _ "(x, y, b)" cf mc l] that(2) by (auto simp: shortcut_works_def split: option.splits)
    let ?s = "item_step cf mc level m st"
    let ?r = "create_items cf mc (Suc level) (submenu m) ([], False, note_export m a)"
    have old: "list_all (shortcut_works K (snd (snd ?s))) (all_items items)"
      using stay [OF q(3), of a _ level items prev] less.prems(2) by (simp add: create_items_Cons st list_all_iff)
    have subs: "list_all (shortcut_works K (snd (snd ?r))) (all_items (trim_line (fst ?r)))"
      using less.IH [of "submenu m"] menus_smaller Cons q(2) by (simp add: all_items_trim)
    have own: "shortcut_works K (announce_item cf m b) (build_item mc level m x y)" for b x y
      using q(1) by (auto simp: shortcut_works_def shown_shortcut_built announced_def announce_hotkeys obj_put_get split: option.splits)
    have none: "shortcut_works K b (build_item mc level m x y)" if "item_type m = ''menu''" for b x y
      using that by (simp add: shortcut_works_def shown_shortcut_built entry_shortcut_def)
    have "list_all (shortcut_works K (snd (snd ?s))) (all_items (fst ?s))"
    proof (cases "item_type m = ''menu''")
      case True
      then show ?thesis using old subs none [OF True]
        by (auto simp: item_step_def st Let_def shortcut_works_items simp del: all_items.simps split: if_splits)
    next
      case False
      then show ?thesis using old own
        by (auto simp: item_step_def st Let_def shortcut_works_items simp del: all_items.simps(2) split: if_splits)
    qed
    then show ?thesis using less.IH [of rest ?s] menus_smaller Cons q(4) by (simp add: create_items_Cons)
  qed (use less in simp)
qed

lemma canonical_keys:
  "map canonical_hotkey
    [''Ctrl+S'', ''Ctrl+P'', ''Ctrl+Z'', ''Ctrl+Y'', ''Ctrl+X'', ''Ctrl+C'', ''Ctrl+V'', ''Ctrl+A'', ''Ctrl+H'',
     ''Ctrl+F10'', ''Ctrl+Enter'', ''Ctrl+Shift+Enter'', ''Ctrl+Alt+C'', ''Ctrl+K'', ''Ctrl+Alt+F'', ''Ctrl+Alt+D'',
     ''Ctrl+B'', ''Ctrl+I'', ''Ctrl+U'', ''Ctrl+D'', ''Ctrl+Alt+5'', ''Ctrl+Shift+P'', ''Ctrl+Shift+B'', ''Ctrl+L'',
     ''Ctrl+E'', ''Ctrl+R'', ''Ctrl+J'', ''Ctrl+Shift+G'', ''Ctrl+M'', ''Ctel+Shift+?'', ''F5'', ''Shift+F5'',
     ''Ctrl+Shift+?''] =
    [''ctrl+s'', ''ctrl+p'', ''ctrl+z'', ''ctrl+y'', ''ctrl+x'', ''ctrl+c'', ''ctrl+v'', ''ctrl+a'', ''ctrl+h'',
     ''ctrl+f10'', ''ctrl+enter'', ''ctrl+shift+enter'', ''ctrl+alt+c'', ''ctrl+k'', ''ctrl+alt+f'', ''ctrl+alt+d'',
     ''ctrl+b'', ''ctrl+i'', ''ctrl+u'', ''ctrl+d'', ''ctrl+alt+5'', ''ctrl+shift+p'', ''ctrl+shift+b'', ''ctrl+l'',
     ''ctrl+e'', ''ctrl+r'', ''ctrl+j'', ''ctrl+shift+g'', ''ctrl+m'', ''shift+?'', ''f5'', ''shift+f5'',
     ''ctrl+shift+?'']"
  by code_simp

lemma document_shortcuts_distinct:
  "list_all (\<lambda>(t, ms). distinct (map fst (concat (map menu_shortcuts ms)))) (document_menus w)"
proof -
  note keys = canonical_keys [simplified]
  have "distinct (map fst (concat (map menu_shortcuts (text_menus w))))"
    by (simp add: text_menu_defs entry_shortcut_def item_type_def keys)
  moreover have "distinct (map fst (concat (map menu_shortcuts (presentation_menus w))))"
    by (simp add: presentation_menu_defs entry_shortcut_def item_type_def keys)
  moreover have "distinct (map fst (concat (map menu_shortcuts (spreadsheet_menus w))))"
    by (simp add: spreadsheet_menu_defs entry_shortcut_def item_type_def keys)
  ultimately show ?thesis by (simp add: document_menus_def)
qed



section \<open>What the entries do not do\<close>

text \<open>Export formats are registered for entries named \<open>dialog:DownloadAs?ext=\<close>, which no menu has: none is ever
  registered, the host's question for the formats is answered with none, and hiding the export does not hide the
  entries for downloads.\<close>

lemma document_menus_export: "list_all (\<lambda>(t, ms). list_all (every_entry (\<lambda>m. \<not> is_export m)) ms) (document_menus w)"
proof -
  note defs = is_export_def downloads_prefix_def startsWith_def
  have "list_all (every_entry (\<lambda>m. \<not> is_export m)) (text_menus w)" by (simp add: text_menu_defs defs)
  moreover have "list_all (every_entry (\<lambda>m. \<not> is_export m)) (presentation_menus w)" by (simp add: presentation_menu_defs defs)
  moreover have "list_all (every_entry (\<lambda>m. \<not> is_export m)) (spreadsheet_menus w)" by (simp add: spreadsheet_menu_defs defs)
  ultimately show ?thesis by (simp add: document_menus_def)
qed

lemma addAllowedCommand_exports: "a_exports (addAllowedCommand cf n h c b a) = a_exports a"
  by (simp add: addAllowedCommand_def Let_def split: option.split)

lemma menus_register_no_format:
  assumes "(t, ms) \<in> set (document_menus w)"
  shows "a_exports (snd (createMenu cf mc level ms a)) = a_exports a"
proof -
  have "list_all (every_entry (\<lambda>m. \<not> is_export m)) ms" using document_menus_export [of w] assms by (auto simp: list_all_iff)
  moreover have "a_exports (announce_item cf m b) = a_exports b" for m and b :: app
    using addAllowedCommand_exports by (simp add: announce_item_def Let_def)
  ultimately have "a_exports (snd (snd (create_items cf mc (Suc level) ms ([], False, a)))) = a_exports a"
    by (intro create_items_uses [where Q = "\<lambda>m. \<not> is_export m" and P = "\<lambda>b. a_exports b = a_exports a"])
       (simp_all add: note_export_def)
  then show ?thesis by (auto simp: createMenu_def split: prod.split)
qed

lemma hidden_export_keeps_downloads:
  "let m = action n ''downloadas-pdf'' in \<not> left_out mc w m \<and> \<not> is_export m"
  by (simp add: action_def left_out_def is_export_def downloads_prefix_def startsWith_def)

text \<open>The first entries of the menus of headers and footers send a command that ends in a question mark, which is
  not taken for the one that needs a page style and a question before it deletes.\<close>

lemma header_entry_skips_question:
  "let d = item_data (MItem (Some (w ''All'')) (Some ''.uno:InsertPageHeader?'') (Some ''insertheader'') None None None (Some ''_ALL_'') None
             True None)
   in menu_sendCommand cf target d checked a = fst (executeAllowedCommand cf target ''.uno:InsertPageHeader?'' a)"
proof -
  have "page_part (Some ''.uno:InsertPageHeader?'') = False" by (simp add: page_part_def)
  moreover have "(Some ''.uno:InsertPageHeader?'' = Some ''.uno:Text'') = False" by simp
  ultimately show ?thesis
    by (simp only: Let_def item_data_def item_type_def menu_sendCommand_def) (simp add: no_data_def or_empty_def)
qed

end
