(* ===== verification/Selections.thy ===== *)
theory Selections
  imports Views
begin

text \<open>
  What the user has selected (\<open>loleaflet/src/layer/tile/TileLayer.js\<close>): the areas of selected text with
  their two handles, the cell cursor of a spreadsheet with its frame, its resize markers and the button
  of a validity list, and the scrolling that keeps them in view. The state extends the one of the other
  users (\<open>Views\<close>), because the own cursor is part of it. A marker is its position and whether it is on
  the map; the size of its icon on the screen is a value the DOM gives.
\<close>

section \<open>State\<close>

text \<open>A marker that can be dragged; \<open>h_asStart\<close>: its icon is the one of the start of a selection.\<close>

record hmark =
  h_pos :: latlng
  h_dragged :: bool
  h_shown :: bool
  h_asStart :: bool

record dropdown =
  d_pos :: latlng
  d_shown :: bool
  d_icon :: "(real \<times> real) option"     \<comment> \<open>height and margin above, when it was set\<close>

type_synonym xy = "jsnum \<times> jsnum"

text \<open>The graphic that is selected: \<open>gm_bounds\<close> of its group, the picture in it, and how a drag began.\<close>

record gmark =
  gm_bounds :: llbounds
  gm_svg :: "string option"
  gm_shown :: bool                   \<comment> \<open>the group is on the map\<close>
  gm_visible :: bool                 \<comment> \<open>what \<open>setVisible\<close> was given last\<close>
  gm_dragged :: bool
  gm_startPos :: "(int \<times> int) option"
  gm_horizDir :: "int option"
  gm_vertDir :: "int option"
  gm_options :: "(string \<times> bool) list"    \<comment> \<open>what \<open>transform.enable\<close> was given\<close>

text \<open>How a segment of a pie chart may be dragged (\<open>dragInfo\<close>).\<close>

record drag_info =
  di_pie :: bool                     \<comment> \<open>its method is \<open>PieSegmentDragging\<close>\<close>
  di_offset :: real
  di_direction :: point
  di_range2 :: real
  di_svg :: "string option"

record slayer =
  s_users :: ulayer
  s_mobile :: bool                        \<comment> \<open>\<open>L.Browser.mobile\<close>\<close>
  s_markSize :: point                     \<comment> \<open>size of a marker's icon on the screen\<close>
  s_selections :: "latlng list list list" \<comment> \<open>the layers of \<open>_selections\<close>\<close>
  s_start :: "llbounds option"            \<comment> \<open>\<open>_textSelectionStart\<close>\<close>
  s_end :: "llbounds option"
  s_content :: "string option"            \<comment> \<open>\<open>_selectionTextContent\<close>\<close>
  s_selectedText :: "string option"       \<comment> \<open>\<open>_selectedTextContent\<close>, which nothing reads\<close>
  s_request :: bool                       \<comment> \<open>a request for the content is due\<close>
  s_startMark :: hmark
  s_endMark :: hmark
  s_cellTwips :: bounds
  s_cellCursor :: "llbounds option"
  s_cellXY :: "xy option"
  s_prevXY :: "xy option"
  s_cellArea :: "llbounds option"
  s_fillArea :: "llbounds option"
  s_cellMark :: "(llbounds \<times> bool) option" \<comment> \<open>the frame of the cell, and whether it is on the map\<close>
  s_validated :: "xy option"
  s_dropDown :: dropdown
  s_resizeStart :: hmark
  s_resizeEnd :: hmark
  s_fillMark :: hmark
  s_twips :: bounds                       \<comment> \<open>\<open>_graphicSelectionTwips\<close>\<close>
  s_graphic :: llbounds                   \<comment> \<open>\<open>_graphicSelection\<close>\<close>
  s_extra :: jsval                        \<comment> \<open>its \<open>extraInfo\<close>, undefined or an object\<close>
  s_drag :: "drag_info option"
  s_angle :: int                          \<comment> \<open>\<open>_graphicSelectionAngle\<close>, in hundredths of a degree\<close>
  s_marker :: "gmark option"
  s_cacheSVG :: "(string, string) obj"
  s_overlay :: "(int \<times> int \<times> int \<times> int) option"  \<comment> \<open>the dark overlay around a focused object\<close>
  s_delay :: bool                         \<comment> \<open>\<open>_delayShowDarkOverlay\<close>\<close>
  s_context :: "string option"            \<comment> \<open>\<open>_docContext\<close>\<close>
  s_table :: bool                         \<comment> \<open>\<open>hasTableSelection()\<close>\<close>

abbreviation s_grid :: "slayer \<Rightarrow> grid" where "s_grid s \<equiv> u_grid (s_users s)"
abbreviation s_view :: "slayer \<Rightarrow> mview" where "s_view s \<equiv> u_view (s_users s)"
abbreviation s_layer :: "slayer \<Rightarrow> tlayer" where "s_layer s \<equiv> u_layer (s_users s)"
abbreviation s_docType :: "slayer \<Rightarrow> string" where "s_docType s \<equiv> u_docType (s_users s)"
abbreviation s_editing :: "slayer \<Rightarrow> bool" where "s_editing s \<equiv> perm (g_net (s_grid s)) = ''edit''"
abbreviation s_log :: "slayer \<Rightarrow> effect list" where "s_log s \<equiv> u_log (s_users s)"

definition on_users :: "(ulayer \<Rightarrow> ulayer) \<Rightarrow> slayer \<Rightarrow> slayer" where
  "on_users f s = s\<lparr>s_users := f (s_users s)\<rparr>"

definition scall :: "string \<Rightarrow> slayer \<Rightarrow> slayer" where
  "scall f = on_users (ucall f)"

definition ssend :: "sconf \<Rightarrow> string \<Rightarrow> slayer \<Rightarrow> slayer" where
  "ssend cf m = on_users (on_layer (lsend cf m))"

text \<open>\<open>text.match(word)\<close> for a word without special characters.\<close>

definition mentions :: "string \<Rightarrow> string \<Rightarrow> bool" where
  "mentions word text \<longleftrightarrow> (\<exists>t \<in> set (suffixes text). startsWith t word)"

text \<open>\<open>L.Point.equals\<close> on numbers that were read from a message.\<close>

definition xy_equals :: "xy \<Rightarrow> xy \<Rightarrow> bool" where
  "xy_equals p q \<longleftrightarrow> p = q \<and> fst p \<noteq> NaN \<and> snd p \<noteq> NaN"

definition numbers :: "string \<Rightarrow> int list" where
  "numbers textMsg = map (int \<circ> read_nat) (digit_runs textMsg)"

definition number_at :: "int list \<Rightarrow> nat \<Rightarrow> jsnum" where
  "number_at ns i = (if i < length ns then Num (ns ! i) else NaN)"

section \<open>Resize markers of a cell\<close>

text \<open>A marker is put with its middle at the place.\<close>

definition centred :: "slayer \<Rightarrow> latlng \<Rightarrow> latlng" where
  "centred s p =
     unproject (s_view s) (point_subtract (project (s_view s) p None)
       (pt (px (s_markSize s) / 2) (py (s_markSize s) / 2))) None"

definition place :: "slayer \<Rightarrow> latlng \<Rightarrow> hmark \<Rightarrow> hmark" where
  "place s p m = (if h_dragged m then m else m\<lparr>h_shown := True, h_pos := centred s p\<rparr>)"

definition hide :: "hmark \<Rightarrow> hmark" where
  "hide m = m\<lparr>h_shown := False\<rparr>"

definition place_fill :: "llbounds \<Rightarrow> slayer \<Rightarrow> slayer" where
  "place_fill r s =
     (if s_fillArea s = None then s
      else if h_dragged (s_fillMark s) then s\<lparr>s_fillMark := hide (s_fillMark s)\<rparr>
      else s\<lparr>s_fillMark := place s (ll (getSouth r) (lng (llb_getCenter r))) (s_fillMark s)\<rparr>)"

definition onUpdateCellResizeMarkers :: "slayer \<Rightarrow> slayer" where
  "onUpdateCellResizeMarkers s =
     (if \<not> s_mobile s \<and> s_docType s = ''spreadsheet'' then s
      else if s_selections s \<noteq> [] \<or> \<not> isEmptyRectangle (s_cellCursor s) then
        (if isEmptyRectangle (s_cellArea s) \<and> isEmptyRectangle (s_cellCursor s) then s
         else
           case (if s_cellArea s \<noteq> None then s_cellArea s else s_cellCursor s) of
             None \<Rightarrow> s
           | Some r \<Rightarrow>
               place_fill r (s\<lparr>s_resizeStart := place s (getNorthWest r) (s_resizeStart s),
                               s_resizeEnd := place s (getSouthEast r) (s_resizeEnd s)\<rparr>))
      else s\<lparr>s_resizeStart := hide (s_resizeStart s), s_resizeEnd := hide (s_resizeEnd s),
             s_fillMark := hide (s_fillMark s)\<rparr>)"

section \<open>Selected text\<close>

text \<open>The own cursor does not scroll while a handle is dragged.\<close>

definition sync_handles :: "slayer \<Rightarrow> slayer" where
  "sync_handles s = on_users (\<lambda>u. u\<lparr>u_handleDragged := (h_dragged (s_startMark s) \<or> h_dragged (s_endMark s))\<rparr>) s"

definition removeSelection :: "slayer \<Rightarrow> slayer" where
  "removeSelection s =
     sync_handles (s\<lparr>s_start := None, s_end := None, s_selectedText := Some '''',
        s_startMark := (s_startMark s)\<lparr>h_shown := False, h_dragged := False\<rparr>,
        s_endMark := (s_endMark s)\<lparr>h_shown := False, h_dragged := False\<rparr>,
        s_selections := []\<rparr>)"

text \<open>A handle is drawn two pixels above the lower corner of its end of the selection. An icon that comes
  to the map has the look it was made with.\<close>

definition handle_at :: "bool \<Rightarrow> mview \<Rightarrow> latlng \<Rightarrow> hmark \<Rightarrow> hmark" where
  "handle_at look v p m =
     (if h_dragged m then m
      else m\<lparr>h_pos := unproject v (point_subtract (project v p None) (pt 0 2)) None,
             h_asStart := (if h_shown m then h_asStart m else look), h_shown := True\<rparr>)"

text \<open>Whether the handles change roles: the start handle is nearer to the end of the selection.\<close>

definition crossed :: "mview \<Rightarrow> hmark \<Rightarrow> hmark \<Rightarrow> llbounds \<Rightarrow> llbounds \<Rightarrow> bool" where
  "crossed v m n a b \<longleftrightarrow>
     (let q = project v (h_pos m) None
      in point_distanceTo q (project v (southWest b) None) < point_distanceTo q (project v (southWest a) None)
         \<and> h_shown m \<and> h_shown n)"

definition update_handles :: "llbounds \<Rightarrow> llbounds \<Rightarrow> slayer \<Rightarrow> slayer" where
  "update_handles a b s =
     (let v = s_view s; m = s_startMark s; n = s_endMark s; both = (h_shown m \<and> h_shown n)
      in if crossed v m n a b then
           s\<lparr>s_endMark := handle_at False v (southWest a) (n\<lparr>h_asStart := True\<rparr>),
             s_startMark := handle_at True v (getSouthEast b) (m\<lparr>h_asStart := False\<rparr>)\<rparr>
         else
           s\<lparr>s_startMark := handle_at True v (southWest a) (if both then m\<lparr>h_asStart := True\<rparr> else m),
             s_endMark := handle_at False v (getSouthEast b) (if both then n\<lparr>h_asStart := False\<rparr> else n)\<rparr>)"

definition onUpdateTextSelection :: "slayer \<Rightarrow> slayer" where
  "onUpdateTextSelection s =
     (let s = onUpdateCellResizeMarkers s
      in if \<not> s_mobile s then s
         else if s_selections s \<noteq> [] \<or> h_dragged (s_startMark s) \<or> h_dragged (s_endMark s) then
           (if isEmptyRectangle (s_start s) \<or> isEmptyRectangle (s_end s) then s
            else case (s_start s, s_end s) of (Some a, Some b) \<Rightarrow> update_handles a b s | _ \<Rightarrow> s)
         else removeSelection s)"

text \<open>\<open>_onTextSelectionMsg\<close>: the area that is selected now, and in a tenth of a second the question for its
  text.\<close>

definition onTextSelectionMsg :: "string \<Rightarrow> slayer \<Rightarrow> slayer" where
  "onTextSelectionMsg textMsg s =
     (let s = s\<lparr>s_selections := []\<rparr>
      in if digit_runs textMsg = [] then onUpdateTextSelection s
         else
           case selection_polygons (s_grid s) textMsg of
             None \<Rightarrow> scall ''TypeError'' s
           | Some ps \<Rightarrow> onUpdateTextSelection (s\<lparr>s_selections := [ps], s_request := True\<rparr>))"

definition selection_timer :: "sconf \<Rightarrow> slayer \<Rightarrow> slayer" where
  "selection_timer cf s =
     (if s_request s
      then ssend cf ''gettextselection mimetype=text/plain;charset=utf-8'' (s\<lparr>s_request := False\<rparr>) else s)"

definition onTextSelectionContentMsg :: "string \<Rightarrow> slayer \<Rightarrow> slayer" where
  "onTextSelectionContentMsg textMsg s = s\<lparr>s_content := Some (drop 22 textMsg)\<rparr>"

text \<open>\<open>containsSelection\<close>, by the least rectangle around each area.\<close>

definition area_bounds :: "latlng list list \<Rightarrow> llbounds option" where
  "area_bounds ps =
     fold (\<lambda>p b. Some (llb_extend b (llb_of_point p))) (concat ps) None"

definition containsSelection :: "latlng \<Rightarrow> slayer \<Rightarrow> bool" where
  "containsSelection p s =
     (\<exists>ps \<in> set (s_selections s). case area_bounds ps of None \<Rightarrow> False | Some b \<Rightarrow> llb_contains_point b p)"

section \<open>The cell cursor\<close>

definition show_dropDown :: "latlng \<Rightarrow> real \<Rightarrow> dropdown \<Rightarrow> dropdown" where
  "show_dropDown pos height d =
     (let d = (if height = 0 then d
               else d\<lparr>d_icon := Some (if height > 27 then (27, height - 27) else (height, 0))\<rparr>)
      in d\<lparr>d_pos := pos, d_shown := True\<rparr>)"

text \<open>The button of a validity list, on the cell it belongs to while that cell has the cursor.\<close>

definition addDropDownMarker :: "slayer \<Rightarrow> slayer" where
  "addDropDownMarker s =
     (case (s_validated s, s_cellXY s) of
        (Some v, Some c) \<Rightarrow>
          if xy_equals v c then
            (case s_cellCursor s of
               None \<Rightarrow> scall ''TypeError'' s
             | Some b \<Rightarrow>
                 s\<lparr>s_dropDown := show_dropDown (northEast b)
                   (py (twipsToPixels (s_grid s) (bounds_getSize (s_cellTwips s)))) (s_dropDown s)\<rparr>)
          else s
      | _ \<Rightarrow> s)"

definition removeDropDownMarker :: "slayer \<Rightarrow> slayer" where
  "removeDropDownMarker s =
     (if s_validated s = None then s\<lparr>s_dropDown := (s_dropDown s)\<lparr>d_shown := False\<rparr>\<rparr> else s)"

definition onValidityListButtonMsg :: "string \<Rightarrow> slayer \<Rightarrow> slayer" where
  "onValidityListButtonMsg textMsg s =
     (let ns = numbers textMsg; cell = (number_at ns 0, number_at ns 1); same = (\<lambda>v. xy_equals v cell)
      in if ns = [] then scall ''TypeError'' s
         else if number_at ns 2 = Num 1 then
           (let s = (case s_validated s of
                       None \<Rightarrow> s | Some v \<Rightarrow> if same v then s else removeDropDownMarker (s\<lparr>s_validated := None\<rparr>))
            in addDropDownMarker (s\<lparr>s_validated := Some cell\<rparr>))
         else
           case s_validated s of
             None \<Rightarrow> s
           | Some v \<Rightarrow> if same v then removeDropDownMarker (s\<lparr>s_validated := None\<rparr>) else s)"

text \<open>How far the view moves, in degrees: after a page key as far as the cell cursor did, half a view more
  when that is not enough; otherwise so that the cell is inside, a little away from the edge.\<close>

definition page_scroll :: "llbounds \<Rightarrow> llbounds \<Rightarrow> llbounds \<Rightarrow> real" where
  "page_scroll b c from =
     (let half = (getNorth b - getSouth b) / 2; y = getNorth c - getNorth from
      in if getNorth c > getNorth b + y then (getNorth c - getNorth b) + half
         else if getSouth c < getSouth b + y then (getNorth c - getNorth b) + half
         else y)"

definition step_scroll :: "llbounds \<Rightarrow> llbounds \<Rightarrow> real \<times> real" where
  "step_scroll b c =
     (let mapWidth = \<bar>getEast b - getWest b\<bar>; cellWidth = \<bar>getEast c - getWest c\<bar>;
          spacingX = 6; spacingY = \<bar>getSouth c - getNorth c\<bar> / 4;
          x = (if getWest c < getWest b then getWest c - getWest b else 0);
          x = (if getEast c > getEast b \<and> cellWidth < mapWidth then getEast c - getEast b + spacingX else x);
          y = (if getNorth c > getNorth b then getNorth c - getNorth b + spacingY
               else if getSouth c < getSouth b then getSouth c - getSouth b - spacingY else 0)
      in (x, y))"

definition cell_cursor_scroll :: "real \<Rightarrow> real \<Rightarrow> bool \<Rightarrow> llbounds \<Rightarrow> llbounds \<Rightarrow> slayer \<Rightarrow> real \<times> real" where
  "cell_cursor_scroll hor ver onPgUpDn b c s =
     (if onPgUpDn then
        (case (if l_onPgUp (s_layer s) \<noteq> None then l_onPgUp (s_layer s) else l_onPgDn (s_layer s)) of
           Some from \<Rightarrow> (0, page_scroll b c from) | None \<Rightarrow> (0, 0))
      else if hor \<noteq> 0 \<or> ver \<noteq> 0 then step_scroll b c else (0, 0))"

definition moved_center :: "llbounds \<Rightarrow> real \<times> real \<Rightarrow> latlng" where
  "moved_center b d = (let c = llb_getCenter b in ll (lat c + snd d) (lng c + fst d))"

text \<open>\<open>_onUpdateCellCursor\<close>, for the directions 0 when the cursor has not moved.\<close>

definition scroll_to_cell :: "real \<Rightarrow> real \<Rightarrow> bool \<Rightarrow> llbounds \<Rightarrow> slayer \<Rightarrow> slayer" where
  "scroll_to_cell hor ver onPgUpDn c s =
     (case map_getBounds (s_view s) of
        None \<Rightarrow> s
      | Some b \<Rightarrow>
          if \<not> llb_contains b c \<and> (case (s_cellXY s, s_prevXY s) of (Some p, Some q) \<Rightarrow> \<not> xy_equals p q | _ \<Rightarrow> True) then
            (let d = cell_cursor_scroll hor ver onPgUpDn b c s;
                 s = (if d = (0, 0) then s else on_users (scrollto (moved_center b d) (Some True)) s)
             in s\<lparr>s_prevXY := s_cellXY s\<rparr>)
          else s)"

definition onUpdateCellCursor :: "real \<Rightarrow> real \<Rightarrow> bool \<Rightarrow> slayer \<Rightarrow> slayer" where
  "onUpdateCellCursor hor ver onPgUpDn s =
     (let s = onUpdateCellResizeMarkers s;
          s = (case s_cellCursor s of
                 Some c \<Rightarrow>
                   if isEmptyRectangle (Some c) then
                     s\<lparr>s_cellMark := map_option (\<lambda>(r, shown). (r, False)) (s_cellMark s)\<rparr>
                   else
                     (let s = scroll_to_cell hor ver onPgUpDn c s;
                          s = (if onPgUpDn
                               then on_users (on_layer (\<lambda>l. l\<lparr>l_onPgUp := None, l_onPgDn := None\<rparr>)) s else s);
                          s = (if s_cellMark s = None then s
                               else s\<lparr>s_dropDown := (s_dropDown s)\<lparr>d_shown := False\<rparr>\<rparr>)
                      in addDropDownMarker (s\<lparr>s_cellMark := Some (c, True)\<rparr>))
               | None \<Rightarrow> s\<lparr>s_cellMark := map_option (\<lambda>(r, shown). (r, False)) (s_cellMark s)\<rparr>)
      in removeDropDownMarker s)"

text \<open>The cursor of the cell, read from a message. The blinking cursor is put at its corner, as wide as the
  first number of the message and at most 285 twips high.\<close>

definition no_cell :: "slayer \<Rightarrow> slayer" where
  "no_cell s =
     s\<lparr>s_cellTwips := new_bounds (pt 0 0) (pt 0 0), s_cellCursor := Some llb_createDefault,
       s_cellXY := Some (Num (-1), Num (-1))\<rparr>"

definition cell_at :: "int \<times> int \<times> int \<times> int \<Rightarrow> xy \<Rightarrow> slayer \<Rightarrow> slayer" where
  "cell_at r xy s =
     (case r of (x, y, w, h) \<Rightarrow>
        let p = ipt (x, y);
            s = s\<lparr>s_cellTwips := new_bounds p (point_add p (ipt (w, h))),
                  s_cellCursor := Some (twips_bounds (s_grid s) r), s_cellXY := Some xy\<rparr>;
            vCursorHeight = (if h < 285 then h else 285);
            s = on_users (\<lambda>u. updateCursorPos (u\<lparr>u_visibleCursor :=
                  twips_bounds (u_grid u) (x, y, x, vCursorHeight)\<rparr>)) s
        in on_users hideCursorIfVisible (scall ''_clipboardContainer.setLatLng'' s))"

definition cell_defaults :: "slayer \<Rightarrow> slayer" where
  "cell_defaults s =
     (let s = s\<lparr>s_cellCursor := Some (case s_cellCursor s of None \<Rightarrow> llb_createDefault | Some c \<Rightarrow> c),
                s_cellXY := Some (case s_cellXY s of None \<Rightarrow> (Num (-1), Num (-1)) | Some p \<Rightarrow> p),
                s_prevXY := Some (case s_prevXY s of None \<Rightarrow> (Num (-1), Num (-1)) | Some p \<Rightarrow> p)\<rparr>
      in on_users (on_layer (\<lambda>l. l\<lparr>l_prevCellCursor :=
           Some (case l_prevCellCursor l of None \<Rightarrow> llb_createDefault | Some c \<Rightarrow> c)\<rparr>)) s)"

definition directions :: "llbounds option \<Rightarrow> llbounds option \<Rightarrow> real \<times> real" where
  "directions prev cell =
     (case cell of
        None \<Rightarrow> (0, 0)
      | Some c \<Rightarrow>
          if isEmptyRectangle (Some c) then (0, 0)
          else case prev of
                 None \<Rightarrow> (sgn (getWest c), sgn (getNorth c))
               | Some p \<Rightarrow>
                   if isEmptyRectangle (Some p) then (sgn (getWest c), sgn (getNorth c))
                   else (sgn (getWest c - getWest p), sgn (getNorth c - getNorth p)))"

text \<open>The cursor was where a page key had been pressed.\<close>

definition after_page_key :: "llbounds \<Rightarrow> tlayer \<Rightarrow> bool" where
  "after_page_key prev l \<longleftrightarrow>
     (case l_onPgUp l of None \<Rightarrow> False | Some b \<Rightarrow> llb_equals b prev) \<or>
     (case l_onPgDn l of None \<Rightarrow> False | Some b \<Rightarrow> llb_equals b prev)"

definition cell_cursor_update :: "slayer \<Rightarrow> slayer" where
  "cell_cursor_update s =
     (case (l_prevCellCursor (s_layer s), s_cellCursor s) of
        (Some prev, Some c) \<Rightarrow>
          (let (hor, ver) = directions (Some prev) (Some c);
               changed = (\<not> isEmptyRectangle (Some c) \<and> \<not> llb_equals prev c);
               paged = (changed \<and> after_page_key prev (s_layer s));
               s = (if changed then on_users (on_layer (\<lambda>l. l\<lparr>l_prevCellCursor := Some (copy_llb c)\<rparr>)) s else s);
               s = onUpdateCellCursor hor ver paged s
           in if s_cellArea s = None \<and> s_selections s \<noteq> [] then removeSelection s else s)
      | _ \<Rightarrow> s)"

definition onCellCursorMsg :: "string \<Rightarrow> slayer \<Rightarrow> slayer" where
  "onCellCursorMsg textMsg s =
     (let s = cell_defaults s
      in if mentions ''EMPTY'' textMsg \<or> \<not> s_editing s then cell_cursor_update (no_cell s)
         else
           case four_numbers textMsg of
             None \<Rightarrow> scall ''TypeError'' s
           | Some r \<Rightarrow>
               (let ns = numbers textMsg
                in cell_cursor_update (cell_at r (number_at ns 4, number_at ns 5) s)))"

section \<open>Areas\<close>

text \<open>Areas the server reports while the document is edited; a message without numbers takes the area
  away. \<open>None\<close>: some numbers are missing and the source throws.\<close>

definition read_area :: "string \<Rightarrow> slayer \<Rightarrow> llbounds option option" where
  "read_area textMsg s =
     (if digit_runs textMsg \<noteq> [] \<and> s_editing s
      then map_option (\<lambda>r. Some (twips_bounds (s_grid s) r)) (four_numbers textMsg)
      else Some None)"

text \<open>\<open>_updateScrollOnCellSelection\<close>\<close>

definition area_scroll :: "llbounds \<Rightarrow> llbounds \<Rightarrow> llbounds \<Rightarrow> llbounds \<Rightarrow> real \<times> real" where
  "area_scroll b c old new =
     (let spacingX = \<bar>getEast c - getWest c\<bar> / 4; spacingY = \<bar>getSouth c - getNorth c\<bar> / 2;
          x = (if getEast new > getEast b \<and> getEast new > getEast old then getEast new - getEast b + spacingX
               else if getWest new < getWest b \<and> getWest new < getWest old then getWest new - getWest b - spacingX
               else 0);
          y = (if getNorth new > getNorth b \<and> getNorth new > getNorth old then getNorth new - getNorth b + spacingY
               else if getSouth new < getSouth b \<and> getSouth new < getSouth old then getSouth new - getSouth b - spacingY
               else 0)
      in (x, y))"

definition updateScrollOnCellSelection :: "llbounds option \<Rightarrow> llbounds \<Rightarrow> slayer \<Rightarrow> slayer" where
  "updateScrollOnCellSelection oldSelection new s =
     (case (oldSelection, map_getBounds (s_view s)) of
        (Some old, Some b) \<Rightarrow>
          if s_docType s = ''spreadsheet'' \<and> \<not> llb_contains b new \<and> \<not> llb_equals new old then
            (case s_cellCursor s of
               None \<Rightarrow> scall ''TypeError'' s
             | Some c \<Rightarrow>
                 (let d = area_scroll b c old new
                  in if d = (0, 0) then s else on_users (scrollto (moved_center b d) None) s))
          else s
      | _ \<Rightarrow> s)"

definition area_moved :: "llbounds option \<Rightarrow> llbounds option \<Rightarrow> slayer \<Rightarrow> slayer" where
  "area_moved old new s = (case new of None \<Rightarrow> s | Some b \<Rightarrow> updateScrollOnCellSelection old b s)"

definition onTextSelectionEndMsg :: "string \<Rightarrow> slayer \<Rightarrow> slayer" where
  "onTextSelectionEndMsg textMsg s =
     (case read_area textMsg s of
        None \<Rightarrow> scall ''Error'' s | Some a \<Rightarrow> area_moved (s_end s) a (s\<lparr>s_end := a\<rparr>))"

definition onTextSelectionStartMsg :: "string \<Rightarrow> slayer \<Rightarrow> slayer" where
  "onTextSelectionStartMsg textMsg s =
     (case read_area textMsg s of
        None \<Rightarrow> scall ''Error'' s | Some a \<Rightarrow> area_moved (s_start s) a (s\<lparr>s_start := a\<rparr>))"

definition onCellSelectionAreaMsg :: "string \<Rightarrow> slayer \<Rightarrow> slayer" where
  "onCellSelectionAreaMsg textMsg s =
     (case read_area textMsg s of
        None \<Rightarrow> scall ''Error'' s | Some a \<Rightarrow> area_moved (s_cellArea s) a (s\<lparr>s_cellArea := a\<rparr>))"

definition onCellAutoFillAreaMsg :: "string \<Rightarrow> slayer \<Rightarrow> slayer" where
  "onCellAutoFillAreaMsg textMsg s =
     (case read_area textMsg s of None \<Rightarrow> scall ''Error'' s | Some a \<Rightarrow> s\<lparr>s_fillArea := a\<rparr>)"

section \<open>Dragging the handles and markers\<close>

text \<open>A drag event: the pointer on the page, and where the marker is on the map then (the code moves it
  after the pointer by DOM positions).\<close>

datatype drag = DragStart latlng | Drag int int latlng | DragEnd latlng

definition postSelectTextEvent :: "sconf \<Rightarrow> string \<Rightarrow> int \<times> int \<Rightarrow> slayer \<Rightarrow> slayer" where
  "postSelectTextEvent cf type p =
     ssend cf (''selecttext type='' @ type @ '' x='' @ show_int (fst p) @ '' y='' @ show_int (snd p))"

definition autoscroll :: "slayer \<Rightarrow> slayer" where
  "autoscroll s = on_users (ufire ''handleautoscroll'' []) s"

definition drag_done :: "slayer \<Rightarrow> slayer" where
  "drag_done s = on_users (ufire ''scrollvelocity'' [(''vx'', JInt 0), (''vy'', JInt 0)]) (scall ''focus'' s)"

definition set_handle :: "bool \<Rightarrow> (hmark \<Rightarrow> hmark) \<Rightarrow> slayer \<Rightarrow> slayer" where
  "set_handle start f s =
     sync_handles (if start then s\<lparr>s_startMark := f (s_startMark s)\<rparr> else s\<lparr>s_endMark := f (s_endMark s)\<rparr>)"

definition drag_handle :: "sconf \<Rightarrow> bool \<Rightarrow> latlng \<Rightarrow> slayer \<Rightarrow> slayer" where
  "drag_handle cf start p s =
     (let s = set_handle start (\<lambda>m. m\<lparr>h_pos := p\<rparr>) s
      in postSelectTextEvent cf (if start then ''start'' else ''end'') (latLngToTwips (s_grid s) p None) s)"

definition onSelectionHandleDrag :: "sconf \<Rightarrow> bool \<Rightarrow> drag \<Rightarrow> slayer \<Rightarrow> slayer" where
  "onSelectionHandleDrag cf start e s =
     (case e of
        DragStart p \<Rightarrow> s
      | Drag pageX pageY p \<Rightarrow>
          (let s = set_handle start (\<lambda>m. m\<lparr>h_dragged := True\<rparr>) s
           in if pageX = 0 \<and> pageY = 0 then s else drag_handle cf start p (autoscroll s))
      | DragEnd p \<Rightarrow> drag_handle cf start p (drag_done (set_handle start (\<lambda>m. m\<lparr>h_dragged := False\<rparr>) s)))"

datatype cell_marker = ResizeStart | ResizeEnd | Fill

definition set_marker :: "cell_marker \<Rightarrow> (hmark \<Rightarrow> hmark) \<Rightarrow> slayer \<Rightarrow> slayer" where
  "set_marker k f s =
     (case k of
        ResizeStart \<Rightarrow> s\<lparr>s_resizeStart := f (s_resizeStart s)\<rparr>
      | ResizeEnd \<Rightarrow> s\<lparr>s_resizeEnd := f (s_resizeEnd s)\<rparr>
      | Fill \<Rightarrow> s\<lparr>s_fillMark := f (s_fillMark s)\<rparr>)"

definition post_mouse :: "sconf \<Rightarrow> string \<Rightarrow> int \<times> int \<Rightarrow> slayer \<Rightarrow> slayer" where
  "post_mouse cf type p = on_users (on_layer (postMouseEvent cf type (fst p) (snd p) 1 1 0))"

text \<open>The middle of a marker, in twips.\<close>

definition marker_twips :: "slayer \<Rightarrow> latlng \<Rightarrow> int \<times> int" where
  "marker_twips s p =
     latLngToTwips (s_grid s) (unproject (s_view s) (point_add (project (s_view s) p None)
       (pt (px (s_markSize s) / 2) (py (s_markSize s) / 2))) None) None"

definition drag_marker :: "sconf \<Rightarrow> cell_marker \<Rightarrow> string \<Rightarrow> bool \<Rightarrow> latlng \<Rightarrow> slayer \<Rightarrow> slayer" where
  "drag_marker cf k buttonType ended p s =
     (let s = set_marker k (\<lambda>m. m\<lparr>h_pos := p\<rparr>) s; q = marker_twips s p
      in case k of
           Fill \<Rightarrow> post_mouse cf buttonType q s
         | _ \<Rightarrow>
             (let s = postSelectTextEvent cf (if k = ResizeStart then ''start'' else ''end'') q s
              in if ended then onUpdateCellResizeMarkers s else s))"

definition onCellResizeMarkerDrag :: "sconf \<Rightarrow> cell_marker \<Rightarrow> drag \<Rightarrow> slayer \<Rightarrow> slayer" where
  "onCellResizeMarkerDrag cf k e s =
     (case e of
        DragStart p \<Rightarrow>
          (let s = set_marker k (\<lambda>m. m\<lparr>h_dragged := True\<rparr>) s
           in if k = Fill then
                (case s_fillArea s of
                   None \<Rightarrow> scall ''TypeError'' s
                 | Some a \<Rightarrow>
                     drag_marker cf k ''move'' False p
                       (post_mouse cf ''buttondown'' (latLngToTwips (s_grid s) (llb_getCenter a) None) s))
              else drag_marker cf k '''' False p s)
      | Drag pageX pageY p \<Rightarrow>
          if pageX = 0 \<and> pageY = 0 then s else drag_marker cf k ''move'' False p (autoscroll s)
      | DragEnd p \<Rightarrow>
          drag_marker cf k ''buttonup'' True p (drag_done (set_marker k (\<lambda>m. m\<lparr>h_dragged := False\<rparr>) s)))"

section \<open>A document for the examples\<close>

text \<open>A text document that is edited, with nothing selected.\<close>

definition no_graphic :: llbounds where
  "no_graphic = new_llbounds (ll 0 0) (ll 0 0)"

definition demo_mark :: hmark where
  "demo_mark = \<lparr>h_pos = ll 0 0, h_dragged = False, h_shown = False, h_asStart = True\<rparr>"

definition demo_selection :: slayer where
  "demo_selection = \<lparr>s_users = on_layer (on_grid (\<lambda>g. g\<lparr>g_net := open_session\<lparr>perm := ''edit''\<rparr>\<rparr>)) demo_users,
     s_mobile = False, s_markSize = pt 24 24, s_selections = [], s_start = None, s_end = None, s_content = None,
     s_selectedText = None, s_request = False, s_startMark = demo_mark, s_endMark = demo_mark\<lparr>h_asStart := False\<rparr>,
     s_cellTwips = new_bounds (pt 0 0) (pt 0 0), s_cellCursor = Some llb_createDefault, s_cellXY = None, s_prevXY = None,
     s_cellArea = None, s_fillArea = None, s_cellMark = None, s_validated = None,
     s_dropDown = \<lparr>d_pos = ll 0 0, d_shown = False, d_icon = None\<rparr>, s_resizeStart = demo_mark, s_resizeEnd = demo_mark,
     s_fillMark = demo_mark, s_twips = new_bounds (pt 0 0) (pt 0 0), s_graphic = no_graphic, s_extra = JUndef,
     s_drag = None, s_angle = 0, s_marker = None, s_cacheSVG = [], s_overlay = None, s_delay = False,
     s_context = Some '''', s_table = False\<rparr>"

section \<open>Facts\<close>

definition shifted :: "llbounds \<Rightarrow> real \<times> real \<Rightarrow> llbounds" where
  "shifted b d =
     \<lparr>southWest = ll (lat (southWest b) + snd d) (lng (southWest b) + fst d),
      northEast = ll (lat (northEast b) + snd d) (lng (northEast b) + fst d)\<rparr>"

lemma moved_center_shifted: "moved_center b d = llb_getCenter (shifted b d)"
  by (simp add: moved_center_def shifted_def llb_getCenter_def field_simps)

lemma step_scroll_contains:
  assumes "llb_wf b" "llb_wf c" "getEast c - getWest c + 6 \<le> getEast b - getWest b"
    "(getNorth c - getSouth c) * 5 / 4 \<le> getNorth b - getSouth b"
  shows "llb_contains (shifted b (step_scroll b c)) c"
proof -
  have wf: "getWest c \<le> getEast c" "getSouth c \<le> getNorth c"
    using assms(2) by (simp_all add: llb_wf_def getWest_def getEast_def getSouth_def getNorth_def)
  define x where "x = fst (step_scroll b c)"
  define y where "y = snd (step_scroll b c)"
  have x: "getWest b + x \<le> getWest c" "getEast c \<le> getEast b + x"
    using assms(3) wf(1) unfolding x_def step_scroll_def Let_def fst_conv by (auto split: if_splits)
  have "\<bar>getSouth c - getNorth c\<bar> = getNorth c - getSouth c" using wf(2) by simp
  then have y: "getSouth b + y \<le> getSouth c" "getNorth c \<le> getNorth b + y"
    using assms(4) wf(2) unfolding y_def step_scroll_def Let_def snd_conv by (auto simp: field_simps split: if_splits)
  show ?thesis using x y
    by (auto simp: llb_contains_def shifted_def x_def y_def getWest_def getEast_def getSouth_def getNorth_def Let_def)
qed

lemma shifted_zero: "shifted b (0, 0) = b"
  by (cases b) (auto simp: shifted_def)

lemma log_scrollto:
  "s_log (on_users (scrollto p (Some True)) s) = s_log s @
     [Fired ''scrollto'' (JObj [(''x'', JInt (fst (scroll_target (s_view s) p))),
        (''y'', JInt (snd (scroll_target (s_view s) p))), (''calledFromInvalidateCursorMsg'', JBool True)])]"
  by (simp add: on_users_def scrollto_def ufire_def on_layer_def lemit_def on_grid_def gemit_def emit_def Let_def)

text \<open>
  the cell cursor is scrolled into view. When it has moved to a cell that is not wholly visible, without a
  page key, and the cell with its margins fits into the view, one request to scroll goes out, and
  the view it asks for, of the same size and moved in a line, contains the whole cell.
\<close>

theorem cell_scrolled_into_view:
  assumes "map_getBounds (s_view s) = Some b" "\<not> llb_contains b c" "llb_wf b" "llb_wf c"
    and "s_cellXY s = Some p" "s_prevXY s = Some q" "\<not> xy_equals p q" "hor \<noteq> 0 \<or> ver \<noteq> 0"
    and "getEast c - getWest c + 6 \<le> getEast b - getWest b" "(getNorth c - getSouth c) * 5 / 4 \<le> getNorth b - getSouth b"
  shows "\<exists>d x y. s_log (scroll_to_cell hor ver False c s) = s_log s @ [Fired ''scrollto''
      (JObj [(''x'', JInt x), (''y'', JInt y), (''calledFromInvalidateCursorMsg'', JBool True)])] \<and>
    (x, y) = scroll_target (s_view s) (llb_getCenter (shifted b d)) \<and> llb_contains (shifted b d) c"
proof -
  let ?d = "step_scroll b c"
  have c: "llb_contains (shifted b ?d) c" using assms by (intro step_scroll_contains)
  then have "?d \<noteq> (0, 0)" using assms(2) shifted_zero by metis
  then have "s_log (scroll_to_cell hor ver False c s) = s_log (on_users (scrollto (moved_center b ?d) (Some True)) s)"
    using assms(1,2,5-8) by (auto simp: scroll_to_cell_def cell_cursor_scroll_def Let_def)
  then show ?thesis using c unfolding log_scrollto moved_center_shifted
    by (intro exI [of _ ?d]) (auto simp: prod_eq_iff)
qed

lemma cell_scrolled_into_view_witness:
  "\<exists>b d x y. map_getBounds demo_view = Some b \<and>
    s_log (scroll_to_cell 1 0 False (new_llbounds (ll (- 20) 1000) (ll (- 10) 1010))
      (demo_selection\<lparr>s_cellXY := Some (Num 3, Num 0), s_prevXY := Some (Num 2, Num 0)\<rparr>)) = s_log demo_selection @
      [Fired ''scrollto'' (JObj [(''x'', JInt x), (''y'', JInt y), (''calledFromInvalidateCursorMsg'', JBool True)])] \<and>
    (x, y) = scroll_target demo_view (llb_getCenter (shifted b d)) \<and>
    llb_contains (shifted b d) (new_llbounds (ll (- 20) 1000) (ll (- 10) 1010))"
proof -
  let ?c = "new_llbounds (ll (- 20) 1000) (ll (- 10) 1010)"
  let ?s = "demo_selection\<lparr>s_cellXY := Some (Num 3, Num 0), s_prevXY := Some (Num 2, Num 0)\<rparr>"
  have "map_option (\<lambda>b. getEast b < 1000 \<and> 16 \<le> getEast b - getWest b \<and> 50 / 4 \<le> getNorth b - getSouth b)
      (map_getBounds demo_view) = Some True" by code_simp
  then obtain b where b: "map_getBounds demo_view = Some b" "getEast b < 1000" "16 \<le> getEast b - getWest b"
    "50 / 4 \<le> getNorth b - getSouth b" by auto
  have v: "s_view ?s = demo_view" by (simp add: demo_selection_def on_layer_def on_grid_def demo_users_def demo_layer_def demo_grid_def)
  have wf: "llb_wf b" using b(1) by (auto simp: map_getBounds_def)
  have c: "getEast ?c = 1010" "getWest ?c = 1000" "getNorth ?c = - 10" "getSouth ?c = - 20"
    by (simp_all add: llb_defs getEast_def getWest_def getNorth_def getSouth_def)
  have out: "\<not> llb_contains b ?c" using b(2) c by (auto simp: llb_contains_def getEast_def getWest_def Let_def)
  have "\<exists>d x y. s_log (scroll_to_cell 1 0 False ?c ?s) = s_log ?s @
      [Fired ''scrollto'' (JObj [(''x'', JInt x), (''y'', JInt y), (''calledFromInvalidateCursorMsg'', JBool True)])] \<and>
    (x, y) = scroll_target (s_view ?s) (llb_getCenter (shifted b d)) \<and> llb_contains (shifted b d) ?c"
    by (rule cell_scrolled_into_view [where p = "(Num 3, Num 0)" and q = "(Num 2, Num 0)"])
      (use b wf v out c in \<open>simp_all add: xy_equals_def\<close>)
  with b(1) v show ?thesis by auto
qed

text \<open>What the update of the cell cursor leaves as it is.\<close>

definition page_keys :: "slayer \<Rightarrow> llbounds option \<times> llbounds option" where
  "page_keys s = (l_onPgUp (s_layer s), l_onPgDn (s_layer s))"

definition same_own :: "slayer \<Rightarrow> slayer \<Rightarrow> bool" where
  "same_own s t \<longleftrightarrow> u_visibleCursor (s_users t) = u_visibleCursor (s_users s) \<and> s_docType t = s_docType s \<and>
     l_prevCellCursor (s_layer t) = l_prevCellCursor (s_layer s)"

lemma own_users: "s_users t = s_users s \<Longrightarrow> same_own s t \<and> page_keys t = page_keys s"
  by (simp add: same_own_def page_keys_def)

lemma own_trans: "same_own s t \<Longrightarrow> same_own t w \<Longrightarrow> same_own s w"
  by (simp add: same_own_def)

lemma own_call: "same_own s (scall f s) \<and> page_keys (scall f s) = page_keys s"
  by (simp add: same_own_def page_keys_def scall_def on_users_def ucall_def on_layer_def lcall_def lemit_def on_grid_def)

lemma own_scroll: "same_own s (on_users (scrollto p b) s) \<and> page_keys (on_users (scrollto p b) s) = page_keys s"
  by (simp add: same_own_def page_keys_def on_users_def scrollto_def ufire_def on_layer_def lemit_def on_grid_def Let_def)

lemma markers_cases:
  obtains (same) "onUpdateCellResizeMarkers s = s"
  | (placed) r a b where "onUpdateCellResizeMarkers s = place_fill r (s\<lparr>s_resizeStart := a, s_resizeEnd := b\<rparr>)"
  | (hidden) a b c where "onUpdateCellResizeMarkers s = s\<lparr>s_resizeStart := a, s_resizeEnd := b, s_fillMark := c\<rparr>"
proof -
  define t where "t = onUpdateCellResizeMarkers s"
  have "t = s \<or> (\<exists>r a b. t = place_fill r (s\<lparr>s_resizeStart := a, s_resizeEnd := b\<rparr>)) \<or>
      (\<exists>a b c. t = s\<lparr>s_resizeStart := a, s_resizeEnd := b, s_fillMark := c\<rparr>)"
    using t_def [symmetric] unfolding onUpdateCellResizeMarkers_def
    by (simp only: split: if_split_asm option.split_asm) blast+
  then show ?thesis using that unfolding t_def by blast
qed

lemma users_markers: "s_users (onUpdateCellResizeMarkers s) = s_users s"
  "s_cellCursor (onUpdateCellResizeMarkers s) = s_cellCursor s"
  by (cases s rule: markers_cases; simp add: place_fill_def)+

lemma own_step: "same_own s (scroll_to_cell h v p c s) \<and> page_keys (scroll_to_cell h v p c s) = page_keys s"
proof -
  have "same_own s (t\<lparr>s_prevXY := x\<rparr>) \<and> page_keys (t\<lparr>s_prevXY := x\<rparr>) = page_keys s"
    if "same_own s t \<and> page_keys t = page_keys s" for t x
    using that by (simp add: same_own_def page_keys_def)
  note k = this [OF own_scroll] this [of s]
  show ?thesis
    using k own_users [OF refl, of s] by (auto simp: scroll_to_cell_def Let_def split: option.split)
qed

lemma own_dropDown: "same_own s (addDropDownMarker s) \<and> page_keys (addDropDownMarker s) = page_keys s"
  using own_call [of s] own_users [OF refl, of s]
  by (simp add: addDropDownMarker_def same_own_def page_keys_def split: option.split)

lemma own_cell:
  assumes "s_cellCursor s = Some c" "\<not> isEmptyRectangle (Some c)"
  shows "same_own s (onUpdateCellCursor h v p s) \<and>
    page_keys (onUpdateCellCursor h v p s) = (if p then (None, None) else page_keys s)"
proof -
  define a where "a = scroll_to_cell h v p c (onUpdateCellResizeMarkers s)"
  define b where "b = (if p then on_users (on_layer (\<lambda>l. l\<lparr>l_onPgUp := None, l_onPgDn := None\<rparr>)) a else a)"
  define d where "d = (if s_cellMark b = None then b else b\<lparr>s_dropDown := (s_dropDown b)\<lparr>d_shown := False\<rparr>\<rparr>)\<lparr>s_cellMark := Some (c, True)\<rparr>"
  have "same_own s a \<and> page_keys a = page_keys s"
    using own_step [of "onUpdateCellResizeMarkers s" h v p c] own_users [OF users_markers(1), of s]
    by (auto simp: a_def intro: own_trans)
  then have "same_own s b \<and> page_keys b = (if p then (None, None) else page_keys s)"
    by (auto simp: b_def same_own_def page_keys_def on_users_def on_layer_def)
  moreover have "same_own b d \<and> page_keys d = page_keys b" by (rule own_users) (simp add: d_def)
  ultimately have d: "same_own s d \<and> page_keys d = (if p then (None, None) else page_keys s)" by (auto intro: own_trans)
  have e: "same_own s (addDropDownMarker d) \<and> page_keys (addDropDownMarker d) = (if p then (None, None) else page_keys s)"
    using own_dropDown [of d] d by (auto intro: own_trans)
  have "onUpdateCellCursor h v p s = removeDropDownMarker (addDropDownMarker d)"
    unfolding onUpdateCellCursor_def Let_def a_def b_def d_def
    by (simp only: users_markers assms option.case if_False)
  moreover have "s_users (removeDropDownMarker w) = s_users w" for w by (simp add: removeDropDownMarker_def)
  ultimately show ?thesis using e own_users [of "removeDropDownMarker (addDropDownMarker d)" "addDropDownMarker d"]
    by (auto intro: own_trans)
qed

lemma own_remove: "same_own s (removeSelection s) \<and> page_keys (removeSelection s) = page_keys s"
  by (simp add: removeSelection_def sync_handles_def on_users_def same_own_def page_keys_def)

lemma own_update:
  assumes "s_cellCursor s = Some c" "\<not> isEmptyRectangle (Some c)" "l_prevCellCursor (s_layer s) = Some prev"
  shows "u_visibleCursor (s_users (cell_cursor_update s)) = u_visibleCursor (s_users s) \<and>
    s_docType (cell_cursor_update s) = s_docType s \<and>
    l_prevCellCursor (s_layer (cell_cursor_update s)) = Some (if llb_equals prev c then prev else copy_llb c) \<and>
    page_keys (cell_cursor_update s) =
      (if \<not> llb_equals prev c \<and> after_page_key prev (s_layer s) then (None, None) else page_keys s)"
proof -
  let ?hv = "directions (Some prev) (Some c)"
  define p where "p = (\<not> llb_equals prev c \<and> after_page_key prev (s_layer s))"
  define t where "t = (if \<not> llb_equals prev c then on_users (on_layer (\<lambda>l. l\<lparr>l_prevCellCursor := Some (copy_llb c)\<rparr>)) s else s)"
  have t: "s_cellCursor t = Some c" "u_visibleCursor (s_users t) = u_visibleCursor (s_users s)" "s_docType t = s_docType s"
    "l_prevCellCursor (s_layer t) = Some (if llb_equals prev c then prev else copy_llb c)" "page_keys t = page_keys s"
    using assms by (auto simp: t_def on_users_def on_layer_def page_keys_def)
  define w where "w = onUpdateCellCursor (fst ?hv) (snd ?hv) p t"
  have w: "same_own t w" "page_keys w = (if p then (None, None) else page_keys t)"
    using own_cell [OF t(1) assms(2)] by (auto simp: w_def)
  have "cell_cursor_update s = (if s_cellArea w = None \<and> s_selections w \<noteq> [] then removeSelection w else w)"
    unfolding cell_cursor_update_def Let_def w_def t_def p_def case_prod_unfold
    by (simp only: assms option.case prod.sel not_False_eq_True simp_thms)
  moreover have "same_own t (removeSelection w) \<and> page_keys (removeSelection w) = page_keys w"
    using own_remove [of w] w(1) by (auto intro: own_trans)
  ultimately have "same_own t (cell_cursor_update s)" "page_keys (cell_cursor_update s) = (if p then (None, None) else page_keys t)"
    using w by auto
  then show ?thesis using t by (simp add: same_own_def p_def)
qed

lemma cell_message:
  assumes "s_editing s" "\<not> mentions ''EMPTY'' m" "four_numbers m = Some r"
  shows "onCellCursorMsg m s = cell_cursor_update (cell_at r (number_at (numbers m) 4, number_at (numbers m) 5) (cell_defaults s))"
  using assms by (simp add: onCellCursorMsg_def Let_def cell_defaults_def on_users_def on_layer_def)

lemma hide_own:
  "u_visibleCursor (hideCursorIfVisible u) = u_visibleCursor u"
  "l_prevCellCursor (u_layer (hideCursorIfVisible u)) = l_prevCellCursor (u_layer u)"
  "l_onPgUp (u_layer (hideCursorIfVisible u)) = l_onPgUp (u_layer u)"
  "l_onPgDn (u_layer (hideCursorIfVisible u)) = l_onPgDn (u_layer u)" "u_docType (hideCursorIfVisible u) = u_docType u"
  by (simp_all add: hideCursorIfVisible_def updateCursorAndOverlay_def marker_on_map_def updateCursorPos_def on_layer_def)

lemma cell_at_sel:
  "s_cellCursor (cell_at r xy s) = Some (twips_bounds (s_grid s) r)"
  "l_prevCellCursor (s_layer (cell_at r xy s)) = l_prevCellCursor (s_layer s)"
  "page_keys (cell_at r xy s) = page_keys s" "s_docType (cell_at r xy s) = s_docType s"
  "u_visibleCursor (s_users (cell_at (x, y, w, h) xy s)) = twips_bounds (s_grid s) (x, y, x, min h 285)"
  by (simp_all add: cell_at_def Let_def case_prod_unfold on_users_def page_keys_def hide_own updateCursorPos_def
      scall_def ucall_def on_layer_def lcall_def lemit_def on_grid_def min_def)

lemma cell_defaults_sel:
  "s_grid (cell_defaults s) = s_grid s" "page_keys (cell_defaults s) = page_keys s" "s_docType (cell_defaults s) = s_docType s"
  "l_prevCellCursor (s_layer (cell_defaults s)) =
     Some (case l_prevCellCursor (s_layer s) of None \<Rightarrow> llb_createDefault | Some c \<Rightarrow> c)"
  by (simp_all add: cell_defaults_def Let_def on_users_def on_layer_def page_keys_def)

lemma cell_message_facts:
  assumes "s_editing s" "\<not> mentions ''EMPTY'' m" "four_numbers m = Some (x, y, w, h)"
    "c = twips_bounds (s_grid s) (x, y, w, h)" "\<not> isEmptyRectangle (Some c)"
    "prev = (case l_prevCellCursor (s_layer s) of None \<Rightarrow> llb_createDefault | Some c \<Rightarrow> c)"
  shows "u_visibleCursor (s_users (onCellCursorMsg m s)) = twips_bounds (s_grid s) (x, y, x, min h 285)"
    "s_docType (onCellCursorMsg m s) = s_docType s"
    "l_prevCellCursor (s_layer (onCellCursorMsg m s)) = Some (if llb_equals prev c then prev else copy_llb c)"
    "page_keys (onCellCursorMsg m s) =
       (if \<not> llb_equals prev c \<and> after_page_key prev (s_layer s) then (None, None) else page_keys s)"
proof -
  let ?t = "cell_at (x, y, w, h) (number_at (numbers m) 4, number_at (numbers m) 5) (cell_defaults s)"
  have t: "s_cellCursor ?t = Some c" "l_prevCellCursor (s_layer ?t) = Some prev" "page_keys ?t = page_keys s"
    "s_docType ?t = s_docType s"
    "u_visibleCursor (s_users ?t) = twips_bounds (s_grid s) (x, y, x, min h 285)"
    using assms by (simp_all only: cell_at_sel cell_defaults_sel)
  moreover have "after_page_key prev (s_layer ?t) = after_page_key prev (s_layer s)"
    using t(3) by (simp add: after_page_key_def page_keys_def)
  moreover have "onCellCursorMsg m s = cell_cursor_update ?t" by (rule cell_message [OF assms(1-3)])
  ultimately show "u_visibleCursor (s_users (onCellCursorMsg m s)) = twips_bounds (s_grid s) (x, y, x, min h 285)"
    "s_docType (onCellCursorMsg m s) = s_docType s"
    "l_prevCellCursor (s_layer (onCellCursorMsg m s)) = Some (if llb_equals prev c then prev else copy_llb c)"
    "page_keys (onCellCursorMsg m s) =
       (if \<not> llb_equals prev c \<and> after_page_key prev (s_layer s) then (None, None) else page_keys s)"
    using own_update [OF t(1) assms(5) t(2)] by simp_all
qed

text \<open>
  the cell cursor makes the text cursor as wide as its column is far away. The cursor that is put at the
  corner of a cell, at most 285 twips high, gets the horizontal position of the cell as its width.
\<close>

theorem cell_cursor_width:
  assumes "s_editing s" "\<not> mentions ''EMPTY'' m" "four_numbers m = Some (x, y, w, h)"
    and "\<not> isEmptyRectangle (Some (twips_bounds (s_grid s) (x, y, w, h)))"
  shows "u_visibleCursor (s_users (onCellCursorMsg m s)) = twips_bounds (s_grid s) (x, y, x, min h 285)"
  by (rule cell_message_facts(1) [OF assms(1-3) refl assms(4) refl])

lemma mentions_first: "w \<noteq> [] \<Longrightarrow> hd w \<notin> set t \<Longrightarrow> \<not> mentions w t"
  by (cases w) (auto simp: mentions_def suffix_def startsWith_iff)

lemma demo_scale: "crs_scale crs_simple 10 = 60466176 / 9765625"
  by (simp add: crs_simple_def power_divide)

lemma demo_cell:
  "four_numbers ''cellcursor: 40, 10, 20, 5, 2, 0'' = Some (40, 10, 20, 5)"
  "\<not> isEmptyRectangle (Some (twips_bounds demo_grid (40, 10, 20, 5)))"
  "\<not> mentions ''EMPTY'' ''cellcursor: 40, 10, 20, 5, 2, 0''"
proof -
  show "four_numbers ''cellcursor: 40, 10, 20, 5, 2, 0'' = Some (40, 10, 20, 5)" by code_simp
  show "\<not> mentions ''EMPTY'' ''cellcursor: 40, 10, 20, 5, 2, 0''" by (simp add: mentions_first)
qed (simp add: twips_bounds_def twipsToLatLng_def demo_grid_def demo_view_def ipt_def unproject_def zoom_or_def
    simple_of_point point_op_defs isEmptyRectangle_def is_zero_def latlng_equals_def llb_defs demo_scale)

lemma demo_selection_sel:
  "s_editing demo_selection" "s_view demo_selection = demo_view" "l_prevCellCursor (s_layer demo_selection) = None"
  "twips_bounds (s_grid demo_selection) r = twips_bounds demo_grid r"
  by (simp_all add: demo_selection_def on_layer_def on_grid_def demo_users_def demo_layer_def demo_grid_def twips_bounds_def
      twipsToLatLng_def)

lemma cell_cursor_width_witness:
  "u_visibleCursor (s_users (onCellCursorMsg ''cellcursor: 40, 10, 20, 5, 2, 0'' demo_selection)) =
     twips_bounds demo_grid (40, 10, 40, 5)"
  using cell_cursor_width [OF demo_selection_sel(1) demo_cell(3,1)] demo_cell(2) by (simp add: demo_selection_sel)

text \<open>
  a page key works again once the cell cursor has moved. Page up or page down in a spreadsheet is held back
  after it was pressed; the message that the cursor is in another cell than it was when the key was
  pressed releases both keys.
\<close>

theorem page_key_released:
  assumes "s_editing s" "\<not> mentions ''EMPTY'' m" "four_numbers m = Some (x, y, w, h)"
    and "c = twips_bounds (s_grid s) (x, y, w, h)" "\<not> isEmptyRectangle (Some c)"
    and "l_prevCellCursor (s_layer s) = Some prev" "l_onPgUp (s_layer s) = Some b \<or> l_onPgDn (s_layer s) = Some b"
    and "llb_equals b prev" "\<not> llb_equals prev c" "s_docType s = ''spreadsheet''"
  shows "page_key ''input'' 1030 (s_layer (onCellCursorMsg m s)) =
      Some ((s_layer (onCellCursorMsg m s))\<lparr>l_onPgUp := Some (copy_llb (copy_llb c))\<rparr>) \<and>
    page_key ''input'' 1031 (s_layer (onCellCursorMsg m s)) =
      Some ((s_layer (onCellCursorMsg m s))\<lparr>l_onPgDn := Some (copy_llb (copy_llb c))\<rparr>)"
proof -
  have prev: "prev = (case l_prevCellCursor (s_layer s) of None \<Rightarrow> llb_createDefault | Some c \<Rightarrow> c)" using assms(6) by simp
  have "after_page_key prev (s_layer s)" using assms(7,8) by (auto simp: after_page_key_def)
  with cell_message_facts(2-4) [OF assms(1-5) prev] assms(9,10)
  have "l_prevCellCursor (s_layer (onCellCursorMsg m s)) = Some (copy_llb c)" "page_keys (onCellCursorMsg m s) = (None, None)"
    "s_docType (onCellCursorMsg m s) = ''spreadsheet''" by simp_all
  then show ?thesis by (simp add: page_key_def page_keys_def)
qed

lemma page_key_released_witness:
  "\<exists>s p. l_onPgUp (s_layer s) = Some p \<and> page_key ''input'' 1030 (s_layer s) = None \<and>
     page_key ''input'' 1030 (s_layer (onCellCursorMsg ''cellcursor: 40, 10, 20, 5, 2, 0'' s)) \<noteq> None"
proof -
  let ?c = "twips_bounds demo_grid (40, 10, 20, 5)"
  let ?p = "new_llbounds (ll 0 0) (ll 0 0)"
  define s where "s = on_users (on_layer (\<lambda>l. l\<lparr>l_docType := ''spreadsheet'', l_prevCellCursor := Some ?p, l_onPgUp := Some ?p\<rparr>))
    demo_selection"
  have s: "s_editing s" "l_prevCellCursor (s_layer s) = Some ?p" "l_onPgUp (s_layer s) = Some ?p" "s_docType s = ''spreadsheet''"
    "twips_bounds (s_grid s) (40, 10, 20, 5) = ?c"
    using demo_selection_sel by (simp_all add: s_def on_users_def on_layer_def)
  have eq: "llb_equals ?p ?p" by (simp add: llb_equals_def latlng_equals_def)
  have ne: "\<not> llb_equals ?p ?c"
    using demo_cell(2) by (auto simp: llb_equals_def isEmptyRectangle_def is_zero_def latlng_equals_def llb_defs)
  have "page_key ''input'' 1030 (s_layer (onCellCursorMsg ''cellcursor: 40, 10, 20, 5, 2, 0'' s)) \<noteq> None"
    using page_key_released [OF s(1) demo_cell(3,1) s(5) [symmetric] demo_cell(2) s(2) disjI1 [OF s(3)] eq ne s(4)] by simp
  moreover have "page_key ''input'' 1030 (s_layer s) = None" using s by (simp add: page_key_def)
  ultimately show ?thesis using s(3) by blast
qed

text \<open>
  the handle of the fill area vanishes while it is dragged. An update of the markers takes the handle
  off the map when it is being dragged, and leaves it where it is when there is no area any more.
\<close>

theorem fill_handle_vanishes:
  assumes "s_mobile s" "\<not> isEmptyRectangle (s_cellCursor s)"
  shows "h_shown (s_fillMark (onUpdateCellResizeMarkers s)) =
     (if s_fillArea s = None then h_shown (s_fillMark s) else \<not> h_dragged (s_fillMark s))"
proof -
  obtain r where r: "(if s_cellArea s \<noteq> None then s_cellArea s else s_cellCursor s) = Some r"
    using assms(2) by (cases "s_cellCursor s"; cases "s_cellArea s") (auto simp: isEmptyRectangle_def)
  have "onUpdateCellResizeMarkers s = place_fill r (s\<lparr>s_resizeStart := place s (getNorthWest r) (s_resizeStart s),
      s_resizeEnd := place s (getSouthEast r) (s_resizeEnd s)\<rparr>)"
    unfolding onUpdateCellResizeMarkers_def r using assms by simp
  then show ?thesis by (simp add: place_fill_def hide_def place_def)
qed

lemma fill_handle_vanishes_witness:
  "h_shown (s_fillMark (onUpdateCellResizeMarkers (demo_selection\<lparr>s_mobile := True,
     s_cellCursor := Some (twips_bounds demo_grid (40, 10, 20, 5)), s_fillArea := Some llb_createDefault,
     s_fillMark := demo_mark\<lparr>h_shown := True, h_dragged := True\<rparr>\<rparr>))) = False"
  using demo_cell(2) by (subst fill_handle_vanishes) simp_all

end
