(* ===== verification/Shapes.thy ===== *)
theory Shapes
  imports Selections
begin

text \<open>
  The graphic object that is selected (\<open>TileLayer.js\<close>, with the part of \<open>layer/vector/SVGGroup.js\<close> it
  calls and \<open>layer/ObjectFocusDarkOverlay.js\<close>): what the server says of it, the group drawn for it, and
  the commands that moving, scaling and rotating it send. Positions are twips. Pictures are texts the
  DOM can parse.
\<close>

section \<open>The overlay around an object in focus\<close>

text \<open>The four rectangles \<open>(x, y, w, h)\<close> that are darkened.\<close>

definition overlay_parts :: "int \<times> int \<times> int \<times> int \<Rightarrow> (int \<times> int \<times> int \<times> int) list" where
  "overlay_parts r =
     (case r of (x, y, w, h) \<Rightarrow>
        let fullWidth = 1000000; fullHeight = 1000000
        in [(0, 0, fullWidth, y), (0, y, x, h), (x + w, y, fullWidth, h), (0, y + h, fullWidth, fullHeight)])"

definition overlay_areas :: "slayer \<Rightarrow> latlng list list option list" where
  "overlay_areas s =
     (case s_overlay s of
        None \<Rightarrow> []
      | Some r \<Rightarrow>
          map (\<lambda>(x, y, w, h). rectanglesToPolygons (\<lambda>p. twipsToLatLng (s_grid s) (ipt p) None) [corners (x, y) (w, h)])
            (overlay_parts r))"

definition addObjectFocusDarkOverlay :: "int \<times> int \<times> int \<times> int \<Rightarrow> slayer \<Rightarrow> slayer" where
  "addObjectFocusDarkOverlay r s = (if s_overlay s = None then s\<lparr>s_overlay := Some r\<rparr> else s)"

definition removeObjectFocusDarkOverlay :: "slayer \<Rightarrow> slayer" where
  "removeObjectFocusDarkOverlay s = s\<lparr>s_overlay := None\<rparr>"

section \<open>The group that is drawn (\<open>L.SVGGroup\<close>)\<close>

definition setVisible :: "bool \<Rightarrow> gmark \<Rightarrow> gmark" where
  "setVisible visible m = (if gm_svg m = None then m else m\<lparr>gm_visible := visible\<rparr>)"

definition removeEmbeddedSVG :: "gmark \<Rightarrow> gmark" where
  "removeEmbeddedSVG m = m\<lparr>gm_svg := None\<rparr>"

text \<open>A picture that has just been added has no visibility of its own and is shown.\<close>

definition addEmbeddedSVG :: "string \<Rightarrow> gmark \<Rightarrow> gmark" where
  "addEmbeddedSVG svg m = m\<lparr>gm_svg := Some svg, gm_visible := True\<rparr>"

definition on_marker :: "(gmark \<Rightarrow> gmark) \<Rightarrow> slayer \<Rightarrow> slayer" where
  "on_marker f s = s\<lparr>s_marker := map_option f (s_marker s)\<rparr>"

text \<open>A field of an object as the key of another.\<close>

definition key_of :: "jsval \<Rightarrow> string option" where
  "key_of v =
     (case v of JInt i \<Rightarrow> Some (show_int i) | JStr s \<Rightarrow> Some s | JNull \<Rightarrow> Some ''null''
      | JBool b \<Rightarrow> Some (if b then ''true'' else ''false'') | _ \<Rightarrow> None)"

definition graphic_id :: "slayer \<Rightarrow> string option" where
  "graphic_id s = key_of (js_field ''id'' (s_extra s))"

definition is_object :: "jsval \<Rightarrow> bool" where
  "is_object v \<longleftrightarrow> (case v of JObj _ \<Rightarrow> True | _ \<Rightarrow> False)"

definition isGraphicCanBeRotate :: "slayer \<Rightarrow> bool" where
  "isGraphicCanBeRotate s \<longleftrightarrow> s_context s \<in> {Some ''Graphic'', Some ''Draw'', Some ''TextObject''}"

definition hasDrawLineSelection :: "slayer \<Rightarrow> bool" where
  "hasDrawLineSelection s \<longleftrightarrow> js_field ''isDrawLine'' (s_extra s) = JBool True"

definition isUniformScaling :: "slayer \<Rightarrow> bool" where
  "isUniformScaling s \<longleftrightarrow>
     (let i = js_field ''objectIdentifier'' (s_extra s)
      in (s_docType s = ''text'' \<and> i = JInt 1) \<or> i = JInt 22 \<or> i = JInt 23)"

definition isGraphicAngleDivisibleBy90 :: "slayer \<Rightarrow> bool" where
  "isGraphicAngleDivisibleBy90 s \<longleftrightarrow> js_rem (s_angle s) 9000 = 0"

definition hasGraphicSelection :: "slayer \<Rightarrow> bool" where
  "hasGraphicSelection s \<longleftrightarrow> \<not> isEmptyRectangle (Some (s_graphic s))"

definition flag :: "string \<Rightarrow> slayer \<Rightarrow> bool" where
  "flag k s = js_truthy (js_field k (s_extra s))"

definition new_gmark :: "slayer \<Rightarrow> gmark" where
  "new_gmark s =
     (let svg = (case graphic_id s of None \<Rightarrow> None | Some k \<Rightarrow> obj_get (s_cacheSVG s) k);
          svg = (case s_drag s of
                   Some d \<Rightarrow> (case di_svg d of Some t \<Rightarrow> Some t | None \<Rightarrow> svg) | None \<Rightarrow> svg)
      in \<lparr>gm_bounds = s_graphic s, gm_svg = svg, gm_shown = True, gm_visible = True, gm_dragged = False,
          gm_startPos = None, gm_horizDir = None, gm_vertDir = None,
          gm_options =
            [(''draggable'', flag ''isDraggable'' s), (''scaling'', flag ''isResizable'' s),
             (''rotation'', flag ''isRotatable'' s \<and> \<not> s_table s \<and> isGraphicCanBeRotate s \<and> \<not> hasDrawLineSelection s),
             (''uniformScaling'', isUniformScaling s), (''scaleLineOnly'', hasDrawLineSelection s),
             (''scaleSouthAndEastOnly'', s_table s)]\<rparr>)"

text \<open>\<open>_onUpdateGraphicSelection\<close>. Without permission to edit the old group leaves the map, and the cursor is
  not looked at.\<close>

definition onUpdateGraphicSelection :: "slayer \<Rightarrow> slayer" where
  "onUpdateGraphicSelection s =
     (if hasGraphicSelection s then
        (let s = on_marker (\<lambda>m. m\<lparr>gm_shown := False\<rparr>) s
         in if \<not> s_editing s then s
            else if \<not> is_object (s_extra s) then scall ''TypeError'' s
            else on_users updateCursorAndOverlay (s\<lparr>s_marker := Some (new_gmark s)\<rparr>))
      else on_users updateCursorAndOverlay (s\<lparr>s_marker := None\<rparr>))"

section \<open>Messages\<close>

definition onShapeSelectionContent :: "string \<Rightarrow> slayer \<Rightarrow> slayer" where
  "onShapeSelectionContent textMsg s =
     (let svg = drop (length ''shapeselectioncontent:'' + 1) textMsg
      in if s_marker s = None then s
         else if \<not> is_object (s_extra s) then scall ''TypeError'' s
         else
           let s = (case graphic_id s of None \<Rightarrow> s | Some k \<Rightarrow> s\<lparr>s_cacheSVG := obj_put k svg (s_cacheSVG s)\<rparr>)
           in on_marker (addEmbeddedSVG svg \<circ> removeEmbeddedSVG) s)"

definition resetSelectionRanges :: "slayer \<Rightarrow> slayer" where
  "resetSelectionRanges s =
     s\<lparr>s_twips := new_bounds (pt 0 0) (pt 0 0), s_graphic := no_graphic, s_extra := JUndef, s_drag := None,
       s_delay := False\<rparr>"

definition real_of_val :: "jsval \<Rightarrow> real" where
  "real_of_val v = (case v of JInt i \<Rightarrow> of_int i | JReal x \<Rightarrow> x | _ \<Rightarrow> 0)"

text \<open>\<open>dragInfo\<close> of a message. For a segment of a pie the offset is a percentage and the direction comes in
  twips; both are numbers.\<close>

definition read_drag :: "grid \<Rightarrow> jsval \<Rightarrow> drag_info option" where
  "read_drag g v =
     (case v of
        JObj fs \<Rightarrow>
          (let pie = (js_field ''dragMethod'' v = JStr ''PieSegmentDragging'');
               svg = (case js_field ''svg'' v of JStr t \<Rightarrow> if t = [] then None else Some t | _ \<Rightarrow> None);
               dir = (case js_field ''dragDirection'' v of
                        JArr (a # b # _) \<Rightarrow> twipsToPixels g (pt (real_of_val a) (real_of_val b)) | _ \<Rightarrow> pt 0 0)
           in Some \<lparr>di_pie = pie, di_offset = real_of_val (js_field ''initialOffset'' v) / 100, di_direction = dir,
                    di_range2 = px dir * px dir + py dir * py dir, di_svg = svg\<rparr>)
      | _ \<Rightarrow> None)"

definition default_true :: "string \<Rightarrow> (string \<times> jsval) list \<Rightarrow> (string \<times> jsval) list" where
  "default_true k fs =
     (if js_field k (JObj fs) = JUndef then obj_put k (JBool True) fs else fs)"

definition read_graphic :: "jsval \<Rightarrow> ((int \<times> int \<times> int \<times> int) \<times> int \<times> jsval) option" where
  "read_graphic v =
     (case v of
        JArr (JInt x # JInt y # JInt w # JInt h # vs) \<Rightarrow>
          Some ((x, y, w, h), (case vs of JInt a # _ \<Rightarrow> a | _ \<Rightarrow> 0),
            (case vs of _ # JObj fs # _ \<Rightarrow> JObj fs | _ \<Rightarrow> JObj []))
      | _ \<Rightarrow> None)"

definition graphic_at :: "(int \<times> int \<times> int \<times> int) \<times> int \<times> jsval \<Rightarrow> slayer \<Rightarrow> slayer" where
  "graphic_at msg s =
     (case msg of (r, angle, extra) \<Rightarrow>
        case r of (x, y, w, h) \<Rightarrow>
        let p = ipt (x, y); g = s_grid s;
            s = s\<lparr>s_twips := new_bounds p (point_add p (ipt (w, h))), s_graphic := twips_bounds g r, s_angle := angle,
                  s_drag := read_drag g (js_field ''dragInfo'' extra)\<rparr>;
            s = (if s_delay s then (addObjectFocusDarkOverlay r s)\<lparr>s_delay := False\<rparr> else s);
            fs = (case extra of JObj fs \<Rightarrow> fs | _ \<Rightarrow> [])
        in s\<lparr>s_extra := JObj (default_true ''isRotatable'' (default_true ''isResizable'' (default_true ''isDraggable'' fs)))\<rparr>)"

text \<open>The object goes into place (a chart that is edited, say): the rest of the document is darkened.\<close>

definition graphic_inplace :: "slayer \<Rightarrow> slayer \<times> bool" where
  "graphic_inplace s =
     (if s_overlay s \<noteq> None then (s, True)
      else
        let nw = latLngToTwips (s_grid s) (getNorthWest (s_graphic s)) None;
            se = latLngToTwips (s_grid s) (getSouthEast (s_graphic s)) None;
            w = fst se - fst nw; h = snd se - snd nw
        in if w = 0 \<or> h = 0 then (s\<lparr>s_delay := True\<rparr>, False)
           else
             (onUpdateGraphicSelection (resetSelectionRanges (addObjectFocusDarkOverlay (fst nw, snd nw, w, h) s)), True))"

definition graphic_settled :: "slayer \<Rightarrow> slayer" where
  "graphic_settled s = onUpdateGraphicSelection (on_users hideCursorIfVisible s)"

definition onGraphicSelectionMsg :: "string \<Rightarrow> slayer \<Rightarrow> slayer" where
  "onGraphicSelectionMsg textMsg s =
     (if mentions ''EMPTY'' textMsg then graphic_settled (resetSelectionRanges s)
      else if mentions ''INPLACE EXIT'' textMsg then
        graphic_settled ((removeObjectFocusDarkOverlay s)\<lparr>s_delay := False\<rparr>)
      else if mentions ''INPLACE'' textMsg then
        (case graphic_inplace s of (s, True) \<Rightarrow> graphic_settled s | (s, False) \<Rightarrow> s)
      else
        case json_parse (''['' @ drop (length ''graphicselection:'') textMsg @ '']'') of
          None \<Rightarrow> scall ''SyntaxError'' s
        | Some v \<Rightarrow>
            (case read_graphic v of None \<Rightarrow> scall ''Error'' s | Some m \<Rightarrow> graphic_settled (graphic_at m s)))"

section \<open>Moving, scaling, rotating\<close>

text \<open>The events of the group; a place is missing when the pointer has left the map.\<close>

datatype graphic_event =
    MoveStart "latlng option"
  | MoveEnd "latlng option"
  | ScaleStart "latlng option"
  | ScaleEnd "latlng option"
  | RotateStart
  | RotateEnd real

text \<open>A number as \<open>JSON.stringify\<close> writes it. Positions are whole twips or, from the middle of a rectangle,
  halves.\<close>

definition num_ujson :: "real \<Rightarrow> ujson" where
  "num_ujson x = (if of_int \<lfloor>x\<rfloor> = x then UInt \<lfloor>x\<rfloor> else UHalf (x < 0) (nat \<lfloor>\<bar>x\<bar>\<rfloor>))"

definition long :: "real \<Rightarrow> ujson" where
  "long x = typed ''long'' (num_ujson x)"

definition transformDialog ::
  "sconf \<Rightarrow> (string \<Rightarrow> string \<Rightarrow> string) \<Rightarrow> (string \<times> ujson) list option \<Rightarrow> slayer \<Rightarrow> slayer" where
  "transformDialog cf target param =
     on_users (on_layer (sendUnoCommand cf target ''.uno:TransformDialog '' (map_option UObj param)))"

definition drag_over :: "slayer \<Rightarrow> slayer" where
  "drag_over = on_marker (\<lambda>m. setVisible False (m\<lparr>gm_dragged := False\<rparr>))"

definition drag_begins :: "slayer \<Rightarrow> slayer" where
  "drag_begins = on_marker (\<lambda>m. setVisible True (m\<lparr>gm_dragged := True\<rparr>))"

text \<open>One coordinate of a shape is kept inside the document, whose extent is unknown before the first
  status.\<close>

definition keep_inside :: "int option \<Rightarrow> real \<Rightarrow> real \<Rightarrow> real" where
  "keep_inside extent sz p =
     (let p = (case extent of None \<Rightarrow> p | Some d \<Rightarrow> if p + sz > of_int d then of_int d - sz else p)
      in if p < 0 then 0 else p)"

text \<open>The share of a pie segment's way, 0 to 100, that a drag by \<open>delta\<close> pixels leads to.\<close>

definition pie_offset :: "drag_info \<Rightarrow> point \<Rightarrow> int" where
  "pie_offset d delta =
     (let additionalOffset = (px delta * px (di_direction d) + py delta * py (di_direction d)) / di_range2 d;
          additionalOffset =
            (if additionalOffset < - di_offset d then - di_offset d
             else if additionalOffset > 1 - di_offset d then 1 - di_offset d else additionalOffset)
      in js_round ((di_offset d + additionalOffset) * 100))"

definition move_param :: "slayer \<Rightarrow> int \<times> int \<Rightarrow> (string \<times> ujson) list option" where
  "move_param s delta =
     (case s_drag s of
        Some d \<Rightarrow>
          if di_pie d then
            Some [(''Action'', typed ''string'' (UStr ''PieSegmentDragging'')),
                  (''Offset'', typed ''long'' (UInt (pie_offset d (twipsToPixels (s_grid s) (ipt delta)))))]
          else None
      | None \<Rightarrow>
          (let newPos = point_add (bmin (s_twips s)) (ipt delta); sz = bounds_getSize (s_twips s)
           in Some [(''TransformPosX'', long (keep_inside (g_docWidth (s_grid s)) (px sz) (px newPos))),
                    (''TransformPosY'', long (keep_inside (g_docHeight (s_grid s)) (py sz) (py newPos)))]))"

definition onGraphicMove ::
  "sconf \<Rightarrow> (string \<Rightarrow> string \<Rightarrow> string) \<Rightarrow> bool \<Rightarrow> latlng \<Rightarrow> gmark \<Rightarrow> slayer \<Rightarrow> slayer" where
  "onGraphicMove cf target starts pos m s =
     (let aPos = latLngToTwips (s_grid s) pos None
      in if starts then on_marker (\<lambda>m. m\<lparr>gm_startPos := Some aPos\<rparr>) (drag_begins s)
         else
           case gm_startPos m of
             None \<Rightarrow> s
           | Some start \<Rightarrow>
               (let delta = (fst aPos - fst start, snd aPos - snd start)
                in if delta = (0, 0) then drag_over s
                   else if \<not> is_object (s_extra s) then scall ''TypeError'' s
                   else drag_over (transformDialog cf target (move_param s delta) s)))"

text \<open>The handle that was taken: 0 when both lie on each other, unchanged when it is none of the two.\<close>

definition handle_dir :: "real \<Rightarrow> real \<Rightarrow> int \<Rightarrow> int option \<Rightarrow> int option" where
  "handle_dir lo hi a d =
     (if hi - lo < 2 then Some 0
      else if \<bar>lo - of_int a\<bar> < 2 then Some (-1)
      else if \<bar>hi - of_int a\<bar> < 2 then Some 1
      else d)"

definition scale_start :: "int \<times> int \<Rightarrow> slayer \<Rightarrow> slayer" where
  "scale_start aPos s =
     (let lo = bmin (s_twips s); hi = bmax (s_twips s)
      in on_marker (\<lambda>m. m\<lparr>gm_horizDir := handle_dir (px lo) (px hi) (fst aPos) (gm_horizDir m),
                          gm_vertDir := handle_dir (py lo) (py hi) (snd aPos) (gm_vertDir m)\<rparr>) (drag_begins s))"

text \<open>\<open>computePosAndSize\<close>: position and size of one coordinate after the handle was dragged to \<open>a\<close>.\<close>

definition computePosAndSize :: "int option \<Rightarrow> real \<Rightarrow> real \<Rightarrow> real \<Rightarrow> real \<times> real" where
  "computePosAndSize dir lo hi a =
     (let old = hi - lo; center = (lo + hi) / 2
      in if dir = Some 0 then (let sz = \<bar>a - center\<bar> in (if a > center then center else center - sz, sz))
         else if dir = Some (-1) then (a, old + (lo - a))
         else if dir = Some 1 then (lo, old + (a - hi))
         else (lo, old))"

text \<open>A rotated shape is scaled evenly: the coordinate without a handle follows the other.\<close>

definition follow_scale :: "real \<Rightarrow> real \<Rightarrow> real \<Rightarrow> real \<Rightarrow> real \<times> real" where
  "follow_scale lo old otherNew otherOld =
     (let sz = of_int (js_round (old * (otherNew / otherOld))); delta = sz - old
      in (of_int (js_round (lo - delta / 2)), sz))"

definition scaled_rect :: "gmark \<Rightarrow> int \<times> int \<Rightarrow> slayer \<Rightarrow> (real \<times> real) \<times> (real \<times> real)" where
  "scaled_rect m aPos s =
     (let lo = bmin (s_twips s); hi = bmax (s_twips s); old = point_subtract hi lo;
          (x, w) = computePosAndSize (gm_horizDir m) (px lo) (px hi) (of_int (fst aPos));
          (y, h) = computePosAndSize (gm_vertDir m) (py lo) (py hi) (of_int (snd aPos));
          even = (\<not> isGraphicAngleDivisibleBy90 s \<and> \<not> hasDrawLineSelection s);
          (y, h) = (if even \<and> gm_horizDir m \<noteq> None \<and> gm_vertDir m = None
                    then follow_scale (py lo) (py old) w (px old) else (y, h));
          (x, w) = (if even \<and> gm_horizDir m = None \<and> gm_vertDir m \<noteq> None
                    then follow_scale (px lo) (px old) h (py old) else (x, w))
      in ((keep_inside (g_docWidth (s_grid s)) w x, keep_inside (g_docHeight (s_grid s)) h y), (w, h)))"

text \<open>The size of a picture of Writer from the size of the rectangle around it, when it is rotated.\<close>

definition picture_size :: "int \<Rightarrow> real \<times> real \<Rightarrow> real \<times> real" where
  "picture_size graphicAngle sz =
     (if js_rem graphicAngle 9000 = 0 then
        (if js_rem (graphicAngle div 9000) 2 \<noteq> 0 then (snd sz, fst sz) else sz)
      else
        let w = fst sz; h = snd sz; angle = pi * of_int graphicAngle / 18000;
            c = \<bar>cos angle\<bar>; s = \<bar>sin angle\<bar>; l = s / c;
            u = (l * w - l * l * h) / (1 - l * l); v = h - u
        in (of_int (js_round (u / s)), of_int (js_round (v / c))))"

definition forget_svg :: "slayer \<Rightarrow> slayer" where
  "forget_svg s =
     (case graphic_id s of None \<Rightarrow> s | Some k \<Rightarrow> s\<lparr>s_cacheSVG := obj_del k (s_cacheSVG s)\<rparr>)"

definition removeCachedSVG :: "slayer \<Rightarrow> slayer" where
  "removeCachedSVG s = (if is_object (s_extra s) then forget_svg s else scall ''TypeError'' s)"

definition scale_end ::
  "sconf \<Rightarrow> (string \<Rightarrow> string \<Rightarrow> string) \<Rightarrow> gmark \<Rightarrow> int \<times> int \<Rightarrow> slayer \<Rightarrow> slayer" where
  "scale_end cf target m aPos s =
     (let (p, sz) = scaled_rect m aPos s; picture = flag ''isWriterGraphic'' s;
          sz = (if picture then picture_size (s_angle s) sz else sz);
          place = [(''TransformPosX'', long (fst p)), (''TransformPosY'', long (snd p))];
          s = transformDialog cf target
                (Some (place @ [(''TransformWidth'', long (fst sz)), (''TransformHeight'', long (snd sz))])) s;
          s = (if picture then transformDialog cf target (Some place) s else s)
      in removeCachedSVG (on_marker (\<lambda>m. m\<lparr>gm_horizDir := None, gm_vertDir := None\<rparr>) (drag_over s)))"

text \<open>The angle in hundredths of a degree, made whole degrees: the remainder decides, which has the sign of
  the angle.\<close>

definition whole_degrees :: "real \<Rightarrow> int" where
  "whole_degrees angle =
     (let m = js_fmod angle 100 in if m > 50 then \<lfloor>angle + (100 - m)\<rfloor> else \<lfloor>angle - m\<rfloor>)"

definition rotate_end :: "sconf \<Rightarrow> (string \<Rightarrow> string \<Rightarrow> string) \<Rightarrow> real \<Rightarrow> slayer \<Rightarrow> slayer" where
  "rotate_end cf target rotation s =
     (let center = bounds_getCenter (s_twips s) False;
          s = s\<lparr>s_angle := whole_degrees (rotation * 18000 / pi)\<rparr>;
          s = transformDialog cf target (Some [(''TransformRotationDeltaAngle'', typed ''long'' (UInt (s_angle s))),
                (''TransformRotationX'', long (px center)), (''TransformRotationY'', long (py center))]) s
      in removeCachedSVG (drag_over s))"

definition on_graphic_event ::
  "sconf \<Rightarrow> (string \<Rightarrow> string \<Rightarrow> string) \<Rightarrow> graphic_event \<Rightarrow> slayer \<Rightarrow> slayer" where
  "on_graphic_event cf target e s =
     (case s_marker s of
        None \<Rightarrow> s
      | Some m \<Rightarrow>
          (case e of
             MoveStart (Some p) \<Rightarrow> onGraphicMove cf target True p m s
           | MoveEnd (Some p) \<Rightarrow> onGraphicMove cf target False p m s
           | ScaleStart (Some p) \<Rightarrow> scale_start (latLngToTwips (s_grid s) p None) s
           | ScaleEnd (Some p) \<Rightarrow> scale_end cf target m (latLngToTwips (s_grid s) p None) s
           | RotateStart \<Rightarrow> drag_begins s
           | RotateEnd r \<Rightarrow> rotate_end cf target r s
           | _ \<Rightarrow> s))"

text \<open>\<open>_clearSelections\<close>, when the part changes or editing ends. \<open>handler\<close> is undefined or a truth value.\<close>

definition clearSelections :: "bool option \<Rightarrow> slayer \<Rightarrow> slayer" where
  "clearSelections handler s =
     (let s = on_users (onUpdateCursor handler False) s;
          s = onUpdateTextSelection (s\<lparr>s_selections := []\<rparr>);
          s = onUpdateGraphicSelection (s\<lparr>s_graphic := no_graphic, s_extra := JUndef, s_drag := None\<rparr>)
      in onUpdateCellCursor 0 0 False (s\<lparr>s_cellCursor := None\<rparr>))"

section \<open>Facts\<close>

lemma keep_inside_eq: "sz \<le> of_int d \<Longrightarrow> keep_inside (Some d) sz p = max 0 (min p (of_int d - sz))"
  by (auto simp: keep_inside_def Let_def max_def min_def)

lemma pie_offset_range: "0 \<le> pie_offset d p" "pie_offset d p \<le> 100"
proof -
  define a where "a = (px p * px (di_direction d) + py p * py (di_direction d)) / di_range2 d"
  define b where "b = (if a < - di_offset d then - di_offset d else if a > 1 - di_offset d then 1 - di_offset d else a)"
  have "0 \<le> (di_offset d + b) * 100" "(di_offset d + b) * 100 \<le> 100" by (auto simp: b_def)
  then have "js_round 0 \<le> js_round ((di_offset d + b) * 100)" "js_round ((di_offset d + b) * 100) \<le> js_round 100"
    by (auto intro: js_round_mono)
  moreover have "pie_offset d p = js_round ((di_offset d + b) * 100)" by (simp add: pie_offset_def Let_def a_def b_def)
  ultimately show "0 \<le> pie_offset d p" "pie_offset d p \<le> 100"
    using js_round_of_int [of 0] js_round_of_int [of 100] by simp_all
qed

lemma transform_sends:
  assumes "s_editing s" "delivered (g_net (s_grid s))" "target ''.uno:TransformDialog'' (s_docType s) = []"
  shows "transformDialog cf target (Some ps) s =
    on_users (on_layer (lemit (Sent (''uno .uno:TransformDialog '' @ json_text (UObj ps))))) s"
proof -
  have c: "js_trim ''.uno:TransformDialog '' = ''.uno:TransformDialog''" "startsWith ''.uno:TransformDialog'' ''.uno:''"
    "encodeURI ''.uno:TransformDialog'' = ''.uno:TransformDialog''"
    "preventDoubleTrigger ''.uno:TransformDialog'' (s_layer s) = Some False"
    by code_simp+
  have "sendUnoCommand cf target ''.uno:TransformDialog '' (Some (UObj ps)) (s_layer s) =
      lsend cf (''uno .uno:TransformDialog '' @ json_text (UObj ps)) (s_layer s)"
    unfolding sendUnoCommand_def Let_def
    by (simp only: assms c not_True_eq_False simp_thms if_False if_True option.case bool.case option.map append_Cons append_Nil)
  then show ?thesis
    using assms(2)
    by (simp add: transformDialog_def on_users_def on_layer_def lsend_def lemit_def gsend_def gemit_def on_grid_def
        delivered_send del: json_text.simps)
qed

lemma grid_of_ops [simp]:
  "s_grid (on_marker f s) = s_grid s" "s_layer (on_marker f s) = s_layer s"
  "s_grid (on_users (on_layer h) s) = l_grid (h (s_layer s))" "s_layer (on_users (on_layer h) s) = h (s_layer s)"
  "s_users (on_marker f s) = s_users s"
  by (simp_all add: on_marker_def on_users_def on_layer_def)

lemma sent_lemit [simp]:
  "log (g_net (l_grid (lemit e l))) = log (g_net (l_grid l)) @ [e]"
  by (simp add: lemit_def on_grid_def gemit_def emit_def)

section \<open>Properties\<close>

text \<open>A shape that is selected and taken at its middle.\<close>

definition demo_gmark :: gmark where
  "demo_gmark = \<lparr>gm_bounds = no_graphic, gm_svg = None, gm_shown = True, gm_visible = True, gm_dragged = True,
     gm_startPos = Some (15000, 15000), gm_horizDir = None, gm_vertDir = None, gm_options = []\<rparr>"

definition demo_shape :: slayer where
  "demo_shape = demo_selection\<lparr>s_marker := Some demo_gmark, s_extra := JObj [],
     s_twips := new_bounds (pt 14000 14000) (pt 16000 16000)\<rparr>"

text \<open>
  C29: a shape that is moved stays inside the document. The drag of a shape that fits on the document sends
  one command, whose place is the one the pointer gives, moved by no more than is needed for the whole
  shape to lie between the edges.
\<close>

theorem moved_shape_stays_inside:
  assumes "s_marker s = Some m" "gm_startPos m = Some (a, b)" "latLngToTwips (s_grid s) p None = (c, d)" "(c, d) \<noteq> (a, b)"
    and "s_drag s = None" "is_object (s_extra s)" "s_editing s" "delivered (g_net (s_grid s))"
    and "target ''.uno:TransformDialog'' (s_docType s) = []"
    and "g_docWidth (s_grid s) = Some w" "g_docHeight (s_grid s) = Some h"
    and "px (bounds_getSize (s_twips s)) \<le> of_int w" "py (bounds_getSize (s_twips s)) \<le> of_int h"
  shows "\<exists>x y. sent_of (s_log (on_graphic_event cf target (MoveEnd (Some p)) s)) = sent_of (s_log s) @
      [''uno .uno:TransformDialog '' @ json_text (UObj [(''TransformPosX'', long x), (''TransformPosY'', long y)])] \<and>
    x = max 0 (min (px (bmin (s_twips s)) + of_int (c - a)) (of_int w - px (bounds_getSize (s_twips s)))) \<and>
    y = max 0 (min (py (bmin (s_twips s)) + of_int (d - b)) (of_int h - py (bounds_getSize (s_twips s)))) \<and>
    0 \<le> x \<and> x + px (bounds_getSize (s_twips s)) \<le> of_int w \<and>
    0 \<le> y \<and> y + py (bounds_getSize (s_twips s)) \<le> of_int h"
proof -
  let ?x = "max 0 (min (px (bmin (s_twips s)) + of_int (c - a)) (of_int w - px (bounds_getSize (s_twips s))))"
  let ?y = "max 0 (min (py (bmin (s_twips s)) + of_int (d - b)) (of_int h - py (bounds_getSize (s_twips s))))"
  have "move_param s (c - a, d - b) = Some [(''TransformPosX'', long ?x), (''TransformPosY'', long ?y)]"
    using assms(5,10-13) by (simp add: move_param_def keep_inside_eq ipt_def Let_def)
  then have "sent_of (s_log (on_graphic_event cf target (MoveEnd (Some p)) s)) = sent_of (s_log s) @
      [''uno .uno:TransformDialog '' @ json_text (UObj [(''TransformPosX'', long ?x), (''TransformPosY'', long ?y)])]"
    using assms(1-4,6-9)
    by (simp add: on_graphic_event_def onGraphicMove_def Let_def drag_over_def transform_sends del: json_text.simps)
  then show ?thesis using assms(12,13) by (intro exI conjI) auto
qed

lemma moved_shape_stays_inside_witness:
  "\<exists>x y. sent_of (s_log (on_graphic_event default_conf (\<lambda>c t. []) (MoveEnd (Some (ll (- 5) 40))) demo_shape)) =
      [''uno .uno:TransformDialog '' @ json_text (UObj [(''TransformPosX'', long x), (''TransformPosY'', long y)])] \<and>
    x + 2000 \<le> 30720 \<and> 0 \<le> y"
proof -
  obtain c d where t: "latLngToTwips (s_grid demo_shape) (ll (- 5) 40) None = (c, d)" by force
  have "latLngToTwips (s_grid demo_shape) (ll (- 5) 40) None \<noteq> (15000, 15000)" by code_simp
  with t have ne: "(c, d) \<noteq> (15000, 15000)" by simp
  have perm: "s_editing demo_shape" "delivered (g_net (s_grid demo_shape))" "sent_of (s_log demo_shape) = []"
    "g_docWidth (s_grid demo_shape) = Some 30720" "g_docHeight (s_grid demo_shape) = Some 30720"
    by (simp_all add: demo_shape_def demo_selection_def on_layer_def on_grid_def delivered_def open_session_def
        start_session_def connected_def demo_users_def demo_layer_def demo_grid_def)
  have size: "bounds_getSize (s_twips demo_shape) = pt 2000 2000" by code_simp
  have m: "s_marker demo_shape = Some demo_gmark" "gm_startPos demo_gmark = Some (15000, 15000)" "s_drag demo_shape = None"
    "is_object (s_extra demo_shape)"
    by (simp_all add: demo_shape_def demo_selection_def demo_gmark_def is_object_def)
  from moved_shape_stays_inside [OF m(1,2) t ne m(3,4) perm(1,2) _ perm(4,5), of "\<lambda>c t. []" default_conf]
  obtain x y where "sent_of (s_log (on_graphic_event default_conf (\<lambda>c t. []) (MoveEnd (Some (ll (- 5) 40))) demo_shape)) =
      sent_of (s_log demo_shape) @
      [''uno .uno:TransformDialog '' @ json_text (UObj [(''TransformPosX'', long x), (''TransformPosY'', long y)])]"
    "x + px (bounds_getSize (s_twips demo_shape)) \<le> of_int 30720" "0 \<le> y"
    unfolding size by fastforce
  then show ?thesis unfolding perm(3) append_Nil size by (intro exI [of _ x] exI [of _ y] conjI) simp_all
qed



text \<open>
  the overlay around an object in focus darkens everything else, once. Of the four rectangles exactly one
  covers each place of the document outside the object, and none covers a place of the object.
\<close>

definition in_box :: "int \<times> int \<Rightarrow> int \<times> int \<times> int \<times> int \<Rightarrow> bool" where
  "in_box p r \<longleftrightarrow> (case r of (x, y, w, h) \<Rightarrow> x \<le> fst p \<and> fst p < x + w \<and> y \<le> snd p \<and> snd p < y + h)"

theorem overlay_spares_object:
  assumes "0 \<le> x" "0 \<le> y" "0 \<le> w" "0 \<le> h" "0 \<le> a" "a < 1000000" "0 \<le> b" "b < 1000000"
  shows "length (filter (in_box (a, b)) (overlay_parts (x, y, w, h))) = (if in_box (a, b) (x, y, w, h) then 0 else 1)"
  using assms by (simp add: overlay_parts_def Let_def in_box_def)

lemma overlay_spares_object_witness:
  "length (filter (in_box (500, 500)) (overlay_parts (1000, 400, 2000, 300))) = 1"
  using overlay_spares_object [of 1000 400 2000 300 500 500] by (simp add: in_box_def)

section \<open>Runs\<close>

text \<open>Everything that happens to the selected graphic: messages, events of its group, the end of editing and
  changes of part, permission, view, document size and context.\<close>

inductive shape_step :: "sconf \<Rightarrow> (string \<Rightarrow> string \<Rightarrow> string) \<Rightarrow> slayer \<Rightarrow> slayer \<Rightarrow> bool" for cf target where
  Selected: "shape_step cf target s (onGraphicSelectionMsg m s)"
| Content: "shape_step cf target s (onShapeSelectionContent m s)"
| Event: "shape_step cf target s (on_graphic_event cf target e s)"
| Clear: "shape_step cf target s (clearSelections h s)"
| Perm: "shape_step cf target s (on_users (on_layer (on_grid (\<lambda>g. g\<lparr>g_net := (g_net g)\<lparr>perm := p\<rparr>\<rparr>))) s)"
| View: "shape_step cf target s (on_users (on_layer (on_grid (\<lambda>g. g\<lparr>g_view := v, g_docWidth := w, g_docHeight := h\<rparr>))) s)"
| Context: "shape_step cf target s (s\<lparr>s_context := c, s_table := b\<rparr>)"

inductive shape_run :: "sconf \<Rightarrow> (string \<Rightarrow> string \<Rightarrow> string) \<Rightarrow> slayer \<Rightarrow> slayer \<Rightarrow> bool" for cf target where
  Start: "shape_run cf target s s"
| Step: "shape_run cf target s t \<Longrightarrow> shape_step cf target t w \<Longrightarrow> shape_run cf target s w"

text \<open>What the handlers rely on when they read \<open>extraInfo\<close> without asking whether it is there.\<close>

definition shape_typed :: "slayer \<Rightarrow> bool" where
  "shape_typed s \<longleftrightarrow>
     (hasGraphicSelection s \<longrightarrow> is_object (s_extra s)) \<and> (s_marker s \<noteq> None \<longrightarrow> is_object (s_extra s))"

definition type_errors :: "slayer \<Rightarrow> nat" where
  "type_errors s = length (filter (\<lambda>e. e = Called ''TypeError'' []) (s_log s))"

definition calm :: "slayer \<Rightarrow> slayer \<Rightarrow> bool" where
  "calm s t \<longleftrightarrow> type_errors t = type_errors s \<and> delivered (g_net (s_grid t)) = delivered (g_net (s_grid s))"

definition same_shape :: "slayer \<Rightarrow> slayer \<Rightarrow> bool" where
  "same_shape s t \<longleftrightarrow> s_marker t = s_marker s \<and> s_extra t = s_extra s \<and> s_graphic t = s_graphic s"

lemma calm_refl [simp]: "calm s s"
  by (simp add: calm_def)

lemma calm_trans: "calm s t \<Longrightarrow> calm t w \<Longrightarrow> calm s w"
  by (simp add: calm_def)

lemma calm_users: "s_users t = s_users s \<Longrightarrow> calm s t"
  by (simp add: calm_def type_errors_def)

lemma calm_net: "g_net (s_grid t) = g_net (s_grid s) \<Longrightarrow> calm s t"
  by (simp add: calm_def type_errors_def)

lemma calm_emit:
  "e \<noteq> Called ''TypeError'' [] \<Longrightarrow> g_net (s_grid t) = emit e (g_net (s_grid s)) \<Longrightarrow> calm s t"
  by (simp add: calm_def type_errors_def emit_def delivered_def connected_def)

lemma same_shape_refl [simp]: "same_shape s s"
  by (simp add: same_shape_def)

lemma same_shape_trans: "same_shape s t \<Longrightarrow> same_shape t w \<Longrightarrow> same_shape s w"
  by (simp add: same_shape_def)

lemma same_shape_users [simp]: "same_shape s (on_users f s)" "same_shape s (scall f' s)"
  by (simp_all add: same_shape_def on_users_def scall_def)

lemma net_overlay [simp]:
  "g_net (u_grid (updateCursorAndOverlay u)) = g_net (u_grid u)"
  "g_net (u_grid (hideCursorIfVisible u)) = g_net (u_grid u)"
  by (simp_all add: updateCursorAndOverlay_def hideCursorIfVisible_def marker_on_map_def updateCursorPos_def on_layer_def)

lemma net_users [simp]: "s_grid (on_users f s) = u_grid (f (s_users s))" "s_users (on_users f s) = f (s_users s)"
  by (simp_all add: on_users_def)

lemma calm_overlay: "calm s (on_users updateCursorAndOverlay s)" "calm s (on_users hideCursorIfVisible s)"
  by (simp_all add: calm_net)

lemma calm_cursor: "calm s (on_users (onUpdateCursor b z) s)"
proof -
  have "\<exists>v. g_net (u_grid (scrollto p c u)) = emit (Fired ''scrollto'' v) (g_net (u_grid u))" for p c u
    by (simp add: scrollto_def ufire_def on_layer_def lemit_def on_grid_def gemit_def Let_def)
      (rule exI, rule refl)
  then have scroll: "\<exists>e. e \<noteq> Called ''TypeError'' [] \<and> g_net (u_grid (scrollto p c u)) = emit e (g_net (u_grid u))" for p c u
    by (metis effect.distinct(5))
  show ?thesis
  proof (cases "g_net (u_grid (onUpdateCursor b z (s_users s))) = g_net (s_grid s)")
    case False
    then have "g_net (u_grid (onUpdateCursor b z (s_users s))) =
        g_net (u_grid (scrollto (getNorthWest (u_visibleCursor (s_users s))) (Some (b \<noteq> None)) (s_users s)))"
      by (auto simp: onUpdateCursor_def Let_def split: if_splits)
    with scroll show ?thesis by (metis calm_emit net_users(1))
  qed (simp add: calm_net)
qed

text \<open>Text and cell selections leave the graphic alone.\<close>

lemma quiet_markers:
  "calm s (onUpdateCellResizeMarkers s)" "same_shape s (onUpdateCellResizeMarkers s)"
  by (cases s rule: markers_cases; simp add: place_fill_def calm_users same_shape_def)+

lemma quiet_remove: "calm s (removeSelection s)" "same_shape s (removeSelection s)"
  by (simp_all add: removeSelection_def sync_handles_def same_shape_def on_users_def calm_net)

lemma quiet_handles: "calm s (update_handles a b s)" "same_shape s (update_handles a b s)"
  by (simp_all add: update_handles_def Let_def same_shape_def calm_users)

lemma quiet_text: "calm s (onUpdateTextSelection s)" "same_shape s (onUpdateTextSelection s)"
  unfolding onUpdateTextSelection_def Let_def
  by (auto intro: calm_trans [OF quiet_markers(1)] same_shape_trans [OF quiet_markers(2)] quiet_markers quiet_remove
      quiet_handles split: option.split)

lemma quiet_cell:
  assumes "s_cellCursor s = None"
  shows "calm s (onUpdateCellCursor 0 0 False s)" "same_shape s (onUpdateCellCursor 0 0 False s)"
proof -
  let ?m = "onUpdateCellResizeMarkers s"
  have "s_cellCursor ?m = None" using assms by (simp add: users_markers)
  then have "s_users (onUpdateCellCursor 0 0 False s) = s_users ?m" "same_shape ?m (onUpdateCellCursor 0 0 False s)"
    by (simp_all add: onUpdateCellCursor_def Let_def removeDropDownMarker_def same_shape_def)
  then show "calm s (onUpdateCellCursor 0 0 False s)" "same_shape s (onUpdateCellCursor 0 0 False s)"
    by (auto intro: calm_trans [OF quiet_markers(1)] same_shape_trans [OF quiet_markers(2)] calm_users)
qed

text \<open>The group is drawn without an exception when the graphic is typed, and the result is typed.\<close>

lemma update_graphic:
  assumes "hasGraphicSelection s \<longrightarrow> is_object (s_extra s)"
  shows "calm s (onUpdateGraphicSelection s)" "shape_typed (onUpdateGraphicSelection s)"
proof -
  have "g_net (s_grid (onUpdateGraphicSelection s)) = g_net (s_grid s)"
    using assms by (auto simp: onUpdateGraphicSelection_def Let_def on_marker_def hasGraphicSelection_def)
  then show "calm s (onUpdateGraphicSelection s)" by (rule calm_net)
  show "shape_typed (onUpdateGraphicSelection s)"
    using assms by (auto simp: onUpdateGraphicSelection_def Let_def shape_typed_def hasGraphicSelection_def on_users_def on_marker_def)
qed

lemma not_selected [simp]: "isEmptyRectangle (Some no_graphic)"
  by (simp add: isEmptyRectangle_def no_graphic_def is_zero_def latlng_equals_def llb_defs)

lemma settled:
  assumes "hasGraphicSelection s \<longrightarrow> is_object (s_extra s)"
  shows "calm s (graphic_settled s)" "shape_typed (graphic_settled s)"
proof -
  let ?s = "on_users hideCursorIfVisible s"
  have "hasGraphicSelection ?s \<longrightarrow> is_object (s_extra ?s)"
    using assms by (simp add: hasGraphicSelection_def on_users_def)
  from update_graphic [OF this] show "calm s (graphic_settled s)" "shape_typed (graphic_settled s)"
    by (auto simp: graphic_settled_def intro: calm_trans [OF calm_overlay(2)])
qed

definition keeps_graphic :: "slayer \<Rightarrow> slayer \<Rightarrow> bool" where
  "keeps_graphic s t \<longleftrightarrow>
     s_extra t = s_extra s \<and> s_graphic t = s_graphic s \<and> (s_marker t = None \<longleftrightarrow> s_marker s = None)"

lemma keeps_typed: "keeps_graphic s t \<Longrightarrow> shape_typed s \<Longrightarrow> shape_typed t"
  by (simp add: keeps_graphic_def shape_typed_def hasGraphicSelection_def)

lemma keeps_graphic_same: "same_shape s t \<Longrightarrow> keeps_graphic s t"
  by (simp add: same_shape_def keeps_graphic_def)

lemma keeps_graphic_trans: "keeps_graphic s t \<Longrightarrow> keeps_graphic t w \<Longrightarrow> keeps_graphic s w"
  by (simp add: keeps_graphic_def)

lemma keeps_ops [simp]:
  "keeps_graphic s s" "keeps_graphic s (on_marker f s)" "keeps_graphic s (on_users h s)" "keeps_graphic s (scall t s)"
  "keeps_graphic s (drag_over s)" "keeps_graphic s (drag_begins s)" "keeps_graphic s (transformDialog cf target ps s)"
  by (simp_all add: keeps_graphic_def on_marker_def on_users_def scall_def drag_over_def drag_begins_def transformDialog_def)

lemma calm_marker [simp]: "calm s (on_marker f s)" "calm s (drag_over s)" "calm s (drag_begins s)"
  by (simp_all add: calm_users on_marker_def drag_over_def drag_begins_def)

lemma calm_other: "t \<noteq> ''TypeError'' \<Longrightarrow> calm s (scall t s)"
  by (rule calm_emit [of "Called t []"])
    (simp_all add: scall_def ucall_def on_layer_def lcall_def lemit_def on_grid_def gemit_def)

text \<open>The command has no replacement.\<close>

definition keeps_name :: "(string \<Rightarrow> string \<Rightarrow> string) \<Rightarrow> bool" where
  "keeps_name target \<longleftrightarrow> (\<forall>d. target ''.uno:TransformDialog'' d = [])"

lemma net_lemit [simp]: "g_net (l_grid (lemit e l)) = emit e (g_net (l_grid l))"
  by (simp add: lemit_def on_grid_def gemit_def)

lemma calm_transform:
  assumes "delivered (g_net (s_grid s))" "keeps_name target"
  shows "calm s (transformDialog cf target ps s)"
proof (cases "s_editing s")
  case True
  have name: "target ''.uno:TransformDialog'' d = []" for d using assms(2) by (simp add: keeps_name_def)
  show ?thesis
  proof (cases ps)
    case (Some p)
    have "transformDialog cf target (Some p) s =
        on_users (on_layer (lemit (Sent (''uno .uno:TransformDialog '' @ json_text (UObj p))))) s"
      using True assms by (intro transform_sends) (auto simp: keeps_name_def)
    then have "g_net (s_grid (transformDialog cf target (Some p) s)) =
        emit (Sent (''uno .uno:TransformDialog '' @ json_text (UObj p))) (g_net (s_grid s))"
      by (simp only: grid_of_ops net_lemit)
    then show ?thesis unfolding Some by (rule calm_emit [rotated]) simp
  next
    case None
    have c: "js_trim ''.uno:TransformDialog '' = ''.uno:TransformDialog''" "startsWith ''.uno:TransformDialog'' ''.uno:''"
      "encodeURI ''.uno:TransformDialog'' = ''.uno:TransformDialog''"
      "preventDoubleTrigger ''.uno:TransformDialog'' (s_layer s) = Some False"
      by code_simp+
    have "sendUnoCommand cf target ''.uno:TransformDialog '' None (s_layer s) = lsend cf ''uno .uno:TransformDialog'' (s_layer s)"
      unfolding sendUnoCommand_def Let_def
      by (simp only: name True c option.map not_True_eq_False simp_thms if_False if_True option.case bool.case append_Cons append_Nil)
    then have "g_net (s_grid (transformDialog cf target None s)) = emit (Sent ''uno .uno:TransformDialog'') (g_net (s_grid s))"
      using assms(1) by (simp add: transformDialog_def lsend_def gsend_def on_grid_def on_layer_def delivered_send)
    then show ?thesis unfolding None by (rule calm_emit [rotated]) simp
  qed
next
  case False
  then show ?thesis by (auto simp: transformDialog_def sendUnoCommand_def on_layer_def intro: calm_net)
qed

lemma forget_ok:
  assumes "is_object (s_extra s)"
  shows "calm s (removeCachedSVG s)" "keeps_graphic s (removeCachedSVG s)"
  using assms by (auto simp: removeCachedSVG_def forget_svg_def keeps_graphic_def intro: calm_users split: option.split)

lemma keeps_object: "keeps_graphic s t \<Longrightarrow> is_object (s_extra s) \<Longrightarrow> is_object (s_extra t)"
  by (simp add: keeps_graphic_def)

lemma calm_delivered: "calm s t \<Longrightarrow> delivered (g_net (s_grid s)) \<Longrightarrow> delivered (g_net (s_grid t))"
  by (simp add: calm_def)

text \<open>Each event of a group.\<close>

lemma move_quiet:
  assumes sent: "delivered (g_net (s_grid s))" "keeps_name target" and typed: "is_object (s_extra s)"
  shows "calm s (onGraphicMove cf target b p m s)" "keeps_graphic s (onGraphicMove cf target b p m s)"
proof -
  have "calm s (drag_over (transformDialog cf target ps s))" for ps
    by (rule calm_trans [OF calm_transform [OF sent] calm_marker(2)])
  then show "calm s (onGraphicMove cf target b p m s)"
    using typed calm_trans [OF calm_marker(3) calm_marker(1)]
    by (auto simp: onGraphicMove_def Let_def split: option.split)
  show "keeps_graphic s (onGraphicMove cf target b p m s)"
    using keeps_graphic_trans [OF keeps_ops(7) keeps_ops(5)] keeps_graphic_trans [OF keeps_ops(6) keeps_ops(2)]
    by (auto simp: onGraphicMove_def Let_def split: option.split)
qed

lemma scale_quiet:
  assumes sent: "delivered (g_net (s_grid s))" "keeps_name target" and typed: "is_object (s_extra s)"
  shows "calm s (scale_end cf target m a s)" "keeps_graphic s (scale_end cf target m a s)"
proof -
  have one: "calm s (transformDialog cf target ps s)" for ps by (rule calm_transform [OF sent])
  have two: "calm s (transformDialog cf target qs (transformDialog cf target ps s))" for ps qs
    by (rule calm_trans [OF one calm_transform [OF calm_delivered [OF one sent(1)] sent(2)]])
  define t where "t = (\<lambda>b ps qs. if b then transformDialog cf target qs (transformDialog cf target ps s)
    else transformDialog cf target ps s)"
  have t: "calm s (t b ps qs)" "keeps_graphic s (t b ps qs)" for b ps qs
    using one two keeps_graphic_trans [OF keeps_ops(7) keeps_ops(7)] by (simp_all add: t_def)
  define f where "f = on_marker (\<lambda>m. m\<lparr>gm_horizDir := None, gm_vertDir := None\<rparr>)"
  have f: "calm s (f (drag_over (t b ps qs)))" "keeps_graphic s (f (drag_over (t b ps qs)))" for b ps qs
    using calm_trans [OF calm_trans [OF t(1) calm_marker(2)] calm_marker(1)]
      keeps_graphic_trans [OF keeps_graphic_trans [OF t(2) keeps_ops(5)] keeps_ops(2)] by (auto simp: f_def)
  have "\<exists>b ps qs. scale_end cf target m a s = removeCachedSVG (f (drag_over (t b ps qs)))"
    by (simp only: scale_end_def Let_def case_prod_unfold t_def f_def) blast
  then obtain b ps qs where e: "scale_end cf target m a s = removeCachedSVG (f (drag_over (t b ps qs)))" by blast
  note o = forget_ok [OF keeps_object [OF f(2) typed], of b ps qs]
  show "calm s (scale_end cf target m a s)" unfolding e by (rule calm_trans [OF f(1) o(1)])
  show "keeps_graphic s (scale_end cf target m a s)" unfolding e by (rule keeps_graphic_trans [OF f(2) o(2)])
qed

lemma rotate_quiet:
  assumes sent: "delivered (g_net (s_grid s))" "keeps_name target" and typed: "is_object (s_extra s)"
  shows "calm s (rotate_end cf target r s)" "keeps_graphic s (rotate_end cf target r s)"
proof -
  define t where "t = s\<lparr>s_angle := whole_degrees (r * 18000 / pi)\<rparr>"
  have t: "calm s t" "keeps_graphic s t" by (simp_all add: t_def calm_users keeps_graphic_def)
  obtain ps where e: "rotate_end cf target r s = removeCachedSVG (drag_over (transformDialog cf target ps t))"
    by (simp add: rotate_end_def Let_def t_def)
  let ?w = "drag_over (transformDialog cf target ps t)"
  have w: "calm s ?w" "keeps_graphic s ?w"
    using calm_trans [OF calm_trans [OF t(1) calm_transform [OF calm_delivered [OF t(1) sent(1)] sent(2)]] calm_marker(2)]
      keeps_graphic_trans [OF keeps_graphic_trans [OF t(2) keeps_ops(7)] keeps_ops(5)] by auto
  note o = forget_ok [OF keeps_object [OF w(2) typed]]
  show "calm s (rotate_end cf target r s)" unfolding e by (rule calm_trans [OF w(1) o(1)])
  show "keeps_graphic s (rotate_end cf target r s)" unfolding e by (rule keeps_graphic_trans [OF w(2) o(2)])
qed

lemma event_quiet:
  assumes "delivered (g_net (s_grid s))" "keeps_name target" "shape_typed s"
  shows "calm s (on_graphic_event cf target e s)" "keeps_graphic s (on_graphic_event cf target e s)"
proof -
  have start: "calm s (scale_start a s)" "keeps_graphic s (scale_start a s)" for a
    using calm_trans [OF calm_marker(3) calm_marker(1)] keeps_graphic_trans [OF keeps_ops(6) keeps_ops(2)]
    by (auto simp: scale_start_def Let_def)
  have typed: "is_object (s_extra s)" if "s_marker s = Some m" for m using assms(3) that by (simp add: shape_typed_def)
  note q = start move_quiet [OF assms(1,2) typed] scale_quiet [OF assms(1,2) typed] rotate_quiet [OF assms(1,2) typed]
  show "calm s (on_graphic_event cf target e s)" "keeps_graphic s (on_graphic_event cf target e s)"
    using q by (auto simp: on_graphic_event_def split: option.split graphic_event.split)
qed

lemma content_quiet:
  assumes "shape_typed s"
  shows "calm s (onShapeSelectionContent m s)" "keeps_graphic s (onShapeSelectionContent m s)"
  using assms
  by (auto simp: onShapeSelectionContent_def Let_def shape_typed_def on_marker_def keeps_graphic_def
      intro: calm_users split: option.split)

lemma inplace_quiet:
  assumes "shape_typed s" "graphic_inplace s = (t, b)"
  shows "calm s t \<and> shape_typed t"
proof -
  have reset: "\<not> hasGraphicSelection (resetSelectionRanges w)" for w
    by (simp add: hasGraphicSelection_def resetSelectionRanges_def)
  have users: "s_users (resetSelectionRanges (addObjectFocusDarkOverlay r s)) = s_users s" for r
    by (simp add: resetSelectionRanges_def addObjectFocusDarkOverlay_def)
  have "calm s (onUpdateGraphicSelection (resetSelectionRanges (addObjectFocusDarkOverlay r s)))"
    "shape_typed (onUpdateGraphicSelection (resetSelectionRanges (addObjectFocusDarkOverlay r s)))" for r
  proof -
    define w where "w = resetSelectionRanges (addObjectFocusDarkOverlay r s)"
    have w: "s_users w = s_users s" "\<not> hasGraphicSelection w" using users reset by (simp_all add: w_def)
    show "calm s (onUpdateGraphicSelection (resetSelectionRanges (addObjectFocusDarkOverlay r s)))"
      using calm_trans [OF calm_users [OF w(1)] update_graphic(1)] w(2) by (simp add: w_def)
    show "shape_typed (onUpdateGraphicSelection (resetSelectionRanges (addObjectFocusDarkOverlay r s)))"
      using update_graphic(2) w(2) by (simp add: w_def)
  qed
  moreover have "calm s (s\<lparr>s_delay := True\<rparr>)" "shape_typed (s\<lparr>s_delay := True\<rparr>)"
    using assms(1) by (simp_all add: calm_users shape_typed_def hasGraphicSelection_def)
  ultimately show ?thesis using assms by (auto simp: graphic_inplace_def Let_def split: if_splits)
qed

lemma selected_quiet:
  assumes "shape_typed s"
  shows "calm s (onGraphicSelectionMsg m s) \<and> shape_typed (onGraphicSelectionMsg m s)"
proof -
  have known: "hasGraphicSelection w \<longrightarrow> is_object (s_extra w)" if "shape_typed w" for w
    using that by (simp add: shape_typed_def)
  have go: "calm s (graphic_settled w) \<and> shape_typed (graphic_settled w)"
    if "calm s w" "hasGraphicSelection w \<longrightarrow> is_object (s_extra w)" for w
    using settled [OF that(2)] that(1) by (auto intro: calm_trans)
  have empty: "calm s (graphic_settled (resetSelectionRanges s)) \<and> shape_typed (graphic_settled (resetSelectionRanges s))"
    by (rule go) (simp_all add: resetSelectionRanges_def calm_users hasGraphicSelection_def)
  have leave: "calm s (graphic_settled ((removeObjectFocusDarkOverlay s)\<lparr>s_delay := False\<rparr>)) \<and>
      shape_typed (graphic_settled ((removeObjectFocusDarkOverlay s)\<lparr>s_delay := False\<rparr>))"
    using known [OF assms] by (intro go) (simp_all add: removeObjectFocusDarkOverlay_def calm_users hasGraphicSelection_def)
  have at: "calm s (graphic_settled (graphic_at g s)) \<and> shape_typed (graphic_settled (graphic_at g s))" for g
    by (rule go) (auto simp: graphic_at_def Let_def addObjectFocusDarkOverlay_def is_object_def calm_users split: prod.split)
  have inplace: "calm s (case graphic_inplace s of (s, True) \<Rightarrow> graphic_settled s | (s, False) \<Rightarrow> s) \<and>
      shape_typed (case graphic_inplace s of (s, True) \<Rightarrow> graphic_settled s | (s, False) \<Rightarrow> s)"
    using inplace_quiet [OF assms] go known by (auto split: prod.split bool.split)
  have other: "calm s (scall t s) \<and> shape_typed (scall t s)" if "t \<noteq> ''TypeError''" for t
    using calm_other [OF that] keeps_typed [OF keeps_ops(4) assms] by simp
  show ?thesis
    unfolding onGraphicSelectionMsg_def
    using empty leave at inplace other [of "''Error''"] other [of "''SyntaxError''"]
    by (auto split: option.split)
qed

lemma clear_quiet: "calm s (clearSelections h s) \<and> shape_typed (clearSelections h s)"
proof -
  define a where "a = on_users (onUpdateCursor h False) s"
  define b where "b = onUpdateTextSelection (a\<lparr>s_selections := []\<rparr>)"
  define c where "c = onUpdateGraphicSelection (b\<lparr>s_graphic := no_graphic, s_extra := JUndef, s_drag := None\<rparr>)"
  have a: "calm s a" unfolding a_def by (rule calm_cursor)
  have b: "calm a b" unfolding b_def by (rule calm_trans [OF calm_users quiet_text(1)]) simp
  have none: "hasGraphicSelection (b\<lparr>s_graphic := no_graphic, s_extra := JUndef, s_drag := None\<rparr>) \<longrightarrow>
      is_object (s_extra (b\<lparr>s_graphic := no_graphic, s_extra := JUndef, s_drag := None\<rparr>))"
    by (simp add: hasGraphicSelection_def)
  have c: "calm b c" "shape_typed c"
    unfolding c_def by (rule calm_trans [OF calm_users update_graphic(1) [OF none]], simp, rule update_graphic(2) [OF none])
  define d where "d = c\<lparr>s_cellCursor := None\<rparr>"
  have d: "calm c d" "shape_typed d" using c(2) by (simp_all add: d_def calm_users shape_typed_def hasGraphicSelection_def)
  have "clearSelections h s = onUpdateCellCursor 0 0 False d"
    by (simp add: clearSelections_def Let_def a_def b_def c_def d_def)
  moreover have "s_cellCursor d = None" by (simp add: d_def)
  ultimately show ?thesis
    using quiet_cell [of d] keeps_typed [OF keeps_graphic_same d(2)] calm_trans [OF calm_trans [OF calm_trans [OF a b] c(1)] d(1)]
    by (auto intro: calm_trans)
qed

lemma shape_step_quiet:
  assumes "shape_step cf target s t" "shape_typed s" "delivered (g_net (s_grid s))" "keeps_name target"
  shows "calm s t \<and> shape_typed t"
  using assms(1)
proof cases
  case Perm
  then show ?thesis using assms(2)
    by (auto simp: on_users_def on_layer_def on_grid_def calm_def type_errors_def delivered_def connected_def shape_typed_def
        hasGraphicSelection_def)
next
  case View
  then show ?thesis using assms(2)
    by (auto simp: on_users_def on_layer_def on_grid_def calm_def type_errors_def shape_typed_def hasGraphicSelection_def)
next
  case Context
  then show ?thesis using assms(2) by (simp add: calm_users shape_typed_def hasGraphicSelection_def)
qed (use assms selected_quiet clear_quiet content_quiet event_quiet keeps_typed [OF content_quiet(2)]
    keeps_typed [OF event_quiet(2)] in auto)

lemma shape_run_quiet:
  "shape_run cf target s t \<Longrightarrow> shape_typed s \<Longrightarrow> delivered (g_net (s_grid s)) \<Longrightarrow> keeps_name target \<Longrightarrow>
   calm s t \<and> shape_typed t"
proof (induction rule: shape_run.induct)
  case (Step s t w)
  then have t: "calm s t" "shape_typed t" by auto
  with shape_step_quiet [OF Step.hyps(2) t(2) calm_delivered [OF t(1) Step.prems(2)] Step.prems(3)] show ?case
    by (auto intro: calm_trans)
qed simp


lemma demo_at:
  "json_parse (''['' @ drop (length ''graphicselection:'') ''graphicselection: 10, 10, 20, 20, 90'' @ '']'') =
     Some (JArr [JInt 10, JInt 10, JInt 20, JInt 20, JInt 90])"
  by code_simp

lemma demo_words:
  "mentions ''EMPTY'' ''graphicselection: 10, 10, 20, 20, 90'' = False"
  "mentions ''INPLACE'' ''graphicselection: 10, 10, 20, 20, 90'' = False"
  "mentions ''INPLACE EXIT'' ''graphicselection: 10, 10, 20, 20, 90'' = False"
  by (simp_all add: mentions_first)

lemma demo_shape_area: "\<not> isEmptyRectangle (Some (twips_bounds demo_grid (10, 10, 20, 20)))"
  by (simp add: twips_bounds_def twipsToLatLng_def demo_grid_def demo_view_def ipt_def unproject_def zoom_or_def
    simple_of_point point_op_defs isEmptyRectangle_def is_zero_def latlng_equals_def llb_defs demo_scale)


text \<open>What clearing leaves.\<close>

lemma text_cleared:
  assumes "s_selections s = []" "\<not> h_dragged (s_startMark s)" "\<not> h_dragged (s_endMark s)"
  shows "s_selections (onUpdateTextSelection s) = [] \<and> s_cellMark (onUpdateTextSelection s) = s_cellMark s \<and>
    (s_mobile s \<longrightarrow> s_start (onUpdateTextSelection s) = None \<and> s_end (onUpdateTextSelection s) = None \<and>
       \<not> h_shown (s_startMark (onUpdateTextSelection s)) \<and> \<not> h_shown (s_endMark (onUpdateTextSelection s)))"
proof -
  have "s_selections (onUpdateCellResizeMarkers s) = s_selections s \<and> s_startMark (onUpdateCellResizeMarkers s) = s_startMark s \<and>
    s_endMark (onUpdateCellResizeMarkers s) = s_endMark s \<and> s_mobile (onUpdateCellResizeMarkers s) = s_mobile s \<and>
    s_cellMark (onUpdateCellResizeMarkers s) = s_cellMark s"
    by (cases s rule: markers_cases) (simp_all add: place_fill_def)
  then show ?thesis using assms
    by (simp add: onUpdateTextSelection_def Let_def removeSelection_def sync_handles_def on_users_def)
qed

lemma graphic_cleared:
  "\<not> hasGraphicSelection s \<Longrightarrow> s_marker (onUpdateGraphicSelection s) = None \<and>
     s_selections (onUpdateGraphicSelection s) = s_selections s \<and> s_cellMark (onUpdateGraphicSelection s) = s_cellMark s \<and>
     s_graphic (onUpdateGraphicSelection s) = s_graphic s \<and> s_start (onUpdateGraphicSelection s) = s_start s \<and>
     s_end (onUpdateGraphicSelection s) = s_end s \<and> s_startMark (onUpdateGraphicSelection s) = s_startMark s \<and>
     s_endMark (onUpdateGraphicSelection s) = s_endMark s"
  by (simp add: onUpdateGraphicSelection_def on_users_def)

lemma cell_cleared:
  assumes "s_cellCursor s = None"
  shows "map_option snd (s_cellMark (onUpdateCellCursor 0 0 False s)) \<in> {None, Some False} \<and>
    s_cellCursor (onUpdateCellCursor 0 0 False s) = None \<and> s_marker (onUpdateCellCursor 0 0 False s) = s_marker s \<and>
    s_selections (onUpdateCellCursor 0 0 False s) = s_selections s \<and> s_graphic (onUpdateCellCursor 0 0 False s) = s_graphic s \<and>
    s_start (onUpdateCellCursor 0 0 False s) = s_start s \<and> s_end (onUpdateCellCursor 0 0 False s) = s_end s \<and>
    s_startMark (onUpdateCellCursor 0 0 False s) = s_startMark s \<and> s_endMark (onUpdateCellCursor 0 0 False s) = s_endMark s"
proof -
  let ?m = "onUpdateCellResizeMarkers s"
  have m: "s_cellCursor ?m = None" "s_marker ?m = s_marker s" "s_selections ?m = s_selections s" "s_graphic ?m = s_graphic s"
    "s_start ?m = s_start s" "s_end ?m = s_end s" "s_startMark ?m = s_startMark s" "s_endMark ?m = s_endMark s"
    using assms by (cases s rule: markers_cases; simp add: place_fill_def)+
  have "map_option snd (map_option (\<lambda>(r, shown). (r, False)) x) \<in> {None, Some False}" for x :: "(llbounds \<times> bool) option"
    by (cases x) auto
  then show ?thesis using m by (simp add: onUpdateCellCursor_def Let_def removeDropDownMarker_def)
qed

text \<open>
  after the selections are cleared nothing is selected or drawn as selected: no area of text, no graphic
  and no group for it, no cell and no frame; on a touch device the handles and both ends of the text
  selection are gone as well, unless a handle is being dragged.
\<close>

theorem cleared_selection:
  assumes "\<not> h_dragged (s_startMark s)" "\<not> h_dragged (s_endMark s)" "t = clearSelections h s"
  shows "s_selections t = [] \<and> s_marker t = None \<and> \<not> hasGraphicSelection t \<and> s_cellCursor t = None \<and>
    map_option snd (s_cellMark t) \<in> {None, Some False} \<and>
    (if s_mobile s then s_start t = None \<and> s_end t = None \<and> \<not> h_shown (s_startMark t) \<and> \<not> h_shown (s_endMark t) else True)"
proof -
  define a where "a = (on_users (onUpdateCursor h False) s)\<lparr>s_selections := []\<rparr>"
  define b where "b = (onUpdateTextSelection a)\<lparr>s_graphic := no_graphic, s_extra := JUndef, s_drag := None\<rparr>"
  define c where "c = (onUpdateGraphicSelection b)\<lparr>s_cellCursor := None\<rparr>"
  have "s_selections a = []" "\<not> h_dragged (s_startMark a)" "\<not> h_dragged (s_endMark a)" "s_mobile a = s_mobile s"
    using assms by (simp_all add: a_def on_users_def)
  note b = text_cleared [OF this(1-3)] this(4)
  have none: "\<not> hasGraphicSelection b" by (simp add: b_def hasGraphicSelection_def)
  note c = graphic_cleared [OF none]
  have "t = onUpdateCellCursor 0 0 False c" by (simp add: assms(3) clearSelections_def Let_def a_def b_def c_def)
  moreover have "s_cellCursor c = None" by (simp add: c_def)
  note d = cell_cleared [OF this]
  have "s_graphic c = no_graphic" using c by (simp add: c_def b_def)
  ultimately show ?thesis using b c d by (simp add: c_def b_def hasGraphicSelection_def)
qed

lemma cleared_selection_witness:
  "s_marker demo_shape \<noteq> None \<and> s_marker (clearSelections None demo_shape) = None \<and>
   s_selections (clearSelections None demo_shape) = []"
  using cleared_selection [of demo_shape "clearSelections None demo_shape" None]
  by (simp add: demo_shape_def demo_selection_def demo_mark_def)

end
