(* ===== verification/Dialogs.thy ===== *)
theory Dialogs
  imports DocLayer
begin

text \<open>
  The dialogs the server renders (\<open>control/Control.LokDialog.js\<close>; \<open>_onDialogMsg\<close> and \<open>_onDialogPaintMsg\<close>
  of \<open>layer/tile/TileLayer.js\<close>). A window message creates, repaints, resizes or closes a dialog; what
  is to be painted is asked for as a rectangle, and the image comes in a message of its own. The client
  keeps a record for each dialog (\<open>_dialogs\<close>), its containers and floating children in the page, the
  dialog launched last and how each is moved and scaled by touch. Images that were painted are cached
  under their hash.

  Identifiers are what \<open>parseInt\<close> made of them. The scale of the screen is whole: \<open>getDpiScaleFactor\<close>
  rounds it up. A handler that throws ends with the call \<open>TypeError\<close> in the log.
\<close>

section \<open>State\<close>

record dialog =
  dg_width :: jsnum
  dg_height :: jsnum
  dg_title :: jsval
  dg_caret :: bool                 \<comment> \<open>\<open>cursorVisible\<close>\<close>
  dg_child :: "jsnum option"       \<comment> \<open>\<open>childid\<close>, with the child's size and place\<close>
  dg_childSize :: "jsnum \<times> jsnum"
  dg_childPos :: "jsnum \<times> jsnum"

text \<open>How a dialog is moved and scaled by touch.\<close>

record zoom_target =
  z_key :: string
  z_translate :: point
  z_scale :: real
  z_start :: point
  z_initScale :: real

record dstate =
  ds_doc :: tlayer
  ds_scale :: int
  ds_handheld :: bool
  ds_screen :: point
  ds_ios :: bool
  ds_dialogs :: "(jsnum, dialog) obj"
  ds_nodes :: "jsnum list"         \<comment> \<open>the containers in the page, by the id they were given\<close>
  ds_floats :: "jsnum list"        \<comment> \<open>the floating canvases, by the dialog they belong to\<close>
  ds_current :: "jsnum option"     \<comment> \<open>\<open>_currentId\<close>\<close>
  ds_zoom :: "zoom_target list"

definition on_doc :: "(tlayer \<Rightarrow> tlayer) \<Rightarrow> dstate \<Rightarrow> dstate" where
  "on_doc f s = s\<lparr>ds_doc := f (ds_doc s)\<rparr>"

definition dsend :: "sconf \<Rightarrow> string \<Rightarrow> dstate \<Rightarrow> dstate" where
  "dsend cf m = on_doc (lsend cf m)"

definition dcall :: "string \<Rightarrow> jsval list \<Rightarrow> dstate \<Rightarrow> dstate" where
  "dcall f args = on_doc (lemit (Called f args))"

abbreviation throws :: "dstate \<Rightarrow> dstate" where
  "throws \<equiv> dcall ''TypeError'' []"

section \<open>Identifiers and rectangles\<close>

fun num_text :: "jsnum \<Rightarrow> string" where
  "num_text NaN = ''NaN''"
| "num_text (Num i) = show_int i"

fun num_times :: "int \<Rightarrow> jsnum \<Rightarrow> jsnum" where
  "num_times s NaN = NaN"
| "num_times s (Num i) = Num (i * s)"

fun falsy_num :: "jsnum \<Rightarrow> bool" where
  "falsy_num NaN = True"
| "falsy_num (Num i) = (i = 0)"

fun nonpos :: "jsnum \<Rightarrow> bool" where
  "nonpos NaN = False"
| "nonpos (Num i) = (i \<le> 0)"

fun nonneg :: "jsnum \<Rightarrow> bool" where
  "nonneg NaN = False"
| "nonneg (Num i) = (0 \<le> i)"

definition dialogIdPrefix :: string where
  "dialogIdPrefix = ''lokdialog-''"

definition toStrId :: "jsnum \<Rightarrow> string" where
  "toStrId k = dialogIdPrefix @ num_text k"

text \<open>The first occurrence of the prefix is taken out.\<close>

fun cut_word :: "string \<Rightarrow> string \<Rightarrow> string" where
  "cut_word word [] = []"
| "cut_word word (c # cs) = (if startsWith (c # cs) word then drop (length word) (c # cs) else c # cut_word word cs)"

definition toIntId :: "string \<Rightarrow> jsnum" where
  "toIntId s = parseNum (cut_word dialogIdPrefix s)"

text \<open>The keys of an object in the order \<open>for (key in obj)\<close> visits them: numbers first, in ascending
  order.\<close>

definition index_keys :: "(jsnum, 'v) obj \<Rightarrow> jsnum list" where
  "index_keys m = map Num (sort [i. (Num i, _) \<leftarrow> m, 0 \<le> i]) @ [k. (k, _) \<leftarrow> m, \<not> nonneg k]"

definition isOpen :: "jsnum \<Rightarrow> dstate \<Rightarrow> bool" where
  "isOpen k s \<longleftrightarrow> obj_get (ds_dialogs s) k \<noteq> None \<and> k \<in> set (ds_nodes s)"

text \<open>The dialog a floating child belongs to.\<close>

definition is_parent :: "jsnum \<Rightarrow> dialog \<Rightarrow> bool" where
  "is_parent k d \<longleftrightarrow> (case dg_child d of None \<Rightarrow> False | Some c \<Rightarrow> \<not> falsy_num c \<and> c = k)"

definition getParentId :: "jsnum \<Rightarrow> dstate \<Rightarrow> jsnum option" where
  "getParentId k s =
     find (\<lambda>w. case obj_get (ds_dialogs s) w of None \<Rightarrow> False | Some d \<Rightarrow> is_parent k d) (index_keys (ds_dialogs s))"

text \<open>A number of a comma separated text.\<close>

definition nth_num :: "string \<Rightarrow> nat \<Rightarrow> jsnum" where
  "nth_num t i = (let ws = js_split (CHR '','') t in if i < length ws then parseNum (ws ! i) else NaN)"

text \<open>\<open>_createRectStr\<close>: \<open>Some None\<close> is the \<open>null\<close> of an empty rectangle, \<open>None\<close> that the code throws, since
  there is no dialog to take the size from. The identifier \<open>null\<close> is \<open>NaN\<close>.\<close>

definition dim_of :: "jsnum \<Rightarrow> (dialog \<Rightarrow> jsnum) \<Rightarrow> jsnum \<Rightarrow> dstate \<Rightarrow> jsnum option" where
  "dim_of k get w s = (if falsy_num w then map_option get (obj_get (ds_dialogs s) k) else Some w)"

definition createRectStr :: "jsnum \<Rightarrow> jsnum \<Rightarrow> jsnum \<Rightarrow> jsnum \<Rightarrow> jsnum \<Rightarrow> dstate \<Rightarrow> string option option" where
  "createRectStr k x y w h s =
     (case dim_of k dg_width w s of
        None \<Rightarrow> None
      | Some w \<Rightarrow>
          if nonpos w then Some None
          else
            (case dim_of k dg_height h s of
               None \<Rightarrow> None
             | Some h \<Rightarrow>
                 if nonpos h then Some None
                 else
                   let x = (if falsy_num x then Num 0 else x); y = (if falsy_num y then Num 0 else y)
                   in Some (Some (js_join '','' (map (num_text \<circ> num_times (ds_scale s)) [x, y, w, h])))))"

definition sendPaintWindow :: "sconf \<Rightarrow> jsnum \<Rightarrow> string option \<Rightarrow> dstate \<Rightarrow> dstate" where
  "sendPaintWindow cf k r s = (case r of
      None \<Rightarrow> s
    | Some t \<Rightarrow>
        (let t = filter (\<lambda>c. c \<noteq> CHR '' '') t
         in if t = [] then s
            else dsend cf (''paintwindow '' @ num_text k @ '' rectangle='' @ t @ '' dpiscale='' @ show_int (ds_scale s)) s))"

text \<open>Asking for a rectangle: the two calls together.\<close>

definition paint_rect :: "sconf \<Rightarrow> jsnum \<Rightarrow> string option option \<Rightarrow> dstate \<Rightarrow> dstate" where
  "paint_rect cf k r s = (case r of None \<Rightarrow> throws s | Some t \<Rightarrow> sendPaintWindow cf k t s)"

definition sendCloseWindow :: "sconf \<Rightarrow> jsnum \<Rightarrow> dstate \<Rightarrow> dstate" where
  "sendCloseWindow cf k = dsend cf (''windowcommand '' @ num_text k @ '' close'')"

definition isRectangleValid :: "string \<Rightarrow> bool" where
  "isRectangleValid r \<longleftrightarrow> nonneg (nth_num r 0) \<and> nonneg (nth_num r 1) \<and> nonneg (nth_num r 2) \<and> nonneg (nth_num r 3)"

section \<open>Opening and closing\<close>

definition removeZoomTarget :: "string \<Rightarrow> dstate \<Rightarrow> dstate" where
  "removeZoomTarget key s = s\<lparr>ds_zoom := filter (\<lambda>t. z_key t \<noteq> key) (ds_zoom s)\<rparr>"

definition findZoomTarget :: "string \<Rightarrow> dstate \<Rightarrow> zoom_target option" where
  "findZoomTarget key s = find (\<lambda>t. z_key t = key) (ds_zoom s)"

text \<open>Removing by identifier takes the first element that has it.\<close>

definition onDialogClose :: "sconf \<Rightarrow> jsnum \<Rightarrow> bool \<Rightarrow> dstate \<Rightarrow> dstate" where
  "onDialogClose cf k notifyBackend s =
     (let s = (if ds_ios s then dcall ''editbar.enable'' [] s else s);
          s = (if notifyBackend then sendCloseWindow cf k s else s);
          s = s\<lparr>ds_nodes := remove1 k (ds_nodes s)\<rparr>;
          s = dcall ''focus'' [] (on_doc (lemit (Fired ''editorgotfocus'' JUndef)) s);
          s = s\<lparr>ds_dialogs := obj_del k (ds_dialogs s), ds_current := None\<rparr>
      in removeZoomTarget (toStrId k) s)"

text \<open>Only a dialog without a title is a pop-up.\<close>

definition onCloseCurrentPopUp :: "sconf \<Rightarrow> dstate \<Rightarrow> dstate" where
  "onCloseCurrentPopUp cf s = (case ds_current s of
      None \<Rightarrow> s
    | Some k \<Rightarrow>
        if falsy_num k \<or> \<not> isOpen k s \<or> (case obj_get (ds_dialogs s) k of None \<Rightarrow> False | Some d \<Rightarrow> js_truthy (dg_title d))
        then s else onDialogClose cf k True s)"

text \<open>Touch: a dialog wider than the screen of a handheld is scaled down and moved to the middle. A height that
  is no number counts as 0 here, where the code gets a place that is no number either.\<close>

fun wider :: "jsnum \<Rightarrow> real \<Rightarrow> bool" where
  "wider NaN x = False"
| "wider (Num w) x = (of_int w > x)"

fun real_num :: "jsnum \<Rightarrow> real" where
  "real_num NaN = 0"
| "real_num (Num i) = of_int i"

definition fitted :: "jsnum \<Rightarrow> jsnum \<Rightarrow> jsnum \<Rightarrow> dstate \<Rightarrow> zoom_target" where
  "fitted k w h s =
     (let fits = \<not> (ds_handheld s \<and> wider w (px (ds_screen s)));
          ratio = (if fits then 1 else px (ds_screen s) / (real_num w + 40));
          p = (if fits then pt 0 0
               else pt (- (real_num w - px (ds_screen s)) / 2) (- (real_num h - py (ds_screen s)) / 2))
      in \<lparr>z_key = toStrId k, z_translate = p, z_scale = ratio, z_start = p, z_initScale = ratio\<rparr>)"

definition setupGestures :: "jsnum \<Rightarrow> dstate \<Rightarrow> dstate" where
  "setupGestures k s = (case obj_get (ds_dialogs s) k of
      None \<Rightarrow> throws s
    | Some d \<Rightarrow>
        (let s = (if findZoomTarget (toStrId k) s \<noteq> None then removeZoomTarget (toStrId k) s else s);
             t = fitted k (dg_width d) (dg_height d) s
         in dcall ''updateTransformation'' [] (s\<lparr>ds_zoom := ds_zoom s @ [t]\<rparr>)))"

text \<open>Where a pop-up is put: the place in twips on the map's pane, when it is not outside.\<close>

definition popup_place :: "jsnum \<times> jsnum \<Rightarrow> dstate \<Rightarrow> point option" where
  "popup_place p s = (case p of
      (Num x, Num y) \<Rightarrow>
        (let g = l_grid (ds_doc s);
             q = point_subtract (point_add (twipsToPixels g (pt (of_int x) (of_int y))) (mv_pane (g_view g)))
                   (mv_pixelOrigin (g_view g))
         in if px q \<ge> 0 \<and> py q \<ge> 0 then Some q else None)
    | _ \<Rightarrow> None)"

definition place_dialog :: "jsval \<Rightarrow> (jsnum \<times> jsnum) option \<Rightarrow> dstate \<Rightarrow> dstate" where
  "place_dialog title position s =
     (if js_truthy title then dcall ''dialog.position'' [JStr ''center''] s
      else (case position of
          None \<Rightarrow> s
        | Some p \<Rightarrow>
            (case popup_place p s of
               None \<Rightarrow> s
             | Some q \<Rightarrow> dcall ''dialog.position'' [JReal (px q), JReal (py q)] s)))"

definition launchDialog ::
  "sconf \<Rightarrow> jsnum \<Rightarrow> (jsnum \<times> jsnum) option \<Rightarrow> jsnum \<Rightarrow> jsnum \<Rightarrow> jsval \<Rightarrow> dstate \<Rightarrow> dstate" where
  "launchDialog cf k position w h title s =
     (let s = (if ds_ios s then dcall ''editbar.disable'' [] s else s);
          s = onCloseCurrentPopUp cf s;
          s = place_dialog title position (s\<lparr>ds_nodes := ds_nodes s @ [k]\<rparr>);
          d = \<lparr>dg_width = w, dg_height = h, dg_title = title, dg_caret = False, dg_child = None,
               dg_childSize = (NaN, NaN), dg_childPos = (NaN, NaN)\<rparr>;
          s = setupGestures k (s\<lparr>ds_dialogs := obj_put k d (ds_dialogs s)\<rparr>);
          s = s\<lparr>ds_current := Some k\<rparr>
      in paint_rect cf k (createRectStr k NaN NaN NaN NaN s) s)"

section \<open>Window messages\<close>

text \<open>The two numbers of a text such as \<open>200,100\<close>; a missing text is two zeros, another value than a text has
  no \<open>split\<close>.\<close>

definition pair_of :: "jsval \<Rightarrow> (jsnum \<times> jsnum) option" where
  "pair_of v = (if \<not> js_truthy v then Some (Num 0, Num 0)
     else map_option (\<lambda>t. (nth_num t 0, nth_num t 1)) (js_string v))"

definition createChild :: "sconf \<Rightarrow> jsnum \<Rightarrow> jsnum \<Rightarrow> jsnum \<times> jsnum \<Rightarrow> jsnum \<times> jsnum \<Rightarrow> dstate \<Rightarrow> dstate" where
  "createChild cf k p position sz s =
     (let s = s\<lparr>ds_floats := remove1 p (ds_floats s),
                ds_dialogs := map (\<lambda>(j, d). (j, if j = p then d\<lparr>dg_child := Some k, dg_childSize := sz, dg_childPos := position\<rparr> else d))
                  (ds_dialogs s)\<rparr>;
          s = s\<lparr>ds_floats := ds_floats s @ [p]\<rparr>
      in paint_rect cf k (createRectStr NaN (Num 0) (Num 0) (fst sz) (snd sz) s) s)"

text \<open>The canvas of the child goes; the search for the parent's canvas uses its identifier without the
  prefix and finds nothing, so that the height the child took is not given back.\<close>

definition onDialogChildClose :: "jsnum \<Rightarrow> dstate \<Rightarrow> dstate" where
  "onDialogChildClose p s = s\<lparr>ds_floats := remove1 p (ds_floats s)\<rparr>"

definition win_invalidate :: "sconf \<Rightarrow> jsnum \<Rightarrow> jsval \<Rightarrow> dstate \<Rightarrow> dstate" where
  "win_invalidate cf k rectangle s = (case getParentId k s of
      Some p \<Rightarrow>
        (case obj_get (ds_dialogs s) p of
           None \<Rightarrow> throws s
         | Some d \<Rightarrow> paint_rect cf k (createRectStr NaN (Num 0) (Num 0) (fst (dg_childSize d)) (snd (dg_childSize d)) s) s)
    | None \<Rightarrow>
        if js_truthy rectangle then
          (case js_string rectangle of
             None \<Rightarrow> throws s
           | Some r \<Rightarrow>
               if isRectangleValid r
               then paint_rect cf k (createRectStr NaN (nth_num r 0) (nth_num r 1) (nth_num r 2) (nth_num r 3) s) s
               else s)
        else paint_rect cf k (createRectStr k NaN NaN NaN NaN s) s)"

definition win_resized :: "sconf \<Rightarrow> jsnum \<Rightarrow> jsnum \<times> jsnum \<Rightarrow> dstate \<Rightarrow> dstate" where
  "win_resized cf k sz s =
     (let s = s\<lparr>ds_nodes := remove1 k (ds_nodes s)\<rparr>
      in case obj_get (ds_dialogs s) k of
           None \<Rightarrow> throws s
         | Some d \<Rightarrow> launchDialog cf k None (fst sz) (snd sz) (dg_title d) s)"

definition win_caret_moved :: "jsnum \<Rightarrow> jsval \<Rightarrow> dstate \<Rightarrow> dstate" where
  "win_caret_moved k rectangle s =
     (if isOpen k s \<and> js_truthy rectangle then
        (case js_string rectangle of
           None \<Rightarrow> throws s
         | Some r \<Rightarrow> dcall ''updateDialogCursor'' [JStr (num_text (nth_num r 0)), JStr (num_text (nth_num r 1)),
             JStr (num_text (nth_num r 3))] s)
      else s)"

definition change_dialog :: "jsnum \<Rightarrow> (dialog \<Rightarrow> dialog) \<Rightarrow> dstate \<Rightarrow> dstate" where
  "change_dialog k f s = s\<lparr>ds_dialogs := map (\<lambda>(j, d). (j, if j = k then f d else d)) (ds_dialogs s)\<rparr>"

definition win_titled :: "jsnum \<Rightarrow> jsval \<Rightarrow> dstate \<Rightarrow> dstate" where
  "win_titled k title s =
     (if js_truthy title \<and> obj_get (ds_dialogs s) k \<noteq> None
      then dcall ''dialog.title'' [title] (change_dialog k (\<lambda>d. d\<lparr>dg_title := title\<rparr>) s) else s)"

text \<open>A visible caret in a dialog takes the focus from the document, which then counts as inactive.\<close>

definition lost_focus :: "sconf \<Rightarrow> dstate \<Rightarrow> dstate" where
  "lost_focus cf s =
     on_doc (on_grid (\<lambda>g. g\<lparr>g_net := deactivate cf (g_net g)\<rparr>)) (dcall ''_onEditorLostFocus'' [] s)"

definition win_caret_shown :: "sconf \<Rightarrow> jsnum \<Rightarrow> bool \<Rightarrow> dstate \<Rightarrow> dstate" where
  "win_caret_shown cf k vis s = (case obj_get (ds_dialogs s) k of
      None \<Rightarrow> throws s
    | Some _ \<Rightarrow>
        (let s = change_dialog k (\<lambda>d. d\<lparr>dg_caret := vis\<rparr>) s
         in if vis then lost_focus cf s else s))"

definition win_closed :: "sconf \<Rightarrow> jsnum \<Rightarrow> dstate \<Rightarrow> dstate" where
  "win_closed cf k s = (case getParentId k s of
      Some p \<Rightarrow> onDialogChildClose p s
    | None \<Rightarrow> onDialogClose cf k False s)"

text \<open>The creation of a window, and whether the handler goes on afterwards.\<close>

definition win_created :: "sconf \<Rightarrow> jsval \<Rightarrow> jsnum \<Rightarrow> jsnum \<times> jsnum \<Rightarrow> jsnum \<times> jsnum \<Rightarrow> dstate \<Rightarrow> dstate" where
  "win_created cf e k position sz s =
     (if js_field ''winType'' e = JStr ''dialog''
      then launchDialog cf k (Some position) (fst sz) (snd sz) (js_field ''title'' e) s
      else if js_field ''winType'' e = JStr ''child'' then
        (let p = js_int (js_field ''parentId'' e)
         in if isOpen p s then createChild cf k p position sz s else s)
      else s)"

definition win_changed :: "sconf \<Rightarrow> jsval \<Rightarrow> jsnum \<Rightarrow> jsnum \<times> jsnum \<Rightarrow> dstate \<Rightarrow> dstate" where
  "win_changed cf e k sz s =
     (let action = js_field ''action'' e; rectangle = js_field ''rectangle'' e in
      if \<not> (isOpen k s \<or> getParentId k s \<noteq> None) then s
      else if action = JStr ''invalidate'' then win_invalidate cf k rectangle s
      else if action = JStr ''size_changed'' then win_resized cf k sz s
      else if action = JStr ''cursor_invalidate'' then win_caret_moved k rectangle s
      else if action = JStr ''title_changed'' then win_titled k (js_field ''title'' e) s
      else if action = JStr ''cursor_visible'' then win_caret_shown cf k (js_field ''visible'' e = JStr ''true'') s
      else if action = JStr ''close'' then win_closed cf k s
      else s)"

definition onDialogMsg :: "sconf \<Rightarrow> jsval \<Rightarrow> dstate \<Rightarrow> dstate" where
  "onDialogMsg cf e s =
     (let k = js_int (js_field ''id'' e) in
      case pair_of (js_field ''size'' e) of
        None \<Rightarrow> throws s
      | Some sz \<Rightarrow>
          (case pair_of (js_field ''position'' e) of
             None \<Rightarrow> throws s
           | Some position \<Rightarrow>
               if js_field ''action'' e = JStr ''created'' then win_created cf e k position sz s
               else win_changed cf e k sz s))"


section \<open>Images\<close>

text \<open>The cache of images by hash, the last used first. \<open>_onDialogPaintMsg\<close> takes an entry with the hash of
  the message out, drops the last entry when the rest has the full size, and puts the image in front. The
  image is the cached one when there was an entry.\<close>

definition paint_cache :: "int option \<Rightarrow> string \<Rightarrow> string \<Rightarrow> (string \<times> string) list \<Rightarrow> (string \<times> string) list \<times> string" where
  "paint_cache size_limit hash img cache =
     (let found = find (\<lambda>e. fst e = hash) cache;
          img = (case found of None \<Rightarrow> img | Some e \<Rightarrow> snd e);
          cache = (case found of None \<Rightarrow> cache | Some e \<Rightarrow> remove1 e cache);
          cache = (if size_limit = Some (int (length cache)) then butlast cache else cache)
      in ((hash, img) # cache, img))"

text \<open>Painting on the canvas of a dialog or of its floating child. An image is drawn when it has loaded,
  and the dialog is then shown and focused.\<close>

definition paintDialogChild :: "jsnum \<Rightarrow> string \<Rightarrow> dstate \<Rightarrow> dstate" where
  "paintDialogChild p img s = (if p \<in> set (ds_floats s) then dcall ''drawImage'' [JStr (toStrId p @ ''-floating''), JStr img] s else s)"

definition paintDialog :: "jsnum \<Rightarrow> string option \<Rightarrow> string \<Rightarrow> dstate \<Rightarrow> dstate" where
  "paintDialog k rectangle img s =
     (if k \<notin> set (ds_nodes s) then s
      else
        let at_rect = (case rectangle of
              None \<Rightarrow> (Num 0, Num 0)
            | Some r \<Rightarrow> if r = [] then (Num 0, Num 0) else (nth_num r 0, nth_num r 1));
            s = dcall ''drawImage'' [JStr (toStrId k @ ''-canvas''), JStr img, JStr (num_text (fst at_rect)), JStr (num_text (snd at_rect))] s;
            s = dcall ''dialog.show'' [JStr (toStrId k)] s
        in if isOpen k s then dcall ''input.focus'' [JStr (toStrId k)] s else s)"

definition onDialogPaint :: "jsnum \<Rightarrow> string option \<Rightarrow> string \<Rightarrow> dstate \<Rightarrow> dstate" where
  "onDialogPaint k rectangle img s = (case getParentId k s of
      Some p \<Rightarrow> paintDialogChild p img s
    | None \<Rightarrow> paintDialog k rectangle img s)"

section \<open>Input\<close>

definition postWindowMouseEvent :: "sconf \<Rightarrow> string \<Rightarrow> jsnum \<Rightarrow> int \<Rightarrow> int \<Rightarrow> int \<Rightarrow> int \<Rightarrow> int \<Rightarrow> dstate \<Rightarrow> dstate" where
  "postWindowMouseEvent cf type k x y n buttons modifier =
     dsend cf (''windowmouse id='' @ num_text k @ '' type='' @ type @ '' x='' @ show_int x @ '' y='' @ show_int y
       @ '' count='' @ show_int n @ '' buttons='' @ show_int buttons @ '' modifier='' @ show_int modifier)"

definition postWindowKeyboardEvent :: "sconf \<Rightarrow> jsnum \<Rightarrow> string \<Rightarrow> int \<Rightarrow> int \<Rightarrow> dstate \<Rightarrow> dstate" where
  "postWindowKeyboardEvent cf k type charcode keycode =
     dsend cf (''windowkey id='' @ num_text k @ '' type='' @ type @ '' char='' @ show_int charcode @ '' key='' @ show_int keycode)"

text \<open>The office's number of a browser's mouse button: left 0 is 1, middle 1 is 2, right 2 is 4.\<close>

definition lo_button :: "int \<Rightarrow> int" where
  "lo_button b = (if b = 0 then 1 else if b = 1 then 2 else if b = 2 then 4 else 0)"

text \<open>A press or release on the canvas of a dialog: a press first moves the text input under the pointer, so
  that focusing it does not scroll. A child has no input.\<close>

definition dialog_button :: "sconf \<Rightarrow> bool \<Rightarrow> jsnum \<Rightarrow> int \<Rightarrow> int \<Rightarrow> int \<Rightarrow> dstate \<Rightarrow> dstate" where
  "dialog_button cf down k b x y s =
     (let s = (if down then dcall ''setPosition'' [JInt x, JInt y] s else s);
          s = postWindowMouseEvent cf (if down then ''buttondown'' else ''buttonup'') k x y 1 (lo_button b) 0 s
      in dcall ''input.focus'' [JStr (toStrId k)] s)"

definition child_button :: "sconf \<Rightarrow> bool \<Rightarrow> jsnum \<Rightarrow> int \<Rightarrow> int \<Rightarrow> int \<Rightarrow> dstate \<Rightarrow> dstate" where
  "child_button cf down k b x y =
     postWindowMouseEvent cf (if down then ''buttondown'' else ''buttonup'') k x y 1 (lo_button b) 0"

definition dialog_paste :: "sconf \<Rightarrow> jsnum \<Rightarrow> string \<Rightarrow> dstate \<Rightarrow> dstate" where
  "dialog_paste cf k data s =
     (if data = [] then s
      else dsend cf (''windowcommand '' @ num_text k @ '' paste '' @ encodeURIComponent (json_text (UObj
        [(''MimeType'', UObj [(''type'', UStr ''string''), (''value'', UStr ''mimetype=text/plain;charset=utf-8'')]),
         (''Data'', UObj [(''type'', UStr ''[]byte''), (''value'', UStr data)])]))) s)"

text \<open>Moving and pinching. A pinch sets the scale the fingers give, unless it is 0.4 or less.\<close>

definition change_zoom :: "string \<Rightarrow> (zoom_target \<Rightarrow> zoom_target) \<Rightarrow> dstate \<Rightarrow> dstate" where
  "change_zoom key f s = (case findZoomTarget key s of
      None \<Rightarrow> s
    | Some t \<Rightarrow> s\<lparr>ds_zoom := map (\<lambda>u. if u = t then f u else u) (ds_zoom s)\<rparr>)"

definition onPan :: "string \<Rightarrow> point \<Rightarrow> dstate \<Rightarrow> dstate" where
  "onPan key delta = change_zoom key (\<lambda>t. t\<lparr>z_translate := point_add (z_start t) delta\<rparr>)"

definition onPinch :: "string \<Rightarrow> bool \<Rightarrow> real \<Rightarrow> dstate \<Rightarrow> dstate" where
  "onPinch key starts k = change_zoom key (\<lambda>t.
     let t = (if starts then t\<lparr>z_initScale := if z_scale t = 0 then 1 else z_scale t\<rparr> else t)
     in if z_initScale t * k > 4 / 10 then t\<lparr>z_scale := z_initScale t * k\<rparr> else t)"

definition pan_ends :: "string \<Rightarrow> dstate \<Rightarrow> dstate" where
  "pan_ends key = change_zoom key (\<lambda>t. t\<lparr>z_start := z_translate t\<rparr>)"

section \<open>Runs\<close>

text \<open>The document goes: all containers and floating canvases leave the page. The records stay.\<close>

definition dialogs_unloaded :: "bool \<Rightarrow> dstate \<Rightarrow> dstate" where
  "dialogs_unloaded status s = (if status then s else s\<lparr>ds_nodes := [], ds_floats := []\<rparr>)"

datatype devent =
    WindowMsg jsval
  | WindowPaint jsnum "string option" string
  | TitleBarClose jsnum
  | DocLoadedEvent bool
  | ClickOutside
  | DialogButton bool jsnum int int int
  | ChildButton bool jsnum int int int
  | DialogKey jsnum string int int
  | DialogPaste jsnum string
  | Pan string point
  | Pinch string bool real
  | PanEnd string

fun dstep :: "sconf \<Rightarrow> devent \<Rightarrow> dstate \<Rightarrow> dstate" where
  "dstep cf (WindowMsg e) = onDialogMsg cf e"
| "dstep cf (WindowPaint k r img) = onDialogPaint k r img"
| "dstep cf (TitleBarClose k) = onDialogClose cf k True"
| "dstep cf (DocLoadedEvent b) = dialogs_unloaded b"
| "dstep cf ClickOutside = onCloseCurrentPopUp cf"
| "dstep cf (DialogButton d k b x y) = dialog_button cf d k b x y"
| "dstep cf (ChildButton d k b x y) = child_button cf d k b x y"
| "dstep cf (DialogKey k t c n) = postWindowKeyboardEvent cf k t c n"
| "dstep cf (DialogPaste k t) = dialog_paste cf k t"
| "dstep cf (Pan key d) = onPan key d"
| "dstep cf (Pinch key b k) = onPinch key b k"
| "dstep cf (PanEnd key) = pan_ends key"


section \<open>Facts\<close>

subsection \<open>Identifiers\<close>

lemma num_text_inj: "num_text a = num_text b \<longleftrightarrow> a = b"
proof -
  have "''NaN'' \<noteq> show_int i" for i
  proof
    assume "''NaN'' = show_int i"
    then have "CHR ''N'' \<in> set (show_int i)" by (metis list.set_intros(1))
    then show False using show_int_chars by (fastforce simp: is_digit_def char_code_def)
  qed
  then show ?thesis by (cases a; cases b) (auto simp: show_int_inj dest: sym)
qed

lemma toStrId_inj [simp]: "toStrId a = toStrId b \<longleftrightarrow> a = b"
  by (simp add: toStrId_def num_text_inj)

lemma parse_num_text [simp]: "parseNum (num_text a) = a"
proof (cases a)
  case NaN
  have "parseNum ''NaN'' = NaN" by code_simp
  with NaN show ?thesis by simp
next
  case (Num i)
  then show ?thesis using parseInt_show_int [of "[]" i] by (simp add: parseNum_def)
qed

lemma no_comma: "CHR '','' \<notin> set (num_text a)"
  by (cases a) auto

lemma nth_num_join:
  assumes "i < length ns"
  shows "nth_num (js_join '','' (map num_text ns)) i = ns ! i"
proof -
  have "js_split (CHR '','') (js_join '','' (map num_text ns)) = map num_text ns"
    using assms by (intro js_split_join) (auto simp: no_comma)
  then show ?thesis using assms by (simp add: nth_num_def)
qed

lemma index_keys_set: "set (index_keys m) = set (map fst m)"
proof -
  have "k \<in> set (index_keys m) \<longleftrightarrow> k \<in> fst ` set m" for k
    by (cases k) (force simp: index_keys_def image_iff)+
  then show ?thesis by auto
qed

subsection \<open>Rectangles\<close>

text \<open>
  a rectangle that is asked for reads back as its place and size times the scale of the screen, its
  size is never zero or negative, and with a size left out it is that of the dialog.
\<close>

theorem asked_rectangle_reads_back:
  assumes "createRectStr k x y w h s = Some (Some t)"
  defines "w' \<equiv> (if falsy_num w then dg_width (the (obj_get (ds_dialogs s) k)) else w)"
    and "h' \<equiv> (if falsy_num h then dg_height (the (obj_get (ds_dialogs s) k)) else h)"
  shows "map (nth_num t) [0, 1, 2, 3] =
      map (num_times (ds_scale s)) [if falsy_num x then Num 0 else x, if falsy_num y then Num 0 else y, w', h'] \<and>
    \<not> nonpos w' \<and> \<not> nonpos h'"
proof -
  let ?x = "if falsy_num x then Num 0 else x" and ?y = "if falsy_num y then Num 0 else y"
  have t: "t = js_join '','' (map num_text (map (num_times (ds_scale s)) [?x, ?y, w', h']))" "\<not> nonpos w'" "\<not> nonpos h'"
    using assms(1) by (auto simp: createRectStr_def dim_of_def w'_def h'_def Let_def split: option.splits if_splits)
  let ?ns = "map (num_times (ds_scale s)) [?x, ?y, w', h']"
  have "nth_num t i = ?ns ! i" if "i < 4" for i
    unfolding t(1) by (rule nth_num_join) (use that in simp)
  from this [of 0] this [of 1] this [of 2] this [of 3] show ?thesis using t(2,3) by simp
qed

text \<open>A dialog of 40 by 30 on a screen of scale 2, with a child.\<close>

definition demo_dialogs :: dstate where
  "demo_dialogs = \<lparr>ds_doc = demo_layer, ds_scale = 2, ds_handheld = False, ds_screen = pt 800 600, ds_ios = False,
     ds_dialogs = [(Num 5, \<lparr>dg_width = Num 40, dg_height = Num 30, dg_title = JStr ''Fields'', dg_caret = False,
       dg_child = Some (Num 9), dg_childSize = (Num 20, Num 0), dg_childPos = (Num 1, Num 1)\<rparr>)],
     ds_nodes = [Num 5], ds_floats = [Num 5], ds_current = Some (Num 5),
     ds_zoom = [\<lparr>z_key = ''lokdialog-5'', z_translate = pt 0 0, z_scale = 1, z_start = pt 0 0, z_initScale = 1\<rparr>]\<rparr>"

lemma asked_rectangle_reads_back_witness:
  "createRectStr (Num 5) NaN (Num 3) NaN (Num 7) demo_dialogs = Some (Some ''0,6,80,14'') \<and>
   map (nth_num ''0,6,80,14'') [0, 1, 2, 3] = [Num 0, Num 6, Num 80, Num 14]"
proof -
  have "createRectStr (Num 5) NaN (Num 3) NaN (Num 7) demo_dialogs = Some (Some ''0,6,80,14'')" by code_simp
  with asked_rectangle_reads_back [OF this] show ?thesis by (simp add: demo_dialogs_def)
qed

subsection \<open>Windows the client does not know\<close>

lemma unknown_window:
  assumes "js_int (js_field ''id'' e) = k" "js_field ''action'' e \<noteq> JStr ''created''" "k \<notin> set (ds_nodes s)"
    "getParentId k s = None" "pair_of (js_field ''size'' e) \<noteq> None" "pair_of (js_field ''position'' e) \<noteq> None"
  shows "onDialogMsg cf e s = s"
proof -
  have "\<not> isOpen k s" using assms(3) by (simp add: isOpen_def)
  then show ?thesis using assms by (auto simp: onDialogMsg_def win_changed_def Let_def)
qed

lemma send_frame [simp]:
  "ds_nodes (dsend cf m s) = ds_nodes s" "ds_dialogs (dsend cf m s) = ds_dialogs s" "ds_nodes (dcall f a s) = ds_nodes s"
  "ds_dialogs (dcall f a s) = ds_dialogs s" "ds_nodes (on_doc g s) = ds_nodes s" "ds_dialogs (on_doc g s) = ds_dialogs s"
  "ds_zoom (dsend cf m s) = ds_zoom s" "ds_zoom (dcall f a s) = ds_zoom s" "ds_zoom (on_doc g s) = ds_zoom s"
  "ds_current (dsend cf m s) = ds_current s" "ds_current (dcall f a s) = ds_current s" "ds_current (on_doc g s) = ds_current s"
  "ds_floats (dsend cf m s) = ds_floats s" "ds_floats (dcall f a s) = ds_floats s" "ds_floats (on_doc g s) = ds_floats s"
  by (simp_all add: dsend_def dcall_def on_doc_def)

lemma close_frame:
  "ds_nodes (onDialogClose cf k b s) = remove1 k (ds_nodes s)"
  "ds_dialogs (onDialogClose cf k b s) = obj_del k (ds_dialogs s)"
  "ds_current (onDialogClose cf k b s) = None"
  "ds_floats (onDialogClose cf k b s) = ds_floats s"
  "ds_zoom (onDialogClose cf k b s) = filter (\<lambda>t. z_key t \<noteq> toStrId k) (ds_zoom s)"
  by (simp_all add: onDialogClose_def Let_def removeZoomTarget_def sendCloseWindow_def)

lemma parent_known: "getParentId k s = Some p \<Longrightarrow> \<exists>d. obj_get (ds_dialogs s) p = Some d \<and> dg_child d = Some k"
  by (auto simp: getParentId_def is_parent_def find_Some_iff split: option.splits)

lemma no_parent: "getParentId k s = None \<longleftrightarrow> (\<forall>p d. obj_get (ds_dialogs s) p = Some d \<longrightarrow> \<not> is_parent k d)"
proof -
  have "p \<in> set (index_keys (ds_dialogs s))" if "obj_get (ds_dialogs s) p = Some d" for p d
    using that by (force simp: index_keys_set dest: map_of_SomeD)
  then show ?thesis by (force simp: getParentId_def find_None_iff split: option.splits)
qed

text \<open>
  once a dialog was closed, whatever the server still says about that window, but for creating it again,
  changes nothing and sends nothing.
\<close>

theorem closed_dialog_stays_closed:
  assumes "distinct (ds_nodes s)" "getParentId k s = None"
    and "\<forall>e \<in> set es. js_int (js_field ''id'' e) = k \<and> js_field ''action'' e \<noteq> JStr ''created'' \<and>
      pair_of (js_field ''size'' e) \<noteq> None \<and> pair_of (js_field ''position'' e) \<noteq> None"
  shows "fold (onDialogMsg cf) es (onDialogClose cf k b s) = onDialogClose cf k b s"
proof -
  let ?s = "onDialogClose cf k b s"
  have "k \<notin> set (ds_nodes ?s)" using assms(1) by (simp add: close_frame)
  moreover have "getParentId k ?s = None"
  proof -
    have "obj_get (ds_dialogs ?s) p = Some d \<Longrightarrow> obj_get (ds_dialogs s) p = Some d" for p d
      by (simp add: close_frame obj_del_get split: if_splits)
    then show ?thesis using assms(2) unfolding no_parent by blast
  qed
  ultimately have "onDialogMsg cf e ?s = ?s" if "e \<in> set es" for e using assms(3) that by (intro unknown_window) auto
  then show ?thesis by (induction es) simp_all
qed

lemma closed_dialog_stays_closed_witness:
  "let e = JObj [(''id'', JStr ''5''), (''action'', JStr ''invalidate''), (''rectangle'', JStr ''0,0,8,8'')] in
   onDialogMsg default_conf e (onDialogClose default_conf (Num 5) True demo_dialogs) =
     onDialogClose default_conf (Num 5) True demo_dialogs"
proof -
  let ?e = "JObj [(''id'', JStr ''5''), (''action'', JStr ''invalidate''), (''rectangle'', JStr ''0,0,8,8'')]"
  have "distinct (ds_nodes demo_dialogs) \<and> getParentId (Num 5) demo_dialogs = None" by code_simp
  moreover have "js_int (js_field ''id'' ?e) = Num 5 \<and> js_field ''action'' ?e \<noteq> JStr ''created'' \<and>
      pair_of (js_field ''size'' ?e) \<noteq> None \<and> pair_of (js_field ''position'' ?e) \<noteq> None" by code_simp
  ultimately show ?thesis
    using closed_dialog_stays_closed [of demo_dialogs "Num 5" "[?e]" default_conf True] by simp
qed


subsection \<open>The records of the dialogs\<close>

text \<open>What the identifiers of the records, of the touch targets and of the current dialog are.\<close>

definition rec_keys :: "dstate \<Rightarrow> jsnum list \<times> string list \<times> jsnum option" where
  "rec_keys s = (map fst (ds_dialogs s), map z_key (ds_zoom s), ds_current s)"

definition records_ok :: "dstate \<Rightarrow> bool" where
  "records_ok s \<longleftrightarrow> distinct (map fst (ds_dialogs s)) \<and> distinct (map z_key (ds_zoom s)) \<and>
     set (map z_key (ds_zoom s)) = toStrId ` set (map fst (ds_dialogs s)) \<and>
     (\<forall>k. ds_current s = Some k \<longrightarrow> k \<in> set (map fst (ds_dialogs s)))"

lemma records_cong: "rec_keys s = rec_keys t \<Longrightarrow> records_ok s = records_ok t"
  unfolding rec_keys_def records_ok_def by (metis Pair_inject)

lemma rec_frame [simp]:
  "rec_keys (dsend cf m s) = rec_keys s" "rec_keys (dcall f a s) = rec_keys s" "rec_keys (on_doc g s) = rec_keys s"
  "rec_keys (s\<lparr>ds_nodes := ns\<rparr>) = rec_keys s" "rec_keys (s\<lparr>ds_floats := ns\<rparr>) = rec_keys s"
  by (simp_all add: rec_keys_def)

lemma rec_paint [simp]: "rec_keys (paint_rect cf k r s) = rec_keys s"
  by (auto simp: paint_rect_def sendPaintWindow_def Let_def split: option.split)

lemma rec_change [simp]: "rec_keys (change_dialog k f s) = rec_keys s"
  by (simp add: rec_keys_def change_dialog_def comp_def case_prod_unfold)

lemma rec_child [simp]: "rec_keys (createChild cf k p q sz s) = rec_keys s"
proof -
  have "rec_keys (s\<lparr>ds_dialogs := map (\<lambda>(j, d). (j, if j = p then f d else d)) (ds_dialogs s)\<rparr>) = rec_keys s" for f
    by (simp add: rec_keys_def comp_def case_prod_unfold)
  then show ?thesis by (simp add: createChild_def Let_def)
qed

lemma rec_place [simp]: "rec_keys (place_dialog t p s) = rec_keys s"
  by (auto simp: place_dialog_def split: option.split)

lemma rec_zoom [simp]: "(\<And>t. z_key (f t) = z_key t) \<Longrightarrow> rec_keys (change_zoom key f s) = rec_keys s"
  by (auto simp: rec_keys_def change_zoom_def comp_def split: option.split intro!: map_cong)

lemma records_close: "records_ok s \<Longrightarrow> records_ok (onDialogClose cf k b s)"
proof -
  assume ok: "records_ok s"
  have "set (map z_key (filter (\<lambda>t. z_key t \<noteq> toStrId k) (ds_zoom s))) = set (map z_key (ds_zoom s)) - {toStrId k}" by auto
  moreover have "set (map fst (obj_del k (ds_dialogs s))) = set (map fst (ds_dialogs s)) - {k}" by (simp add: AList.delete_keys)
  moreover have "inj toStrId" by (simp add: inj_def)
  then have "toStrId ` (A - {k}) = toStrId ` A - {toStrId k}" for A by (simp add: image_set_diff)
  ultimately show ?thesis using ok
    by (auto simp: records_ok_def close_frame distinct_delete distinct_map_filter simp del: set_map)
qed

lemma records_popup: "records_ok s \<Longrightarrow> records_ok (onCloseCurrentPopUp cf s)"
  by (auto simp: onCloseCurrentPopUp_def records_close split: option.split)

lemma records_launch: "records_ok s \<Longrightarrow> records_ok (launchDialog cf k p w h title s)"
proof -
  assume ok: "records_ok s"
  let ?s0 = "if ds_ios s then dcall ''editbar.disable'' [] s else s"
  have "rec_keys ?s0 = rec_keys s" by simp
  then have "records_ok ?s0" using ok records_cong by metis
  then have ok1: "records_ok (onCloseCurrentPopUp cf ?s0)" by (rule records_popup)
  define s1 where "s1 = place_dialog title p (onCloseCurrentPopUp cf ?s0\<lparr>ds_nodes := ds_nodes (onCloseCurrentPopUp cf ?s0) @ [k]\<rparr>)"
  have "rec_keys s1 = rec_keys (onCloseCurrentPopUp cf ?s0)" by (simp add: s1_def)
  then have ok1: "records_ok s1" using ok1 records_cong by metis
  define d where "d = \<lparr>dg_width = w, dg_height = h, dg_title = title, dg_caret = False, dg_child = None,
               dg_childSize = (NaN, NaN), dg_childPos = (NaN, NaN)\<rparr>"
  let ?s2 = "s1\<lparr>ds_dialogs := obj_put k d (ds_dialogs s1)\<rparr>"
  let ?zoom = "filter (\<lambda>t. z_key t \<noteq> toStrId k) (ds_zoom s1)"
  have gone: "ds_zoom (if findZoomTarget (toStrId k) ?s2 \<noteq> None then removeZoomTarget (toStrId k) ?s2 else ?s2) = ?zoom"
    by (auto simp: findZoomTarget_def removeZoomTarget_def find_None_iff filter_id_conv)
  have gone_dialogs: "ds_dialogs (if findZoomTarget (toStrId k) ?s2 \<noteq> None then removeZoomTarget (toStrId k) ?s2 else ?s2) = obj_put k d (ds_dialogs s1)"
    by (simp add: removeZoomTarget_def)
  have rec: "rec_keys (launchDialog cf k p w h title s) =
      (map fst (obj_put k d (ds_dialogs s1)), map z_key ?zoom @ [toStrId k], Some k)"
    unfolding launchDialog_def Let_def s1_def [symmetric] d_def [symmetric]
    using gone gone_dialogs
    by (simp add: setupGestures_def Let_def rec_keys_def [of "_\<lparr>ds_current := _\<rparr>"] fitted_def obj_put_get del: rec_frame(5))
  have keys: "set (map fst (obj_put k d (ds_dialogs s1))) = insert k (set (map fst (ds_dialogs s1)))"
    by (auto simp: dom_update)
  have "distinct (map fst (obj_put k d (ds_dialogs s1)))" using ok1 by (simp add: records_ok_def distinct_update)
  moreover have "set (map z_key ?zoom @ [toStrId k]) = toStrId ` insert k (set (map fst (ds_dialogs s1)))"
  proof -
    have "set (map z_key ?zoom @ [toStrId k]) = insert (toStrId k) (set (map z_key (ds_zoom s1)))" by auto
    then show ?thesis using ok1 by (simp add: records_ok_def)
  qed
  moreover have "distinct (map z_key ?zoom @ [toStrId k])" using ok1 by (auto simp: records_ok_def distinct_map_filter)
  moreover have rec': "map fst (ds_dialogs (launchDialog cf k p w h title s)) = map fst (obj_put k d (ds_dialogs s1))"
    "map z_key (ds_zoom (launchDialog cf k p w h title s)) = map z_key ?zoom @ [toStrId k]"
    "ds_current (launchDialog cf k p w h title s) = Some k" using rec by (simp_all add: rec_keys_def)
  ultimately show ?thesis using keys unfolding records_ok_def rec' by simp
qed

lemma records_changed: "records_ok s \<Longrightarrow> records_ok (win_changed cf m k sz s)"
proof -
  assume ok: "records_ok s"
  have same: "records_ok t" if "rec_keys t = rec_keys s" for t using that ok records_cong by blast
  have resized: "records_ok (win_resized cf k sz s)"
  proof -
    have "records_ok (s\<lparr>ds_nodes := remove1 k (ds_nodes s)\<rparr>)" by (rule same) simp
    moreover have "records_ok (throws (s\<lparr>ds_nodes := remove1 k (ds_nodes s)\<rparr>))" by (rule same) simp
    ultimately show ?thesis
      by (cases "obj_get (ds_dialogs s) k") (simp_all add: win_resized_def Let_def records_launch)
  qed
  have rest: "rec_keys (win_invalidate cf k r s) = rec_keys s" "rec_keys (win_caret_moved k r s) = rec_keys s"
    "rec_keys (win_titled k r s) = rec_keys s" "rec_keys (win_caret_shown cf k b s) = rec_keys s" for r b
    by (simp_all add: win_invalidate_def win_caret_moved_def win_titled_def win_caret_shown_def lost_focus_def Let_def split: option.split)
  have closed: "records_ok (win_closed cf k s)"
    using ok same [of "onDialogChildClose _ s"]
    by (simp add: win_closed_def onDialogChildClose_def records_close split: option.split)
  show ?thesis
    by (simp add: win_changed_def Let_def ok resized closed same [OF rest(1)] same [OF rest(2)] same [OF rest(3)] same [OF rest(4)])
qed

lemma records_message: "records_ok s \<Longrightarrow> records_ok (onDialogMsg cf m s)"
proof -
  assume ok: "records_ok s"
  have same: "records_ok t" if "rec_keys t = rec_keys s" for t using that ok records_cong by blast
  have "records_ok (createChild cf k q p sz s)" for k q p sz by (rule same) simp
  then have "records_ok (win_created cf m k p sz s)" for k p sz
    using ok by (simp add: win_created_def Let_def records_launch)
  moreover have "records_ok (throws s)" by (rule same) simp
  ultimately show ?thesis using ok by (simp add: onDialogMsg_def Let_def records_changed split: option.split)
qed

lemma records_step: "records_ok s \<Longrightarrow> records_ok (dstep cf e s)"
proof -
  assume ok: "records_ok s"
  have same: "records_ok t" if "rec_keys t = rec_keys s" for t using that ok records_cong by blast
  have paint: "rec_keys (onDialogPaint k r img s) = rec_keys s" for k r img
    by (simp add: onDialogPaint_def paintDialogChild_def paintDialog_def Let_def split: option.split)
  have pinch: "rec_keys (onPinch key b x s) = rec_keys s" for key b x
    unfolding onPinch_def by (rule rec_zoom) (simp add: Let_def)
  have touch: "rec_keys (onPan key d s) = rec_keys s" "rec_keys (pan_ends key s) = rec_keys s" for key d
    by (simp_all add: onPan_def pan_ends_def)
  have input: "rec_keys (dialog_button cf d k b x y s) = rec_keys s" "rec_keys (child_button cf d k b x y s) = rec_keys s"
    "rec_keys (postWindowKeyboardEvent cf k u c n s) = rec_keys s" "rec_keys (dialog_paste cf k u s) = rec_keys s"
    "rec_keys (dialogs_unloaded v s) = rec_keys s" for d k b x y u c n v
    by (simp_all add: dialog_button_def child_button_def postWindowMouseEvent_def postWindowKeyboardEvent_def dialog_paste_def
      dialogs_unloaded_def Let_def)
  show ?thesis
    by (cases e) (simp_all add: ok records_message records_close records_popup same [OF paint] same [OF pinch] same [OF touch(1)]
      same [OF touch(2)] same [OF input(1)] same [OF input(2)] same [OF input(3)] same [OF input(4)] same [OF input(5)])
qed

interpretation dialogs: event_machine "dstep cf" records_ok
  by unfold_locales (rule records_step)


text \<open>
  C31: whatever the server says and the user does, there is exactly one record for each known window and
  exactly one touch target for each record, and the window that counts as the current one is known.
\<close>

theorem dialog_runs_keep_records:
  assumes "records_ok s"
  shows "records_ok (fold (dstep cf) es s) \<and>
    (\<forall>k. findZoomTarget (toStrId k) (fold (dstep cf) es s) \<noteq> None \<longleftrightarrow>
      obj_get (ds_dialogs (fold (dstep cf) es s)) k \<noteq> None)"
proof -
  let ?s = "fold (dstep cf) es s"
  have ok: "records_ok ?s" using assms by (rule dialogs.run_inv)
  have "findZoomTarget (toStrId k) ?s \<noteq> None \<longleftrightarrow> toStrId k \<in> set (map z_key (ds_zoom ?s))" for k
    by (auto simp: findZoomTarget_def find_None_iff image_iff intro: sym)
  moreover have "toStrId k \<in> set (map z_key (ds_zoom ?s)) \<longleftrightarrow> k \<in> set (map fst (ds_dialogs ?s))" for k
    using ok by (auto simp: records_ok_def simp del: set_map)
  ultimately show ?thesis using ok by (simp add: map_of_eq_None_iff)
qed

lemma demo_records: "records_ok demo_dialogs"
proof -
  have "toStrId (Num 5) = ''lokdialog-5''" by code_simp
  then show ?thesis by (simp add: records_ok_def demo_dialogs_def)
qed

lemma dialog_runs_keep_records_witness:
  "records_ok (fold (dstep default_conf) [TitleBarClose (Num 5), ClickOutside] demo_dialogs)"
  using dialog_runs_keep_records [OF demo_records] by blast

subsection \<open>What goes wrong\<close>

text \<open>
  an area without width or without height that is to be repainted ends the handler with an
  exception: the code takes an absent size from the record of a window, but gives no identifier with it.
\<close>

theorem empty_area_throws:
  assumes "isOpen k s" "getParentId k s = None" "obj_get (ds_dialogs s) NaN = None"
    and "js_int (js_field ''id'' e) = k" "js_field ''action'' e = JStr ''invalidate''" "js_field ''rectangle'' e = JStr r"
    and "isRectangleValid r" "nth_num r 2 = Num 0 \<or> nth_num r 3 = Num 0"
    and "\<not> js_truthy (js_field ''size'' e)" "\<not> js_truthy (js_field ''position'' e)"
  shows "onDialogMsg cf e s = throws s"
proof -
  have r: "js_truthy (JStr r)" "js_string (JStr r) = Some r"
    using assms(7) by (auto simp: js_truthy_def js_string_def isRectangleValid_def nth_num_def parseNum_def js_parseInt_def)
  have "createRectStr NaN (nth_num r 0) (nth_num r 1) (nth_num r 2) (nth_num r 3) s = None"
  proof (cases "nth_num r 2 = Num 0")
    case True
    then show ?thesis using assms(3) by (simp add: createRectStr_def dim_of_def)
  next
    case False
    then obtain w where w: "nth_num r 2 = Num w" "0 < w"
      using assms(7) by (cases "nth_num r 2") (auto simp: isRectangleValid_def)
    then show ?thesis using assms(3,8) by (simp add: createRectStr_def dim_of_def)
  qed
  then show ?thesis using assms r
    by (simp add: onDialogMsg_def pair_of_def win_changed_def win_invalidate_def paint_rect_def Let_def)
qed

lemma empty_area_throws_witness:
  "onDialogMsg default_conf (JObj [(''id'', JStr ''5''), (''action'', JStr ''invalidate''), (''rectangle'', JStr ''3,4,0,10'')]) demo_dialogs =
     throws demo_dialogs"
proof -
  let ?e = "JObj [(''id'', JStr ''5''), (''action'', JStr ''invalidate''), (''rectangle'', JStr ''3,4,0,10'')]"
  have "isOpen (Num 5) demo_dialogs \<and> getParentId (Num 5) demo_dialogs = None \<and> obj_get (ds_dialogs demo_dialogs) NaN = None \<and>
    js_int (js_field ''id'' ?e) = Num 5 \<and> js_field ''action'' ?e = JStr ''invalidate'' \<and> js_field ''rectangle'' ?e = JStr ''3,4,0,10'' \<and>
    isRectangleValid ''3,4,0,10'' \<and> nth_num ''3,4,0,10'' 2 = Num 0 \<and> \<not> js_truthy (js_field ''size'' ?e) \<and>
    \<not> js_truthy (js_field ''position'' ?e)" by code_simp
  then show ?thesis using empty_area_throws [of "Num 5" demo_dialogs ?e "''3,4,0,10''" default_conf] by blast
qed

text \<open>A message about the size or the caret of a floating child throws: the child has no record.\<close>

lemma child_size_throws:
  assumes "getParentId k s = Some p" "obj_get (ds_dialogs s) k = None" "js_int (js_field ''id'' e) = k"
    and "js_field ''action'' e = JStr ''size_changed''" "pair_of (js_field ''size'' e) = Some sz" "pair_of (js_field ''position'' e) = Some q"
  shows "onDialogMsg cf e s = throws (s\<lparr>ds_nodes := remove1 k (ds_nodes s)\<rparr>)"
  using assms by (simp add: onDialogMsg_def win_changed_def win_resized_def Let_def)

text \<open>
  closing a dialog while a pop-up is open makes the client forget the pop-up: it stays open, and clicks
  outside and new dialogs do not close it any more.
\<close>

theorem forgotten_popup_stays:
  assumes "isOpen a s" "a \<noteq> b" "getParentId b s = None" "isOpen b s"
    and "js_int (js_field ''id'' e) = b" "js_field ''action'' e = JStr ''close''"
    and "\<not> js_truthy (js_field ''size'' e)" "\<not> js_truthy (js_field ''position'' e)"
  shows "isOpen a (onDialogMsg cf e s) \<and> onCloseCurrentPopUp cf (onDialogMsg cf e s) = onDialogMsg cf e s"
proof -
  have "onDialogMsg cf e s = onDialogClose cf b False s"
    using assms by (simp add: onDialogMsg_def pair_of_def win_changed_def win_closed_def Let_def)
  then show ?thesis using assms(1,2)
    by (simp add: isOpen_def close_frame onCloseCurrentPopUp_def obj_del_get)
qed

definition demo_popup :: dstate where
  "demo_popup = demo_dialogs\<lparr>ds_nodes := [Num 5, Num 7], ds_current := Some (Num 7),
     ds_dialogs := ds_dialogs demo_dialogs @ [(Num 7, \<lparr>dg_width = Num 10, dg_height = Num 10, dg_title = JUndef, dg_caret = False,
       dg_child = None, dg_childSize = (NaN, NaN), dg_childPos = (NaN, NaN)\<rparr>)]\<rparr>"

lemma forgotten_popup_stays_witness:
  "isOpen (Num 7) (onDialogMsg default_conf (JObj [(''id'', JInt 5), (''action'', JStr ''close'')]) demo_popup) \<and>
   ds_current demo_popup = Some (Num 7)"
proof -
  let ?e = "JObj [(''id'', JInt 5), (''action'', JStr ''close'')]"
  have "isOpen (Num 7) demo_popup \<and> isOpen (Num 5) demo_popup \<and> getParentId (Num 5) demo_popup = None \<and>
    js_int (js_field ''id'' ?e) = Num 5 \<and> js_field ''action'' ?e = JStr ''close'' \<and> \<not> js_truthy (js_field ''size'' ?e) \<and>
    \<not> js_truthy (js_field ''position'' ?e) \<and> ds_current demo_popup = Some (Num 7)" by code_simp
  then show ?thesis using forgotten_popup_stays [of "Num 7" demo_popup "Num 5" ?e default_conf] by simp
qed

subsection \<open>The cache of images\<close>

text \<open>The hashes in the order they were used last, the latest first.\<close>

definition latest_first :: "'a list \<Rightarrow> 'a list" where
  "latest_first hs = rev (remdups hs)"

definition paint_all :: "int option \<Rightarrow> (string \<times> string) list \<Rightarrow> (string \<times> string) list \<Rightarrow> (string \<times> string) list" where
  "paint_all n ms cache = fold (\<lambda>(h, img) c. fst (paint_cache n h img c)) ms cache"

lemma latest_first_snoc: "latest_first (hs @ [h]) = h # filter (\<lambda>x. x \<noteq> h) (latest_first hs)"
proof -
  have "remdups (hs @ [h]) = filter (\<lambda>x. x \<noteq> h) (remdups hs) @ [h]" by (induction hs) auto
  then show ?thesis by (simp add: latest_first_def rev_filter)
qed

lemma remove_found:
  "distinct (map fst c) \<Longrightarrow> find (\<lambda>e. fst e = h) c = Some e \<Longrightarrow> remove1 e c = filter (\<lambda>e. fst e \<noteq> h) c"
proof (induction c)
  case (Cons d c)
  show ?case
  proof (cases "fst d = h")
    case True
    then have "\<forall>x \<in> set c. fst x \<noteq> h"
      using Cons.prems(1) by (metis distinct.simps(2) image_eqI list.simps(9) set_map)
    then show ?thesis using True Cons.prems(2) by (simp add: filter_id_conv)
  next
    case False
    then have f: "find (\<lambda>e. fst e = h) c = Some e" using Cons.prems(2) by simp
    then have "fst e = h" by (auto simp: find_Some_iff)
    then show ?thesis using False Cons.IH [OF _ f] Cons.prems(1) by auto
  qed
qed simp

lemma paint_cache_hashes:
  assumes "distinct (map fst c)"
  shows "map fst (fst (paint_cache n h img c)) =
    h # (let r = filter (\<lambda>x. x \<noteq> h) (map fst c) in if n = Some (int (length r)) then butlast r else r)"
proof -
  define d where "d = (case find (\<lambda>e. fst e = h) c of None \<Rightarrow> c | Some e \<Rightarrow> remove1 e c)"
  have d: "map fst d = filter (\<lambda>x. x \<noteq> h) (map fst c)"
  proof (cases "find (\<lambda>e. fst e = h) c")
    case None
    then have "filter (\<lambda>e. fst e \<noteq> h) c = c" by (auto simp: find_None_iff filter_id_conv)
    then show ?thesis using None by (simp add: d_def filter_map comp_def)
  next
    case (Some e)
    then show ?thesis using remove_found [OF assms Some] by (simp add: d_def filter_map comp_def)
  qed
  have "map fst (fst (paint_cache n h img c)) = h # map fst (if n = Some (int (length d)) then butlast d else d)"
    by (simp add: paint_cache_def Let_def d_def)
  moreover have "length d = length (filter (\<lambda>x. x \<noteq> h) (map fst c))" using d by (metis length_map)
  ultimately show ?thesis using d by (simp add: Let_def map_butlast)
qed

lemma latest_first_distinct: "distinct (latest_first hs)"
  by (simp add: latest_first_def)

lemma take_filter_other:
  assumes "distinct xs" "0 < n"
  shows "take n (h # filter (\<lambda>x. x \<noteq> h) xs) =
    h # (let r = filter (\<lambda>x. x \<noteq> h) (take n xs) in if n = length r then butlast r else r)"
proof -
  obtain m where n: "n = Suc m" using assms(2) by (cases n) auto
  show ?thesis
  proof (cases "h \<in> set (take n xs)")
    case True
    then obtain a b where ab: "take n xs = a @ h # b" by (auto dest: split_list)
    then have xs: "xs = a @ h # b @ drop n xs" by (metis append_Cons append_assoc append_take_drop_id)
    have skip: "filter (\<lambda>x. x \<noteq> h) ys = ys" if "h \<notin> set ys" for ys using that by (auto simp: filter_id_conv)
    have nh: "h \<notin> set a" "h \<notin> set b" "h \<notin> set (drop n xs)"
      using assms(1) xs by (metis append.assoc append_Cons distinct_append not_distinct_conv_prefix in_set_conv_decomp distinct.simps(2) UnCI set_append)+
    then have f: "filter (\<lambda>x. x \<noteq> h) xs = a @ b @ drop n xs" "filter (\<lambda>x. x \<noteq> h) (take n xs) = a @ b"
      using skip [OF nh(1)] skip [OF nh(2)] skip [OF nh(3)] by (subst xs, simp) (simp add: ab skip [OF nh(1)] skip [OF nh(2)])
    have len: "length (a @ b) < n" "length xs > m \<Longrightarrow> length (a @ b) = m"
      using arg_cong [OF ab, of length] n by auto
    show ?thesis
    proof (cases "length xs > m")
      case True
      then show ?thesis using len n f by (simp add: Let_def)
    next
      case False
      then show ?thesis using len n f by (simp add: Let_def)
    qed
  next
    case False
    then have f: "filter (\<lambda>x. x \<noteq> h) (take n xs) = take n xs" by (auto simp: filter_id_conv)
    have m: "take m (filter (\<lambda>x. x \<noteq> h) xs) = take m xs"
    proof -
      have "filter (\<lambda>x. x \<noteq> h) xs = take n xs @ filter (\<lambda>x. x \<noteq> h) (drop n xs)"
        using f by (metis append_take_drop_id filter_append)
      then show ?thesis using n by (simp add: take_append min_def)
    qed
    show ?thesis
    proof (cases "n \<le> length xs")
      case True
      then have "butlast (take n xs) = take m xs" using n by (simp add: butlast_take)
      then show ?thesis using True n m f by simp
    next
      case False
      then show ?thesis using n m f by simp
    qed
  qed
qed

text \<open>
  C32: the cache of dialog images is the list of the hashes used last: after any messages it holds the
  \<open>n\<close> hashes that were used most recently, in that order, each once, when its size is positive; a size of
  zero, which holds until the server has told it, does not empty it but lets it grow without end.
\<close>

theorem image_cache_is_recent:
  "map fst (paint_all (Some (int n)) ms []) =
     (if n = 0 then latest_first (map fst ms) else take n (latest_first (map fst ms)))"
proof (induction ms rule: rev_induct)
  case Nil
  then show ?case by (simp add: paint_all_def latest_first_def)
next
  case (snoc m ms)
  obtain h img where m: "m = (h, img)" by fastforce
  let ?c = "paint_all (Some (int n)) ms []" and ?l = "latest_first (map fst ms)"
  have c: "map fst ?c = (if n = 0 then ?l else take n ?l)" using snoc .
  then have "distinct (map fst ?c)" using latest_first_distinct [of "map fst ms"] by simp
  then have step: "map fst (paint_all (Some (int n)) (ms @ [m]) []) =
      h # (let r = filter (\<lambda>x. x \<noteq> h) (map fst ?c) in if n = length r then butlast r else r)"
    by (simp add: paint_all_def m paint_cache_hashes)
  show ?case
  proof (cases "n = 0")
    case True
    then show ?thesis using step c by (auto simp: m latest_first_snoc Let_def)
  next
    case False
    then show ?thesis using step c take_filter_other [OF latest_first_distinct [of "map fst ms"], of n h]
      by (simp add: m latest_first_snoc)
  qed
qed

end
