(* ===== verification/Keyboard.thy ===== *)
theory Keyboard
  imports Commands Dialogs
begin

unbundle bit_operations_syntax

text \<open>
  The keyboard (\<open>map/handler/Map.Keyboard.js\<close>). A key event of the document or of a dialog is translated to the
  office's key codes, with the modifiers in bits above them, and sent as a key message; shortcuts, the keys of
  the clipboard and of the help are taken out first, and keys pressed with AltGr, which Windows reports as
  Ctrl and Alt, are recognised by where the keys before them were pressed. Input methods compose their text in
  the page and send it when it is complete.

  A text that an input method delivers is the list of its UTF-16 units.
\<close>

section \<open>State and key codes\<close>

record keyboard =
  kb_app :: app
  kb_modifier :: int
  kb_handled :: bool                \<comment> \<open>\<open>_keyHandled\<close>\<close>
  kb_composing :: bool
  kb_altGr :: "int option"          \<comment> \<open>\<open>_prevCtrlAltLocation\<close>\<close>
  kb_attached :: bool               \<comment> \<open>the handlers of keys and input methods are on the map\<close>
  kb_mouseAttached :: bool
  kb_slideShow :: bool              \<comment> \<open>a slide show fills the screen\<close>
  kb_selections :: nat              \<comment> \<open>the layers of \<open>_selections\<close>\<close>

definition on_kb :: "(app \<Rightarrow> app) \<Rightarrow> keyboard \<Rightarrow> keyboard" where
  "on_kb f k = k\<lparr>kb_app := f (kb_app k)\<rparr>"

definition shift_bit :: int where "shift_bit = 4096"
definition ctrl_bit :: int where "ctrl_bit = 8192"
definition alt_bit :: int where "alt_bit = 16384"
definition ctrlMac_bit :: int where "ctrlMac_bit = 32768"

definition keymap :: "(int \<times> int option) list" where
  "keymap =
     [(8, Some 1283), (9, Some 1282), (13, Some 1280), (16, None), (17, None), (18, None), (19, None), (20, None),
      (27, Some 1281), (32, Some 1284), (33, Some 1030), (34, Some 1031), (35, Some 1029), (36, Some 1028), (37, Some 1026),
      (38, Some 1025), (39, Some 1027), (40, Some 1024), (45, Some 1285), (46, Some 1286),
      (48, Some 256), (49, Some 257), (50, Some 258), (51, Some 259), (52, Some 260), (53, Some 261), (54, Some 262),
      (55, Some 263), (56, Some 264), (57, Some 265),
      (65, Some 512), (66, Some 513), (67, Some 514), (68, Some 515), (69, Some 516), (70, Some 517), (71, Some 518),
      (72, Some 519), (73, Some 520), (74, Some 521), (75, Some 522), (76, Some 523), (77, Some 524), (78, Some 525),
      (79, Some 526), (80, Some 527), (81, Some 528), (82, Some 529), (83, Some 530), (84, Some 531), (85, Some 532),
      (86, Some 533), (87, Some 534), (88, Some 535), (89, Some 536), (90, Some 537), (91, None), (92, None), (93, None),
      (96, Some 256), (97, Some 257), (98, Some 258), (99, Some 259), (100, Some 260), (101, Some 261), (102, Some 262),
      (103, Some 263), (104, Some 264), (105, Some 265), (106, Some 1289), (107, Some 1287), (109, Some 1288),
      (110, Some 1309), (111, Some 1290), (112, Some 768), (113, Some 769), (114, Some 770), (115, Some 771),
      (116, Some 772), (117, Some 773), (118, Some 774), (119, Some 775), (120, Some 776), (121, Some 777), (122, Some 778),
      (144, Some 1313), (145, Some 1314), (173, Some 1288), (186, Some 1317), (187, Some 1295), (188, Some 1292),
      (189, Some 1288), (190, None), (191, None), (192, None), (219, None), (220, None), (221, None), (222, None)]"

definition toUNOKeyCode :: "int \<Rightarrow> int" where
  "toUNOKeyCode keyCode = (case map_of keymap keyCode of Some (Some n) \<Rightarrow> n | _ \<Rightarrow> keyCode)"

definition handleOnKeyDownKeys :: "int list" where
  "handleOnKeyDownKeys = [8, 9, 19, 20, 27, 33, 34, 35, 36, 37, 38, 39, 40, 45, 46, 113]"

definition keyboardPanOffset :: int where "keyboardPanOffset = 20"
definition keyboardZoomOffset :: int where "keyboardZoomOffset = 1"

text \<open>\<open>_setPanOffset\<close> and \<open>_setZoomOffset\<close>: what the keys that move and zoom do.\<close>

definition panKeys :: "(int, int \<times> int) obj" where
  "panKeys = [(37, (- 1 * keyboardPanOffset, 0)), (39, (keyboardPanOffset, 0)), (40, (0, keyboardPanOffset)),
     (38, (0, - 1 * keyboardPanOffset))]"

definition zoomKeys :: "(int, int) obj" where
  "zoomKeys = map (\<lambda>k. (k, keyboardZoomOffset)) [187, 107, 61, 171] @ map (\<lambda>k. (k, - keyboardZoomOffset)) [189, 109, 173]"

section \<open>Handlers\<close>

definition addHooks :: "keyboard \<Rightarrow> keyboard" where
  "addHooks k = k\<lparr>kb_mouseAttached := True\<rparr>"

definition removeHooks :: "keyboard \<Rightarrow> keyboard" where
  "removeHooks k = k\<lparr>kb_mouseAttached := False, kb_attached := False\<rparr>"

text \<open>\<open>updatePermission\<close> attaches the handlers in edit mode; nothing detaches them when the mode is left.\<close>

definition updatePermission :: "string \<Rightarrow> keyboard \<Rightarrow> keyboard" where
  "updatePermission p k = (if p = ''edit'' then k\<lparr>kb_attached := True\<rparr> else k)"

definition kb_onMouseDown :: "int \<Rightarrow> keyboard \<Rightarrow> keyboard" where
  "kb_onMouseDown now k =
     (let k = on_kb (on_net (notifyActive now)) k
      in if app_edits (kb_app k) then k else on_kb (acall ''focus'' []) k)"

section \<open>Keys\<close>

text \<open>Where key messages go: to the document, or to the window of a dialog.\<close>

datatype sink = ToDocument | ToWindow jsnum

definition window_key :: "jsnum \<Rightarrow> string \<Rightarrow> int \<Rightarrow> int \<Rightarrow> string" where
  "window_key w type charcode keycode =
     ''windowkey id='' @ Dialogs.num_text w @ '' type='' @ type @ '' char='' @ show_int charcode @ '' key='' @ show_int keycode"

definition keyEventFn :: "sconf \<Rightarrow> sink \<Rightarrow> string \<Rightarrow> int \<Rightarrow> int \<Rightarrow> keyboard \<Rightarrow> keyboard" where
  "keyEventFn cf sink type charcode keycode = on_kb (case sink of
      ToDocument \<Rightarrow> on_app (postKeyboardEvent cf type charcode keycode)
    | ToWindow w \<Rightarrow> asend cf (window_key w type charcode keycode))"

text \<open>Shift with Insert or Delete is cut and paste, handled elsewhere.\<close>

definition ignoreKeyEvent :: "key_event \<Rightarrow> bool" where
  "ignoreKeyEvent e \<longleftrightarrow> ke_shift e \<and> (case ke_key e of
      Some key \<Rightarrow> key = ''Delete'' \<or> key = ''Insert''
    | None \<Rightarrow> ke_keyCode e = 45 \<or> ke_keyCode e = 46)"

definition prevents :: "keyboard \<Rightarrow> keyboard" where
  "prevents = on_kb (acall ''preventDefault'' [])"

text \<open>\<open>_handleCtrlCommand\<close>: whether the key is dealt with. \<open>marked\<close> is the text selected in the page.\<close>

definition clip_key :: "key_event \<Rightarrow> bool" where
  "clip_key e \<longleftrightarrow> ke_key e = Some ''c'' \<or> ke_key e = Some ''v'' \<or> ke_key e = Some ''x''"

definition safari_clip :: "key_event \<Rightarrow> bool" where
  "safari_clip e \<longleftrightarrow> ke_keyCode e \<in> {99, 118, 120}"

definition ctrl_key :: "sconf \<Rightarrow> string \<Rightarrow> key_event \<Rightarrow> keyboard \<Rightarrow> keyboard \<times> bool" where
  "ctrl_key cf marked e k =
     (if ke_keyCode e \<in> {67, 88, 99, 120, 91, 93}
      then (on_kb (acall ''clipboardContainer.select'' [] \<circ> acall ''focus'' []
              \<circ> acall ''clipboardContainer.setValue'' [JStr marked]) k, True)
      else if ke_keyCode e = 83 then (on_kb (app_save cf False False None) k, True)
      else if ke_keyCode e \<in> {86, 118} then (k, True)
      else (k, ke_type e = ''keypress'' \<and> (ke_ctrl e \<or> ke_meta e) \<and> clip_key e))"

definition handleCtrlCommand :: "sconf \<Rightarrow> string \<Rightarrow> key_event \<Rightarrow> keyboard \<Rightarrow> keyboard \<times> bool" where
  "handleCtrlCommand cf marked e k =
     (if ke_keyCode e = 17 then (k, True)
      else if ke_type e \<noteq> ''keydown'' \<and> \<not> clip_key e \<and> \<not> safari_clip e then (prevents k, True)
      else
        let k = (if ke_keyCode e \<notin> {67, 86, 88} \<and> \<not> safari_clip e \<and> \<not> clip_key e then prevents k else k)
        in if ke_alt e \<or> ke_shift e
           then (if ke_alt e \<and> ke_keyCode e = 68 then on_kb (acall ''toggleTileDebugMode'' []) k else k, False)
           else ctrl_key cf marked e k)"

text \<open>AltGr. \<open>None\<close>: the event is left alone; otherwise whether it is the character that AltGr gives, which is then
  taken without modifiers.\<close>

definition alt_gr :: "key_event \<Rightarrow> keyboard \<Rightarrow> keyboard \<times> bool option" where
  "alt_gr e k =
     (if \<not> (ke_ctrl e \<and> ke_alt e) then (k, Some False)
      else if ke_type e = ''keydown'' \<and> ke_location e = 2 then (k\<lparr>kb_altGr := Some 2\<rparr>, None)
      else
        let k = (if ke_location e = 1 then k\<lparr>kb_altGr := None\<rparr> else k)
        in if kb_altGr k = Some 2 \<and> ke_location e = 0
           then (k, if ke_type e = ''keypress'' then Some True else None)
           else (k, Some False))"

definition modifier_bits :: "key_event \<Rightarrow> int" where
  "modifier_bits e =
     ((if ke_shift e then shift_bit else 0) OR (if ke_ctrl e then ctrl_bit else 0) OR
      (if ke_alt e then alt_bit else 0) OR (if ke_meta e then ctrl_bit else 0))"

text \<open>In edit mode: some keys are sent when they go down, the others when they give a character; each is sent
  again when it comes up.\<close>

definition edit_send :: "sconf \<Rightarrow> sink \<Rightarrow> key_event \<Rightarrow> int \<Rightarrow> keyboard \<Rightarrow> keyboard" where
  "edit_send cf sink e code k =
     (let down = ke_keyCode e \<in> set handleOnKeyDownKeys; ch = ke_charCode e
      in if ignoreKeyEvent e then k
         else if ke_type e = ''keydown'' then
           (let k = k\<lparr>kb_handled := False\<rparr> in if down \<and> ch = 0 then keyEventFn cf sink ''input'' ch code k else k)
         else if ke_type e = ''keypress'' \<and> (\<not> down \<or> ch \<noteq> 0) then
           (keyEventFn cf sink ''input'' ch (if ch = ke_keyCode e \<and> ch \<noteq> 13 then toUNOKeyCode 0 else code) k)\<lparr>kb_handled := True\<rparr>
         else if ke_type e = ''keyup'' then (keyEventFn cf sink ''up'' ch code k)\<lparr>kb_handled := True\<rparr>
         else k)"

text \<open>A tab would move the focus in the page; a printable one has its key code cleared by then.\<close>

definition tab_key :: "key_event \<Rightarrow> bool" where
  "tab_key e \<longleftrightarrow> ke_keyCode e = 9 \<and> \<not> (\<not> ignoreKeyEvent e \<and> ke_type e = ''keypress'' \<and> ke_charCode e = 9)"

definition edit_key :: "sconf \<Rightarrow> sink \<Rightarrow> key_event \<Rightarrow> int \<Rightarrow> keyboard \<Rightarrow> keyboard" where
  "edit_key cf sink e code k =
     (let k = on_kb (on_app (on_grid (resetPreFetching False))) k;
          k = (if code = 1281 then on_kb (acall ''editbar.uncheck'' [JStr ''horizontaltext'']
                 \<circ> acall ''editbar.uncheck'' [JStr ''verticaltext'']) k else k);
          k = edit_send cf sink e code k
      in if tab_key e then prevents k else k)"

text \<open>Otherwise keys move and zoom, and Shift with an arrow changes a selection. Holding Shift was to zoom by three
  levels, but the handler looks for it on the map's event, which does not have it: only an event that comes from
  a dialog does (\<open>outer_shift\<close>).\<close>

definition view_key :: "sconf \<Rightarrow> sink \<Rightarrow> bool \<Rightarrow> key_event \<Rightarrow> int \<Rightarrow> keyboard \<Rightarrow> keyboard" where
  "view_key cf sink outer_shift e code k =
     (if ke_type e \<noteq> ''keydown'' then k
      else (case (obj_get panKeys (ke_keyCode e), obj_get zoomKeys (ke_keyCode e)) of
          (Some d, _) \<Rightarrow>
            if \<not> ke_shift e then
              on_kb (afire ''scrollby'' [(''x'', JInt (fst d)), (''y'', JInt (snd d))]) k
            else if kb_selections k \<noteq> 0 then keyEventFn cf sink ''input'' (ke_charCode e) code k
            else k
        | (None, Some z) \<Rightarrow>
            on_kb (acall ''setZoom'' [JInt (mv_zoom (g_view (l_grid (app_layer (kb_app k)))) + (if outer_shift then 3 else 1) * z)]) k
        | (None, None) \<Rightarrow> k))"

definition panning :: "keyboard \<Rightarrow> bool" where
  "panning k \<longleftrightarrow> mv_panTarget (g_view (l_grid (app_layer (kb_app k)))) \<noteq> None"

definition key_chosen :: "sconf \<Rightarrow> sink \<Rightarrow> key_event \<Rightarrow> bool \<Rightarrow> bool \<Rightarrow> int \<Rightarrow> keyboard \<Rightarrow> keyboard" where
  "key_chosen cf sink e ctrl alt code k =
     (if ke_type e = ''keydown'' \<and> \<not> ke_shift e \<and> \<not> ctrl \<and> \<not> alt \<and> \<not> ke_meta e \<and> ke_keyCode e = 112
      then prevents (on_kb (acall ''showHelp'' []) k)
      else if kb_modifier k \<noteq> 0 \<and> ke_type e \<noteq> ''keyup'' \<and>
              (kb_modifier k \<noteq> (if ke_shift e then shift_bit else 0) \<or>
               (ke_keyCode e = 32 \<and> \<not> l_isCursorVisible (app_layer (kb_app k))))
      then prevents (keyEventFn cf sink ''input'' (ke_charCode e) code k)
      else if app_edits (kb_app k) then on_kb (acall ''stopPropagation'' []) (edit_key cf sink e code k)
      else if kb_modifier k = 0 \<and> (ke_keyCode e = 33 \<or> ke_keyCode e = 34) then k
      else if ke_type e = ''keydown'' \<and> obj_get panKeys (ke_keyCode e) \<noteq> None \<and> \<not> ke_shift e \<and> panning k then k
      else on_kb (acall ''stopPropagation'' []) (view_key cf sink (sink \<noteq> ToDocument \<and> ke_shift e) e code k))"

definition key_decided ::
  "sconf \<Rightarrow> sink \<Rightarrow> key_event \<Rightarrow> bool \<Rightarrow> bool \<Rightarrow> keyboard \<Rightarrow> keyboard" where
  "key_decided cf sink e ctrl alt k =
     (let k = (if \<not> kb_composing k \<and> ke_type e = ''keyup'' then on_kb (acall ''input.clear'' []) k else k);
          special = (kb_modifier k = alt_bit \<or> kb_modifier k = shift_bit + alt_bit) \<and> ke_keyCode e \<ge> 48;
          k = (if special then k\<lparr>kb_modifier := kb_modifier k - (if alt then alt_bit else 0)\<rparr> else k);
          code = toUNOKeyCode (ke_keyCode e);
          code = (if kb_modifier k \<noteq> 0 then code OR kb_modifier k else code)
      in key_chosen cf sink e ctrl (alt \<and> \<not> special) code k)"

definition onKeyDown ::
  "sconf \<Rightarrow> (string \<Rightarrow> string \<Rightarrow> string) \<Rightarrow> int \<Rightarrow> string \<Rightarrow> sink \<Rightarrow> key_event \<Rightarrow> keyboard \<Rightarrow> keyboard" where
  "onKeyDown cf target now marked sink e k =
     (let k = on_kb (on_net (notifyActive now)) k
      in if kb_slideShow k then k
         else
           let k = k\<lparr>kb_modifier := modifier_bits e\<rparr>;
               (k, gr) = alt_gr e k
           in case gr of
                None \<Rightarrow> k
              | Some given \<Rightarrow>
                  (let k = (if given then k\<lparr>kb_modifier := 0\<rparr> else k);
                       ctrl = (ke_ctrl e \<and> \<not> given); alt = (ke_alt e \<and> \<not> given);
                       (k, handled) = (if ctrl \<or> ke_meta e then handleCtrlCommand cf marked e k else (k, False))
                   in if handled then k
                      else
                        let (a, hot) = (if sink = ToDocument then executeHotkey cf target e (kb_app k) else (kb_app k, False));
                            k = k\<lparr>kb_app := a\<rparr>
                        in if hot then k else key_decided cf sink e ctrl alt k))"

section \<open>Input methods\<close>

text \<open>UTF-8 of a text of UTF-16 units; \<open>None\<close>: half of a surrogate pair, which \<open>encodeURIComponent\<close> does not take.\<close>

definition utf8_char :: "int \<Rightarrow> string" where
  "utf8_char u =
     map (\<lambda>i. char_of (nat i))
       (if u < 0x80 then [u]
        else if u < 0x800 then [0xC0 + u div 64, 0x80 + u mod 64]
        else if u < 0x10000 then [0xE0 + u div 4096, 0x80 + u div 64 mod 64, 0x80 + u mod 64]
        else [0xF0 + u div 262144, 0x80 + u div 4096 mod 64, 0x80 + u div 64 mod 64, 0x80 + u mod 64])"

definition high_half :: "int \<Rightarrow> bool" where
  "high_half u \<longleftrightarrow> 0xD800 \<le> u \<and> u < 0xDC00"

definition low_half :: "int \<Rightarrow> bool" where
  "low_half u \<longleftrightarrow> 0xDC00 \<le> u \<and> u < 0xE000"

fun utf8 :: "int list \<Rightarrow> string option" where
  "utf8 [] = Some []"
| "utf8 [u] = (if high_half u \<or> low_half u then None else Some (utf8_char u))"
| "utf8 (u # v # us) =
     (if high_half u \<and> low_half v
      then map_option ((@) (utf8_char (0x10000 + (u - 0xD800) * 1024 + (v - 0xDC00)))) (utf8 us)
      else if high_half u \<or> low_half u then None
      else map_option ((@) (utf8_char u)) (utf8 (v # us)))"

definition postCompositionEvent :: "sconf \<Rightarrow> jsnum \<Rightarrow> string \<Rightarrow> int list \<Rightarrow> keyboard \<Rightarrow> keyboard" where
  "postCompositionEvent cf winId type text = (case utf8 text of
      None \<Rightarrow> on_kb (acall ''URIError'' [])
    | Some t \<Rightarrow> on_kb (asend cf (''textinput id='' @ Dialogs.num_text winId @ '' type='' @ type @ '' text='' @ encodeURIComponent t)))"

text \<open>In a dialog: what is composed is sent while it changes.\<close>

definition onPrivateIME :: "sconf \<Rightarrow> string \<Rightarrow> int list \<Rightarrow> jsnum \<Rightarrow> keyboard \<Rightarrow> keyboard" where
  "onPrivateIME cf type data w k =
     (if type = ''compositionstart'' then k\<lparr>kb_composing := True\<rparr>
      else if type = ''compositionupdate'' then postCompositionEvent cf w ''input'' data k
      else if type = ''compositionend'' then postCompositionEvent cf w ''end'' data (k\<lparr>kb_composing := False\<rparr>)
      else if type = ''textInput'' \<and> \<not> kb_handled k \<and> \<not> kb_composing k
      then postCompositionEvent cf w ''end'' data (postCompositionEvent cf w ''input'' data k)
      else k)"

text \<open>In the document: the input shows what is composed over the cursor, in the colour of the user, and sends it at
  the end. Text that comes without keys is sent as keys, unit by unit.\<close>

definition show_composing :: "nat \<Rightarrow> keyboard \<Rightarrow> keyboard" where
  "show_composing n k =
     (let u = a_users (kb_app k);
          info = (case l_viewId (u_layer u) of Num i \<Rightarrow> obj_get (u_info u) i | NaN \<Rightarrow> None);
          k = on_kb (acall ''overspot'' [JInt (16 * int n)]) k
      in case info of None \<Rightarrow> k | Some v \<Rightarrow> on_kb (acall ''background'' [JStr (rgbToHex (vi_color v))]) k)"

definition onIME :: "sconf \<Rightarrow> int \<Rightarrow> string \<Rightarrow> int list \<Rightarrow> keyboard \<Rightarrow> keyboard" where
  "onIME cf now type data k =
     (let k = on_kb (on_net (notifyActive now)) k in
      if type = ''compositionstart'' then k\<lparr>kb_composing := True\<rparr>
      else if type = ''compositionupdate'' then (if data = [] then k else show_composing (length data) k)
      else if type = ''compositionend'' then
        (let k = on_kb (acall ''overspot.remove'' [] \<circ> acall ''clipboardContainer.setValue'' [JStr []]) (k\<lparr>kb_composing := False\<rparr>)
         in if data = [] then k
            else postCompositionEvent cf (Num 0) ''end'' data (postCompositionEvent cf (Num 0) ''input'' data k))
      else if type = ''textInput'' \<and> \<not> kb_handled k \<and> \<not> kb_composing k
      then fold (\<lambda>u. on_kb (on_app (postKeyboardEvent cf ''input'' u 0))) data k
      else k)"

section \<open>Runs\<close>

datatype kb_event =
    KeyEvent string sink key_event
  | Compose string "int list"
  | ComposeIn jsnum string "int list"
  | PermissionIs string
  | MapPressed

text \<open>Events of the document reach the handlers that are attached; dialogs call the handlers themselves.\<close>

fun kb_step :: "sconf \<Rightarrow> (string \<Rightarrow> string \<Rightarrow> string) \<Rightarrow> int \<times> kb_event \<Rightarrow> keyboard \<Rightarrow> keyboard" where
  "kb_step cf target (now, KeyEvent marked sink e) k =
     (if sink = ToDocument \<and> \<not> kb_attached k then k else onKeyDown cf target now marked sink e k)"
| "kb_step cf target (now, Compose type data) k = (if kb_attached k then onIME cf now type data k else k)"
| "kb_step cf target (now, ComposeIn w type data) k = onPrivateIME cf type data w k"
| "kb_step cf target (now, PermissionIs p) k = updatePermission p k"
| "kb_step cf target (now, MapPressed) k = (if kb_mouseAttached k then kb_onMouseDown now k else k)"

section \<open>Key codes\<close>

lemma keymap_codes: "list_all (\<lambda>(k, c). 0 \<le> k \<and> k < 4096 \<and> (case c of None \<Rightarrow> True | Some n \<Rightarrow> 0 \<le> n \<and> n < 4096)) keymap"
  by code_simp

lemma toUNOKeyCode_range: "0 \<le> k \<Longrightarrow> k < 4096 \<Longrightarrow> 0 \<le> toUNOKeyCode k \<and> toUNOKeyCode k < 4096"
  using keymap_codes by (auto simp: toUNOKeyCode_def list_all_iff split: option.split dest!: map_of_SomeD)

lemma masks: "4095 = (mask 12 :: int)"
  by (simp add: mask_eq_exp_minus_1)

lemma code_bits:
  assumes "0 \<le> c" "c < 4096" "12 \<le> i"
  shows "\<not> bit (c :: int) i"
proof -
  have "c = take_bit 12 c" using assms by (simp add: take_bit_int_eq_self)
  then show ?thesis using assms(3) by (metis bit_take_bit_iff leD)
qed

lemma modifier_bit_iff [simp]:
  "bit shift_bit i \<longleftrightarrow> i = 12" "bit ctrl_bit i \<longleftrightarrow> i = 13" "bit alt_bit i \<longleftrightarrow> i = 14"
proof -
  have "shift_bit = 2 ^ 12" "ctrl_bit = 2 ^ 13" "alt_bit = 2 ^ 14" by (simp_all add: shift_bit_def ctrl_bit_def alt_bit_def)
  note v = this
  show "bit shift_bit i \<longleftrightarrow> i = 12" "bit ctrl_bit i \<longleftrightarrow> i = 13" "bit alt_bit i \<longleftrightarrow> i = 14"
    unfolding v bit_exp_iff by auto
qed

lemma modifier_bits_iff:
  "bit (modifier_bits e) i \<longleftrightarrow> (i = 12 \<and> ke_shift e) \<or> (i = 13 \<and> (ke_ctrl e \<or> ke_meta e)) \<or> (i = 14 \<and> ke_alt e)"
  by (auto simp: modifier_bits_def bit_or_iff)



section \<open>What is sent\<close>

text \<open>Window messages are those of the dialogs.\<close>

lemma window_key_of_dialogs:
  "ds_doc (postWindowKeyboardEvent cf w t ch code s) = lsend cf (window_key w t ch code) (ds_doc s)"
  by (simp add: postWindowKeyboardEvent_def dsend_def on_doc_def window_key_def)

text \<open>The key messages in the outbox.\<close>

definition is_key :: "string \<Rightarrow> bool" where
  "is_key m \<longleftrightarrow> startsWith m ''key ''"

abbreviation kb_net :: "keyboard \<Rightarrow> session" where
  "kb_net k \<equiv> app_net (kb_app k)"

definition key_messages :: "keyboard \<Rightarrow> string list" where
  "key_messages k = filter is_key (outbox (kb_net k))"

text \<open>A session that takes messages: open and active.\<close>

definition taking :: "session \<Rightarrow> bool" where
  "taking s \<longleftrightarrow> queue_inv s \<and> \<not> fatal s \<and> active s \<and> readyState s = Some Open"

lemma taking_send: "taking s \<Longrightarrow> taking (sendMessage cf m s) \<and> outbox (sendMessage cf m s) = outbox s @ [m] \<and>
    perm (sendMessage cf m s) = perm s"
  by (auto simp: taking_def sendMessage_def outbox_def emit_def queue_inv_def connected_def)

lemma taking_emit [simp]: "taking (emit e s) = taking s"
  by (simp add: taking_def emit_def queue_inv_def connected_def)


lemma announce_view_outbox:
  assumes "taking (g_net (l_grid l))"
  shows "taking (g_net (l_grid (announce_view cf l))) \<and> perm (g_net (l_grid (announce_view cf l))) = perm (g_net (l_grid l)) \<and>
    (\<exists>ms. outbox (g_net (l_grid (announce_view cf l))) = outbox (g_net (l_grid l)) @ ms \<and> list_all (\<lambda>m. startsWith m ''client'') ms)"
proof -
  have z: "taking (g_net (sendClientZoom cf b g)) \<and> perm (g_net (sendClientZoom cf b g)) = perm (g_net g) \<and>
      (\<exists>ms. outbox (g_net (sendClientZoom cf b g)) = outbox (g_net g) @ ms \<and> list_all (\<lambda>m. startsWith m ''client'') ms)"
    if "taking (g_net g)" for b g
    using taking_send [OF that] that by (auto simp: sendClientZoom_def Let_def gsend_def startsWith_def)
  have v: "taking (g_net (sendClientVisibleArea cf b g)) \<and> perm (g_net (sendClientVisibleArea cf b g)) = perm (g_net g) \<and>
      (\<exists>ms. outbox (g_net (sendClientVisibleArea cf b g)) = outbox (g_net g) @ ms \<and> list_all (\<lambda>m. startsWith m ''client'') ms)"
    if "taking (g_net g)" for b g
    using taking_send [OF that] that
    by (auto simp: sendClientVisibleArea_def Let_def gsend_def gemit_def startsWith_def split: option.split)
  let ?g = "sendClientZoom cf False (l_grid l)"
  have a: "l_grid (announce_view cf l) = sendClientVisibleArea cf False ?g" by (simp add: announce_view_def on_grid_def)
  from z [OF assms, of False] obtain ms where z': "taking (g_net ?g)" "perm (g_net ?g) = perm (g_net (l_grid l))"
    "outbox (g_net ?g) = outbox (g_net (l_grid l)) @ ms" "list_all (\<lambda>m. startsWith m ''client'') ms" by blast
  show ?thesis using v [OF z'(1), of False] z' unfolding a by fastforce
qed

lemma announce_view_keys:
  assumes "taking (g_net (l_grid l))"
  shows "taking (g_net (l_grid (announce_view cf l))) \<and>
    filter is_key (outbox (g_net (l_grid (announce_view cf l)))) = filter is_key (outbox (g_net (l_grid l))) \<and>
    perm (g_net (l_grid (announce_view cf l))) = perm (g_net (l_grid l))"
proof -
  have "filter is_key ms = []" if "list_all (\<lambda>m. startsWith m ''client'') ms" for ms
    using that by (induction ms) (auto simp: is_key_def startsWith_iff)
  then show ?thesis using announce_view_outbox [OF assms, of cf] by fastforce
qed

definition key_text_of :: "string \<Rightarrow> int \<Rightarrow> int \<Rightarrow> string" where
  "key_text_of type ch code = ''key type='' @ type @ '' char='' @ show_int ch @ '' key='' @ show_int code"

lemma postKeyboardEvent_keys:
  assumes "taking (g_net (l_grid l))" "l_docType l \<noteq> ''spreadsheet'' \<or> type \<noteq> ''input'' \<or> code \<notin> {1030, 1031}"
  shows "taking (g_net (l_grid (postKeyboardEvent cf type ch code l))) \<and>
    filter is_key (outbox (g_net (l_grid (postKeyboardEvent cf type ch code l)))) =
      filter is_key (outbox (g_net (l_grid l))) @ [key_text_of type ch code] \<and>
    perm (g_net (l_grid (postKeyboardEvent cf type ch code l))) = perm (g_net (l_grid l)) \<and>
    l_docType (postKeyboardEvent cf type ch code l) = l_docType l \<and>
    l_isCursorVisible (postKeyboardEvent cf type ch code l) = l_isCursorVisible l"
proof -
  have "page_key type code l = Some l" using assms(2) by (auto simp: page_key_def split: option.split)
  then show ?thesis using announce_view_keys [OF assms(1), of cf] taking_send
    by (auto simp: postKeyboardEvent_def announce_view_def lsend_def on_grid_def gsend_def is_key_def key_text_of_def startsWith_def)
qed


text \<open>What handlers need of the state, and what they keep of it.\<close>

definition ready :: "keyboard \<Rightarrow> bool" where
  "ready k \<longleftrightarrow> taking (kb_net k) \<and> \<not> kb_slideShow k \<and> l_docType (app_layer (kb_app k)) \<noteq> ''spreadsheet'' \<and>
     a_hotkeys (kb_app k) = [] \<and> l_isCursorVisible (app_layer (kb_app k))"

definition sends :: "string list \<Rightarrow> keyboard \<Rightarrow> keyboard \<Rightarrow> bool" where
  "sends ms k k' \<longleftrightarrow> (ready k \<longrightarrow> ready k' \<and> perm (kb_net k') = perm (kb_net k) \<and> key_messages k' = key_messages k @ ms \<and>
     kb_modifier k' = kb_modifier k \<and> kb_selections k' = kb_selections k)"

lemma sends_refl [simp]: "sends [] k k"
  by (simp add: sends_def)

lemma sends_trans: "sends ms k k' \<Longrightarrow> sends ns k' k'' \<Longrightarrow> sends (ms @ ns) k k''"
  by (simp add: sends_def)

lemma emit_sends:
  "sends [] k (on_kb (acall f args) k)" "sends [] k (on_kb (afire t fs) k)" "sends [] k (k\<lparr>kb_handled := b\<rparr>)"
  "sends [] k (prevents k)" "sends [] k (on_kb (on_app (on_grid (resetPreFetching c))) k)"
  "sends [] k (on_kb (on_net (notifyActive now)) k)"
  by (simp_all add: sends_def ready_def on_kb_def key_messages_def prevents_def on_app_def on_layer_def on_grid_def
      resetPreFetching_def Let_def on_net_def notifyActive_def acall_def afire_def lemit_def gemit_def
      taking_def queue_inv_def connected_def emit_def outbox_def)

lemma quiet_steps:
  "sends ms k k' \<Longrightarrow> sends ms k (on_kb (acall f args) k')" "sends ms k k' \<Longrightarrow> sends ms k (on_kb (afire t fs) k')"
  "sends ms k k' \<Longrightarrow> sends ms k (k'\<lparr>kb_handled := b\<rparr>)" "sends ms k k' \<Longrightarrow> sends ms k (prevents k')"
  "sends ms k k' \<Longrightarrow> sends ms k (on_kb (on_app (on_grid (resetPreFetching c))) k')"
  using sends_trans [OF _ emit_sends(1), of ms] sends_trans [OF _ emit_sends(2), of ms] sends_trans [OF _ emit_sends(3), of ms]
    sends_trans [OF _ emit_sends(4), of ms] sends_trans [OF _ emit_sends(5), of ms] by simp_all

lemma key_sends: "sends [key_text_of type ch code] k (keyEventFn cf ToDocument type ch code k)"
proof -
  have "ready k \<Longrightarrow> taking (kb_net k) \<and> l_docType (app_layer (kb_app k)) \<noteq> ''spreadsheet''" by (simp add: ready_def)
  then show ?thesis using postKeyboardEvent_keys [of "app_layer (kb_app k)" type code cf ch]
    by (auto simp: sends_def ready_def keyEventFn_def on_kb_def on_app_def on_layer_def key_messages_def)
qed

lemma keys_step: "sends ms k k' \<Longrightarrow> sends (ms @ [key_text_of type ch code]) k (keyEventFn cf ToDocument type ch code k')"
  using sends_trans key_sends by blast

text \<open>What an event without Ctrl, Alt and the command key sends in edit mode.\<close>

definition sent_by :: "key_event \<Rightarrow> string list" where
  "sent_by e =
     (let code = toUNOKeyCode (ke_keyCode e) OR modifier_bits e; down = ke_keyCode e \<in> set handleOnKeyDownKeys; ch = ke_charCode e in
      if ignoreKeyEvent e then []
      else if ke_type e = ''keydown'' then
        (if down \<and> ch = 0 then [key_text_of ''input'' ch code] else [])
      else if ke_type e = ''keypress'' \<and> (\<not> down \<or> ch \<noteq> 0) then
        [key_text_of ''input'' ch (if ch = ke_keyCode e \<and> ch \<noteq> 13 then 0 else code)]
      else if ke_type e = ''keyup'' then [key_text_of ''up'' ch code]
      else [])"

lemma edit_send_sends: "sends (sent_by e) k (edit_send cf ToDocument e (toUNOKeyCode (ke_keyCode e) OR modifier_bits e) k)"
proof -
  have z: "toUNOKeyCode 0 = 0" by code_simp
  define code where "code = toUNOKeyCode (ke_keyCode e) OR modifier_bits e"
  have key: "sends [key_text_of t (ke_charCode e) c] k (keyEventFn cf ToDocument t (ke_charCode e) c k)" for t c
    by (rule key_sends)
  have down: "sends [key_text_of t ch c] k (keyEventFn cf ToDocument t ch c (k\<lparr>kb_handled := b\<rparr>))" for t ch c b
    using sends_trans [OF emit_sends(3) key_sends] by simp
  consider "ignoreKeyEvent e" | "\<not> ignoreKeyEvent e" "ke_type e = ''keydown''" | "\<not> ignoreKeyEvent e" "ke_type e = ''keypress''"
    | "\<not> ignoreKeyEvent e" "ke_type e = ''keyup''" | "\<not> ignoreKeyEvent e" "ke_type e \<notin> {''keydown'', ''keypress'', ''keyup''}"
    by blast
  then show ?thesis
  proof cases
    case 2
    then show ?thesis using down emit_sends(3) by (simp add: edit_send_def sent_by_def Let_def)
  next
    case 3
    then show ?thesis
      using quiet_steps(3) [OF key, of "''input''" "if ke_charCode e = ke_keyCode e \<and> ke_charCode e \<noteq> 13 then 0
        else toUNOKeyCode (ke_keyCode e) OR modifier_bits e" True]
      by (auto simp: edit_send_def sent_by_def Let_def z)
  next
    case 4
    then show ?thesis using quiet_steps(3) [OF key, of "''up''"] by (simp add: edit_send_def sent_by_def Let_def)
  qed (simp_all add: edit_send_def sent_by_def Let_def)
qed

lemma edit_key_sends: "sends (sent_by e) k (edit_key cf ToDocument e (toUNOKeyCode (ke_keyCode e) OR modifier_bits e) k)"
proof -
  define code where "code = toUNOKeyCode (ke_keyCode e) OR modifier_bits e"
  define k0 where "k0 = on_kb (on_app (on_grid (resetPreFetching False))) k"
  define k1 where "k1 = (if code = 1281 then on_kb (acall ''editbar.uncheck'' [JStr ''horizontaltext'']
      \<circ> acall ''editbar.uncheck'' [JStr ''verticaltext'']) k0 else k0)"
  have k0: "sends [] k k0" unfolding k0_def by (rule emit_sends)
  have c: "on_kb (f \<circ> g) q = on_kb f (on_kb g q)" for f g q by (simp add: on_kb_def)
  have "sends [] k k1" using k0 by (auto simp: k1_def c intro: quiet_steps)
  then have "sends (sent_by e) k (edit_send cf ToDocument e code k1)"
    using sends_trans [OF _ edit_send_sends [of e k1 cf]] by (fastforce simp: code_def)
  then show ?thesis
    by (simp add: edit_key_def Let_def code_def [symmetric] k0_def [symmetric] k1_def [symmetric] quiet_steps)
qed

section \<open>Runs of plain keys\<close>

definition plain :: "key_event \<Rightarrow> bool" where
  "plain e \<longleftrightarrow> \<not> ke_ctrl e \<and> \<not> ke_alt e \<and> \<not> ke_meta e \<and> ke_key e \<noteq> None"

lemma plain_bits: "plain e \<Longrightarrow> modifier_bits e = (if ke_shift e then shift_bit else 0)"
  by (simp add: plain_def modifier_bits_def)

lemma plain_hotkey: "plain e \<Longrightarrow> a_hotkeys a = [] \<Longrightarrow> executeHotkey cf target e a = (a, False)"
  by (auto simp: plain_def executeHotkey_def Let_def)

text \<open>Setting the modifier of the event changes what the handler remembers and nothing else.\<close>

lemma set_modifier:
  "ready k \<Longrightarrow> ready (k\<lparr>kb_modifier := m\<rparr>)" "key_messages (k\<lparr>kb_modifier := m\<rparr>) = key_messages k"
  by (simp_all add: ready_def key_messages_def)

lemma onKeyDown_plain:
  assumes "ready k" "plain e"
  shows "onKeyDown cf target now marked ToDocument e k =
    key_decided cf ToDocument e False False ((on_kb (on_net (notifyActive now)) k)\<lparr>kb_modifier := modifier_bits e\<rparr>)"
proof -
  let ?k = "on_kb (on_net (notifyActive now)) k"
  have r: "ready ?k" "kb_slideShow ?k = kb_slideShow k"
    using emit_sends(6) [of k now] assms(1) by (simp_all add: sends_def on_kb_def)
  then have s: "\<not> kb_slideShow ?k" "a_hotkeys (kb_app ?k) = []" by (auto simp: ready_def)
  have hot: "executeHotkey cf target e (kb_app ?k) = (kb_app ?k, False)"
    using plain_hotkey [OF assms(2) s(2)] .
  have p: "\<not> ke_ctrl e" "\<not> ke_alt e" "\<not> ke_meta e" using assms(2) by (simp_all add: plain_def)
  show ?thesis using s(1) hot p by (simp add: onKeyDown_def alt_gr_def Let_def)
qed

lemma bits_values: "shift_bit \<noteq> 0" "shift_bit \<noteq> alt_bit" "shift_bit \<noteq> shift_bit + alt_bit" "0 \<noteq> alt_bit" "0 \<noteq> shift_bit + alt_bit"
  by (simp_all add: shift_bit_def alt_bit_def)

lemma key_decided_plain:
  assumes "plain e" "kb_modifier k = modifier_bits e"
  shows "key_decided cf ToDocument e False False k =
    key_chosen cf ToDocument e False False (toUNOKeyCode (ke_keyCode e) OR modifier_bits e)
      (if \<not> kb_composing k \<and> ke_type e = ''keyup'' then on_kb (acall ''input.clear'' []) k else k)"
proof -
  define q where "q = (if \<not> kb_composing k \<and> ke_type e = ''keyup'' then on_kb (acall ''input.clear'' []) k else k)"
  have m: "kb_modifier q = modifier_bits e" using assms(2) by (simp add: q_def on_kb_def)
  have s: "((kb_modifier q = alt_bit \<or> kb_modifier q = shift_bit + alt_bit) \<and> 48 \<le> ke_keyCode e) = False"
    using m plain_bits [OF assms(1)] bits_values by auto
  have c: "(if kb_modifier q \<noteq> 0 then toUNOKeyCode (ke_keyCode e) OR kb_modifier q else toUNOKeyCode (ke_keyCode e)) =
      toUNOKeyCode (ke_keyCode e) OR modifier_bits e"
    unfolding m by (cases "modifier_bits e = 0") (simp_all only: or.right_neutral if_True if_False not_True_eq_False simp_thms)
  show ?thesis
    apply (simp only: key_decided_def q_def [symmetric])
    apply (simp only: Let_def)
    apply (simp only: s if_False)
    apply (simp only: c)
    apply (simp only: simp_thms)
    done
qed

definition plain_key :: "sconf \<Rightarrow> key_event \<Rightarrow> keyboard \<Rightarrow> keyboard" where
  "plain_key cf e k =
    (let code = toUNOKeyCode (ke_keyCode e) OR modifier_bits e in
     if ke_type e = ''keydown'' \<and> \<not> ke_shift e \<and> ke_keyCode e = 112 then prevents (on_kb (acall ''showHelp'' []) k)
     else if app_edits (kb_app k) then on_kb (acall ''stopPropagation'' []) (edit_key cf ToDocument e code k)
     else if \<not> ke_shift e \<and> (ke_keyCode e = 33 \<or> ke_keyCode e = 34) then k
     else if ke_type e = ''keydown'' \<and> obj_get panKeys (ke_keyCode e) \<noteq> None \<and> \<not> ke_shift e \<and> panning k then k
     else on_kb (acall ''stopPropagation'' []) (view_key cf ToDocument False e code k))"

lemma key_chosen_plain:
  assumes "plain e" "kb_modifier k = modifier_bits e" "l_isCursorVisible (app_layer (kb_app k))"
  shows "key_chosen cf ToDocument e False False (toUNOKeyCode (ke_keyCode e) OR modifier_bits e) k = plain_key cf e k"
proof -
  have z: "kb_modifier k = 0 \<longleftrightarrow> \<not> ke_shift e" "kb_modifier k = (if ke_shift e then shift_bit else 0)"
    using assms(2) plain_bits [OF assms(1)] bits_values(1) by auto
  have p: "\<not> ke_meta e" using assms(1) by (simp add: plain_def)
  show ?thesis unfolding key_chosen_def plain_key_def Let_def z(1) z(2) [symmetric]
    using assms(3) p by (simp split del: if_split cong: if_cong)
qed

text \<open>The state in which an event finds the handler, and what the handler makes of it.\<close>

definition finds :: "keyboard \<Rightarrow> keyboard \<Rightarrow> bool" where
  "finds k k' \<longleftrightarrow> ready k' \<and> perm (kb_net k') = perm (kb_net k) \<and> kb_selections k' = kb_selections k \<and> key_messages k' = key_messages k"

lemma plain_key_step:
  assumes "ready k" "plain e"
  shows "\<exists>k'. finds k k' \<and> onKeyDown cf target now marked ToDocument e k = plain_key cf e k'"
proof -
  let ?m = "k\<lparr>kb_modifier := modifier_bits e\<rparr>"
  let ?n = "(on_kb (on_net (notifyActive now)) k)\<lparr>kb_modifier := modifier_bits e\<rparr>"
  define k' where "k' = (if \<not> kb_composing ?n \<and> ke_type e = ''keyup'' then on_kb (acall ''input.clear'' []) ?n else ?n)"
  have n: "?n = on_kb (on_net (notifyActive now)) ?m" by (simp add: on_kb_def)
  have s: "sends [] ?m k'" using emit_sends(6) [of ?m now] quiet_steps(1) by (auto simp: k'_def n)
  have r: "ready ?m" "perm (kb_net ?m) = perm (kb_net k)" "kb_selections ?m = kb_selections k" "key_messages ?m = key_messages k"
    using assms(1) set_modifier by simp_all
  then have f: "finds k k'" "kb_modifier k' = modifier_bits e" "ready k'"
    using s by (simp_all add: sends_def finds_def)
  have v: "l_isCursorVisible (app_layer (kb_app k'))" using f(3) by (simp add: ready_def)
  have "onKeyDown cf target now marked ToDocument e k =
      key_chosen cf ToDocument e False False (toUNOKeyCode (ke_keyCode e) OR modifier_bits e) k'"
    using onKeyDown_plain [OF assms, of cf target now marked] key_decided_plain [OF assms(2), of ?n cf] by (simp add: k'_def)
  then show ?thesis using f(1) key_chosen_plain [OF assms(2) f(2) v, of cf] by metis
qed

lemma plain_key_edits:
  assumes "app_edits (kb_app k)"
  shows "sends (sent_by e) k (plain_key cf e k)"
proof (cases "ke_type e = ''keydown'' \<and> \<not> ke_shift e \<and> ke_keyCode e = 112")
  case True
  then have "sent_by e = []" by (simp add: sent_by_def Let_def handleOnKeyDownKeys_def)
  moreover have "sends [] k (prevents (on_kb (acall ''showHelp'' []) k))"
    by (rule quiet_steps(4) [OF quiet_steps(1) [OF sends_refl]])
  ultimately show ?thesis using True by (simp add: plain_key_def)
next
  case False
  have "plain_key cf e k = on_kb (acall ''stopPropagation'' [])
      (edit_key cf ToDocument e (toUNOKeyCode (ke_keyCode e) OR modifier_bits e) k)"
    unfolding plain_key_def Let_def if_not_P [OF False] if_P [OF assms] by (rule refl)
  then show ?thesis using quiet_steps(1) [OF edit_key_sends [of e k cf]] by simp
qed




section \<open>Examples\<close>

definition demo_keyboard :: keyboard where
  "demo_keyboard = \<lparr>kb_app = on_app (on_grid (\<lambda>g. g\<lparr>g_net := (g_net g)\<lparr>readyState := Some Open, msgQueue := [], active := True, perm := ''edit''\<rparr>\<rparr>) \<circ> (\<lambda>l. l\<lparr>l_isCursorVisible := True\<rparr>)) demo_app,
     kb_modifier = 0, kb_handled = False, kb_composing = False, kb_altGr = None, kb_attached = True, kb_mouseAttached = True,
     kb_slideShow = False, kb_selections = 0\<rparr>"

definition demo_key :: "string \<Rightarrow> int \<Rightarrow> int \<Rightarrow> bool \<Rightarrow> key_event" where
  "demo_key type n ch shift = \<lparr>ke_type = type, ke_key = Some ''a'', ke_keyCode = n, ke_charCode = ch, ke_location = 0,
     ke_ctrl = False, ke_alt = False, ke_shift = shift, ke_meta = False\<rparr>"

lemma demo_ready: "ready demo_keyboard \<and> app_edits (kb_app demo_keyboard)"
  by (simp add: ready_def taking_def queue_inv_def connected_def demo_keyboard_def on_app_def on_layer_def on_grid_def demo_app_def
      demo_users_def demo_layer_def demo_grid_def open_session_def start_session_def)


text \<open>A letter typed with Shift is sent as a character without modifiers, and its release with them.\<close>

lemma letter_sent:
  "concat (map sent_by [demo_key ''keydown'' 65 0 True, demo_key ''keypress'' 65 65 True, demo_key ''keyup'' 65 0 True]) =
     [key_text_of ''input'' 65 0, key_text_of ''up'' 0 (512 OR shift_bit)]"
  by (simp add: sent_by_def demo_key_def Let_def ignoreKeyEvent_def handleOnKeyDownKeys_def toUNOKeyCode_def keymap_def modifier_bits_def)


text \<open>The permission is not looked at before keys with Ctrl or Alt are sent, and leaving edit mode does not detach
  the handlers: a key with Alt reaches the server in view mode.\<close>

lemma handlers_stay: "kb_attached k \<Longrightarrow> kb_attached (updatePermission p k)"
  by (simp add: updatePermission_def)

lemma alt_key_sent_in_view_mode:
  assumes "ke_alt e" "\<not> ke_shift e" "ke_type e = ''keydown''" "ke_keyCode e = 37" "kb_modifier k = alt_bit"
  shows "key_chosen cf ToDocument e False True code k = prevents (keyEventFn cf ToDocument ''input'' (ke_charCode e) code k)"
  using assms by (simp add: key_chosen_def alt_bit_def)

text \<open>A character that AltGr gives is taken as it is: the press after a right Alt key went down with Ctrl has no
  modifiers left, and the keys around it are dropped.\<close>

lemma alt_gr_character:
  assumes "ke_ctrl e" "ke_alt e" "ke_location e = 0" "kb_altGr k = Some 2"
  shows "alt_gr e k = (k, if ke_type e = ''keypress'' then Some True else None)"
  using assms by (simp add: alt_gr_def Let_def)

section \<open>Input methods\<close>

text \<open>Units that are whole characters are encoded one by one.\<close>

lemma utf8_whole:
  "list_all (\<lambda>u. \<not> high_half u \<and> \<not> low_half u) us \<Longrightarrow> utf8 us = Some (concat (map utf8_char us))"
  by (induction us rule: utf8.induct) auto

end
