(* ===== verification/Mouse.thy ===== *)
theory Mouse
  imports Shapes Keyboard
begin

text \<open>
  The mouse on the document (\<open>map/handler/Map.Mouse.js\<close>). Presses and releases are not sent at once: they wait
  in a queue until it is clear whether they are a click, a drag or part of a double click. Moving with a
  button down sends what waits and then the moves, unless the map itself is dragged; moving without a button is
  sent a tenth of a second after the last move.

  Events come with their place in the document. The timers are flags: the one that will run the queue, and the
  one that will send the move over the document, with what it will send.
\<close>

section \<open>State\<close>

datatype mouse_job = PressJob "int \<times> int" int int | ReleaseJob "int \<times> int" int int

record mouse =
  mo_doc :: slayer
  mo_queue :: "mouse_job list"
  mo_down :: bool
  mo_hold :: bool                       \<comment> \<open>\<open>_holdMouseEvent\<close>: the queue is going to run\<close>
  mo_clickTime :: "int option"
  mo_clickCount :: int
  mo_over :: "((int \<times> int) \<times> int) option"
  mo_prevPos :: "latlng option"
  mo_dragging :: bool                   \<comment> \<open>the map can be dragged\<close>
  mo_slideShow :: bool
  mo_ruler :: bool
  mo_entering :: bool                   \<comment> \<open>\<open>_mouseEnteringLeaving\<close>\<close>
  mo_outside :: bool                    \<comment> \<open>the handlers outside of the map are attached\<close>

record mouse_event =
  me_type :: string
  me_latlng :: latlng
  me_button :: int
  me_shift :: bool
  me_ctrl :: bool
  me_alt :: bool
  me_meta :: bool

definition on_doc_layer :: "(tlayer \<Rightarrow> tlayer) \<Rightarrow> mouse \<Rightarrow> mouse" where
  "on_doc_layer f m = m\<lparr>mo_doc := on_users (on_layer f) (mo_doc m)\<rparr>"

abbreviation mo_layer :: "mouse \<Rightarrow> tlayer" where
  "mo_layer m \<equiv> s_layer (mo_doc m)"

definition mcall :: "string \<Rightarrow> mouse \<Rightarrow> mouse" where
  "mcall f = on_doc_layer (lcall f)"

definition mfire :: "string \<Rightarrow> (string \<times> jsval) list \<Rightarrow> mouse \<Rightarrow> mouse" where
  "mfire t fs = on_doc_layer (lemit (Fired t (JObj fs)))"

definition mpost :: "sconf \<Rightarrow> string \<Rightarrow> int \<times> int \<Rightarrow> int \<Rightarrow> int \<Rightarrow> int \<Rightarrow> mouse \<Rightarrow> mouse" where
  "mpost cf type p n buttons modifier = on_doc_layer (postMouseEvent cf type (fst p) (snd p) n buttons modifier)"

section \<open>Handling an event\<close>

text \<open>The command key has a bit of its own here, where the keyboard takes it for Ctrl.\<close>

definition mouse_modifier :: "mouse_event \<Rightarrow> int" where
  "mouse_modifier e =
     ((if me_shift e then shift_bit else 0) OR (if me_ctrl e then ctrl_bit else 0) OR
      (if me_alt e then alt_bit else 0) OR (if me_meta e then ctrlMac_bit else 0))"

definition mouse_pos :: "mouse_event \<Rightarrow> mouse \<Rightarrow> int \<times> int" where
  "mouse_pos e m = latLngToTwips (l_grid (mo_layer m)) (me_latlng e) None"

text \<open>Where a selected graphic was pressed or dragged from.\<close>

definition track_graphic :: "mouse_event \<Rightarrow> mouse \<Rightarrow> mouse" where
  "track_graphic e m = (case s_marker (mo_doc m) of
      None \<Rightarrow> m
    | Some g \<Rightarrow>
        if isEmptyRectangle (Some (s_graphic (mo_doc m))) then m
        else if me_type e = ''mousedown'' \<and> llb_contains_point (gm_bounds g) (me_latlng e) then m\<lparr>mo_prevPos := Some (me_latlng e)\<rparr>
        else if me_type e = ''mousemove'' \<and> mo_down m then m\<lparr>mo_prevPos := Some (me_latlng e)\<rparr>
        else if me_type e = ''mouseup'' then m\<lparr>mo_prevPos := None\<rparr>
        else m)"

text \<open>The queue: a release empties it before it sends, so that nothing behind it is run.\<close>

fun run_jobs :: "sconf \<Rightarrow> mouse_job list \<Rightarrow> mouse \<Rightarrow> mouse" where
  "run_jobs cf [] m = m"
| "run_jobs cf (PressJob p b md # js) m = run_jobs cf js (mpost cf ''buttondown'' p 1 b md m)"
| "run_jobs cf (ReleaseJob p b md # js) m = mcall ''focus'' (mpost cf ''buttonup'' p 1 b md (m\<lparr>mo_queue := []\<rparr>))"

definition executeMouseEvents :: "sconf \<Rightarrow> mouse \<Rightarrow> mouse" where
  "executeMouseEvents cf m = (run_jobs cf (mo_queue m) (m\<lparr>mo_hold := False\<rparr>))\<lparr>mo_queue := []\<rparr>"

definition mouse_pressed :: "mouse_event \<Rightarrow> mouse \<Rightarrow> mouse" where
  "mouse_pressed e m =
     (on_doc_layer (on_grid (resetPreFetching False)) m)
        \<lparr>mo_down := True, mo_hold := True,
         mo_queue := mo_queue m @ [PressJob (mouse_pos e m) (lo_button (me_button e)) (mouse_modifier e)]\<rparr>"

definition mouse_released :: "int \<Rightarrow> mouse_event \<Rightarrow> mouse \<Rightarrow> mouse" where
  "mouse_released now e m =
     (let m = m\<lparr>mo_down := False\<rparr> in
      if mo_dragging m \<and> mo_queue m = [] then m
      else
        let m = m\<lparr>mo_hold := False\<rparr> in
        if (case mo_clickTime m of None \<Rightarrow> False | Some t \<Rightarrow> t \<noteq> 0 \<and> now - t \<le> 250) then
          (let m = m\<lparr>mo_queue := [], mo_clickCount := mo_clickCount m + 1\<rparr>
           in if mo_clickCount m < 4 then m\<lparr>mo_clickTime := Some now\<rparr> else m)
        else
          let m = m\<lparr>mo_clickTime := Some now, mo_clickCount := 1, mo_hold := True,
                    mo_queue := mo_queue m @ [ReleaseJob (mouse_pos e m) (lo_button (me_button e)) (mouse_modifier e)]\<rparr>
          in mfire ''scrollvelocity'' [(''vx'', JInt 0), (''vy'', JInt 0)] m)"

definition mouse_dragged :: "sconf \<Rightarrow> mouse_event \<Rightarrow> mouse \<Rightarrow> mouse" where
  "mouse_dragged cf e m =
     (if mo_hold m \<and> mo_dragging m then m\<lparr>mo_hold := False, mo_queue := []\<rparr>
      else
        let m = (if mo_hold m then (run_jobs cf (mo_queue m) (m\<lparr>mo_hold := False\<rparr>))\<lparr>mo_queue := []\<rparr> else m)
        in if mo_dragging m then m
           else mfire ''handleautoscroll'' [] (mpost cf ''move'' (mouse_pos e m) 1 (lo_button (me_button e)) (mouse_modifier e) m))"

definition click_count :: "string \<Rightarrow> int option" where
  "click_count t = map_of [(''dblclick'', 2), (''trplclick'', 3), (''qdrplclick'', 4)] t"

definition mouse_clicked :: "sconf \<Rightarrow> int \<Rightarrow> mouse_event \<Rightarrow> mouse \<Rightarrow> mouse" where
  "mouse_clicked cf n e m =
     (let p = mouse_pos e m; b = lo_button (me_button e); md = mouse_modifier e
      in mpost cf ''buttonup'' p n b md (mpost cf ''buttondown'' p n b md m))"

text \<open>\<open>_onMouseEvent\<close>. Nothing is done while a shape or a handle of the selection is dragged.\<close>

definition mouse_blocked :: "mouse \<Rightarrow> bool" where
  "mouse_blocked m \<longleftrightarrow> mo_slideShow m \<or> mo_ruler m \<or> (case s_marker (mo_doc m) of None \<Rightarrow> False | Some g \<Rightarrow> gm_dragged g)"

definition handle_dragged :: "mouse \<Rightarrow> bool" where
  "handle_dragged m \<longleftrightarrow> h_dragged (s_startMark (mo_doc m)) \<or> h_dragged (s_endMark (mo_doc m))"

definition mouse_handled :: "sconf \<Rightarrow> int \<Rightarrow> mouse_event \<Rightarrow> mouse \<Rightarrow> mouse" where
  "mouse_handled cf now e m =
     (if mo_entering m \<and> me_type e = ''mouseover'' \<and> mo_down m then m\<lparr>mo_outside := False\<rparr>
      else if me_type e = ''mousedown'' then mouse_pressed e m
      else if me_type e = ''mouseup'' then mouse_released now e m
      else if me_type e = ''mousemove'' then
        (if mo_down m then mouse_dragged cf e m
         else m\<lparr>mo_over := Some (mouse_pos e m, mouse_modifier e)\<rparr>)
      else (case click_count (me_type e) of
          Some n \<Rightarrow> mouse_clicked cf n e m
        | None \<Rightarrow> if mo_entering m \<and> me_type e = ''mouseout'' \<and> mo_down m then m\<lparr>mo_outside := True\<rparr> else m))"

definition onMouseEvent :: "sconf \<Rightarrow> int \<Rightarrow> mouse_event \<Rightarrow> mouse \<Rightarrow> mouse" where
  "onMouseEvent cf now e m =
     (let m = on_doc_layer (on_grid (\<lambda>g. g\<lparr>g_net := notifyActive now (g_net g)\<rparr>)) m
      in if mouse_blocked m then m
         else
           let m = track_graphic e m
           in if handle_dragged m then m else mouse_handled cf now e m)"

text \<open>The timer of a move over the document, and a release outside of the map.\<close>

definition mouseOverTimeout :: "sconf \<Rightarrow> mouse \<Rightarrow> mouse" where
  "mouseOverTimeout cf m = (case mo_over m of
      None \<Rightarrow> m
    | Some (p, md) \<Rightarrow> mpost cf ''move'' p 1 0 md (m\<lparr>mo_over := None\<rparr>))"

definition onMouseUpOutside :: "mouse \<Rightarrow> mouse" where
  "onMouseUpOutside m =
     (let m = mcall ''_handleDOMEvent'' (m\<lparr>mo_down := False, mo_outside := False\<rparr>)
      in if mo_dragging m then mcall ''_draggable._onUp'' m else m)"

definition onMouseMoveOutside :: "mouse \<Rightarrow> mouse" where
  "onMouseMoveOutside m =
     (let m = mcall ''_handleDOMEvent'' m in if mo_dragging m then mcall ''_draggable._onMove'' m else m)"

section \<open>Runs\<close>

datatype mouse_input =
    MouseIs mouse_event
  | HoldExpires
  | OverExpires
  | UpOutside
  | MoveOutside

fun mouse_step :: "sconf \<Rightarrow> int \<times> mouse_input \<Rightarrow> mouse \<Rightarrow> mouse" where
  "mouse_step cf (now, MouseIs e) m = onMouseEvent cf now e m"
| "mouse_step cf (now, HoldExpires) m = (if mo_hold m then executeMouseEvents cf m else m)"
| "mouse_step cf (now, OverExpires) m = mouseOverTimeout cf m"
| "mouse_step cf (now, UpOutside) m = (if mo_outside m then onMouseUpOutside m else m)"
| "mouse_step cf (now, MoveOutside) m = (if mo_outside m then onMouseMoveOutside m else m)"

section \<open>Facts\<close>

lemma mpost_queue [simp]:
  "mpost cf t p n b md (m\<lparr>mo_queue := q\<rparr>) = (mpost cf t p n b md m)\<lparr>mo_queue := q\<rparr>"
  "mcall f (m\<lparr>mo_queue := q\<rparr>) = (mcall f m)\<lparr>mo_queue := q\<rparr>"
  by (simp_all add: mpost_def mcall_def on_doc_layer_def)

text \<open>What waits behind a release is lost when the queue runs: a press that was queued before the release was
  sent is never sent.\<close>

lemma run_jobs_release:
  "run_jobs cf (js @ ReleaseJob p b md # ks) (m\<lparr>mo_queue := q\<rparr>) = run_jobs cf (js @ [ReleaseJob p b md]) m"
proof (induction js arbitrary: m)
  case (Cons j js)
  then show ?case by (cases j) simp_all
qed simp

lemma press_behind_release_lost:
  "executeMouseEvents cf (m\<lparr>mo_queue := js @ ReleaseJob p b md # ks\<rparr>) =
   executeMouseEvents cf (m\<lparr>mo_queue := js @ [ReleaseJob p b md]\<rparr>)"
proof -
  have q: "m\<lparr>mo_queue := x, mo_hold := False\<rparr> = m\<lparr>mo_hold := False\<rparr>\<lparr>mo_queue := x\<rparr>" for x by simp
  show ?thesis unfolding executeMouseEvents_def q by (simp add: run_jobs_release)
qed

section \<open>What is sent\<close>

definition is_mouse :: "string \<Rightarrow> bool" where
  "is_mouse t \<longleftrightarrow> startsWith t ''mouse ''"

abbreviation mo_net :: "mouse \<Rightarrow> session" where
  "mo_net m \<equiv> g_net (l_grid (mo_layer m))"

definition mouse_messages :: "mouse \<Rightarrow> string list" where
  "mouse_messages m = filter is_mouse (outbox (mo_net m))"

definition mouse_text :: "string \<Rightarrow> int \<times> int \<Rightarrow> int \<Rightarrow> int \<Rightarrow> int \<Rightarrow> string" where
  "mouse_text type p n buttons modifier =
     ''mouse type='' @ type @ '' x='' @ show_int (fst p) @ '' y='' @ show_int (snd p) @ '' count='' @ show_int n
       @ '' buttons='' @ show_int buttons @ '' modifier='' @ show_int modifier"

text \<open>What places depend on.\<close>

definition geometry :: "grid \<Rightarrow> mview \<times> int \<times> int \<times> int" where
  "geometry g = (g_view g, g_tileSize g, g_widthTwips g, g_heightTwips g)"

lemma latLngToTwips_geometry: "geometry g = geometry h \<Longrightarrow> latLngToTwips g p z = latLngToTwips h p z"
  by (simp add: geometry_def latLngToTwips_def)

lemma sends_geometry [simp]:
  "geometry (sendClientZoom cf b g) = geometry g" "geometry (sendClientVisibleArea cf b g) = geometry g"
  "geometry (gsend cf t g) = geometry g" "geometry (gemit e g) = geometry g"
  "geometry (resetPreFetching c g) = geometry g" "geometry (g\<lparr>g_net := n\<rparr>) = geometry g"
  by (auto simp: geometry_def sendClientZoom_def sendClientVisibleArea_def gsend_def gemit_def resetPreFetching_def Let_def split: option.split)

lemma postMouseEvent_geometry [simp]: "geometry (l_grid (postMouseEvent cf t x y n b md l)) = geometry (l_grid l)"
  by (simp add: postMouseEvent_def announce_view_def lsend_def lcall_def lemit_def on_grid_def Let_def)

lemma postMouseEvent_sends:
  assumes "taking (g_net (l_grid l))"
  shows "taking (g_net (l_grid (postMouseEvent cf t x y n b md l))) \<and>
    filter is_mouse (outbox (g_net (l_grid (postMouseEvent cf t x y n b md l)))) =
      filter is_mouse (outbox (g_net (l_grid l))) @ [mouse_text t (x, y) n b md]"
proof -
  have c: "filter is_mouse ms = []" if "list_all (\<lambda>m. startsWith m ''client'') ms" for ms
    using that by (induction ms) (auto simp: is_mouse_def startsWith_iff)
  show ?thesis using announce_view_outbox [OF assms, of cf] taking_send c
    by (fastforce simp: postMouseEvent_def Let_def lsend_def lcall_def lemit_def on_grid_def gsend_def gemit_def is_mouse_def
        mouse_text_def startsWith_def)
qed


text \<open>A document under the mouse that is not blocked and cannot be dragged, at fixed places.\<close>

definition settled :: "mview \<times> int \<times> int \<times> int \<Rightarrow> int option \<Rightarrow> mouse \<Rightarrow> bool" where
  "settled w t m \<longleftrightarrow> taking (mo_net m) \<and> geometry (l_grid (mo_layer m)) = w \<and> mo_clickTime m = t \<and> \<not> mo_dragging m \<and>
     \<not> mouse_blocked m \<and> s_marker (mo_doc m) = None \<and> \<not> handle_dragged m"

definition holds :: "mouse_job list \<Rightarrow> bool \<Rightarrow> bool \<Rightarrow> mouse \<Rightarrow> bool" where
  "holds q h d m \<longleftrightarrow> mo_queue m = q \<and> mo_hold m = h \<and> mo_down m = d"

text \<open>Posting, logging and noting the activity: changes of the layer that keep its places.\<close>

lemma on_doc_layer_calm:
  assumes "settled w t m" "geometry (l_grid (f (mo_layer m))) = geometry (l_grid (mo_layer m))" "taking (g_net (l_grid (f (mo_layer m))))"
    "filter is_mouse (outbox (g_net (l_grid (f (mo_layer m))))) = filter is_mouse (outbox (mo_net m)) @ ts"
  shows "settled w t (on_doc_layer f m) \<and> mouse_messages (on_doc_layer f m) = mouse_messages m @ ts \<and>
    holds q h d (on_doc_layer f m) = holds q h d m"
  using assms
  by (simp add: settled_def on_doc_layer_def on_users_def on_layer_def mouse_messages_def holds_def mouse_blocked_def handle_dragged_def)

lemma mpost_calm:
  assumes "settled w t m"
  shows "settled w t (mpost cf type p n b md m) \<and> mouse_messages (mpost cf type p n b md m) = mouse_messages m @ [mouse_text type p n b md] \<and>
    holds q h d (mpost cf type p n b md m) = holds q h d m"
  unfolding mpost_def
  using postMouseEvent_sends [of "mo_layer m" cf type "fst p" "snd p" n b md] assms
  by (intro on_doc_layer_calm) (auto simp: settled_def)

lemma emit_calm:
  assumes "settled w t m"
  shows "settled w t (on_doc_layer (lemit x) m) \<and> mouse_messages (on_doc_layer (lemit x) m) = mouse_messages m @ filter is_mouse (sent_of [x]) \<and>
    holds q h d (on_doc_layer (lemit x) m) = holds q h d m"
  using assms by (intro on_doc_layer_calm) (auto simp: settled_def lemit_def on_grid_def gemit_def geometry_def emit_def outbox_def taking_def
      queue_inv_def connected_def)

lemma note_calm:
  assumes "settled w t m"
  shows "settled w t (on_doc_layer (on_grid (\<lambda>g. g\<lparr>g_net := notifyActive now (g_net g)\<rparr>)) m) \<and>
    mouse_messages (on_doc_layer (on_grid (\<lambda>g. g\<lparr>g_net := notifyActive now (g_net g)\<rparr>)) m) = mouse_messages m @ [] \<and>
    holds q h d (on_doc_layer (on_grid (\<lambda>g. g\<lparr>g_net := notifyActive now (g_net g)\<rparr>)) m) = holds q h d m"
  using assms by (intro on_doc_layer_calm) (auto simp: settled_def on_grid_def notifyActive_def taking_def queue_inv_def connected_def outbox_def)

lemma prefetch_calm:
  assumes "settled w t m"
  shows "settled w t (on_doc_layer (on_grid (resetPreFetching c)) m) \<and>
    mouse_messages (on_doc_layer (on_grid (resetPreFetching c)) m) = mouse_messages m @ [] \<and>
    holds q h d (on_doc_layer (on_grid (resetPreFetching c)) m) = holds q h d m"
  using assms by (intro on_doc_layer_calm) (auto simp: settled_def on_grid_def resetPreFetching_def Let_def geometry_def)

lemma quiet_calm:
  assumes "settled w t m"
  shows "settled w t (mcall f m)" "mouse_messages (mcall f m) = mouse_messages m" "holds q h d (mcall f m) = holds q h d m"
    "settled w t (mfire f fs m)" "mouse_messages (mfire f fs m) = mouse_messages m" "holds q h d (mfire f fs m) = holds q h d m"
    "settled w t (on_doc_layer (on_grid (\<lambda>g. g\<lparr>g_net := notifyActive now (g_net g)\<rparr>)) m)"
    "mouse_messages (on_doc_layer (on_grid (\<lambda>g. g\<lparr>g_net := notifyActive now (g_net g)\<rparr>)) m) = mouse_messages m"
    "holds q h d (on_doc_layer (on_grid (\<lambda>g. g\<lparr>g_net := notifyActive now (g_net g)\<rparr>)) m) = holds q h d m"
    "settled w t (on_doc_layer (on_grid (resetPreFetching c)) m)"
    "mouse_messages (on_doc_layer (on_grid (resetPreFetching c)) m) = mouse_messages m"
  using emit_calm [OF assms, of "Called f []" q h d] emit_calm [OF assms, of "Fired f (JObj fs)" q h d] note_calm [OF assms, of now q h d]
    prefetch_calm [OF assms, of c]
  by (simp_all add: mcall_def mfire_def lcall_def)

lemma calm_fields [simp]:
  "settled w t (m\<lparr>mo_queue := q\<rparr>) = settled w t m" "settled w t (m\<lparr>mo_hold := h\<rparr>) = settled w t m" "settled w t (m\<lparr>mo_down := d\<rparr>) = settled w t m"
  "mouse_messages (m\<lparr>mo_queue := q\<rparr>) = mouse_messages m" "mouse_messages (m\<lparr>mo_hold := h\<rparr>) = mouse_messages m"
  "mouse_messages (m\<lparr>mo_down := d\<rparr>) = mouse_messages m" "mouse_messages (m\<lparr>mo_clickTime := c\<rparr>) = mouse_messages m"
  "mouse_messages (m\<lparr>mo_clickCount := n\<rparr>) = mouse_messages m"
  by (simp_all add: settled_def mouse_messages_def mouse_blocked_def handle_dragged_def)

text \<open>An event that reaches the handler.\<close>

lemma onMouseEvent_calm:
  assumes "settled w t m"
  shows "onMouseEvent cf now e m =
    mouse_handled cf now e (on_doc_layer (on_grid (\<lambda>g. g\<lparr>g_net := notifyActive now (g_net g)\<rparr>)) m)"
proof -
  let ?m = "on_doc_layer (on_grid (\<lambda>g. g\<lparr>g_net := notifyActive now (g_net g)\<rparr>)) m"
  have "settled w t ?m" using quiet_calm(7) [OF assms] .
  then have "\<not> mouse_blocked ?m" "track_graphic e ?m = ?m" "\<not> handle_dragged ?m"
    by (simp_all add: settled_def track_graphic_def)
  then show ?thesis by (simp add: onMouseEvent_def Let_def)
qed

lemma mouse_pos_calm: "settled w t m \<Longrightarrow> settled w u n \<Longrightarrow> mouse_pos e m = mouse_pos e n"
  by (auto simp: settled_def mouse_pos_def intro: latLngToTwips_geometry)

section \<open>A drag\<close>

definition sent_press :: "mouse \<Rightarrow> mouse_event \<Rightarrow> string" where
  "sent_press m e = mouse_text ''buttondown'' (mouse_pos e m) 1 (lo_button (me_button e)) (mouse_modifier e)"

definition sent_move :: "mouse \<Rightarrow> mouse_event \<Rightarrow> string" where
  "sent_move m e = mouse_text ''move'' (mouse_pos e m) 1 (lo_button (me_button e)) (mouse_modifier e)"

definition sent_release :: "mouse \<Rightarrow> mouse_event \<Rightarrow> string" where
  "sent_release m e = mouse_text ''buttonup'' (mouse_pos e m) 1 (lo_button (me_button e)) (mouse_modifier e)"

text \<open>While the button is down: the press waits, or it has been sent and the moves after it.\<close>

definition in_drag :: "mview \<times> int \<times> int \<times> int \<Rightarrow> int option \<Rightarrow> mouse \<Rightarrow> mouse_event \<Rightarrow> mouse_event list \<Rightarrow> mouse \<Rightarrow> bool" where
  "in_drag w t s e es m \<longleftrightarrow> settled w t s \<and> settled w t m \<and>
     (if holds [PressJob (mouse_pos e s) (lo_button (me_button e)) (mouse_modifier e)] True True m
      then es = [] \<and> mouse_messages m = mouse_messages s
      else holds [] False True m \<and> mouse_messages m = mouse_messages s @ sent_press s e # map (sent_move s) es)"

lemma pressed_calm:
  assumes "settled w t m"
  shows "settled w t (mouse_pressed e m)" "mouse_messages (mouse_pressed e m) = mouse_messages m"
    "holds (mo_queue m @ [PressJob (mouse_pos e m) (lo_button (me_button e)) (mouse_modifier e)]) True True (mouse_pressed e m)"
proof -
  show "settled w t (mouse_pressed e m)" unfolding mouse_pressed_def calm_fields by (rule quiet_calm(10) [OF assms])
  show "mouse_messages (mouse_pressed e m) = mouse_messages m"
    unfolding mouse_pressed_def calm_fields by (rule quiet_calm(11) [OF assms])
  show "holds (mo_queue m @ [PressJob (mouse_pos e m) (lo_button (me_button e)) (mouse_modifier e)]) True True (mouse_pressed e m)"
    by (simp add: mouse_pressed_def holds_def)
qed

text \<open>The event as the handler finds it.\<close>

lemma step_calm:
  assumes "settled w t m" "holds q h d m" "settled w t s"
  shows "\<exists>n. settled w t n \<and> holds q h d n \<and> mouse_messages n = mouse_messages m \<and> mouse_pos e n = mouse_pos e s \<and>
    mouse_step cf (now, MouseIs e) m = mouse_handled cf now e n"
proof -
  let ?n = "on_doc_layer (on_grid (\<lambda>g. g\<lparr>g_net := notifyActive now (g_net g)\<rparr>)) m"
  have n: "settled w t ?n" "mouse_messages ?n = mouse_messages m" "holds q h d ?n"
    using quiet_calm(7-9) [OF assms(1)] assms(2) by simp_all
  then show ?thesis using onMouseEvent_calm [OF assms(1), of cf now e] mouse_pos_calm [OF n(1) assms(3)] by auto
qed

lemma drag_starts:
  assumes "settled w t s" "holds [] h d s" "me_type e = ''mousedown''" "\<not> mo_entering s \<or> me_type e \<noteq> ''mouseover''"
  shows "in_drag w t s e [] (mouse_step cf (now, MouseIs e) s)"
proof -
  obtain n where n: "settled w t n" "holds [] h d n" "mouse_messages n = mouse_messages s" "mouse_pos e n = mouse_pos e s"
    "mouse_step cf (now, MouseIs e) s = mouse_handled cf now e n"
    using step_calm [OF assms(1,2,1)] by blast
  have r: "mouse_step cf (now, MouseIs e) s = mouse_pressed e n" using n(5) assms(3) by (simp add: mouse_handled_def)
  have q: "mo_queue n = []" using n(2) by (simp add: holds_def)
  note p = pressed_calm [OF n(1), of e, unfolded q append_Nil n(3,4)]
  show ?thesis unfolding in_drag_def r using assms(1) p by auto
qed

text \<open>Running the queue while it holds the press.\<close>

definition sent_queue :: "mouse_job list \<Rightarrow> string list" where
  "sent_queue js = concat (map (\<lambda>j. case j of PressJob p b md \<Rightarrow> [mouse_text ''buttondown'' p 1 b md]
     | ReleaseJob p b md \<Rightarrow> [mouse_text ''buttonup'' p 1 b md]) js)"

fun only_last_release :: "mouse_job list \<Rightarrow> bool" where
  "only_last_release [] = True"
| "only_last_release (PressJob p b md # js) = only_last_release js"
| "only_last_release (ReleaseJob p b md # js) = (js = [])"

lemma run_jobs_calm:
  "settled w t m \<Longrightarrow> only_last_release js \<Longrightarrow>
   settled w t (run_jobs cf js m) \<and> mouse_messages (run_jobs cf js m) = mouse_messages m @ sent_queue js \<and>
   mo_hold (run_jobs cf js m) = mo_hold m \<and> mo_down (run_jobs cf js m) = mo_down m"
proof (induction js arbitrary: m)
  case (Cons j js)
  have p: "settled w t (mpost cf type p 1 b md m)" "mouse_messages (mpost cf type p 1 b md m) = mouse_messages m @ [mouse_text type p 1 b md]"
    "mo_hold (mpost cf type p 1 b md m) = mo_hold m" "mo_down (mpost cf type p 1 b md m) = mo_down m" for type p b md
    using mpost_calm [OF Cons.prems(1), of cf type p 1 b md] by (simp_all add: mpost_def on_doc_layer_def)
  show ?case
  proof (cases j)
    case (PressJob q b md)
    then show ?thesis using Cons.IH [OF p(1)] Cons.prems(2) p by (simp add: sent_queue_def)
  next
    case (ReleaseJob q b md)
    let ?n = "(mpost cf ''buttonup'' q 1 b md m)\<lparr>mo_queue := []\<rparr>"
    have n: "settled w t ?n" using p(1) by simp
    have r: "run_jobs cf (j # js) m = mcall ''focus'' ?n" by (simp add: ReleaseJob)
    have "mo_hold (mcall ''focus'' ?n) = mo_hold m" "mo_down (mcall ''focus'' ?n) = mo_down m"
      using p(3,4) by (simp_all add: mcall_def on_doc_layer_def)
    then show ?thesis
      unfolding r using quiet_calm(1,2) [OF n] p(2) Cons.prems(2) ReleaseJob by (simp add: sent_queue_def)
  qed
qed (simp add: sent_queue_def)


lemma drag_goes_on:
  assumes "in_drag w t s e es m"
  shows "in_drag w t s e es (mouse_step cf (now, HoldExpires) m)"
    and "me_type f = ''mousemove'' \<Longrightarrow> in_drag w t s e (es @ [f]) (mouse_step cf (now, MouseIs f) m)"
proof -
  let ?j = "PressJob (mouse_pos e s) (lo_button (me_button e)) (mouse_modifier e)"
  have q: "sent_queue [?j] = [sent_press s e]" by (simp add: sent_queue_def sent_press_def)
  have s: "settled w t s" "settled w t m" using assms by (simp_all add: in_drag_def)
  have run: "settled w t (executeMouseEvents cf n) \<and> holds [] False True (executeMouseEvents cf n) \<and>
      mouse_messages (executeMouseEvents cf n) = mouse_messages n @ [sent_press s e]"
    if "settled w t n" "holds [?j] True True n" for n
  proof -
    let ?n = "n\<lparr>mo_hold := False\<rparr>"
    have "mo_queue n = [?j]" "mo_down n" using that(2) by (simp_all add: holds_def)
    moreover have "settled w t ?n" "only_last_release [?j]" using that(1) by simp_all
    note r = run_jobs_calm [OF this, of cf, unfolded q]
    ultimately show ?thesis using r by (simp add: executeMouseEvents_def holds_def)
  qed
  show "in_drag w t s e es (mouse_step cf (now, HoldExpires) m)"
  proof (cases "holds [?j] True True m")
    case True
    then show ?thesis using assms run [OF s(2) True] s by (auto simp: in_drag_def holds_def)
  next
    case False
    have "holds [] False True m" using assms unfolding in_drag_def if_not_P [OF False] by simp
    then have "\<not> mo_hold m" by (simp add: holds_def)
    then show ?thesis using assms by simp
  qed
  assume f: "me_type f = ''mousemove''"
  define q h where "q = mo_queue m" and "h = mo_hold m"
  have d: "mo_down m" using assms by (auto simp: in_drag_def holds_def split: if_splits)
  then have "holds q h True m" by (simp add: holds_def q_def h_def)
  then obtain n where n: "settled w t n" "holds q h True n" "mouse_messages n = mouse_messages m" "mouse_pos f n = mouse_pos f s"
    "mouse_step cf (now, MouseIs f) m = mouse_handled cf now f n"
    using step_calm [OF s(2) _ s(1)] by blast
  have r: "mouse_step cf (now, MouseIs f) m = mouse_dragged cf f n"
    using n(2,5) f by (simp add: mouse_handled_def holds_def)
  define k where "k = (if mo_hold n then executeMouseEvents cf n else n)"
  have k: "settled w t k \<and> holds [] False True k \<and> mouse_messages k = mouse_messages s @ sent_press s e # map (sent_move s) es"
  proof (cases "holds [?j] True True m")
    case True
    then have "holds [?j] True True n" using n(2) by (simp add: holds_def q_def h_def)
    then show ?thesis using run [OF n(1)] assms True n(3) by (simp add: k_def in_drag_def holds_def)
  next
    case False
    have m: "holds [] False True m" "mouse_messages m = mouse_messages s @ sent_press s e # map (sent_move s) es"
      using assms unfolding in_drag_def if_not_P [OF False] by simp_all
    have "holds [] False True n" using m(1) n(2) by (simp add: holds_def q_def h_def)
    then show ?thesis using m(2) n(1,3) by (simp add: k_def holds_def)
  qed
  have pos: "mouse_pos f k = mouse_pos f s" using mouse_pos_calm [OF conjunct1 [OF k] s(1)] .
  have nd: "\<not> mo_dragging n" "\<not> mo_dragging k" using n(1) k by (simp_all add: settled_def)
  have r': "mouse_dragged cf f n = mfire ''handleautoscroll'' []
      (mpost cf ''move'' (mouse_pos f s) 1 (lo_button (me_button f)) (mouse_modifier f) k)"
    by (simp only: mouse_dragged_def Let_def executeMouseEvents_def [symmetric] k_def [symmetric] nd pos simp_thms if_False)
  let ?p = "mpost cf ''move'' (mouse_pos f s) 1 (lo_button (me_button f)) (mouse_modifier f) k"
  have p: "settled w t ?p" "holds [] False True ?p" "mouse_messages ?p = mouse_messages s @ sent_press s e # map (sent_move s) (es @ [f])"
    using mpost_calm [OF conjunct1 [OF k], of cf "''move''" "mouse_pos f s" 1 "lo_button (me_button f)" "mouse_modifier f"] k
    by (simp_all add: sent_move_def)
  show "in_drag w t s e (es @ [f]) (mouse_step cf (now, MouseIs f) m)"
    using quiet_calm(4) [OF p(1)] quiet_calm(5) [OF p(1)] quiet_calm(6) [OF p(1), of "[]" False True] p s(1)
    unfolding in_drag_def r r' by (simp add: holds_def)
qed


text \<open>The release of a drag, when no click came shortly before.\<close>

lemma released_calm:
  assumes "settled w t n" "case t of None \<Rightarrow> True | Some u \<Rightarrow> u = 0 \<or> now - u > 250"
  shows "settled w (Some now) (mouse_released now f n)" "mouse_messages (mouse_released now f n) = mouse_messages n"
    "holds (mo_queue n @ [ReleaseJob (mouse_pos f n) (lo_button (me_button f)) (mouse_modifier f)]) True False (mouse_released now f n)"
proof -
  let ?q = "mo_queue n @ [ReleaseJob (mouse_pos f n) (lo_button (me_button f)) (mouse_modifier f)]"
  let ?n = "n\<lparr>mo_down := False, mo_clickTime := Some now, mo_clickCount := 1, mo_hold := True, mo_queue := ?q\<rparr>"
  have p: "mouse_pos f (n\<lparr>mo_down := a, mo_hold := b, mo_clickTime := c, mo_clickCount := d\<rparr>) = mouse_pos f n" for a b c d
    by (simp add: mouse_pos_def)
  have "\<not> (case mo_clickTime n of None \<Rightarrow> False | Some u \<Rightarrow> u \<noteq> 0 \<and> now - u \<le> 250)" "\<not> mo_dragging n"
    using assms by (auto simp: settled_def split: option.splits)
  then have r: "mouse_released now f n = mfire ''scrollvelocity'' [(''vx'', JInt 0), (''vy'', JInt 0)] ?n"
    using p by (simp add: mouse_released_def Let_def mouse_pos_def)
  have n: "settled w (Some now) ?n" "mouse_messages ?n = mouse_messages n" "holds ?q True False ?n"
    using assms(1) by (simp_all add: settled_def mouse_blocked_def handle_dragged_def mouse_messages_def holds_def)
  show "settled w (Some now) (mouse_released now f n)" "mouse_messages (mouse_released now f n) = mouse_messages n"
    "holds ?q True False (mouse_released now f n)"
    unfolding r using quiet_calm(4-5) [OF n(1)] n(2) quiet_calm(6) [OF n(1)] n(3) by simp_all
qed

lemma drag_ends:
  assumes "in_drag w t s e es m" "me_type f = ''mouseup''" "case t of None \<Rightarrow> True | Some u \<Rightarrow> u = 0 \<or> now - u > 250"
  shows "mouse_messages (mouse_step cf (late, HoldExpires) (mouse_step cf (now, MouseIs f) m)) =
    mouse_messages s @ sent_press s e # map (sent_move s) es @ [sent_release s f]"
proof -
  let ?p = "PressJob (mouse_pos e s) (lo_button (me_button e)) (mouse_modifier e)"
  let ?r = "ReleaseJob (mouse_pos f s) (lo_button (me_button f)) (mouse_modifier f)"
  have s: "settled w t s" "settled w t m" using assms(1) by (simp_all add: in_drag_def)
  obtain q h where m: "holds q h True m" "only_last_release (q @ [?r])"
    "mouse_messages m @ sent_queue (q @ [?r]) = mouse_messages s @ sent_press s e # map (sent_move s) es @ [sent_release s f]"
  proof (cases "holds [?p] True True m")
    case True
    then show thesis using assms(1) that [of "[?p]" True]
      by (simp add: in_drag_def sent_queue_def sent_press_def sent_release_def)
  next
    case False
    then show thesis using assms(1) that [of "[]" False] unfolding in_drag_def if_not_P [OF False]
      by (simp add: sent_queue_def sent_release_def)
  qed
  obtain n where n: "settled w t n" "holds q h True n" "mouse_messages n = mouse_messages m" "mouse_pos f n = mouse_pos f s"
    "mouse_step cf (now, MouseIs f) m = mouse_handled cf now f n"
    using step_calm [OF s(2) m(1) s(1)] by blast
  have r: "mouse_step cf (now, MouseIs f) m = mouse_released now f n"
    using n(5) assms(2) by (simp add: mouse_handled_def)
  let ?k = "mouse_released now f n"
  note k = released_calm [OF n(1) assms(3), of f]
  have q: "mo_queue ?k = q @ [?r]" "mo_hold ?k" using k(3) n(2,4) by (simp_all add: holds_def)
  have h: "settled w (Some now) (?k\<lparr>mo_hold := False\<rparr>)" using k(1) by simp
  show ?thesis unfolding r using run_jobs_calm [OF h m(2), of cf] q k(2) n(3) m(3)
    by (simp add: executeMouseEvents_def)
qed



definition demo_mouse :: mouse where
  "demo_mouse = \<lparr>mo_doc = on_users (on_layer (on_grid (\<lambda>g. g\<lparr>g_net := (g_net g)\<lparr>msgQueue := []\<rparr>\<rparr>))) demo_selection,
     mo_queue = [], mo_down = False, mo_hold = False, mo_clickTime = None, mo_clickCount = 0, mo_over = None, mo_prevPos = None,
     mo_dragging = False, mo_slideShow = False, mo_ruler = False, mo_entering = True, mo_outside = False\<rparr>"

definition demo_mouse_event :: "string \<Rightarrow> real \<Rightarrow> mouse_event" where
  "demo_mouse_event type x = \<lparr>me_type = type, me_latlng = ll 0 x, me_button = 0, me_shift = False, me_ctrl = False, me_alt = False,
     me_meta = False\<rparr>"


end
