(* ===== verification/Comments.thy ===== *)
theory Comments
  imports Commands
begin

text \<open>
  The comments and tracked changes of text documents (\<open>layer/AnnotationManager.js\<close>, \<open>layer/marker/Annotation.js\<close>,
  the calls of both in \<open>layer/tile/WriterTileLayer.js\<close>). The manager keeps them in a list, sorted by their
  places in the document; a comment and its replies are a thread, each with the one before it as its parent. They
  are laid out beside the page, pushed apart where they would cover each other.

  An annotation has an identity, as the code compares objects. How large the browser makes it is a parameter
  \<open>sz\<close>, of its data, of what it shows and of its scale. Moving the boxes is animated; the model has the places they
  move to. The manager's timer is a flag.
\<close>

section \<open>State\<close>

datatype amode = Reading | Editing | Replying

record adata =
  ad_id :: string
  ad_parent :: "string option"
  ad_author :: string
  ad_text :: string
  ad_reply :: string
  ad_date :: string
  ad_index :: int
  ad_change :: bool                 \<comment> \<open>\<open>trackchange\<close>\<close>
  ad_avatar :: jsval
  ad_pos :: bounds                  \<comment> \<open>\<open>anchorPos\<close>, in twips\<close>
  ad_pix :: point                   \<comment> \<open>\<open>anchorPix\<close>\<close>
  ad_areas :: "latlng list list"    \<comment> \<open>the polygons of \<open>textSelected\<close>, when there are any\<close>

text \<open>The field in which a comment is edited shows the comment's text until its own text is set, by typing or by a
  program; after that, changes of the comment's text do not reach it any more.\<close>

record anno =
  an_key :: nat
  an_data :: adata
  an_latlng :: latlng
  an_visible :: bool
  an_mode :: amode
  an_marked :: bool                 \<comment> \<open>its text is marked on the map\<close>
  an_origText :: string
  an_typed :: "string option"
  an_replyText :: string
  an_scale :: real

type_synonym asize = "adata \<Rightarrow> amode \<Rightarrow> real \<Rightarrow> nat \<times> nat"

text \<open>The manager on the map and its document layer. \<open>cm_selected\<close> is the selected annotation as it was when it left
  the list, or any earlier state of one in the list.\<close>

record cmanager =
  cm_users :: ulayer
  cm_items :: "anno list"
  cm_selected :: "anno option"
  cm_arrow :: "(latlng \<times> latlng) option"
  cm_timer :: bool
  cm_measured :: bool               \<comment> \<open>\<open>_initialLayoutData\<close> is there\<close>
  cm_next :: nat

text \<open>A comment or a change in a message of the server.\<close>

record cmsg =
  m_id :: string
  m_parent :: "string option"
  m_author :: string
  m_text :: string
  m_date :: string
  m_anchorPos :: "string option"
  m_textRange :: "string option"
  m_index :: int

definition on_cm :: "(ulayer \<Rightarrow> ulayer) \<Rightarrow> cmanager \<Rightarrow> cmanager" where
  "on_cm f c = c\<lparr>cm_users := f (cm_users c)\<rparr>"

abbreviation cm_view :: "cmanager \<Rightarrow> mview" where
  "cm_view c \<equiv> u_view (cm_users c)"

abbreviation cm_grid :: "cmanager \<Rightarrow> grid" where
  "cm_grid c \<equiv> u_grid (cm_users c)"

definition cm_throws :: "cmanager \<Rightarrow> cmanager" where
  "cm_throws = on_cm (ucall ''TypeError'')"

definition cm_focus :: "cmanager \<Rightarrow> cmanager" where
  "cm_focus = on_cm (ucall ''focus'')"

definition cm_uno :: "sconf \<Rightarrow> (string \<Rightarrow> string \<Rightarrow> string) \<Rightarrow> string \<Rightarrow> (string \<times> string \<times> ujson) list \<Rightarrow> cmanager \<Rightarrow> cmanager" where
  "cm_uno cf target command args =
     on_cm (on_layer (sendUnoCommand cf target command
       (Some (UObj (map (\<lambda>(k, t, v). (k, UObj [(''type'', UStr t), (''value'', v)])) args)))))"

text \<open>The object that is selected, as it is now.\<close>

definition selected_now :: "cmanager \<Rightarrow> anno option" where
  "selected_now c = (case cm_selected c of
      None \<Rightarrow> None
    | Some s \<Rightarrow> (case find (\<lambda>a. an_key a = an_key s) (cm_items c) of Some a \<Rightarrow> Some a | None \<Rightarrow> Some s))"

definition is_selected :: "nat \<Rightarrow> cmanager \<Rightarrow> bool" where
  "is_selected k c \<longleftrightarrow> (case cm_selected c of None \<Rightarrow> False | Some s \<Rightarrow> an_key s = k)"

definition change_anno :: "nat \<Rightarrow> (anno \<Rightarrow> anno) \<Rightarrow> cmanager \<Rightarrow> cmanager" where
  "change_anno k f c = c\<lparr>cm_items := map (\<lambda>a. if an_key a = k then f a else a) (cm_items c)\<rparr>"

definition drop_items :: "(anno \<Rightarrow> bool) \<Rightarrow> cmanager \<Rightarrow> cmanager" where
  "drop_items P c = c\<lparr>cm_selected := selected_now c, cm_items := filter (\<lambda>a. \<not> P a) (cm_items c)\<rparr>"

section \<open>Messages\<close>

text \<open>\<open>L.LOUtil.stringToBounds\<close>; \<open>None\<close>: there are no four numbers, and the code throws or finds no place.\<close>

definition stringToBounds :: "string option \<Rightarrow> bounds option" where
  "stringToBounds s =
     Option.bind (Option.bind s four_numbers)
       (\<lambda>(x, y, w, h). Some (new_bounds (ipt (x, y)) (point_add (ipt (x, y)) (ipt (w, h)))))"

definition avatar_of :: "string \<Rightarrow> cmanager \<Rightarrow> jsval" where
  "avatar_of author c = (case obj_get (u_byName (cm_users c)) author of
      None \<Rightarrow> JUndef | Some vi \<Rightarrow> js_field ''avatar'' (vi_extra vi))"

definition message_data :: "cmsg \<Rightarrow> string \<Rightarrow> bool \<Rightarrow> bounds \<Rightarrow> latlng list list \<Rightarrow> cmanager \<Rightarrow> adata" where
  "message_data m k change pos areas c =
     \<lparr>ad_id = k, ad_parent = m_parent m, ad_author = m_author m, ad_text = m_text m, ad_reply = [], ad_date = m_date m,
      ad_index = m_index m, ad_change = change, ad_avatar = avatar_of (m_author m) c, ad_pos = pos,
      ad_pix = twipsToPixels (cm_grid c) (bmin pos), ad_areas = areas\<rparr>"

definition adjustComment :: "cmsg \<Rightarrow> cmanager \<Rightarrow> adata option" where
  "adjustComment m c =
     (let range = (if or_empty (m_textRange m) \<noteq> [] then m_textRange m else m_anchorPos m)
      in case (Option.bind range (selection_polygons (cm_grid c)), stringToBounds (m_anchorPos m)) of
           (Some areas, Some pos) \<Rightarrow> Some (message_data m (m_id m) False pos areas c)
         | _ \<Rightarrow> None)"

text \<open>A change without a range is not taken (\<open>Some None\<close>).\<close>

definition change_id :: "int \<Rightarrow> string" where
  "change_id i = ''change-'' @ show_int i"

definition adjustRedLine :: "cmsg \<Rightarrow> cmanager \<Rightarrow> adata option option" where
  "adjustRedLine m c =
     (if or_empty (m_textRange m) = [] then Some None
      else case (Option.bind (m_textRange m) (selection_polygons (cm_grid c)), stringToBounds (m_textRange m)) of
             (Some areas, Some pos) \<Rightarrow> Some (Some (message_data m (change_id (m_index m)) True pos areas c))
           | _ \<Rightarrow> None)"


section \<open>Places on the screen\<close>

text \<open>Layer points of a loaded map; \<open>getBounds\<close> of an annotation and its height.\<close>

definition layer_pt :: "mview \<Rightarrow> latlng \<Rightarrow> point" where
  "layer_pt v p = point_subtract (point_round (project v p None)) (mv_pixelOrigin v)"

definition layer_latlng :: "mview \<Rightarrow> point \<Rightarrow> latlng" where
  "layer_latlng v p = unproject v (point_add p (mv_pixelOrigin v)) None"

definition anno_size :: "asize \<Rightarrow> anno \<Rightarrow> nat \<times> nat" where
  "anno_size sz a = sz (an_data a) (an_mode a) (an_scale a)"

definition anno_bounds :: "asize \<Rightarrow> mview \<Rightarrow> anno \<Rightarrow> bounds" where
  "anno_bounds sz v a =
     (let p = layer_pt v (an_latlng a)
      in new_bounds p (point_add p (pt (real (fst (anno_size sz a))) (real (snd (anno_size sz a))))))"

abbreviation anno_height :: "asize \<Rightarrow> anno \<Rightarrow> real" where
  "anno_height sz a \<equiv> real (snd (anno_size sz a))"

definition anno_show :: "anno \<Rightarrow> anno" where
  "anno_show a = a\<lparr>an_visible := True, an_mode := Reading, an_marked := ad_areas (an_data a) \<noteq> []\<rparr>"

definition isEdit :: "anno \<Rightarrow> bool" where
  "isEdit a \<longleftrightarrow> an_mode a \<noteq> Reading"

definition anno_move :: "latlng \<Rightarrow> anno \<Rightarrow> anno" where
  "anno_move p a = a\<lparr>an_latlng := p\<rparr>"

abbreviation grow_to :: "bounds \<Rightarrow> point \<Rightarrow> bounds" where
  "grow_to b p \<equiv> bounds_extend (Some b) p"

definition below :: "bounds \<Rightarrow> real \<Rightarrow> bounds" where
  "below b h = grow_to b (point_add (bmax b) (pt 0 h))"

definition above :: "bounds \<Rightarrow> real \<Rightarrow> bounds" where
  "above b h = grow_to b (point_subtract (bmin b) (pt 0 h))"

definition marginX :: real where "marginX = 40"
definition marginY :: real where "marginY = 10"

section \<open>Laying out\<close>

text \<open>The comments of a thread below each other, from a point on.\<close>

fun place_thread :: "asize \<Rightarrow> mview \<Rightarrow> anno list \<Rightarrow> point \<Rightarrow> anno list" where
  "place_thread sz v [] p = []"
| "place_thread sz v (a # as) p =
     (let a = anno_show (anno_move (layer_latlng v p) a)
      in a # place_thread sz v as (point_add p (pt 0 (anno_height sz a))))"

text \<open>The space a thread needs where its anchor is.\<close>

definition thread_bounds :: "asize \<Rightarrow> mview \<Rightarrow> anno list \<Rightarrow> latlng \<Rightarrow> bounds" where
  "thread_bounds sz v as p =
     fold (\<lambda>a b. below b (anno_height sz a)) (tl as) (anno_bounds sz v (anno_move p (List.hd as)))"

definition column :: "mview \<Rightarrow> real \<Rightarrow> real" where
  "column v right = px (layer_pt v (unproject v (pt (right + marginX) 0) None))"

definition layoutUp :: "asize \<Rightarrow> mview \<Rightarrow> real \<Rightarrow> anno list \<Rightarrow> latlng \<Rightarrow> bounds \<Rightarrow> anno list \<times> bounds" where
  "layoutUp sz v right as p lb =
     (if as = [] then (as, lb)
      else
        let b = thread_bounds sz v as p;
            meets = bounds_intersects lb b;
            lb = (if meets then above lb (py (bounds_getSize b)) else grow_to lb (pt (px (bmin lb)) (py (bmin b))));
            y = (if meets then py (bmin lb) else py (bmin b))
        in (place_thread sz v as (pt (column v right) y), above lb marginY))"

definition layoutDown :: "asize \<Rightarrow> mview \<Rightarrow> real \<Rightarrow> anno list \<Rightarrow> latlng \<Rightarrow> bounds \<Rightarrow> anno list \<times> bounds" where
  "layoutDown sz v right as p lb =
     (if as = [] then (as, lb)
      else
        let b = thread_bounds sz v as p;
            meets = bounds_intersects lb b;
            y = (if meets then py (bounds_getBottomLeft lb) else py (bmin b));
            lb = (if meets then below lb (py (bounds_getSize b)) else grow_to lb (pt (px (bmax lb)) (py (bmax b))))
        in (place_thread sz v as (pt (column v right) y), below lb marginY))"

text \<open>Threads, and the thread of one annotation: \<open>getRootIndexOf\<close> and \<open>getLastChildIndexOf\<close>.\<close>

definition linked :: "anno \<Rightarrow> anno \<Rightarrow> bool" where
  "linked a b \<longleftrightarrow> ad_parent (an_data b) = Some (ad_id (an_data a))"

fun thread_end :: "anno \<Rightarrow> anno list \<Rightarrow> anno list" where
  "thread_end a [] = []"
| "thread_end a (b # bs) = (if linked a b then b # thread_end b bs else [])"

fun after_thread :: "anno \<Rightarrow> anno list \<Rightarrow> anno list" where
  "after_thread a [] = []"
| "after_thread a (b # bs) = (if linked a b then after_thread b bs else b # bs)"

lemma after_thread_length: "length (after_thread a bs) \<le> length bs"
  by (induction a bs rule: after_thread.induct) auto

function threads :: "anno list \<Rightarrow> anno list list" where
  "threads [] = []"
| "threads (a # bs) = (a # thread_end a bs) # threads (after_thread a bs)"
  by pat_completeness auto
termination by (relation "measure length") (auto intro: le_imp_less_Suc after_thread_length)

fun root_back :: "anno list \<Rightarrow> nat \<Rightarrow> nat" where
  "root_back as 0 = 0"
| "root_back as (Suc k) = (if linked (as ! k) (as ! Suc k) then root_back as k else Suc k)"

fun index_of :: "string \<Rightarrow> anno list \<Rightarrow> nat option" where
  "index_of k [] = None"
| "index_of k (a # as) = (if ad_id (an_data a) = k then Some 0 else map_option Suc (index_of k as))"

definition getRootIndexOf :: "string \<Rightarrow> anno list \<Rightarrow> nat option" where
  "getRootIndexOf k as = map_option (root_back as) (index_of k as)"

definition getLastChildIndexOf :: "string \<Rightarrow> anno list \<Rightarrow> nat option" where
  "getLastChildIndexOf k as = map_option (\<lambda>i. i + length (thread_end (as ! i) (drop (Suc i) as))) (index_of k as)"

text \<open>All threads, downwards. A thread starts at the place of its first comment's \<open>anchorPix\<close>.\<close>

definition thread_place :: "mview \<Rightarrow> real \<Rightarrow> anno list \<Rightarrow> latlng" where
  "thread_place v right as = unproject v (pt (right + marginX) (py (ad_pix (an_data (List.hd as))))) None"

fun layout_down :: "asize \<Rightarrow> mview \<Rightarrow> real \<Rightarrow> anno list list \<Rightarrow> bounds \<Rightarrow> anno list list \<times> bounds" where
  "layout_down sz v right [] lb = ([], lb)"
| "layout_down sz v right (t # ts) lb =
     (let r = layoutDown sz v right t (thread_place v right t) lb; s = layout_down sz v right ts (snd r)
      in (fst r # fst s, snd s))"

text \<open>Upwards: the threads are given from below to above, and come out in this order too.\<close>

fun layout_up :: "asize \<Rightarrow> mview \<Rightarrow> real \<Rightarrow> anno list list \<Rightarrow> bounds \<Rightarrow> anno list list \<times> bounds" where
  "layout_up sz v right [] lb = ([], lb)"
| "layout_up sz v right (t # ts) lb =
     (let r = layoutUp sz v right t (thread_place v right t) lb; s = layout_up sz v right ts (snd r)
      in (fst r # fst s, snd s))"


section \<open>The layout\<close>

definition getScaleFactor :: "cmanager \<Rightarrow> real" where
  "getScaleFactor c =
     (let s = 1 / getZoomScale (cm_view c) (g_optZoom (cm_grid c)) (Some (mv_zoom (cm_view c)))
      in if s < 4 / 10 then 4 / 10
         else if s < 6 / 10 then 6 / 10 - (6 / 10 - s) / 2
         else if s < 8 / 10 then 8 / 10
         else if s \<le> 2 then 1
         else min (15 / 10) (1 + (s - 1) / 10))"

text \<open>The positions from \<open>first\<close> to \<open>last\<close> of the selected thread. \<open>None\<close>: the selected annotation is not in the list,
  and the code reads an entry that is not there.\<close>

definition selected_thread :: "anno \<Rightarrow> anno list \<Rightarrow> (nat \<times> nat) option" where
  "selected_thread s as = (case (getRootIndexOf (ad_id (an_data s)) as, getLastChildIndexOf (ad_id (an_data s)) as) of
      (Some i, Some j) \<Rightarrow> Some (i, j) | _ \<Rightarrow> None)"

text \<open>Mobile devices: the scales of the boxes, once there is a box of a comment to measure.\<close>

definition updateScaling :: "sconf \<Rightarrow> cmanager \<Rightarrow> cmanager" where
  "updateScaling cf c =
     (if \<not> isMobile cf \<or> cm_items c = [] then c
      else
        let c = c\<lparr>cm_measured := cm_measured c \<or> list_ex (\<lambda>a. \<not> ad_change (an_data a)) (cm_items c)\<rparr>
        in if \<not> cm_measured c then c
           else
             let thread = Option.bind (selected_now c) (\<lambda>s. selected_thread s (cm_items c));
                 inside = (\<lambda>k. case thread of None \<Rightarrow> False | Some (i, j) \<Rightarrow> i \<le> k \<and> k \<le> j)
             in c\<lparr>cm_items := map (\<lambda>(k, a). a\<lparr>an_scale := if inside k then 1 else getScaleFactor c\<rparr>)
                                 (List.enumerate 0 (cm_items c))\<rparr>)"

definition at_zoom :: "grid \<Rightarrow> bool \<Rightarrow> anno \<Rightarrow> anno" where
  "at_zoom g zoom a = (if zoom then a\<lparr>an_data := (an_data a)\<lparr>ad_pix := twipsToPixels g (bmin (ad_pos (an_data a)))\<rparr>\<rparr> else a)"

text \<open>Where the selected thread goes on a mobile device whose view does not hold it beside the page.\<close>

definition mobile_place :: "grid \<Rightarrow> asize \<Rightarrow> bounds \<Rightarrow> anno \<Rightarrow> point \<times> point \<Rightarrow> point \<times> point" where
  "mobile_place g sz mapBoundsPx rt place = (case place of (pos, start) \<Rightarrow>
     (let b = new_bounds pos (point_add pos (bounds_getSize (anno_bounds sz (g_view g) rt)));
          spacing = 16; lo = bmin mapBoundsPx; hi = bmax mapBoundsPx; pix = ad_pix (an_data rt)
      in if bounds_contains mapBoundsPx b then (pos, start)
         else
           let scrollX = of_int (js_round (if px (bmin b) < px lo then px (bmin b) - px lo - spacing
                                           else if px (bmax b) > px hi then px (bmax b) - px hi + spacing else 0));
               scrollY = of_int (js_round (if py (bmin b) < py lo then py (bmin b) - py lo + spacing
                                           else if py (bmax b) > py hi then py (bmax b) - py hi - spacing else 0));
               x = px pos - scrollX; x = (if x < px lo then of_int (js_round (px lo + spacing)) else x);
               y = py pos - scrollY; y = (if y < py lo then of_int (js_round (py lo + spacing)) else y)
           in if x < px pix + spacing then
                (let line = of_int (js_round (py (twipsToPixels g (bmax (ad_pos (an_data rt)))) - py pix))
                 in (pt x (y + 2 * line), point_add start (pt 0 line)))
              else (pt x y, start)))"

text \<open>The replies of the selected thread, below what is placed; they are not shown here.\<close>

fun place_children :: "asize \<Rightarrow> mview \<Rightarrow> anno list \<Rightarrow> bounds \<Rightarrow> anno list \<times> bounds" where
  "place_children sz v [] lb = ([], lb)"
| "place_children sz v (a # as) lb =
     (let a = anno_move (layer_latlng v (bounds_getBottomLeft lb)) a;
          r = place_children sz v as (below lb (anno_height sz a))
      in (a # fst r, snd r))"

definition room_around :: "bounds \<Rightarrow> bounds" where
  "room_around b = (let m = pt marginX 0; b = b\<lparr>bmin := point_add (bmin b) m, bmax := point_add (bmax b) m\<rparr> in below (above b marginY) marginY)"

text \<open>All annotations around the selected thread. At a new zoom level the places of the first comments are computed
  again, as far as the code does this: of a thread above the selected one, the last comment's.\<close>

definition last_at_zoom :: "grid \<Rightarrow> bool \<Rightarrow> anno list \<Rightarrow> anno list" where
  "last_at_zoom g zoom t = butlast t @ [at_zoom g zoom (List.last t)]"

definition first_at_zoom :: "grid \<Rightarrow> bool \<Rightarrow> anno list \<Rightarrow> anno list" where
  "first_at_zoom g zoom t = at_zoom g zoom (List.hd t) # tl t"

definition layout_around ::
  "sconf \<Rightarrow> asize \<Rightarrow> grid \<Rightarrow> real \<Rightarrow> bool \<Rightarrow> nat \<times> nat \<Rightarrow> anno list \<Rightarrow> (anno list \<times> latlng \<times> latlng) option" where
  "layout_around cf sz g right zoom thread as = (case (thread, getPixelBounds (g_view g) None) of
     ((i, j), Some mapBoundsPx) \<Rightarrow>
        (let v = g_view g; rt = at_zoom g zoom (as ! i);
             places = (pt right (py (ad_pix (an_data rt))), twipsToPixels g (bmin (ad_pos (an_data rt))));
             (pos, start) = (if isMobile cf then mobile_place g sz mapBoundsPx rt places else places);
             rt = anno_move (unproject v pos None) rt;
             (children, lb) = place_children sz v (map (at_zoom g zoom) (drop (Suc i) (take (Suc j) as))) (anno_bounds sz v rt);
             lb = room_around lb;
             up = layout_up sz v right (rev (map (last_at_zoom g zoom) (threads (take i as)))) lb;
             down = layout_down sz v right (map (first_at_zoom g zoom) (threads (drop (Suc j) as))) (snd up)
         in Some (concat (rev (fst up)) @ rt # children @ concat (fst down), unproject v start None, unproject v pos None))
   | _ \<Rightarrow> None)"

text \<open>\<open>getBounds\<close> of the manager begins with the first annotation, whichever the first visible one is; it throws
  when none is visible.\<close>

definition all_bounds :: "asize \<Rightarrow> mview \<Rightarrow> anno list \<Rightarrow> bounds option" where
  "all_bounds sz v as =
     (case dropWhile (\<lambda>a. \<not> an_visible a) as of
        [] \<Rightarrow> None
      | a # rest \<Rightarrow> Some (fold (\<lambda>a b. if an_visible a then grow_to (grow_to b (bmin (anno_bounds sz v a))) (bmax (anno_bounds sz v a)) else b)
                          rest (anno_bounds sz v (List.hd as))))"

text \<open>The room beside the page: what sticks out of the bounds of the map is added to them, with a margin of 40.\<close>

definition updatemaxbounds :: "bool \<Rightarrow> point option \<Rightarrow> cmanager \<Rightarrow> cmanager" where
  "updatemaxbounds nothing extra c =
     on_cm (on_layer (on_grid (updateMaxBounds True extra None nothing)) \<circ> ufire ''updatemaxbounds'' [(''sizeChanged'', JBool True)]) c"

definition room_for :: "bounds \<Rightarrow> bounds \<Rightarrow> point" where
  "room_for db b =
     (let x = max (px (bmax b) - px (bmax db)) 0; y = max (py (bmax b) - py (bmax db)) 0
      in pt (if x > 0 then x + 40 else x) (if y > 0 then y + 40 else y))"

text \<open>What is outside the bounds of the map makes them larger; \<open>None\<close>: there are no bounds, and the code throws.\<close>

definition fit_bounds :: "bool \<Rightarrow> bounds \<Rightarrow> cmanager \<Rightarrow> cmanager option" where
  "fit_bounds nothing b c = (case (getLayerMaxBounds (cm_view c), getLayerDocBounds (cm_view c)) of
      (Some mx, Some db) \<Rightarrow> Some (if bounds_contains mx b then c else updatemaxbounds nothing (Some (room_for db b)) c)
    | _ \<Rightarrow> None)"

definition checkBounds :: "asize \<Rightarrow> bool \<Rightarrow> cmanager \<Rightarrow> cmanager" where
  "checkBounds sz nothing c =
     (if mv_animatingZoom (cm_view c) \<or> cm_items c = [] then c
      else (case Option.bind (all_bounds sz (cm_view c) (cm_items c)) (\<lambda>b. fit_bounds nothing b c) of
          Some c \<Rightarrow> c | None \<Rightarrow> cm_throws c))"

text \<open>\<open>_checkBounds\<close> of one annotation.\<close>

definition anno_checkBounds :: "asize \<Rightarrow> bool \<Rightarrow> anno \<Rightarrow> cmanager \<Rightarrow> cmanager option" where
  "anno_checkBounds sz nothing a c =
     (if mv_animatingZoom (cm_view c) \<or> \<not> an_visible a then Some c
      else fit_bounds nothing (anno_bounds sz (cm_view c) a) c)"

text \<open>\<open>doLayout\<close>. A map without a view or without the bounds of the document throws before anything is placed. The
  selected annotation is shown at the end, unless it is edited; when it has left the map, this throws.\<close>

definition show_selected :: "cmanager \<Rightarrow> cmanager option" where
  "show_selected c = (case selected_now c of
      None \<Rightarrow> Some c
    | Some s \<Rightarrow>
        if isEdit s then Some c
        else if an_key s \<in> an_key ` set (cm_items c) then Some (change_anno (an_key s) anno_show c)
        else if ad_areas (an_data s) = [] then Some (c\<lparr>cm_selected := Some (anno_show s)\<rparr>)
        else None)"

definition layout_selected :: "sconf \<Rightarrow> asize \<Rightarrow> bool \<Rightarrow> bool \<Rightarrow> real \<Rightarrow> anno \<Rightarrow> cmanager \<Rightarrow> cmanager" where
  "layout_selected cf sz nothing zoom right s c =
     (case Option.bind (selected_thread s (cm_items c)) (\<lambda>t. layout_around cf sz (cm_grid c) right zoom t (cm_items c)) of
        None \<Rightarrow> cm_throws c
      | Some (as, arrow) \<Rightarrow>
          (let c = c\<lparr>cm_items := as, cm_arrow := Some arrow\<rparr>
           in case show_selected c of None \<Rightarrow> cm_throws c | Some c \<Rightarrow> checkBounds sz nothing c))"

definition layout_all :: "asize \<Rightarrow> bool \<Rightarrow> bool \<Rightarrow> real \<Rightarrow> cmanager \<Rightarrow> cmanager" where
  "layout_all sz nothing zoom right c =
     (case cm_items c of
        [] \<Rightarrow> c
      | a # as \<Rightarrow>
          (let v = cm_view c; start = layer_pt v (thread_place v right [a])
           in checkBounds sz nothing (c\<lparr>cm_items := concat (fst (layout_down sz v right
                (threads (map (at_zoom (cm_grid c) zoom) (a # as))) (new_bounds start start)))\<rparr>)))"

definition doLayout :: "sconf \<Rightarrow> asize \<Rightarrow> bool \<Rightarrow> bool \<Rightarrow> cmanager \<Rightarrow> cmanager" where
  "doLayout cf sz nothing zoom c =
     (let c = updateScaling cf c
      in case (mv_docBounds (cm_view c), mv_loaded (cm_view c)) of
           (Some db, True) \<Rightarrow>
             (let right = px (project (cm_view c) (northEast db) None)
              in case selected_now c of
                   Some s \<Rightarrow> layout_selected cf sz nothing zoom right s c
                 | None \<Rightarrow> layout_all sz nothing zoom right c)
         | _ \<Rightarrow> cm_throws c)"

definition cm_layout :: "sconf \<Rightarrow> asize \<Rightarrow> bool \<Rightarrow> bool \<Rightarrow> cmanager \<Rightarrow> cmanager" where
  "cm_layout cf sz nothing zoom c = (if zoom then doLayout cf sz nothing True c else c\<lparr>cm_timer := True\<rparr>)"


section \<open>Operations of the manager\<close>

definition anchor_key :: "anno \<Rightarrow> real \<times> real" where
  "anchor_key a = (let p = bmin (ad_pos (an_data a)) in (\<bar>py p\<bar>, \<bar>px p\<bar>))"

text \<open>\<open>Array.sort\<close> keeps the order of annotations at the same place.\<close>

definition sort_items :: "cmanager \<Rightarrow> cmanager" where
  "sort_items c = c\<lparr>cm_items := sort_key anchor_key (cm_items c)\<rparr>"

definition new_anno :: "latlng \<Rightarrow> adata \<Rightarrow> cmanager \<Rightarrow> anno \<times> cmanager" where
  "new_anno p d c =
     (\<lparr>an_key = cm_next c, an_data = d, an_latlng = p, an_visible = False, an_mode = Reading, an_marked = False,
       an_origText = ad_text d, an_typed = None, an_replyText = [], an_scale = 1\<rparr>, c\<lparr>cm_next := Suc (cm_next c)\<rparr>)"

definition cm_clear :: "cmanager \<Rightarrow> cmanager" where
  "cm_clear c = (drop_items (\<lambda>a. \<not> ad_change (an_data a)) c)\<lparr>cm_selected := None, cm_arrow := None\<rparr>"

definition clearChanges :: "cmanager \<Rightarrow> cmanager" where
  "clearChanges = drop_items (\<lambda>a. ad_change (an_data a))"

text \<open>\<open>fill\<close> and \<open>fillChanges\<close>: a message that throws ends the loop and the function.\<close>

fun fill_items :: "(cmsg \<Rightarrow> cmanager \<Rightarrow> adata option option) \<Rightarrow> cmsg list \<Rightarrow> cmanager \<Rightarrow> cmanager \<times> bool" where
  "fill_items adjust [] c = (c, True)"
| "fill_items adjust (m # ms) c = (case (adjust m c, mv_docBounds (cm_view c)) of
      (Some None, _) \<Rightarrow> fill_items adjust ms c
    | (Some (Some d), Some db) \<Rightarrow>
        (let (a, c) = new_anno (getSouthEast db) d c in fill_items adjust ms (c\<lparr>cm_items := cm_items c @ [a]\<rparr>))
    | _ \<Rightarrow> (cm_throws c, False))"

definition fill_with :: "sconf \<Rightarrow> asize \<Rightarrow> bool \<Rightarrow> (cmsg \<Rightarrow> cmanager \<Rightarrow> adata option option) \<Rightarrow> cmsg list \<Rightarrow> cmanager \<Rightarrow> cmanager" where
  "fill_with cf sz nothing adjust ms c =
     (let ordered = (cm_items c = []); (c, done') = fill_items adjust ms c
      in if \<not> done' \<or> cm_items c = [] then c
         else cm_layout cf sz nothing False (if ordered then c else sort_items c))"

definition cm_fill :: "sconf \<Rightarrow> asize \<Rightarrow> bool \<Rightarrow> cmsg list \<Rightarrow> cmanager \<Rightarrow> cmanager" where
  "cm_fill cf sz nothing ms c = fill_with cf sz nothing (\<lambda>m c. map_option Some (adjustComment m c)) ms (cm_clear c)"

definition fillChanges :: "sconf \<Rightarrow> asize \<Rightarrow> bool \<Rightarrow> cmsg list \<Rightarrow> cmanager \<Rightarrow> cmanager" where
  "fillChanges cf sz nothing ms c = fill_with cf sz nothing adjustRedLine ms (clearChanges c)"

text \<open>Selecting an annotation selects the first of its thread.\<close>

definition cm_update :: "sconf \<Rightarrow> asize \<Rightarrow> bool \<Rightarrow> cmanager \<Rightarrow> cmanager" where
  "cm_update cf sz nothing c = cm_layout cf sz nothing False (if cm_selected c = None then c\<lparr>cm_arrow := None\<rparr> else c)"

definition selectById :: "sconf \<Rightarrow> asize \<Rightarrow> bool \<Rightarrow> string \<Rightarrow> cmanager \<Rightarrow> cmanager" where
  "selectById cf sz nothing k c =
     cm_update cf sz nothing (c\<lparr>cm_selected := map_option (\<lambda>i. cm_items c ! i) (getRootIndexOf k (cm_items c))\<rparr>)"

definition cm_unselect :: "sconf \<Rightarrow> asize \<Rightarrow> bool \<Rightarrow> cmanager \<Rightarrow> cmanager" where
  "cm_unselect cf sz nothing c = (if cm_selected c = None then c else cm_update cf sz nothing (c\<lparr>cm_selected := None\<rparr>))"

definition updateDocBounds :: "bool \<Rightarrow> cmanager \<Rightarrow> cmanager" where
  "updateDocBounds nothing c = (if cm_items c = [] then updatemaxbounds nothing None c else c)"

definition has_parent :: "adata \<Rightarrow> bool" where
  "has_parent d \<longleftrightarrow> (case ad_parent d of None \<Rightarrow> False | Some p \<Rightarrow> p \<noteq> [] \<and> str_less ''0'' p)"

text \<open>\<open>add\<close>: behind the comment it answers, or at the end, and sorted. Without the one it answers, it goes to the
  front.\<close>

definition insert_at :: "nat \<Rightarrow> 'a \<Rightarrow> 'a list \<Rightarrow> 'a list" where
  "insert_at i x xs = take i xs @ x # drop i xs"

definition cm_add :: "adata \<Rightarrow> cmanager \<Rightarrow> anno \<times> cmanager" where
  "cm_add d c =
     (let (a, c) = new_anno (twipsToLatLng (cm_grid c) (bounds_getTopRight (ad_pos d)) None) d c;
          pos = (case index_of (or_empty (ad_parent d)) (cm_items c) of None \<Rightarrow> 0 | Some i \<Rightarrow> Suc i);
          items = (if has_parent d then insert_at pos a (cm_items c) else cm_items c @ [a])
      in (a, sort_items (c\<lparr>cm_items := items\<rparr>)))"

text \<open>Replies to one comment are kept as a chain: what followed it now follows the new one, and what followed a
  comment that goes follows the one before it.\<close>

definition set_parent :: "nat \<Rightarrow> string \<Rightarrow> anno list \<Rightarrow> anno list" where
  "set_parent i p as = as[i := (as ! i)\<lparr>an_data := (an_data (as ! i))\<lparr>ad_parent := Some p\<rparr>\<rparr>]"

definition adjustParentAdd :: "adata \<Rightarrow> cmanager \<Rightarrow> cmanager" where
  "adjustParentAdd d c =
     (if \<not> has_parent d then c
      else (case index_of (or_empty (ad_parent d)) (cm_items c) of
          None \<Rightarrow> c
        | Some i \<Rightarrow>
            if Suc i < length (cm_items c) \<and> linked (cm_items c ! i) (cm_items c ! Suc i)
            then c\<lparr>cm_items := set_parent (Suc i) (ad_id d) (cm_items c)\<rparr> else c))"

definition adjustParentRemove :: "anno \<Rightarrow> cmanager \<Rightarrow> cmanager" where
  "adjustParentRemove a c =
     (let newId = (case Option.bind (ad_parent (an_data a)) (\<lambda>p. index_of p (cm_items c)) of
                     None \<Rightarrow> ''0'' | Some i \<Rightarrow> ad_id (an_data (cm_items c ! i)))
      in case index_of (ad_id (an_data a)) (cm_items c) of
           None \<Rightarrow> c
         | Some i \<Rightarrow>
             if Suc i < length (cm_items c) \<and> linked (cm_items c ! i) (cm_items c ! Suc i)
             then c\<lparr>cm_items := set_parent (Suc i) newId (cm_items c)\<rparr> else c)"

text \<open>The first annotation with an identifier is taken out of the list and off the map.\<close>

definition removeItem :: "string \<Rightarrow> cmanager \<Rightarrow> cmanager" where
  "removeItem k c = (case index_of k (cm_items c) of
      None \<Rightarrow> cm_throws c
    | Some i \<Rightarrow> c\<lparr>cm_selected := selected_now c, cm_items := take i (cm_items c) @ drop (Suc i) (cm_items c)\<rparr>)"

definition setData :: "adata \<Rightarrow> anno \<Rightarrow> anno" where
  "setData d a = a\<lparr>an_data := d, an_marked := False, an_origText := ad_text d\<rparr>"

section \<open>Messages about one annotation\<close>

text \<open>A comment or a change (\<open>k_change\<close>) was added, removed or modified.\<close>

record ack =
  k_change :: bool
  k_action :: string
  k_msg :: cmsg

definition ack_id :: "ack \<Rightarrow> string" where
  "ack_id k = (if k_change k then change_id (m_index (k_msg k)) else m_id (k_msg k))"

definition ack_data :: "ack \<Rightarrow> cmanager \<Rightarrow> adata option option" where
  "ack_data k c = (if k_change k then adjustRedLine (k_msg k) c else map_option Some (adjustComment (k_msg k) c))"

definition ack_add :: "sconf \<Rightarrow> asize \<Rightarrow> bool \<Rightarrow> ack \<Rightarrow> cmanager \<Rightarrow> cmanager" where
  "ack_add cf sz nothing k c = (case ack_data k c of
      None \<Rightarrow> cm_throws c
    | Some None \<Rightarrow> c
    | Some (Some d) \<Rightarrow>
        (let c = snd (cm_add d (if k_change k then c else adjustParentAdd d c));
             c = (case selected_now c of None \<Rightarrow> c | Some s \<Rightarrow> if isEdit s then c else cm_focus c)
         in cm_layout cf sz nothing False c))"

definition ack_remove :: "sconf \<Rightarrow> asize \<Rightarrow> bool \<Rightarrow> ack \<Rightarrow> cmanager \<Rightarrow> cmanager" where
  "ack_remove cf sz nothing k c =
     updateDocBounds nothing (case index_of (ack_id k) (cm_items c) of
         None \<Rightarrow> c
       | Some i \<Rightarrow>
           (let a = cm_items c ! i; c = removeItem (ack_id k) (adjustParentRemove a c)
            in if is_selected (an_key a) c then cm_unselect cf sz nothing c else cm_layout cf sz nothing False c))"

definition ack_modify :: "sconf \<Rightarrow> asize \<Rightarrow> bool \<Rightarrow> ack \<Rightarrow> cmanager \<Rightarrow> cmanager" where
  "ack_modify cf sz nothing k c = (case index_of (ack_id k) (cm_items c) of
      None \<Rightarrow> c
    | Some i \<Rightarrow>
        (case ack_data k c of
           None \<Rightarrow> cm_throws c
         | Some None \<Rightarrow> c
         | Some (Some d) \<Rightarrow>
             (let a = setData d (cm_items c ! i); c = c\<lparr>cm_items := (cm_items c)[i := a]\<rparr>
              in case anno_checkBounds sz nothing a c of
                   None \<Rightarrow> cm_throws c
                 | Some c \<Rightarrow> cm_update cf sz nothing c)))"

definition onACKComment :: "sconf \<Rightarrow> asize \<Rightarrow> bool \<Rightarrow> ack \<Rightarrow> cmanager \<Rightarrow> cmanager" where
  "onACKComment cf sz nothing k c =
     (if k_action k = ''Add'' then ack_add cf sz nothing k c
      else if k_action k = ''Remove'' then ack_remove cf sz nothing k c
      else if k_action k = ''Modify'' then ack_modify cf sz nothing k c
      else c)"


section \<open>What the user does with a comment\<close>

text \<open>\<open>modify\<close> and \<open>reply\<close> of the manager, with \<open>edit\<close>, \<open>reply\<close> and \<open>focus\<close> of the annotation.\<close>

definition anno_edit :: "anno \<Rightarrow> anno" where
  "anno_edit a = a\<lparr>an_visible := True, an_mode := Editing\<rparr>"

definition anno_reply :: "anno \<Rightarrow> anno" where
  "anno_reply a = a\<lparr>an_visible := True, an_mode := Replying\<rparr>"

definition cm_select :: "sconf \<Rightarrow> asize \<Rightarrow> bool \<Rightarrow> anno \<Rightarrow> cmanager \<Rightarrow> cmanager" where
  "cm_select cf sz nothing a = selectById cf sz nothing (ad_id (an_data a))"

definition cm_modify :: "sconf \<Rightarrow> asize \<Rightarrow> bool \<Rightarrow> anno \<Rightarrow> cmanager \<Rightarrow> cmanager" where
  "cm_modify cf sz nothing a c = cm_select cf sz nothing a (change_anno (an_key a) anno_edit c)"

definition cm_reply :: "sconf \<Rightarrow> asize \<Rightarrow> bool \<Rightarrow> anno \<Rightarrow> cmanager \<Rightarrow> cmanager" where
  "cm_reply cf sz nothing a c = cm_select cf sz nothing a (change_anno (an_key a) anno_reply c)"

text \<open>Every command of the manager ends like this.\<close>

definition uno_unselect ::
  "sconf \<Rightarrow> (string \<Rightarrow> string \<Rightarrow> string) \<Rightarrow> asize \<Rightarrow> bool \<Rightarrow> string \<Rightarrow> (string \<times> string \<times> ujson) list \<Rightarrow> cmanager \<Rightarrow> cmanager" where
  "uno_unselect cf target sz nothing command args c =
     cm_focus (cm_unselect cf sz nothing (cm_uno cf target command args c))"

definition cm_remove :: "sconf \<Rightarrow> (string \<Rightarrow> string \<Rightarrow> string) \<Rightarrow> asize \<Rightarrow> bool \<Rightarrow> string \<Rightarrow> cmanager \<Rightarrow> cmanager" where
  "cm_remove cf target sz nothing k =
     uno_unselect cf target sz nothing ''.uno:DeleteComment'' [(''Id'', ''string'', UStr k)]"

definition onRedline :: "sconf \<Rightarrow> (string \<Rightarrow> string \<Rightarrow> string) \<Rightarrow> asize \<Rightarrow> bool \<Rightarrow> bool \<Rightarrow> string \<Rightarrow> cmanager \<Rightarrow> cmanager" where
  "onRedline cf target sz nothing accept k =
     (let name = (if accept then ''AcceptTrackedChange'' else ''RejectTrackedChange'')
      in uno_unselect cf target sz nothing (''.uno:'' @ name)
           [(name, ''unsigned short'', UStr (drop (length ''change-'') k))])"

definition onAnnotationCancel :: "sconf \<Rightarrow> asize \<Rightarrow> bool \<Rightarrow> anno \<Rightarrow> cmanager \<Rightarrow> cmanager" where
  "onAnnotationCancel cf sz nothing a c =
     (let c = (if ad_id (an_data a) = ''new'' then updateDocBounds nothing (removeItem ''new'' c) else c)
      in cm_focus (if is_selected (an_key a) c then cm_unselect cf sz nothing c else cm_layout cf sz nothing False c))"

definition onAnnotationReply :: "sconf \<Rightarrow> (string \<Rightarrow> string \<Rightarrow> string) \<Rightarrow> asize \<Rightarrow> bool \<Rightarrow> anno \<Rightarrow> cmanager \<Rightarrow> cmanager" where
  "onAnnotationReply cf target sz nothing a =
     uno_unselect cf target sz nothing ''.uno:ReplyComment''
       [(''Id'', ''string'', UStr (ad_id (an_data a))), (''Text'', ''string'', UStr (ad_reply (an_data a)))]"

definition onAnnotationSave :: "sconf \<Rightarrow> (string \<Rightarrow> string \<Rightarrow> string) \<Rightarrow> asize \<Rightarrow> bool \<Rightarrow> anno \<Rightarrow> cmanager \<Rightarrow> cmanager" where
  "onAnnotationSave cf target sz nothing a c =
     (let d = an_data a; saved = (''Text'', ''string'', UStr (ad_text d))
      in cm_focus (cm_unselect cf sz nothing
           (if ad_id d = ''new'' then
              removeItem ''new'' (cm_uno cf target ''.uno:InsertAnnotation'' [saved, (''Author'', ''string'', UStr (ad_author d))] c)
            else if ad_change d then
              cm_uno cf target ''.uno:CommentChangeTracking'' [(''ChangeTrackingId'', ''long'', UInt (ad_index d)), saved] c
            else cm_uno cf target ''.uno:EditAnnotation'' [(''Id'', ''string'', UStr (ad_id d)), saved] c)))"

definition onAnnotationZoom :: "sconf \<Rightarrow> asize \<Rightarrow> bool \<Rightarrow> cmanager \<Rightarrow> cmanager" where
  "onAnnotationZoom cf sz nothing c = cm_layout cf sz nothing True (updatemaxbounds nothing None c)"

text \<open>The handlers of one annotation, on its state in the list.\<close>

definition edited_text :: "anno \<Rightarrow> string" where
  "edited_text a = (case an_typed a of None \<Rightarrow> an_origText a | Some t \<Rightarrow> t)"

definition put_anno :: "anno \<Rightarrow> cmanager \<Rightarrow> cmanager" where
  "put_anno a = change_anno (an_key a) (\<lambda>_. a)"

definition shown_then :: "asize \<Rightarrow> bool \<Rightarrow> anno \<Rightarrow> (cmanager \<Rightarrow> cmanager) \<Rightarrow> cmanager \<Rightarrow> cmanager" where
  "shown_then sz nothing a f c = (case anno_checkBounds sz nothing a (put_anno a c) of
      None \<Rightarrow> cm_throws (put_anno a c)
    | Some c \<Rightarrow> f c)"

definition onCancelClick :: "sconf \<Rightarrow> asize \<Rightarrow> bool \<Rightarrow> anno \<Rightarrow> cmanager \<Rightarrow> cmanager" where
  "onCancelClick cf sz nothing a c =
     (let a = anno_show (a\<lparr>an_typed := Some (an_origText a), an_replyText := []\<rparr>)
      in onAnnotationCancel cf sz nothing a (put_anno a c))"

definition onSaveComment :: "sconf \<Rightarrow> (string \<Rightarrow> string \<Rightarrow> string) \<Rightarrow> asize \<Rightarrow> bool \<Rightarrow> anno \<Rightarrow> cmanager \<Rightarrow> cmanager" where
  "onSaveComment cf target sz nothing a =
     (let t = edited_text a; a = anno_show (a\<lparr>an_data := (an_data a)\<lparr>ad_text := t\<rparr>, an_origText := t\<rparr>)
      in shown_then sz nothing a (onAnnotationSave cf target sz nothing a))"

definition onReplyClick :: "sconf \<Rightarrow> (string \<Rightarrow> string \<Rightarrow> string) \<Rightarrow> asize \<Rightarrow> bool \<Rightarrow> anno \<Rightarrow> cmanager \<Rightarrow> cmanager" where
  "onReplyClick cf target sz nothing a =
     (let a = anno_show (a\<lparr>an_data := (an_data a)\<lparr>ad_reply := an_replyText a\<rparr>, an_replyText := []\<rparr>)
      in shown_then sz nothing a (onAnnotationReply cf target sz nothing a))"

definition onLostFocus :: "sconf \<Rightarrow> (string \<Rightarrow> string \<Rightarrow> string) \<Rightarrow> asize \<Rightarrow> bool \<Rightarrow> anno \<Rightarrow> cmanager \<Rightarrow> cmanager" where
  "onLostFocus cf target sz nothing a =
     (if an_origText a \<noteq> edited_text a then onSaveComment cf target sz nothing a
      else if edited_text a = [] then onCancelClick cf sz nothing a
      else id)"

definition onLostFocusReply :: "sconf \<Rightarrow> (string \<Rightarrow> string \<Rightarrow> string) \<Rightarrow> asize \<Rightarrow> bool \<Rightarrow> anno \<Rightarrow> cmanager \<Rightarrow> cmanager" where
  "onLostFocusReply cf target sz nothing a = (if an_replyText a \<noteq> [] then onReplyClick cf target sz nothing a else id)"

text \<open>A new comment, at the cursor while it is visible. Its date is today's.\<close>

definition newAnnotation :: "sconf \<Rightarrow> asize \<Rightarrow> bool \<Rightarrow> string \<Rightarrow> jsval \<Rightarrow> string \<Rightarrow> cmanager \<Rightarrow> cmanager" where
  "newAnnotation cf sz nothing author avatar date c =
     (if \<not> l_isCursorVisible (u_layer (cm_users c)) then c
      else
        let g = cm_grid c; cursor = u_visibleCursor (cm_users c);
            pos = new_bounds (ipt (latLngToTwips g (southWest cursor) None)) (ipt (latLngToTwips g (northEast cursor) None));
            (a, c) = cm_add \<lparr>ad_id = ''new'', ad_parent = None, ad_author = author, ad_text = [], ad_reply = [], ad_date = date,
                       ad_index = 0, ad_change = False, ad_avatar = avatar, ad_pos = pos,
                       ad_pix = twipsToPixels g (bmin pos), ad_areas = []\<rparr> c
        in cm_modify cf sz nothing a c)"

definition insertComment :: "sconf \<Rightarrow> asize \<Rightarrow> bool \<Rightarrow> string \<Rightarrow> cmanager \<Rightarrow> cmanager" where
  "insertComment cf sz nothing date c =
     (case (case l_viewId (u_layer (cm_users c)) of Num i \<Rightarrow> obj_get (u_info (cm_users c)) i | NaN \<Rightarrow> None) of
        None \<Rightarrow> cm_throws c
      | Some vi \<Rightarrow> newAnnotation cf sz nothing (vi_username vi) (avatar_of (vi_username vi) c) date c)"

section \<open>The events of a text document\<close>

text \<open>What happens to one box: the field's text is changed (\<open>Type\<close>, \<open>TypeReply\<close>), a field loses the focus, a button,
  the menu or the box is clicked.\<close>

datatype box_event = Type string | TypeReply string | Blur | BlurReply | Cancel | Save | SendReply | Click |
  Modify | Reply | Remove | Accept | Reject

datatype cm_event = Box nat box_event | Ack ack | Fill "cmsg list" | FillChanges "cmsg list" | Insert string |
  Tick | Zoomed | Scrolled | Unselect | ClearAll

definition box_step :: "sconf \<Rightarrow> (string \<Rightarrow> string \<Rightarrow> string) \<Rightarrow> asize \<Rightarrow> bool \<Rightarrow> anno \<Rightarrow> box_event \<Rightarrow> cmanager \<Rightarrow> cmanager" where
  "box_step cf target sz nothing a e = (case e of
      Type t \<Rightarrow> put_anno (a\<lparr>an_typed := Some t\<rparr>)
    | TypeReply t \<Rightarrow> put_anno (a\<lparr>an_replyText := t\<rparr>)
    | Blur \<Rightarrow> onLostFocus cf target sz nothing a
    | BlurReply \<Rightarrow> onLostFocusReply cf target sz nothing a
    | Cancel \<Rightarrow> onCancelClick cf sz nothing a
    | Save \<Rightarrow> onSaveComment cf target sz nothing a
    | SendReply \<Rightarrow> onReplyClick cf target sz nothing a
    | Click \<Rightarrow> cm_select cf sz nothing a
    | Modify \<Rightarrow> cm_modify cf sz nothing a
    | Reply \<Rightarrow> cm_reply cf sz nothing a
    | Remove \<Rightarrow> cm_remove cf target sz nothing (ad_id (an_data a))
    | Accept \<Rightarrow> onRedline cf target sz nothing True (ad_id (an_data a))
    | Reject \<Rightarrow> onRedline cf target sz nothing False (ad_id (an_data a)))"

text \<open>A box that is not on the map gets no events. The timer lays out without a zoom.\<close>

definition cm_step :: "sconf \<Rightarrow> (string \<Rightarrow> string \<Rightarrow> string) \<Rightarrow> asize \<Rightarrow> bool \<Rightarrow> cm_event \<Rightarrow> cmanager \<Rightarrow> cmanager" where
  "cm_step cf target sz nothing e c = (case e of
      Box k b \<Rightarrow> (case find (\<lambda>a. an_key a = k) (cm_items c) of None \<Rightarrow> c | Some a \<Rightarrow> box_step cf target sz nothing a b c)
    | Ack k \<Rightarrow> onACKComment cf sz nothing k c
    | Fill ms \<Rightarrow> cm_fill cf sz nothing ms c
    | FillChanges ms \<Rightarrow> fillChanges cf sz nothing ms c
    | Insert date \<Rightarrow> insertComment cf sz nothing date c
    | Tick \<Rightarrow> (if cm_timer c then doLayout cf sz nothing False (c\<lparr>cm_timer := False\<rparr>) else c)
    | Zoomed \<Rightarrow> onAnnotationZoom cf sz nothing c
    | Scrolled \<Rightarrow> cm_layout cf sz nothing False c
    | Unselect \<Rightarrow> cm_unselect cf sz nothing c
    | ClearAll \<Rightarrow> clearChanges (cm_clear c))"

definition cm_run :: "sconf \<Rightarrow> (string \<Rightarrow> string \<Rightarrow> string) \<Rightarrow> asize \<Rightarrow> bool \<Rightarrow> cm_event list \<Rightarrow> cmanager \<Rightarrow> cmanager" where
  "cm_run cf target sz nothing = fold (cm_step cf target sz nothing)"

section \<open>An example\<close>

text \<open>Three comments in one thread, on a loaded map whose document is known.\<close>

definition demo_anno :: "nat \<Rightarrow> string \<Rightarrow> string \<Rightarrow> string \<Rightarrow> anno" where
  "demo_anno n k parent text =
     \<lparr>an_key = n,
      an_data = \<lparr>ad_id = k, ad_parent = Some parent, ad_author = ''A'', ad_text = text, ad_reply = [], ad_date = ''2020-01-01'',
        ad_index = 0, ad_change = False, ad_avatar = JUndef, ad_pos = new_bounds (pt 100 200) (pt 300 400),
        ad_pix = pt 7 13, ad_areas = []\<rparr>,
      an_latlng = ll 0 0, an_visible = False, an_mode = Reading, an_marked = False, an_origText = text, an_typed = None,
      an_replyText = [], an_scale = 1\<rparr>"

definition demo_comments :: cmanager where
  "demo_comments =
     \<lparr>cm_users = on_layer (on_grid (\<lambda>g. g\<lparr>g_view := (g_view g)\<lparr>mv_docBounds := Some (new_llbounds (ll (- 64) 0) (ll 0 64))\<rparr>\<rparr>)) demo_users,
      cm_items = [demo_anno 0 ''1'' ''0'' ''one'', demo_anno 1 ''2'' ''1'' ''two'', demo_anno 2 ''3'' ''2'' ''three''],
      cm_selected = None, cm_arrow = None, cm_timer = False, cm_measured = False, cm_next = 3\<rparr>"

definition demo_removed :: ack where
  "demo_removed = \<lparr>k_change = False, k_action = ''Remove'',
     k_msg = \<lparr>m_id = ''2'', m_parent = None, m_author = [], m_text = [], m_date = [], m_anchorPos = None, m_textRange = None, m_index = 0\<rparr>\<rparr>"

end
