(* ===== verification/CommentThreads.thy ===== *)
theory CommentThreads
  imports Comments
begin

text \<open>
  The threads of the comments: with the messages a server sends, a reply is always directly behind what it answers,
  the list is sorted by the places in the document, and nothing the user does and no layout changes this.
\<close>

section \<open>What a thread is made of\<close>

definition placed :: "anno \<Rightarrow> string \<times> string option \<times> bounds \<times> nat" where
  "placed a = (ad_id (an_data a), ad_parent (an_data a), ad_pos (an_data a), an_key a)"

definition same_threads :: "anno list \<Rightarrow> anno list \<Rightarrow> bool" where
  "same_threads as bs \<longleftrightarrow> map placed as = map placed bs"

definition ids :: "anno list \<Rightarrow> string list" where
  "ids = map (\<lambda>a. ad_id (an_data a))"

definition is_id :: "string \<Rightarrow> bool" where
  "is_id k \<longleftrightarrow> k \<noteq> [] \<and> str_less ''0'' k"

definition answers :: "anno \<Rightarrow> anno \<Rightarrow> bool" where
  "answers a b \<longleftrightarrow> linked a b \<and> anchor_key a = anchor_key b"

text \<open>Behind \<open>p\<close>, each reply follows what it answers.\<close>

fun chained :: "anno option \<Rightarrow> anno list \<Rightarrow> bool" where
  "chained p [] = True"
| "chained p (a # as) =
     ((has_parent (an_data a) \<longrightarrow> (case p of None \<Rightarrow> False | Some q \<Rightarrow> answers q a)) \<and> chained (Some a) as)"

definition threads_ok :: "anno list \<Rightarrow> bool" where
  "threads_ok as \<longleftrightarrow> distinct (ids as) \<and> list_all is_id (ids as) \<and>
     list_all (\<lambda>a. ad_parent (an_data a) \<noteq> Some ''new'') as \<and> sorted (map anchor_key as) \<and> chained None as"

lemma same_threads_refl [simp]: "same_threads as as"
  by (simp add: same_threads_def)

lemma same_threads_trans: "same_threads as bs \<Longrightarrow> same_threads bs cs \<Longrightarrow> same_threads as cs"
  by (simp add: same_threads_def)

lemma same_threads_Nil [simp]: "same_threads [] bs \<longleftrightarrow> bs = []" "same_threads as [] \<longleftrightarrow> as = []"
  by (auto simp: same_threads_def)

lemma same_threads_Cons [simp]: "same_threads (a # as) (b # bs) \<longleftrightarrow> placed a = placed b \<and> same_threads as bs"
  by (simp add: same_threads_def)

lemma same_threads_append:
  "same_threads as bs \<Longrightarrow> same_threads cs ds \<Longrightarrow> same_threads (as @ cs) (bs @ ds)"
  by (simp add: same_threads_def)

lemma same_threads_map: "(\<And>a. a \<in> set as \<Longrightarrow> placed (f a) = placed a) \<Longrightarrow> same_threads (map f as) as"
  by (simp add: same_threads_def)

lemma placed_linked: "placed a = placed a' \<Longrightarrow> placed b = placed b' \<Longrightarrow> linked a b = linked a' b'"
  by (simp add: placed_def linked_def)

lemma placed_answers: "placed a = placed a' \<Longrightarrow> placed b = placed b' \<Longrightarrow> answers a b = answers a' b'"
  by (simp add: placed_def linked_def answers_def anchor_key_def)

lemma placed_parent: "placed a = placed b \<Longrightarrow> has_parent (an_data a) = has_parent (an_data b)"
  by (simp add: placed_def has_parent_def)

lemma chained_same:
  "same_threads as bs \<Longrightarrow> rel_option (\<lambda>a b. placed a = placed b) p q \<Longrightarrow> chained p as = chained q bs"
proof (induction as arbitrary: bs p q)
  case (Cons a as)
  then obtain b bs' where b: "bs = b # bs'" "placed a = placed b" "same_threads as bs'" by (cases bs) auto
  show ?case using Cons.IH [OF b(3), of "Some a" "Some b"] Cons.prems(2) b placed_parent [OF b(2)]
    by (cases p; cases q) (auto simp: placed_answers [OF _ b(2)])
qed simp

lemma same_ids: "same_threads as bs \<Longrightarrow> ids as = ids bs"
proof -
  assume "same_threads as bs"
  hence "map fst (map placed as) = map fst (map placed bs)" by (simp add: same_threads_def)
  thus ?thesis by (simp add: ids_def placed_def o_def)
qed

lemma same_parents: "same_threads as bs \<Longrightarrow> map (\<lambda>a. ad_parent (an_data a)) as = map (\<lambda>a. ad_parent (an_data a)) bs"
proof -
  assume "same_threads as bs"
  hence "map (fst \<circ> snd) (map placed as) = map (fst \<circ> snd) (map placed bs)" by (simp add: same_threads_def)
  thus ?thesis by (simp add: placed_def o_def)
qed

lemma same_keys: "same_threads as bs \<Longrightarrow> map anchor_key as = map anchor_key bs"
proof -
  assume "same_threads as bs"
  hence "map (\<lambda>t. let p = bmin (fst (snd (snd t))) in (\<bar>py p\<bar>, \<bar>px p\<bar>)) (map placed as)
       = map (\<lambda>t. let p = bmin (fst (snd (snd t))) in (\<bar>py p\<bar>, \<bar>px p\<bar>)) (map placed bs)" by (simp add: same_threads_def)
  thus ?thesis by (simp add: placed_def anchor_key_def [abs_def] o_def)
qed

lemma same_anno_keys: "same_threads as bs \<Longrightarrow> map an_key as = map an_key bs"
proof -
  assume "same_threads as bs"
  hence "map (snd \<circ> snd \<circ> snd) (map placed as) = map (snd \<circ> snd \<circ> snd) (map placed bs)" by (simp add: same_threads_def)
  thus ?thesis by (simp add: placed_def o_def)
qed

lemma threads_ok_same: "same_threads as bs \<Longrightarrow> threads_ok as = threads_ok bs"
proof -
  assume s: "same_threads as bs"
  have "list_all (\<lambda>p. p \<noteq> Some ''new'') (map (\<lambda>a. ad_parent (an_data a)) as)
      = list_all (\<lambda>p. p \<noteq> Some ''new'') (map (\<lambda>a. ad_parent (an_data a)) bs)" by (simp add: same_parents [OF s])
  thus ?thesis using same_ids [OF s] same_keys [OF s] chained_same [OF s, of None None]
    by (simp add: threads_ok_def list.pred_map o_def)
qed

section \<open>Layout keeps the threads\<close>

lemma placed_simps [simp]:
  "placed (anno_move p a) = placed a" "placed (anno_show a) = placed a" "placed (at_zoom g zoom a) = placed a"
  "placed (anno_edit a) = placed a" "placed (anno_reply a) = placed a" "placed (a\<lparr>an_scale := r\<rparr>) = placed a"
  "placed (a\<lparr>an_typed := t\<rparr>) = placed a" "placed (a\<lparr>an_replyText := u\<rparr>) = placed a" "placed (a\<lparr>an_origText := u\<rparr>) = placed a"
  by (simp_all add: placed_def anno_move_def anno_show_def at_zoom_def anno_edit_def anno_reply_def)

lemma place_thread_same: "same_threads (place_thread sz v as p) as"
  by (induction sz v as p rule: place_thread.induct) (auto simp: Let_def)

lemma layoutDown_same: "same_threads (fst (layoutDown sz v right as p lb)) as"
  by (simp add: layoutDown_def Let_def place_thread_same)

lemma layoutUp_same: "same_threads (fst (layoutUp sz v right as p lb)) as"
  by (simp add: layoutUp_def Let_def place_thread_same)

lemma concat_same: "list_all2 same_threads ts us \<Longrightarrow> same_threads (concat ts) (concat us)"
  by (induction ts us rule: list_all2_induct) (auto intro: same_threads_append)

lemma layout_down_same: "list_all2 same_threads (fst (layout_down sz v right ts lb)) ts"
  by (induction sz v right ts lb rule: layout_down.induct) (auto simp: Let_def layoutDown_same)

lemma layout_up_same: "list_all2 same_threads (fst (layout_up sz v right ts lb)) ts"
  by (induction sz v right ts lb rule: layout_up.induct) (auto simp: Let_def layoutUp_same)

lemma thread_split: "thread_end a bs @ after_thread a bs = bs"
  by (induction a bs rule: thread_end.induct) auto

lemma concat_threads: "concat (threads as) = as"
  by (induction as rule: threads.induct) (auto simp: thread_split)

lemma threads_Nil: "t \<in> set (threads as) \<Longrightarrow> t \<noteq> []"
  by (induction as rule: threads.induct) auto

lemma map_threads_same:
  "(\<And>t. t \<in> set ts \<Longrightarrow> same_threads (f t) t) \<Longrightarrow> list_all2 same_threads (map f ts) ts"
  by (induction ts) auto

lemma last_at_zoom_same: "t \<noteq> [] \<Longrightarrow> same_threads (last_at_zoom g zoom t) t"
  by (cases t rule: rev_cases) (auto simp: last_at_zoom_def intro: same_threads_append)

lemma first_at_zoom_same: "t \<noteq> [] \<Longrightarrow> same_threads (first_at_zoom g zoom t) t"
  by (cases t) (auto simp: first_at_zoom_def)

lemma list_all2_same_trans:
  "list_all2 same_threads ts us \<Longrightarrow> list_all2 same_threads us vs \<Longrightarrow> list_all2 same_threads ts vs"
  by (rule list_all2_trans [of same_threads same_threads same_threads]) (auto intro: same_threads_trans)

lemma place_children_same: "same_threads (fst (place_children sz v as lb)) as"
  by (induction sz v as lb rule: place_children.induct) (auto simp: Let_def)

lemma list_all2_rev_same: "list_all2 same_threads ts us \<Longrightarrow> list_all2 same_threads (rev ts) (rev us)"
  by simp

lemma split_at: "i \<le> j \<Longrightarrow> j < length as \<Longrightarrow>
  take i as @ (as ! i) # drop (Suc i) (take (Suc j) as) @ drop (Suc j) as = as"
proof -
  assume ij: "i \<le> j" "j < length as"
  have "take i as @ (as ! i) # drop (Suc i) (take (Suc j) as) = take i (take (Suc j) as) @ (take (Suc j) as ! i) # drop (Suc i) (take (Suc j) as)"
    using ij by (simp add: min_def)
  also have "\<dots> = take (Suc j) as" by (rule id_take_nth_drop [symmetric]) (use ij in simp)
  finally have "take i as @ (as ! i) # drop (Suc i) (take (Suc j) as) = take (Suc j) as" .
  hence "(take i as @ (as ! i) # drop (Suc i) (take (Suc j) as)) @ drop (Suc j) as = as" by simp
  thus ?thesis by simp
qed

lemma layout_around_same:
  assumes "layout_around cf sz g right zoom (i, j) as = Some (bs, arrow)" "i \<le> j" "j < length as"
  shows "same_threads bs as"
proof -
  obtain rt ch ts us lb lb' v where b: "bs = concat (rev (fst (layout_up sz v right (rev (map (last_at_zoom g zoom) ts)) lb))) @ rt # ch @
        concat (fst (layout_down sz v right (map (first_at_zoom g zoom) us) lb'))"
    and t: "ts = threads (take i as)" "us = threads (drop (Suc j) as)"
    and r: "placed rt = placed (as ! i)" and c: "same_threads ch (drop (Suc i) (take (Suc j) as))"
  proof -
    have c: "same_threads (fst (place_children sz v (map (at_zoom g zoom) xs) lb)) xs" for v xs lb
      by (rule same_threads_trans [OF place_children_same same_threads_map]) simp
    have p: "placed (anno_move p (at_zoom g zoom a)) = placed a" for p a by simp
    show thesis using assms(1) that
      by (auto simp: layout_around_def Let_def split_beta split: option.splits) (metis c p)
  qed
  have u: "list_all2 same_threads (rev (fst (layout_up sz v right (rev (map (last_at_zoom g zoom) ts)) lb))) ts"
  proof -
    have "list_all2 same_threads (rev (map (last_at_zoom g zoom) ts)) (rev ts)"
      using map_threads_same [of ts "last_at_zoom g zoom"] threads_Nil [of _ "take i as"] t(1) last_at_zoom_same by simp
    from list_all2_same_trans [OF layout_up_same this]
    have "list_all2 same_threads (fst (layout_up sz v right (rev (map (last_at_zoom g zoom) ts)) lb)) (rev ts)" .
    from list_all2_rev_same [OF this] show ?thesis by simp
  qed
  have d: "list_all2 same_threads (fst (layout_down sz v right (map (first_at_zoom g zoom) us) lb')) us"
    using list_all2_same_trans [OF layout_down_same, of "map (first_at_zoom g zoom) us" us sz v right lb']
      map_threads_same [of us "first_at_zoom g zoom"] threads_Nil [of _ "drop (Suc j) as"] t(2) first_at_zoom_same by blast
  have "same_threads bs (concat ts @ (as ! i) # drop (Suc i) (take (Suc j) as) @ concat us)"
    unfolding b by (intro same_threads_append concat_same u) (auto intro: same_threads_append concat_same c r d)
  also have "concat ts @ (as ! i) # drop (Suc i) (take (Suc j) as) @ concat us = as"
    by (simp add: t concat_threads split_at assms(2,3))
  finally show ?thesis .
qed


lemma index_of_bound: "index_of k as = Some i \<Longrightarrow> i < length as \<and> ad_id (an_data (as ! i)) = k"
  by (induction as arbitrary: i) (auto split: if_splits)

lemma index_of_None: "index_of k as = None \<longleftrightarrow> k \<notin> set (ids as)"
  by (induction as) (auto simp: ids_def)

lemma root_back_le: "root_back as k \<le> k"
  by (induction as k rule: root_back.induct) auto

lemma thread_end_length: "length (thread_end a bs) \<le> length bs"
  by (induction a bs rule: thread_end.induct) auto

lemma selected_thread_range: "selected_thread s as = Some (i, j) \<Longrightarrow> i \<le> j \<and> j < length as"
proof -
  assume a: "selected_thread s as = Some (i, j)"
  then obtain k where k: "index_of (ad_id (an_data s)) as = Some k" "i = root_back as k"
      "j = k + length (thread_end (as ! k) (drop (Suc k) as))"
    by (auto simp: selected_thread_def getRootIndexOf_def getLastChildIndexOf_def split: option.splits)
  show ?thesis using root_back_le [of as k] thread_end_length [of "as ! k" "drop (Suc k) as"] index_of_bound [OF k(1)] k
    by auto
qed

text \<open>What the operations do to the map and to the selection does not matter here.\<close>

lemma items_simps [simp]:
  "cm_items (on_cm f c) = cm_items c" "cm_items (cm_throws c) = cm_items c" "cm_items (cm_focus c) = cm_items c"
  "cm_items (cm_uno cf target command args c) = cm_items c" "cm_items (updatemaxbounds nothing extra c) = cm_items c"
  by (simp_all add: on_cm_def cm_throws_def cm_focus_def cm_uno_def updatemaxbounds_def)

lemma items_fit_bounds: "fit_bounds nothing b c = Some c' \<Longrightarrow> cm_items c' = cm_items c"
  by (auto simp: fit_bounds_def split: option.splits if_splits)

lemma items_checkBounds [simp]: "cm_items (checkBounds sz nothing c) = cm_items c"
  by (auto simp: checkBounds_def split: option.splits bind_splits dest: items_fit_bounds)

lemma items_anno_checkBounds: "anno_checkBounds sz nothing a c = Some c' \<Longrightarrow> cm_items c' = cm_items c"
  by (auto simp: anno_checkBounds_def split: if_splits dest: items_fit_bounds)

lemma updateDocBounds_items [simp]: "cm_items (updateDocBounds nothing c) = cm_items c"
  by (simp add: updateDocBounds_def)

lemma change_anno_same: "(\<And>a. placed (f a) = placed a) \<Longrightarrow> same_threads (cm_items (change_anno k f c)) (cm_items c)"
  by (simp add: change_anno_def same_threads_map)

lemma show_selected_same: "show_selected c = Some c' \<Longrightarrow> same_threads (cm_items c') (cm_items c)"
  by (auto simp: show_selected_def change_anno_same split: option.splits if_splits)

lemma updateScaling_same: "same_threads (cm_items (updateScaling cf c)) (cm_items c)"
proof -
  have e: "same_threads (map (\<lambda>(k, a). a\<lparr>an_scale := f k\<rparr>) (List.enumerate n as)) as" for f n as
    by (induction as arbitrary: n) auto
  show ?thesis by (simp add: updateScaling_def Let_def e)
qed

lemma layout_selected_same: "same_threads (cm_items (layout_selected cf sz nothing zoom right s c)) (cm_items c)"
proof (cases "Option.bind (selected_thread s (cm_items c)) (\<lambda>t. layout_around cf sz (cm_grid c) right zoom t (cm_items c))")
  case None thus ?thesis by (simp add: layout_selected_def)
next
  case (Some r)
  then obtain i j bs arrow where l: "layout_around cf sz (cm_grid c) right zoom (i, j) (cm_items c) = Some (bs, arrow)"
      "i \<le> j" "j < length (cm_items c)" and r: "r = (bs, arrow)"
    by (cases r) (auto split: bind_splits dest: selected_thread_range)
  note b = layout_around_same [OF l]
  have "same_threads (cm_items d) (cm_items c)" if "show_selected (c\<lparr>cm_items := bs, cm_arrow := Some arrow\<rparr>) = Some d" for d
    using show_selected_same [OF that] same_threads_trans [OF _ b] by simp
  thus ?thesis using Some b by (simp add: layout_selected_def r Let_def split: option.splits)
qed

lemma layout_all_same: "same_threads (cm_items (layout_all sz nothing zoom right c)) (cm_items c)"
proof (cases "cm_items c")
  case (Cons a as)
  let ?bs = "map (at_zoom (cm_grid c) zoom) (a # as)"
  have "same_threads (concat (fst (layout_down sz v right (threads ?bs) lb))) (concat (threads ?bs))" for v lb
    by (rule concat_same [OF layout_down_same])
  hence "same_threads (concat (fst (layout_down sz v right (threads ?bs) lb))) (a # as)" for v lb
    unfolding concat_threads by (rule same_threads_trans) (simp add: same_threads_map)
  thus ?thesis using Cons by (simp add: layout_all_def Let_def)
qed (simp add: layout_all_def)

lemma doLayout_same: "same_threads (cm_items (doLayout cf sz nothing zoom c)) (cm_items c)"
  using same_threads_trans [OF layout_selected_same updateScaling_same] same_threads_trans [OF layout_all_same updateScaling_same]
  by (auto simp: doLayout_def Let_def updateScaling_same split: option.splits bool.splits)

lemma cm_layout_same: "same_threads (cm_items (cm_layout cf sz nothing zoom c)) (cm_items c)"
  by (simp add: cm_layout_def doLayout_same)

lemma cm_layout_items [simp]: "cm_items (cm_layout cf sz nothing False c) = cm_items c"
  by (simp add: cm_layout_def)

lemma update_items [simp]: "cm_items (cm_update cf sz nothing c) = cm_items c"
  by (simp add: cm_update_def)

lemma unselect_items [simp]: "cm_items (cm_unselect cf sz nothing c) = cm_items c"
  by (simp add: cm_unselect_def)

lemma select_items [simp]: "cm_items (selectById cf sz nothing k c) = cm_items c" "cm_items (cm_select cf sz nothing a c) = cm_items c"
  by (simp_all add: selectById_def cm_select_def)

lemma uno_unselect_items [simp]: "cm_items (uno_unselect cf target sz nothing command args c) = cm_items c"
  by (simp add: uno_unselect_def)

section \<open>Taking a comment out and putting one in\<close>

fun last_of :: "anno option \<Rightarrow> anno list \<Rightarrow> anno option" where
  "last_of p [] = p"
| "last_of p (a # as) = last_of (Some a) as"

lemma chained_append: "chained p (as @ bs) \<longleftrightarrow> chained p as \<and> chained (last_of p as) bs"
  by (induction as arbitrary: p) auto

lemma last_of_snoc [simp]: "last_of p (as @ [a]) = Some a"
  by (induction as arbitrary: p) auto

lemma last_of_some: "last_of p as = Some q \<Longrightarrow> as = [] \<and> p = Some q \<or> as \<noteq> [] \<and> q = List.last as"
  by (induction as arbitrary: p) (auto split: if_splits)

lemma chained_no_parent: "bs = [] \<or> \<not> has_parent (an_data (List.hd bs)) \<Longrightarrow> chained p bs = chained q bs"
  by (cases bs) auto

lemma index_split:
  "index_of k as = Some i \<Longrightarrow> \<exists>us a vs. as = us @ a # vs \<and> length us = i \<and> ad_id (an_data a) = k \<and> k \<notin> set (ids us)"
proof (induction as arbitrary: i)
  case (Cons b as)
  show ?case
  proof (cases "ad_id (an_data b) = k")
    case True thus ?thesis using Cons.prems by (auto intro!: exI [of _ "[]"] simp: ids_def)
  next
    case False
    then obtain j where j: "index_of k as = Some j" "i = Suc j" using Cons.prems by auto
    from Cons.IH [OF j(1)] obtain us a vs where "as = us @ a # vs" "length us = j" "ad_id (an_data a) = k" "k \<notin> set (ids us)"
      by blast
    thus ?thesis using False j(2) by (intro exI [of _ "b # us"]) (auto simp: ids_def)
  qed
qed simp

lemma index_of_split: "k \<notin> set (ids us) \<Longrightarrow> ad_id (an_data a) = k \<Longrightarrow> index_of k (us @ a # vs) = Some (length us)"
  by (induction us) (auto simp: ids_def)

lemma sort_merges:
  assumes "sorted (map f (us @ vs))" "\<forall>x\<in>set us. f x \<le> f a" "\<forall>x\<in>set vs. f a < f x"
  shows "sort_key f ((us @ vs) @ [a]) = us @ a # vs"
proof (rule properties_for_sort_key)
  show "mset (us @ a # vs) = mset ((us @ vs) @ [a])" by simp
  show "sorted (map f (us @ a # vs))" using assms by (auto simp: sorted_append less_imp_le)
  fix k assume "k \<in> set (us @ a # vs)"
  show "filter (\<lambda>x. f k = f x) (us @ a # vs) = filter (\<lambda>x. f k = f x) ((us @ vs) @ [a])"
    using assms(3) by (auto simp: filter_empty_conv less_le)
qed


lemma key_le_split:
  assumes "sorted (map f as)"
  obtains us vs where "as = us @ vs" "\<forall>x\<in>set us. f x \<le> k" "\<forall>x\<in>set vs. k < f x"
proof
  let ?us = "takeWhile (\<lambda>x. f x \<le> k) as" and ?vs = "dropWhile (\<lambda>x. f x \<le> k) as"
  show "as = ?us @ ?vs" by simp
  show "\<forall>x\<in>set ?us. f x \<le> k" by (auto dest: set_takeWhileD)
  show "\<forall>x\<in>set ?vs. k < f x"
  proof (cases ?vs)
    case (Cons v vs)
    have "k < f v" using hd_dropWhile [of "\<lambda>x. f x \<le> k" as] Cons by simp
    moreover have "sorted (map f ?vs)" using assms by (metis append_take_drop_id map_append sorted_append takeWhile_dropWhile_id)
    ultimately show ?thesis unfolding Cons by (auto intro: less_le_trans)
  qed (metis empty_iff empty_set)
qed

lemma threads_okI:
  "distinct (ids as) \<Longrightarrow> list_all is_id (ids as) \<Longrightarrow> list_all (\<lambda>a. ad_parent (an_data a) \<noteq> Some ''new'') as \<Longrightarrow>
   sorted (map anchor_key as) \<Longrightarrow> chained None as \<Longrightarrow> threads_ok as"
  by (simp add: threads_ok_def)

lemma not_linked_root:
  "chained (Some a) (n # r) \<Longrightarrow> \<not> linked a n \<Longrightarrow> \<not> has_parent (an_data n)"
  by (auto simp: answers_def)

text \<open>A comment that answers nothing.\<close>

lemma add_root:
  assumes ok: "threads_ok as" and a: "ad_id (an_data a) \<notin> set (ids as)" "is_id (ad_id (an_data a))"
    "ad_parent (an_data a) \<noteq> Some ''new''" "\<not> has_parent (an_data a)"
  shows "threads_ok (sort_key anchor_key (as @ [a]))"
proof -
  obtain us vs where s: "as = us @ vs" "\<forall>x\<in>set us. anchor_key x \<le> anchor_key a" "\<forall>x\<in>set vs. anchor_key a < anchor_key x"
    using key_le_split [of anchor_key as "anchor_key a"] ok by (auto simp: threads_ok_def)
  have so: "sorted (map anchor_key (us @ vs))" using ok s(1) by (simp add: threads_ok_def)
  have c: "chained None us" "chained (last_of None us) vs" using ok s(1) by (auto simp: threads_ok_def chained_append)
  have "chained (Some a) vs"
  proof (cases vs)
    case (Cons v vs')
    have "\<not> has_parent (an_data v)"
    proof
      assume "has_parent (an_data v)"
      then obtain q where "last_of None us = Some q" "answers q v" using c(2) Cons by (auto split: option.splits)
      with last_of_some [of None us q] have "q \<in> set us" "anchor_key q = anchor_key v" by (auto simp: answers_def)
      thus False using s(2,3) Cons by (metis leD list.set_intros(1))
    qed
    thus ?thesis using c(2) Cons by simp
  qed simp
  hence "chained None (us @ a # vs)" using c(1) a(4) by (simp add: chained_append)
  moreover have "sorted (map anchor_key (us @ a # vs))"
    using so s(2,3) by (auto simp: sorted_append less_imp_le)
  ultimately have "threads_ok (us @ a # vs)" using ok s(1) a by (auto simp: threads_ok_def ids_def)
  thus ?thesis using sort_merges [OF so s(2,3)] s(1) by simp
qed

text \<open>An answer: between the comment it answers and what followed it.\<close>

definition follow :: "string \<Rightarrow> anno \<Rightarrow> anno" where
  "follow k n = n\<lparr>an_data := (an_data n)\<lparr>ad_parent := Some k\<rparr>\<rparr>"

lemma follow_simps [simp]:
  "ad_id (an_data (follow k n)) = ad_id (an_data n)" "ad_parent (an_data (follow k n)) = Some k"
  "anchor_key (follow k n) = anchor_key n" "an_key (follow k n) = an_key n"
  by (simp_all add: follow_def anchor_key_def)

lemma chained_follow: "chained (Some (follow k n)) r = chained (Some n) r"
  by (cases r) (auto simp: answers_def linked_def)

definition relink :: "string \<Rightarrow> anno \<Rightarrow> anno list \<Rightarrow> anno list" where
  "relink k p vs = (case vs of n # r \<Rightarrow> if linked p n then follow k n # r else vs | [] \<Rightarrow> [])"

lemma relink_simps [simp]:
  "ids (relink k p vs) = ids vs" "map anchor_key (relink k p vs) = map anchor_key vs"
  "map an_key (relink k p vs) = map an_key vs"
  by (simp_all add: relink_def ids_def split: list.splits)

lemma relink_parents:
  "list_all (\<lambda>a. ad_parent (an_data a) \<noteq> Some ''new'') vs \<Longrightarrow> k \<noteq> ''new'' \<Longrightarrow>
   list_all (\<lambda>a. ad_parent (an_data a) \<noteq> Some ''new'') (relink k p vs)"
  by (cases vs) (auto simp: relink_def)

lemma set_parent_relink:
  "Suc (length us) < length (us @ p # vs) \<and> linked ((us @ p # vs) ! length us) ((us @ p # vs) ! Suc (length us)) \<Longrightarrow>
   set_parent (Suc (length us)) k (us @ p # vs) = us @ p # relink k p vs"
  by (cases vs) (auto simp: set_parent_def relink_def follow_def nth_append list_update_append)

lemma no_relink:
  "\<not> (Suc (length us) < length (us @ p # vs) \<and> linked ((us @ p # vs) ! length us) ((us @ p # vs) ! Suc (length us))) \<Longrightarrow>
   relink k p vs = vs"
  by (cases vs) (auto simp: relink_def nth_append)

lemma id_has_parent: "ad_parent d = Some p \<Longrightarrow> is_id p \<Longrightarrow> has_parent d"
  by (simp add: has_parent_def is_id_def)

lemma chained_relink:
  assumes "chained (Some p) vs" "linked p a" "anchor_key p = anchor_key a" "is_id (ad_id (an_data p))"
  shows "chained (Some a) (relink (ad_id (an_data a)) p vs)"
proof (cases vs)
  case (Cons n r)
  show ?thesis
  proof (cases "linked p n")
    case True
    have "has_parent (an_data n)" using True assms(4) by (auto simp: linked_def intro: id_has_parent)
    hence "answers p n" using assms(1) Cons by simp
    hence "answers a (follow (ad_id (an_data a)) n)" using assms(3) by (simp add: answers_def linked_def)
    thus ?thesis using True Cons assms(1) by (simp add: relink_def chained_follow)
  next
    case False
    thus ?thesis using Cons assms(1) not_linked_root [of p n r] by (simp add: relink_def)
  qed
qed (simp add: relink_def)

lemma add_reply:
  assumes ok: "threads_ok (us @ p # vs)" and a: "ad_id (an_data a) \<notin> set (ids (us @ p # vs))" "is_id (ad_id (an_data a))"
    "ad_id (an_data a) \<noteq> ''new''" "ad_parent (an_data a) \<noteq> Some ''new''" "linked p a" "anchor_key p = anchor_key a"
  shows "threads_ok (sort_key anchor_key (us @ p # a # relink (ad_id (an_data a)) p vs))"
proof -
  let ?new = "us @ p # a # relink (ad_id (an_data a)) p vs"
  have c: "chained None us" "chained (last_of None us) [p]" "chained (Some p) vs" "is_id (ad_id (an_data p))"
    using ok by (auto simp: threads_ok_def chained_append ids_def)
  have "answers p a" using a(5,6) by (simp add: answers_def)
  hence "chained None ?new" using c chained_relink [OF c(3) a(5,6) c(4)] by (simp add: chained_append)
  moreover have so: "sorted (map anchor_key ?new)" using ok a(6) by (auto simp: threads_ok_def sorted_append)
  moreover have "distinct (ids ?new) \<and> list_all is_id (ids ?new) \<and> list_all (\<lambda>a. ad_parent (an_data a) \<noteq> Some ''new'') ?new"
    using ok a relink_simps(1) [of "ad_id (an_data a)" p vs] relink_parents [of vs "ad_id (an_data a)" p]
    by (auto simp: threads_ok_def ids_def)
  ultimately have "threads_ok ?new" by (simp add: threads_ok_def)
  thus ?thesis using so by (simp add: sort_key_id_if_sorted)
qed


text \<open>Taking one out: what followed it follows the one before it, or nothing.\<close>

lemma remove_relinked:
  assumes ok: "threads_ok (us @ a # vs)"
    and k: "k = ''0'' \<and> \<not> has_parent (an_data a) \<or> ad_parent (an_data a) = Some k \<and> k \<noteq> ''new'' \<and> has_parent (an_data a)"
  shows "threads_ok (us @ relink k a vs)"
proof -
  have c: "chained None us" "chained (last_of None us) [a]" "chained (Some a) vs" "is_id (ad_id (an_data a))"
    using ok by (auto simp: threads_ok_def chained_append ids_def)
  have "chained (last_of None us) (relink k a vs)"
  proof (cases vs)
    case (Cons n r)
    show ?thesis
    proof (cases "linked a n")
      case False
      thus ?thesis using Cons c(3) not_linked_root [of a n r] by (simp add: relink_def)
    next
      case True
      have "has_parent (an_data n)" using True c(4) by (auto simp: linked_def intro: id_has_parent)
      hence an: "answers a n" using c(3) Cons by simp
      show ?thesis
      proof (cases "has_parent (an_data a)")
        case False
        with k have "\<not> has_parent (an_data (follow k n))" by (auto simp: has_parent_def)
        thus ?thesis using True Cons c(3) by (simp add: relink_def chained_follow)
      next
        case hp: True
        then obtain q where q: "last_of None us = Some q" "answers q a" using c(2) by (auto split: option.splits)
        with k hp an have "answers q (follow k n)" by (auto simp: answers_def linked_def)
        thus ?thesis using True Cons c(3) q(1) by (simp add: relink_def chained_follow)
      qed
    qed
  qed (simp add: relink_def)
  hence "chained None (us @ relink k a vs)" using c(1) by (simp add: chained_append)
  moreover have "sorted (map anchor_key (us @ relink k a vs))" using ok by (auto simp: threads_ok_def sorted_append)
  moreover have "distinct (ids (us @ relink k a vs)) \<and> list_all is_id (ids (us @ relink k a vs))"
    using ok relink_simps(1) [of k a vs] by (simp add: threads_ok_def ids_def)
  moreover have "list_all (\<lambda>a. ad_parent (an_data a) \<noteq> Some ''new'') (us @ relink k a vs)"
    using ok k relink_parents [of vs k a] by (auto simp: threads_ok_def)
  ultimately show ?thesis by (simp add: threads_ok_def)
qed

text \<open>A new comment of the user has no answers.\<close>

lemma remove_new:
  assumes ok: "threads_ok (us @ a # vs)" and a: "ad_id (an_data a) = ''new''"
  shows "threads_ok (us @ vs)"
proof -
  have c: "chained None us" "chained (Some a) vs" using ok by (auto simp: threads_ok_def chained_append)
  have "chained (last_of None us) vs"
  proof (cases vs)
    case (Cons n r)
    have "\<not> linked a n" using ok a Cons by (simp add: threads_ok_def linked_def)
    thus ?thesis using Cons c(2) not_linked_root [of a n r] by simp
  qed simp
  thus ?thesis using ok c(1) by (auto simp: threads_ok_def chained_append sorted_append ids_def)
qed

section \<open>Every event keeps the threads\<close>

definition cm_ok :: "cmanager \<Rightarrow> bool" where
  "cm_ok c \<longleftrightarrow> threads_ok (cm_items c) \<and> distinct (map an_key (cm_items c)) \<and>
     list_all (\<lambda>a. an_key a < cm_next c) (cm_items c)"

definition keeps_threads :: "cmanager \<Rightarrow> cmanager \<Rightarrow> bool" where
  "keeps_threads c d \<longleftrightarrow> same_threads (cm_items d) (cm_items c) \<and> cm_next d = cm_next c"

lemma cm_ok_keeps: "keeps_threads c d \<Longrightarrow> cm_ok c \<Longrightarrow> cm_ok d"
proof -
  assume k: "keeps_threads c d" "cm_ok c"
  have m: "map an_key (cm_items d) = map an_key (cm_items c)" using k(1) same_anno_keys by (simp add: keeps_threads_def)
  have "list_all (\<lambda>i. i < cm_next c) (map an_key (cm_items d))" unfolding m
    using k(2) by (simp add: cm_ok_def list.pred_map o_def)
  hence "list_all (\<lambda>a. an_key a < cm_next d) (cm_items d)" using k(1) by (simp add: keeps_threads_def list.pred_map o_def)
  thus ?thesis using k m threads_ok_same [of "cm_items d" "cm_items c"] by (simp add: cm_ok_def keeps_threads_def)
qed

lemma next_simps [simp]:
  "cm_next (on_cm f c) = cm_next c" "cm_next (cm_throws c) = cm_next c" "cm_next (cm_focus c) = cm_next c"
  "cm_next (cm_uno cf target command args c) = cm_next c" "cm_next (updatemaxbounds nothing extra c) = cm_next c"
  by (simp_all add: on_cm_def cm_throws_def cm_focus_def cm_uno_def updatemaxbounds_def)

lemma next_fit_bounds: "fit_bounds nothing b c = Some c' \<Longrightarrow> cm_next c' = cm_next c"
  by (auto simp: fit_bounds_def split: option.splits if_splits)

lemma next_anno_checkBounds: "anno_checkBounds sz nothing a c = Some c' \<Longrightarrow> cm_next c' = cm_next c"
  by (auto simp: anno_checkBounds_def split: if_splits dest: next_fit_bounds)

lemma anno_checkBounds_kept:
  "anno_checkBounds sz nothing a c = Some c' \<Longrightarrow> cm_items c' = cm_items c \<and> cm_next c' = cm_next c"
  by (simp add: items_anno_checkBounds next_anno_checkBounds)

lemma next_checkBounds [simp]: "cm_next (checkBounds sz nothing c) = cm_next c"
  by (auto simp: checkBounds_def split: option.splits bind_splits dest: next_fit_bounds)

lemma next_show_selected: "show_selected c = Some c' \<Longrightarrow> cm_next c' = cm_next c"
  by (auto simp: show_selected_def change_anno_def split: option.splits if_splits)

lemma next_layout [simp]:
  "cm_next (layout_selected cf sz nothing zoom right s c) = cm_next c"
  "cm_next (layout_all sz nothing zoom right c) = cm_next c"
  "cm_next (updateScaling cf c) = cm_next c"
  by (auto simp: layout_selected_def layout_all_def updateScaling_def Let_def split: option.splits list.splits
      dest!: next_show_selected)

lemma next_doLayout [simp]: "cm_next (doLayout cf sz nothing zoom c) = cm_next c"
  by (auto simp: doLayout_def Let_def split: option.splits bool.splits)

lemma next_ops [simp]:
  "cm_next (cm_layout cf sz nothing zoom c) = cm_next c" "cm_next (cm_update cf sz nothing c) = cm_next c"
  "cm_next (cm_unselect cf sz nothing c) = cm_next c" "cm_next (selectById cf sz nothing k c) = cm_next c"
  "cm_next (cm_select cf sz nothing a c) = cm_next c" "cm_next (uno_unselect cf target sz nothing command args c) = cm_next c"
  "cm_next (updateDocBounds nothing c) = cm_next c" "cm_next (put_anno a c) = cm_next c" "cm_next (change_anno i f c) = cm_next c"
  "cm_next (drop_items P c) = cm_next c"
  by (simp_all add: cm_layout_def cm_update_def cm_unselect_def selectById_def cm_select_def uno_unselect_def
      updateDocBounds_def put_anno_def change_anno_def drop_items_def)

lemma keeps_threads_trans: "keeps_threads c d \<Longrightarrow> keeps_threads d e \<Longrightarrow> keeps_threads c e"
  by (auto simp: keeps_threads_def intro: same_threads_trans)

lemma keeps_doLayout: "keeps_threads c (doLayout cf sz nothing zoom c)"
  by (simp add: keeps_threads_def doLayout_same)

lemma keeps_layout: "keeps_threads c (cm_layout cf sz nothing zoom c)"
  by (simp add: keeps_threads_def cm_layout_same)

lemma keeps_same_items: "cm_items d = cm_items c \<Longrightarrow> cm_next d = cm_next c \<Longrightarrow> keeps_threads c d"
  by (simp add: keeps_threads_def)

lemma keeps_change: "(\<And>a. placed (f a) = placed a) \<Longrightarrow> keeps_threads c (change_anno k f c)"
  by (simp add: keeps_threads_def change_anno_same)

lemma keeps_put_anno:
  assumes "cm_ok c" "find (\<lambda>b. an_key b = an_key a) (cm_items c) = Some b" "placed a = placed b"
  shows "keeps_threads c (put_anno a c)"
proof -
  have b: "b \<in> set (cm_items c)" "an_key b = an_key a" using assms(2) by (auto simp: find_Some_iff)
  have "placed (if an_key x = an_key a then a else x) = placed x" if "x \<in> set (cm_items c)" for x
  proof -
    have "an_key x = an_key a \<Longrightarrow> x = b" using assms(1) b that by (auto simp: cm_ok_def distinct_map inj_on_def)
    thus ?thesis using assms(3) by auto
  qed
  thus ?thesis by (simp add: keeps_threads_def put_anno_def change_anno_def same_threads_map)
qed


text \<open>A message fits when the comment it adds is new, with a place in the document that is the one of the comment it
  answers, and what it changes does not move a comment to another place or thread.\<close>

definition data_place :: "adata \<Rightarrow> real \<times> real" where
  "data_place d = (\<bar>py (bmin (ad_pos d))\<bar>, \<bar>px (bmin (ad_pos d))\<bar>)"

definition fits_added :: "adata \<Rightarrow> anno list \<Rightarrow> bool" where
  "fits_added d as \<longleftrightarrow> ad_id d \<notin> set (ids as) \<and> is_id (ad_id d) \<and> ad_id d \<noteq> ''new'' \<and> ad_parent d \<noteq> Some ''new'' \<and>
     (has_parent d \<longrightarrow> list_ex (\<lambda>p. ad_parent d = Some (ad_id (an_data p)) \<and> data_place d = anchor_key p) as)"

definition ack_fits :: "ack \<Rightarrow> cmanager \<Rightarrow> bool" where
  "ack_fits k c \<longleftrightarrow> (case ack_data k c of
      Some (Some d) \<Rightarrow>
        (if k_action k = ''Add'' then fits_added d (cm_items c) \<and> (has_parent d \<longrightarrow> \<not> k_change k)
         else if k_action k = ''Modify'' then
           (case index_of (ack_id k) (cm_items c) of
              None \<Rightarrow> True
            | Some i \<Rightarrow> (let e = an_data (cm_items c ! i) in
                ad_id d = ad_id e \<and> ad_parent d = ad_parent e \<and> ad_pos d = ad_pos e))
         else True)
    | _ \<Rightarrow> True)"

text \<open>The lists of all comments and of all changes are taken as the server sends them.\<close>

definition event_fits :: "cm_event \<Rightarrow> cmanager \<Rightarrow> bool" where
  "event_fits e c = (case e of
      Ack k \<Rightarrow> ack_fits k c
    | Insert date \<Rightarrow> ''new'' \<notin> set (ids (cm_items c))
    | Fill ms \<Rightarrow> False
    | FillChanges ms \<Rightarrow> False
    | _ \<Rightarrow> True)"

lemma anchor_key_place: "anchor_key a = data_place (an_data a)"
  by (simp add: anchor_key_def data_place_def Let_def)

lemma new_anno_simps:
  "an_data (fst (new_anno p d c)) = d" "an_key (fst (new_anno p d c)) = cm_next c"
  "cm_items (snd (new_anno p d c)) = cm_items c" "cm_next (snd (new_anno p d c)) = Suc (cm_next c)"
  by (simp_all add: new_anno_def)

lemma cm_okI:
  assumes "threads_ok (cm_items c)" "mset (map an_key (cm_items c)) = mset (n # ns)" "distinct ns" "\<forall>i\<in>set ns. i < n" "cm_next c = Suc n"
  shows "cm_ok c"
proof -
  have "distinct (map an_key (cm_items c)) \<longleftrightarrow> distinct (n # ns)" by (rule mset_eq_imp_distinct_iff [OF assms(2)])
  moreover have "set (map an_key (cm_items c)) = set (n # ns)" by (rule mset_eq_setD [OF assms(2)])
  hence "\<forall>a\<in>set (cm_items c). an_key a < Suc n" using assms(4) by (auto simp: less_Suc_eq)
  ultimately show ?thesis using assms by (auto simp: cm_ok_def list_all_iff)
qed

lemma add_root_ok:
  assumes ok: "cm_ok c" and d: "ad_id d \<notin> set (ids (cm_items c))" "is_id (ad_id d)" "ad_parent d \<noteq> Some ''new''" "\<not> has_parent d"
  shows "cm_ok (snd (cm_add d c))"
proof -
  define a where "a = fst (new_anno (twipsToLatLng (cm_grid c) (bounds_getTopRight (ad_pos d)) None) d c)"
  have a: "an_data a = d" "an_key a = cm_next c" by (simp_all add: a_def new_anno_simps)
  have i: "cm_items (snd (cm_add d c)) = sort_key anchor_key (cm_items c @ [a])" "cm_next (snd (cm_add d c)) = Suc (cm_next c)"
    using d(4) by (simp_all add: cm_add_def sort_items_def new_anno_simps a_def split_beta Let_def)
  show ?thesis
  proof (rule cm_okI)
    show "threads_ok (cm_items (snd (cm_add d c)))" unfolding i using ok d by (intro add_root) (auto simp: a cm_ok_def)
    show "mset (map an_key (cm_items (snd (cm_add d c)))) = mset (cm_next c # map an_key (cm_items c))" by (simp add: i a)
  qed (use ok i in \<open>auto simp: cm_ok_def list_all_iff\<close>)
qed

lemma has_parent_some: "has_parent d \<Longrightarrow> \<exists>p. ad_parent d = Some p"
  by (auto simp: has_parent_def split: option.splits)

lemma add_reply_ok:
  assumes ok: "cm_ok c" and d: "fits_added d (cm_items c)" "has_parent d"
  shows "cm_ok (snd (cm_add d (adjustParentAdd d c)))"
proof -
  obtain q where q: "q \<in> set (cm_items c)" "ad_parent d = Some (ad_id (an_data q))" "data_place d = anchor_key q"
    using d by (auto simp: fits_added_def list_ex_iff)
  let ?k = "ad_id (an_data q)"
  have "index_of ?k (cm_items c) \<noteq> None" using q(1) by (auto simp: index_of_None ids_def)
  then obtain i where i: "index_of ?k (cm_items c) = Some i" by blast
  obtain us p vs where s: "cm_items c = us @ p # vs" "length us = i" "ad_id (an_data p) = ?k" "?k \<notin> set (ids us)"
    using index_split [OF i] by blast
  have "p = q" using ok q(1) s(1,3) by (auto simp: cm_ok_def threads_ok_def ids_def distinct_map inj_on_def)
  let ?c = "adjustParentAdd d c"
  define rs where "rs = relink (ad_id d) p vs"
  have rs: "cm_items ?c = us @ p # rs" "cm_next ?c = cm_next c"
    using d(2) q(2) i s set_parent_relink [of us p vs "ad_id d"] no_relink [of us p vs "ad_id d"]
    by (auto simp: adjustParentAdd_def rs_def or_empty_def)
  define a where "a = fst (new_anno (twipsToLatLng (cm_grid ?c) (bounds_getTopRight (ad_pos d)) None) d ?c)"
  have a: "an_data a = d" "an_key a = cm_next c" by (simp_all add: a_def new_anno_simps rs)
  have x: "index_of ?k (us @ p # rs) = Some i" using index_of_split [OF s(4,3)] s(2) by simp
  have it: "cm_items (snd (cm_add d ?c)) = sort_key anchor_key (us @ p # a # rs)" "cm_next (snd (cm_add d ?c)) = Suc (cm_next c)"
    using d(2) q(2) x s(2) by (simp_all add: cm_add_def sort_items_def new_anno_simps a_def split_beta Let_def rs or_empty_def insert_at_def)
  show ?thesis
  proof (rule cm_okI)
    show "threads_ok (cm_items (snd (cm_add d ?c)))"
      unfolding it rs_def using ok s(1) d q \<open>p = q\<close> add_reply [of us p vs a]
      by (auto simp: a cm_ok_def fits_added_def linked_def anchor_key_place)
    show "mset (map an_key (cm_items (snd (cm_add d ?c)))) = mset (cm_next c # map an_key (cm_items c))"
    proof -
      have "mset (map an_key rs) = mset (map an_key vs)" by (simp only: rs_def relink_simps)
      thus ?thesis by (simp add: it a s(1))
    qed
  qed (use ok it in \<open>auto simp: cm_ok_def list_all_iff\<close>)
qed

lemma adjustParentAdd_root: "\<not> has_parent d \<Longrightarrow> adjustParentAdd d c = c"
  by (simp add: adjustParentAdd_def)

lemma ack_add_keeps:
  assumes "cm_ok c" "k_action k = ''Add''" "ack_fits k c"
  shows "cm_ok (ack_add cf sz nothing k c)"
proof (cases "ack_data k c")
  case None
  thus ?thesis using assms(1) by (simp add: ack_add_def cm_ok_keeps [OF keeps_same_items])
next
  case (Some r)
  show ?thesis
  proof (cases r)
    case None
    thus ?thesis using Some assms(1) by (simp add: ack_add_def)
  next
    case d: (Some d)
    let ?c = "snd (cm_add d (if k_change k then c else adjustParentAdd d c))"
    have f: "fits_added d (cm_items c)" "has_parent d \<longrightarrow> \<not> k_change k" using assms Some d by (simp_all add: ack_fits_def)
    have "cm_ok ?c"
    proof (cases "has_parent d")
      case True thus ?thesis using f add_reply_ok [OF assms(1)] by simp
    next
      case False thus ?thesis using f(1) add_root_ok [OF assms(1), of d]
        by (simp add: adjustParentAdd_root fits_added_def)
    qed
    moreover have "keeps_threads ?c (ack_add cf sz nothing k c)"
      by (rule keeps_same_items) (simp_all add: ack_add_def Some d Let_def split: option.splits)
    ultimately show ?thesis by (rule cm_ok_keeps [rotated])
  qed
qed


definition without :: "string \<Rightarrow> anno list \<Rightarrow> anno list" where
  "without k as = (case index_of k as of None \<Rightarrow> as | Some i \<Rightarrow> take i as @ drop (Suc i) as)"

lemma removeItem_without [simp]: "cm_items (removeItem k c) = without k (cm_items c)" "cm_next (removeItem k c) = cm_next c"
  by (simp_all add: removeItem_def without_def split: option.splits)

lemma without_split: "k \<notin> set (ids us) \<Longrightarrow> ad_id (an_data a) = k \<Longrightarrow> without k (us @ a # vs) = us @ vs"
  by (simp add: without_def index_of_split)

lemma cm_ok_fewer:
  assumes "cm_ok c" "cm_items c = us @ a # vs" "threads_ok (cm_items d)" "map an_key (cm_items d) = map an_key (us @ vs)"
    "cm_next d = cm_next c"
  shows "cm_ok d"
proof -
  have "distinct (map an_key (cm_items d))" using assms by (simp add: cm_ok_def)
  moreover have "list_all (\<lambda>i. i < cm_next d) (map an_key (cm_items d))"
    using assms(1,2,5) unfolding assms(4) by (auto simp: cm_ok_def list_all_iff)
  ultimately show ?thesis using assms(3) by (simp add: cm_ok_def list.pred_map o_def)
qed

lemma cm_ok_without_new:
  assumes "cm_ok c" "cm_items d = without ''new'' (cm_items c)" "cm_next d = cm_next c"
  shows "cm_ok d"
proof (cases "index_of ''new'' (cm_items c)")
  case None
  hence "cm_items d = cm_items c" using assms(2) by (simp add: without_def)
  thus ?thesis using cm_ok_keeps [OF keeps_same_items assms(1)] assms(3) by simp
next
  case (Some i)
  then obtain us a vs where s: "cm_items c = us @ a # vs" "length us = i" "ad_id (an_data a) = ''new''" "''new'' \<notin> set (ids us)"
    using index_split by blast
  hence d: "cm_items d = us @ vs" using assms(2) without_split by simp
  have "threads_ok (us @ a # vs)" using assms(1) s(1) by (simp add: cm_ok_def)
  hence "threads_ok (us @ vs)" by (rule remove_new) (rule s(3))
  thus ?thesis using cm_ok_fewer [OF assms(1) s(1), of d] d assms(3) by simp
qed

lemma parent_in_ids:
  assumes "threads_ok (us @ a # vs)" "has_parent (an_data a)"
  shows "\<exists>p. ad_parent (an_data a) = Some p \<and> p \<in> set (ids us)"
proof -
  have "chained (last_of None us) (a # vs)" using assms(1) by (simp add: threads_ok_def chained_append)
  then obtain q where q: "last_of None us = Some q" "answers q a" using assms(2) by (auto split: option.splits)
  from last_of_some [OF q(1)] have "q \<in> set us" by auto
  thus ?thesis using q(2) by (auto simp: answers_def linked_def ids_def)
qed

lemma ack_remove_keeps:
  assumes ok: "cm_ok c"
  shows "cm_ok (ack_remove cf sz nothing k c)"
proof (cases "index_of (ack_id k) (cm_items c)")
  case None
  thus ?thesis using ok cm_ok_keeps [OF keeps_same_items ok] by (simp add: ack_remove_def)
next
  case (Some i)
  then obtain us a vs where s: "cm_items c = us @ a # vs" "length us = i" "ad_id (an_data a) = ack_id k" "ack_id k \<notin> set (ids us)"
    using index_split by blast
  have at: "cm_items c ! i = a" using s by (simp add: nth_append)
  have t: "threads_ok (us @ a # vs)" using ok s(1) by (simp add: cm_ok_def)
  define newId where "newId = (case Option.bind (ad_parent (an_data a)) (\<lambda>p. index_of p (cm_items c)) of
      None \<Rightarrow> ''0'' | Some i \<Rightarrow> ad_id (an_data (cm_items c ! i)))"
  have n: "newId = ''0'' \<and> \<not> has_parent (an_data a) \<or> ad_parent (an_data a) = Some newId \<and> newId \<noteq> ''new'' \<and> has_parent (an_data a)"
  proof (cases "has_parent (an_data a)")
    case True
    then obtain p where p: "ad_parent (an_data a) = Some p" "p \<in> set (ids us)" using parent_in_ids [OF t] by blast
    then obtain j where j: "index_of p (cm_items c) = Some j" using index_of_None [of p "cm_items c"] s(1) by (fastforce simp: ids_def)
    have "newId = p" using p(1) j index_of_bound [OF j] by (simp add: newId_def)
    moreover have "p \<noteq> ''new''" using t p(1) by (auto simp: threads_ok_def)
    ultimately show ?thesis using True p(1) by simp
  next
    case False
    have "index_of p (cm_items c) = None" if "ad_parent (an_data a) = Some p" for p
    proof -
      have "\<not> is_id p" using False that id_has_parent by blast
      thus ?thesis using ok by (auto simp: index_of_None cm_ok_def threads_ok_def list_all_iff)
    qed
    thus ?thesis using False by (auto simp: newId_def split: option.splits bind_splits)
  qed
  have r: "cm_items (adjustParentRemove a c) = us @ a # relink newId a vs" "cm_next (adjustParentRemove a c) = cm_next c"
    using Some s at set_parent_relink [of us a vs newId] no_relink [of us a vs newId]
    by (auto simp: adjustParentRemove_def newId_def Let_def)
  define d where "d = removeItem (ack_id k) (adjustParentRemove a c)"
  have d: "cm_items d = us @ relink newId a vs" "cm_next d = cm_next c"
    using r without_split [OF s(4,3)] by (simp_all add: d_def)
  have "threads_ok (cm_items d)" unfolding d using t n by (rule remove_relinked)
  hence "cm_ok d" using cm_ok_fewer [OF ok s(1), of d] d relink_simps(3) [of newId a vs] by simp
  moreover have "keeps_threads d (ack_remove cf sz nothing k c)"
    by (rule keeps_same_items) (simp_all add: ack_remove_def Some at d_def Let_def)
  ultimately show ?thesis by (rule cm_ok_keeps [rotated])
qed

lemma ack_modify_keeps:
  assumes ok: "cm_ok c" and k: "k_action k = ''Modify''" "ack_fits k c"
  shows "cm_ok (ack_modify cf sz nothing k c)"
proof -
  have "keeps_threads c (ack_modify cf sz nothing k c)"
  proof (cases "index_of (ack_id k) (cm_items c)")
    case (Some i)
    show ?thesis
    proof (cases "ack_data k c")
      case d: (Some r)
      show ?thesis
      proof (cases r)
        case (Some e)
        let ?as = "(cm_items c)[i := setData e (cm_items c ! i)]"
        have "placed (setData e (cm_items c ! i)) = placed (cm_items c ! i)"
          using k d \<open>index_of (ack_id k) (cm_items c) = Some i\<close> Some by (simp add: ack_fits_def placed_def setData_def Let_def)
        hence "same_threads ?as (cm_items c)" by (simp add: same_threads_def map_update)
          (metis list_update_id map_update)
        hence "keeps_threads c (c\<lparr>cm_items := ?as\<rparr>)" by (simp add: keeps_threads_def)
        thus ?thesis using \<open>index_of (ack_id k) (cm_items c) = Some i\<close> d Some
          by (auto simp: ack_modify_def Let_def keeps_threads_def split: option.splits
              dest!: anno_checkBounds_kept)
      qed (simp add: ack_modify_def Some d keeps_threads_def)
    qed (simp add: ack_modify_def Some keeps_threads_def)
  qed (simp add: ack_modify_def keeps_threads_def)
  thus ?thesis using ok by (rule cm_ok_keeps)
qed

lemma is_id_new [simp]: "is_id ''new''"
  by code_simp

lemma change_items_simps: "cm_items (change_anno k f c) = map (\<lambda>a. if an_key a = k then f a else a) (cm_items c)"
  by (simp add: change_anno_def)

lemma keeps_modify: "keeps_threads c (cm_modify cf sz nothing a c)" "keeps_threads c (cm_reply cf sz nothing a c)"
  by (simp_all add: keeps_threads_def cm_modify_def cm_reply_def change_anno_same)

lemmas modify_keeps = keeps_modify [THEN cm_ok_keeps]

lemma insert_keeps:
  assumes "cm_ok c" "''new'' \<notin> set (ids (cm_items c))"
  shows "cm_ok (insertComment cf sz nothing date c)"
proof -
  have n: "cm_ok (newAnnotation cf sz nothing author avatar date c)" for author avatar
    by (simp add: newAnnotation_def Let_def split_beta assms(1))
       (intro impI modify_keeps(1) add_root_ok [OF assms(1)]; simp add: assms(2) has_parent_def)
  show ?thesis using n cm_ok_keeps [OF keeps_same_items assms(1)]
    by (auto simp: insertComment_def split: option.splits)
qed


text \<open>A box with which something happens, that has stayed in its place.\<close>

lemma cancelled_keeps:
  assumes "cm_ok c"
  shows "cm_ok (onAnnotationCancel cf sz nothing a c)"
proof (cases "ad_id (an_data a) = ''new''")
  case True
  thus ?thesis using cm_ok_without_new [OF assms, of "onAnnotationCancel cf sz nothing a c"]
    by (simp add: onAnnotationCancel_def Let_def)
qed (use cm_ok_keeps [OF keeps_same_items assms] in \<open>simp add: onAnnotationCancel_def Let_def\<close>)

lemma saved_keeps:
  assumes "cm_ok c"
  shows "cm_ok (onAnnotationSave cf target sz nothing a c)"
proof (cases "ad_id (an_data a) = ''new''")
  case True
  thus ?thesis using cm_ok_without_new [OF assms, of "onAnnotationSave cf target sz nothing a c"]
    by (simp add: onAnnotationSave_def Let_def)
qed (use cm_ok_keeps [OF keeps_same_items assms] in \<open>simp add: onAnnotationSave_def Let_def\<close>)

lemma replied_keeps: "cm_ok c \<Longrightarrow> cm_ok (onAnnotationReply cf target sz nothing a c)"
  using cm_ok_keeps [OF keeps_same_items, of "onAnnotationReply cf target sz nothing a c" c] by (simp add: onAnnotationReply_def)

lemma shown_keeps:
  assumes "cm_ok (put_anno a c)" "\<And>d. cm_ok d \<Longrightarrow> cm_ok (f d)"
  shows "cm_ok (shown_then sz nothing a f c)"
  using assms cm_ok_keeps [OF keeps_same_items assms(1)]
  by (auto simp: shown_then_def split: option.splits dest!: anno_checkBounds_kept)

lemma put_ok:
  assumes "cm_ok c" "find (\<lambda>b. an_key b = k) (cm_items c) = Some a" "placed b = placed a"
  shows "cm_ok (put_anno b c)"
proof -
  have "an_key b = k" using assms(2,3) by (auto simp: find_Some_iff placed_def)
  thus ?thesis using cm_ok_keeps [OF keeps_put_anno] assms by simp
qed

lemma placed_shown: "ad_id d = ad_id (an_data a) \<Longrightarrow> ad_parent d = ad_parent (an_data a) \<Longrightarrow> ad_pos d = ad_pos (an_data a) \<Longrightarrow>
   placed (a\<lparr>an_data := d\<rparr>) = placed a"
  by (simp add: placed_def)

lemma box_keeps:
  assumes c: "cm_ok c" and f: "find (\<lambda>b. an_key b = k) (cm_items c) = Some a"
  shows "cm_ok (box_step cf target sz nothing a e c)"
proof -
  note p = put_ok [OF c f]
  have cancel: "cm_ok (onCancelClick cf sz nothing a c)"
    unfolding onCancelClick_def Let_def by (rule cancelled_keeps) (rule p, simp)
  have save: "cm_ok (onSaveComment cf target sz nothing a c)"
    unfolding onSaveComment_def Let_def by (rule shown_keeps [OF p saved_keeps]) (simp_all add: placed_shown)
  have reply: "cm_ok (onReplyClick cf target sz nothing a c)"
    unfolding onReplyClick_def Let_def by (rule shown_keeps [OF p replied_keeps]) (simp_all add: placed_shown)
  have rest: "cm_ok (cm_select cf sz nothing a c)" "cm_ok (uno_unselect cf target sz nothing command args c)" for command args
    using cm_ok_keeps [OF keeps_same_items c] by simp_all
  show ?thesis
    using p [of "a\<lparr>an_typed := t\<rparr>" for t] p [of "a\<lparr>an_replyText := t\<rparr>" for t] c cancel save reply rest modify_keeps [OF c]
    by (cases e) (simp_all add: box_step_def onLostFocus_def onLostFocusReply_def cm_remove_def onRedline_def Let_def)
qed

lemma cleared_items: "cm_items (clearChanges (cm_clear c)) = []"
  by (simp add: clearChanges_def cm_clear_def drop_items_def filter_filter)

lemma ack_keeps: "cm_ok c \<Longrightarrow> ack_fits k c \<Longrightarrow> cm_ok (onACKComment cf sz nothing k c)"
  by (simp add: onACKComment_def ack_add_keeps ack_remove_keeps ack_modify_keeps)


lemma demo_comments_ok: "cm_ok demo_comments"
proof -
  have "is_id ''1''" "is_id ''2''" "is_id ''3''" "\<not> str_less ''0'' ''0''" by code_simp+
  thus ?thesis
    by (simp add: cm_ok_def demo_comments_def demo_anno_def threads_ok_def ids_def anchor_key_def answers_def linked_def
        has_parent_def is_id_def)
qed

lemma removed_middle:
  "map (\<lambda>a. (ad_id (an_data a), ad_parent (an_data a))) (cm_items (cm_step cf target sz nothing (Ack demo_removed) demo_comments)) =
     [(''1'', Some ''0''), (''3'', Some ''1'')]"
  by (simp add: cm_step_def onACKComment_def demo_removed_def ack_remove_def ack_id_def demo_comments_def demo_anno_def
      adjustParentRemove_def linked_def set_parent_def without_def Let_def)


end
