(* ===== verification/CommentLayout.thy ===== *)
theory CommentLayout
  imports CommentThreads
begin

text \<open>
  The layout of the comments: in the order of the document they are below each other in one column beside the page,
  and no two of them cover each other. The scale of the boxes on mobile devices.
\<close>

section \<open>Whole pixels\<close>

definition integral :: "point \<Rightarrow> bool" where
  "integral p \<longleftrightarrow> px p \<in> \<int> \<and> py p \<in> \<int>"

lemma whole_round_near:
  assumes "x \<in> \<int>" "\<bar>y - x\<bar> \<le> 1 / 2000000"
  shows "of_int (js_round y) = x"
proof -
  obtain n where n: "x = of_int n" using assms(1) by (auto elim: Ints_cases)
  have "\<bar>y - of_int n\<bar> \<le> 1 / 2000000" using assms(2) n by simp
  hence "y - of_int n \<le> 1 / 2000000" "- (y - of_int n) \<le> 1 / 2000000" by (rule abs_le_D1, rule abs_le_D2)
  hence "\<lfloor>y + 1 / 2\<rfloor> = n" by (intro floor_unique) linarith+
  thus ?thesis using n by (simp add: js_round_def)
qed

lemma point_simps:
  "px (point_add p q) = px p + px q" "py (point_add p q) = py p + py q"
  "px (point_subtract p q) = px p - px q" "py (point_subtract p q) = py p - py q"
  "px (point_round p) = of_int (js_round (px p))" "py (point_round p) = of_int (js_round (py p))"
  by (simp_all add: point_add_def point_add_in_def point_subtract_def point_subtract_in_def point_round_def
      point_round_in_def point_clone_def new_point_def)

lemma pt_eq: "px p = x \<Longrightarrow> py p = y \<Longrightarrow> p = pt x y"
  by (cases p) simp

text \<open>A place given in whole pixels is found again.\<close>

lemma layer_pt_latlng:
  assumes "integral p" "integral (mv_pixelOrigin v)"
  shows "layer_pt v (layer_latlng v p) = p"
proof -
  let ?q = "point_add p (mv_pixelOrigin v)"
  have i: "px ?q \<in> \<int>" "py ?q \<in> \<int>" using assms by (simp_all add: integral_def point_simps)
  have "px (layer_pt v (layer_latlng v p)) = px p" "py (layer_pt v (layer_latlng v p)) = py p"
    using whole_round_near [OF i(1) project_unproject(1) [of v ?q None]] whole_round_near [OF i(2) project_unproject(2) [of v ?q None]]
    by (simp_all add: layer_pt_def layer_latlng_def point_simps)
  thus ?thesis by (cases "layer_pt v (layer_latlng v p)"; cases p) simp
qed

lemma layer_pt_integral: "integral (mv_pixelOrigin v) \<Longrightarrow> integral (layer_pt v p)"
  by (simp add: integral_def layer_pt_def point_simps)

lemma layer_pt_unproject:
  "px (layer_pt v (unproject v q None)) = of_int (js_round (roundTo (px q) (1 / 10 ^ 6))) - px (mv_pixelOrigin v)"
  "py (layer_pt v (unproject v q None)) = of_int (js_round (roundTo (py q) (1 / 10 ^ 6))) - py (mv_pixelOrigin v)"
  by (simp_all add: layer_pt_def point_simps project_def unproject_def Let_def simple.point_latLng_point)

lemma roundTo_mono: "x \<le> y \<Longrightarrow> roundTo x (1 / 10 ^ 6) \<le> roundTo y (1 / 10 ^ 6)"
  by (simp add: roundTo_def Let_def js_round_mono)

section \<open>One thread\<close>

definition box_top :: "mview \<Rightarrow> anno \<Rightarrow> real" where
  "box_top v a = py (layer_pt v (an_latlng a))"

definition box_left :: "mview \<Rightarrow> anno \<Rightarrow> real" where
  "box_left v a = px (layer_pt v (an_latlng a))"

text \<open>The boxes below each other in a column, none above \<open>y\<close>; where they end.\<close>

fun apart :: "asize \<Rightarrow> mview \<Rightarrow> real \<Rightarrow> real \<Rightarrow> anno list \<Rightarrow> bool" where
  "apart sz v x y [] = True"
| "apart sz v x y (a # as) = (box_left v a = x \<and> y \<le> box_top v a \<and> apart sz v x (box_top v a + anno_height sz a) as)"

fun ends :: "asize \<Rightarrow> mview \<Rightarrow> real \<Rightarrow> anno list \<Rightarrow> real" where
  "ends sz v y [] = y"
| "ends sz v y (a # as) = ends sz v (box_top v a + anno_height sz a) as"

definition total :: "asize \<Rightarrow> anno list \<Rightarrow> real" where
  "total sz as = (\<Sum>a\<leftarrow>as. anno_height sz a)"

definition reading :: "anno list \<Rightarrow> bool" where
  "reading = list_all (\<lambda>a. an_mode a = Reading)"

lemma apart_append: "apart sz v x y (as @ bs) \<longleftrightarrow> apart sz v x y as \<and> apart sz v x (ends sz v y as) bs"
  by (induction as arbitrary: y) auto

lemma ends_append: "ends sz v y (as @ bs) = ends sz v (ends sz v y as) bs"
  by (induction as arbitrary: y) auto

lemma apart_weaken: "apart sz v x y as \<Longrightarrow> y' \<le> y \<Longrightarrow> apart sz v x y' as"
  by (cases as) auto

lemma ends_nonempty: "as \<noteq> [] \<Longrightarrow> ends sz v y as = ends sz v y' as"
  by (cases as) auto

lemma anno_size_simps [simp]:
  "anno_size sz (anno_move p a) = anno_size sz a" "an_mode (anno_show a) = Reading" "an_mode (anno_move p a) = an_mode a"
  "an_latlng (anno_show a) = an_latlng a" "an_latlng (anno_move p a) = p"
  by (simp_all add: anno_size_def anno_move_def anno_show_def)

lemma anno_size_show [simp]: "an_mode a = Reading \<Longrightarrow> anno_size sz (anno_show a) = anno_size sz a"
  by (simp add: anno_size_def anno_show_def)

lemma place_thread_apart:
  "integral p \<Longrightarrow> integral (mv_pixelOrigin v) \<Longrightarrow> reading as \<Longrightarrow>
   apart sz v (px p) (py p) (place_thread sz v as p) \<and> ends sz v (py p) (place_thread sz v as p) = py p + total sz as"
proof (induction sz v as p rule: place_thread.induct)
  case (2 sz v a as p)
  let ?a = "anno_show (anno_move (layer_latlng v p) a)"
  let ?p = "point_add p (pt 0 (anno_height sz ?a))"
  have p: "integral ?p" "px ?p = px p" "py ?p = py p + anno_height sz ?a"
    using "2.prems"(1) by (simp_all add: integral_def point_simps)
  have h: "anno_size sz ?a = anno_size sz a" and r: "reading as" using "2.prems"(3) by (simp_all add: reading_def)
  note l = layer_pt_latlng [OF "2.prems"(1,2)] and ih = "2.IH" [OF refl p(1) "2.prems"(2) r, unfolded p(2,3) h]
  show ?case using ih by (simp add: Let_def box_left_def box_top_def l h total_def)
qed (simp_all add: total_def)

lemma bounds_simps:
  "px (bmin (below b h)) = min (px (bmax b)) (px (bmin b))" "py (bmin (below b h)) = min (py (bmax b) + h) (py (bmin b))"
  "px (bmax (below b h)) = px (bmax b)" "py (bmax (below b h)) = max (py (bmax b) + h) (py (bmax b))"
  "px (bmin (grow_to b p)) = min (px p) (px (bmin b))" "py (bmin (grow_to b p)) = min (py p) (py (bmin b))"
  "px (bmax (grow_to b p)) = max (px p) (px (bmax b))" "py (bmax (grow_to b p)) = max (py p) (py (bmax b))"
  by (simp_all add: below_def bounds_extend_def point_simps)

lemma anno_bounds_simps:
  "px (bmin (anno_bounds sz v a)) = box_left v a" "py (bmin (anno_bounds sz v a)) = box_top v a"
  "px (bmax (anno_bounds sz v a)) = box_left v a + real (fst (anno_size sz a))"
  "py (bmax (anno_bounds sz v a)) = box_top v a + anno_height sz a"
  by (simp_all add: anno_bounds_def Let_def new_bounds_def bounds_extend_def point_simps point_clone_def new_point_def
      box_left_def box_top_def)

lemma fold_below:
  assumes "px (bmin b) \<le> px (bmax b)" "py (bmin b) \<le> py (bmax b)"
  shows "bmin (fold (\<lambda>a b. below b (anno_height sz a)) as b) = bmin b \<and>
    py (bmax (fold (\<lambda>a b. below b (anno_height sz a)) as b)) = py (bmax b) + total sz as"
  using assms
proof (induction as arbitrary: b)
  case (Cons a as)
  let ?b = "below b (anno_height sz a)"
  have "bmin ?b = bmin b" using Cons.prems by (cases "bmin ?b"; cases "bmin b") (use bounds_simps(1,2) [of b "anno_height sz a"] in auto)
  moreover have "px (bmax ?b) = px (bmax b)" "py (bmax ?b) = py (bmax b) + anno_height sz a" by (simp_all add: bounds_simps)
  ultimately show ?case using Cons.IH [of ?b] Cons.prems by (simp add: total_def)
qed (simp add: total_def)

lemma thread_bounds_simps:
  assumes "as \<noteq> []"
  shows "bmin (thread_bounds sz v as p) = layer_pt v p" "py (bmax (thread_bounds sz v as p)) = py (layer_pt v p) + total sz as"
    "px (layer_pt v p) \<le> px (bmax (thread_bounds sz v as p))"
proof -
  obtain a bs where as: "as = a # bs" using assms by (cases as) auto
  let ?b = "anno_bounds sz v (anno_move p a)"
  have m: "bmin ?b = layer_pt v p"
    by (cases "bmin ?b"; cases "layer_pt v p")
       (use anno_bounds_simps(1,2) [of sz v "anno_move p a"] in \<open>simp add: box_left_def box_top_def\<close>)
  have f: "bmin (fold (\<lambda>a b. below b (anno_height sz a)) bs ?b) = bmin ?b"
    "py (bmax (fold (\<lambda>a b. below b (anno_height sz a)) bs ?b)) = py (bmax ?b) + total sz bs"
    using fold_below [of ?b sz bs] by (simp_all add: anno_bounds_simps)
  show "bmin (thread_bounds sz v as p) = layer_pt v p" using f m by (simp add: thread_bounds_def as)
  show "py (bmax (thread_bounds sz v as p)) = py (layer_pt v p) + total sz as"
    using f by (simp add: thread_bounds_def as anno_bounds_simps total_def box_top_def)
  have "px (bmax (fold (\<lambda>a b. below b (anno_height sz a)) cs b)) = px (bmax b)" for cs b
    by (induction cs arbitrary: b) (simp_all add: bounds_simps)
  thus "px (layer_pt v p) \<le> px (bmax (thread_bounds sz v as p))"
    by (simp add: thread_bounds_def as anno_bounds_simps box_left_def)
qed


section \<open>All threads\<close>

text \<open>What is laid out so far: a column of no width.\<close>

definition strip :: "real \<Rightarrow> real \<Rightarrow> real \<Rightarrow> bounds \<Rightarrow> bool" where
  "strip x y0 y b \<longleftrightarrow> bmin b = pt x y0 \<and> bmax b = pt x y \<and> y0 \<le> y \<and> x \<in> \<int> \<and> y \<in> \<int>"

lemma total_Ints [simp]: "total sz as \<in> \<int>" and total_pos [simp]: "0 \<le> total sz as"
  by (induction as) (auto simp: total_def)

lemma strip_below: "strip x y0 y b \<Longrightarrow> 0 \<le> h \<Longrightarrow> h \<in> \<int> \<Longrightarrow> strip x y0 (y + h) (below b h)"
  by (simp add: strip_def below_def bounds_extend_def point_simps)

lemma strip_grow: "strip x y0 y b \<Longrightarrow> y \<le> y' \<Longrightarrow> y' \<in> \<int> \<Longrightarrow> strip x y0 y' (grow_to b (pt (px (bmax b)) y'))"
  by (simp add: strip_def bounds_extend_def)

lemma margin_Ints [simp]: "marginY \<in> \<int>" "0 \<le> marginY"
  by (simp_all add: marginY_def)

lemma place_thread_nonempty [simp]: "place_thread sz v as p = [] \<longleftrightarrow> as = []"
  by (cases as) (auto simp: Let_def)

lemma layoutDown_apart:
  assumes as: "as \<noteq> []" "reading as" and v: "integral (mv_pixelOrigin v)" "column v right = x"
    and p: "layer_pt v p = pt x yp" "y0 \<le> yp" and lb: "strip x y0 y lb"
  shows "\<exists>y'. apart sz v x y (fst (layoutDown sz v right as p lb)) \<and> strip x y0 y' (snd (layoutDown sz v right as p lb)) \<and>
    ends sz v y (fst (layoutDown sz v right as p lb)) \<le> y' \<and> y \<le> y'"
proof -
  let ?b = "thread_bounds sz v as p" and ?h = "total sz as"
  note b = thread_bounds_simps [OF as(1), where sz = sz and v = v and p = p, unfolded p(1), simplified]
  have yp: "yp \<in> \<int>" using layer_pt_integral [OF v(1), of p] p(1) by (simp add: integral_def)
  have l: "bmin lb = pt x y0" "bmax lb = pt x y" "y0 \<le> y" "x \<in> \<int>" "y \<in> \<int>" using lb by (simp_all add: strip_def)
  have size: "py (bounds_getSize ?b) = ?h" using b by (simp add: bounds_getSize_def point_simps)
  have placed: "apart sz v x z (place_thread sz v as (pt x z)) \<and> ends sz v z (place_thread sz v as (pt x z)) = z + ?h"
    if "z \<in> \<int>" for z
    using place_thread_apart [of "pt x z" v as sz] that l(4) v(1) as(2) by (simp add: integral_def)
  show ?thesis
  proof (cases "bounds_intersects lb ?b")
    case True
    have "py (bounds_getBottomLeft lb) = y" using l by (simp add: bounds_getBottomLeft_def)
    hence d: "layoutDown sz v right as p lb = (place_thread sz v as (pt x y), below (below lb ?h) marginY)"
      using True as(1) v(2) size by (simp add: layoutDown_def Let_def)
    have "strip x y0 (y + ?h + marginY) (below (below lb ?h) marginY)" by (intro strip_below lb) simp_all
    thus ?thesis using placed [OF l(5)] margin_Ints(2) total_pos [of sz as] unfolding d by (intro exI [of _ "y + ?h + marginY"]) simp
  next
    case False
    have "y < yp" using False l b p(2) total_pos [of sz as] by (auto simp: bounds_intersects_def Let_def not_le)
    have d: "layoutDown sz v right as p lb = (place_thread sz v as (pt x yp), below (grow_to lb (pt (px (bmax lb)) (yp + ?h))) marginY)"
      using False as(1) v(2) b by (simp add: layoutDown_def Let_def)
    have s: "strip x y0 (yp + ?h + marginY) (below (grow_to lb (pt (px (bmax lb)) (yp + ?h))) marginY)"
      by (intro strip_below strip_grow [OF lb]) (use order_trans [of y yp "yp + ?h"] \<open>y < yp\<close> yp in simp_all)
    have "ends sz v y (place_thread sz v as (pt x yp)) = yp + ?h"
      using placed [OF yp] ends_nonempty [of "place_thread sz v as (pt x yp)" sz v y yp] as(1) by simp
    moreover have "apart sz v x y (place_thread sz v as (pt x yp))"
      using placed [OF yp] \<open>y < yp\<close> by (auto intro: apart_weaken)
    moreover have "y \<le> yp + ?h + marginY" using \<open>y < yp\<close> margin_Ints(2) total_pos [of sz as] by linarith
    ultimately show ?thesis using s unfolding d by (intro exI [of _ "yp + ?h + marginY"]) simp
  qed
qed

lemma apart_from: "apart sz v x y as \<Longrightarrow> ends sz v y as \<le> z \<Longrightarrow> apart sz v x z bs \<Longrightarrow> apart sz v x y (as @ bs)"
  by (auto simp: apart_append intro: apart_weaken)

lemma layout_down_apart:
  assumes v: "integral (mv_pixelOrigin v)" "column v right = x"
    and ts: "\<forall>t\<in>set ts. t \<noteq> [] \<and> reading t \<and> (\<exists>yp. layer_pt v (thread_place v right t) = pt x yp \<and> y0 \<le> yp)"
    and lb: "strip x y0 y lb"
  shows "apart sz v x y (concat (fst (layout_down sz v right ts lb)))"
  using ts lb
proof (induction ts arbitrary: lb y)
  case (Cons t ts)
  let ?r = "layoutDown sz v right t (thread_place v right t) lb"
  obtain yp where t: "t \<noteq> []" "reading t" "layer_pt v (thread_place v right t) = pt x yp" "y0 \<le> yp" using Cons.prems(1) by auto
  obtain y' where y': "apart sz v x y (fst ?r)" "strip x y0 y' (snd ?r)" "ends sz v y (fst ?r) \<le> y'" "y \<le> y'"
    using layoutDown_apart [OF t(1,2) v t(3,4) Cons.prems(2), of sz] by blast
  have "apart sz v x y' (concat (fst (layout_down sz v right ts (snd ?r))))" using Cons.IH [OF _ y'(2)] Cons.prems(1) by simp
  thus ?case using apart_from [OF y'(1,3)] by (simp add: Let_def)
qed simp

lemma thread_place_layer:
  "px (layer_pt v (thread_place v right t)) = column v right"
  "py (ad_pix (an_data (List.hd s))) \<le> py (ad_pix (an_data (List.hd t))) \<Longrightarrow>
   py (layer_pt v (thread_place v right s)) \<le> py (layer_pt v (thread_place v right t))"
  by (simp_all add: thread_place_def column_def layer_pt_unproject js_round_mono roundTo_mono [simplified])

lemma threads_sets: "t \<in> set (threads as) \<Longrightarrow> set t \<subseteq> set as"
  using concat_threads [of as] by (metis UN_upper set_concat)

lemma reading_threads: "reading as \<Longrightarrow> t \<in> set (threads as) \<Longrightarrow> reading t"
  using threads_sets [of t as] by (auto simp: reading_def list_all_iff)

definition box_bottom :: "asize \<Rightarrow> mview \<Rightarrow> anno \<Rightarrow> real" where
  "box_bottom sz v a = py (bmax (anno_bounds sz v a))"

lemma apart_column:
  "apart sz v x y as \<Longrightarrow> (\<forall>a\<in>set as. box_left v a = x) \<and> sorted_wrt (\<lambda>a b. box_bottom sz v a \<le> box_top v b) as \<and> (\<forall>a\<in>set as. y \<le> box_top v a)"
proof (induction as arbitrary: y)
  case (Cons a as)
  from Cons.prems have "apart sz v x (box_top v a + anno_height sz a) as" by simp
  from Cons.IH [OF this] Cons.prems show ?case by (auto simp: box_bottom_def anno_bounds_simps intro: order_trans)
qed simp


lemma reading_at_zoom [simp]: "reading (map (at_zoom g zoom) as) = reading as"
  by (simp add: reading_def list.pred_map o_def at_zoom_def)

text \<open>The height of an anchor in the layout. The column starts at the anchor the first comment had before.\<close>

definition pix_y :: "grid \<Rightarrow> bool \<Rightarrow> adata \<Rightarrow> real" where
  "pix_y g zoom d = py (if zoom then twipsToPixels g (bmin (ad_pos d)) else ad_pix d)"

definition first_highest :: "grid \<Rightarrow> bool \<Rightarrow> anno list \<Rightarrow> bool" where
  "first_highest g zoom as \<longleftrightarrow> (case as of [] \<Rightarrow> True
     | a # _ \<Rightarrow> list_all (\<lambda>b. py (ad_pix (an_data a)) \<le> pix_y g zoom (an_data b)) as)"

lemma pix_y_at_zoom: "py (ad_pix (an_data (at_zoom g zoom a))) = pix_y g zoom (an_data a)"
  by (simp add: at_zoom_def pix_y_def)

lemma threads_hd: "t \<in> set (threads as) \<Longrightarrow> List.hd t \<in> set as"
  using threads_sets threads_Nil by (metis hd_in_set subsetD)

lemma layout_all_apart:
  assumes "reading (cm_items c)" "first_highest (cm_grid c) zoom (cm_items c)" "integral (mv_pixelOrigin (cm_view c))"
  shows "\<exists>y. apart sz (cm_view c) (column (cm_view c) right) y (cm_items (layout_all sz nothing zoom right c))"
proof (cases "cm_items c")
  case (Cons a as)
  let ?v = "cm_view c" and ?bs = "map (at_zoom (cm_grid c) zoom) (a # as)"
  let ?x = "column ?v right" and ?start = "layer_pt ?v (thread_place ?v right [a])"
  have start: "?start = pt ?x (py ?start)" by (rule pt_eq) (simp_all add: thread_place_layer)
  have i: "?x \<in> \<int>" "py ?start \<in> \<int>"
    using layer_pt_integral [OF assms(3)] start by (simp_all add: integral_def column_def)
  have "bmin (new_bounds ?start ?start) = ?start \<and> bmax (new_bounds ?start ?start) = ?start"
    by (simp add: new_bounds_def bounds_extend_def point_clone_def new_point_def)
  hence lb: "strip ?x (py ?start) (py ?start) (new_bounds ?start ?start)" using start i by (simp add: strip_def)
  have "t \<noteq> [] \<and> reading t \<and> (\<exists>yp. layer_pt ?v (thread_place ?v right t) = pt ?x yp \<and> py ?start \<le> yp)"
    if t: "t \<in> set (threads ?bs)" for t
  proof (intro conjI exI)
    show "t \<noteq> []" using t by (rule threads_Nil)
    show "reading t" by (rule reading_threads [OF _ t]) (simp only: reading_at_zoom assms(1) Cons [symmetric])
    show "layer_pt ?v (thread_place ?v right t) = pt ?x (py (layer_pt ?v (thread_place ?v right t)))"
      by (rule pt_eq) (simp_all add: thread_place_layer)
    obtain b where "b \<in> set (a # as)" "List.hd t = at_zoom (cm_grid c) zoom b" using threads_hd [OF t] by auto
    hence "py (ad_pix (an_data a)) \<le> py (ad_pix (an_data (List.hd t)))"
      using assms(2) Cons by (auto simp: first_highest_def list_all_iff pix_y_at_zoom)
    thus "py ?start \<le> py (layer_pt ?v (thread_place ?v right t))" by (intro thread_place_layer(2)) simp
  qed
  hence "apart sz ?v ?x (py ?start) (concat (fst (layout_down sz ?v right (threads ?bs) (new_bounds ?start ?start))))"
    by (intro layout_down_apart [OF assms(3) refl _ lb]) blast
  thus ?thesis using Cons by (auto simp: layout_all_def Let_def)
qed (simp add: layout_all_def)

text \<open>The scales change nothing that the places depend on.\<close>

lemma updateScaling_simps:
  "map (\<lambda>a. (an_data a, an_mode a)) (cm_items (updateScaling cf c)) = map (\<lambda>a. (an_data a, an_mode a)) (cm_items c)"
  "cm_users (updateScaling cf c) = cm_users c" "cm_selected (updateScaling cf c) = cm_selected c"
proof -
  have e: "map ((\<lambda>a. (an_data a, an_mode a)) \<circ> (\<lambda>(k, a). a\<lparr>an_scale := f k\<rparr>)) (List.enumerate n as) =
      map (\<lambda>a. (an_data a, an_mode a)) as" for f n and as :: "anno list"
    by (induction as arbitrary: n) auto
  show "map (\<lambda>a. (an_data a, an_mode a)) (cm_items (updateScaling cf c)) = map (\<lambda>a. (an_data a, an_mode a)) (cm_items c)"
    by (simp add: updateScaling_def Let_def e)
qed (simp_all add: updateScaling_def Let_def)

lemma same_data_reading: "map (\<lambda>a. (an_data a, an_mode a)) as = map (\<lambda>a. (an_data a, an_mode a)) bs \<Longrightarrow> reading as = reading bs"
proof -
  assume "map (\<lambda>a. (an_data a, an_mode a)) as = map (\<lambda>a. (an_data a, an_mode a)) bs"
  hence "map snd (map (\<lambda>a. (an_data a, an_mode a)) as) = map snd (map (\<lambda>a. (an_data a, an_mode a)) bs)" by simp
  hence "list_all (\<lambda>m. m = Reading) (map an_mode as) = list_all (\<lambda>m. m = Reading) (map an_mode bs)" by (simp add: o_def)
  thus ?thesis by (simp add: reading_def list.pred_map o_def)
qed

lemma same_data_first:
  assumes "map (\<lambda>a. (an_data a, an_mode a)) as = map (\<lambda>a. (an_data a, an_mode a)) bs"
  shows "first_highest g zoom as = first_highest g zoom bs"
proof -
  have f: "first_highest g zoom cs = (case map an_data cs of [] \<Rightarrow> True | d # _ \<Rightarrow> list_all (\<lambda>e. py (ad_pix d) \<le> pix_y g zoom e) (map an_data cs))"
    for cs by (cases cs) (simp_all add: first_highest_def list.pred_map o_def)
  have e: "map an_data as = map an_data bs"
    using arg_cong [OF assms, of "map fst"] by (simp add: o_def)
  show ?thesis unfolding f e by (rule refl)
qed




section \<open>The scale of the boxes\<close>

lemma scale_mono: "y \<le> z \<Longrightarrow> crs_scale crs_simple y \<le> crs_scale crs_simple z"
  by (simp add: crs_simple_def power_int_increasing)

text \<open>
  On mobile devices the boxes are never scaled below 0.4 nor above 1.5, and zooming in never makes them smaller.\<close>

theorem scale_factor_bounded:
  "4 / 10 \<le> getScaleFactor c \<and> getScaleFactor c \<le> 15 / 10 \<and>
   (g_optZoom (cm_grid d) = g_optZoom (cm_grid c) \<and> mv_zoom (cm_view c) \<le> mv_zoom (cm_view d) \<longrightarrow>
     getScaleFactor c \<le> getScaleFactor d)"
proof (intro conjI impI)
  define f :: "real \<Rightarrow> real" where
    "f s = (if s < 4 / 10 then 4 / 10 else if s < 6 / 10 then 6 / 10 - (6 / 10 - s) / 2 else if s < 8 / 10 then 8 / 10
         else if s \<le> 2 then 1 else min (15 / 10) (1 + (s - 1) / 10))" for s
  have g: "getScaleFactor c = f (1 / getZoomScale (cm_view c) (g_optZoom (cm_grid c)) (Some (mv_zoom (cm_view c))))" for c
    by (simp add: getScaleFactor_def f_def Let_def)
  have b: "4 / 10 \<le> f s \<and> f s \<le> 15 / 10" for s unfolding f_def min_def by (auto simp: field_simps)
  show "4 / 10 \<le> getScaleFactor c" "getScaleFactor c \<le> 15 / 10" using b by (simp_all add: g)
  have m: "f s \<le> f t" if "s \<le> t" for s t using that unfolding f_def min_def by (auto simp: field_simps)
  assume a: "g_optZoom (cm_grid d) = g_optZoom (cm_grid c) \<and> mv_zoom (cm_view c) \<le> mv_zoom (cm_view d)"
  show "getScaleFactor c \<le> getScaleFactor d"
    unfolding g by (rule m) (use a scale_mono simple_scale_pos in \<open>simp add: getZoomScale_def divide_right_mono less_imp_le\<close>)
qed

lemma scale_factor_bounded_witness:
  "getScaleFactor demo_comments \<le> getScaleFactor demo_comments \<and> getScaleFactor demo_comments \<le> 15 / 10"
  using scale_factor_bounded [of demo_comments demo_comments] by simp

section \<open>What the layout and the manager do not do\<close>

text \<open>A reply that arrives in the selected thread is put in its place and stays hidden.\<close>

lemma children_stay_hidden: "map an_visible (fst (place_children sz v as lb)) = map an_visible as"
  by (induction sz v as lb rule: place_children.induct) (auto simp: Let_def anno_move_def)

text \<open>The bounds of all comments are those of the first, when it is hidden and only the second is visible.\<close>

lemma bounds_of_hidden: "\<not> an_visible a \<Longrightarrow> an_visible b \<Longrightarrow> all_bounds sz v [a, b] = Some (anno_bounds sz v a)"
  by (simp add: all_bounds_def)

text \<open>The selected change is still selected when all changes are taken out: the layout throws.\<close>

lemma cleared_change_stays_selected:
  assumes "cm_ok c" "selected_now c = Some s" "s \<in> set (cm_items c)" "ad_change (an_data s)"
  shows "selected_now (clearChanges c) = Some s \<and> selected_thread s (cm_items (clearChanges c)) = None"
proof -
  let ?as = "filter (\<lambda>a. \<not> ad_change (an_data a)) (cm_items c)"
  have i: "an_key a \<noteq> an_key s \<and> ad_id (an_data a) \<noteq> ad_id (an_data s)" if "a \<in> set ?as" for a
    using that assms(1,3,4) by (auto simp: cm_ok_def threads_ok_def ids_def distinct_map inj_on_def)
  hence "find (\<lambda>a. an_key a = an_key s) ?as = None" by (auto simp: find_None_iff)
  moreover have "index_of (ad_id (an_data s)) ?as = None" using i by (fastforce simp: index_of_None ids_def)
  ultimately show ?thesis
    using assms(2) by (simp add: clearChanges_def drop_items_def selected_now_def selected_thread_def getRootIndexOf_def)
qed

text \<open>After an edit was cancelled, the field keeps the text of that time: when another user has changed the comment since,
  leaving the field saves the old text over the new one.\<close>

lemma cancelled_text_comes_back:
  assumes "ad_text d \<noteq> an_origText a"
  shows "let b = setData d (anno_show (a\<lparr>an_typed := Some (an_origText a), an_replyText := []\<rparr>))
    in onLostFocus cf target sz nothing (anno_edit b) = onSaveComment cf target sz nothing (anno_edit b) \<and> edited_text (anno_edit b) = an_origText a"
  using assms by (simp add: onLostFocus_def edited_text_def anno_edit_def setData_def anno_show_def)

text \<open>After zooming out, the column starts at the anchor that the first comment had before; comments above that point are not
  pushed apart.\<close>

definition zoomed_anno :: "nat \<Rightarrow> string \<Rightarrow> real \<Rightarrow> anno" where
  "zoomed_anno n k y = (let a = demo_anno n k ''0'' []; d = an_data a
     in a\<lparr>an_data := d\<lparr>ad_pos := new_bounds (pt 0 y) (pt 0 y), ad_pix := pt 0 1000\<rparr>\<rparr>)"

definition demo_zoomed :: cmanager where
  "demo_zoomed = demo_comments\<lparr>cm_items := [zoomed_anno 2 ''1'' 7500, zoomed_anno 3 ''2'' 7800]\<rparr>"


lemma layoutDown_free:
  assumes "\<not> bounds_intersects lb (anno_bounds sz v (anno_move p a))"
  shows "layoutDown sz v right [a] p lb = (place_thread sz v [a] (pt (column v right) (py (layer_pt v p))),
    below (grow_to lb (pt (px (bmax lb)) (py (layer_pt v p) + anno_height sz a))) marginY)"
  using assms by (simp add: layoutDown_def thread_bounds_def Let_def anno_bounds_simps box_top_def)

lemma thread_place_whole:
  assumes "py (ad_pix (an_data a)) = of_int n" "mv_pixelOrigin v = pt 0 0"
  shows "layer_pt v (thread_place v right [a]) = pt (column v right) (of_int n)"
proof (rule pt_eq)
  have "roundTo (of_int n) (1 / 10 ^ 6) = of_int n" by (simp add: roundTo_def js_round_def Let_def flip: of_int_mult)
  thus "py (layer_pt v (thread_place v right [a])) = of_int n"
    using assms by (simp add: thread_place_def layer_pt_unproject js_round_def)
qed (simp add: thread_place_layer)

lemma place_thread_top:
  assumes "mv_pixelOrigin v = pt 0 0"
  shows "map (box_top v) (place_thread sz v [a] (pt (column v right) (of_int n))) = [of_int n]"
  using layer_pt_latlng [of "pt (column v right) (of_int n)" v] layer_pt_integral [of v "unproject v (pt (right + marginX) 0) None"] assms
  by (simp add: Let_def box_top_def integral_def column_def)

lemma zoomed_out_comments_overlap:
  assumes "sz = (\<lambda>d m r. (200, if ad_id d = ''1'' then 100 else 50))" "\<not> isMobile cf"
  shows "let as = cm_items (doLayout cf sz nothing True demo_zoomed); v = cm_view demo_zoomed
    in map (\<lambda>a. (ad_id (an_data a), box_top v a)) as = [(''1'', 500), (''2'', 520)]"
proof -
  let ?v = "cm_view demo_zoomed" and ?db = "new_llbounds (ll (- 64) 0) (ll 0 64)"
  let ?right = "px (project ?v (northEast ?db) None)"
  let ?x = "column ?v ?right"
  let ?z = "at_zoom (cm_grid demo_zoomed) True"
  let ?a = "?z (zoomed_anno 2 ''1'' 7500)" and ?b = "?z (zoomed_anno 3 ''2'' 7800)"
  have v: "mv_loaded ?v" "mv_docBounds ?v = Some ?db" "mv_pixelOrigin ?v = pt 0 0"
    by (simp_all add: demo_zoomed_def demo_comments_def on_layer_def on_grid_def demo_users_def demo_layer_def demo_grid_def demo_view_def)
  have i: "cm_items demo_zoomed = [zoomed_anno 2 ''1'' 7500, zoomed_anno 3 ''2'' 7800]" by (simp add: demo_zoomed_def)
  have pix: "py (ad_pix (an_data ?a)) = of_int 500" "py (ad_pix (an_data ?b)) = of_int 520" "py (ad_pix (an_data (zoomed_anno 2 ''1'' 7500))) = of_int 1000"
    by (simp_all add: at_zoom_def zoomed_anno_def Let_def twipsToPixels_def demo_zoomed_def demo_comments_def on_layer_def
        on_grid_def demo_users_def demo_layer_def demo_grid_def new_bounds_def bounds_extend_def point_clone_def new_point_def)
  have ids: "ad_id (an_data ?a) = ''1''" "ad_id (an_data ?b) = ''2''" "ad_parent (an_data ?b) = Some ''0''"
    by (simp_all add: at_zoom_def zoomed_anno_def demo_anno_def Let_def)
  have size: "anno_size sz ?a = (200, 100)" "anno_size sz ?b = (200, 50)" using ids by (simp_all add: anno_size_def assms(1))
  have ts: "threads [?a, ?b] = [[?a], [?b]]" by (simp add: linked_def ids)
  note place = thread_place_whole [OF pix(1) v(3), of ?right] thread_place_whole [OF pix(2) v(3), of ?right] thread_place_whole [OF pix(3) v(3), of ?right]
  let ?s = "pt ?x 1000"
  let ?lb = "new_bounds ?s ?s" and ?p = "thread_place ?v ?right [?a]" and ?q = "thread_place ?v ?right [?b]"
  have 1: "layoutDown sz ?v ?right [?a] ?p ?lb = (place_thread sz ?v [?a] (pt ?x 500), below (grow_to ?lb (pt ?x 600)) marginY)"
    by (subst layoutDown_free) (simp_all add: bounds_intersects_def Let_def anno_bounds_simps box_left_def box_top_def place size
        new_bounds_def bounds_extend_def point_clone_def new_point_def)
  let ?lb2 = "below (grow_to ?lb (pt ?x 600)) marginY"
  have 2: "fst (layoutDown sz ?v ?right [?b] ?q ?lb2) = place_thread sz ?v [?b] (pt ?x 520)"
    by (subst layoutDown_free) (simp_all add: bounds_intersects_def Let_def anno_bounds_simps box_left_def box_top_def place size
        new_bounds_def bounds_extend_def point_clone_def new_point_def below_def point_simps marginY_def)
  have d: "cm_items (doLayout cf sz nothing True demo_zoomed) = place_thread sz ?v [?a] (pt ?x 500) @ place_thread sz ?v [?b] (pt ?x 520)"
  proof -
    have sel: "cm_selected demo_zoomed = None" by (simp add: demo_zoomed_def demo_comments_def)
    have "doLayout cf sz nothing True demo_zoomed = layout_all sz nothing True ?right demo_zoomed"
      using v(1,2) assms(2) by (simp add: doLayout_def updateScaling_def selected_now_def Let_def sel)
    moreover have "cm_items (layout_all sz nothing True ?right demo_zoomed) =
        concat (fst (layout_down sz ?v ?right [[?a], [?b]] ?lb))"
      using ts place(3) by (simp add: layout_all_def i Let_def del: threads.simps)
    moreover have "fst (layout_down sz ?v ?right [[?a], [?b]] ?lb) = [place_thread sz ?v [?a] (pt ?x 500), place_thread sz ?v [?b] (pt ?x 520)]"
      by (simp only: layout_down.simps 1 2 Let_def fst_conv snd_conv)
    ultimately show ?thesis by (simp only: concat.simps append_Nil2)
  qed
  have k: "map (\<lambda>e. ad_id (an_data e)) (place_thread sz ?v [?a] q) = [''1'']" "map (\<lambda>e. ad_id (an_data e)) (place_thread sz ?v [?b] q) = [''2'']" for q
    by (simp_all add: Let_def anno_show_def anno_move_def ids)
  have t: "map (box_top ?v) (place_thread sz ?v [?a] (pt ?x 500)) = [500]" "map (box_top ?v) (place_thread sz ?v [?b] (pt ?x 520)) = [520]"
    using place_thread_top [OF v(3), of sz ?a ?right 500] place_thread_top [OF v(3), of sz ?b ?right 520] by simp_all
  show ?thesis using k t by (simp add: d Let_def)
qed

end
