(* ===== verification/Spec2Isabelle.thy ===== *)
theory Spec2Isabelle
  imports PolyUtil Headers Events Menus Mouse CommentLayout
begin

text \<open>
  The browser client of the office server (\<open>loleaflet/src\<close>). A document is rendered by the server as
  tiles; the client keeps a view of it, asks for the tiles of the view over one socket, shows what
  arrives, sends input and commands, and reacts to the server's messages.

  \<^item> \<open>Prelude\<close>: JavaScript values (rounding, strings, numbers in texts, objects as dictionaries) and
    two interfaces, \<open>codec\<close> (string keys) and \<open>event_machine\<close> (invariants of runs).
  \<^item> \<open>Geometry\<close>, \<open>LineUtil\<close>, \<open>PolyUtil\<close> (\<open>geometry/*.js\<close>): points, bounds, transformations, polyline
    simplification, clipping of segments and polygons. \<open>Geo\<close> (\<open>geo/*.js\<close>): coordinates, their bounds,
    reference systems with the interface \<open>projection\<close>. \<open>Util\<close> (\<open>core/Util.js\<close>): numbers, words,
    \<open>throttle\<close> as a machine.
  \<^item> \<open>Effects\<close>: the log of what a handler does outside (texts sent, events, calls of DOM and dialog
    code). \<open>ServerCmd\<close>: \<open>parseServerCmd\<close>. \<open>Session\<close>, \<open>Permission\<close>, \<open>SocketMsg\<close> (\<open>core/Socket.js\<close>,
    \<open>control/Permission.js\<close>, the activity part of \<open>map/Map.js\<close>): the session record, sending and
    queueing, every event of the socket and of the user as one step \<open>sstep\<close>; its invariants rest on
    the interface \<open>session_pred\<close>.
  \<^item> \<open>MapView\<close> (\<open>map/Map.js\<close>, \<open>map/anim\<close>, \<open>dom/PosAnimation.js\<close>): zoom, projection, limits of the
    centre, panning and zooming. A method that throws before the map has a view gives \<open>None\<close>.
  \<^item> \<open>GridLayer\<close>, with its facts in \<open>Tiles\<close> (\<open>layer/tile/GridLayer.js\<close>): the tiles and their cache, the
    requests, cancelling, pruning, fetching ahead. \<open>DocLayer\<close> (\<open>control/Parts.js\<close>, \<open>sendUnoCommand\<close>
    and \<open>forceCellCommit\<close> of \<open>control/Toolbar.js\<close>, \<open>map/handler/Map.StateChanges.js\<close>): the document
    layer around the grid, its parts and the commands. \<open>TileMsg\<close> (\<open>TileLayer.js\<close> and its three
    subclasses): tiles and deltas that arrive, invalidation, status and part messages, input.
  \<^item> \<open>Json\<close>: the texts \<open>JSON.stringify\<close> writes and \<open>JSON.parse\<close> reads, with the round trip.
    \<open>Merge\<close> (\<open>L.PolyUtil.rectanglesToPolygons\<close>): the outlines of a selection made of rectangles.
    \<open>Views\<close> (\<open>TileLayer.js\<close>, \<open>map/Map.js\<close>, \<open>core/LOUtil.js\<close>): the other users, their cursors, frames and
    selections, following them; every message about them is a step of \<open>ustep\<close>.
  \<^item> \<open>HeaderData\<close>, \<open>Headers\<close> (\<open>control/Control.Header.js\<close>, \<open>Control.RowHeader.js\<close>,
    \<open>Control.ColumnHeader.js\<close>): the row and column headers of a sheet: the runs of equal sizes, the
    positions computed from them, filling from the server's JSON, pointer, resizing, outlines. Their
    loops run by measures over the runs.
  \<^item> \<open>Selections\<close> (\<open>TileLayer.js\<close>): text selections and handles, cell cursor, areas, the validity
    button, scrolling to the cursor. \<open>Shapes\<close> (\<open>TileLayer.js\<close>, \<open>layer/vector/SVGGroup.js\<close>): the
    selection of a shape, its dragging, scaling and rotating; \<open>shape_step\<close> collects the events.
  \<^item> \<open>Dialogs\<close> (\<open>control/Control.LokDialog.js\<close>): the dialogs the server renders, their records, pop-ups,
    floating children and touch targets, the rectangles asked for and the cache of images.
  \<^item> \<open>Commands\<close> (\<open>control/Toolbar.js\<close>, \<open>control/Control.Menubar.js\<close>): the requests of the tool bar, the tables of
    commands and shortcuts, building and using the menus, on the record \<open>app\<close> around the table of users.
    \<open>Wopi\<close> (\<open>map/handler/Map.WOPI.js\<close>): the page that embeds the client, its requests and what it is told.
    \<open>Menus\<close>: the tables and menus as they are written in the files, and the general facts brought to them.
  \<^item> \<open>Keyboard\<close>, \<open>Mouse\<close> (\<open>map/handler/Map.Keyboard.js\<close>, \<open>Map.Mouse.js\<close>): from the browser's key, input method and
    mouse events to the messages; timers are flags and their expiry is an input.
  \<^item> \<open>Comments\<close> (\<open>layer/AnnotationManager.js\<close>, \<open>layer/marker/Annotation.js\<close>): the comments and tracked changes of text
    documents, their threads, editing and layout; every message and every click is an event of \<open>cm_step\<close>.
    \<open>CommentThreads\<close>: all events keep the threads together. \<open>CommentLayout\<close>: the boxes do not cover each other.
  \<^item> \<open>Events\<close> (\<open>core/Events.js\<close>): the event mixin, with its listeners in a store and a \<open>fire\<close> that the
    listeners interrupt as a machine over a stack of frames; the interface \<open>world_pred\<close> gives what every
    run keeps. The other theories record the events they fire in their log.

  How they interact: the grid holds the view (\<open>g_view\<close>) and the session (\<open>g_net\<close>), the document layer
  holds the grid (\<open>l_grid\<close>), so that one state goes through every handler, and a property about what
  is sent is a statement about the session's log.

  Numbers are unbounded integers where the code computes integers and reals where it divides;
  rounding errors of doubles are outside. Pixel bytes are 8-bit words. Loops are structural or have
  a measure; the one that may not end (\<open>getBoundsZoom\<close> without a highest zoom level) is a partial
  function, and its termination otherwise is proved. \<open>_retainParent\<close> ends five levels down, the
  segment clipping after five rounds: with four edges that is enough, as its property shows.

  Not modelled: the DOM, SVG and canvas rendering, the client's own dialogs, context menus and tool bar
  widgets (their calls are entries of the log), the comments of spreadsheets and
  presentations, previews, the vendored scripts, the
  administration pages, and the server itself, whose messages are arbitrary inputs.
\<close>

end
